(* ===== verification/Prelude.thy ===== *)
theory Prelude
  imports Main "HOL-Library.Word" "HOL-Library.Multiset" "HOL-Library.Sublist"
    "HOL-Library.Char_ord" "HOL-Library.List_Lexorder"
begin

text \<open>
  Shared vocabulary of the development: the result type of fallible operations
  (a sum, the error on the left), instants and durations as integers of
  milliseconds, bounded queues that lose entries at the front, the list
  operations that stand for the rows of a SQL table (find, update and delete by
  predicate) and the character classes the validators of the code use.
\<close>

named_theorems inv_intros \<open>preservation lemmas of the component invariants\<close>
named_theorems row_simps \<open>how table operations act on keys, lookups and sizes\<close>

type_synonym millis = int
type_synonym ('e, 'a) result = "'e + 'a"

text \<open>A text whose characters matter beyond ASCII is the list of its Unicode scalar values, as
  \<^verbatim>\<open>chars()\<close> yields them.\<close>

type_synonym chars = "nat list"

definition text_chars :: "string \<Rightarrow> chars" where "text_chars s = map of_char s"

abbreviation Ok :: "'a \<Rightarrow> 'e + 'a" where "Ok \<equiv> Inr"
abbreviation Err :: "'e \<Rightarrow> 'e + 'a" where "Err \<equiv> Inl"

abbreviation secs :: "int \<Rightarrow> millis" where "secs n \<equiv> 1000 * n"

definition is_ok :: "'e + 'a \<Rightarrow> bool" where
  "is_ok r = (case r of Inl _ \<Rightarrow> False | Inr _ \<Rightarrow> True)"

lemma is_ok_simps [simp]: "is_ok (Inr x)" "\<not> is_ok (Inl e)"
  by (simp_all add: is_ok_def)

lemma is_ok_iff: "is_ok r \<longleftrightarrow> (\<exists>x. r = Inr x)"
  by (cases r) auto

definition bind_result :: "'e + 'a \<Rightarrow> ('a \<Rightarrow> 'e + 'b) \<Rightarrow> 'e + 'b" where
  "bind_result r f = (case r of Inl e \<Rightarrow> Inl e | Inr x \<Rightarrow> f x)"

lemma bind_result_simps [simp]:
  "bind_result (Inl e) f = Inl e" "bind_result (Inr x) f = f x"
  by (simp_all add: bind_result_def)

lemma bind_result_Inr:
  "bind_result r f = Inr y \<longleftrightarrow> (\<exists>x. r = Inr x \<and> f x = Inr y)"
  by (cases r) auto

text \<open>The guard that ends an operation early with an error.\<close>

definition ensure :: "bool \<Rightarrow> 'e \<Rightarrow> 'e + unit" where
  "ensure b e = (if b then Inr () else Inl e)"

lemma ensure_Inr [simp]: "ensure b e = Inr u \<longleftrightarrow> b"
  by (simp add: ensure_def)

lemma ensure_Inl [simp]: "ensure b e = Inl e' \<longleftrightarrow> \<not> b \<and> e' = e"
  by (auto simp: ensure_def)

text \<open>A time window over a queue: entries older than the cutoff leave at the front.\<close>

definition evict_before :: "millis \<Rightarrow> millis list \<Rightarrow> millis list" where
  "evict_before cutoff q = dropWhile (\<lambda>t. t < cutoff) q"

lemma evict_sorted_filter:
  "sorted q \<Longrightarrow> evict_before c q = filter (\<lambda>t. c \<le> t) q"
proof (induction q)
  case (Cons t q)
  show ?case
  proof (cases "t < c")
    case True
    then show ?thesis using Cons by (simp add: evict_before_def)
  next
    case False
    moreover have "filter (\<lambda>t. c \<le> t) q = q"
      using False Cons.prems by (fastforce intro: filter_True)
    ultimately show ?thesis by (simp add: evict_before_def)
  qed
qed (simp add: evict_before_def)

lemma sorted_evict: "sorted q \<Longrightarrow> sorted (evict_before c q)"
  by (simp add: evict_sorted_filter sorted_wrt_filter)

lemma set_evict: "set (evict_before c q) \<subseteq> set q"
  unfolding evict_before_def by (meson set_dropWhileD subsetI)

lemma length_evict: "length (evict_before c q) \<le> length q"
  unfolding evict_before_def by (rule length_dropWhile_le)

text \<open>Tables are lists of rows in row-id order; a write goes to every row that
  satisfies the condition of its WHERE clause.\<close>

definition update_where :: "('r \<Rightarrow> bool) \<Rightarrow> ('r \<Rightarrow> 'r) \<Rightarrow> 'r list \<Rightarrow> 'r list" where
  "update_where c f t = map (\<lambda>r. if c r then f r else r) t"

definition delete_where :: "('r \<Rightarrow> bool) \<Rightarrow> 'r list \<Rightarrow> 'r list" where
  "delete_where c t = filter (\<lambda>r. \<not> c r) t"

definition count_where :: "('r \<Rightarrow> bool) \<Rightarrow> 'r list \<Rightarrow> nat" where
  "count_where c t = length (filter c t)"

lemma update_where_length [row_simps]: "length (update_where c f t) = length t"
  by (simp add: update_where_def)

lemma update_where_key [row_simps]:
  "(\<And>r. k (f r) = k r) \<Longrightarrow> map k (update_where c f t) = map k t"
  by (simp add: update_where_def)

lemma set_update_where:
  "r \<in> set (update_where c f t) \<longleftrightarrow> (\<exists>r0 \<in> set t. r = (if c r0 then f r0 else r0))"
  by (auto simp: update_where_def)

lemma ex_update_where:
  "(\<exists>r \<in> set (update_where c f t). P r) \<longleftrightarrow> (\<exists>r \<in> set t. P (if c r then f r else r))"
  by (auto simp: update_where_def)

lemma set_delete_where [row_simps]: "set (delete_where c t) = {r \<in> set t. \<not> c r}"
  by (auto simp: delete_where_def)

lemma delete_where_distinct [row_simps]:
  "distinct (map k t) \<Longrightarrow> distinct (map k (delete_where c t))"
  by (simp add: delete_where_def distinct_map_filter)

lemma delete_where_length: "length (delete_where c t) \<le> length t"
  by (simp add: delete_where_def)

lemma delete_where_count [row_simps]:
  "length (delete_where c t) + count_where c t = length t"
  unfolding delete_where_def count_where_def
  by (metis add.commute sum_length_filter_compl)

lemma count_where_0: "count_where c t = 0 \<longleftrightarrow> (\<forall>r \<in> set t. \<not> c r)"
  by (auto simp: count_where_def filter_empty_conv)

lemma count_where_key_le1:
  assumes "distinct (map k t)"
  shows "count_where (\<lambda>r. k r = x \<and> p r) t \<le> 1"
  using assms unfolding count_where_def
proof (induction t)
  case (Cons r t)
  show ?case
  proof (cases "k r = x")
    case True
    then have "filter (\<lambda>r. k r = x \<and> p r) t = []"
      using Cons.prems by (auto simp: filter_empty_conv) (metis image_eqI)
    then show ?thesis by simp
  qed (use Cons in auto)
qed simp

lemma delete_where_delete:
  "delete_where c (delete_where d t) = delete_where (\<lambda>r. d r \<or> c r) t"
  by (simp add: delete_where_def conj_commute)

lemma delete_where_update:
  "(\<And>r. d (f r) = d r) \<Longrightarrow> delete_where d (update_where c f t) = update_where c f (delete_where d t)"
  by (induction t) (auto simp: delete_where_def update_where_def)

lemma update_where_update:
  "(\<And>r. \<not> c (f r)) \<Longrightarrow> update_where c f (update_where d f t) = update_where (\<lambda>r. d r \<or> c r) f t"
  by (auto simp: update_where_def)

lemma update_where_False [simp]: "update_where (\<lambda>r. False) f t = t"
  by (simp add: update_where_def)

lemma delete_where_False [simp]: "delete_where (\<lambda>r. False) t = t"
  by (simp add: delete_where_def)

lemma delete_where_append: "delete_where c (t @ u) = delete_where c t @ delete_where c u"
  by (simp add: delete_where_def)

lemma delete_keys_length:
  assumes "distinct (map k t)" and "distinct ks" and "set ks \<subseteq> k ` set t"
  shows "length (delete_where (\<lambda>r. k r \<in> set ks) t) + length ks = length t"
proof -
  have "set (map k (filter (\<lambda>r. k r \<in> set ks) t)) = set ks"
    using assms(3) by auto
  moreover have "distinct (map k (filter (\<lambda>r. k r \<in> set ks) t))"
    using assms(1) by (rule distinct_map_filter)
  ultimately have "count_where (\<lambda>r. k r \<in> set ks) t = length ks"
    using assms(2) unfolding count_where_def by (metis distinct_card length_map)
  then show ?thesis using delete_where_count by metis
qed

lemma distinct_key_unique:
  "distinct (map k t) \<Longrightarrow> r \<in> set t \<Longrightarrow> r' \<in> set t \<Longrightarrow> k r = k r' \<Longrightarrow> r = r'"
  by (metis distinct_map inj_onD)

lemma distinct_map_sort_key:
  "distinct (map k t) \<Longrightarrow> distinct (map k (sort_key f t))"
  by (metis mset_map mset_sort mset_eq_imp_distinct_iff)

text \<open>\<^verbatim>\<open>rows.pop()\<close> on the rows a query returned: the last one.\<close>

definition pop_row :: "'r list \<Rightarrow> 'r option" where
  "pop_row t = (if t = [] then None else Some (last t))"

lemma pop_row_None: "pop_row (filter p t) = None \<longleftrightarrow> (\<forall>r \<in> set t. \<not> p r)"
  by (auto simp: pop_row_def filter_empty_conv)

lemma pop_row_SomeD: "pop_row (filter p t) = Some r \<Longrightarrow> r \<in> set t \<and> p r"
  using last_in_set[of "filter p t"] by (auto simp: pop_row_def split: if_splits)

lemma pop_row_key:
  assumes "distinct (map k t)"
  shows "pop_row (filter (\<lambda>r. k r = x) t) = Some r \<longleftrightarrow> r \<in> set t \<and> k r = x"
proof
  assume r: "r \<in> set t \<and> k r = x"
  then obtain r' where r': "pop_row (filter (\<lambda>r. k r = x) t) = Some r'"
    using pop_row_None[of "\<lambda>r. k r = x" t] by (cases "pop_row (filter (\<lambda>r. k r = x) t)") auto
  from pop_row_SomeD[OF r'] have "r' = r" using r distinct_key_unique[OF assms] by metis
  with r' show "pop_row (filter (\<lambda>r. k r = x) t) = Some r" by simp
qed (auto dest: pop_row_SomeD)

text \<open>\<^verbatim>\<open>Vec::dedup_by\<close>: of consecutive elements with equal keys the first stays.\<close>

fun dedup_by :: "('a \<Rightarrow> 'k) \<Rightarrow> 'a list \<Rightarrow> 'a list" where
  "dedup_by k [] = []"
| "dedup_by k (x # xs) =
     (case dedup_by k xs of [] \<Rightarrow> [x] | y # ys \<Rightarrow> if k x = k y then x # ys else x # y # ys)"

lemma dedup_by_keys: "k ` set (dedup_by k xs) = k ` set xs"
proof (induction xs)
  case (Cons x xs)
  show ?case
  proof (cases "dedup_by k xs")
    case (Cons y ys)
    then have "k ` set xs = insert (k y) (k ` set ys)" using Cons.IH by simp
    then show ?thesis using Cons by simp
  qed (use Cons.IH in auto)
qed simp

lemma dedup_by_subset: "set (dedup_by k xs) \<subseteq> set xs"
  by (induction xs) (auto split: list.splits if_splits)

lemma dedup_by_distinct: "distinct (map k xs) \<Longrightarrow> dedup_by k xs = xs"
  by (induction xs) (auto split: list.splits)

text \<open>Character classes of the validators.\<close>

definition is_lower :: "char \<Rightarrow> bool" where
  "is_lower c = (CHR ''a'' \<le> c \<and> c \<le> CHR ''z'')"

definition is_upper :: "char \<Rightarrow> bool" where
  "is_upper c = (CHR ''A'' \<le> c \<and> c \<le> CHR ''Z'')"

definition is_digit :: "char \<Rightarrow> bool" where
  "is_digit c = (CHR ''0'' \<le> c \<and> c \<le> CHR ''9'')"

definition is_alnum :: "char \<Rightarrow> bool" where
  "is_alnum c = (is_lower c \<or> is_upper c \<or> is_digit c)"

definition is_ascii_ws :: "char \<Rightarrow> bool" where
  "is_ascii_ws c = (c \<in> {CHR '' '', CHR 0x09, CHR 0x0A, CHR 0x0B, CHR 0x0C, CHR 0x0D})"

definition is_control :: "char \<Rightarrow> bool" where
  "is_control c = (of_char c < (32 :: nat) \<or> of_char c = (127 :: nat))"

definition trim :: "string \<Rightarrow> string" where
  "trim s = rev (dropWhile is_ascii_ws (rev (dropWhile is_ascii_ws s)))"

definition to_lower :: "char \<Rightarrow> char" where
  "to_lower c = (if is_upper c then char_of ((of_char c :: nat) + 32) else c)"

definition contains_text :: "string \<Rightarrow> string \<Rightarrow> bool" where
  "contains_text needle hay = list_ex (\<lambda>s. prefix needle s) (suffixes hay)"

fun strip_prefix :: "'a list \<Rightarrow> 'a list \<Rightarrow> 'a list option" where
  "strip_prefix [] s = Some s"
| "strip_prefix (p # ps) [] = None"
| "strip_prefix (p # ps) (c # cs) = (if p = c then strip_prefix ps cs else None)"

definition strip_suffix :: "'a list \<Rightarrow> 'a list \<Rightarrow> 'a list option" where
  "strip_suffix p s = map_option rev (strip_prefix (rev p) (rev s))"

lemma strip_prefix_Some: "strip_prefix p s = Some r \<longleftrightarrow> s = p @ r"
  by (induction p s rule: strip_prefix.induct) auto

lemma strip_suffix_Some: "strip_suffix p s = Some r \<longleftrightarrow> s = r @ p"
  by (auto simp: strip_suffix_def strip_prefix_Some) (metis rev_append rev_rev_ident)

text \<open>Decimal notation of a natural number, as \<^verbatim>\<open>format!\<close> prints it.\<close>

fun string_of_nat :: "nat \<Rightarrow> string" where
  "string_of_nat n =
     (if n < 10 then [char_of (48 + n)]
      else string_of_nat (n div 10) @ [char_of (48 + n mod 10)])"

declare string_of_nat.simps [simp del]

definition nat_of_string :: "string \<Rightarrow> nat" where
  "nat_of_string s = fold (\<lambda>c n. 10 * n + (of_char c - 48)) s 0"

lemma nat_of_string_of_nat: "nat_of_string (string_of_nat n) = n"
proof (induction n rule: string_of_nat.induct)
  case (1 n)
  have d: "of_char (char_of (48 + n mod 10)) = 48 + n mod (10::nat)"
    by (simp add: of_char_of)
  show ?case
  proof (cases "n < 10")
    case True
    then show ?thesis using d by (simp add: string_of_nat.simps nat_of_string_def)
  next
    case False
    then have "nat_of_string (string_of_nat n) = 10 * nat_of_string (string_of_nat (n div 10)) + n mod 10"
      using d by (simp add: string_of_nat.simps[of n] nat_of_string_def)
    then show ?thesis using 1 False by simp
  qed
qed

lemma string_of_nat_inj: "string_of_nat m = string_of_nat n \<longleftrightarrow> m = n"
  by (metis nat_of_string_of_nat)

end
