(* ===== verification/Mem_Circuit.thy ===== *)
theory Mem_Circuit
  imports Prelude
begin

text \<open>
  The circuit breaker and the error classification of the memory client:
  \<^verbatim>\<open>right-memory/src/circuit.rs\<close>, \<^verbatim>\<open>classify.rs\<close>, \<^verbatim>\<open>error.rs\<close> and \<^verbatim>\<open>status.rs\<close>.
  Instants are milliseconds.  Each operation takes the instant \<^verbatim>\<open>now\<close>; the code
  reads the clock several times inside one operation, always under the lock that
  guards the breaker, and the model takes these reads as one instant.
\<close>

section \<open>Errors and their kinds\<close>

datatype error_kind = Transient | RateLimited | Auth | Client | Malformed | Quota

datatype memory_error =
    Db string
  | LeaseConflict string
  | InjectionDetected
  | NotFound int
  | Hindsight nat string
  | HindsightTimeout
  | HindsightConnect string
  | HindsightParse string
  | HindsightOther string

fun classify :: "memory_error \<Rightarrow> error_kind" where
  "classify (Hindsight status _) =
     (if status = 401 \<or> status = 403 then Auth
      else if status = 402 then Quota
      else if status = 429 then RateLimited
      else if status = 400 \<or> status = 404 \<or> status = 410 \<or> status = 422 then Client
      else Transient)"
| "classify HindsightTimeout = Transient"
| "classify (HindsightConnect _) = Transient"
| "classify (HindsightParse _) = Malformed"
| "classify (HindsightOther _) = Transient"
| "classify (Db _) = Transient"
| "classify (LeaseConflict _) = Transient"
| "classify InjectionDetected = Transient"
| "classify (NotFound _) = Transient"

section \<open>The breaker\<close>

definition WINDOW :: millis where "WINDOW = secs 30"
definition TRIP_THRESHOLD :: nat where "TRIP_THRESHOLD = 5"
definition INITIAL_OPEN :: millis where "INITIAL_OPEN = secs 30"
definition MAX_OPEN :: millis where "MAX_OPEN = secs 600"
definition AUTH_OPEN :: millis where "AUTH_OPEN = secs 3600"

lemmas breaker_consts = WINDOW_def TRIP_THRESHOLD_def INITIAL_OPEN_def MAX_OPEN_def AUTH_OPEN_def

datatype circuit_state = Closed | Open millis | HalfOpen

record breaker =
  br_state :: circuit_state
  failures :: "millis list"
  last_open_duration :: millis

datatype outcome = Success | Failure error_kind

definition new_breaker :: breaker where
  "new_breaker = \<lparr>br_state = Closed, failures = [], last_open_duration = INITIAL_OPEN\<rparr>"

definition breaker_refresh :: "millis \<Rightarrow> breaker \<Rightarrow> breaker" where
  "breaker_refresh now b =
     (let st = (case br_state b of
                  Open until \<Rightarrow> if until \<le> now then HalfOpen else Open until
                | s \<Rightarrow> s)
      in b\<lparr>br_state := st, failures := evict_before (now - WINDOW) (failures b)\<rparr>)"

definition breaker_state :: "millis \<Rightarrow> breaker \<Rightarrow> circuit_state \<times> breaker" where
  "breaker_state now b = (let b' = breaker_refresh now b in (br_state b', b'))"

definition admit :: "millis \<Rightarrow> breaker \<Rightarrow> (millis, unit) result \<times> breaker" where
  "admit now b =
     (let b' = breaker_refresh now b
      in (case br_state b' of
            Open until \<Rightarrow> Err (max 0 (until - now))
          | _ \<Rightarrow> Ok (), b'))"

definition push_failure :: "millis \<Rightarrow> breaker \<Rightarrow> breaker" where
  "push_failure at b = b\<lparr>failures := evict_before (at - WINDOW) (failures b @ [at])\<rparr>"

definition trip :: "millis \<Rightarrow> millis \<Rightarrow> breaker \<Rightarrow> breaker" where
  "trip now dur b = b\<lparr>br_state := Open (now + dur), last_open_duration := dur\<rparr>"

text \<open>The branch of \<^verbatim>\<open>record\<close> for the failures that count towards a trip.\<close>

definition record_tick :: "millis \<Rightarrow> breaker \<Rightarrow> breaker" where
  "record_tick now b =
     (let b1 = push_failure now b in
      case br_state b1 of
        Closed \<Rightarrow> if TRIP_THRESHOLD \<le> length (failures b1) then trip now INITIAL_OPEN b1 else b1
      | HalfOpen \<Rightarrow> trip now (min (last_open_duration b1 * 2) MAX_OPEN) b1
      | Open _ \<Rightarrow> b1)"

definition breaker_record :: "millis \<Rightarrow> outcome \<Rightarrow> breaker \<Rightarrow> breaker" where
  "breaker_record now out b0 =
     (let b = breaker_refresh now b0 in
      case out of
        Success \<Rightarrow>
          (if br_state b = HalfOpen
           then b\<lparr>br_state := Closed, failures := [], last_open_duration := INITIAL_OPEN\<rparr>
           else b)
      | Failure Auth \<Rightarrow> trip now AUTH_OPEN b
      | Failure Client \<Rightarrow> b
      | Failure Quota \<Rightarrow> b
      | Failure _ \<Rightarrow> record_tick now b)"

text \<open>The failure kinds that count towards a trip.\<close>

definition ticks :: "error_kind \<Rightarrow> bool" where
  "ticks k = (k \<in> {Transient, RateLimited, Malformed})"

lemma ticks_simps [simp]:
  "ticks Transient" "ticks RateLimited" "ticks Malformed"
  "\<not> ticks Auth" "\<not> ticks Client" "\<not> ticks Quota"
  by (simp_all add: ticks_def)

section \<open>Invariant\<close>

definition breaker_inv :: "millis \<Rightarrow> breaker \<Rightarrow> bool" where
  "breaker_inv now b =
     (sorted (failures b) \<and> (\<forall>t \<in> set (failures b). t \<le> now) \<and>
      INITIAL_OPEN \<le> last_open_duration b \<and> last_open_duration b \<le> AUTH_OPEN \<and>
      (br_state b = Closed \<longrightarrow> length (failures b) < TRIP_THRESHOLD) \<and>
      (\<forall>u. br_state b = Open u \<longrightarrow> u \<le> now + last_open_duration b))"

lemma breaker_inv_mono:
  "breaker_inv now b \<Longrightarrow> now \<le> now' \<Longrightarrow> breaker_inv now' b"
  unfolding breaker_inv_def by fastforce

lemma new_breaker_inv [inv_intros]: "breaker_inv now new_breaker"
  by (simp add: breaker_inv_def new_breaker_def breaker_consts)

lemma refresh_inv [inv_intros]:
  "breaker_inv now b \<Longrightarrow> breaker_inv now (breaker_refresh now b)"
  using length_evict[of "now - WINDOW" "failures b"] set_evict[of "now - WINDOW" "failures b"]
  by (auto simp: breaker_inv_def breaker_refresh_def Let_def sorted_evict
      split: circuit_state.splits if_splits)

lemma push_failure_sorted:
  assumes "breaker_inv now b"
  shows "sorted (failures (push_failure now b))"
    and "\<forall>t \<in> set (failures (push_failure now b)). t \<le> now"
  using assms set_evict[of "now - WINDOW" "failures b @ [now]"]
  by (auto simp: push_failure_def breaker_inv_def sorted_append intro!: sorted_evict)

lemma push_failure_simps [simp]:
  "br_state (push_failure now b) = br_state b"
  "last_open_duration (push_failure now b) = last_open_duration b"
  by (simp_all add: push_failure_def)

lemma trip_inv:
  assumes "sorted (failures b)" "\<forall>t \<in> set (failures b). t \<le> now"
    and "INITIAL_OPEN \<le> d" "d \<le> AUTH_OPEN"
  shows "breaker_inv now (trip now d b)"
  using assms by (simp add: breaker_inv_def trip_def)

lemma record_tick_inv:
  assumes i: "breaker_inv now b"
  shows "breaker_inv now (record_tick now b)"
proof -
  let ?p = "push_failure now b"
  note s = push_failure_sorted[OF i]
  have d: "INITIAL_OPEN \<le> last_open_duration b" "last_open_duration b \<le> AUTH_OPEN"
    using i by (auto simp: breaker_inv_def)
  show ?thesis
  proof (cases "br_state b")
    case Closed
    have "breaker_inv now (trip now INITIAL_OPEN ?p)"
      by (rule trip_inv[OF s]) (simp_all add: breaker_consts)
    moreover have "length (failures ?p) < TRIP_THRESHOLD \<Longrightarrow> breaker_inv now ?p"
      using s d Closed by (simp add: breaker_inv_def)
    ultimately show ?thesis using Closed by (simp add: record_tick_def Let_def)
  next
    case (Open u)
    then show ?thesis using s d i by (simp add: breaker_inv_def record_tick_def Let_def)
  next
    case HalfOpen
    have "breaker_inv now (trip now (min (last_open_duration b * 2) MAX_OPEN) ?p)"
      by (rule trip_inv[OF s]) (use d in \<open>simp_all add: breaker_consts min_def\<close>)
    then show ?thesis using HalfOpen by (simp add: record_tick_def Let_def)
  qed
qed

lemma record_inv [inv_intros]:
  assumes "breaker_inv now b"
  shows "breaker_inv now (breaker_record now out b)"
proof -
  let ?b = "breaker_refresh now b"
  have i: "breaker_inv now ?b" using assms by (rule refresh_inv)
  have tick: "breaker_inv now (record_tick now ?b)" using i by (rule record_tick_inv)
  have auth: "breaker_inv now (trip now AUTH_OPEN ?b)"
    using i by (intro trip_inv) (auto simp: breaker_inv_def breaker_consts)
  have ok: "breaker_inv now (?b\<lparr>br_state := Closed, failures := [], last_open_duration := INITIAL_OPEN\<rparr>)"
    by (simp add: breaker_inv_def breaker_consts)
  show ?thesis
    unfolding breaker_record_def Let_def
    using i tick auth ok by (simp split: outcome.splits error_kind.splits)
qed

section \<open>Behaviour over a history of calls\<close>

text \<open>A history: the breaker is consulted (\<^verbatim>\<open>Admit\<close>) and told outcomes, at instants that
  never run backwards.  Concurrent calls interleave freely in it.\<close>

datatype breaker_event = Admit | Record outcome

fun breaker_step :: "breaker_event \<times> millis \<Rightarrow> breaker \<Rightarrow> breaker" where
  "breaker_step (Admit, t) b = snd (admit t b)"
| "breaker_step (Record out, t) b = breaker_record t out b"

definition breaker_run :: "(breaker_event \<times> millis) list \<Rightarrow> breaker \<Rightarrow> breaker" where
  "breaker_run evs b = fold breaker_step evs b"

lemma breaker_run_simps [simp]:
  "breaker_run [] b = b"
  "breaker_run (e # es) b = breaker_run es (breaker_step e b)"
  "breaker_run (es @ fs) b = breaker_run fs (breaker_run es b)"
  by (simp_all add: breaker_run_def)

fun times_from :: "millis \<Rightarrow> (breaker_event \<times> millis) list \<Rightarrow> bool" where
  "times_from t [] = True"
| "times_from t (e # es) = (t \<le> snd e \<and> times_from (snd e) es)"

lemma admit_inv [inv_intros]: "breaker_inv now b \<Longrightarrow> breaker_inv now (snd (admit now b))"
  by (simp add: admit_def Let_def refresh_inv)

lemma step_inv [inv_intros]:
  "breaker_inv t b \<Longrightarrow> t \<le> s \<Longrightarrow> breaker_inv s (breaker_step (e, s) b)"
  by (cases e) (auto intro: inv_intros breaker_inv_mono)

lemma run_inv:
  "breaker_inv t b \<Longrightarrow> times_from t (evs @ [(e, now)]) \<Longrightarrow>
   breaker_inv now (breaker_run evs b)"
proof (induction evs arbitrary: t b)
  case Nil
  then show ?case by (auto intro: breaker_inv_mono)
next
  case (Cons a evs)
  then show ?case by (cases a) (auto intro: step_inv)
qed

text \<open>While the breaker is open and its deadline lies ahead, no recorded outcome
  closes it or brings the deadline forward.\<close>

lemma open_step:
  assumes "br_state b = Open u" and "t < u" and "breaker_inv t b"
    and "u \<le> t + AUTH_OPEN"
  shows "\<exists>u'. u \<le> u' \<and> br_state (breaker_step (e, t) b) = Open u'"
proof (cases e)
  case Admit
  then show ?thesis using assms by (simp add: admit_def Let_def breaker_refresh_def)
next
  case (Record out)
  have r: "br_state (breaker_refresh t b) = Open u"
    using assms by (simp add: breaker_refresh_def Let_def)
  then show ?thesis using assms Record
    by (auto simp: breaker_record_def Let_def record_tick_def trip_def
        split: outcome.splits error_kind.splits)
qed

lemma inv_open_bound:
  "breaker_inv t b \<Longrightarrow> br_state b = Open u \<Longrightarrow> u \<le> t + AUTH_OPEN"
  by (auto simp: breaker_inv_def)

lemma open_run:
  assumes "br_state b = Open u" and "breaker_inv t b" and "times_from t evs"
    and "\<forall>e \<in> set evs. snd e < u"
  shows "\<exists>u'. u \<le> u' \<and> br_state (breaker_run evs b) = Open u'"
  using assms
proof (induction evs arbitrary: t b u)
  case (Cons a evs)
  obtain e s where a: "a = (e, s)" by (cases a)
  have i: "breaker_inv s b" using Cons.prems a by (auto intro: breaker_inv_mono)
  obtain u' where u': "u \<le> u'" "br_state (breaker_step (e, s) b) = Open u'"
    using open_step[of b u s e] Cons.prems i inv_open_bound a by auto
  have "\<exists>u''. u' \<le> u'' \<and> br_state (breaker_run evs (breaker_step (e, s) b)) = Open u''"
    by (rule Cons.IH[OF u'(2), of s]) (use Cons.prems a u' i step_inv[of s b s e] in force)+
  then show ?case using a u' by fastforce
qed simp

text \<open>The instants of the counting failures of a history.\<close>

fun tick_times :: "(breaker_event \<times> millis) list \<Rightarrow> millis list" where
  "tick_times [] = []"
| "tick_times ((Record (Failure k), t) # es) = (if ticks k then t # tick_times es else tick_times es)"
| "tick_times (_ # es) = tick_times es"

text \<open>A history during which the breaker never leaves the closed state.\<close>

fun stays_closed :: "breaker \<Rightarrow> (breaker_event \<times> millis) list \<Rightarrow> bool" where
  "stays_closed b [] = (br_state b = Closed)"
| "stays_closed b (e # es) = (br_state b = Closed \<and> stays_closed (breaker_step e b) es)"

lemma stays_closed_hd: "stays_closed b es \<Longrightarrow> br_state b = Closed"
  by (cases es) auto

lemma refresh_window:
  assumes "failures b = filter (\<lambda>x. t - WINDOW \<le> x) log" and "sorted log" and "t \<le> s"
  shows "failures (breaker_refresh s b) = filter (\<lambda>x. s - WINDOW \<le> x) log"
  using assms by (auto simp: breaker_refresh_def Let_def evict_sorted_filter sorted_wrt_filter
      intro!: filter_cong)

lemma refresh_closed [simp]:
  "br_state b = Closed \<Longrightarrow> br_state (breaker_refresh s b) = Closed"
  by (simp add: breaker_refresh_def Let_def)

lemma push_window:
  assumes "failures b = filter (\<lambda>x. s - WINDOW \<le> x) log" and "sorted log" and "\<forall>x \<in> set log. x \<le> s"
  shows "failures (push_failure s b) = filter (\<lambda>x. s - WINDOW \<le> x) (log @ [s])"
  using assms by (simp add: push_failure_def evict_sorted_filter sorted_append sorted_wrt_filter WINDOW_def)

lemma record_tick_failures [simp]: "failures (record_tick s b) = failures (push_failure s b)"
  by (simp add: record_tick_def Let_def trip_def split: circuit_state.splits)

lemma record_ticks:
  "ticks k \<Longrightarrow> breaker_record s (Failure k) b = record_tick s (breaker_refresh s b)"
  by (cases k) (auto simp: breaker_record_def Let_def ticks_def)

lemma closed_step:
  assumes c: "br_state b = Closed" and f: "failures b = filter (\<lambda>x. t - WINDOW \<le> x) log"
    and l: "sorted log" "\<forall>x \<in> set log. x \<le> s" and t: "t \<le> s"
    and cl: "br_state (breaker_step (e, s) b) = Closed"
  shows "failures (breaker_step (e, s) b) =
         filter (\<lambda>x. s - WINDOW \<le> x) (log @ tick_times [(e, s)])"
proof -
  note r = refresh_window[OF f l(1) t]
  note p = push_window[OF r l]
  show ?thesis
  proof (cases e)
    case (Record out)
    show ?thesis
    proof (cases out)
      case (Failure k)
      show ?thesis
      proof (cases "ticks k")
        case True
        then show ?thesis using p Record Failure by (simp add: record_ticks)
      next
        case False
        then show ?thesis using r c cl Record Failure
          by (cases k) (auto simp: breaker_record_def Let_def trip_def ticks_def)
      qed
    qed (use r c Record in \<open>simp add: breaker_record_def Let_def\<close>)
  qed (use r in \<open>simp add: admit_def Let_def\<close>)
qed

lemma tick_times_Cons: "tick_times (a # evs) = tick_times [a] @ tick_times evs"
  by (cases "a # evs" rule: tick_times.cases) auto

lemma tick_times_one: "tick_times [(e, s)] = [] \<or> tick_times [(e, s)] = [s]"
  by (cases "[(e, s)]" rule: tick_times.cases) auto

lemma closed_run:
  assumes "stays_closed b evs" and "failures b = filter (\<lambda>x. t - WINDOW \<le> x) log"
    and "sorted log" and "\<forall>x \<in> set log. x \<le> t" and "times_from t (evs @ [(e, now)])"
  shows "br_state (breaker_run evs b) = Closed \<and>
    failures (breaker_refresh now (breaker_run evs b)) =
      filter (\<lambda>x. now - WINDOW \<le> x) (log @ tick_times evs) \<and>
    sorted (log @ tick_times evs) \<and> (\<forall>x \<in> set (log @ tick_times evs). x \<le> now)"
  using assms
proof (induction evs arbitrary: b t log)
  case Nil
  then show ?case using refresh_window[of b t log now] by fastforce
next
  case (Cons a evs)
  obtain e' s where a: "a = (e', s)" by (cases a)
  let ?log = "log @ tick_times [(e', s)]"
  have f: "failures (breaker_step (e', s) b) = filter (\<lambda>x. s - WINDOW \<le> x) ?log"
    using Cons.prems a stays_closed_hd[of "breaker_step (e', s) b" evs]
    by (intro closed_step[where t = t]) (auto intro: order_trans)
  have tt: "tick_times (a # evs) = tick_times [(e', s)] @ tick_times evs"
    unfolding a by (rule tick_times_Cons)
  have mem: "\<forall>x \<in> set (tick_times [(e', s)]). x = s" and srt: "sorted (tick_times [(e', s)])"
    using tick_times_one[of e' s] by auto
  have "sorted ?log" "\<forall>x \<in> set ?log. x \<le> s"
    using Cons.prems a mem srt by (auto simp: sorted_append intro: order_trans)
  then show ?case
    using Cons.IH[of "breaker_step (e', s) b" s ?log] f Cons.prems a tt by auto
qed

text \<open>Consecutive failed probes: each finds the deadline passed, so the breaker is
  half open, and the next open period doubles up to the cap.\<close>

fun probes_late :: "millis \<Rightarrow> millis \<Rightarrow> millis list \<Rightarrow> bool" where
  "probes_late u d [] = True"
| "probes_late u d (t # ts) =
     (u \<le> t \<and> probes_late (t + min (d * 2) MAX_OPEN) (min (d * 2) MAX_OPEN) ts)"

lemma halfopen_fails:
  assumes "br_state b = Open u" and "u \<le> t" and "ticks k"
  defines "d \<equiv> min (last_open_duration b * 2) MAX_OPEN"
  shows "br_state (breaker_record t (Failure k) b) = Open (t + d)"
    and "last_open_duration (breaker_record t (Failure k) b) = d"
  using assms by (simp_all add: record_ticks record_tick_def Let_def trip_def breaker_refresh_def)

lemma double_min: "min (min (2 ^ n * d) M * 2) M = min (2 ^ Suc n * d) (M :: int)"
  if "0 \<le> M" using that by (auto simp: min_def)

section \<open>Properties\<close>

text \<open>Whatever calls consult the breaker and whatever outcomes they record, in any
  interleaving, its window is sorted and holds fewer than five failures while closed, its
  open duration stays between 30 seconds and one hour, and its deadline is never further
  away than that duration.\<close>

theorem breaker_history_inv:
  assumes "times_from t0 (evs @ [(e, now)])"
  shows "breaker_inv now (breaker_run evs new_breaker)"
  using new_breaker_inv assms by (rule run_inv)

theorem breaker_history_inv_witness:
  "breaker_inv 3000 (breaker_run [(Record (Failure Transient), 1000), (Admit, 2000)] new_breaker)"
  by (rule breaker_history_inv[of 0 _ Admit]) simp

text \<open>A breaker that has been closed since it was created opens on a counting failure
  exactly when that failure is the fifth of the last 30 seconds, and then for 30 seconds.\<close>

theorem breaker_trips_on_fifth:
  assumes "stays_closed new_breaker evs" and "times_from t0 (evs @ [(Record (Failure k), now)])"
    and "ticks k"
  shows "br_state (breaker_record now (Failure k) (breaker_run evs new_breaker)) =
    (if TRIP_THRESHOLD \<le> length (filter (\<lambda>x. now - WINDOW \<le> x) (tick_times evs)) + 1
     then Open (now + INITIAL_OPEN) else Closed)"
proof -
  let ?b = "breaker_run evs new_breaker"
  have f: "failures new_breaker = filter (\<lambda>x. t0 - WINDOW \<le> x) []" by (simp add: new_breaker_def)
  have r: "br_state ?b = Closed"
    "failures (breaker_refresh now ?b) = filter (\<lambda>x. now - WINDOW \<le> x) (tick_times evs)"
    "sorted (tick_times evs)" "\<forall>x \<in> set (tick_times evs). x \<le> now"
    using closed_run[OF assms(1) f _ _ assms(2)] by simp_all
  have "length (failures (push_failure now (breaker_refresh now ?b))) =
      length (filter (\<lambda>x. now - WINDOW \<le> x) (tick_times evs)) + 1"
    using push_window[OF r(2-4)] by (simp add: WINDOW_def)
  then show ?thesis using r(1) assms(3) by (simp add: record_ticks record_tick_def trip_def Let_def)
qed

theorem breaker_trips_on_fifth_witness:
  "br_state (breaker_record 5000 (Failure Malformed)
     (breaker_run (map (\<lambda>t. (Record (Failure Transient), t)) [0, 1000, 2000, 4000]) new_breaker)) = Open 35000"
  using breaker_trips_on_fifth[of "map (\<lambda>t. (Record (Failure Transient), t)) [0, 1000, 2000, 4000]" 0 Malformed 5000]
  by (simp add: breaker_consts breaker_record_def record_tick_def push_failure_def breaker_refresh_def
      new_breaker_def evict_before_def Let_def)

text \<open>An open breaker stays shut until its deadline: whatever late outcomes other calls
  record meanwhile, a success included, every call before the deadline is refused and told
  to wait at least for the time that is left.\<close>

theorem breaker_open_refuses:
  assumes "br_state b = Open u" and "breaker_inv t0 b" and "times_from t0 (evs @ [(Admit, now)])"
    and "\<forall>e \<in> set evs. snd e < u" and "now < u"
  shows "\<exists>w. u - now \<le> w \<and> fst (admit now (breaker_run evs b)) = Err w"
proof -
  have "times_from t0 evs" using assms(3) by (induction evs arbitrary: t0) auto
  from open_run[OF assms(1,2) this assms(4)]
  obtain u' where "u \<le> u'" "br_state (breaker_run evs b) = Open u'" by auto
  then show ?thesis using assms(5) by (simp add: admit_def Let_def breaker_refresh_def)
qed

theorem breaker_open_refuses_witness:
  "\<exists>w. 20000 \<le> w \<and> fst (admit 10000 (breaker_run [(Record Success, 5000)]
     \<lparr>br_state = Open 30000, failures = [], last_open_duration = INITIAL_OPEN\<rparr>)) = Err w"
  using breaker_open_refuses[of "\<lparr>br_state = Open 30000, failures = [], last_open_duration = INITIAL_OPEN\<rparr>"
      30000 0 "[(Record Success, 5000)]" 10000]
  by (simp add: breaker_inv_def breaker_consts)

text \<open>Each probe that fails after the deadline doubles the open period, up to ten
  minutes: after n failed probes of an open breaker it is 2^n times the first one, capped.\<close>

theorem breaker_probe_backoff:
  assumes "br_state b = Open u" and "probes_late u (last_open_duration b) ts"
    and "0 \<le> last_open_duration b" and "last_open_duration b \<le> MAX_OPEN"
  shows "last_open_duration (fold (\<lambda>t. breaker_record t (Failure Transient)) ts b) =
    min (2 ^ length ts * last_open_duration b) MAX_OPEN"
  using assms
proof (induction ts arbitrary: b u)
  case (Cons t ts)
  let ?d = "min (last_open_duration b * 2) MAX_OPEN" and ?b = "breaker_record t (Failure Transient) b"
  note h = halfopen_fails[OF Cons.prems(1) _ ticks_simps(1), of t]
  have "last_open_duration (fold (\<lambda>t. breaker_record t (Failure Transient)) ts ?b) =
      min (2 ^ length ts * last_open_duration ?b) MAX_OPEN"
    by (rule Cons.IH[of ?b "t + ?d"]) (use Cons.prems h in \<open>auto simp: breaker_consts\<close>)
  moreover have "min (2 ^ length ts * ?d) MAX_OPEN = min (2 ^ length (t # ts) * last_open_duration b) MAX_OPEN"
  proof (cases "last_open_duration b * 2 \<le> MAX_OPEN")
    case False
    then have d: "?d = MAX_OPEN" by simp
    have a: "MAX_OPEN \<le> 2 ^ length ts * MAX_OPEN"
      using mult_right_mono[of 1 "2 ^ length ts" MAX_OPEN] by (simp add: MAX_OPEN_def)
    also have "2 ^ length ts * MAX_OPEN \<le> 2 ^ length ts * (last_open_duration b * 2)"
      using False by (intro mult_left_mono) auto
    finally have "MAX_OPEN \<le> 2 ^ length (t # ts) * last_open_duration b" by simp
    with a d show ?thesis by (simp only: min_absorb2)
  qed (simp add: algebra_simps)
  ultimately show ?case using Cons.prems h by simp
qed simp

theorem breaker_probe_backoff_witness:
  "last_open_duration (fold (\<lambda>t. breaker_record t (Failure Transient)) [30000, 90000, 210000]
     \<lparr>br_state = Open 30000, failures = [], last_open_duration = INITIAL_OPEN\<rparr>) = 240000"
  using breaker_probe_backoff[of "\<lparr>br_state = Open 30000, failures = [], last_open_duration = INITIAL_OPEN\<rparr>"
      30000 "[30000, 90000, 210000]"]
  by (simp add: breaker_consts del: fold_simps)

end
