(* ===== verification/Retain_Queue.thy ===== *)
theory Retain_Queue
  imports Mem_Circuit
begin

text \<open>
  The queue of pending memory writes (\<^verbatim>\<open>right-memory/src/retain_queue.rs\<close> and
  \<^verbatim>\<open>retain_sink.rs\<close>): the SQL table \<^verbatim>\<open>pending_retains\<close> as a list of rows in
  row-id order, the in-memory queue that mirrors it, the lease protocol both
  follow (claim, ack, nack) and the drain tick that runs over it.  Timestamps are
  the texts the code stores; SQL and the in-memory queue compare them as texts.
  The texts chrono writes for the current instant and the parser it offers are
  arguments of the operations.  Rows of equal \<^verbatim>\<open>created_at\<close> are taken in row-id
  order.  SQL statements are taken to succeed.
\<close>

section \<open>Rows\<close>

record pending_retain =
  pr_id :: int
  content :: string
  context_text :: "string option"
  document_id :: "string option"
  update_mode :: "string option"
  tags :: "string list option"
  created_at :: string
  attempts :: int

record queue_row = pending_retain +
  last_attempt_at :: "string option"
  last_error :: "string option"
  claim_token :: "string option"
  claim_expires_at :: "string option"

record sql_row = queue_row +
  row_source :: string

record new_pending_retain =
  np_source :: string
  np_content :: string
  np_context :: "string option"
  np_document_id :: "string option"
  np_update_mode :: "string option"
  np_tags :: "string list option"

record retain_claim =
  rc_token :: string
  rc_expires_at :: string
  rc_items :: "pending_retain list"
  rc_dropped_age :: nat

definition as_pending :: "('a) queue_row_scheme \<Rightarrow> pending_retain" where
  "as_pending r = \<lparr>pr_id = pr_id r, content = content r, context_text = context_text r,
     document_id = document_id r, update_mode = update_mode r, tags = tags r,
     created_at = created_at r, attempts = attempts r\<rparr>"

lemma as_pending_id [simp]: "pr_id (as_pending r) = pr_id r"
  by (simp add: as_pending_def)

definition lease_row :: "string \<Rightarrow> string \<Rightarrow> 'a queue_row_scheme \<Rightarrow> 'a queue_row_scheme" where
  "lease_row tok expires r = r\<lparr>claim_token := Some tok, claim_expires_at := Some expires\<rparr>"

definition clear_lease :: "'a queue_row_scheme \<Rightarrow> 'a queue_row_scheme" where
  "clear_lease r = r\<lparr>claim_token := None, claim_expires_at := None\<rparr>"

definition bump_row :: "string \<Rightarrow> string \<Rightarrow> 'a queue_row_scheme \<Rightarrow> 'a queue_row_scheme" where
  "bump_row now_s err r = r\<lparr>claim_token := None, claim_expires_at := None,
     attempts := attempts r + 1, last_attempt_at := Some now_s, last_error := Some err\<rparr>"

definition lease_expired :: "string \<Rightarrow> 'a queue_row_scheme \<Rightarrow> bool" where
  "lease_expired now_s r =
     (case claim_expires_at r of None \<Rightarrow> False | Some e \<Rightarrow> e \<le> now_s)"

lemma row_fields [simp]:
  "pr_id (lease_row tok ex r) = pr_id r" "pr_id (clear_lease r) = pr_id r"
  "pr_id (bump_row n err r) = pr_id r"
  "claim_token (lease_row tok ex r) = Some tok" "claim_token (clear_lease r) = None"
  "claim_token (bump_row n err r) = None"
  "claim_expires_at (lease_row tok ex r) = Some ex" "claim_expires_at (clear_lease r) = None"
  "claim_expires_at (bump_row n err r) = None"
  "created_at (lease_row tok ex r) = created_at r" "created_at (clear_lease r) = created_at r"
  "created_at (bump_row n err r) = created_at r"
  by (simp_all add: lease_row_def clear_lease_def bump_row_def)

section \<open>Constants\<close>

definition QUEUE_CAP :: nat where "QUEUE_CAP = 1000"
definition DRAIN_BATCH :: nat where "DRAIN_BATCH = 20"
definition MAX_AGE :: millis where "MAX_AGE = 24 * secs 3600"
definition CLAIM_LEASE_TTL :: millis where "CLAIM_LEASE_TTL = secs 900"

text \<open>An unparseable timestamp is not stale.\<close>

definition is_stale :: "(string \<Rightarrow> millis option) \<Rightarrow> millis \<Rightarrow> string \<Rightarrow> bool" where
  "is_stale parse now created =
     (case parse created of Some dt \<Rightarrow> MAX_AGE < now - dt | None \<Rightarrow> False)"

section \<open>The SQL table\<close>

record retain_table =
  next_rowid :: int
  rows :: "sql_row list"

definition reclaim_expired :: "string \<Rightarrow> retain_table \<Rightarrow> nat \<times> retain_table" where
  "reclaim_expired now_s q =
     (count_where (lease_expired now_s) (rows q),
      q\<lparr>rows := update_where (lease_expired now_s) clear_lease (rows q)\<rparr>)"

text \<open>\<^verbatim>\<open>DELETE ... ORDER BY created_at ASC LIMIT MAX(0, count - 999)\<close>; natural
  subtraction is the \<^verbatim>\<open>MAX(0, _)\<close>.\<close>

definition evict_over_cap :: "sql_row list \<Rightarrow> sql_row list" where
  "evict_over_cap t =
     (let victims = map pr_id (take (length t - (QUEUE_CAP - 1)) (sort_key created_at t))
      in delete_where (\<lambda>r. pr_id r \<in> set victims) t)"

definition enqueue_in_transaction ::
  "string \<Rightarrow> string \<Rightarrow> new_pending_retain \<Rightarrow> retain_table \<Rightarrow> retain_table" where
  "enqueue_in_transaction now_s created item q =
     (let q1 = snd (reclaim_expired now_s q);
          row = \<lparr>pr_id = next_rowid q1, content = np_content item, context_text = np_context item,
                 document_id = np_document_id item, update_mode = np_update_mode item,
                 tags = np_tags item, created_at = created, attempts = 0,
                 last_attempt_at = None, last_error = None, claim_token = None,
                 claim_expires_at = None, row_source = np_source item\<rparr>
      in q1\<lparr>next_rowid := next_rowid q1 + 1, rows := evict_over_cap (rows q1) @ [row]\<rparr>)"

definition queue_count :: "retain_table \<Rightarrow> nat" where
  "queue_count q = length (rows q)"

text \<open>Seconds since the smallest \<^verbatim>\<open>created_at\<close> text; an unparseable minimum is an error.\<close>

definition oldest_age ::
  "(string \<Rightarrow> millis option) \<Rightarrow> millis \<Rightarrow> retain_table \<Rightarrow> (memory_error, int option) result" where
  "oldest_age parse now q =
     (case sort_key created_at (rows q) of
        [] \<Rightarrow> Ok None
      | r # _ \<Rightarrow> (case parse (created_at r) of
                   None \<Rightarrow> Err (HindsightOther ''oldest_age parse'')
                 | Some dt \<Rightarrow> Ok (Some (max 0 ((now - dt) div 1000)))))"

definition load_unclaimed :: "nat \<Rightarrow> retain_table \<Rightarrow> sql_row list" where
  "load_unclaimed limit q =
     take limit (sort_key created_at (filter (\<lambda>r. claim_token r = None) (rows q)))"

fun claim_loop :: "(string \<Rightarrow> millis option) \<Rightarrow> millis \<Rightarrow> string \<Rightarrow> string \<Rightarrow> sql_row list \<Rightarrow>
    sql_row list \<times> pending_retain list \<times> nat \<Rightarrow> sql_row list \<times> pending_retain list \<times> nat" where
  "claim_loop parse now tok expires [] acc = acc"
| "claim_loop parse now tok expires (e # es) (t, items, dropped) =
     (if is_stale parse now (created_at e)
      then claim_loop parse now tok expires es
             (delete_where (\<lambda>r. pr_id r = pr_id e) t, items, dropped + 1)
      else claim_loop parse now tok expires es
             (update_where (\<lambda>r. pr_id r = pr_id e \<and> claim_token r = None) (lease_row tok expires) t,
              items @ [as_pending e], dropped))"

definition claim_batch :: "(string \<Rightarrow> millis option) \<Rightarrow> millis \<Rightarrow> string \<Rightarrow> string \<Rightarrow> string \<Rightarrow> nat \<Rightarrow>
    retain_table \<Rightarrow> (memory_error, retain_claim) result \<times> retain_table" where
  "claim_batch parse now now_s expires tok limit q =
     (let q1 = snd (reclaim_expired now_s q);
          (t, items, dropped) = claim_loop parse now tok expires (load_unclaimed limit q1) (rows q1, [], 0)
      in (Ok \<lparr>rc_token = tok, rc_expires_at = expires, rc_items = items, rc_dropped_age = dropped\<rparr>,
          q1\<lparr>rows := t\<rparr>))"

definition holds_lease :: "string \<Rightarrow> int \<Rightarrow> 'a queue_row_scheme \<Rightarrow> bool" where
  "holds_lease tok i r = (pr_id r = i \<and> claim_token r = Some tok)"

definition ack :: "string \<Rightarrow> int \<Rightarrow> retain_table \<Rightarrow> (memory_error, unit) result \<times> retain_table" where
  "ack tok i q =
     (if count_where (holds_lease tok i) (rows q) = 0
      then (Err (LeaseConflict ''ack''), q)
      else (Ok (), q\<lparr>rows := delete_where (holds_lease tok i) (rows q)\<rparr>))"

definition nack :: "string \<Rightarrow> string \<Rightarrow> int \<Rightarrow> bool \<Rightarrow> string \<Rightarrow> retain_table \<Rightarrow>
    (memory_error, unit) result \<times> retain_table" where
  "nack now_s tok i retry err q =
     (if count_where (holds_lease tok i) (rows q) = 0
      then (Err (LeaseConflict ''nack''), q)
      else (Ok (), q\<lparr>rows :=
              (if retry then update_where (holds_lease tok i) (bump_row now_s err) (rows q)
               else delete_where (holds_lease tok i) (rows q))\<rparr>))"

section \<open>The in-memory queue\<close>

record mem_inner =
  next_id :: int
  next_claim :: nat
  mem_rows :: "queue_row list"

definition mem_enqueue :: "string \<Rightarrow> new_pending_retain \<Rightarrow> mem_inner \<Rightarrow> mem_inner" where
  "mem_enqueue now_s item q =
     (let kept = drop (length (mem_rows q) - (QUEUE_CAP - 1)) (mem_rows q);
          row = \<lparr>pr_id = next_id q + 1, content = np_content item, context_text = np_context item,
                 document_id = np_document_id item, update_mode = np_update_mode item,
                 tags = np_tags item, created_at = now_s, attempts = 0,
                 last_attempt_at = None, last_error = None, claim_token = None,
                 claim_expires_at = None\<rparr>
      in q\<lparr>next_id := next_id q + 1, mem_rows := kept @ [row]\<rparr>)"

fun mem_lease :: "string \<Rightarrow> string \<Rightarrow> nat \<Rightarrow> queue_row list \<Rightarrow> queue_row list \<times> pending_retain list" where
  "mem_lease tok expires limit [] = ([], [])"
| "mem_lease tok expires limit (r # rs) =
     (if limit = 0 then (r # rs, [])
      else if claim_token r = None
      then (case mem_lease tok expires (limit - 1) rs of
              (rs', items) \<Rightarrow> (lease_row tok expires r # rs', as_pending r # items))
      else (case mem_lease tok expires limit rs of (rs', items) \<Rightarrow> (r # rs', items)))"

definition mem_claim_batch :: "(string \<Rightarrow> millis option) \<Rightarrow> millis \<Rightarrow> string \<Rightarrow> string \<Rightarrow> nat \<Rightarrow>
    mem_inner \<Rightarrow> (memory_error, retain_claim) result \<times> mem_inner" where
  "mem_claim_batch parse now now_s expires limit q =
     (let fresh = filter (\<lambda>r. \<not> is_stale parse now (created_at r)) (mem_rows q);
          dropped = length (mem_rows q) - length fresh;
          reclaimed = update_where (lease_expired now_s) clear_lease fresh;
          tok = ''mem-claim-'' @ string_of_nat (next_claim q + 1);
          (t, items) = mem_lease tok expires limit reclaimed
      in (Ok \<lparr>rc_token = tok, rc_expires_at = expires, rc_items = items, rc_dropped_age = dropped\<rparr>,
          q\<lparr>next_claim := next_claim q + 1, mem_rows := t\<rparr>))"

fun remove_first :: "('a \<Rightarrow> bool) \<Rightarrow> 'a list \<Rightarrow> 'a list" where
  "remove_first p [] = []"
| "remove_first p (x # xs) = (if p x then xs else x # remove_first p xs)"

definition mem_ack :: "string \<Rightarrow> int \<Rightarrow> mem_inner \<Rightarrow> (memory_error, unit) result \<times> mem_inner" where
  "mem_ack tok i q =
     (if \<exists>r \<in> set (mem_rows q). holds_lease tok i r
      then (Ok (), q\<lparr>mem_rows := remove_first (holds_lease tok i) (mem_rows q)\<rparr>)
      else (Err (LeaseConflict ''ack''), q))"

fun update_first :: "('a \<Rightarrow> bool) \<Rightarrow> ('a \<Rightarrow> 'a) \<Rightarrow> 'a list \<Rightarrow> 'a list" where
  "update_first p f [] = []"
| "update_first p f (x # xs) = (if p x then f x # xs else x # update_first p f xs)"

definition mem_nack :: "string \<Rightarrow> string \<Rightarrow> int \<Rightarrow> bool \<Rightarrow> string \<Rightarrow> mem_inner \<Rightarrow>
    (memory_error, unit) result \<times> mem_inner" where
  "mem_nack now_s tok i retry err q =
     (if \<exists>r \<in> set (mem_rows q). holds_lease tok i r
      then (Ok (), q\<lparr>mem_rows :=
              (if retry then update_first (holds_lease tok i) (bump_row now_s err) (mem_rows q)
               else delete_where (\<lambda>r. pr_id r = i) (mem_rows q))\<rparr>)
      else (Err (LeaseConflict ''nack''), q))"

definition mem_stats :: "(string \<Rightarrow> millis option) \<Rightarrow> millis \<Rightarrow> mem_inner \<Rightarrow> nat \<times> millis option" where
  "mem_stats parse now q =
     (length (mem_rows q),
      case map (\<lambda>dt. max 0 (now - dt)) (List.map_filter (\<lambda>r. parse (created_at r)) (mem_rows q)) of
        [] \<Rightarrow> None
      | a # as \<Rightarrow> Some (fold max as a))"

section \<open>One drain tick\<close>

record drain_report =
  deleted :: nat
  dropped_age :: nat
  dropped_client :: nat
  bumped_attempts :: nat

definition empty_report :: drain_report where
  "empty_report = \<lparr>deleted = 0, dropped_age = 0, dropped_client = 0, bumped_attempts = 0\<rparr>"

text \<open>The upstream call takes the batch of one item and the world it runs in.\<close>

fun drain_loop ::
  "(string \<Rightarrow> int \<Rightarrow> 'q \<Rightarrow> (memory_error, unit) result \<times> 'q) \<Rightarrow>
   (string \<Rightarrow> int \<Rightarrow> bool \<Rightarrow> string \<Rightarrow> 'q \<Rightarrow> (memory_error, unit) result \<times> 'q) \<Rightarrow>
   (pending_retain list \<Rightarrow> 'w \<Rightarrow> (error_kind, unit) result \<times> 'w) \<Rightarrow>
   string \<Rightarrow> pending_retain list \<Rightarrow> drain_report \<Rightarrow> 'q \<Rightarrow> 'w \<Rightarrow> drain_report \<times> 'q \<times> 'w" where
  "drain_loop ack_op nack_op call tok [] rep q w = (rep, q, w)"
| "drain_loop ack_op nack_op call tok (e # es) rep q w =
     (case call [e] w of
        (Ok _, w') \<Rightarrow>
          (case ack_op tok (pr_id e) q of
             (Ok _, q') \<Rightarrow> drain_loop ack_op nack_op call tok es (rep\<lparr>deleted := deleted rep + 1\<rparr>) q' w'
           | (Err _, q') \<Rightarrow> drain_loop ack_op nack_op call tok es rep q' w')
      | (Err Client, w') \<Rightarrow>
          (case nack_op tok (pr_id e) False ''classified_client'' q of
             (Ok _, q') \<Rightarrow> drain_loop ack_op nack_op call tok es
                            (rep\<lparr>dropped_client := dropped_client rep + 1\<rparr>) q' w'
           | (Err _, q') \<Rightarrow> drain_loop ack_op nack_op call tok es rep q' w')
      | (Err Auth, w') \<Rightarrow> (rep, q, w')
      | (Err Quota, w') \<Rightarrow> (rep, q, w')
      | (Err _, w') \<Rightarrow>
          (case nack_op tok (pr_id e) True ''classified_transient'' q of
             (Ok _, q') \<Rightarrow> (rep\<lparr>bumped_attempts := bumped_attempts rep + 1\<rparr>, q', w')
           | (Err _, q') \<Rightarrow> (rep, q', w')))"

definition drain_claimed ::
  "(nat \<Rightarrow> 'q \<Rightarrow> (memory_error, retain_claim) result \<times> 'q) \<Rightarrow>
   (string \<Rightarrow> int \<Rightarrow> 'q \<Rightarrow> (memory_error, unit) result \<times> 'q) \<Rightarrow>
   (string \<Rightarrow> int \<Rightarrow> bool \<Rightarrow> string \<Rightarrow> 'q \<Rightarrow> (memory_error, unit) result \<times> 'q) \<Rightarrow>
   (pending_retain list \<Rightarrow> 'w \<Rightarrow> (error_kind, unit) result \<times> 'w) \<Rightarrow>
   'q \<Rightarrow> 'w \<Rightarrow> drain_report \<times> 'q \<times> 'w" where
  "drain_claimed claim_op ack_op nack_op call q w =
     (case claim_op DRAIN_BATCH q of
        (Err _, q') \<Rightarrow> (empty_report, q', w)
      | (Ok c, q') \<Rightarrow>
          (let rep = empty_report\<lparr>dropped_age := rc_dropped_age c\<rparr> in
           if rc_items c = [] then (rep, q', w)
           else drain_loop ack_op nack_op call (rc_token c) (rc_items c) rep q' w))"

end
