(* ===== verification/Retain_Lease.thy ===== *)
theory Retain_Lease
  imports Retain_Queue
begin

text \<open>
  The lease protocol of the pending-write queue.  The locale states what the
  trait \<^verbatim>\<open>RetainLeaseQueue\<close> promises the drain tick, the client's lemmas are
  proved inside it, and it is interpreted on both implementations: the SQL
  table and the in-memory queue.
\<close>

section \<open>The contract of a lease queue\<close>

locale lease_queue =
  fixes inv :: "'q \<Rightarrow> bool"
    and ids :: "'q \<Rightarrow> int set"
    and held :: "'q \<Rightarrow> string \<Rightarrow> int \<Rightarrow> bool"
    and claim_op :: "nat \<Rightarrow> 'q \<Rightarrow> (memory_error, retain_claim) result \<times> 'q"
    and ack_op :: "string \<Rightarrow> int \<Rightarrow> 'q \<Rightarrow> (memory_error, unit) result \<times> 'q"
    and nack_op :: "string \<Rightarrow> int \<Rightarrow> bool \<Rightarrow> string \<Rightarrow> 'q \<Rightarrow> (memory_error, unit) result \<times> 'q"
  assumes finite_ids: "inv q \<Longrightarrow> finite (ids q)"
    and held_ids: "inv q \<Longrightarrow> held q tok i \<Longrightarrow> i \<in> ids q"
    and claim_inv: "inv q \<Longrightarrow> inv (snd (claim_op n q))"
    and claim_count: "inv q \<Longrightarrow> fst (claim_op n q) = Ok c \<Longrightarrow>
      card (ids (snd (claim_op n q))) + rc_dropped_age c = card (ids q)"
    and claim_items: "inv q \<Longrightarrow> fst (claim_op n q) = Ok c \<Longrightarrow>
      distinct (map pr_id (rc_items c)) \<and> length (rc_items c) \<le> n \<and>
      (\<forall>e \<in> set (rc_items c). held (snd (claim_op n q)) (rc_token c) (pr_id e))"
    and claim_err: "inv q \<Longrightarrow> fst (claim_op n q) = Err e \<Longrightarrow> snd (claim_op n q) = q"
    and ack_held: "inv q \<Longrightarrow> held q tok i \<Longrightarrow> \<exists>q'. ack_op tok i q = (Ok (), q') \<and> inv q' \<and>
      ids q' = ids q - {i} \<and> (\<forall>tok' j. held q' tok' j \<longleftrightarrow> j \<noteq> i \<and> held q tok' j)"
    and ack_stale: "inv q \<Longrightarrow> \<not> held q tok i \<Longrightarrow> \<exists>m. ack_op tok i q = (Err (LeaseConflict m), q)"
    and nack_retry: "inv q \<Longrightarrow> held q tok i \<Longrightarrow> \<exists>q'. nack_op tok i True err q = (Ok (), q') \<and> inv q' \<and>
      ids q' = ids q \<and> (\<forall>tok' j. held q' tok' j \<longleftrightarrow> j \<noteq> i \<and> held q tok' j)"
    and nack_drop: "inv q \<Longrightarrow> held q tok i \<Longrightarrow> \<exists>q'. nack_op tok i False err q = (Ok (), q') \<and> inv q' \<and>
      ids q' = ids q - {i} \<and> (\<forall>tok' j. held q' tok' j \<longleftrightarrow> j \<noteq> i \<and> held q tok' j)"
    and nack_stale: "inv q \<Longrightarrow> \<not> held q tok i \<Longrightarrow> \<exists>m. nack_op tok i retry err q = (Err (LeaseConflict m), q)"
begin

text \<open>A settled item cannot be settled again under the same token.\<close>

lemma settle_once:
  assumes "inv q" and "held q tok i" and "ack_op tok i q = (r, q')"
  shows "\<exists>m. ack_op tok i q' = (Err (LeaseConflict m), q')"
  using ack_held[OF assms(1,2)] assms(3) ack_stale by fastforce

lemma drain_loop_balance:
  assumes "inv q" and "distinct (map pr_id es)" and "\<forall>e \<in> set es. held q tok (pr_id e)"
    and "drain_loop ack_op nack_op call tok es rep q w = (rep', q', w')"
  shows "inv q' \<and> dropped_age rep' = dropped_age rep \<and>
    card (ids q') + deleted rep' + dropped_client rep' = card (ids q) + deleted rep + dropped_client rep \<and>
    ids q - ids q' \<subseteq> pr_id ` set es \<and> ids q' \<subseteq> ids q \<and>
    bumped_attempts rep' \<le> bumped_attempts rep + 1"
  using assms
proof (induction es arbitrary: q rep w)
  case (Cons e es)
  have h: "held q tok (pr_id e)" and d: "distinct (map pr_id es)"
    and hs: "\<forall>e' \<in> set es. held q tok (pr_id e')"
    using Cons.prems by simp_all
  have ne: "\<forall>e' \<in> set es. pr_id e' \<noteq> pr_id e"
    using Cons.prems(2) by (simp add: image_iff) metis
  have card: "card (ids q - {pr_id e}) + 1 = card (ids q)"
    using finite_ids[OF Cons.prems(1)] held_ids[OF Cons.prems(1) h] by (simp del: card_Diff_insert card_Diff_singleton add: card_Suc_Diff1)
  obtain qa where a: "ack_op tok (pr_id e) q = (Ok (), qa)" "inv qa" "ids qa = ids q - {pr_id e}"
      "\<forall>tok' j. held qa tok' j \<longleftrightarrow> j \<noteq> pr_id e \<and> held q tok' j"
    using ack_held[OF Cons.prems(1) h] by blast
  obtain qd where dr: "nack_op tok (pr_id e) False ''classified_client'' q = (Ok (), qd)" "inv qd"
      "ids qd = ids q - {pr_id e}" "\<forall>tok' j. held qd tok' j \<longleftrightarrow> j \<noteq> pr_id e \<and> held q tok' j"
    using nack_drop[OF Cons.prems(1) h] by blast
  obtain qr where r: "nack_op tok (pr_id e) True ''classified_transient'' q = (Ok (), qr)" "inv qr"
      "ids qr = ids q"
    using nack_retry[OF Cons.prems(1) h] by blast
  obtain res w1 where c: "call [e] w = (res, w1)" by (cases "call [e] w")
  show ?case
  proof (cases res)
    case (Inr u)
    then have "drain_loop ack_op nack_op call tok es (rep\<lparr>deleted := deleted rep + 1\<rparr>) qa w1 = (rep', q', w')"
      using Cons.prems(4) c a(1) by simp
    from Cons.IH[OF a(2) d _ this] show ?thesis using a ne hs card by auto
  next
    case (Inl k)
    show ?thesis
    proof (cases k)
      case Client
      then have "drain_loop ack_op nack_op call tok es
          (rep\<lparr>dropped_client := dropped_client rep + 1\<rparr>) qd w1 = (rep', q', w')"
        using Cons.prems(4) c dr(1) Inl by simp
      from Cons.IH[OF dr(2) d _ this] show ?thesis using dr ne hs card by auto
    qed (use Cons.prems c r Inl in auto)
  qed
qed auto

text \<open>A tick loses nothing: every row that disappears is in exactly one of the
  report's counts, and rows outside the leased batch stay.\<close>

lemma drain_balance:
  assumes "inv q" and "drain_claimed claim_op ack_op nack_op call q w = (rep, q', w')"
  shows "inv q' \<and> card (ids q') + deleted rep + dropped_client rep + dropped_age rep = card (ids q) \<and>
    bumped_attempts rep \<le> 1"
proof (cases "fst (claim_op DRAIN_BATCH q)")
  case (Inl e)
  then show ?thesis
    using assms claim_err[OF assms(1) Inl] claim_inv[OF assms(1), of DRAIN_BATCH]
    by (cases "claim_op DRAIN_BATCH q") (auto simp: drain_claimed_def empty_report_def)
next
  case (Inr c)
  let ?q = "snd (claim_op DRAIN_BATCH q)"
  have cl: "claim_op DRAIN_BATCH q = (Ok c, ?q)" using Inr by (metis prod.collapse)
  note l = claim_inv[OF assms(1), of DRAIN_BATCH] claim_count[OF assms(1) Inr] claim_items[OF assms(1) Inr]
  show ?thesis
  proof (cases "rc_items c = []")
    case True
    then have "rep = empty_report\<lparr>dropped_age := rc_dropped_age c\<rparr>" "q' = ?q"
      using assms(2) unfolding drain_claimed_def by (subst (asm) cl, simp add: Let_def)+
    then show ?thesis using l by (simp add: empty_report_def)
  next
    case False
    let ?rep = "empty_report\<lparr>dropped_age := rc_dropped_age c\<rparr>"
    have "drain_loop ack_op nack_op call (rc_token c) (rc_items c) ?rep ?q w = (rep, q', w')"
      using assms(2) False unfolding drain_claimed_def by (subst (asm) cl) (simp add: Let_def)
    from drain_loop_balance[OF l(1) _ _ this] show ?thesis
      using l by (auto simp: empty_report_def)
  qed
qed

text \<open>When every call succeeds, the tick removes exactly the leased batch.\<close>

lemma drain_loop_all_ok:
  assumes "inv q" and "distinct (map pr_id es)" and "\<forall>e \<in> set es. held q tok (pr_id e)"
    and "\<And>b w. fst (call b w) = Ok ()"
    and "drain_loop ack_op nack_op call tok es rep q w = (rep', q', w')"
  shows "ids q' = ids q - pr_id ` set es \<and> deleted rep' = deleted rep + length es \<and>
    bumped_attempts rep' = bumped_attempts rep \<and> dropped_client rep' = dropped_client rep"
  using assms(1-3,5)
proof (induction es arbitrary: q rep w)
  case (Cons e es)
  have h: "held q tok (pr_id e)" using Cons.prems by simp
  have ne: "\<forall>e' \<in> set es. pr_id e' \<noteq> pr_id e"
    using Cons.prems(2) by (simp add: image_iff) metis
  obtain qa where a: "ack_op tok (pr_id e) q = (Ok (), qa)" "inv qa" "ids qa = ids q - {pr_id e}"
      "\<forall>tok' j. held qa tok' j \<longleftrightarrow> j \<noteq> pr_id e \<and> held q tok' j"
    using ack_held[OF Cons.prems(1) h] by blast
  obtain w1 where c: "call [e] w = (Ok (), w1)" using assms(4)[of "[e]" w] by (metis prod.collapse)
  have "drain_loop ack_op nack_op call tok es (rep\<lparr>deleted := deleted rep + 1\<rparr>) qa w1 = (rep', q', w')"
    using Cons.prems(4) c a(1) by simp
  from Cons.IH[OF a(2) _ _ this] show ?case using a ne Cons.prems by auto
qed auto

end

section \<open>Calls of a tick\<close>

text \<open>A call that records the items it was given.\<close>

definition logged :: "('b list \<Rightarrow> 'w \<Rightarrow> 'r \<times> 'w) \<Rightarrow> 'b list \<Rightarrow> 'b list \<times> 'w \<Rightarrow> 'r \<times> 'b list \<times> 'w" where
  "logged call b lw = (case call b (snd lw) of (r, w') \<Rightarrow> (r, fst lw @ b, w'))"

lemma drain_loop_calls:
  assumes "drain_loop ack_op nack_op (logged call) tok es rep q (l, w) = (rep', q', l', w')"
  shows "\<exists>n \<le> length es. l' = l @ take n es"
  using assms
proof (induction es arbitrary: q rep l w)
  case (Cons e es)
  obtain r w1 where "call [e] w = (r, w1)" by (cases "call [e] w")
  then have c: "logged call [e] (l, w) = (r, l @ [e], w1)" by (simp add: logged_def)
  define P where "P = (\<exists>n \<le> length (e # es). l' = l @ take n (e # es))"
  have stop: P if "l' = l @ [e]" unfolding P_def using that by (intro exI[of _ 1]) simp
  have more: P
    if "drain_loop ack_op nack_op (logged call) tok es rep1 q1 (l @ [e], w1) = (rep', q', l', w')"
    for rep1 q1
  proof -
    from Cons.IH[OF that] obtain n where "n \<le> length es" "l' = (l @ [e]) @ take n es" by blast
    then show P unfolding P_def by (intro exI[of _ "Suc n"]) simp
  qed
  have P
  proof (cases r)
    case (Inr u)
    obtain ra qa where "ack_op tok (pr_id e) q = (ra, qa)" by (cases "ack_op tok (pr_id e) q")
    then show ?thesis using Cons.prems c Inr by (cases ra) (auto intro: more)
  next
    case (Inl k)
    obtain rn qn where n: "nack_op tok (pr_id e) False ''classified_client'' q = (rn, qn)"
      by (cases "nack_op tok (pr_id e) False ''classified_client'' q")
    obtain rt qt where t: "nack_op tok (pr_id e) True ''classified_transient'' q = (rt, qt)"
      by (cases "nack_op tok (pr_id e) True ''classified_transient'' q")
    show ?thesis
    proof (cases "k = Client")
      case True
      then show ?thesis using Cons.prems c Inl n by (cases rn) (auto intro: more)
    next
      case False
      then show ?thesis using Cons.prems c Inl t
        by (intro stop) (cases k; cases rt; simp)
    qed
  qed
  then show ?case unfolding P_def .
qed simp

section \<open>The SQL table keeps the contract\<close>

definition table_inv :: "retain_table \<Rightarrow> bool" where
  "table_inv q =
     (distinct (map pr_id (rows q)) \<and> (\<forall>r \<in> set (rows q). pr_id r < next_rowid q) \<and>
      length (rows q) \<le> QUEUE_CAP \<and>
      (\<forall>r \<in> set (rows q). claim_token r = None \<longleftrightarrow> claim_expires_at r = None))"

definition table_ids :: "retain_table \<Rightarrow> int set" where
  "table_ids q = pr_id ` set (rows q)"

definition table_held :: "retain_table \<Rightarrow> string \<Rightarrow> int \<Rightarrow> bool" where
  "table_held q tok i = (\<exists>r \<in> set (rows q). holds_lease tok i r)"

lemma table_invD:
  assumes "table_inv q"
  shows "distinct (map pr_id (rows q))" "r \<in> set (rows q) \<Longrightarrow> pr_id r < next_rowid q"
    "length (rows q) \<le> QUEUE_CAP"
    "r \<in> set (rows q) \<Longrightarrow> claim_token r = None \<longleftrightarrow> claim_expires_at r = None"
  using assms by (auto simp: table_inv_def)

lemma table_inv_update:
  assumes "table_inv q" and "\<And>r. pr_id (f r) = pr_id r"
    and "\<And>r. claim_token (f r) = None \<longleftrightarrow> claim_expires_at (f r) = None"
  shows "table_inv (q\<lparr>rows := update_where c f (rows q)\<rparr>)"
  using assms unfolding table_inv_def
  by (auto simp: update_where_key update_where_length set_update_where split: if_splits)

lemma table_inv_delete:
  "table_inv q \<Longrightarrow> table_inv (q\<lparr>rows := delete_where c (rows q)\<rparr>)"
  unfolding table_inv_def
  by (auto simp: delete_where_distinct set_delete_where intro: order_trans[OF delete_where_length])

lemma reclaim_inv [inv_intros]: "table_inv q \<Longrightarrow> table_inv (snd (reclaim_expired now_s q))"
  by (simp add: reclaim_expired_def table_inv_update)

lemma reclaim_rows:
  "rows (snd (reclaim_expired now_s q)) = update_where (lease_expired now_s) clear_lease (rows q)"
  "next_rowid (snd (reclaim_expired now_s q)) = next_rowid q"
  by (simp_all add: reclaim_expired_def)

lemma victims_subset:
  "set (map pr_id (take n (sort_key created_at t))) \<subseteq> pr_id ` set t"
  using set_take_subset[of n "sort_key created_at t"] by auto

lemma evict_length:
  assumes "distinct (map pr_id t)" and "length t \<le> QUEUE_CAP"
  shows "length (evict_over_cap t) \<le> QUEUE_CAP - 1"
proof -
  let ?v = "map pr_id (take (length t - (QUEUE_CAP - 1)) (sort_key created_at t))"
  have "distinct ?v"
    using distinct_map_sort_key[OF assms(1), of created_at] by (simp add: distinct_take flip: take_map)
  from delete_keys_length[OF assms(1) this victims_subset]
  have "length (evict_over_cap t) + length ?v = length t" by (simp add: evict_over_cap_def Let_def)
  then show ?thesis using assms(2) by (auto simp: QUEUE_CAP_def)
qed

lemma enqueue_inv [inv_intros]:
  assumes "table_inv q"
  shows "table_inv (enqueue_in_transaction now_s created item q)"
proof -
  let ?q1 = "snd (reclaim_expired now_s q)"
  have i: "table_inv ?q1" using assms by (rule reclaim_inv)
  have l: "length (evict_over_cap (rows ?q1)) \<le> QUEUE_CAP - 1"
    using evict_length table_invD(1,3)[OF i] by blast
  have sub: "set (evict_over_cap (rows ?q1)) \<subseteq> set (rows ?q1)"
    by (auto simp: evict_over_cap_def Let_def set_delete_where)
  have d: "distinct (map pr_id (evict_over_cap (rows ?q1)))"
    using table_invD(1)[OF i] by (simp add: evict_over_cap_def Let_def delete_where_distinct)
  show ?thesis
    using l sub d table_invD(2,4)[OF i]
    by (fastforce simp: table_inv_def enqueue_in_transaction_def Let_def QUEUE_CAP_def)
qed

lemma claim_loop_eq:
  "claim_loop parse now tok ex es (t, items, d) =
     (update_where (\<lambda>r. pr_id r \<in> pr_id ` {e \<in> set es. \<not> is_stale parse now (created_at e)} \<and> claim_token r = None)
        (lease_row tok ex)
        (delete_where (\<lambda>r. pr_id r \<in> pr_id ` {e \<in> set es. is_stale parse now (created_at e)}) t),
      items @ map as_pending (filter (\<lambda>e. \<not> is_stale parse now (created_at e)) es),
      d + length (filter (\<lambda>e. is_stale parse now (created_at e)) es))"
proof (induction es arbitrary: t items d)
  case (Cons e es)
  let ?s = "\<lambda>e. is_stale parse now (created_at e)"
  show ?case
  proof (cases "?s e")
    case True
    then have "{x. (x = e \<or> x \<in> set es) \<and> \<not> ?s x} = {x \<in> set es. \<not> ?s x}"
      "{x. (x = e \<or> x \<in> set es) \<and> ?s x} = insert e {x \<in> set es. ?s x}" by auto
    then show ?thesis using True Cons.IH
      by (simp add: delete_where_delete disj_commute)
  next
    case False
    then have "{x. (x = e \<or> x \<in> set es) \<and> ?s x} = {x \<in> set es. ?s x}"
      "{x. (x = e \<or> x \<in> set es) \<and> \<not> ?s x} = insert e {x \<in> set es. \<not> ?s x}" by auto
    then show ?thesis using False Cons.IH
      by (simp add: delete_where_update update_where_update conj_disj_distribR)
  qed
qed simp

lemma load_unclaimed_props:
  assumes "e \<in> set (load_unclaimed n q)"
  shows "e \<in> set (rows q)" "claim_token e = None"
  using assms by (auto simp: load_unclaimed_def dest!: in_set_takeD)

lemma load_unclaimed_distinct:
  "distinct (map pr_id (rows q)) \<Longrightarrow> distinct (map pr_id (load_unclaimed n q))"
  using distinct_map_sort_key[of pr_id "filter (\<lambda>r. claim_token r = None) (rows q)" created_at]
  by (simp add: load_unclaimed_def distinct_map_filter distinct_take flip: take_map)

lemma load_unclaimed_length: "length (load_unclaimed n q) \<le> n"
  by (simp add: load_unclaimed_def)

text \<open>The rows a claim works on, the rows it drops and the rows it leases.\<close>

definition claim_candidates :: "string \<Rightarrow> nat \<Rightarrow> retain_table \<Rightarrow> sql_row list" where
  "claim_candidates now_s limit q = load_unclaimed limit (snd (reclaim_expired now_s q))"

lemma claim_batch_eq:
  fixes q :: retain_table and now_s :: string and limit :: nat
    and parse :: "string \<Rightarrow> millis option" and now :: millis
  defines "es \<equiv> claim_candidates now_s limit q"
    and "st \<equiv> \<lambda>e. is_stale parse now (created_at e)"
  shows "fst (claim_batch parse now now_s ex tok limit q) =
      Ok \<lparr>rc_token = tok, rc_expires_at = ex, rc_items = map as_pending (filter (\<lambda>e. \<not> st e) es),
          rc_dropped_age = length (filter st es)\<rparr>"
    and "snd (claim_batch parse now now_s ex tok limit q) =
      (snd (reclaim_expired now_s q))\<lparr>rows :=
        update_where (\<lambda>r. pr_id r \<in> pr_id ` {e \<in> set es. \<not> st e} \<and> claim_token r = None) (lease_row tok ex)
          (delete_where (\<lambda>r. pr_id r \<in> pr_id ` {e \<in> set es. st e}) (rows (snd (reclaim_expired now_s q))))\<rparr>"
  unfolding es_def st_def
  by (simp_all add: claim_batch_def claim_candidates_def claim_loop_eq Let_def)

lemma candidates_distinct:
  "table_inv q \<Longrightarrow> distinct (map pr_id (claim_candidates now_s limit q))"
  unfolding claim_candidates_def by (intro load_unclaimed_distinct table_invD(1) reclaim_inv)

lemma candidates_rows:
  "e \<in> set (claim_candidates now_s limit q) \<Longrightarrow> e \<in> set (rows (snd (reclaim_expired now_s q)))"
  "e \<in> set (claim_candidates now_s limit q) \<Longrightarrow> claim_token e = None"
  unfolding claim_candidates_def by (auto dest: load_unclaimed_props)

lemma candidates_length: "length (claim_candidates now_s limit q) \<le> limit"
  unfolding claim_candidates_def by (rule load_unclaimed_length)

lemma claim_inv_sql [inv_intros]:
  "table_inv q \<Longrightarrow> table_inv (snd (claim_batch parse now now_s ex tok limit q))"
proof -
  assume i: "table_inv q"
  let ?q1 = "snd (reclaim_expired now_s q)"
  have *: "table_inv (?q1\<lparr>rows := update_where c (lease_row tok ex) (delete_where d (rows ?q1))\<rparr>)" for c d
    using table_inv_update[OF table_inv_delete[OF reclaim_inv[OF i]], of "lease_row tok ex" c] by simp
  show ?thesis unfolding claim_batch_eq by (rule *)
qed

lemma table_ids_update [simp]:
  "(\<And>r. pr_id (f r) = pr_id r) \<Longrightarrow> table_ids (q\<lparr>rows := update_where c f t\<rparr>) = pr_id ` set t"
  using update_where_key[of pr_id f c t] by (simp add: table_ids_def flip: set_map)

lemma card_table_ids: "table_inv q \<Longrightarrow> card (table_ids q) = length (rows q)"
  unfolding table_ids_def by (metis table_invD(1) distinct_card length_map set_map)

lemma claim_count_sql:
  assumes i: "table_inv q" and c: "fst (claim_batch parse now now_s ex tok limit q) = Ok c"
  shows "card (table_ids (snd (claim_batch parse now now_s ex tok limit q))) + rc_dropped_age c =
    card (table_ids q)"
proof -
  let ?es = "claim_candidates now_s limit q" and ?st = "\<lambda>e. is_stale parse now (created_at e)"
  let ?t = "rows (snd (reclaim_expired now_s q))"
  let ?ks = "map pr_id (filter ?st ?es)"
  have c': "rc_dropped_age c = length ?ks" using c by (auto simp: claim_batch_eq)
  have "distinct ?ks" "set ?ks \<subseteq> pr_id ` set ?t"
    using candidates_distinct[OF i, of now_s limit] candidates_rows(1)[of _ now_s limit q]
    by (auto intro: distinct_map_filter)
  from delete_keys_length[OF table_invD(1)[OF reclaim_inv[OF i]] this]
  have "length (delete_where (\<lambda>r. pr_id r \<in> set ?ks) ?t) + length ?ks = length ?t" .
  moreover have "length ?t = length (rows q)" by (simp add: reclaim_rows update_where_length)
  moreover have "set ?ks = pr_id ` {e \<in> set ?es. ?st e}" by auto
  ultimately show ?thesis
    unfolding card_table_ids[OF i] card_table_ids[OF claim_inv_sql[OF i]] c'
    by (simp add: claim_batch_eq update_where_length)
qed

lemma claim_items_sql:
  assumes i: "table_inv q" and c: "fst (claim_batch parse now now_s ex tok limit q) = Ok c"
  shows "distinct (map pr_id (rc_items c)) \<and> length (rc_items c) \<le> limit \<and>
    (\<forall>e \<in> set (rc_items c). table_held (snd (claim_batch parse now now_s ex tok limit q)) (rc_token c) (pr_id e))"
proof -
  let ?es = "claim_candidates now_s limit q" and ?st = "\<lambda>e. is_stale parse now (created_at e)"
  let ?q1 = "snd (reclaim_expired now_s q)"
  note cp = candidates_distinct[OF i, of now_s limit]
  have c': "rc_items c = map as_pending (filter (\<lambda>e. \<not> ?st e) ?es)" "rc_token c = tok"
    using c by (auto simp: claim_batch_eq)
  have "distinct (map pr_id (rc_items c))"
    using cp by (simp add: c' comp_def distinct_map_filter)
  moreover have "length (rc_items c) \<le> limit"
    unfolding c' using candidates_length[of now_s limit q]
    by (simp add: le_trans[OF length_filter_le])
  moreover have "table_held (snd (claim_batch parse now now_s ex tok limit q)) tok (pr_id e)"
    if e: "e \<in> set ?es" "\<not> ?st e" for e
  proof -
    have m: "e \<in> set (rows ?q1)" "claim_token e = None" using candidates_rows e(1) by auto
    have "pr_id e \<noteq> pr_id e'" if "e' \<in> set ?es" "?st e'" for e'
      using distinct_key_unique[OF cp e(1) that(1)] that e by auto
    then have "e \<in> set (delete_where (\<lambda>r. pr_id r \<in> pr_id ` {e \<in> set ?es. ?st e}) (rows ?q1))"
      using m by (auto simp: set_delete_where)
    then have "lease_row tok ex e \<in> set (rows (snd (claim_batch parse now now_s ex tok limit q)))"
      using m e by (auto simp: claim_batch_eq update_where_def intro!: rev_image_eqI[of e])
    then show ?thesis unfolding table_held_def by (rule bexI[rotated]) (simp add: holds_lease_def)
  qed
  ultimately show ?thesis by (auto simp: c')
qed

lemma holds_lease_fields: "holds_lease tok i r \<Longrightarrow> pr_id r = i \<and> claim_token r = Some tok"
  by (simp add: holds_lease_def)

lemma table_held_count: "table_held q tok i \<longleftrightarrow> count_where (holds_lease tok i) (rows q) \<noteq> 0"
  by (auto simp: table_held_def count_where_0)

lemma held_iff_id:
  assumes "table_inv q" and "table_held q tok i" and "r \<in> set (rows q)"
  shows "holds_lease tok i r \<longleftrightarrow> pr_id r = i"
  using assms distinct_key_unique[OF table_invD(1)[OF assms(1)] assms(3)]
  by (auto simp: table_held_def holds_lease_def)

lemma delete_held:
  assumes i: "table_inv q" and h: "table_held q tok i"
  defines "q' \<equiv> q\<lparr>rows := delete_where (holds_lease tok i) (rows q)\<rparr>"
  shows "table_inv q'" "table_ids q' = table_ids q - {i}"
    "table_held q' tok' j \<longleftrightarrow> j \<noteq> i \<and> table_held q tok' j"
proof -
  have s: "set (rows q') = {r \<in> set (rows q). pr_id r \<noteq> i}"
    using held_iff_id[OF i h] by (auto simp: q'_def set_delete_where)
  show "table_inv q'" unfolding q'_def by (rule table_inv_delete[OF i])
  show "table_ids q' = table_ids q - {i}" unfolding table_ids_def s by auto
  show "table_held q' tok' j \<longleftrightarrow> j \<noteq> i \<and> table_held q tok' j"
    unfolding table_held_def s by (auto simp: holds_lease_def)
qed

lemma release_held:
  fixes now_s err :: string
  assumes i: "table_inv q" and h: "table_held q tok i"
  defines "q' \<equiv> q\<lparr>rows := update_where (holds_lease tok i) (bump_row now_s err) (rows q)\<rparr>"
  shows "table_inv q'" "table_ids q' = table_ids q"
    "table_held q' tok' j \<longleftrightarrow> j \<noteq> i \<and> table_held q tok' j"
proof -
  have s: "set (rows q') = (\<lambda>r. if pr_id r = i then bump_row now_s err r else r) ` set (rows q)"
    using held_iff_id[OF i h] by (auto simp: q'_def update_where_def)
  show "table_inv q'" unfolding q'_def by (rule table_inv_update[OF i]) simp_all
  show "table_ids q' = table_ids q" unfolding q'_def by (simp add: table_ids_def[of q])
  show "table_held q' tok' j \<longleftrightarrow> j \<noteq> i \<and> table_held q tok' j"
    unfolding table_held_def s by (auto simp: holds_lease_def)
qed

interpretation sql_queue: lease_queue table_inv table_ids table_held
  "\<lambda>limit. claim_batch parse now now_s ex tok limit" ack "nack now_n"
proof unfold_locales
  fix q tok i err
  assume q: "table_inv q" "table_held q tok i"
  note d = delete_held[OF q] and r = release_held[OF q, where now_s = now_n and err = err]
  show "\<exists>q'. ack tok i q = (Ok (), q') \<and> table_inv q' \<and> table_ids q' = table_ids q - {i} \<and>
      (\<forall>tok' j. table_held q' tok' j \<longleftrightarrow> j \<noteq> i \<and> table_held q tok' j)"
    using q(2) d by (simp add: ack_def table_held_count)
  show "\<exists>q'. nack now_n tok i False err q = (Ok (), q') \<and> table_inv q' \<and> table_ids q' = table_ids q - {i} \<and>
      (\<forall>tok' j. table_held q' tok' j \<longleftrightarrow> j \<noteq> i \<and> table_held q tok' j)"
    using q(2) d by (simp add: nack_def table_held_count)
  show "\<exists>q'. nack now_n tok i True err q = (Ok (), q') \<and> table_inv q' \<and> table_ids q' = table_ids q \<and>
      (\<forall>tok' j. table_held q' tok' j \<longleftrightarrow> j \<noteq> i \<and> table_held q tok' j)"
    using q(2) r by (simp add: nack_def table_held_count)
next
  fix q n c
  assume q: "table_inv q" "fst (claim_batch parse now now_s ex tok n q) = Ok c"
  show "card (table_ids (snd (claim_batch parse now now_s ex tok n q))) + rc_dropped_age c = card (table_ids q)"
    using q by (rule claim_count_sql)
  show "distinct (map pr_id (rc_items c)) \<and> length (rc_items c) \<le> n \<and>
      (\<forall>e \<in> set (rc_items c). table_held (snd (claim_batch parse now now_s ex tok n q)) (rc_token c) (pr_id e))"
    using q by (rule claim_items_sql)
next
  fix q tok i retry err
  assume "\<not> table_held q tok i"
  then show "\<exists>m. ack tok i q = (Err (LeaseConflict m), q)"
    and "\<exists>m. nack now_n tok i retry err q = (Err (LeaseConflict m), q)"
    by (simp_all add: table_held_count ack_def nack_def)
next
  fix q tok i
  assume "table_held q tok i"
  then show "i \<in> table_ids q" by (auto simp: table_held_def table_ids_def holds_lease_def)
qed (simp_all add: table_ids_def claim_inv_sql claim_batch_eq(1))

section \<open>So does the in-memory queue\<close>

definition mem_inv :: "mem_inner \<Rightarrow> bool" where
  "mem_inv q =
     (distinct (map pr_id (mem_rows q)) \<and> (\<forall>r \<in> set (mem_rows q). pr_id r \<le> next_id q) \<and>
      length (mem_rows q) \<le> QUEUE_CAP)"

definition mem_ids :: "mem_inner \<Rightarrow> int set" where
  "mem_ids q = pr_id ` set (mem_rows q)"

definition mem_held :: "mem_inner \<Rightarrow> string \<Rightarrow> int \<Rightarrow> bool" where
  "mem_held q tok i = (\<exists>r \<in> set (mem_rows q). holds_lease tok i r)"

lemma mem_enqueue_inv [inv_intros]:
  assumes "mem_inv q"
  shows "mem_inv (mem_enqueue now_s item q)"
proof -
  let ?kept = "drop (length (mem_rows q) - (QUEUE_CAP - 1)) (mem_rows q)"
  have "distinct (map pr_id ?kept)" using assms by (simp add: mem_inv_def distinct_drop flip: drop_map)
  moreover have "\<forall>r \<in> set ?kept. pr_id r \<le> next_id q"
    using assms by (auto simp: mem_inv_def dest: in_set_dropD)
  ultimately show ?thesis
    by (force simp: mem_inv_def mem_enqueue_def Let_def QUEUE_CAP_def)
qed

lemma mem_lease_ids: "map pr_id (fst (mem_lease tok ex n t)) = map pr_id t"
proof (induction t arbitrary: n)
  case (Cons r t)
  then show ?case by (auto split: prod.splits) (metis fst_conv)+
qed simp

lemma mem_lease_props:
  assumes "distinct (map pr_id t)" and "mem_lease tok ex n t = (t', items)"
  shows "distinct (map pr_id items) \<and> length items \<le> n \<and> pr_id ` set items \<subseteq> pr_id ` set t \<and>
    (\<forall>e \<in> set items. \<exists>r \<in> set t'. holds_lease tok (pr_id e) r)"
  using assms
proof (induction t arbitrary: n t' items)
  case (Cons r t)
  obtain t1 i1 where a: "mem_lease tok ex (n - 1) t = (t1, i1)" by (cases "mem_lease tok ex (n - 1) t")
  obtain t2 i2 where b: "mem_lease tok ex n t = (t2, i2)" by (cases "mem_lease tok ex n t")
  have d: "distinct (map pr_id t)" using Cons.prems by simp
  show ?case
    using Cons.IH[OF d a] Cons.IH[OF d b] Cons.prems a b
    by (auto split: if_splits simp: holds_lease_def image_subset_iff)
qed auto

lemma remove_first_unique:
  "(\<And>x y. x \<in> set xs \<Longrightarrow> p x \<Longrightarrow> y \<in> set xs \<Longrightarrow> p y \<Longrightarrow> x = y) \<Longrightarrow> distinct xs \<Longrightarrow>
   remove_first p xs = filter (\<lambda>x. \<not> p x) xs"
proof (induction xs)
  case (Cons x xs)
  show ?case
  proof (cases "p x")
    case True
    then have "\<forall>y \<in> set xs. \<not> p y" using Cons.prems by (metis distinct.simps(2) list.set_intros)
    then show ?thesis using True by (simp add: filter_True)
  next
    case False
    have "remove_first p xs = filter (\<lambda>x. \<not> p x) xs"
      using Cons.prems by (intro Cons.IH) auto
    then show ?thesis using False by simp
  qed
qed simp

lemma update_first_unique:
  "(\<And>x y. x \<in> set xs \<Longrightarrow> p x \<Longrightarrow> y \<in> set xs \<Longrightarrow> p y \<Longrightarrow> x = y) \<Longrightarrow> distinct xs \<Longrightarrow>
   update_first p f xs = update_where p f xs"
proof (induction xs)
  case (Cons x xs)
  show ?case
  proof (cases "p x")
    case True
    then have "\<forall>y \<in> set xs. \<not> p y" using Cons.prems by (metis distinct.simps(2) list.set_intros)
    then have "map (\<lambda>y. if p y then f y else y) xs = xs" by (simp add: map_idI)
    then show ?thesis using True by (simp add: update_where_def)
  next
    case False
    have "update_first p f xs = update_where p f xs"
      using Cons.prems by (intro Cons.IH) auto
    then show ?thesis using False by (simp add: update_where_def)
  qed
qed (simp add: update_where_def)

lemma mem_held_iff_id:
  assumes "mem_inv q" and "mem_held q tok i" and "r \<in> set (mem_rows q)"
  shows "holds_lease tok i r \<longleftrightarrow> pr_id r = i"
  using assms distinct_key_unique[of pr_id "mem_rows q" r]
  by (auto simp: mem_held_def holds_lease_def mem_inv_def)

lemma mem_settle_rows:
  assumes i: "mem_inv q" and h: "mem_held q tok i"
  shows "remove_first (holds_lease tok i) (mem_rows q) = delete_where (\<lambda>r. pr_id r = i) (mem_rows q)"
    and "update_first (holds_lease tok i) f (mem_rows q) = update_where (\<lambda>r. pr_id r = i) f (mem_rows q)"
proof -
  have u: "\<And>x y. x \<in> set (mem_rows q) \<Longrightarrow> holds_lease tok i x \<Longrightarrow> y \<in> set (mem_rows q) \<Longrightarrow>
      holds_lease tok i y \<Longrightarrow> x = y"
    using i distinct_key_unique[of pr_id "mem_rows q"] by (auto simp: mem_inv_def holds_lease_def)
  have d: "distinct (mem_rows q)" using i by (auto simp: mem_inv_def simp: distinct_map)
  show "remove_first (holds_lease tok i) (mem_rows q) = delete_where (\<lambda>r. pr_id r = i) (mem_rows q)"
    unfolding delete_where_def using mem_held_iff_id[OF i h]
    by (subst remove_first_unique[OF u d]) (auto intro: filter_cong)
  show "update_first (holds_lease tok i) f (mem_rows q) = update_where (\<lambda>r. pr_id r = i) f (mem_rows q)"
    using mem_held_iff_id[OF i h]
    by (subst update_first_unique[OF u d]) (auto simp: update_where_def)
qed

lemma mem_inv_delete:
  "mem_inv q \<Longrightarrow> mem_inv (q\<lparr>mem_rows := delete_where c (mem_rows q)\<rparr>)"
  by (auto simp: mem_inv_def delete_where_distinct set_delete_where intro: order_trans[OF delete_where_length])

lemma mem_inv_update:
  "mem_inv q \<Longrightarrow> (\<And>r. pr_id (f r) = pr_id r) \<Longrightarrow> mem_inv (q\<lparr>mem_rows := update_where c f (mem_rows q)\<rparr>)"
  by (auto simp: mem_inv_def update_where_key update_where_length set_update_where)

lemma mem_claim_eq:
  fixes q :: mem_inner and parse :: "string \<Rightarrow> millis option" and now :: millis
    and ex now_s :: string and n :: nat
  defines "fresh \<equiv> delete_where (\<lambda>r. is_stale parse now (created_at r)) (mem_rows q)"
    and "tok \<equiv> ''mem-claim-'' @ string_of_nat (next_claim q + 1)"
  defines "lt \<equiv> mem_lease tok ex n (update_where (lease_expired now_s) clear_lease fresh)"
  shows "mem_claim_batch parse now now_s ex n q =
    (Ok \<lparr>rc_token = tok, rc_expires_at = ex, rc_items = snd lt,
         rc_dropped_age = length (mem_rows q) - length fresh\<rparr>,
     q\<lparr>next_claim := next_claim q + 1, mem_rows := fst lt\<rparr>)"
  unfolding assms by (simp add: mem_claim_batch_def Let_def delete_where_def split: prod.splits)

lemma mem_claim_laws:
  assumes i: "mem_inv q" and c: "mem_claim_batch parse now now_s ex n q = (Ok c, q')"
  shows "mem_inv q'" "card (mem_ids q') + rc_dropped_age c = card (mem_ids q)"
    "distinct (map pr_id (rc_items c)) \<and> length (rc_items c) \<le> n \<and>
     (\<forall>e \<in> set (rc_items c). mem_held q' (rc_token c) (pr_id e))"
proof -
  let ?fresh = "delete_where (\<lambda>r. is_stale parse now (created_at r)) (mem_rows q)"
  let ?tok = "''mem-claim-'' @ string_of_nat (next_claim q + 1)"
  let ?rec = "update_where (lease_expired now_s) clear_lease ?fresh"
  obtain t items where l: "mem_lease ?tok ex n ?rec = (t, items)"
    by (cases "mem_lease ?tok ex n ?rec")
  have eq: "c = \<lparr>rc_token = ?tok, rc_expires_at = ex, rc_items = items,
      rc_dropped_age = length (mem_rows q) - length ?fresh\<rparr>"
    "q' = q\<lparr>next_claim := next_claim q + 1, mem_rows := t\<rparr>"
    using c unfolding mem_claim_eq l by auto
  have ids: "map pr_id t = map pr_id ?fresh"
    using mem_lease_ids[of ?tok ex n ?rec] unfolding l fst_conv
    by (simp only: update_where_key row_fields)
  have d: "distinct (map pr_id ?fresh)" and d0: "distinct (map pr_id (mem_rows q))"
    using i by (auto simp: mem_inv_def delete_where_distinct)
  have le: "length ?fresh \<le> length (mem_rows q)" by (rule delete_where_length)
  have lt: "length t = length ?fresh" using ids by (metis length_map)
  have st: "pr_id ` set t = pr_id ` set ?fresh" using ids by (metis set_map)
  show "mem_inv q'"
    unfolding mem_inv_def eq
  proof (intro conjI ballI)
    show "distinct (map pr_id (mem_rows (q\<lparr>next_claim := next_claim q + 1, mem_rows := t\<rparr>)))"
      using ids d by simp
    fix r assume "r \<in> set (mem_rows (q\<lparr>next_claim := next_claim q + 1, mem_rows := t\<rparr>))"
    then have "pr_id r \<in> pr_id ` set ?fresh" using st by auto
    then show "pr_id r \<le> next_id (q\<lparr>next_claim := next_claim q + 1, mem_rows := t\<rparr>)"
      using i by (auto simp: mem_inv_def set_delete_where)
  qed (use i le lt in \<open>simp add: mem_inv_def\<close>)
  have "card (pr_id ` set t) = length t" using ids d by (metis distinct_card length_map set_map)
  moreover have "card (pr_id ` set (mem_rows q)) = length (mem_rows q)"
    using d0 by (metis distinct_card length_map set_map)
  ultimately show "card (mem_ids q') + rc_dropped_age c = card (mem_ids q)"
    using lt le by (simp add: mem_ids_def eq)
  have dr: "distinct (map pr_id ?rec)" using d by (simp add: update_where_key)
  show "distinct (map pr_id (rc_items c)) \<and> length (rc_items c) \<le> n \<and>
     (\<forall>e \<in> set (rc_items c). mem_held q' (rc_token c) (pr_id e))"
    using mem_lease_props[OF dr l] by (simp add: eq mem_held_def)
qed

lemma mem_held_ex: "mem_held q tok i \<longleftrightarrow> (\<exists>r \<in> set (mem_rows q). holds_lease tok i r)"
  by (simp add: mem_held_def)

lemma mem_delete_held:
  assumes i: "mem_inv q" and h: "mem_held q tok i"
  defines "q' \<equiv> q\<lparr>mem_rows := delete_where (\<lambda>r. pr_id r = i) (mem_rows q)\<rparr>"
  shows "mem_inv q' \<and> mem_ids q' = mem_ids q - {i} \<and>
    (\<forall>tok' j. mem_held q' tok' j \<longleftrightarrow> j \<noteq> i \<and> mem_held q tok' j)"
  using mem_inv_delete[OF i] unfolding q'_def
  by (auto simp: mem_ids_def mem_held_def holds_lease_def set_delete_where)

lemma mem_release_held:
  fixes now_s err :: string
  assumes i: "mem_inv q" and h: "mem_held q tok i"
  defines "q' \<equiv> q\<lparr>mem_rows := update_where (\<lambda>r. pr_id r = i) (bump_row now_s err) (mem_rows q)\<rparr>"
  shows "mem_inv q' \<and> mem_ids q' = mem_ids q \<and>
    (\<forall>tok' j. mem_held q' tok' j \<longleftrightarrow> j \<noteq> i \<and> mem_held q tok' j)"
proof (intro conjI)
  show "mem_inv q'" unfolding q'_def by (rule mem_inv_update[OF i]) simp
  show "mem_ids q' = mem_ids q"
    using arg_cong[OF update_where_key[of pr_id "bump_row now_s err" "\<lambda>r. pr_id r = i" "mem_rows q"], of set]
    unfolding q'_def by (simp add: mem_ids_def)
  show "\<forall>tok' j. mem_held q' tok' j \<longleftrightarrow> j \<noteq> i \<and> mem_held q tok' j"
    unfolding q'_def by (auto simp: mem_held_def holds_lease_def update_where_def)
qed

interpretation mem_queue: lease_queue mem_inv mem_ids mem_held
  "mem_claim_batch parse now now_s ex" mem_ack "mem_nack now_n"
proof unfold_locales
  fix q n
  show "mem_inv q \<Longrightarrow> mem_inv (snd (mem_claim_batch parse now now_s ex n q))"
    using mem_claim_laws(1) by (auto simp: mem_claim_eq)
next
  fix q n c
  assume i: "mem_inv q" and c: "fst (mem_claim_batch parse now now_s ex n q) = Ok c"
  have c: "mem_claim_batch parse now now_s ex n q = (Ok c, snd (mem_claim_batch parse now now_s ex n q))"
    using c by (metis prod.collapse)
  show "card (mem_ids (snd (mem_claim_batch parse now now_s ex n q))) + rc_dropped_age c = card (mem_ids q)"
    by (rule mem_claim_laws(2)[OF i c])
  show "distinct (map pr_id (rc_items c)) \<and> length (rc_items c) \<le> n \<and>
      (\<forall>e \<in> set (rc_items c). mem_held (snd (mem_claim_batch parse now now_s ex n q)) (rc_token c) (pr_id e))"
    by (rule mem_claim_laws(3)[OF i c])
next
  fix q tok i err
  assume q: "mem_inv q" "mem_held q tok i"
  note s = mem_settle_rows[OF q] and d = mem_delete_held[OF q]
    and r = mem_release_held[OF q, where now_s = now_n and err = err]
  show "\<exists>q'. mem_ack tok i q = (Ok (), q') \<and> mem_inv q' \<and> mem_ids q' = mem_ids q - {i} \<and>
      (\<forall>tok' j. mem_held q' tok' j \<longleftrightarrow> j \<noteq> i \<and> mem_held q tok' j)"
    using q(2) d by (simp add: mem_ack_def mem_held_ex[symmetric] s)
  show "\<exists>q'. mem_nack now_n tok i False err q = (Ok (), q') \<and> mem_inv q' \<and> mem_ids q' = mem_ids q - {i} \<and>
      (\<forall>tok' j. mem_held q' tok' j \<longleftrightarrow> j \<noteq> i \<and> mem_held q tok' j)"
    using q(2) d by (simp add: mem_nack_def mem_held_ex[symmetric])
  show "\<exists>q'. mem_nack now_n tok i True err q = (Ok (), q') \<and> mem_inv q' \<and> mem_ids q' = mem_ids q \<and>
      (\<forall>tok' j. mem_held q' tok' j \<longleftrightarrow> j \<noteq> i \<and> mem_held q tok' j)"
    using q(2) r by (simp add: mem_nack_def mem_held_ex[symmetric] s)
next
  fix q tok i retry err
  assume "\<not> mem_held q tok i"
  then show "\<exists>m. mem_ack tok i q = (Err (LeaseConflict m), q)"
    and "\<exists>m. mem_nack now_n tok i retry err q = (Err (LeaseConflict m), q)"
    by (simp_all add: mem_ack_def mem_nack_def mem_held_def)
next
  fix q tok i
  assume "mem_held q tok i"
  then show "i \<in> mem_ids q" by (auto simp: mem_held_def mem_ids_def holds_lease_def)
qed (simp_all add: mem_ids_def mem_claim_eq)

section \<open>Interleaved drainers on the SQL table\<close>

datatype queue_op =
    OpEnqueue string string new_pending_retain
  | OpReclaim string
  | OpClaim millis string string string nat
  | OpAck string int
  | OpNack string string int bool string

fun queue_step :: "(string \<Rightarrow> millis option) \<Rightarrow> queue_op \<Rightarrow> retain_table \<Rightarrow> retain_table" where
  "queue_step parse (OpEnqueue now_s created item) q = enqueue_in_transaction now_s created item q"
| "queue_step parse (OpReclaim now_s) q = snd (reclaim_expired now_s q)"
| "queue_step parse (OpClaim now now_s ex tok limit) q = snd (claim_batch parse now now_s ex tok limit q)"
| "queue_step parse (OpAck tok i) q = snd (ack tok i q)"
| "queue_step parse (OpNack now_s tok i retry err) q = snd (nack now_s tok i retry err q)"

fun claims_with :: "string \<Rightarrow> queue_op \<Rightarrow> bool" where
  "claims_with tok (OpClaim _ _ _ t _) = (t = tok)"
| "claims_with tok _ = False"

lemma queue_step_inv [inv_intros]:
  "table_inv q \<Longrightarrow> table_inv (queue_step parse op q)"
proof (induction parse op q rule: queue_step.induct)
  case (4 parse tok i q)
  then show ?case by (simp add: ack_def table_inv_delete)
next
  case (5 parse now_s tok i retry err q)
  then show ?case by (simp add: nack_def table_inv_delete table_inv_update)
qed (simp_all add: inv_intros claim_inv_sql)

lemma queue_steps_inv: "table_inv q \<Longrightarrow> table_inv (fold (queue_step parse) ops q)"
  by (induction ops arbitrary: q) (simp_all add: queue_step_inv)

lemma not_held_step:
  assumes "\<not> table_held q tok i" and "\<not> claims_with tok op"
  shows "\<not> table_held (queue_step parse op q) tok i"
  using assms
proof (cases op)
  case (OpEnqueue now_s created item)
  then show ?thesis using assms
    by (auto simp: table_held_def enqueue_in_transaction_def Let_def evict_over_cap_def
        set_delete_where reclaim_rows set_update_where holds_lease_def split: if_splits)
qed (auto simp: table_held_def reclaim_rows claim_batch_eq ack_def nack_def set_delete_where
    set_update_where holds_lease_def split: if_splits)

lemma not_held_steps:
  "\<not> table_held q tok i \<Longrightarrow> \<forall>op \<in> set ops. \<not> claims_with tok op \<Longrightarrow>
   \<not> table_held (fold (queue_step parse) ops q) tok i"
  by (induction ops arbitrary: q) (simp_all add: not_held_step)

section \<open>Properties\<close>

text \<open>Under any sequence of enqueues, claims, acknowledgements, negative
  acknowledgements and reclaims the table never exceeds 1000 rows, ids stay unique and
  below the next row id, and a row has a lease expiry exactly when it has a token.\<close>

theorem queue_table_invariant:
  assumes "table_inv q"
  shows "table_inv (fold (queue_step parse) ops q)"
  using assms by (rule queue_steps_inv)

definition sample_row :: "int \<Rightarrow> string option \<Rightarrow> sql_row" where
  "sample_row i tok = \<lparr>pr_id = i, content = ''c'', context_text = None, document_id = None,
     update_mode = None, tags = None, created_at = ''2026-01-01'', attempts = 0,
     last_attempt_at = None, last_error = None, claim_token = tok,
     claim_expires_at = map_option (\<lambda>_. ''2026-01-02'') tok, row_source = ''bot''\<rparr>"

definition sample_table :: retain_table where
  "sample_table = \<lparr>next_rowid = 3, rows = [sample_row 1 (Some ''a''), sample_row 2 None]\<rparr>"

lemma sample_table_inv: "table_inv sample_table"
  by (simp add: table_inv_def sample_table_def sample_row_def QUEUE_CAP_def)

theorem queue_table_invariant_witness:
  "table_inv (fold (queue_step (\<lambda>_. None)) [OpClaim 0 ''2026-01-01'' ''2026-01-03'' ''b'' 20, OpAck ''b'' 2] sample_table)"
  by (rule queue_table_invariant[OF sample_table_inv])

text \<open>C3: Once a drainer has lost the lease of a row, by settling it or because the lease
  lapsed and the row went back, its token can neither delete nor requeue that row any more:
  whatever happens on the table, short of a new claim under the very same token, both
  acknowledgements are lease conflicts and change nothing.\<close>

theorem queue_stale_token:
  fixes parse :: "string \<Rightarrow> millis option"
  assumes "\<not> table_held q tok i" and "\<forall>op \<in> set ops. \<not> claims_with tok op"
  defines "q' \<equiv> fold (queue_step parse) ops q"
  shows "ack tok i q' = (Err (LeaseConflict ''ack''), q') \<and>
    nack now_s tok i retry err q' = (Err (LeaseConflict ''nack''), q')"
  using not_held_steps[OF assms(1,2), of parse]
  unfolding q'_def by (simp add: ack_def nack_def table_held_count)

theorem queue_stale_token_witness:
  "let q' = fold (queue_step (\<lambda>_. None)) [OpClaim 0 ''2026-01-05'' ''2026-01-06'' ''b'' 20] (snd (ack ''a'' 1 sample_table))
   in ack ''a'' 1 q' = (Err (LeaseConflict ''ack''), q') \<and>
      nack ''n'' ''a'' 1 True ''e'' q' = (Err (LeaseConflict ''nack''), q')"
  unfolding Let_def
  by (rule queue_stale_token)
     (simp_all add: table_held_def ack_def sample_table_def sample_row_def holds_lease_def
        count_where_def delete_where_def)

text \<open>A claim takes at most the batch size, marks every row it returns with its own
  token, and leaves a row whose lease has not lapsed exactly as it is: no row is leased to
  two drainers at once.\<close>

theorem queue_claim_exclusive:
  assumes "table_inv q" and "r \<in> set (rows q)" and "claim_token r = Some t"
    and "claim_expires_at r = Some e" and "now_s < e"
    and "claim_batch parse now now_s ex tok limit q = (Ok c, q')"
  shows "r \<in> set (rows q') \<and> pr_id r \<notin> pr_id ` set (rc_items c) \<and> length (rc_items c) \<le> limit \<and>
    (\<forall>item \<in> set (rc_items c). table_held q' tok (pr_id item))"
proof -
  let ?es = "claim_candidates now_s limit q" and ?q1 = "snd (reclaim_expired now_s q)"
  have c: "fst (claim_batch parse now now_s ex tok limit q) = Ok c"
    "q' = snd (claim_batch parse now now_s ex tok limit q)" using assms(6) by simp_all
  have c': "rc_items c = map as_pending (filter (\<lambda>e. \<not> is_stale parse now (created_at e)) ?es)"
    "rc_token c = tok" using c(1) by (auto simp: claim_batch_eq)
  have "\<not> lease_expired now_s r" using assms(4,5) by (simp add: lease_expired_def)
  then have r1: "r \<in> set (rows ?q1)"
    using assms(2) by (auto simp: reclaim_rows set_update_where intro: bexI[of _ r])
  have no: "pr_id x \<noteq> pr_id r" if "x \<in> set ?es" for x
  proof
    assume "pr_id x = pr_id r"
    then have "x = r"
      by (rule distinct_key_unique[OF table_invD(1)[OF reclaim_inv[OF assms(1)]] candidates_rows(1)[OF that] r1])
    then show False using candidates_rows(2)[OF that] assms(3) by simp
  qed
  have "r \<in> set (delete_where (\<lambda>r. pr_id r \<in> pr_id ` {e \<in> set ?es. is_stale parse now (created_at e)}) (rows ?q1))"
    using no r1 by (force simp: set_delete_where)
  then have "r \<in> set (rows q')"
    using assms(3) unfolding c(2) claim_batch_eq by (auto simp: update_where_def intro!: rev_image_eqI[of r])
  moreover have "pr_id r \<notin> pr_id ` set (rc_items c)" using no by (force simp: c')
  ultimately show ?thesis using claim_items_sql[OF assms(1) c(1)] c c' by simp
qed

theorem queue_claim_exclusive_witness:
  "\<exists>c q'. claim_batch (\<lambda>_. None) 0 ''2026-01-01'' ''2026-01-03'' ''b'' 20 sample_table = (Ok c, q') \<and>
     sample_row 1 (Some ''a'') \<in> set (rows q') \<and> 1 \<notin> pr_id ` set (rc_items c)"
proof -
  let ?r = "claim_batch (\<lambda>_. None) 0 ''2026-01-01'' ''2026-01-03'' ''b'' 20 sample_table"
  obtain c where c: "?r = (Ok c, snd ?r)" using claim_batch_eq(1) by (metis prod.collapse)
  have "sample_row 1 (Some ''a'') \<in> set (rows sample_table)" by (simp add: sample_table_def)
  from queue_claim_exclusive[OF sample_table_inv this _ _ _ c, of "''a''" "''2026-01-02''"]
  show ?thesis using c by (auto simp: sample_row_def less_char_def)
qed

text \<open>C2: A drain tick over the SQL table loses nothing: every row that is gone afterwards
  was acknowledged after a successful call, dropped for its age or dropped as a client
  error, each counted once in the report, and at most one row is sent back for a retry.\<close>

theorem sql_drain_balance:
  assumes "table_inv q"
    and "drain_claimed (\<lambda>limit. claim_batch parse now now_s ex tok limit) ack (nack now_n) call q w = (rep, q', w')"
  shows "table_inv q' \<and>
    length (rows q') + deleted rep + dropped_client rep + dropped_age rep = length (rows q) \<and>
    bumped_attempts rep \<le> 1"
  using sql_queue.drain_balance[OF assms] card_table_ids assms(1) by metis

theorem sql_drain_balance_witness:
  "\<exists>rep q' w'. drain_claimed (\<lambda>limit. claim_batch (\<lambda>_. None) 0 ''2026-01-01'' ''2026-01-03'' ''b'' limit)
      ack (nack ''n'') (\<lambda>b w. (Ok (), w)) sample_table () = (rep, q', w') \<and>
    length (rows q') + deleted rep + dropped_client rep + dropped_age rep = 2"
proof -
  obtain rep q' w' where d: "drain_claimed (\<lambda>limit. claim_batch (\<lambda>_. None) 0 ''2026-01-01'' ''2026-01-03'' ''b'' limit)
      ack (nack ''n'') (\<lambda>b w. (Ok (), w)) sample_table () = (rep, q', w')" by (metis prod_cases3)
  have "length (rows sample_table) = 2" by (simp add: sample_table_def)
  then show ?thesis using sql_drain_balance[OF sample_table_inv d] d by auto
qed

text \<open>One tick presents each leased item to the upstream at most once, in the order of
  the batch, and never an item that is not in it.\<close>

theorem drain_calls_in_order:
  assumes "drain_claimed claim_op ack_op nack_op (logged call) q ([], w) = (rep, q', calls, w')"
    and "claim_op DRAIN_BATCH q = (Ok c, q1)"
  shows "\<exists>n \<le> length (rc_items c). calls = take n (rc_items c)"
proof (cases "rc_items c = []")
  case True
  then show ?thesis using assms by (simp add: drain_claimed_def Let_def)
next
  case False
  then have "drain_loop ack_op nack_op (logged call) (rc_token c) (rc_items c)
      (empty_report\<lparr>dropped_age := rc_dropped_age c\<rparr>) q1 ([], w) = (rep, q', calls, w')"
    using assms by (simp add: drain_claimed_def Let_def)
  from drain_loop_calls[OF this] show ?thesis by simp
qed

theorem drain_calls_in_order_witness:
  "\<exists>n \<le> 1. [as_pending (sample_row 2 None)] = take n [as_pending (sample_row 2 None)]"
proof -
  let ?c = "\<lparr>rc_token = ''t'', rc_expires_at = ''x'', rc_items = [as_pending (sample_row 2 None)], rc_dropped_age = 0\<rparr>"
  have "drain_claimed (\<lambda>n (q::unit). (Ok ?c, q)) (\<lambda>_ _ q. (Ok (), q)) (\<lambda>_ _ _ _ q. (Ok (), q))
      (logged (\<lambda>b w. (Ok (), w))) () ([], ()) =
      (empty_report\<lparr>deleted := 1\<rparr>, (), [as_pending (sample_row 2 None)], ())"
    by (simp add: drain_claimed_def Let_def logged_def empty_report_def)
  from drain_calls_in_order[OF this, of ?c "()"] show ?thesis by simp
qed

end
