(* ===== verification/Mem_Resilient.thy ===== *)
theory Mem_Resilient
  imports Retain_Lease
begin

text \<open>
  The resilient memory client (\<^verbatim>\<open>right-memory/src/resilient.rs\<close>) and the status it
  publishes (\<^verbatim>\<open>status.rs\<close>): a retry loop around one upstream call, guarded by the
  breaker, with the failed writes handed to the pending-retain sink.  The upstream
  call is an argument: for each attempt its answer and how long it took.  The
  sanitiser of memory content is an argument too.  Calls run one at a time; what
  concurrent calls do to the breaker is the subject of the histories of Mem\_Circuit.
\<close>

section \<open>Status\<close>

datatype memory_status =
    Healthy
  | Degraded millis
  | QuotaExhausted millis
  | AuthFailed millis

fun severity :: "memory_status \<Rightarrow> nat" where
  "severity Healthy = 0"
| "severity (Degraded _) = 1"
| "severity (QuotaExhausted _) = 2"
| "severity (AuthFailed _) = 3"

text \<open>Comparison ignores the instant, as the hand-written \<^verbatim>\<open>Ord\<close> of the code does.\<close>

instantiation memory_status :: preorder
begin

definition less_eq_memory_status :: "memory_status \<Rightarrow> memory_status \<Rightarrow> bool" where
  "less_eq_memory_status a b = (severity a \<le> severity b)"

definition less_memory_status :: "memory_status \<Rightarrow> memory_status \<Rightarrow> bool" where
  "less_memory_status a b = (severity a < severity b)"

instance
  by standard (auto simp: less_eq_memory_status_def less_memory_status_def)

end

definition status_eq :: "memory_status \<Rightarrow> memory_status \<Rightarrow> bool" where
  "status_eq a b = (severity a = severity b)"

fun is_sticky :: "memory_status \<Rightarrow> bool" where
  "is_sticky (AuthFailed _) = True"
| "is_sticky (QuotaExhausted _) = True"
| "is_sticky _ = False"

fun is_auth_failed :: "memory_status \<Rightarrow> bool" where
  "is_auth_failed (AuthFailed _) = True"
| "is_auth_failed _ = False"

fun is_quota_exhausted :: "memory_status \<Rightarrow> bool" where
  "is_quota_exhausted (QuotaExhausted _) = True"
| "is_quota_exhausted _ = False"

lemma sticky_iff: "is_sticky s \<longleftrightarrow> is_auth_failed s \<or> is_quota_exhausted s"
  by (cases s) auto

section \<open>Policies and the back-off\<close>

record retry_policy =
  per_attempt :: millis
  retries :: nat

definition POLICY_BLOCKING_RECALL :: retry_policy where
  "POLICY_BLOCKING_RECALL = \<lparr>per_attempt = secs 3, retries = 0\<rparr>"
definition POLICY_AUTO_RETAIN :: retry_policy where
  "POLICY_AUTO_RETAIN = \<lparr>per_attempt = secs 10, retries = 2\<rparr>"
definition POLICY_PREFETCH :: retry_policy where
  "POLICY_PREFETCH = \<lparr>per_attempt = secs 5, retries = 1\<rparr>"
definition POLICY_MCP_RETAIN :: retry_policy where
  "POLICY_MCP_RETAIN = \<lparr>per_attempt = secs 10, retries = 1\<rparr>"
definition POLICY_MCP_RECALL :: retry_policy where
  "POLICY_MCP_RECALL = \<lparr>per_attempt = secs 5, retries = 0\<rparr>"
definition POLICY_MCP_REFLECT :: retry_policy where
  "POLICY_MCP_REFLECT = \<lparr>per_attempt = secs 15, retries = 0\<rparr>"
definition POLICY_STARTUP_BANK :: retry_policy where
  "POLICY_STARTUP_BANK = \<lparr>per_attempt = secs 10, retries = 3\<rparr>"

text \<open>\<^verbatim>\<open>checked_shl\<close> fails from 64 on; below that it drops the bits shifted out.
  The jitter is a draw from 0..249.\<close>

definition backoff :: "nat \<Rightarrow> nat \<Rightarrow> nat" where
  "backoff attempt jitter =
     (let base = (if attempt < 64 then unat (push_bit attempt (500 :: 64 word)) else 2 ^ 64 - 1)
      in min (2 ^ 64 - 1) (base + jitter))"

section \<open>The client\<close>

datatype resilient_error = Upstream memory_error | CircuitOpen "millis option"

definition DROP_WINDOW :: millis where "DROP_WINDOW = secs 3600"
definition DROP_WINDOW_24H :: millis where "DROP_WINDOW_24H = secs 86400"
definition CLIENT_FLOOD_THRESHOLD :: nat where "CLIENT_FLOOD_THRESHOLD = 20"

record 's client =
  rh_now :: millis
  rh_breaker :: breaker
  rh_status :: memory_status
  rh_drops :: "millis list"
  rh_sink :: 's
  rh_source :: string

definition new_client :: "millis \<Rightarrow> 's \<Rightarrow> string \<Rightarrow> 's client" where
  "new_client now sink src = \<lparr>rh_now = now, rh_breaker = new_breaker, rh_status = Healthy,
     rh_drops = [], rh_sink = sink, rh_source = src\<rparr>"

definition client_drops_24h :: "'s client \<Rightarrow> nat \<times> 's client" where
  "client_drops_24h c =
     (let q = evict_before (rh_now c - DROP_WINDOW_24H) (rh_drops c)
      in (length q, c\<lparr>rh_drops := q\<rparr>))"

definition client_drops_1h :: "'s client \<Rightarrow> nat" where
  "client_drops_1h c = length (filter (\<lambda>t. rh_now c - DROP_WINDOW \<le> t) (rh_drops c))"

definition bump_client_drop :: "'s client \<Rightarrow> 's client" where
  "bump_client_drop c =
     c\<lparr>rh_drops := evict_before (rh_now c - DROP_WINDOW_24H) (rh_drops c @ [rh_now c])\<rparr>"

definition refresh_status :: "'s client \<Rightarrow> 's client" where
  "refresh_status c =
     (let (st, b) = breaker_state (rh_now c) (rh_breaker c);
          new = (case st of Closed \<Rightarrow> Healthy | Open _ \<Rightarrow> Degraded (rh_now c) | HalfOpen \<Rightarrow> Degraded (rh_now c));
          cur = rh_status c
      in c\<lparr>rh_breaker := b,
           rh_status := (if is_sticky cur then cur else if \<not> status_eq cur new then new else cur)\<rparr>)"

definition record_outcome :: "outcome \<Rightarrow> 's client \<Rightarrow> 's client" where
  "record_outcome out c = c\<lparr>rh_breaker := breaker_record (rh_now c) out (rh_breaker c)\<rparr>"

text \<open>\<^verbatim>\<open>tokio::time::timeout\<close>: an answer that needs longer than the limit is a timeout.\<close>

definition timed :: "millis \<Rightarrow> (memory_error, 'a) result \<times> millis \<Rightarrow> (memory_error, 'a) result \<times> millis" where
  "timed limit call = (if snd call \<le> limit then call else (Err HindsightTimeout, limit))"

datatype 'a attempt_result = Done "(resilient_error, 'a) result" | Retry memory_error

definition call_once ::
  "retry_policy \<Rightarrow> (memory_error, 'a) result \<times> millis \<Rightarrow> 's client \<Rightarrow> 'a attempt_result \<times> 's client" where
  "call_once pol call c =
     (case admit (rh_now c) (rh_breaker c) of
        (Err retry_after, b) \<Rightarrow>
          (Done (Err (CircuitOpen (Some retry_after))), refresh_status (c\<lparr>rh_breaker := b\<rparr>))
      | (Ok _, b) \<Rightarrow>
          (case timed (per_attempt pol) call of
             (out, dur) \<Rightarrow>
               (let c1 = c\<lparr>rh_breaker := b, rh_now := rh_now c + dur\<rparr> in
                case out of
                  Ok v \<Rightarrow>
                    (let c2 = record_outcome Success c1;
                         c3 = (if is_quota_exhausted (rh_status c2) then c2\<lparr>rh_status := Healthy\<rparr> else c2)
                     in (Done (Ok v), refresh_status c3))
                | Err e \<Rightarrow>
                    (let kind = classify e; c2 = record_outcome (Failure kind) c1 in
                     if kind = Auth
                     then (Done (Err (Upstream e)),
                           if is_auth_failed (rh_status c2) then c2
                           else c2\<lparr>rh_status := AuthFailed (rh_now c2)\<rparr>)
                     else if kind = Quota
                     then (Done (Err (Upstream e)),
                           if is_sticky (rh_status c2) then c2
                           else c2\<lparr>rh_status := QuotaExhausted (rh_now c2)\<rparr>)
                     else if kind = Client \<or> kind = Malformed
                     then (Done (Err (Upstream e)), refresh_status c2)
                     else (Retry e, c2)))))"

text \<open>The loop over the attempts; the first number counts the attempts that remain after
  this one, the second is the index of this one.\<close>

fun call_loop ::
  "retry_policy \<Rightarrow> (nat \<Rightarrow> (memory_error, 'a) result \<times> millis) \<Rightarrow> (nat \<Rightarrow> nat) \<Rightarrow>
   nat \<Rightarrow> nat \<Rightarrow> 's client \<Rightarrow> (resilient_error, 'a) result \<times> 's client" where
  "call_loop pol op jitter 0 att c =
     (case call_once pol (op att) c of
        (Done r, c') \<Rightarrow> (r, c')
      | (Retry e, c') \<Rightarrow> (Err (Upstream e), refresh_status c'))"
| "call_loop pol op jitter (Suc rem) att c =
     (case call_once pol (op att) c of
        (Done r, c') \<Rightarrow> (r, c')
      | (Retry e, c') \<Rightarrow>
          call_loop pol op jitter rem (Suc att)
            (c'\<lparr>rh_now := rh_now c' + int (backoff att (jitter att))\<rparr>))"

definition call_with_policy ::
  "retry_policy \<Rightarrow> (nat \<Rightarrow> (memory_error, 'a) result \<times> millis) \<Rightarrow> (nat \<Rightarrow> nat) \<Rightarrow>
   's client \<Rightarrow> (resilient_error, 'a) result \<times> 's client" where
  "call_with_policy pol op jitter c = call_loop pol op jitter (retries pol) 0 c"

text \<open>Failed enqueues are logged and dropped: the sink's answer is not looked at.\<close>

definition enqueue_for_retry ::
  "(new_pending_retain \<Rightarrow> 's \<Rightarrow> (memory_error, unit) result \<times> 's) \<Rightarrow> new_pending_retain \<Rightarrow>
   's client \<Rightarrow> 's client" where
  "enqueue_for_retry enq item c =
     c\<lparr>rh_sink := snd (enq (item\<lparr>np_source := rh_source c\<rparr>) (rh_sink c))\<rparr>"

text \<open>The item carries the raw content and the metadata of the call; the upstream call is
  made with the sanitised item.\<close>

definition retain ::
  "(string \<Rightarrow> string) \<Rightarrow> (new_pending_retain \<Rightarrow> 's \<Rightarrow> (memory_error, unit) result \<times> 's) \<Rightarrow>
   (new_pending_retain \<Rightarrow> nat \<Rightarrow> (memory_error, 'a) result \<times> millis) \<Rightarrow> (nat \<Rightarrow> nat) \<Rightarrow>
   new_pending_retain \<Rightarrow> retry_policy \<Rightarrow> 's client \<Rightarrow> (resilient_error, 'a) result \<times> 's client" where
  "retain sanitize enq op jitter item0 pol c =
     (let item = item0\<lparr>np_content := sanitize (np_content item0)\<rparr>;
          (res, c1) = call_with_policy pol (op item) jitter c
      in (res,
          case res of
            Ok _ \<Rightarrow> c1
          | Err (Upstream e) \<Rightarrow>
              (case classify e of
                 Transient \<Rightarrow> enqueue_for_retry enq item c1
               | RateLimited \<Rightarrow> enqueue_for_retry enq item c1
               | Client \<Rightarrow> bump_client_drop c1
               | Malformed \<Rightarrow> bump_client_drop c1
               | Auth \<Rightarrow> c1
               | Quota \<Rightarrow> c1)
          | Err (CircuitOpen _) \<Rightarrow>
              if \<not> is_sticky (rh_status c1) then enqueue_for_retry enq item c1 else c1))"

definition get_or_create_bank ::
  "(nat \<Rightarrow> (memory_error, 'a) result \<times> millis) \<Rightarrow> (nat \<Rightarrow> nat) \<Rightarrow> retry_policy \<Rightarrow>
   's client \<Rightarrow> (resilient_error, 'a) result \<times> 's client" where
  "get_or_create_bank op jitter pol c =
     (let (out, c1) = call_with_policy pol op jitter c
      in (out, if is_ok out \<and> is_auth_failed (rh_status c1) then c1\<lparr>rh_status := Healthy\<rparr> else c1))"

definition drain_retain_item ::
  "(pending_retain \<Rightarrow> (memory_error, unit) result \<times> millis) \<Rightarrow> pending_retain \<Rightarrow>
   's client \<Rightarrow> (error_kind, unit) result \<times> 's client" where
  "drain_retain_item op item c =
     (case call_with_policy \<lparr>per_attempt = secs 10, retries = 0\<rparr> (\<lambda>_. op item) (\<lambda>_. 0) c of
        (Ok _, c') \<Rightarrow> (Ok (), c')
      | (Err (Upstream e), c') \<Rightarrow> (Err (classify e), c')
      | (Err (CircuitOpen _), c') \<Rightarrow> (Err Transient, c'))"

section \<open>What a call does\<close>

lemma refresh_status_fields [simp]:
  "rh_now (refresh_status c) = rh_now c" "rh_drops (refresh_status c) = rh_drops c"
  "rh_sink (refresh_status c) = rh_sink c" "rh_source (refresh_status c) = rh_source c"
  "is_sticky (rh_status c) \<Longrightarrow> rh_status (refresh_status c) = rh_status c"
  by (simp_all add: refresh_status_def Let_def split: prod.splits)

lemma refresh_status_breaker:
  "rh_breaker (refresh_status c) = breaker_refresh (rh_now c) (rh_breaker c)"
  by (simp add: refresh_status_def breaker_state_def Let_def)

lemma refresh_status_sticky_iff [simp]:
  "is_auth_failed (rh_status (refresh_status c)) \<longleftrightarrow> is_auth_failed (rh_status c)"
  "is_quota_exhausted (rh_status (refresh_status c)) \<longleftrightarrow> is_quota_exhausted (rh_status c)"
  by (auto simp: refresh_status_def Let_def sticky_iff split: prod.splits circuit_state.splits)

lemma record_outcome_fields [simp]:
  "rh_now (record_outcome out c) = rh_now c" "rh_drops (record_outcome out c) = rh_drops c"
  "rh_sink (record_outcome out c) = rh_sink c" "rh_source (record_outcome out c) = rh_source c"
  "rh_status (record_outcome out c) = rh_status c"
  "rh_breaker (record_outcome out c) = breaker_record (rh_now c) out (rh_breaker c)"
  by (simp_all add: record_outcome_def)

text \<open>The answer an attempt counts as, and the kinds that are tried again.\<close>

definition effective :: "retry_policy \<Rightarrow> (nat \<Rightarrow> (memory_error, 'a) result \<times> millis) \<Rightarrow> nat \<Rightarrow> (memory_error, 'a) result" where
  "effective pol op k = fst (timed (per_attempt pol) (op k))"

definition retryable :: "memory_error \<Rightarrow> bool" where
  "retryable e = (classify e \<in> {Transient, RateLimited})"

lemma call_once_cases:
  assumes "call_once pol (op k) c = (r, c')"
  shows "(\<exists>d. r = Done (Err (CircuitOpen (Some d)))) \<or>
    (\<exists>v. r = Done (Ok v) \<and> effective pol op k = Ok v) \<or>
    (\<exists>e. r = Done (Err (Upstream e)) \<and> effective pol op k = Err e \<and> \<not> retryable e) \<or>
    (\<exists>e. r = Retry e \<and> effective pol op k = Err e \<and> retryable e)"
proof (cases "fst (admit (rh_now c) (rh_breaker c))")
  case (Inl d)
  then show ?thesis using assms
    by (cases "admit (rh_now c) (rh_breaker c)") (auto simp: call_once_def)
next
  case (Inr u)
  then obtain b where a: "admit (rh_now c) (rh_breaker c) = (Ok u, b)"
    by (cases "admit (rh_now c) (rh_breaker c)") auto
  obtain out dur where t: "timed (per_attempt pol) (op k) = (out, dur)"
    by (cases "timed (per_attempt pol) (op k)")
  show ?thesis
  proof (cases out)
    case (Inl e)
    then show ?thesis using assms a t
      by (cases "classify e") (auto simp: call_once_def Let_def effective_def retryable_def)
  next
    case (Inr v)
    then show ?thesis using assms a t by (auto simp: call_once_def Let_def effective_def)
  qed
qed

lemma call_once_fields:
  assumes "call_once pol call c = (r, c')"
  shows "rh_sink c' = rh_sink c" "rh_drops c' = rh_drops c" "rh_source c' = rh_source c"
    "is_auth_failed (rh_status c) \<Longrightarrow> rh_status c' = rh_status c"
    "0 \<le> snd call \<Longrightarrow> 0 \<le> per_attempt pol \<Longrightarrow>
       rh_now c \<le> rh_now c' \<and> rh_now c' \<le> rh_now c + per_attempt pol"
  using assms
  by (auto simp: call_once_def Let_def timed_def sticky_iff split: sum.splits prod.splits if_splits)
     (auto elim!: is_auth_failed.elims)

lemma call_loop_fields:
  assumes "call_loop pol op jitter n att c = (r, c')"
  shows "rh_sink c' = rh_sink c \<and> rh_drops c' = rh_drops c \<and> rh_source c' = rh_source c \<and>
    (is_auth_failed (rh_status c) \<longrightarrow> rh_status c' = rh_status c)"
  using assms
proof (induction n arbitrary: att c)
  case 0
  obtain a c1 where o: "call_once pol (op att) c = (a, c1)" by (cases "call_once pol (op att) c")
  then show ?case using 0 call_once_fields[OF o]
    by (cases a) (auto simp: sticky_iff)
next
  case (Suc n)
  obtain a c1 where o: "call_once pol (op att) c = (a, c1)" by (cases "call_once pol (op att) c")
  show ?case
  proof (cases a)
    case (Retry e)
    then have "call_loop pol op jitter n (Suc att)
        (c1\<lparr>rh_now := rh_now c1 + int (backoff att (jitter att))\<rparr>) = (r, c')"
      using Suc.prems o by simp
    from Suc.IH[OF this] show ?thesis using call_once_fields[OF o] by auto
  qed (use Suc.prems o call_once_fields[OF o] in auto)
qed

lemma call_loop_result:
  assumes "call_loop pol op jitter n att c = (r, c')"
  shows "\<exists>k \<le> n. (\<forall>j < k. \<exists>e. effective pol op (att + j) = Err e \<and> retryable e) \<and>
    ((\<exists>d. r = Err (CircuitOpen (Some d))) \<or>
     (\<exists>v. r = Ok v \<and> effective pol op (att + k) = Ok v) \<or>
     (\<exists>e. r = Err (Upstream e) \<and> effective pol op (att + k) = Err e \<and> (retryable e \<longrightarrow> k = n)))"
  using assms
proof (induction n arbitrary: att c)
  case 0
  obtain a c1 where o: "call_once pol (op att) c = (a, c1)" by (cases "call_once pol (op att) c")
  then show ?case using 0 call_once_cases[where k = att and op = op, OF o] by (cases a) auto
next
  case (Suc n)
  obtain a c1 where o: "call_once pol (op att) c = (a, c1)" by (cases "call_once pol (op att) c")
  show ?case
  proof (cases a)
    case (Done r')
    then show ?thesis using Suc.prems o call_once_cases[where k = att and op = op, OF o] by (intro exI[of _ 0]) auto
  next
    case (Retry e)
    then have "call_loop pol op jitter n (Suc att)
        (c1\<lparr>rh_now := rh_now c1 + int (backoff att (jitter att))\<rparr>) = (r, c')"
      using Suc.prems o by simp
    from Suc.IH[OF this] obtain k where k: "k \<le> n"
      "\<forall>j < k. \<exists>e. effective pol op (Suc att + j) = Err e \<and> retryable e"
      "(\<exists>d. r = Err (CircuitOpen (Some d))) \<or>
       (\<exists>v. r = Ok v \<and> effective pol op (Suc att + k) = Ok v) \<or>
       (\<exists>e. r = Err (Upstream e) \<and> effective pol op (Suc att + k) = Err e \<and> (retryable e \<longrightarrow> k = n))"
      by blast
    have e: "effective pol op att = Err e \<and> retryable e" using call_once_cases[where k = att and op = op, OF o] Retry by auto
    have "\<forall>j < Suc k. \<exists>e. effective pol op (att + j) = Err e \<and> retryable e"
    proof (intro allI impI)
      fix j assume "j < Suc k"
      then show "\<exists>e. effective pol op (att + j) = Err e \<and> retryable e"
        using e k(2) by (cases j) auto
    qed
    then show ?thesis using k by (intro exI[of _ "Suc k"]) auto
  qed
qed

lemma call_loop_time:
  assumes "call_loop pol op jitter n att c = (r, c')"
    and "\<And>k. 0 \<le> snd (op k)" and "0 \<le> per_attempt pol"
  shows "rh_now c \<le> rh_now c' \<and> rh_now c' \<le> rh_now c + (int n + 1) * per_attempt pol +
    (\<Sum>k < n. int (backoff (att + k) (jitter (att + k))))"
  using assms(1)
proof (induction n arbitrary: att c)
  case 0
  obtain a c1 where o: "call_once pol (op att) c = (a, c1)" by (cases "call_once pol (op att) c")
  then show ?case using 0 call_once_fields(5)[OF o assms(2,3)] by (cases a) auto
next
  case (Suc n)
  obtain a c1 where o: "call_once pol (op att) c = (a, c1)" by (cases "call_once pol (op att) c")
  note b = call_once_fields(5)[OF o assms(2,3)]
  have split: "(\<Sum>k < Suc n. int (backoff (att + k) (jitter (att + k)))) =
      int (backoff att (jitter att)) + (\<Sum>k < n. int (backoff (Suc att + k) (jitter (Suc att + k))))"
    by (subst sum.lessThan_Suc_shift) simp
  have nn: "0 \<le> (\<Sum>k < n. int (backoff (Suc att + k) (jitter (Suc att + k))))"
    by (intro sum_nonneg) simp
  show ?case
  proof (cases a)
    case (Retry e)
    then have "call_loop pol op jitter n (Suc att)
        (c1\<lparr>rh_now := rh_now c1 + int (backoff att (jitter att))\<rparr>) = (r, c')"
      using Suc.prems o by simp
    from Suc.IH[OF this] show ?thesis unfolding split using b by (auto simp: algebra_simps)
  next
    case (Done r')
    then have eq: "c' = c1" using Suc.prems o by simp
    have "0 \<le> int n * per_attempt pol" using assms(3) by simp
    moreover have "(int (Suc n) + 1) * per_attempt pol = int n * per_attempt pol + 2 * per_attempt pol"
      by (simp add: algebra_simps)
    ultimately show ?thesis unfolding split eq using b[THEN conjunct1] b[THEN conjunct2] nn assms(3) by (intro conjI) linarith+
  qed
qed

lemma backoff_exact:
  assumes "attempt \<le> 55" and "jitter < 250"
  shows "backoff attempt jitter = 500 * 2 ^ attempt + jitter"
proof -
  have "(500 :: nat) * 2 ^ attempt \<le> 500 * 2 ^ 55"
    using assms(1) by (intro mult_le_mono2 power_increasing) auto
  then have b: "500 * 2 ^ attempt + jitter < (2 :: nat) ^ 64" and a: "500 * 2 ^ attempt < (2 :: nat) ^ 64"
    using assms(2) by simp_all
  have "unat (push_bit attempt (500 :: 64 word)) = 500 * 2 ^ attempt mod 2 ^ 64"
    unfolding unsigned_push_bit_eq by (simp add: push_bit_eq_mult take_bit_eq_mod)
  then show ?thesis using assms a b by (simp add: backoff_def Let_def)
qed

section \<open>The sink the client hands failed writes to\<close>

type_synonym payload = "string \<times> string option \<times> string option \<times> string option \<times> string list option"

definition new_payload :: "new_pending_retain \<Rightarrow> payload" where
  "new_payload it = (np_content it, np_context it, np_document_id it, np_update_mode it, np_tags it)"

definition row_payload :: "'a pending_retain_scheme \<Rightarrow> payload" where
  "row_payload r = (content r, context_text r, document_id r, update_mode r, tags r)"

locale retain_sink =
  fixes inv :: "'s \<Rightarrow> bool"
    and payloads :: "'s \<Rightarrow> payload list"
    and enq :: "new_pending_retain \<Rightarrow> 's \<Rightarrow> (memory_error, unit) result \<times> 's"
  assumes enq_inv: "inv s \<Longrightarrow> inv (snd (enq it s))"
    and enq_payloads: "inv s \<Longrightarrow>
      \<exists>kept. payloads (snd (enq it s)) = kept @ [new_payload it] \<and> subseq kept (payloads s)"
    and bounded: "inv s \<Longrightarrow> length (payloads s) \<le> QUEUE_CAP"
begin

lemma enqueued_last:
  "inv (rh_sink c) \<Longrightarrow> last (payloads (rh_sink (enqueue_for_retry enq it c))) = new_payload it"
  using enq_payloads[of "rh_sink c" "it\<lparr>np_source := rh_source c\<rparr>"]
  by (auto simp: enqueue_for_retry_def new_payload_def)

text \<open>A write that failed for a transient reason is in the sink, sanitised, when
  \<^verbatim>\<open>retain\<close> returns.\<close>

lemma retain_keeps_transient:
  assumes "inv (rh_sink c)" and "retain sanitize enq op jitter item pol c = (Err (Upstream e), c')"
    and "retryable e"
  shows "inv (rh_sink c') \<and>
    last (payloads (rh_sink c')) = new_payload (item\<lparr>np_content := sanitize (np_content item)\<rparr>)"
proof -
  let ?it = "item\<lparr>np_content := sanitize (np_content item)\<rparr>"
  obtain r c1 where r: "call_with_policy pol (op ?it) jitter c = (r, c1)"
    by (cases "call_with_policy pol (op ?it) jitter c")
  have s: "rh_sink c1 = rh_sink c"
    using call_loop_fields[OF r[unfolded call_with_policy_def]] by simp
  have "r = Err (Upstream e)" and "c' = enqueue_for_retry enq ?it c1"
    using assms(2,3) r by (auto simp: retain_def Let_def retryable_def)
  then show ?thesis using enqueued_last[of c1 ?it] assms(1) s
    by (simp add: enqueue_for_retry_def enq_inv)
qed

end

lemma map_update_where_same:
  "(\<And>r. g (f r) = g r) \<Longrightarrow> map g (update_where c f t) = map g t"
  by (rule update_where_key)

lemma evict_subseq: "subseq (map g (evict_over_cap t)) (map g t)"
  unfolding evict_over_cap_def Let_def delete_where_def by (intro subseq_map subseq_filter_left)

interpretation sql_sink: retain_sink table_inv "\<lambda>q. map row_payload (rows q)"
  "\<lambda>it q. (Ok (), enqueue_in_transaction now_s created it q)"
proof unfold_locales
  fix q it
  assume i: "table_inv q"
  show "table_inv (snd (Ok (), enqueue_in_transaction now_s created it q))"
    using enqueue_inv[OF i] by simp
  show "\<exists>kept. map row_payload (rows (snd (Ok (), enqueue_in_transaction now_s created it q))) =
      kept @ [new_payload it] \<and> subseq kept (map row_payload (rows q))"
    using evict_subseq[of row_payload "rows (snd (reclaim_expired now_s q))"]
    by (auto simp: enqueue_in_transaction_def Let_def reclaim_rows map_update_where_same
        row_payload_def new_payload_def clear_lease_def)
next
  fix q assume "table_inv q"
  then show "length (map row_payload (rows q)) \<le> QUEUE_CAP" by (simp add: table_inv_def)
qed

lemma mem_kept_subseq: "subseq (map g (drop n t)) (map g t)"
  by (metis drop_map suffix_drop suffix_imp_subseq)

interpretation mem_sink: retain_sink mem_inv "\<lambda>q. map row_payload (mem_rows q)"
  "\<lambda>it q. (Ok (), mem_enqueue now_s it q)"
proof unfold_locales
  fix q it
  assume i: "mem_inv q"
  show "mem_inv (snd (Ok (), mem_enqueue now_s it q))" using mem_enqueue_inv[OF i] by simp
  show "\<exists>kept. map row_payload (mem_rows (snd (Ok (), mem_enqueue now_s it q))) =
      kept @ [new_payload it] \<and> subseq kept (map row_payload (mem_rows q))"
    using mem_kept_subseq[of row_payload "length (mem_rows q) - (QUEUE_CAP - 1)" "mem_rows q"]
    by (auto simp: mem_enqueue_def Let_def row_payload_def new_payload_def)
next
  fix q assume "mem_inv q"
  then show "length (map row_payload (mem_rows q)) \<le> QUEUE_CAP" by (simp add: mem_inv_def)
qed

section \<open>Properties\<close>

text \<open>A call makes at most one attempt more than its retry count, tries again only after a
  transient or rate-limit failure, and returns the answer of its last attempt: the first
  success, the first failure of another kind, the failure of the last attempt, or a refusal
  by the breaker.\<close>

theorem call_with_policy_result:
  assumes "call_with_policy pol op jitter c = (r, c')"
  shows "\<exists>k \<le> retries pol. (\<forall>j < k. \<exists>e. effective pol op j = Err e \<and> retryable e) \<and>
    ((\<exists>d. r = Err (CircuitOpen (Some d))) \<or>
     (\<exists>v. r = Ok v \<and> effective pol op k = Ok v) \<or>
     (\<exists>e. r = Err (Upstream e) \<and> effective pol op k = Err e \<and> (retryable e \<longrightarrow> k = retries pol)))"
  using call_loop_result[OF assms[unfolded call_with_policy_def]] by simp

definition flaky :: "nat \<Rightarrow> (memory_error, nat) result \<times> millis" where
  "flaky k = (if k = 0 then (Err HindsightTimeout, 10) else (Ok k, 5))"

theorem call_with_policy_result_witness:
  "fst (call_with_policy POLICY_AUTO_RETAIN flaky (\<lambda>_. 0) (new_client 0 () ''bot'')) = Ok 1 \<and>
   (\<exists>k \<le> 2. effective POLICY_AUTO_RETAIN flaky k = Ok 1)"
proof -
  let ?r = "call_with_policy POLICY_AUTO_RETAIN flaky (\<lambda>_. 0) (new_client 0 () ''bot'')"
  have e: "fst ?r = Ok 1"
    by (simp add: call_with_policy_def POLICY_AUTO_RETAIN_def numeral_2_eq_2 call_once_def flaky_def timed_def
        admit_def breaker_refresh_def new_client_def new_breaker_def evict_before_def Let_def
        record_outcome_def breaker_record_def record_tick_def push_failure_def breaker_consts)
  then have "?r = (Ok 1, snd ?r)" by (metis prod.collapse)
  from call_with_policy_result[OF this] have "\<exists>k \<le> 2. effective POLICY_AUTO_RETAIN flaky k = Ok 1"
    by (auto simp: POLICY_AUTO_RETAIN_def)
  with e show ?thesis by blast
qed

text \<open>C1: A call always returns, and in bounded time: at most the per-attempt limit for each
  attempt plus the back-offs between them, each 500 ms times a power of two plus jitter.\<close>

theorem call_with_policy_time:
  assumes "call_with_policy pol op jitter c = (r, c')" and "\<And>k. 0 \<le> snd (op k)"
    and "0 \<le> per_attempt pol" and "retries pol \<le> 55" and "\<And>k. jitter k < 250"
  shows "rh_now c \<le> rh_now c' \<and>
    rh_now c' \<le> rh_now c + (int (retries pol) + 1) * per_attempt pol +
      (\<Sum>k < retries pol. 500 * 2 ^ k + int (jitter k))"
proof -
  have "(\<Sum>k < retries pol. int (backoff k (jitter k))) = (\<Sum>k < retries pol. 500 * 2 ^ k + int (jitter k))"
    using assms(4,5) by (intro sum.cong) (auto simp: backoff_exact)
  then show ?thesis
    using call_loop_time[OF assms(1)[unfolded call_with_policy_def] assms(2,3)] by simp
qed

theorem call_with_policy_time_witness:
  "rh_now (snd (call_with_policy POLICY_AUTO_RETAIN flaky (\<lambda>_. 7) (new_client 0 () ''bot''))) \<le> 31514"
proof -
  let ?r = "call_with_policy POLICY_AUTO_RETAIN flaky (\<lambda>_. 7) (new_client 0 () ''bot'')"
  have "?r = (fst ?r, snd ?r)" by simp
  from call_with_policy_time[OF this] show ?thesis
    by (auto simp: POLICY_AUTO_RETAIN_def flaky_def new_client_def lessThan_nat_numeral lessThan_Suc)
qed

text \<open>An authentication failure is sticky: no call, successful or not, clears or moves it,
  and the startup probe is the only operation that does, and only when it succeeds.\<close>

theorem auth_failure_sticky:
  assumes "rh_status c = AuthFailed since"
  shows "rh_status (snd (call_with_policy pol op jitter c)) = AuthFailed since \<and>
    rh_status (snd (retain sanitize enq rop jitter item pol c)) = AuthFailed since \<and>
    rh_status (snd (get_or_create_bank op jitter pol c)) =
      (if is_ok (fst (get_or_create_bank op jitter pol c)) then Healthy else AuthFailed since)"
proof -
  have *: "rh_status c1 = AuthFailed since" if "call_with_policy pol o' jitter c = (r, c1)" for o' r c1
    using call_loop_fields[OF that[unfolded call_with_policy_def]] assms by simp
  obtain r1 c1 where a: "call_with_policy pol op jitter c = (r1, c1)"
    by (cases "call_with_policy pol op jitter c")
  let ?it = "item\<lparr>np_content := sanitize (np_content item)\<rparr>"
  obtain r2 c2 where b: "call_with_policy pol (rop ?it) jitter c = (r2, c2)"
    by (cases "call_with_policy pol (rop ?it) jitter c")
  have "rh_status (snd (retain sanitize enq rop jitter item pol c)) = AuthFailed since"
    using *[OF b] b by (auto simp: retain_def Let_def enqueue_for_retry_def bump_client_drop_def
        split: sum.splits resilient_error.splits error_kind.splits)
  then show ?thesis using *[OF a] a by (simp add: get_or_create_bank_def)
qed

theorem auth_failure_sticky_witness:
  "rh_status (snd (call_with_policy POLICY_MCP_RETAIN flaky (\<lambda>_. 0)
     ((new_client 0 () ''bot'')\<lparr>rh_status := AuthFailed 0\<rparr>))) = AuthFailed 0"
  by (rule auth_failure_sticky[THEN conjunct1]) simp

text \<open>A write is never lost silently to a transient failure: when \<^verbatim>\<open>retain\<close> gives up on a
  transient or rate-limit error, the sanitised item is the newest row of the queue.\<close>

theorem retain_transient_enqueued:
  assumes "table_inv (rh_sink c)" and "retryable e"
    and "retain sanitize (\<lambda>it q. (Ok (), enqueue_in_transaction now_s created it q)) op jitter item pol c =
      (Err (Upstream e), c')"
  shows "table_inv (rh_sink c') \<and> row_payload (last (rows (rh_sink c'))) =
    new_payload (item\<lparr>np_content := sanitize (np_content item)\<rparr>)"
proof -
  note k = sql_sink.retain_keeps_transient[OF assms(1,3,2)]
  have "rows (rh_sink c') \<noteq> []"
  proof -
    obtain r c1 where r: "call_with_policy pol (op (item\<lparr>np_content := sanitize (np_content item)\<rparr>)) jitter c = (r, c1)"
      by (cases "call_with_policy pol (op (item\<lparr>np_content := sanitize (np_content item)\<rparr>)) jitter c")
    then have "\<exists>it. c' = enqueue_for_retry (\<lambda>it q. (Ok (), enqueue_in_transaction now_s created it q)) it c1"
      using assms(2,3) by (auto simp: retain_def Let_def retryable_def)
    then show ?thesis by (auto simp: enqueue_for_retry_def enqueue_in_transaction_def Let_def)
  qed
  then show ?thesis using k by (simp add: last_map)
qed

definition sample_item :: new_pending_retain where
  "sample_item = \<lparr>np_source = ''x'', np_content = ''hi'', np_context = None, np_document_id = None,
     np_update_mode = None, np_tags = None\<rparr>"

theorem retain_transient_enqueued_witness:
  "row_payload (last (rows (rh_sink (snd (retain (\<lambda>s. s @ ''!'')
      (\<lambda>it q. (Ok (), enqueue_in_transaction ''n'' ''2026-02-02'' it q))
      (\<lambda>_ _. (Err HindsightTimeout :: (memory_error, unit) result, 1)) (\<lambda>_. 0) sample_item POLICY_MCP_RECALL
      (new_client 0 \<lparr>next_rowid = 1, rows = []\<rparr> ''bot'')))))) =
   (''hi!'', None, None, None, None)"
proof -
  let ?c = "new_client 0 \<lparr>next_rowid = 1, rows = []\<rparr> ''bot''"
  let ?r = "retain (\<lambda>s. s @ ''!'') (\<lambda>it q. (Ok (), enqueue_in_transaction ''n'' ''2026-02-02'' it q))
      (\<lambda>_ _. (Err HindsightTimeout :: (memory_error, unit) result, 1)) (\<lambda>_. 0) sample_item POLICY_MCP_RECALL ?c"
  have "fst ?r = Err (Upstream HindsightTimeout)"
    by (simp add: retain_def Let_def call_with_policy_def POLICY_MCP_RECALL_def call_once_def timed_def
        admit_def breaker_refresh_def new_client_def new_breaker_def evict_before_def split: prod.split)
  then have r: "?r = (Err (Upstream HindsightTimeout), snd ?r)" by (metis prod.collapse)
  have "table_inv (rh_sink ?c)" by (simp add: new_client_def table_inv_def)
  from retain_transient_enqueued[OF this _ r] show ?thesis
    by (simp add: retryable_def new_payload_def sample_item_def)
qed

text \<open>Every outcome of \<^verbatim>\<open>retain\<close> is accounted for: the sink changes only after a transient or
  rate-limit failure or an open circuit without a sticky status, the drop counter only
  after a client or parse error, and a success, an authentication or a quota failure
  touches neither.\<close>

theorem retain_accounting:
  assumes "retain sanitize enq op jitter item pol c = (res, c')"
  shows "(case res of
      Ok _ \<Rightarrow> rh_sink c' = rh_sink c \<and> rh_drops c' = rh_drops c
    | Err (Upstream e) \<Rightarrow>
        (rh_sink c' = rh_sink c \<or> retryable e) \<and>
        (classify e \<in> {Client, Malformed} \<longrightarrow> rh_now c' \<in> set (rh_drops c')) \<and>
        (classify e \<notin> {Client, Malformed} \<longrightarrow> rh_drops c' = rh_drops c)
    | Err (CircuitOpen _) \<Rightarrow>
        (rh_sink c' = rh_sink c \<or> \<not> is_sticky (rh_status c')) \<and> rh_drops c' = rh_drops c)"
proof -
  let ?it = "item\<lparr>np_content := sanitize (np_content item)\<rparr>"
  obtain r c1 where r: "call_with_policy pol (op ?it) jitter c = (r, c1)"
    by (cases "call_with_policy pol (op ?it) jitter c")
  have f: "rh_sink c1 = rh_sink c" "rh_drops c1 = rh_drops c"
    using call_loop_fields[OF r[unfolded call_with_policy_def]] by simp_all
  have n: "rh_now c1 \<in> set (evict_before (rh_now c1 - DROP_WINDOW_24H) (q @ [rh_now c1]))" for q
    by (induction q) (auto simp: evict_before_def DROP_WINDOW_24H_def)
  show ?thesis
  proof (cases r)
    case (Inr v)
    then show ?thesis using assms r f by (auto simp: retain_def Let_def)
  next
    case (Inl err)
    show ?thesis
    proof (cases err)
      case (Upstream e)
      have "res = Err (Upstream e)" and "c' = (case classify e of
          Transient \<Rightarrow> enqueue_for_retry enq ?it c1 | RateLimited \<Rightarrow> enqueue_for_retry enq ?it c1
        | Client \<Rightarrow> bump_client_drop c1 | Malformed \<Rightarrow> bump_client_drop c1 | Auth \<Rightarrow> c1 | Quota \<Rightarrow> c1)"
        using assms r Inl Upstream by (simp_all add: retain_def Let_def)
      then show ?thesis using f n
        by (cases "classify e") (simp_all add: enqueue_for_retry_def bump_client_drop_def retryable_def)
    next
      case (CircuitOpen d)
      then have "res = Err (CircuitOpen d)"
        and "c' = (if \<not> is_sticky (rh_status c1) then enqueue_for_retry enq ?it c1 else c1)"
        using assms r Inl by (simp_all add: retain_def Let_def)
      then show ?thesis using f by (simp add: enqueue_for_retry_def)
    qed
  qed
qed

theorem retain_accounting_witness:
  "rh_sink (snd (retain (\<lambda>s. s) (\<lambda>it q. (Ok (), Suc q)) (\<lambda>_ _. (Ok (), 1)) (\<lambda>_. 0)
     sample_item POLICY_MCP_RECALL (new_client 0 0 ''bot''))) = 0"
proof -
  let ?r = "retain (\<lambda>s. s) (\<lambda>it q. (Ok (), Suc q)) (\<lambda>_ _. (Ok (), 1)) (\<lambda>_. 0)
     sample_item POLICY_MCP_RECALL (new_client 0 0 ''bot'')"
  have "fst ?r = Ok ()" by code_simp
  then have "?r = (Ok (), snd ?r)" by (metis prod.collapse)
  from retain_accounting[OF this] show ?thesis by (simp add: new_client_def)
qed

end
