(* ===== verification/Provider_Model.thy ===== *)
theory Provider_Model
  imports Prelude
begin

text \<open>
  The pure part of the provider credential store
  (\<^verbatim>\<open>right-providers/src/catalog.rs\<close>, \<^verbatim>\<open>error.rs\<close>, \<^verbatim>\<open>record.rs\<close>, \<^verbatim>\<open>validate.rs\<close>
  and \<^verbatim>\<open>plan.rs\<close>): the built-in catalog, the record types, the validators and the
  plans for sharing and for destroying an agent.  A string is the sequence of bytes
  of the code's UTF-8 string, so lengths are byte lengths; trimming removes ASCII
  white space.
\<close>

section \<open>Errors\<close>

datatype store_error =
    StoreNotFound string
  | NameCollision string
  | EnvVarCollision string
  | InvalidName string string
  | InvalidEnvVar string
  | UnknownBuiltinSlug string
  | BorrowedReadOnly string string
  | ShareConflict string
  | GenericEnvVarChangeRequiresCredential string
  | SourceCredentialUnreadable string
  | StoreDb string
  | Storage string

section \<open>Catalog\<close>

datatype provider_category = Inference | Agent | SourceControl | Messaging | Other

fun category_str :: "provider_category \<Rightarrow> string" where
  "category_str Inference = ''inference''"
| "category_str Agent = ''agent''"
| "category_str SourceControl = ''sourcecontrol''"
| "category_str Messaging = ''messaging''"
| "category_str Other = ''other''"

record builtin_provider =
  bp_slug :: string
  bp_env_var :: string
  bp_display_name :: string
  bp_category :: provider_category
  bp_hidden :: bool
  bp_allowed_hosts :: "string list"
  bp_query_injection :: bool

definition RESERVED_TYPE_SLUG :: string where "RESERVED_TYPE_SLUG = ''claude''"
definition GENERIC_SLUG :: string where "GENERIC_SLUG = ''generic''"

definition BUILTIN_CATALOG :: "builtin_provider list" where
  "BUILTIN_CATALOG = [
    \<lparr>bp_slug = ''anthropic'', bp_env_var = ''ANTHROPIC_API_KEY'', bp_display_name = ''Anthropic API'', bp_category = Inference,
     bp_hidden = False, bp_allowed_hosts = [''api.anthropic.com''], bp_query_injection = False\<rparr>,
    \<lparr>bp_slug = ''openai'', bp_env_var = ''OPENAI_API_KEY'', bp_display_name = ''OpenAI'', bp_category = Inference,
     bp_hidden = False, bp_allowed_hosts = [''api.openai.com''], bp_query_injection = False\<rparr>,
    \<lparr>bp_slug = ''nvidia'', bp_env_var = ''NVIDIA_API_KEY'', bp_display_name = ''NVIDIA'', bp_category = Inference,
     bp_hidden = False, bp_allowed_hosts = [''integrate.api.nvidia.com''], bp_query_injection = False\<rparr>,
    \<lparr>bp_slug = ''codex'', bp_env_var = ''OPENAI_API_KEY'', bp_display_name = ''Codex'', bp_category = Agent,
     bp_hidden = False, bp_allowed_hosts = [''api.openai.com'', ''chatgpt.com''], bp_query_injection = False\<rparr>,
    \<lparr>bp_slug = ''copilot'', bp_env_var = ''COPILOT_GITHUB_TOKEN'', bp_display_name = ''GitHub Copilot'', bp_category = Agent,
     bp_hidden = False, bp_allowed_hosts = [''api.github.com'', ''api.githubcopilot.com''], bp_query_injection = False\<rparr>,
    \<lparr>bp_slug = ''opencode'', bp_env_var = ''OPENCODE_API_KEY'', bp_display_name = ''OpenCode'', bp_category = Agent,
     bp_hidden = False, bp_allowed_hosts = [''opencode.ai'', ''api.opencode.ai''], bp_query_injection = False\<rparr>,
    \<lparr>bp_slug = ''github'', bp_env_var = ''GITHUB_TOKEN'', bp_display_name = ''GitHub'', bp_category = SourceControl,
     bp_hidden = True, bp_allowed_hosts = [''api.github.com'', ''github.com''], bp_query_injection = False\<rparr>,
    \<lparr>bp_slug = ''right-github'', bp_env_var = ''GITHUB_TOKEN'', bp_display_name = ''GitHub'', bp_category = SourceControl,
     bp_hidden = False, bp_allowed_hosts = [''api.github.com'', ''github.com''], bp_query_injection = False\<rparr>,
    \<lparr>bp_slug = ''right-fal'', bp_env_var = ''FAL_KEY'', bp_display_name = ''fal.ai'', bp_category = Other,
     bp_hidden = False, bp_allowed_hosts = [''fal.run'', ''queue.fal.run'', ''rest.fal.ai''], bp_query_injection = False\<rparr>,
    \<lparr>bp_slug = ''gitlab'', bp_env_var = ''GITLAB_TOKEN'', bp_display_name = ''GitLab'', bp_category = SourceControl,
     bp_hidden = False, bp_allowed_hosts = [''gitlab.com''], bp_query_injection = False\<rparr>,
    \<lparr>bp_slug = GENERIC_SLUG, bp_env_var = '''', bp_display_name = ''Generic'', bp_category = Other,
     bp_hidden = False, bp_allowed_hosts = [], bp_query_injection = False\<rparr>]"

definition offered_catalog :: "builtin_provider list" where
  "offered_catalog = filter (\<lambda>p. \<not> bp_hidden p) BUILTIN_CATALOG"

definition builtin :: "string \<Rightarrow> builtin_provider option" where
  "builtin slug = find (\<lambda>p. bp_slug p = slug) BUILTIN_CATALOG"

section \<open>Records\<close>

definition REDACTION_SENTINEL :: string where "REDACTION_SENTINEL = ''REDACTED''"

definition check_source_credential_readable :: "string \<Rightarrow> string \<Rightarrow> (store_error, unit) result" where
  "check_source_credential_readable value source =
     ensure (value \<noteq> [] \<and> value \<noteq> REDACTION_SENTINEL) (SourceCredentialUnreadable source)"

record generic_spec =
  gs_env_var :: string
  gs_upstream_hosts :: "string list"
  gs_path_prefix :: "string option"

datatype provider_kind = Builtin string | Generic generic_spec

fun kind_slug :: "provider_kind \<Rightarrow> string" where
  "kind_slug (Builtin slug) = slug"
| "kind_slug (Generic _) = GENERIC_SLUG"

fun kind_generic :: "provider_kind \<Rightarrow> generic_spec option" where
  "kind_generic (Builtin _) = None"
| "kind_generic (Generic spec) = Some spec"

fun kind_env_var :: "provider_kind \<Rightarrow> (store_error, string) result" where
  "kind_env_var (Builtin slug) =
     (case builtin slug of Some p \<Rightarrow> Ok (bp_env_var p) | None \<Rightarrow> Err (UnknownBuiltinSlug slug))"
| "kind_env_var (Generic spec) = Ok (gs_env_var spec)"

fun kind_allowed_hosts :: "provider_kind \<Rightarrow> (store_error, string list) result" where
  "kind_allowed_hosts (Builtin slug) =
     (case builtin slug of Some p \<Rightarrow> Ok (bp_allowed_hosts p) | None \<Rightarrow> Err (UnknownBuiltinSlug slug))"
| "kind_allowed_hosts (Generic spec) = Ok (gs_upstream_hosts spec)"

fun kind_builtin_entry :: "provider_kind \<Rightarrow> builtin_provider option" where
  "kind_builtin_entry (Builtin slug) = builtin slug"
| "kind_builtin_entry (Generic _) = None"

datatype provider_status = Ready | NeedsValue | StatusError

record provider_record =
  pr_name :: string
  pr_owner_agent :: string
  pr_kind :: provider_kind
  pr_label :: string
  pr_env_var :: string
  pr_updated_at :: int
  pr_borrower_agent :: "string option"
  pr_status :: provider_status

definition holder_agent :: "provider_record \<Rightarrow> string" where
  "holder_agent r = (case pr_borrower_agent r of Some b \<Rightarrow> b | None \<Rightarrow> pr_owner_agent r)"

definition is_borrowed :: "provider_record \<Rightarrow> bool" where
  "is_borrowed r = (pr_borrower_agent r \<noteq> None)"

definition is_owned :: "provider_record \<Rightarrow> bool" where
  "is_owned r = (pr_borrower_agent r = None)"

record new_provider =
  nw_owner_agent :: string
  nw_name :: string
  nw_kind :: provider_kind
  nw_label :: string

section \<open>Validation\<close>

definition MAX_SLUG_LEN :: nat where "MAX_SLUG_LEN = 40"
definition MAX_NAME_LEN :: nat where "MAX_NAME_LEN = 64"
definition MAX_ENV_VAR_LEN :: nat where "MAX_ENV_VAR_LEN = 64"
definition MAX_LABEL_LEN :: nat where "MAX_LABEL_LEN = 32"
definition MAX_HOST_LEN :: nat where "MAX_HOST_LEN = 253"
definition MAX_PATH_PREFIX_LEN :: nat where "MAX_PATH_PREFIX_LEN = 128"
definition RECORD_NAME_HEX_LEN :: nat where "RECORD_NAME_HEX_LEN = 6"

definition validate_name :: "string \<Rightarrow> string \<Rightarrow> (store_error, unit) result" where
  "validate_name agent name =
     (let slug = (case strip_prefix (agent @ ''-'') name of Some s \<Rightarrow> s | None \<Rightarrow> name) in
      if slug = [] \<or> MAX_SLUG_LEN < length slug
      then Err (InvalidName name ''1-40 chars after optional agent prefix'')
      else if MAX_NAME_LEN < length name then Err (InvalidName name ''name too long (max 64)'')
      else if \<not> (case name of [] \<Rightarrow> False | c # _ \<Rightarrow> is_lower c) \<or>
              \<not> list_all (\<lambda>c. is_lower c \<or> is_digit c \<or> c = CHR ''-'') name
      then Err (InvalidName name ''lowercase a-z/0-9/-, must start a-z'')
      else Ok ())"

text \<open>The random hex digits come from the uuid crate.\<close>

definition new_record_name :: "string \<Rightarrow> string \<Rightarrow> string" where
  "new_record_name uuid_hex type_slug =
     (let base = (case strip_prefix ''right-'' type_slug of Some s \<Rightarrow> s | None \<Rightarrow> type_slug);
          base' = (if base = [] \<or> prefix GENERIC_SLUG base then GENERIC_SLUG else base)
      in base' @ ''-'' @ take RECORD_NAME_HEX_LEN uuid_hex)"

definition validate_type_slug :: "string \<Rightarrow> (store_error, unit) result" where
  "validate_type_slug slug =
     (if slug = RESERVED_TYPE_SLUG
      then Err (InvalidName slug ''type claude is reserved for the in-sandbox login flow'')
      else if builtin slug = None then Err (InvalidName slug ''unknown type'')
      else Ok ())"

definition validate_env_var :: "string \<Rightarrow> (store_error, unit) result" where
  "validate_env_var name =
     (if name = [] \<or> MAX_ENV_VAR_LEN < length name then Err (InvalidEnvVar name)
      else if \<not> (is_upper (hd name) \<or> hd name = CHR ''_'') then Err (InvalidEnvVar name)
      else if \<not> list_all (\<lambda>c. is_upper c \<or> is_digit c \<or> c = CHR ''_'') (tl name)
      then Err (InvalidEnvVar name)
      else Ok ())"

definition validate_yaml_scalar :: "string \<Rightarrow> string \<Rightarrow> nat \<Rightarrow> string \<Rightarrow> (store_error, unit) result" where
  "validate_yaml_scalar value field max_len extra =
     (if value = [] \<or> max_len < length value
      then Err (InvalidName value (field @ '' must be 1-'' @ string_of_nat max_len @ '' chars''))
      else if \<not> list_all (\<lambda>c. is_alnum c \<or> c \<in> set extra) value
      then Err (InvalidName value (field @ '' contains disallowed character''))
      else Ok ())"

definition is_yaml_reserved_word :: "string \<Rightarrow> bool" where
  "is_yaml_reserved_word s =
     (map to_lower s \<in> {''y'', ''yes'', ''n'', ''no'', ''true'', ''false'', ''on'', ''off'', ''null'', ''~''})"

text \<open>The grammar of Rust's \<^verbatim>\<open>f64::from_str\<close>; every text \<^verbatim>\<open>i64::from_str\<close> accepts is in it.\<close>

definition strip_sign :: "string \<Rightarrow> string" where
  "strip_sign s = (case s of [] \<Rightarrow> [] | c # cs \<Rightarrow> if c = CHR ''-'' \<or> c = CHR ''+'' then cs else s)"

definition is_exponent :: "string \<Rightarrow> bool" where
  "is_exponent s = (s = [] \<or> (to_lower (hd s) = CHR ''e'' \<and> strip_sign (tl s) \<noteq> [] \<and>
     list_all is_digit (strip_sign (tl s))))"

definition is_decimal :: "string \<Rightarrow> bool" where
  "is_decimal s =
     (let int_part = takeWhile is_digit s; rest = dropWhile is_digit s in
      case rest of
        [] \<Rightarrow> int_part \<noteq> []
      | c # cs \<Rightarrow>
          if c = CHR ''.''
          then (int_part \<noteq> [] \<or> takeWhile is_digit cs \<noteq> []) \<and> is_exponent (dropWhile is_digit cs)
          else int_part \<noteq> [] \<and> is_exponent rest)"

definition is_pure_numeric :: "string \<Rightarrow> bool" where
  "is_pure_numeric s =
     (let u = strip_sign s in
      map to_lower u \<in> {''inf'', ''infinity'', ''nan''} \<or> is_decimal u)"

definition validate_label :: "string \<Rightarrow> (store_error, unit) result" where
  "validate_label label =
     bind_result (validate_yaml_scalar label ''label'' MAX_LABEL_LEN ''-_'') (\<lambda>_.
       if is_yaml_reserved_word label \<or> is_pure_numeric label
       then Err (InvalidName label ''label must not be a YAML-reserved word or a pure number'')
       else Ok ())"

definition validate_upstream_host :: "string \<Rightarrow> (store_error, unit) result" where
  "validate_upstream_host host = validate_yaml_scalar host ''upstream_host'' MAX_HOST_LEN ''.-_:''"

definition validate_path_prefix :: "string \<Rightarrow> (store_error, unit) result" where
  "validate_path_prefix path = validate_yaml_scalar path ''upstream_path_prefix'' MAX_PATH_PREFIX_LEN ''-_/.~''"

text \<open>Trimmed, empty ones dropped, the first of equal ones kept, in order.\<close>

definition normalize_generic_hosts :: "string option \<Rightarrow> string list option \<Rightarrow> string list" where
  "normalize_generic_hosts upstream_host upstream_hosts =
     (let singular = (case upstream_host of None \<Rightarrow> [] | Some h \<Rightarrow> [h]);
          plural = (case upstream_hosts of None \<Rightarrow> [] | Some hs \<Rightarrow> hs);
          hosts = filter (\<lambda>h. h \<noteq> []) (map trim (singular @ plural))
      in rev (remdups (rev hosts)))"

fun validate_all :: "('a \<Rightarrow> (store_error, unit) result) \<Rightarrow> 'a list \<Rightarrow> (store_error, unit) result" where
  "validate_all v [] = Ok ()"
| "validate_all v (x # xs) = bind_result (v x) (\<lambda>_. validate_all v xs)"

definition validate_generic_request ::
  "string \<Rightarrow> string option \<Rightarrow> string list option \<Rightarrow> string option \<Rightarrow> (store_error, string list) result" where
  "validate_generic_request env_var upstream_host upstream_hosts path_prefix =
     bind_result (validate_env_var env_var) (\<lambda>_.
       let hosts = normalize_generic_hosts upstream_host upstream_hosts in
       if hosts = [] then Err (InvalidName [] ''generic provider requires at least one upstream host'')
       else bind_result (validate_all validate_upstream_host hosts) (\<lambda>_.
         case path_prefix of
           None \<Rightarrow> Ok hosts
         | Some p \<Rightarrow> bind_result (validate_path_prefix p) (\<lambda>_. Ok hosts)))"

section \<open>Plans\<close>

record held_provider =
  hp_name :: string
  hp_owner_agent :: string

definition owned_by :: "held_provider \<Rightarrow> string \<Rightarrow> bool" where
  "owned_by p holder = (hp_owner_agent p = holder)"

record destroy_plan =
  dp_detach :: "string list"
  dp_delete :: "string list"
  dp_rehome :: "string \<Rightarrow> string option"

definition empty_plan :: destroy_plan where
  "empty_plan = \<lparr>dp_detach = [], dp_delete = [], dp_rehome = Map.empty\<rparr>"

definition other_holders :: "string \<Rightarrow> (string \<times> held_provider list) list \<Rightarrow> string \<Rightarrow> string list" where
  "other_holders deleting agents name =
     map fst (filter (\<lambda>(a, ps). a \<noteq> deleting \<and> list_ex (\<lambda>p. hp_name p = name) ps) agents)"

fun cascade_loop :: "string \<Rightarrow> (string \<times> held_provider list) list \<Rightarrow> bool \<Rightarrow>
    held_provider list \<Rightarrow> destroy_plan \<Rightarrow> destroy_plan" where
  "cascade_loop deleting agents complete [] plan = plan"
| "cascade_loop deleting agents complete (e # es) plan0 =
     (let plan = plan0\<lparr>dp_detach := dp_detach plan0 @ [hp_name e]\<rparr> in
      if \<not> complete then cascade_loop deleting agents complete es plan
      else (case other_holders deleting agents (hp_name e) of
              [] \<Rightarrow> cascade_loop deleting agents complete es
                      (plan\<lparr>dp_delete := dp_delete plan @ [hp_name e]\<rparr>)
            | a # _ \<Rightarrow>
                if owned_by e deleting
                then cascade_loop deleting agents complete es
                       (plan\<lparr>dp_rehome := (dp_rehome plan)(hp_name e \<mapsto> a)\<rparr>)
                else cascade_loop deleting agents complete es plan))"

definition plan_destroy_provider_cascade ::
  "string \<Rightarrow> (string \<times> held_provider list) list \<Rightarrow> bool \<Rightarrow> destroy_plan" where
  "plan_destroy_provider_cascade deleting agents complete =
     (case find (\<lambda>(a, _). a = deleting) agents of
        None \<Rightarrow> empty_plan
      | Some (_, ps) \<Rightarrow> cascade_loop deleting agents complete ps empty_plan)"

definition plan_share :: "string \<Rightarrow> string \<Rightarrow> string \<Rightarrow> held_provider list \<Rightarrow> (store_error, unit) result" where
  "plan_share owner dest provider dest_providers =
     (if owner = dest then Err (ShareConflict ''cannot share a provider with the owning agent itself'')
      else if list_ex (\<lambda>p. hp_name p = provider) dest_providers
      then Err (ShareConflict ''destination agent already has provider'')
      else Ok ())"

definition plan_unshare :: "string \<Rightarrow> held_provider \<Rightarrow> (store_error, unit) result" where
  "plan_unshare holder entry =
     (if owned_by entry holder
      then Err (ShareConflict ''provider is owned by this agent, not borrowed; use remove, not unshare'')
      else Ok ())"

definition true_owner :: "held_provider \<Rightarrow> string" where
  "true_owner entry = hp_owner_agent entry"

end
