(* ===== verification/Provider_Store.thy ===== *)
theory Provider_Store
  imports Provider_Model
begin

text \<open>
  The provider store (\<^verbatim>\<open>right-providers/src/store.rs\<close>): the tables \<^verbatim>\<open>providers\<close> and
  \<^verbatim>\<open>provider_borrows\<close> as lists of rows and one definition per operation.  A failed
  operation returns the database it was given, as the rolled-back transaction does.
  SQL statements fail only on a primary-key conflict; the clock reading is an
  argument; a row's kind columns are kept decoded.
\<close>

record provider_row =
  pv_owner :: string
  pv_name :: string
  pv_kind :: provider_kind
  pv_env_var :: string
  pv_label :: string
  pv_credential :: string
  pv_updated_at :: int

record borrow_row =
  bw_borrower :: string
  bw_name :: string
  bw_owner :: string
  bw_created_at :: int

record provider_db =
  providers :: "provider_row list"
  borrows :: "borrow_row list"

definition pv_key :: "provider_row \<Rightarrow> string \<times> string" where
  "pv_key r = (pv_owner r, pv_name r)"

definition bw_key :: "borrow_row \<Rightarrow> string \<times> string" where
  "bw_key b = (bw_borrower b, bw_name b)"

definition has_credential :: "provider_row \<Rightarrow> bool" where
  "has_credential r = (pv_credential r \<noteq> [] \<and> pv_credential r \<noteq> REDACTION_SENTINEL)"

definition into_record :: "provider_row \<Rightarrow> string option \<Rightarrow> provider_record" where
  "into_record r borrower =
     (let (env_var, resolves) = (case kind_env_var (pv_kind r) of
            Ok e \<Rightarrow> (e, True) | Err _ \<Rightarrow> (pv_env_var r, False))
      in \<lparr>pr_name = pv_name r, pr_owner_agent = pv_owner r, pr_kind = pv_kind r,
          pr_label = pv_label r, pr_env_var = env_var, pr_updated_at = pv_updated_at r,
          pr_borrower_agent = borrower,
          pr_status = (if \<not> resolves then StatusError
                       else if has_credential r then Ready else NeedsValue)\<rparr>)"

section \<open>Reads\<close>

definition owned_row_for :: "provider_db \<Rightarrow> string \<Rightarrow> string \<Rightarrow> provider_row option" where
  "owned_row_for db owner name = pop_row (filter (\<lambda>r. pv_key r = (owner, name)) (providers db))"

definition borrow_owner :: "provider_db \<Rightarrow> string \<Rightarrow> string \<Rightarrow> string option" where
  "borrow_owner db borrower name =
     map_option bw_owner (pop_row (filter (\<lambda>b. bw_key b = (borrower, name)) (borrows db)))"

record resolved =
  rs_row :: provider_row
  rs_borrower :: "string option"

definition resolve :: "provider_db \<Rightarrow> string \<Rightarrow> string \<Rightarrow> (store_error, resolved) result" where
  "resolve db agent name =
     (case owned_row_for db agent name of
        Some row \<Rightarrow> Ok \<lparr>rs_row = row, rs_borrower = None\<rparr>
      | None \<Rightarrow>
          (case borrow_owner db agent name of
             None \<Rightarrow> Err (StoreNotFound name)
           | Some owner \<Rightarrow>
               (case owned_row_for db owner name of
                  None \<Rightarrow> Err (Storage ''borrow without its owning row'')
                | Some row \<Rightarrow> Ok \<lparr>rs_row = row, rs_borrower = Some agent\<rparr>)))"

definition held_providers :: "provider_db \<Rightarrow> string \<Rightarrow> held_provider list" where
  "held_providers db agent =
     (let owned = map (\<lambda>r. \<lparr>hp_name = pv_name r, hp_owner_agent = pv_owner r\<rparr>)
                    (filter (\<lambda>r. pv_owner r = agent) (providers db));
          borrowed = map (\<lambda>b. \<lparr>hp_name = bw_name b, hp_owner_agent = bw_owner b\<rparr>)
                       (filter (\<lambda>b. bw_borrower b = agent) (borrows db))
      in dedup_by hp_name (sort_key hp_name (owned @ borrowed)))"

definition get_provider :: "provider_db \<Rightarrow> string \<Rightarrow> string \<Rightarrow> (store_error, provider_record) result" where
  "get_provider db agent name =
     bind_result (resolve db agent name) (\<lambda>r. Ok (into_record (rs_row r) (rs_borrower r)))"

definition list_providers :: "provider_db \<Rightarrow> string \<Rightarrow> provider_record list" where
  "list_providers db agent =
     map (\<lambda>r. into_record r None) (sort_key pv_name (filter (\<lambda>r. pv_owner r = agent) (providers db))) @
     map (\<lambda>r. into_record r (Some agent))
       (sort_key pv_name (filter (\<lambda>r. list_ex (\<lambda>b. bw_borrower b = agent \<and> bw_owner b = pv_owner r \<and>
          bw_name b = pv_name r) (borrows db)) (providers db)))"

definition reject_if_borrowed :: "resolved \<Rightarrow> (store_error, unit) result" where
  "reject_if_borrowed r =
     ensure (rs_borrower r = None) (BorrowedReadOnly (pv_name (rs_row r)) (pv_owner (rs_row r)))"

definition borrowers_of :: "provider_db \<Rightarrow> string \<Rightarrow> string \<Rightarrow> string list" where
  "borrowers_of db owner name =
     sort (map bw_borrower (filter (\<lambda>b. bw_owner b = owner \<and> bw_name b = name) (borrows db)))"

definition holders :: "provider_db \<Rightarrow> string \<Rightarrow> string \<Rightarrow> (store_error, string list) result" where
  "holders db owner name =
     bind_result (resolve db owner name) (\<lambda>r.
     bind_result (reject_if_borrowed r) (\<lambda>_.
       Ok (pv_owner (rs_row r) # borrowers_of db owner name)))"

text \<open>The kind and the environment variable a new row stores.\<close>

definition kind_columns :: "provider_kind \<Rightarrow> (store_error, provider_kind \<times> string) result" where
  "kind_columns kind =
     (case kind of
        Builtin slug \<Rightarrow>
          bind_result (validate_type_slug slug) (\<lambda>_.
            if slug = GENERIC_SLUG
            then Err (InvalidName slug ''type generic requires a generic definition'')
            else bind_result (kind_env_var kind) (\<lambda>env_var. Ok (Builtin slug, env_var)))
      | Generic spec \<Rightarrow>
          bind_result (validate_generic_request (gs_env_var spec) None (Some (gs_upstream_hosts spec)) (gs_path_prefix spec))
            (\<lambda>hosts. Ok (Generic (spec\<lparr>gs_upstream_hosts := hosts\<rparr>), gs_env_var spec)))"

fun bound_loop :: "provider_db \<Rightarrow> held_provider list \<Rightarrow> (store_error, string list) result" where
  "bound_loop db [] = Ok []"
| "bound_loop db (h # hs) =
     (case owned_row_for db (hp_owner_agent h) (hp_name h) of
        None \<Rightarrow> Err (Storage ''held record has no owning row'')
      | Some row \<Rightarrow>
          bind_result (bound_loop db hs) (\<lambda>es. Ok (pr_env_var (into_record row None) # es)))"

definition bound_env_vars :: "provider_db \<Rightarrow> string \<Rightarrow> (store_error, string list) result" where
  "bound_env_vars db agent = bound_loop db (held_providers db agent)"

section \<open>Writes\<close>

definition insert_provider :: "provider_row \<Rightarrow> provider_db \<Rightarrow> (store_error, provider_db) result" where
  "insert_provider row db =
     (if list_ex (\<lambda>r. pv_key r = pv_key row) (providers db) then Err (StoreDb ''UNIQUE'')
      else Ok (db\<lparr>providers := providers db @ [row]\<rparr>))"

definition insert_borrow :: "borrow_row \<Rightarrow> provider_db \<Rightarrow> (store_error, provider_db) result" where
  "insert_borrow row db =
     (if list_ex (\<lambda>b. bw_key b = bw_key row) (borrows db) then Err (StoreDb ''UNIQUE'')
      else Ok (db\<lparr>borrows := borrows db @ [row]\<rparr>))"

text \<open>The outcome of a write: its answer and the database it leaves.\<close>

definition commit_or_rollback :: "provider_db \<Rightarrow> (store_error, provider_db) result \<Rightarrow>
    (store_error, unit) result \<times> provider_db" where
  "commit_or_rollback db outcome =
     (case outcome of Ok db' \<Rightarrow> (Ok (), db') | Err e \<Rightarrow> (Err e, db))"

definition create_tx :: "int \<Rightarrow> new_provider \<Rightarrow> string \<Rightarrow> provider_db \<Rightarrow> (store_error, provider_db) result" where
  "create_tx now rec cred db =
     bind_result (validate_name (nw_owner_agent rec) (nw_name rec)) (\<lambda>_.
     bind_result (if nw_label rec \<noteq> [] then validate_label (nw_label rec) else Ok ()) (\<lambda>_.
     bind_result (kind_columns (nw_kind rec)) (\<lambda>(kind, env_var).
       if list_ex (\<lambda>p. hp_name p = nw_name rec) (held_providers db (nw_owner_agent rec))
       then Err (NameCollision (nw_name rec))
       else bind_result (bound_env_vars db (nw_owner_agent rec)) (\<lambda>bound.
         if env_var \<in> set bound then Err (EnvVarCollision env_var)
         else insert_provider
           \<lparr>pv_owner = nw_owner_agent rec, pv_name = nw_name rec, pv_kind = kind,
            pv_env_var = env_var, pv_label = nw_label rec, pv_credential = cred,
            pv_updated_at = now\<rparr> db))))"

definition create :: "int \<Rightarrow> new_provider \<Rightarrow> string \<Rightarrow> provider_db \<Rightarrow>
    (store_error, provider_record) result \<times> provider_db" where
  "create now rec cred db =
     (case commit_or_rollback db (create_tx now rec cred db) of
        (Err e, db') \<Rightarrow> (Err e, db')
      | (Ok _, db') \<Rightarrow> (get_provider db' (nw_owner_agent rec) (nw_name rec), db'))"

definition update_provider :: "string \<Rightarrow> string \<Rightarrow> (provider_row \<Rightarrow> provider_row) \<Rightarrow> provider_db \<Rightarrow>
    (store_error, provider_db) result" where
  "update_provider owner name f db =
     (if count_where (\<lambda>r. pv_key r = (owner, name)) (providers db) = 0 then Err (StoreNotFound name)
      else Ok (db\<lparr>providers := update_where (\<lambda>r. pv_key r = (owner, name)) f (providers db)\<rparr>))"

definition rotate :: "int \<Rightarrow> string \<Rightarrow> string \<Rightarrow> string \<Rightarrow> provider_db \<Rightarrow> (store_error, unit) result \<times> provider_db" where
  "rotate now agent name cred db =
     commit_or_rollback db
       (bind_result (resolve db agent name) (\<lambda>r.
        bind_result (reject_if_borrowed r) (\<lambda>_.
        bind_result (kind_env_var (pv_kind (rs_row r))) (\<lambda>_.
          update_provider agent name (\<lambda>row. row\<lparr>pv_credential := cred, pv_updated_at := now\<rparr>) db))))"

definition set_endpoints :: "provider_kind \<Rightarrow> provider_kind \<Rightarrow> provider_kind" where
  "set_endpoints new old =
     (case (new, old) of
        (Generic n, Generic g) \<Rightarrow>
          Generic (g\<lparr>gs_upstream_hosts := gs_upstream_hosts n, gs_path_prefix := gs_path_prefix n\<rparr>)
      | _ \<Rightarrow> old)"

definition update_generic :: "int \<Rightarrow> string \<Rightarrow> string \<Rightarrow> generic_spec \<Rightarrow> provider_db \<Rightarrow>
    (store_error, unit) result \<times> provider_db" where
  "update_generic now agent name spec db =
     commit_or_rollback db
       (bind_result (resolve db agent name) (\<lambda>r.
        bind_result (reject_if_borrowed r) (\<lambda>_.
          case kind_generic (pv_kind (rs_row r)) of
            None \<Rightarrow> Err (InvalidName name ''config-update only valid on generic providers'')
          | Some current \<Rightarrow>
              if gs_env_var spec \<noteq> gs_env_var current
              then Err (GenericEnvVarChangeRequiresCredential name)
              else bind_result (kind_columns (Generic spec)) (\<lambda>(kind, _).
                update_provider agent name
                  (\<lambda>row. row\<lparr>pv_kind := set_endpoints kind (pv_kind row), pv_updated_at := now\<rparr>) db))))"

definition remove_tx :: "string \<Rightarrow> string \<Rightarrow> provider_db \<Rightarrow> (store_error, provider_db) result" where
  "remove_tx agent name db =
     (case borrowers_of db agent name of
        [] \<Rightarrow>
          if count_where (\<lambda>r. pv_key r = (agent, name)) (providers db) = 0 then Err (StoreNotFound name)
          else Ok (db\<lparr>providers := delete_where (\<lambda>r. pv_key r = (agent, name)) (providers db)\<rparr>)
      | new_owner # _ \<Rightarrow>
          if count_where (\<lambda>r. pv_key r = (agent, name)) (providers db) = 0 then Err (StoreNotFound name)
          else if list_ex (\<lambda>r. pv_key r = (new_owner, name)) (providers db) then Err (StoreDb ''UNIQUE'')
          else Ok (db\<lparr>
            providers := update_where (\<lambda>r. pv_key r = (agent, name)) (\<lambda>r. r\<lparr>pv_owner := new_owner\<rparr>) (providers db),
            borrows := update_where (\<lambda>b. bw_owner b = agent \<and> bw_name b = name) (\<lambda>b. b\<lparr>bw_owner := new_owner\<rparr>)
              (delete_where (\<lambda>b. bw_key b = (new_owner, name)) (borrows db))\<rparr>))"

definition remove :: "string \<Rightarrow> string \<Rightarrow> provider_db \<Rightarrow> (store_error, unit) result \<times> provider_db" where
  "remove agent name db =
     commit_or_rollback db
       (bind_result (resolve db agent name) (\<lambda>r.
        bind_result (reject_if_borrowed r) (\<lambda>_. remove_tx agent name db)))"

definition share :: "int \<Rightarrow> string \<Rightarrow> string \<Rightarrow> string \<Rightarrow> provider_db \<Rightarrow>
    (store_error, provider_record) result \<times> provider_db" where
  "share now owner name dest db =
     (case commit_or_rollback db
        (bind_result (validate_name dest name) (\<lambda>_.
         bind_result (resolve db owner name) (\<lambda>r.
         bind_result (plan_share (pv_owner (rs_row r)) dest name (held_providers db dest)) (\<lambda>_.
           insert_borrow \<lparr>bw_borrower = dest, bw_name = name, bw_owner = pv_owner (rs_row r),
             bw_created_at = now\<rparr> db)))) of
        (Err e, db') \<Rightarrow> (Err e, db')
      | (Ok _, db') \<Rightarrow> (get_provider db' dest name, db'))"

definition unshare :: "string \<Rightarrow> string \<Rightarrow> provider_db \<Rightarrow> (store_error, unit) result \<times> provider_db" where
  "unshare borrower name db =
     commit_or_rollback db
       (bind_result (resolve db borrower name) (\<lambda>r.
        bind_result (plan_unshare borrower \<lparr>hp_name = name, hp_owner_agent = pv_owner (rs_row r)\<rparr>) (\<lambda>_.
          if count_where (\<lambda>b. bw_key b = (borrower, name)) (borrows db) = 0 then Err (StoreNotFound name)
          else Ok (db\<lparr>borrows := delete_where (\<lambda>b. bw_key b = (borrower, name)) (borrows db)\<rparr>))))"

section \<open>The binding handed to the sandbox\<close>

record secret_binding =
  sb_env_var :: string
  sb_source :: "string \<times> string"
  sb_value :: string
  sb_allowed_hosts :: "string list"
  sb_inject_query :: bool

text \<open>The source identity is a hash of the length-delimited owner and name; the model keeps
  the pair itself.\<close>

definition source_ref_binding :: "provider_db \<Rightarrow> string \<Rightarrow> string \<Rightarrow> (store_error, secret_binding) result" where
  "source_ref_binding db agent name =
     bind_result (resolve db agent name) (\<lambda>r.
     let row = rs_row r in
     bind_result (kind_env_var (pv_kind row)) (\<lambda>env_var.
     bind_result (kind_allowed_hosts (pv_kind row)) (\<lambda>hosts.
       if hosts = []
       then Err (InvalidName name ''provider has no allowed hosts, so its credential could never be used'')
       else
         let query = (case kind_builtin_entry (pv_kind row) of Some e \<Rightarrow> bp_query_injection e | None \<Rightarrow> False);
             cred = pv_credential row
         in bind_result (check_source_credential_readable cred name) (\<lambda>_.
              Ok \<lparr>sb_env_var = env_var, sb_source = (pv_owner row, name), sb_value = cred,
                  sb_allowed_hosts = hosts, sb_inject_query = query\<rparr>))))"

end
