(* ===== verification/Provider_Props.thy ===== *)
theory Provider_Props
  imports Provider_Store
begin

text \<open>
  Correctness of the provider store: the invariant that ties the two tables, its
  preservation by every operation, what each operation does to the records the
  agents can reach, and the soundness of the destroy plan.
\<close>

section \<open>Invariant\<close>

definition owns :: "provider_db \<Rightarrow> string \<Rightarrow> string \<Rightarrow> bool" where
  "owns db a n = (\<exists>r \<in> set (providers db). pv_key r = (a, n))"

definition borrows_rec :: "provider_db \<Rightarrow> string \<Rightarrow> string \<Rightarrow> bool" where
  "borrows_rec db a n = (\<exists>b \<in> set (borrows db). bw_key b = (a, n))"

definition store_inv :: "provider_db \<Rightarrow> bool" where
  "store_inv db =
     (distinct (map pv_key (providers db)) \<and> distinct (map bw_key (borrows db)) \<and>
      (\<forall>b \<in> set (borrows db). owns db (bw_owner b) (bw_name b)) \<and>
      (\<forall>b \<in> set (borrows db). \<not> owns db (bw_borrower b) (bw_name b)))"

lemma store_invD:
  assumes "store_inv db"
  shows "distinct (map pv_key (providers db))" "distinct (map bw_key (borrows db))"
    "b \<in> set (borrows db) \<Longrightarrow> owns db (bw_owner b) (bw_name b)"
    "b \<in> set (borrows db) \<Longrightarrow> \<not> owns db (bw_borrower b) (bw_name b)"
  using assms by (auto simp: store_inv_def)

lemma owns_not_borrows: "store_inv db \<Longrightarrow> owns db a n \<Longrightarrow> \<not> borrows_rec db a n"
  by (auto simp: store_inv_def borrows_rec_def bw_key_def)

lemma provider_unique:
  "store_inv db \<Longrightarrow> r \<in> set (providers db) \<Longrightarrow> r' \<in> set (providers db) \<Longrightarrow> pv_key r = pv_key r' \<Longrightarrow> r = r'"
  by (rule distinct_key_unique[OF store_invD(1)])

lemma borrow_unique:
  "store_inv db \<Longrightarrow> b \<in> set (borrows db) \<Longrightarrow> b' \<in> set (borrows db) \<Longrightarrow> bw_key b = bw_key b' \<Longrightarrow> b = b'"
  by (rule distinct_key_unique[OF store_invD(2)])

lemma owned_row_for_iff:
  "store_inv db \<Longrightarrow> owned_row_for db a n = Some r \<longleftrightarrow> r \<in> set (providers db) \<and> pv_key r = (a, n)"
  unfolding owned_row_for_def by (rule pop_row_key[OF store_invD(1)])

lemma owned_row_for_None: "owned_row_for db a n = None \<longleftrightarrow> \<not> owns db a n"
  by (simp add: owned_row_for_def pop_row_None owns_def)

lemma borrow_owner_iff:
  "store_inv db \<Longrightarrow> borrow_owner db a n = Some w \<longleftrightarrow> (\<exists>b \<in> set (borrows db). bw_key b = (a, n) \<and> bw_owner b = w)"
  unfolding borrow_owner_def map_option_eq_Some using pop_row_key[OF store_invD(2)] by auto

lemma borrow_owner_None: "borrow_owner db a n = None \<longleftrightarrow> \<not> borrows_rec db a n"
  by (auto simp: borrow_owner_def pop_row_None borrows_rec_def)

text \<open>What a name resolves to.\<close>

definition sees :: "provider_db \<Rightarrow> string \<Rightarrow> string \<Rightarrow> resolved \<Rightarrow> bool" where
  "sees db a n x =
     ((\<exists>r \<in> set (providers db). pv_key r = (a, n) \<and> x = \<lparr>rs_row = r, rs_borrower = None\<rparr>) \<or>
      (\<exists>b \<in> set (borrows db). bw_key b = (a, n) \<and>
         (\<exists>r \<in> set (providers db). pv_key r = (bw_owner b, n) \<and> x = \<lparr>rs_row = r, rs_borrower = Some a\<rparr>)))"

lemma resolve_iff:
  assumes i: "store_inv db"
  shows "resolve db a n = Ok x \<longleftrightarrow> sees db a n x"
proof (cases "owned_row_for db a n")
  case (Some r)
  then have r: "r \<in> set (providers db)" "pv_key r = (a, n)" using owned_row_for_iff[OF i] by auto
  then have "\<not> borrows_rec db a n" using owns_not_borrows[OF i] by (auto simp: owns_def)
  then have nb: "\<forall>b \<in> set (borrows db). bw_key b \<noteq> (a, n)" by (auto simp: borrows_rec_def)
  have "r' = r" if "r' \<in> set (providers db)" "pv_key r' = (a, n)" for r'
    using provider_unique[OF i that(1) r(1)] that r by simp
  then have "sees db a n x \<longleftrightarrow> x = \<lparr>rs_row = r, rs_borrower = None\<rparr>"
    using nb r unfolding sees_def by blast
  then show ?thesis using Some by (auto simp: resolve_def)
next
  case None
  then have no: "\<not> owns db a n" by (simp add: owned_row_for_None)
  show ?thesis
  proof (cases "borrow_owner db a n")
    case None
    then have nb: "\<not> borrows_rec db a n" by (simp add: borrow_owner_None)
    show ?thesis using no nb None \<open>owned_row_for db a n = None\<close>
      by (auto simp: resolve_def sees_def borrows_rec_def owns_def)
  next
    case (Some w)
    then obtain b where b: "b \<in> set (borrows db)" "bw_key b = (a, n)" "bw_owner b = w"
      using borrow_owner_iff[OF i] by auto
    then have "owns db w n" using store_invD(3)[OF i, of b] by (simp add: bw_key_def)
    then obtain r where r: "owned_row_for db w n = Some r"
      using owned_row_for_None[of db w n] by (cases "owned_row_for db w n") auto
    then have r': "r \<in> set (providers db)" "pv_key r = (w, n)" using owned_row_for_iff[OF i] by auto
    have "b' = b" if "b' \<in> set (borrows db)" "bw_key b' = (a, n)" for b'
      using borrow_unique[OF i that(1) b(1)] that b by simp
    moreover have "r'' = r" if "r'' \<in> set (providers db)" "pv_key r'' = (w, n)" for r''
      using provider_unique[OF i that(1) r'(1)] that r' by simp
    ultimately have "sees db a n x \<longleftrightarrow> x = \<lparr>rs_row = r, rs_borrower = Some a\<rparr>"
      using no r' b unfolding sees_def owns_def by blast
    then show ?thesis using \<open>owned_row_for db a n = None\<close> Some r by (auto simp: resolve_def)
  qed
qed

lemma resolve_Err_iff:
  assumes i: "store_inv db"
  shows "resolve db a n = Err e \<longleftrightarrow> e = StoreNotFound n \<and> \<not> owns db a n \<and> \<not> borrows_rec db a n"
proof -
  have "owned_row_for db w n \<noteq> None" if "borrow_owner db a n = Some w" for w
    using that store_invD(3)[OF i] unfolding borrow_owner_iff[OF i] owned_row_for_None
    by (auto simp: bw_key_def)
  then show ?thesis
    using owned_row_for_None[of db a n] borrow_owner_None[of db a n]
    by (auto simp: resolve_def split: option.splits)
qed

lemma sees_own: "store_inv db \<Longrightarrow> r \<in> set (providers db) \<Longrightarrow> sees db (pv_owner r) (pv_name r) \<lparr>rs_row = r, rs_borrower = None\<rparr>"
  by (auto simp: sees_def pv_key_def)

lemma resolve_owned:
  assumes "store_inv db" and "resolve db a n = Ok x" and "rs_borrower x = None"
  shows "rs_row x \<in> set (providers db) \<and> pv_key (rs_row x) = (a, n) \<and> owns db a n"
  using assms resolve_iff[OF assms(1)] by (auto simp: sees_def owns_def)

lemma held_names:
  "hp_name ` set (held_providers db a) = {n. owns db a n \<or> borrows_rec db a n}"
proof -
  have "hp_name ` set (held_providers db a) =
      pv_name ` set (filter (\<lambda>r. pv_owner r = a) (providers db)) \<union>
      bw_name ` set (filter (\<lambda>b. bw_borrower b = a) (borrows db))"
    unfolding held_providers_def Let_def dedup_by_keys by (auto simp: image_Un image_image)
  also have "\<dots> = {n. owns db a n \<or> borrows_rec db a n}"
    by (auto simp: owns_def borrows_rec_def pv_key_def bw_key_def image_iff)
  finally show ?thesis .
qed

lemma held_ex:
  "list_ex (\<lambda>p. hp_name p = n) (held_providers db a) \<longleftrightarrow> owns db a n \<or> borrows_rec db a n"
  using held_names[of db a] by (auto simp: list_ex_iff image_iff set_eq_iff) metis+

section \<open>Preservation\<close>

lemma owns_update:
  assumes "\<And>r. pv_key (f r) = pv_key r"
  shows "owns (db\<lparr>providers := update_where c f (providers db)\<rparr>) a n \<longleftrightarrow> owns db a n"
proof -
  have "pv_key ` set (update_where c f (providers db)) = pv_key ` set (providers db)"
    using arg_cong[OF update_where_key[of pv_key f c "providers db"], of set] assms by simp
  then show ?thesis by (auto simp: owns_def image_iff set_eq_iff) metis+
qed

lemma update_provider_inv:
  assumes "store_inv db" and "\<And>r. pv_key (f r) = pv_key r"
    and "update_provider a n f db = Ok db'"
  shows "store_inv db'"
  using assms owns_update[of f, OF assms(2)] update_where_key[of pv_key f, OF assms(2)]
  by (auto simp: update_provider_def store_inv_def split: if_splits)

lemma insert_provider_Ok:
  "insert_provider row db = Ok db' \<longleftrightarrow>
   \<not> owns db (pv_owner row) (pv_name row) \<and> db' = db\<lparr>providers := providers db @ [row]\<rparr>"
  by (auto simp: insert_provider_def list_ex_iff owns_def pv_key_def)

lemma insert_borrow_Ok:
  "insert_borrow row db = Ok db' \<longleftrightarrow>
   \<not> borrows_rec db (bw_borrower row) (bw_name row) \<and> db' = db\<lparr>borrows := borrows db @ [row]\<rparr>"
  by (auto simp: insert_borrow_def list_ex_iff borrows_rec_def bw_key_def)

lemma owns_insert:
  "owns (db\<lparr>providers := providers db @ [row]\<rparr>) a n \<longleftrightarrow> owns db a n \<or> (a, n) = pv_key row"
  by (auto simp: owns_def)

lemma insert_provider_inv:
  assumes i: "store_inv db" and nb: "\<not> borrows_rec db (pv_owner row) (pv_name row)"
    and ins: "insert_provider row db = Ok db'"
  shows "store_inv db'"
proof -
  have no: "\<not> owns db (pv_owner row) (pv_name row)" and db': "db' = db\<lparr>providers := providers db @ [row]\<rparr>"
    using ins insert_provider_Ok by auto
  have "distinct (map pv_key (providers db'))"
    using no store_invD(1)[OF i] by (auto simp: db' owns_def pv_key_def)
  moreover have "\<not> owns db' (bw_borrower b) (bw_name b)" if "b \<in> set (borrows db)" for b
    using store_invD(4)[OF i that] nb that unfolding db' owns_insert
    by (auto simp: borrows_rec_def bw_key_def pv_key_def)
  moreover have "owns db' (bw_owner b) (bw_name b)" if "b \<in> set (borrows db)" for b
    using store_invD(3)[OF i that] unfolding db' owns_insert by simp
  ultimately show ?thesis using store_invD(2)[OF i] by (simp add: store_inv_def db')
qed

lemma insert_borrow_inv:
  assumes i: "store_inv db" and o: "owns db (bw_owner row) (bw_name row)"
    and no: "\<not> owns db (bw_borrower row) (bw_name row)" and ins: "insert_borrow row db = Ok db'"
  shows "store_inv db'"
proof -
  have nb: "\<not> borrows_rec db (bw_borrower row) (bw_name row)" and db': "db' = db\<lparr>borrows := borrows db @ [row]\<rparr>"
    using ins insert_borrow_Ok by auto
  have "distinct (map bw_key (borrows db'))"
    using nb store_invD(2)[OF i] by (auto simp: db' borrows_rec_def bw_key_def)
  then show ?thesis using i o no by (auto simp: store_inv_def db' owns_def)
qed

lemma delete_borrow_inv: "store_inv db \<Longrightarrow> store_inv (db\<lparr>borrows := delete_where c (borrows db)\<rparr>)"
  by (auto simp: store_inv_def owns_def delete_where_distinct set_delete_where)

lemma create_tx_Ok:
  "create_tx now rec cred db = Ok db' \<Longrightarrow>
   \<exists>kind env_var bound. kind_columns (nw_kind rec) = Ok (kind, env_var) \<and>
     validate_name (nw_owner_agent rec) (nw_name rec) = Ok () \<and>
     \<not> owns db (nw_owner_agent rec) (nw_name rec) \<and> \<not> borrows_rec db (nw_owner_agent rec) (nw_name rec) \<and>
     bound_env_vars db (nw_owner_agent rec) = Ok bound \<and> env_var \<notin> set bound \<and>
     insert_provider \<lparr>pv_owner = nw_owner_agent rec, pv_name = nw_name rec, pv_kind = kind,
       pv_env_var = env_var, pv_label = nw_label rec, pv_credential = cred, pv_updated_at = now\<rparr> db = Ok db'"
  unfolding create_tx_def bind_result_Inr held_ex
  by (clarsimp simp: bind_result_Inr split: if_splits)

lemma create_tx_inv:
  assumes i: "store_inv db" and "create_tx now rec cred db = Ok db'"
  shows "store_inv db'"
  using create_tx_Ok[OF assms(2)] insert_provider_inv[OF i] by force

text \<open>Re-homing a record: the database afterwards.\<close>

definition rehomed :: "string \<Rightarrow> string \<Rightarrow> string \<Rightarrow> provider_db \<Rightarrow> provider_db" where
  "rehomed agent name w db = db\<lparr>
     providers := update_where (\<lambda>r. pv_key r = (agent, name)) (\<lambda>r. r\<lparr>pv_owner := w\<rparr>) (providers db),
     borrows := update_where (\<lambda>b. bw_owner b = agent \<and> bw_name b = name) (\<lambda>b. b\<lparr>bw_owner := w\<rparr>)
       (delete_where (\<lambda>b. bw_key b = (w, name)) (borrows db))\<rparr>"

definition rehomes :: "provider_db \<Rightarrow> string \<Rightarrow> string \<Rightarrow> string \<Rightarrow> bool" where
  "rehomes db agent name w = (store_inv db \<and> owns db agent name \<and>
     (\<exists>b \<in> set (borrows db). bw_key b = (w, name) \<and> bw_owner b = agent))"

lemma remove_tx_cases:
  assumes "remove_tx agent name db = Ok db'"
  shows "(borrowers_of db agent name = [] \<and>
      db' = db\<lparr>providers := delete_where (\<lambda>r. pv_key r = (agent, name)) (providers db)\<rparr>) \<or>
    (\<exists>w ws. borrowers_of db agent name = w # ws \<and> \<not> owns db w name \<and>
      db' = rehomed agent name w db)"
  using assms unfolding remove_tx_def rehomed_def
  by (auto simp: list_ex_iff owns_def split: list.splits if_splits)

lemma borrowers_of_set:
  "set (borrowers_of db a n) = {w. \<exists>b \<in> set (borrows db). bw_key b = (w, n) \<and> bw_owner b = a}"
  by (auto simp: borrowers_of_def bw_key_def image_iff)

lemma rehome_owns:
  "rehomes db agent name w \<Longrightarrow> owns (rehomed agent name w db) a n \<longleftrightarrow>
    (if n = name then a = w \<or> (owns db a n \<and> a \<noteq> agent) else owns db a n)"
  unfolding rehomes_def owns_def rehomed_def
  by (simp add: ex_update_where) (auto simp: pv_key_def)

lemma rehome_new_owner:
  assumes "rehomes db agent name w"
  shows "\<not> owns db w name" "w \<noteq> agent"
proof -
  obtain b where b: "b \<in> set (borrows db)" "bw_key b = (w, name)" using assms by (auto simp: rehomes_def)
  show n: "\<not> owns db w name" using store_invD(4)[of db b] b assms by (simp add: rehomes_def bw_key_def)
  show "w \<noteq> agent" using n assms by (auto simp: rehomes_def)
qed

lemma rehome_borrow:
  "b' \<in> set (borrows (rehomed agent name w db)) \<longleftrightarrow> (\<exists>b \<in> set (borrows db). bw_key b \<noteq> (w, name) \<and>
     b' = (if bw_owner b = agent \<and> bw_name b = name then b\<lparr>bw_owner := w\<rparr> else b))"
  by (auto simp: rehomed_def set_update_where set_delete_where)

lemma rehome_borrows_rec:
  "borrows_rec (rehomed agent name w db) a n \<longleftrightarrow> borrows_rec db a n \<and> (a, n) \<noteq> (w, name)"
proof -
  have "bw_key (if c then b\<lparr>bw_owner := w\<rparr> else b) = bw_key b" for c b
    by (simp add: bw_key_def)
  then show ?thesis
    unfolding borrows_rec_def rehomed_def by (simp add: ex_update_where) (auto simp: set_delete_where)
qed

lemma rehome_inv:
  assumes re: "rehomes db agent name w"
  shows "store_inv (rehomed agent name w db)"
proof -
  let ?db' = "rehomed agent name w db"
  have inv: "store_inv db" using re by (simp add: rehomes_def)
  let ?f = "\<lambda>r. if pv_key r = (agent, name) then r\<lparr>pv_owner := w\<rparr> else r"
  have inj: "inj_on pv_key (set (providers db))" "distinct (providers db)"
    using store_invD(1)[OF inv] by (auto simp: distinct_map)
  have "inj_on (pv_key \<circ> ?f) (set (providers db))"
  proof (rule inj_onI)
    fix x y assume x: "x \<in> set (providers db)" and y: "y \<in> set (providers db)"
      and e: "(pv_key \<circ> ?f) x = (pv_key \<circ> ?f) y"
    have nw: "pv_key z \<noteq> (w, name)" if "z \<in> set (providers db)" for z
      using rehome_new_owner(1)[OF re] that by (auto simp: owns_def)
    show "x = y"
    proof (cases "pv_key x = (agent, name)")
      case True
      then show ?thesis using e nw[OF y] provider_unique[OF inv x y]
        by (cases "pv_key y = (agent, name)") (auto simp: pv_key_def)
    next
      case False
      then show ?thesis using e nw[OF x] provider_unique[OF inv x y]
        by (cases "pv_key y = (agent, name)") (auto simp: pv_key_def)
    qed
  qed
  then have d1: "distinct (map pv_key (providers ?db'))"
    using inj(2) by (simp add: rehomed_def update_where_def distinct_map comp_inj_on_iff)
  have "distinct (map bw_key (delete_where (\<lambda>b. bw_key b = (w, name)) (borrows db)))"
    by (rule delete_where_distinct[OF store_invD(2)[OF inv]])
  then have d2: "distinct (map bw_key (borrows ?db'))"
    by (simp add: rehomed_def update_where_key bw_key_def)
  have o: "owns ?db' (bw_owner b') (bw_name b')" and no: "\<not> owns ?db' (bw_borrower b') (bw_name b')"
    if b': "b' \<in> set (borrows ?db')" for b'
  proof -
    obtain b where b: "b \<in> set (borrows db)" "bw_key b \<noteq> (w, name)"
      "b' = (if bw_owner b = agent \<and> bw_name b = name then b\<lparr>bw_owner := w\<rparr> else b)"
      using b' rehome_borrow by blast
    note s = store_invD(3,4)[OF inv b(1)]
    show "owns ?db' (bw_owner b') (bw_name b')" using b s unfolding rehome_owns[OF re] by auto
    show "\<not> owns ?db' (bw_borrower b') (bw_name b')" using b s unfolding rehome_owns[OF re]
      by (auto simp: bw_key_def)
  qed
  show ?thesis using d1 d2 o no by (simp add: store_inv_def)
qed

section \<open>The operations as steps\<close>

datatype provider_op =
    PCreate int new_provider string
  | PRotate int string string string
  | PUpdateGeneric int string string generic_spec
  | PRemove string string
  | PShare int string string string
  | PUnshare string string

fun provider_step :: "provider_op \<Rightarrow> provider_db \<Rightarrow> provider_db" where
  "provider_step (PCreate now rec cred) db = snd (create now rec cred db)"
| "provider_step (PRotate now a n cred) db = snd (rotate now a n cred db)"
| "provider_step (PUpdateGeneric now a n spec) db = snd (update_generic now a n spec db)"
| "provider_step (PRemove a n) db = snd (remove a n db)"
| "provider_step (PShare now a n dest) db = snd (share now a n dest db)"
| "provider_step (PUnshare a n) db = snd (unshare a n db)"

lemma commit_or_rollback_simps [simp]:
  "snd (commit_or_rollback db (Ok db')) = db'" "snd (commit_or_rollback db (Err e)) = db"
  "fst (commit_or_rollback db (Ok db')) = Ok ()" "fst (commit_or_rollback db (Err e)) = Err e"
  by (simp_all add: commit_or_rollback_def)

lemma commit_inv:
  assumes "store_inv db" and "\<And>db'. r = Ok db' \<Longrightarrow> store_inv db'"
  shows "store_inv (snd (commit_or_rollback db r))"
  using assms by (cases r) simp_all

lemma snd_case_commit:
  "snd (case commit_or_rollback db r of (Err e, db') \<Rightarrow> (Err e, db') | (Ok u, db') \<Rightarrow> (g db', db')) =
   snd (commit_or_rollback db r)"
  by (cases r) (simp_all add: commit_or_rollback_def)

lemma create_inv: "store_inv db \<Longrightarrow> store_inv (snd (create now rec cred db))"
  unfolding create_def snd_case_commit by (rule commit_inv) (auto intro: create_tx_inv)

lemma rotate_inv: "store_inv db \<Longrightarrow> store_inv (snd (rotate now a n cred db))"
  unfolding rotate_def
  by (rule commit_inv) (auto simp: bind_result_Inr pv_key_def elim!: update_provider_inv[rotated 2])

lemma update_generic_inv: "store_inv db \<Longrightarrow> store_inv (snd (update_generic now a n spec db))"
  unfolding update_generic_def
  by (rule commit_inv)
     (auto simp: bind_result_Inr pv_key_def split: option.splits if_splits elim!: update_provider_inv[rotated 2])

lemma remove_tx_inv:
  assumes i: "store_inv db" and o: "owns db a n" and r: "remove_tx a n db = Ok db'"
  shows "store_inv db'"
  using remove_tx_cases[OF r]
proof
  assume h: "borrowers_of db a n = [] \<and>
      db' = db\<lparr>providers := delete_where (\<lambda>r. pv_key r = (a, n)) (providers db)\<rparr>"
  then have nb: "bw_owner b \<noteq> a \<or> bw_name b \<noteq> n" if "b \<in> set (borrows db)" for b
    using that borrowers_of_set[of db a n] by (auto simp: bw_key_def)
  have o': "owns db' x y \<longleftrightarrow> owns db x y \<and> (x, y) \<noteq> (a, n)" for x y
    using h by (auto simp: owns_def set_delete_where)
  show ?thesis using i h nb unfolding store_inv_def o'
    by (auto simp: delete_where_distinct)
next
  assume "\<exists>w ws. borrowers_of db a n = w # ws \<and> \<not> owns db w n \<and> db' = rehomed a n w db"
  then obtain w ws where w: "borrowers_of db a n = w # ws" "db' = rehomed a n w db" by blast
  then have "rehomes db a n w" using i o borrowers_of_set[of db a n] by (auto simp: rehomes_def)
  then show ?thesis using rehome_inv w by simp
qed

lemma remove_Ok:
  assumes "store_inv db" and "remove a n db = (Ok (), db')"
  shows "remove_tx a n db = Ok db' \<and> owns db a n"
  using assms resolve_owned[OF assms(1)]
  by (auto simp: remove_def commit_or_rollback_def bind_result_Inr reject_if_borrowed_def split: sum.splits)

lemma remove_inv: "store_inv db \<Longrightarrow> store_inv (snd (remove a n db))"
  unfolding remove_def
  by (rule commit_inv)
     (auto simp: bind_result_Inr reject_if_borrowed_def intro: remove_tx_inv dest: resolve_owned)

lemma share_tx_Ok:
  assumes i: "store_inv db"
    and t: "bind_result (validate_name dest n) (\<lambda>_.
         bind_result (resolve db a n) (\<lambda>r.
         bind_result (plan_share (pv_owner (rs_row r)) dest n (held_providers db dest)) (\<lambda>_.
           insert_borrow \<lparr>bw_borrower = dest, bw_name = n, bw_owner = pv_owner (rs_row r),
             bw_created_at = now\<rparr> db))) = Ok db'"
  shows "\<exists>x. sees db a n x \<and> pv_owner (rs_row x) \<noteq> dest \<and> \<not> owns db dest n \<and> \<not> borrows_rec db dest n \<and>
    rs_row x \<in> set (providers db) \<and> pv_name (rs_row x) = n \<and>
    db' = db\<lparr>borrows := borrows db @ [\<lparr>bw_borrower = dest, bw_name = n,
      bw_owner = pv_owner (rs_row x), bw_created_at = now\<rparr>]\<rparr>"
proof -
  from t obtain x where x: "resolve db a n = Ok x" "pv_owner (rs_row x) \<noteq> dest"
    "\<not> list_ex (\<lambda>p. hp_name p = n) (held_providers db dest)"
    "insert_borrow \<lparr>bw_borrower = dest, bw_name = n, bw_owner = pv_owner (rs_row x), bw_created_at = now\<rparr> db = Ok db'"
    by (auto simp: bind_result_Inr plan_share_def split: if_splits)
  have "sees db a n x" using x(1) resolve_iff[OF i] by simp
  moreover from this have "rs_row x \<in> set (providers db) \<and> pv_name (rs_row x) = n"
    by (auto simp: sees_def pv_key_def)
  ultimately show ?thesis using x(2-4) by (auto simp: held_ex insert_borrow_Ok)
qed

lemma share_inv: "store_inv db \<Longrightarrow> store_inv (snd (share now a n dest db))"
  unfolding share_def snd_case_commit
proof (rule commit_inv, assumption)
  fix db' assume i: "store_inv db" and t: "bind_result (validate_name dest n) (\<lambda>_.
         bind_result (resolve db a n) (\<lambda>r.
         bind_result (plan_share (pv_owner (rs_row r)) dest n (held_providers db dest)) (\<lambda>_.
           insert_borrow \<lparr>bw_borrower = dest, bw_name = n, bw_owner = pv_owner (rs_row r),
             bw_created_at = now\<rparr> db))) = Ok db'"
  from share_tx_Ok[OF this] obtain x :: resolved where x: "rs_row x \<in> set (providers db)" "pv_name (rs_row x) = n"
    "\<not> owns db dest n" "\<not> borrows_rec db dest n"
    "db' = db\<lparr>borrows := borrows db @ [\<lparr>bw_borrower = dest, bw_name = n,
      bw_owner = pv_owner (rs_row x), bw_created_at = now\<rparr>]\<rparr>"
    by (elim exE conjE) (rule that; assumption)
  have "owns db (pv_owner (rs_row x)) n" using x by (auto simp: owns_def pv_key_def)
  then show "store_inv db'"
    using insert_borrow_inv[OF i, of "\<lparr>bw_borrower = dest, bw_name = n,
      bw_owner = pv_owner (rs_row x), bw_created_at = now\<rparr>" db'] x by (simp add: insert_borrow_Ok)
qed

lemma unshare_inv: "store_inv db \<Longrightarrow> store_inv (snd (unshare a n db))"
  unfolding unshare_def
  by (rule commit_inv) (auto simp: bind_result_Inr split: if_splits intro: delete_borrow_inv)

lemma provider_step_inv [inv_intros]: "store_inv db \<Longrightarrow> store_inv (provider_step op db)"
  by (cases op) (simp_all add: create_inv rotate_inv update_generic_inv remove_inv share_inv unshare_inv)

section \<open>What the survivors of a removal see\<close>

text \<open>What a holder that saw \<open>x\<close> sees once the record of \<open>(a, n)\<close> went to \<open>w\<close>.\<close>

definition moved_view :: "string \<Rightarrow> string \<Rightarrow> string \<Rightarrow> string \<Rightarrow> resolved \<Rightarrow> resolved" where
  "moved_view a n w b x =
     (if pv_key (rs_row x) = (a, n)
      then \<lparr>rs_row = (rs_row x)\<lparr>pv_owner := w\<rparr>, rs_borrower = (if b = w then None else rs_borrower x)\<rparr> else x)"

lemma rehome_row:
  "r \<in> set (providers db) \<Longrightarrow>
   (if pv_key r = (a, n) then r\<lparr>pv_owner := w\<rparr> else r) \<in> set (providers (rehomed a n w db))"
  by (auto simp: rehomed_def set_update_where)

lemma rehome_sees:
  assumes re: "rehomes db a n w" and s: "sees db b m x" and nb: "(b, m) \<noteq> (a, n)"
  shows "sees (rehomed a n w db) b m (moved_view a n w b x)"
proof -
  have inv: "store_inv db" using re by (simp add: rehomes_def)
  let ?db' = "rehomed a n w db"
  consider (own) r where "r \<in> set (providers db)" "pv_key r = (b, m)" "x = \<lparr>rs_row = r, rs_borrower = None\<rparr>"
    | (bor) d r where "d \<in> set (borrows db)" "bw_key d = (b, m)" "r \<in> set (providers db)"
        "pv_key r = (bw_owner d, m)" "x = \<lparr>rs_row = r, rs_borrower = Some b\<rparr>"
    using s by (auto simp: sees_def)
  then show ?thesis
  proof cases
    case own
    then have "r \<in> set (providers ?db')" using rehome_row[of r db a n w] nb by (auto split: if_splits)
    then show ?thesis using own nb by (auto simp: sees_def moved_view_def)
  next
    case bor
    let ?r = "if pv_key r = (a, n) then r\<lparr>pv_owner := w\<rparr> else r"
    let ?d = "if bw_owner d = a \<and> bw_name d = n then d\<lparr>bw_owner := w\<rparr> else d"
    have r': "?r \<in> set (providers ?db')" by (rule rehome_row[OF bor(3)])
    show ?thesis
    proof (cases "(b, m) = (w, n)")
      case True
      obtain d' where d': "d' \<in> set (borrows db)" "bw_key d' = (w, n)" "bw_owner d' = a"
        using re by (auto simp: rehomes_def)
      have "d' = d" using borrow_unique[OF inv d'(1) bor(1)] d' bor(2) True by simp
      then have k: "pv_key r = (a, n)" "pv_key ?r = (b, m)" using bor(4) d' True by (simp_all add: pv_key_def)
      then have "sees ?db' b m \<lparr>rs_row = ?r, rs_borrower = None\<rparr>" using r' by (auto simp: sees_def)
      then show ?thesis using k(1) bor(5) True by (simp add: moved_view_def)
    next
      case False
      have "?d \<in> set (borrows ?db')" unfolding rehome_borrow
        by (rule bexI[OF _ bor(1)]) (use bor(2) False in simp)
      moreover have "bw_key ?d = (b, m)" using bor(2) by (simp add: bw_key_def)
      moreover have "pv_key ?r = (bw_owner ?d, m)" using bor(2,4) by (auto simp: pv_key_def bw_key_def)
      ultimately have "sees ?db' b m \<lparr>rs_row = ?r, rs_borrower = Some b\<rparr>"
        unfolding sees_def using r' by blast
      then show ?thesis using bor(4,5) False by (auto simp: moved_view_def pv_key_def)
    qed
  qed
qed

lemma delete_sees:
  assumes "borrowers_of db a n = []" and "sees db b m x" and "(b, m) \<noteq> (a, n)"
  shows "sees (db\<lparr>providers := delete_where (\<lambda>r. pv_key r = (a, n)) (providers db)\<rparr>) b m x"
proof -
  have "bw_owner d \<noteq> a" if "d \<in> set (borrows db)" "bw_key d = (b', n)" for d b'
    using borrowers_of_set[of db a n] assms(1) that by auto
  then show ?thesis using assms(2,3) by (fastforce simp: sees_def set_delete_where)
qed

section \<open>Creation, sharing and the destroy plan\<close>

lemma held_owned_distinct:
  assumes i: "store_inv db"
  shows "distinct (map pv_name (filter (\<lambda>r. pv_owner r = a) (providers db)))"
  using distinct_map_filter[OF store_invD(1)[OF i], of "\<lambda>r. pv_owner r = a"]
  by (auto simp: distinct_map pv_key_def inj_on_def)

lemma held_borrowed_distinct:
  assumes i: "store_inv db"
  shows "distinct (map bw_name (filter (\<lambda>b. bw_borrower b = a) (borrows db)))"
  using distinct_map_filter[OF store_invD(2)[OF i], of "\<lambda>b. bw_borrower b = a"]
  by (auto simp: distinct_map bw_key_def inj_on_def)

lemma held_set:
  assumes i: "store_inv db"
  shows "set (held_providers db a) =
    {\<lparr>hp_name = pv_name r, hp_owner_agent = a\<rparr> |r. r \<in> set (providers db) \<and> pv_owner r = a} \<union>
    {\<lparr>hp_name = bw_name b, hp_owner_agent = bw_owner b\<rparr> |b. b \<in> set (borrows db) \<and> bw_borrower b = a}"
proof -
  let ?o = "map (\<lambda>r. \<lparr>hp_name = pv_name r, hp_owner_agent = pv_owner r\<rparr>)
      (filter (\<lambda>r. pv_owner r = a) (providers db))"
  let ?b = "map (\<lambda>b. \<lparr>hp_name = bw_name b, hp_owner_agent = bw_owner b\<rparr>)
      (filter (\<lambda>b. bw_borrower b = a) (borrows db))"
  have "pv_name r \<noteq> bw_name b" if "r \<in> set (providers db)" "pv_owner r = a" "b \<in> set (borrows db)" "bw_borrower b = a" for r b
    using store_invD(4)[OF i that(3)] that by (auto simp: owns_def pv_key_def)
  then have "distinct (map hp_name (?o @ ?b))"
    using held_owned_distinct[OF i, of a] held_borrowed_distinct[OF i, of a] by (auto simp: comp_def)
  then have "distinct (map hp_name (sort_key hp_name (?o @ ?b)))"
    by (rule distinct_map_sort_key)
  then have "held_providers db a = sort_key hp_name (?o @ ?b)"
    unfolding held_providers_def Let_def by (rule dedup_by_distinct)
  then show ?thesis by auto
qed

lemma sees_held:
  assumes i: "store_inv db" and s: "sees db a n x"
  shows "\<lparr>hp_name = n, hp_owner_agent = pv_owner (rs_row x)\<rparr> \<in> set (held_providers db a) \<and>
    owned_row_for db (pv_owner (rs_row x)) n = Some (rs_row x)"
proof -
  have r: "rs_row x \<in> set (providers db)" "pv_name (rs_row x) = n"
    using s by (auto simp: sees_def pv_key_def)
  have "\<lparr>hp_name = n, hp_owner_agent = pv_owner (rs_row x)\<rparr> \<in> set (held_providers db a)"
    using s unfolding held_set[OF i] sees_def by (auto simp: pv_key_def bw_key_def)
  then show ?thesis using r by (simp add: owned_row_for_iff[OF i] pv_key_def)
qed

lemma bound_loop_covers:
  "bound_loop db hs = Ok es \<Longrightarrow> h \<in> set hs \<Longrightarrow>
   \<exists>row. owned_row_for db (hp_owner_agent h) (hp_name h) = Some row \<and> pr_env_var (into_record row None) \<in> set es"
  by (induction hs arbitrary: es) (auto simp: bind_result_Inr split: option.splits)

lemma kind_columns_env: "kind_columns kind = Ok (k, e) \<Longrightarrow> kind_env_var k = Ok e"
  by (auto simp: kind_columns_def bind_result_Inr split: provider_kind.splits if_splits)

lemma cascade_loop_plan:
  defines "oth \<equiv> \<lambda>deleting agents n. other_holders deleting agents n"
  shows "cascade_loop deleting agents complete es plan =
    \<lparr>dp_detach = dp_detach plan @ map hp_name es,
     dp_delete = dp_delete plan @ (if complete then filter (\<lambda>n. oth deleting agents n = []) (map hp_name es) else []),
     dp_rehome = (\<lambda>n. if complete \<and> (\<exists>e \<in> set es. hp_name e = n \<and> owned_by e deleting) \<and> oth deleting agents n \<noteq> []
        then Some (hd (oth deleting agents n)) else dp_rehome plan n)\<rparr>"
  unfolding oth_def
proof (induction es arbitrary: plan)
  case (Cons e es)
  show ?case
  proof (cases "complete")
    case False
    then show ?thesis using Cons.IH by (simp add: Let_def)
  next
    case True
    show ?thesis
    proof (cases "other_holders deleting agents (hp_name e)")
      case Nil
      then show ?thesis using Cons.IH True by (auto simp: Let_def fun_eq_iff)
    next
      case (Cons w ws)
      then show ?thesis using Cons.IH[of "plan\<lparr>dp_detach := dp_detach plan @ [hp_name e]\<rparr>"]
          Cons.IH[of "plan\<lparr>dp_detach := dp_detach plan @ [hp_name e], dp_rehome := (dp_rehome plan)(hp_name e \<mapsto> w)\<rparr>"] True
        by (auto simp: Let_def fun_eq_iff)
    qed
  qed
qed (simp add: fun_eq_iff)

section \<open>Properties\<close>

text \<open>C4: Whatever requests are executed, every borrow points at an existing record, no agent
  both owns and borrows the same name, and keys are unique: a name an agent holds resolves
  to exactly one credential.\<close>

theorem provider_store_invariant:
  assumes "store_inv db"
  shows "store_inv (fold provider_step ops db)"
  using assms by (induction ops arbitrary: db) (simp_all add: provider_step_inv)

definition gh_spec :: new_provider where
  "gh_spec = \<lparr>nw_owner_agent = ''a'', nw_name = ''gh-1'', nw_kind = Builtin ''right-github'', nw_label = []\<rparr>"

definition empty_db :: provider_db where
  "empty_db = \<lparr>providers = [], borrows = []\<rparr>"

lemma empty_db_inv: "store_inv empty_db"
  by (simp add: store_inv_def empty_db_def)

theorem provider_store_invariant_witness:
  "store_inv (fold provider_step [PCreate 1 gh_spec ''tok'', PShare 2 ''a'' ''gh-1'' ''b'', PRemove ''a'' ''gh-1''] empty_db)"
  by (rule provider_store_invariant[OF empty_db_inv])

text \<open>The agents that borrow a record, in no order.\<close>

definition borrowers_set :: "provider_db \<Rightarrow> string \<Rightarrow> string \<Rightarrow> string set" where
  "borrowers_set db a n = {w. \<exists>d \<in> set (borrows db). bw_borrower d = w \<and> bw_name d = n \<and> bw_owner d = a}"

lemma first_borrower: "borrowers_of db a n = w # ws \<Longrightarrow> w = Min (borrowers_set db a n)"
proof -
  assume w: "borrowers_of db a n = w # ws"
  have s: "borrowers_set db a n = set (borrowers_of db a n)" by (auto simp: borrowers_set_def borrowers_of_set bw_key_def)
  have "sorted (borrowers_of db a n)" by (simp add: borrowers_of_def)
  then show ?thesis using w unfolding s by (intro Min_eqI[symmetric]) auto
qed

text \<open>C5: Removing an owned record re-homes it to the first of its borrowers by name.  Only the removing agent
  loses the name.  An agent that saw another record sees it unchanged; an agent that saw the removed record
  through a borrow sees the same definition and credential with the first borrower as its owner, and the
  first borrower holds it as its own, no longer borrowed.\<close>

theorem remove_keeps_borrowers:
  assumes "store_inv db" and "remove a n db = (Ok (), db')"
  shows "resolve db' a n = Err (StoreNotFound n) \<and>
    (resolve db b m = Ok x \<and> (b, m) \<noteq> (a, n) \<longrightarrow>
       (if pv_key (rs_row x) \<noteq> (a, n) then resolve db' b m = Ok x
        else resolve db' b m = Ok \<lparr>rs_row = (rs_row x)\<lparr>pv_owner := Min (borrowers_set db a n)\<rparr>,
                                 rs_borrower = (if b = Min (borrowers_set db a n) then None else rs_borrower x)\<rparr>))"
proof -
  have r: "remove_tx a n db = Ok db'" "owns db a n" using remove_Ok[OF assms] by auto
  have i: "store_inv db'" using remove_inv[OF assms(1), of a n] assms(2) by simp
  have nb: "\<not> borrows_rec db a n" by (rule owns_not_borrows[OF assms(1) r(2)])
  from remove_tx_cases[OF r(1)] show ?thesis
  proof
    assume d: "borrowers_of db a n = [] \<and>
      db' = db\<lparr>providers := delete_where (\<lambda>r. pv_key r = (a, n)) (providers db)\<rparr>"
    then have "\<not> owns db' a n" "\<not> borrows_rec db' a n"
      using nb by (auto simp: owns_def borrows_rec_def set_delete_where)
    then have gone: "resolve db' a n = Err (StoreNotFound n)" using resolve_Err_iff[OF i] by simp
    have keep: "resolve db' b m = Ok x \<and> pv_key (rs_row x) \<noteq> (a, n)" if x: "resolve db b m = Ok x" "(b, m) \<noteq> (a, n)"
    proof -
      have s: "sees db' b m x" using delete_sees[of db a n b m x] d x resolve_iff[OF assms(1)] by auto
      then have "pv_key (rs_row x) \<noteq> (a, n)" using d by (auto simp: sees_def set_delete_where)
      then show ?thesis using s resolve_iff[OF i] by simp
    qed
    show ?thesis using gone keep by simp
  next
    assume "\<exists>w ws. borrowers_of db a n = w # ws \<and> \<not> owns db w n \<and> db' = rehomed a n w db"
    then obtain w ws where w: "borrowers_of db a n = w # ws" "db' = rehomed a n w db" by blast
    have re: "rehomes db a n w"
      using assms(1) r(2) w(1) borrowers_of_set[of db a n] by (auto simp: rehomes_def)
    have "\<not> owns db' a n" using rehome_owns[OF re, of a n] rehome_new_owner(2)[OF re] w(2) by auto
    moreover have "\<not> borrows_rec db' a n"
      using nb unfolding w(2) rehome_borrows_rec by simp
    ultimately have gone: "resolve db' a n = Err (StoreNotFound n)" using resolve_Err_iff[OF i] by simp
    have "resolve db' b m = Ok (moved_view a n w b x)" if x: "resolve db b m = Ok x" "(b, m) \<noteq> (a, n)"
      using rehome_sees[OF re _ x(2), of x] x(1) resolve_iff[OF assms(1)] resolve_iff[OF i] w(2) by simp
    then show ?thesis using gone by (simp add: moved_view_def first_borrower[OF w(1)])
  qed
qed

definition gh_row :: provider_row where
  "gh_row = \<lparr>pv_owner = ''a'', pv_name = ''gh-1'', pv_kind = Builtin ''right-github'',
     pv_env_var = ''GITHUB_TOKEN'', pv_label = [], pv_credential = ''tok'', pv_updated_at = 1\<rparr>"

definition shared_db :: provider_db where
  "shared_db = \<lparr>providers = [gh_row],
     borrows = [\<lparr>bw_borrower = ''b'', bw_name = ''gh-1'', bw_owner = ''a'', bw_created_at = 2\<rparr>]\<rparr>"

lemma shared_db_inv: "store_inv shared_db"
  by (simp add: store_inv_def shared_db_def gh_row_def owns_def pv_key_def bw_key_def)

lemmas provider_eval = shared_db_def gh_row_def owns_def pv_key_def bw_key_def remove_def
  commit_or_rollback_def resolve_def owned_row_for_def borrow_owner_def pop_row_def
  reject_if_borrowed_def remove_tx_def borrowers_of_def count_where_def ensure_def

theorem remove_keeps_borrowers_witness:
  "\<exists>db'. remove ''a'' ''gh-1'' shared_db = (Ok (), db') \<and>
     resolve db' ''b'' ''gh-1'' = Ok \<lparr>rs_row = gh_row\<lparr>pv_owner := ''b''\<rparr>, rs_borrower = None\<rparr>"
proof -
  let ?r = "remove ''a'' ''gh-1'' shared_db"
  have "fst ?r = Ok ()" by (simp add: provider_eval)
  then have r: "?r = (Ok (), snd ?r)" by (metis prod.collapse)
  have x: "resolve shared_db ''b'' ''gh-1'' = Ok \<lparr>rs_row = gh_row, rs_borrower = Some ''b''\<rparr>"
    by (simp add: provider_eval)
  have "borrowers_set shared_db ''a'' ''gh-1'' = {''b''}" by (simp add: borrowers_set_def shared_db_def)
  moreover have "pv_key gh_row = (''a'', ''gh-1'')" by (simp add: gh_row_def pv_key_def)
  ultimately have "resolve (snd ?r) ''b'' ''gh-1'' = Ok \<lparr>rs_row = gh_row\<lparr>pv_owner := ''b''\<rparr>, rs_borrower = None\<rparr>"
    using remove_keeps_borrowers[OF shared_db_inv r, of "''b''" "''gh-1''"] x by simp
  then show ?thesis using r by blast
qed

text \<open>A borrower can change nothing of the record it borrows: rotation, endpoint update and
  removal fail with the read-only error and leave the database as it is.\<close>

theorem borrowed_is_read_only:
  assumes "resolve db a n = Ok x" and "rs_borrower x = Some a"
  shows "rotate now a n cred db = (Err (BorrowedReadOnly (pv_name (rs_row x)) (pv_owner (rs_row x))), db) \<and>
    update_generic now a n spec db = (Err (BorrowedReadOnly (pv_name (rs_row x)) (pv_owner (rs_row x))), db) \<and>
    remove a n db = (Err (BorrowedReadOnly (pv_name (rs_row x)) (pv_owner (rs_row x))), db)"
  using assms
  by (simp add: rotate_def update_generic_def remove_def reject_if_borrowed_def ensure_def commit_or_rollback_def)

theorem borrowed_is_read_only_witness:
  "rotate 9 ''b'' ''gh-1'' ''x'' shared_db = (Err (BorrowedReadOnly ''gh-1'' ''a''), shared_db)"
  using borrowed_is_read_only[of shared_db "''b''" "''gh-1''" "\<lparr>rs_row = gh_row, rs_borrower = Some ''b''\<rparr>" 9 "''x''"]
  by (simp add: resolve_def owned_row_for_def borrow_owner_def pop_row_def shared_db_def gh_row_def pv_key_def bw_key_def)

text \<open>A rotation by the owner reaches every agent that resolves the name to its record, and
  nobody else's record changes.\<close>

theorem rotate_reaches_borrowers:
  assumes i: "store_inv db" and r: "rotate now a n cred db = (Ok (), db')" and s: "resolve db b m = Ok x"
  shows "resolve db' b m = Ok (if pv_key (rs_row x) = (a, n)
    then x\<lparr>rs_row := (rs_row x)\<lparr>pv_credential := cred, pv_updated_at := now\<rparr>\<rparr> else x)"
proof -
  let ?f = "\<lambda>r. r\<lparr>pv_credential := cred, pv_updated_at := now\<rparr>"
  have k: "pv_key (?f r) = pv_key r" for r by (simp add: pv_key_def)
  have db': "db' = db\<lparr>providers := update_where (\<lambda>r. pv_key r = (a, n)) ?f (providers db)\<rparr>"
    using r by (auto simp: rotate_def commit_or_rollback_def bind_result_Inr update_provider_def
        split: sum.splits if_splits)
  have i': "store_inv db'" using rotate_inv[OF i, of now a n cred] r by simp
  have row: "(if pv_key q = (a, n) then ?f q else q) \<in> set (providers db')" if "q \<in> set (providers db)" for q
    using that by (auto simp: db' set_update_where)
  have "sees db b m x" using s resolve_iff[OF i] by simp
  then have "sees db' b m (x\<lparr>rs_row := (if pv_key (rs_row x) = (a, n) then ?f (rs_row x) else rs_row x)\<rparr>)"
  proof (unfold sees_def, elim disjE bexE conjE)
    fix q assume "q \<in> set (providers db)" "pv_key q = (b, m)" "x = \<lparr>rs_row = q, rs_borrower = None\<rparr>"
    then show "(\<exists>r \<in> set (providers db'). pv_key r = (b, m) \<and>
          x\<lparr>rs_row := if pv_key (rs_row x) = (a, n) then ?f (rs_row x) else rs_row x\<rparr> = \<lparr>rs_row = r, rs_borrower = None\<rparr>) \<or>
        (\<exists>b' \<in> set (borrows db'). bw_key b' = (b, m) \<and> (\<exists>r \<in> set (providers db'). pv_key r = (bw_owner b', m) \<and>
          x\<lparr>rs_row := if pv_key (rs_row x) = (a, n) then ?f (rs_row x) else rs_row x\<rparr> = \<lparr>rs_row = r, rs_borrower = Some b\<rparr>))"
      using row[of q] k[of q] by (intro disjI1) (auto intro: bexI[rotated])
  next
    fix d q assume d: "d \<in> set (borrows db)" "bw_key d = (b, m)" and
      q: "q \<in> set (providers db)" "pv_key q = (bw_owner d, m)" "x = \<lparr>rs_row = q, rs_borrower = Some b\<rparr>"
    have "d \<in> set (borrows db')" using d by (simp add: db')
    then show "(\<exists>r \<in> set (providers db'). pv_key r = (b, m) \<and>
          x\<lparr>rs_row := if pv_key (rs_row x) = (a, n) then ?f (rs_row x) else rs_row x\<rparr> = \<lparr>rs_row = r, rs_borrower = None\<rparr>) \<or>
        (\<exists>b' \<in> set (borrows db'). bw_key b' = (b, m) \<and> (\<exists>r \<in> set (providers db'). pv_key r = (bw_owner b', m) \<and>
          x\<lparr>rs_row := if pv_key (rs_row x) = (a, n) then ?f (rs_row x) else rs_row x\<rparr> = \<lparr>rs_row = r, rs_borrower = Some b\<rparr>))"
      using row[OF q(1)] k[of q] d(2) q by (intro disjI2 bexI[of _ d]) (auto intro: bexI[rotated])
  qed
  then show ?thesis using resolve_iff[OF i'] by (cases "pv_key (rs_row x) = (a, n)") auto
qed

theorem rotate_reaches_borrowers_witness:
  "resolve (snd (rotate 7 ''a'' ''gh-1'' ''new'' shared_db)) ''b'' ''gh-1'' =
     Ok \<lparr>rs_row = gh_row\<lparr>pv_credential := ''new'', pv_updated_at := 7\<rparr>, rs_borrower = Some ''b''\<rparr>"
proof -
  have r: "rotate 7 ''a'' ''gh-1'' ''new'' shared_db = (Ok (), snd (rotate 7 ''a'' ''gh-1'' ''new'' shared_db))"
    by code_simp
  have s: "resolve shared_db ''b'' ''gh-1'' = Ok \<lparr>rs_row = gh_row, rs_borrower = Some ''b''\<rparr>"
    by code_simp
  show ?thesis
    using rotate_reaches_borrowers[OF shared_db_inv r s] by (simp add: gh_row_def pv_key_def)
qed

text \<open>A created record binds an environment variable that no record the agent already holds,
  borrowed ones included, binds; it reads back as created, ready exactly when its credential
  is usable, and every name that resolved before resolves as before.\<close>

theorem create_binds_fresh_variable:
  assumes i: "store_inv db" and c: "create now rec cred db = (Ok r, db')"
  shows "pr_owner_agent r = nw_owner_agent rec \<and> pr_name r = nw_name rec \<and> pr_borrower_agent r = None \<and>
    pr_status r = (if cred \<noteq> [] \<and> cred \<noteq> REDACTION_SENTINEL then Ready else NeedsValue) \<and>
    (resolve db (nw_owner_agent rec) m = Ok x \<longrightarrow> pr_env_var (into_record (rs_row x) None) \<noteq> pr_env_var r) \<and>
    (resolve db b m = Ok y \<longrightarrow> resolve db' b m = Ok y)"
proof -
  have t: "create_tx now rec cred db = Ok db'" and g: "get_provider db' (nw_owner_agent rec) (nw_name rec) = Ok r"
    using c by (cases "create_tx now rec cred db"; auto simp: create_def commit_or_rollback_def)+
  obtain kind env_var bound where k: "kind_columns (nw_kind rec) = Ok (kind, env_var)"
    "bound_env_vars db (nw_owner_agent rec) = Ok bound" "env_var \<notin> set bound"
    and ins: "insert_provider \<lparr>pv_owner = nw_owner_agent rec, pv_name = nw_name rec, pv_kind = kind,
       pv_env_var = env_var, pv_label = nw_label rec, pv_credential = cred, pv_updated_at = now\<rparr> db = Ok db'"
    using create_tx_Ok[OF t] by auto
  let ?row = "\<lparr>pv_owner = nw_owner_agent rec, pv_name = nw_name rec, pv_kind = kind,
       pv_env_var = env_var, pv_label = nw_label rec, pv_credential = cred, pv_updated_at = now\<rparr>"
  have i': "store_inv db'" by (rule create_tx_inv[OF i t])
  have db': "db' = db\<lparr>providers := providers db @ [?row]\<rparr>" using ins insert_provider_Ok by auto
  have "sees db' (nw_owner_agent rec) (nw_name rec) \<lparr>rs_row = ?row, rs_borrower = None\<rparr>"
    by (auto simp: sees_def db' pv_key_def)
  then have "resolve db' (nw_owner_agent rec) (nw_name rec) = Ok \<lparr>rs_row = ?row, rs_borrower = None\<rparr>"
    using resolve_iff[OF i'] by simp
  then have r: "r = into_record ?row None" using g by (simp add: get_provider_def)
  have env: "pr_env_var r = env_var" using kind_columns_env[OF k(1)] by (simp add: r into_record_def)
  have fresh: "pr_env_var (into_record (rs_row x) None) \<noteq> env_var" if "resolve db (nw_owner_agent rec) m = Ok x"
  proof -
    have "sees db (nw_owner_agent rec) m x" using that resolve_iff[OF i] by simp
    from sees_held[OF i this] have "pr_env_var (into_record (rs_row x) None) \<in> set bound"
      using bound_loop_covers[OF k(2)[unfolded bound_env_vars_def]] by fastforce
    then show ?thesis using k(3) by auto
  qed
  have "sees db b m y \<Longrightarrow> sees db' b m y" by (auto simp: sees_def db')
  then show ?thesis
    using fresh env r kind_columns_env[OF k(1)] resolve_iff[OF i] resolve_iff[OF i']
    by (auto simp: into_record_def has_credential_def)
qed

theorem create_binds_fresh_variable_witness:
  "\<exists>r db'. create 1 gh_spec ''tok'' empty_db = (Ok r, db') \<and> pr_status r = Ready"
proof -
  let ?c = "create 1 gh_spec ''tok'' empty_db"
  have "is_ok (fst ?c)" by code_simp
  then obtain r where "fst ?c = Ok r" by (auto simp: is_ok_iff)
  then have c: "?c = (Ok r, snd ?c)" by (metis prod.collapse)
  from create_binds_fresh_variable[OF empty_db_inv c] have "pr_status r = Ready"
    by (simp add: REDACTION_SENTINEL_def)
  with c show ?thesis by blast
qed

text \<open>Sharing and then unsharing gives back the database as it was: a borrow carries no
  state of its own and touches no credential.\<close>

theorem share_unshare_roundtrip:
  assumes i: "store_inv db" and s: "share now a n dest db = (Ok r, db')"
  shows "unshare dest n db' = (Ok (), db) \<and> pr_borrower_agent r = Some dest \<and> pr_owner_agent r \<noteq> dest"
proof -
  let ?tx = "bind_result (validate_name dest n) (\<lambda>_.
         bind_result (resolve db a n) (\<lambda>r.
         bind_result (plan_share (pv_owner (rs_row r)) dest n (held_providers db dest)) (\<lambda>_.
           insert_borrow \<lparr>bw_borrower = dest, bw_name = n, bw_owner = pv_owner (rs_row r),
             bw_created_at = now\<rparr> db)))"
  have t: "?tx = Ok db'" and g: "get_provider db' dest n = Ok r"
    using s unfolding share_def by (cases ?tx; auto simp: commit_or_rollback_def)+
  from share_tx_Ok[OF i t] obtain x :: resolved where x: "pv_owner (rs_row x) \<noteq> dest" "\<not> owns db dest n"
    "\<not> borrows_rec db dest n" "rs_row x \<in> set (providers db)" "pv_name (rs_row x) = n"
    and db': "db' = db\<lparr>borrows := borrows db @ [\<lparr>bw_borrower = dest, bw_name = n,
      bw_owner = pv_owner (rs_row x), bw_created_at = now\<rparr>]\<rparr>"
    by (elim exE conjE) (rule that; assumption)
  have i': "store_inv db'" using share_inv[OF i, of now a n dest] s by simp
  let ?res = "\<lparr>rs_row = rs_row x, rs_borrower = Some dest\<rparr>"
  have "sees db' dest n ?res" using x by (auto simp: sees_def db' bw_key_def pv_key_def)
  then have res: "resolve db' dest n = Ok ?res" using resolve_iff[OF i'] by simp
  have nb: "\<forall>b \<in> set (borrows db). bw_key b \<noteq> (dest, n)" using x(3) by (auto simp: borrows_rec_def)
  then have "delete_where (\<lambda>b. bw_key b = (dest, n)) (borrows db') = borrows db"
    by (simp add: db' delete_where_def bw_key_def)
  moreover have "count_where (\<lambda>b. bw_key b = (dest, n)) (borrows db') \<noteq> 0"
    by (simp add: count_where_def db' bw_key_def)
  ultimately have "unshare dest n db' = (Ok (), db)"
    using x(1) res by (simp add: unshare_def plan_unshare_def owned_by_def commit_or_rollback_def db')
  moreover have "r = into_record (rs_row x) (Some dest)" using g res by (simp add: get_provider_def)
  ultimately show ?thesis using x(1) by (simp add: into_record_def split: prod.splits)
qed

theorem share_unshare_roundtrip_witness:
  "\<exists>r db'. share 5 ''b'' ''gh-1'' ''c'' shared_db = (Ok r, db') \<and> unshare ''c'' ''gh-1'' db' = (Ok (), shared_db)"
proof -
  let ?s = "share 5 ''b'' ''gh-1'' ''c'' shared_db"
  have "is_ok (fst ?s)" by code_simp
  then obtain r where "fst ?s = Ok r" by (auto simp: is_ok_iff)
  then have s: "?s = (Ok r, snd ?s)" by (metis prod.collapse)
  from share_unshare_roundtrip[OF shared_db_inv s] s show ?thesis by blast
qed

text \<open>A binding is only ever made from a usable credential: it is the owner's stored value,
  neither empty nor the redaction sentinel, with at least one allowed host.\<close>

theorem binding_is_usable:
  assumes "source_ref_binding db a n = Ok bnd"
  shows "\<exists>x. resolve db a n = Ok x \<and> sb_value bnd = pv_credential (rs_row x) \<and>
    has_credential (rs_row x) \<and> sb_source bnd = (pv_owner (rs_row x), n) \<and> sb_allowed_hosts bnd \<noteq> [] \<and>
    kind_env_var (pv_kind (rs_row x)) = Ok (sb_env_var bnd)"
  using assms
  by (auto simp: source_ref_binding_def bind_result_Inr Let_def check_source_credential_readable_def
      has_credential_def split: if_splits)

theorem binding_is_usable_witness:
  "\<exists>bnd. source_ref_binding shared_db ''b'' ''gh-1'' = Ok bnd \<and> sb_allowed_hosts bnd \<noteq> []"
proof -
  have "is_ok (source_ref_binding shared_db ''b'' ''gh-1'')" by code_simp
  then obtain bnd where "source_ref_binding shared_db ''b'' ''gh-1'' = Ok bnd" by (auto simp: is_ok_iff)
  with binding_is_usable[OF this] show ?thesis by blast
qed

text \<open>The plan for destroying an agent fails closed: nothing is deleted or re-homed when the
  other agents could not all be read; a record another agent holds is never deleted; a record
  is re-homed only to such a holder; and every owned record is deleted or re-homed.\<close>

theorem destroy_plan_safe:
  fixes complete :: bool
  assumes "find (\<lambda>(a, _). a = deleting) agents = Some (deleting, ps)"
  defines "plan \<equiv> plan_destroy_provider_cascade deleting agents complete"
  shows "dp_detach plan = map hp_name ps \<and>
    (\<forall>n \<in> set (dp_delete plan). complete \<and> (\<forall>(a, qs) \<in> set agents. a \<noteq> deleting \<longrightarrow> n \<notin> hp_name ` set qs)) \<and>
    (\<forall>n w. dp_rehome plan n = Some w \<longrightarrow> complete \<and> w \<noteq> deleting \<and>
       (\<exists>qs. (w, qs) \<in> set agents \<and> n \<in> hp_name ` set qs)) \<and>
    (complete \<longrightarrow> (\<forall>e \<in> set ps. owned_by e deleting \<longrightarrow>
       hp_name e \<in> set (dp_delete plan) \<or> dp_rehome plan (hp_name e) \<noteq> None))"
proof -
  let ?o = "other_holders deleting agents"
  have p: "plan = \<lparr>dp_detach = map hp_name ps,
     dp_delete = (if complete then filter (\<lambda>n. ?o n = []) (map hp_name ps) else []),
     dp_rehome = (\<lambda>n. if complete \<and> (\<exists>e \<in> set ps. hp_name e = n \<and> owned_by e deleting) \<and> ?o n \<noteq> []
        then Some (hd (?o n)) else None)\<rparr>"
    using assms(1)
    by (simp add: plan_def plan_destroy_provider_cascade_def cascade_loop_plan empty_plan_def cong: if_cong)
  have none: "\<forall>(a, qs) \<in> set agents. a \<noteq> deleting \<longrightarrow> n \<notin> hp_name ` set qs" if "?o n = []" for n
    using that by (auto simp: other_holders_def filter_empty_conv list_ex_iff)
  have some: "hd (?o n) \<noteq> deleting \<and> (\<exists>qs. (hd (?o n), qs) \<in> set agents \<and> n \<in> hp_name ` set qs)"
    if "?o n \<noteq> []" for n
  proof -
    have "hd (?o n) \<in> set (?o n)" using that by (rule hd_in_set)
    then show ?thesis by (auto simp: other_holders_def list_ex_iff)
  qed
  show ?thesis
  proof (intro conjI)
    show "\<forall>n \<in> set (dp_delete plan). complete \<and> (\<forall>(a, qs) \<in> set agents. a \<noteq> deleting \<longrightarrow> n \<notin> hp_name ` set qs)"
      using none by (auto simp: p split: if_splits)
    show "\<forall>n w. dp_rehome plan n = Some w \<longrightarrow> complete \<and> w \<noteq> deleting \<and>
       (\<exists>qs. (w, qs) \<in> set agents \<and> n \<in> hp_name ` set qs)"
      using some by (auto simp: p split: if_splits)
  qed (auto simp: p)
qed

theorem destroy_plan_safe_witness:
  "let plan = plan_destroy_provider_cascade ''a''
      [(''a'', [\<lparr>hp_name = ''k'', hp_owner_agent = ''a''\<rparr>]), (''b'', [\<lparr>hp_name = ''k'', hp_owner_agent = ''a''\<rparr>])] True
   in dp_detach plan = [''k''] \<and> (''k'' \<in> set (dp_delete plan) \<or> dp_rehome plan ''k'' \<noteq> None)"
  using destroy_plan_safe[of "''a''" "[(''a'', [\<lparr>hp_name = ''k'', hp_owner_agent = ''a''\<rparr>]),
      (''b'', [\<lparr>hp_name = ''k'', hp_owner_agent = ''a''\<rparr>])]" "[\<lparr>hp_name = ''k'', hp_owner_agent = ''a''\<rparr>]" True]
  by (simp add: owned_by_def Let_def)

text \<open>Sharing, unlike creating, does not look at environment variables: the destination can
  end up with two records bound to the same one.\<close>

definition two_tokens_db :: provider_db where
  "two_tokens_db = \<lparr>providers = [gh_row, gh_row\<lparr>pv_owner := ''b'', pv_name := ''gh-2''\<rparr>], borrows = []\<rparr>"

theorem share_ignores_bound_variables:
  "map pr_env_var (list_providers (snd (share 3 ''a'' ''gh-1'' ''b'' two_tokens_db)) ''b'') =
   [''GITHUB_TOKEN'', ''GITHUB_TOKEN'']"
  by code_simp

end
