(* ===== verification/Refresh.thy ===== *)
theory Refresh
  imports Prelude
begin

text \<open>
  OAuth token refresh for MCP servers (\<^verbatim>\<open>right-mcp/src/refresh.rs\<close> and
  \<^verbatim>\<open>reconnect.rs\<close>): the retry loop around the token endpoint, the refresh timing,
  the scheduler as a state machine and the manager of reconnects.  The scheduler's
  maps are kept as maps; a task in flight is a value with the entry and generation it
  was spawned with and a flag for its cancellation token.  The HTTP client, the
  persistence trait's failures and the connection of a backend are left out.
\<close>

section \<open>Back-off schedules\<close>

locale backoff_schedule =
  fixes table :: "nat list" and cap :: nat
  assumes nonempty: "table \<noteq> []" and increasing: "sorted table" and plateau: "last table = cap"
begin

definition delay :: "nat \<Rightarrow> nat" where
  "delay i = (if i < length table then table ! i else cap)"

lemma delay_le_cap: "delay i \<le> cap"
proof (cases "i < length table")
  case True
  have "table ! i \<le> table ! (length table - 1)"
    by (rule sorted_nth_mono[OF increasing]) (use True in auto)
  then show ?thesis using True plateau nonempty by (simp add: delay_def last_conv_nth)
qed (simp add: delay_def)

lemma delay_mono: "i \<le> j \<Longrightarrow> delay i \<le> delay j"
proof (cases "j < length table")
  case True
  then show "i \<le> j \<Longrightarrow> ?thesis" by (auto simp: delay_def intro: sorted_nth_mono[OF increasing])
next
  case False
  then show "i \<le> j \<Longrightarrow> ?thesis" using delay_le_cap by (simp add: delay_def)
qed

lemma delay_first: "hd table \<le> delay i"
  using delay_mono[of 0 i] nonempty by (simp add: delay_def hd_conv_nth)

end

definition TRANSIENT_BACKOFF_SECS :: "nat list" where
  "TRANSIENT_BACKOFF_SECS = [60, 120, 300, 600, 1200, 1800]"
definition TRANSIENT_BACKOFF_CAP_SECS :: nat where "TRANSIENT_BACKOFF_CAP_SECS = 1800"

text \<open>\<^verbatim>\<open>attempt\<close> counts from 1; natural subtraction is \<^verbatim>\<open>saturating_sub\<close>.\<close>

definition transient_backoff_secs :: "nat \<Rightarrow> nat" where
  "transient_backoff_secs attempt =
     (if attempt - 1 < length TRANSIENT_BACKOFF_SECS then TRANSIENT_BACKOFF_SECS ! (attempt - 1)
      else TRANSIENT_BACKOFF_CAP_SECS)"

definition MAX_RETRIES :: nat where "MAX_RETRIES = 3"
definition BACKOFFS :: "nat list" where "BACKOFFS = [30, 60, 120]"
definition BACKOFF_FALLBACK_SECS :: nat where "BACKOFF_FALLBACK_SECS = 120"

definition refresh_retry_delay :: "nat \<Rightarrow> nat" where
  "refresh_retry_delay attempt =
     (if attempt < length BACKOFFS then BACKOFFS ! attempt else BACKOFF_FALLBACK_SECS)"

interpretation transient: backoff_schedule TRANSIENT_BACKOFF_SECS TRANSIENT_BACKOFF_CAP_SECS
  by unfold_locales (simp_all add: TRANSIENT_BACKOFF_SECS_def TRANSIENT_BACKOFF_CAP_SECS_def)

interpretation retry: backoff_schedule BACKOFFS BACKOFF_FALLBACK_SECS
  by unfold_locales (simp_all add: BACKOFFS_def BACKOFF_FALLBACK_SECS_def)

lemma transient_backoff_delay: "transient_backoff_secs attempt = transient.delay (attempt - 1)"
  by (simp add: transient_backoff_secs_def transient.delay_def)

lemma refresh_retry_is_delay: "refresh_retry_delay attempt = retry.delay attempt"
  by (simp add: refresh_retry_delay_def retry.delay_def)

section \<open>OAuth state and timing\<close>

record oauth_state =
  oa_refresh_token :: "string option"
  oa_token_endpoint :: string
  oa_client_id :: string
  oa_client_secret :: "string option"
  oa_expires_at :: millis
  oa_server_url :: string
  oa_resource :: string

definition REFRESH_MARGIN_MAX :: millis where "REFRESH_MARGIN_MAX = secs 3600"

definition refresh_due_in :: "millis \<Rightarrow> oauth_state \<Rightarrow> millis" where
  "refresh_due_in now entry =
     (let remaining = max 0 (oa_expires_at entry - now);
          margin = min REFRESH_MARGIN_MAX (remaining div 2)
      in max 0 (remaining - margin))"

section \<open>One refresh against the token endpoint\<close>

datatype refresh_failure = TransientFailure string | PermanentFailure string

fun is_permanent :: "refresh_failure \<Rightarrow> bool" where
  "is_permanent (PermanentFailure _) = True"
| "is_permanent (TransientFailure _) = False"

datatype reconnect_error =
    Cancelled
  | RefreshFailed refresh_failure
  | ConnectFailed string
  | PersistFailed string

definition is_cloudflare_challenge_response :: "nat \<Rightarrow> string \<Rightarrow> bool" where
  "is_cloudflare_challenge_response status body =
     (status = 403 \<and>
      (contains_text ''__cf_chl_'' body \<or> contains_text ''/cdn-cgi/challenge-platform/'' body \<or>
       contains_text ''cf_chl_opt'' body \<or> contains_text ''Just a moment'' body))"

definition refresh_http_error_detail :: "nat \<Rightarrow> string \<Rightarrow> string" where
  "refresh_http_error_detail status body =
     (if is_cloudflare_challenge_response status body
      then ''HTTP '' @ string_of_nat status @ '': Cloudflare challenge''
      else ''HTTP '' @ string_of_nat status @ '': '' @ body)"

record token_response =
  tr_access_token :: string
  tr_refresh_token :: "string option"
  tr_expires_in :: "int option"

text \<open>What one POST to the token endpoint ends in: a success with a parsed or an unparseable
  body, another HTTP status with its body, or a request error.\<close>

datatype token_reply =
    TokenOk token_response
  | TokenMalformed string
  | TokenHttp nat string
  | TokenError string

text \<open>Where the cancellation token is found cancelled during an attempt.\<close>

datatype cancel_point = NotCancelled | BeforeRequest | DuringRequest | DuringBackoff

definition is_transient_http :: "nat \<Rightarrow> string \<Rightarrow> bool" where
  "is_transient_http status body =
     (status = 408 \<or> status = 429 \<or> (500 \<le> status \<and> status < 600) \<or>
      is_cloudflare_challenge_response status body)"

text \<open>The attempts still to make, counted down; \<^verbatim>\<open>reply\<close> and \<^verbatim>\<open>cancel\<close> say what attempt k meets,
  \<^verbatim>\<open>now\<close> when its answer is handled.\<close>

fun refresh_loop :: "(nat \<Rightarrow> token_reply) \<Rightarrow> (nat \<Rightarrow> cancel_point) \<Rightarrow> (nat \<Rightarrow> millis) \<Rightarrow> oauth_state \<Rightarrow>
    nat \<Rightarrow> nat \<Rightarrow> string option \<Rightarrow> (reconnect_error, oauth_state \<times> string) result" where
  "refresh_loop reply cancel now entry 0 k last_error =
     Err (RefreshFailed (TransientFailure
       (case last_error of Some e \<Rightarrow> e | None \<Rightarrow> ''exhausted 3 attempts'')))"
| "refresh_loop reply cancel now entry (Suc n) k last_error =
     (if cancel k = BeforeRequest \<or> cancel k = DuringRequest then Err Cancelled
      else case reply k of
        TokenOk r \<Rightarrow>
          Ok (entry\<lparr>oa_refresh_token := (case tr_refresh_token r of None \<Rightarrow> oa_refresh_token entry | t \<Rightarrow> t),
                    oa_expires_at := now k + secs (case tr_expires_in r of None \<Rightarrow> 3600 | Some e \<Rightarrow> e)\<rparr>,
              tr_access_token r)
      | TokenMalformed e \<Rightarrow> Err (RefreshFailed (TransientFailure (''malformed token response: '' @ e)))
      | TokenHttp status body \<Rightarrow>
          (if is_transient_http status body
           then (if n \<noteq> 0 \<and> cancel k = DuringBackoff then Err Cancelled
                 else refresh_loop reply cancel now entry n (Suc k) (Some (refresh_http_error_detail status body)))
           else Err (RefreshFailed (PermanentFailure (refresh_http_error_detail status body))))
      | TokenError e \<Rightarrow>
          (if n \<noteq> 0 \<and> cancel k = DuringBackoff then Err Cancelled
           else refresh_loop reply cancel now entry n (Suc k) (Some e)))"

definition do_refresh_cancellable :: "(nat \<Rightarrow> token_reply) \<Rightarrow> (nat \<Rightarrow> cancel_point) \<Rightarrow> (nat \<Rightarrow> millis) \<Rightarrow>
    oauth_state \<Rightarrow> (reconnect_error, oauth_state \<times> string) result" where
  "do_refresh_cancellable reply cancel now entry =
     (if oa_refresh_token entry = None
      then Err (RefreshFailed (PermanentFailure ''no refresh_token available''))
      else refresh_loop reply cancel now entry MAX_RETRIES 0 None)"

section \<open>The scheduler\<close>

datatype backend_status = Connected | NeedsAuth | Unreachable

record refresh_task =
  rt_id :: nat
  rt_name :: string
  rt_generation :: nat
  rt_entry :: oauth_state
  rt_cancelled :: bool

record scheduler =
  sc_entries :: "string \<Rightarrow> oauth_state option"
  sc_tokens :: "string \<Rightarrow> string option option"
  sc_backends :: "string \<Rightarrow> backend_status option"
  sc_timers :: "string \<Rightarrow> millis option"
  sc_retries :: "string \<Rightarrow> nat option"
  sc_cancel :: "string \<Rightarrow> nat option"
  sc_generations :: "string \<Rightarrow> nat option"
  sc_in_flight :: "refresh_task list"
  sc_next_id :: nat
  sc_persisted :: "string \<Rightarrow> (string \<times> string option \<times> millis) option"

definition new_scheduler :: scheduler where
  "new_scheduler = \<lparr>sc_entries = Map.empty, sc_tokens = Map.empty, sc_backends = Map.empty,
     sc_timers = Map.empty, sc_retries = Map.empty, sc_cancel = Map.empty,
     sc_generations = Map.empty, sc_in_flight = [], sc_next_id = 0, sc_persisted = Map.empty\<rparr>"

text \<open>Cancelling the token a name maps to reaches the task that was spawned with it.\<close>

definition cancel_task :: "nat option \<Rightarrow> refresh_task list \<Rightarrow> refresh_task list" where
  "cancel_task tid ts =
     (case tid of None \<Rightarrow> ts
      | Some i \<Rightarrow> map (\<lambda>t. if rt_id t = i then t\<lparr>rt_cancelled := True\<rparr> else t) ts)"

definition generation_of :: "scheduler \<Rightarrow> string \<Rightarrow> nat" where
  "generation_of s name = (case sc_generations s name of Some g \<Rightarrow> g | None \<Rightarrow> 0)"

definition handle_new_entry :: "millis \<Rightarrow> string \<Rightarrow> oauth_state \<Rightarrow> string option \<Rightarrow> backend_status \<Rightarrow>
    scheduler \<Rightarrow> scheduler" where
  "handle_new_entry now name st tok backend s =
     s\<lparr>sc_timers := (sc_timers s)(name \<mapsto> now + refresh_due_in now st),
       sc_persisted := (sc_persisted s)(name \<mapsto>
         (case tok of Some t \<Rightarrow> t | None \<Rightarrow> [], oa_refresh_token st, oa_expires_at st)),
       sc_entries := (sc_entries s)(name \<mapsto> st),
       sc_tokens := (sc_tokens s)(name \<mapsto> tok),
       sc_backends := (sc_backends s)(name \<mapsto> backend),
       sc_retries := (sc_retries s)(name := None),
       sc_generations := (sc_generations s)(name \<mapsto> generation_of s name + 1),
       sc_in_flight := cancel_task (sc_cancel s name) (sc_in_flight s),
       sc_cancel := (sc_cancel s)(name := None)\<rparr>"

definition remove_refresh_server :: "string \<Rightarrow> scheduler \<Rightarrow> scheduler" where
  "remove_refresh_server name s =
     s\<lparr>sc_timers := (sc_timers s)(name := None),
       sc_entries := (sc_entries s)(name := None),
       sc_tokens := (sc_tokens s)(name := None),
       sc_backends := (sc_backends s)(name := None),
       sc_retries := (sc_retries s)(name := None),
       sc_in_flight := cancel_task (sc_cancel s name) (sc_in_flight s),
       sc_cancel := (sc_cancel s)(name := None)\<rparr>"

definition handle_timer :: "string \<Rightarrow> scheduler \<Rightarrow> scheduler" where
  "handle_timer name s0 =
     (let s = s0\<lparr>sc_timers := (sc_timers s0)(name := None)\<rparr> in
      case sc_entries s name of
        None \<Rightarrow> s
      | Some entry \<Rightarrow>
          s\<lparr>sc_cancel := (sc_cancel s)(name \<mapsto> sc_next_id s),
            sc_in_flight := sc_in_flight s @
              [\<lparr>rt_id = sc_next_id s, rt_name = name, rt_generation = generation_of s name,
                rt_entry = entry, rt_cancelled = False\<rparr>],
            sc_next_id := sc_next_id s + 1\<rparr>)"

text \<open>The result of a task: what the refresh returned, or a panic of the task.\<close>

datatype task_outcome = Finished "(reconnect_error, oauth_state \<times> string) result" | Panicked

definition apply_refresh_result :: "millis \<Rightarrow> string \<Rightarrow> (reconnect_error, oauth_state \<times> string) result \<Rightarrow>
    scheduler \<Rightarrow> scheduler" where
  "apply_refresh_result now name result s =
     (case result of
        Ok (new_entry, access_token) \<Rightarrow>
          s\<lparr>sc_retries := (sc_retries s)(name := None),
            sc_tokens := (case sc_tokens s name of
                            Some _ \<Rightarrow> (sc_tokens s)(name \<mapsto> Some access_token) | None \<Rightarrow> sc_tokens s),
            sc_timers := (sc_timers s)(name \<mapsto> now + refresh_due_in now new_entry),
            sc_persisted := (sc_persisted s)(name \<mapsto>
              (access_token, oa_refresh_token new_entry, oa_expires_at new_entry))\<rparr>
      | Err (RefreshFailed failure) \<Rightarrow>
          (if is_permanent failure
           then s\<lparr>sc_backends := (case sc_backends s name of
                                    Some _ \<Rightarrow> (sc_backends s)(name \<mapsto> NeedsAuth) | None \<Rightarrow> sc_backends s),
                  sc_timers := (sc_timers s)(name := None),
                  sc_retries := (sc_retries s)(name := None)\<rparr>
           else (let attempt = (case sc_retries s name of Some n \<Rightarrow> n + 1 | None \<Rightarrow> 1) in
                 s\<lparr>sc_retries := (sc_retries s)(name \<mapsto> attempt),
                   sc_timers := (sc_timers s)(name \<mapsto> now + secs (int (transient_backoff_secs attempt)))\<rparr>))
      | Err Cancelled \<Rightarrow> s
      | Err _ \<Rightarrow>
          s\<lparr>sc_timers := (sc_timers s)(name := None), sc_retries := (sc_retries s)(name := None)\<rparr>)"

definition handle_joined :: "millis \<Rightarrow> refresh_task \<Rightarrow> task_outcome \<Rightarrow> scheduler \<Rightarrow> scheduler" where
  "handle_joined now t outcome s0 =
     (let s1 = s0\<lparr>sc_in_flight := filter (\<lambda>u. rt_id u \<noteq> rt_id t) (sc_in_flight s0)\<rparr> in
      case outcome of
        Panicked \<Rightarrow> s1
      | Finished result \<Rightarrow>
          (let name = rt_name t;
               s2 = (if sc_generations s1 name = Some (rt_generation t)
                     then s1\<lparr>sc_cancel := (sc_cancel s1)(name := None)\<rparr> else s1)
           in if sc_entries s2 name = None then s2
              else if rt_generation t \<noteq> generation_of s2 name then s2
              else apply_refresh_result now name result s2))"

text \<open>When the backend asks for a reconnect after a successful refresh.\<close>

definition needs_reconnect :: "scheduler \<Rightarrow> string \<Rightarrow> bool" where
  "needs_reconnect s name = (sc_backends s name = Some NeedsAuth)"

section \<open>The scheduler as a step relation\<close>

datatype sched_event =
    EvNewEntry string oauth_state "string option" backend_status
  | EvRemove string
  | EvTimer string
  | EvJoined refresh_task task_outcome
  | EvBackend string backend_status

text \<open>A task returns \<^verbatim>\<open>Cancelled\<close> only when its token was cancelled, and never a connect or
  persist error: it runs \<^verbatim>\<open>do_refresh_cancellable\<close>.\<close>

definition outcome_possible :: "refresh_task \<Rightarrow> task_outcome \<Rightarrow> bool" where
  "outcome_possible t outcome =
     (case outcome of
        Panicked \<Rightarrow> True
      | Finished (Err Cancelled) \<Rightarrow> rt_cancelled t
      | Finished (Err (ConnectFailed _)) \<Rightarrow> False
      | Finished (Err (PersistFailed _)) \<Rightarrow> False
      | Finished _ \<Rightarrow> True)"

inductive sched_step :: "millis \<Rightarrow> scheduler \<Rightarrow> sched_event \<Rightarrow> scheduler \<Rightarrow> bool" where
  step_new: "sched_step now s (EvNewEntry name st tok backend) (handle_new_entry now name st tok backend s)"
| step_remove: "sched_step now s (EvRemove name) (remove_refresh_server name s)"
| step_timer: "sc_timers s name = Some due \<Longrightarrow> due \<le> now \<Longrightarrow>
    (\<forall>other t. sc_timers s other = Some t \<longrightarrow> due \<le> t) \<Longrightarrow>
    sched_step now s (EvTimer name) (handle_timer name s)"
| step_joined: "t \<in> set (sc_in_flight s) \<Longrightarrow> outcome_possible t outcome \<Longrightarrow>
    sched_step now s (EvJoined t outcome) (handle_joined now t outcome s)"
| step_backend: "sc_backends s name \<noteq> None \<Longrightarrow>
    sched_step now s (EvBackend name status) (s\<lparr>sc_backends := (sc_backends s)(name \<mapsto> status)\<rparr>)"

inductive_cases sched_stepE: "sched_step now s ev s'"

inductive sched_run :: "scheduler \<Rightarrow> sched_event list \<Rightarrow> scheduler \<Rightarrow> bool" where
  run_nil: "sched_run s [] s"
| run_snoc: "sched_run s evs s1 \<Longrightarrow> sched_step now s1 ev s2 \<Longrightarrow> sched_run s (evs @ [ev]) s2"

section \<open>Reconnects\<close>

record reconnect_manager =
  rm_in_flight :: "string \<Rightarrow> nat option"
  rm_cancelled :: "nat list"
  rm_started :: "(nat \<times> string) list"

definition start_reconnect :: "string \<Rightarrow> reconnect_manager \<Rightarrow> reconnect_manager" where
  "start_reconnect name m =
     (let cancelled = (case rm_in_flight m name of None \<Rightarrow> rm_cancelled m | Some c \<Rightarrow> c # rm_cancelled m);
          tok = length (rm_started m)
      in m\<lparr>rm_in_flight := (rm_in_flight m)(name \<mapsto> tok), rm_cancelled := cancelled,
           rm_started := rm_started m @ [(tok, name)]\<rparr>)"

definition cancel_reconnect :: "string \<Rightarrow> reconnect_manager \<Rightarrow> reconnect_manager" where
  "cancel_reconnect name m =
     (case rm_in_flight m name of
        None \<Rightarrow> m
      | Some c \<Rightarrow> m\<lparr>rm_in_flight := (rm_in_flight m)(name := None), rm_cancelled := c # rm_cancelled m\<rparr>)"

text \<open>Draining the map cancels every token it holds.\<close>

definition cancel_all_reconnects :: "reconnect_manager \<Rightarrow> reconnect_manager" where
  "cancel_all_reconnects m =
     m\<lparr>rm_in_flight := Map.empty,
       rm_cancelled := map fst (filter (\<lambda>(c, name). rm_in_flight m name = Some c) (rm_started m)) @ rm_cancelled m\<rparr>"

text \<open>The effects of a reconnect: the new token, the persisted state, the message to the
  scheduler and the connection, each only when the steps before it succeeded.\<close>

record reconnect_world =
  rw_token :: "string option"
  rw_persisted :: "(string \<times> string option \<times> millis) option"
  rw_notified :: "oauth_state list"
  rw_status :: backend_status

definition reconnect_task :: "(reconnect_error, oauth_state \<times> string) result \<Rightarrow> bool \<Rightarrow> bool \<Rightarrow>
    string option \<Rightarrow> reconnect_world \<Rightarrow> (reconnect_error, unit) result \<times> reconnect_world" where
  "reconnect_task refresh persist_ok send_ok connect_error w =
     (case refresh of
        Err Cancelled \<Rightarrow> (Err Cancelled, w)
      | Err (RefreshFailed failure) \<Rightarrow>
          (Err (RefreshFailed failure),
           if is_permanent failure \<and> rw_status w \<noteq> Connected then w\<lparr>rw_status := NeedsAuth\<rparr> else w)
      | Err e \<Rightarrow> (Err e, w)
      | Ok (st, access) \<Rightarrow>
          (let w1 = w\<lparr>rw_token := Some access\<rparr> in
           if \<not> persist_ok then (Err (PersistFailed ''update_oauth_token''), w1)
           else let w2 = w1\<lparr>rw_persisted := Some (access, oa_refresh_token st, oa_expires_at st)\<rparr> in
           if \<not> send_ok then (Err (PersistFailed ''refresh scheduler unavailable''), w2)
           else let w3 = w2\<lparr>rw_notified := rw_notified w2 @ [st]\<rparr> in
           (case connect_error of Some e \<Rightarrow> (Err (ConnectFailed e), w3) | None \<Rightarrow> (Ok (), w3))))"

end
