(* ===== verification/Refresh_Props.thy ===== *)
theory Refresh_Props
  imports Refresh
begin

text \<open>
  Correctness of the token refresh: the scheduler's invariant and what follows from it
  for every run, the retry loop, the timing, and the manager of reconnects.
\<close>

section \<open>The scheduler's invariant\<close>

definition current :: "scheduler \<Rightarrow> refresh_task \<Rightarrow> bool" where
  "current s t = (sc_generations s (rt_name t) = Some (rt_generation t) \<and> sc_entries s (rt_name t) \<noteq> None)"

definition sched_inv :: "scheduler \<Rightarrow> bool" where
  "sched_inv s =
     (distinct (map rt_id (sc_in_flight s)) \<and>
      (\<forall>t \<in> set (sc_in_flight s). rt_id t < sc_next_id s) \<and>
      (\<forall>t \<in> set (sc_in_flight s). \<exists>g. sc_generations s (rt_name t) = Some g \<and> rt_generation t \<le> g) \<and>
      (\<forall>t \<in> set (sc_in_flight s). current s t \<longrightarrow>
         sc_timers s (rt_name t) = None \<and> sc_cancel s (rt_name t) = Some (rt_id t) \<and>
         \<not> rt_cancelled t \<and> sc_entries s (rt_name t) = Some (rt_entry t)) \<and>
      (\<forall>n. sc_timers s n \<noteq> None \<longrightarrow> sc_entries s n \<noteq> None) \<and>
      (\<forall>n. sc_retries s n \<noteq> None \<longrightarrow> sc_entries s n \<noteq> None) \<and>
      (\<forall>n. sc_entries s n \<noteq> None \<longrightarrow>
         sc_generations s n \<noteq> None \<and> sc_tokens s n \<noteq> None \<and> sc_backends s n \<noteq> None) \<and>
      (\<forall>n i. sc_cancel s n = Some i \<longrightarrow>
         i < sc_next_id s \<and> (\<forall>t \<in> set (sc_in_flight s). rt_id t = i \<longrightarrow> rt_name t = n)))"

lemma sched_invD:
  assumes "sched_inv s"
  shows "distinct (map rt_id (sc_in_flight s))"
    and "t \<in> set (sc_in_flight s) \<Longrightarrow> rt_id t < sc_next_id s"
    and "t \<in> set (sc_in_flight s) \<Longrightarrow> \<exists>g. sc_generations s (rt_name t) = Some g \<and> rt_generation t \<le> g"
    and "t \<in> set (sc_in_flight s) \<Longrightarrow> current s t \<Longrightarrow>
      sc_timers s (rt_name t) = None \<and> sc_cancel s (rt_name t) = Some (rt_id t) \<and>
      \<not> rt_cancelled t \<and> sc_entries s (rt_name t) = Some (rt_entry t)"
    and "sc_timers s n \<noteq> None \<Longrightarrow> sc_entries s n \<noteq> None"
    and "sc_retries s n \<noteq> None \<Longrightarrow> sc_entries s n \<noteq> None"
    and "sc_entries s n \<noteq> None \<Longrightarrow>
      sc_generations s n \<noteq> None \<and> sc_tokens s n \<noteq> None \<and> sc_backends s n \<noteq> None"
    and "sc_cancel s n = Some i \<Longrightarrow>
      i < sc_next_id s \<and> (\<forall>t \<in> set (sc_in_flight s). rt_id t = i \<longrightarrow> rt_name t = n)"
  using assms unfolding sched_inv_def by blast+

lemma new_scheduler_inv [inv_intros]: "sched_inv new_scheduler"
  by (simp add: sched_inv_def new_scheduler_def)

text \<open>Cancelling changes nothing of a task but its flag.\<close>

lemma cancel_task_set:
  assumes "t \<in> set (cancel_task c ts)"
  shows "\<exists>u \<in> set ts. rt_id t = rt_id u \<and> rt_name t = rt_name u \<and> rt_generation t = rt_generation u \<and>
    rt_entry t = rt_entry u \<and> (rt_cancelled t \<longrightarrow> rt_cancelled u \<or> c = Some (rt_id u))"
  using assms by (auto simp: cancel_task_def split: option.splits if_splits)

lemma cancel_task_mem:
  assumes "u \<in> set ts"
  shows "\<exists>t \<in> set (cancel_task c ts). rt_id t = rt_id u \<and> rt_name t = rt_name u \<and>
    rt_generation t = rt_generation u"
proof (cases c)
  case None
  then show ?thesis using assms by (auto simp: cancel_task_def)
next
  case (Some i)
  let ?t = "if rt_id u = i then u\<lparr>rt_cancelled := True\<rparr> else u"
  have "?t \<in> set (cancel_task c ts)" using assms Some by (auto simp: cancel_task_def)
  then show ?thesis by (rule bexI[rotated]) simp
qed

lemma cancel_task_ids [simp]: "map rt_id (cancel_task c ts) = map rt_id ts"
  by (auto simp: cancel_task_def split: option.splits)

lemma current_unique:
  assumes "sched_inv s" "t \<in> set (sc_in_flight s)" "u \<in> set (sc_in_flight s)"
    and "current s t" "current s u" "rt_name t = rt_name u"
  shows "t = u"
  using sched_invD(4)[OF assms(1,2,4)] sched_invD(4)[OF assms(1,3,5)] assms(6)
    distinct_key_unique[OF sched_invD(1)[OF assms(1)] assms(2,3)] by simp

lemma generation_of_Some: "sc_generations s n = Some g \<Longrightarrow> generation_of s n = g"
  by (simp add: generation_of_def)

lemma new_entry_inv [inv_intros]:
  assumes i: "sched_inv s"
  shows "sched_inv (handle_new_entry now name st tok backend s)"
proof -
  let ?s = "handle_new_entry now name st tok backend s"
  have tasks: "\<exists>u \<in> set (sc_in_flight s). rt_id t = rt_id u \<and> rt_name t = rt_name u \<and>
      rt_generation t = rt_generation u \<and> rt_entry t = rt_entry u \<and>
      (rt_cancelled t \<longrightarrow> rt_cancelled u \<or> sc_cancel s name = Some (rt_id u))"
    if "t \<in> set (sc_in_flight ?s)" for t
    using cancel_task_set that by (simp add: handle_new_entry_def)
  have cur: "rt_name t \<noteq> name" if t: "t \<in> set (sc_in_flight ?s)" "current ?s t" for t
  proof
    assume n: "rt_name t = name"
    obtain u where u: "u \<in> set (sc_in_flight s)" "rt_name t = rt_name u" "rt_generation t = rt_generation u"
      using tasks[OF t(1)] by blast
    obtain g where "sc_generations s name = Some g" "rt_generation u \<le> g"
      using sched_invD(3)[OF i u(1)] u(2) n by auto
    then show False using t(2) u(3) n by (simp add: current_def handle_new_entry_def generation_of_def)
  qed
  show ?thesis
    unfolding sched_inv_def
  proof (intro conjI)
    show "distinct (map rt_id (sc_in_flight ?s))"
      using sched_invD(1)[OF i] by (simp add: handle_new_entry_def)
    show "\<forall>t \<in> set (sc_in_flight ?s). rt_id t < sc_next_id ?s"
      using tasks sched_invD(2)[OF i] by (fastforce simp: handle_new_entry_def)
    show "\<forall>t \<in> set (sc_in_flight ?s). \<exists>g. sc_generations ?s (rt_name t) = Some g \<and> rt_generation t \<le> g"
    proof
      fix t assume "t \<in> set (sc_in_flight ?s)"
      then obtain u where u: "u \<in> set (sc_in_flight s)" "rt_name t = rt_name u" "rt_generation t = rt_generation u"
        using tasks by blast
      then show "\<exists>g. sc_generations ?s (rt_name t) = Some g \<and> rt_generation t \<le> g"
        using sched_invD(3)[OF i u(1)] by (auto simp: handle_new_entry_def generation_of_def)
    qed
    show "\<forall>t \<in> set (sc_in_flight ?s). current ?s t \<longrightarrow>
         sc_timers ?s (rt_name t) = None \<and> sc_cancel ?s (rt_name t) = Some (rt_id t) \<and>
         \<not> rt_cancelled t \<and> sc_entries ?s (rt_name t) = Some (rt_entry t)"
    proof (intro ballI impI)
      fix t assume t: "t \<in> set (sc_in_flight ?s)" "current ?s t"
      obtain u where u: "u \<in> set (sc_in_flight s)" "rt_id t = rt_id u" "rt_name t = rt_name u"
        "rt_generation t = rt_generation u" "rt_entry t = rt_entry u"
        "rt_cancelled t \<longrightarrow> rt_cancelled u \<or> sc_cancel s name = Some (rt_id u)"
        using tasks[OF t(1)] by blast
      have n: "rt_name u \<noteq> name" using cur[OF t] u(3) by simp
      have cu: "current s u" using t(2) n u by (simp add: current_def handle_new_entry_def)
      have "sc_cancel s name \<noteq> Some (rt_id u)" using sched_invD(8)[OF i] u(1) n by blast
      then show "sc_timers ?s (rt_name t) = None \<and> sc_cancel ?s (rt_name t) = Some (rt_id t) \<and>
         \<not> rt_cancelled t \<and> sc_entries ?s (rt_name t) = Some (rt_entry t)"
        using sched_invD(4)[OF i u(1) cu] n u by (simp add: handle_new_entry_def)
    qed
    show "\<forall>n k. sc_cancel ?s n = Some k \<longrightarrow>
         k < sc_next_id ?s \<and> (\<forall>t \<in> set (sc_in_flight ?s). rt_id t = k \<longrightarrow> rt_name t = n)"
    proof (intro allI impI conjI ballI)
      fix n k assume c: "sc_cancel ?s n = Some k"
      then have c': "sc_cancel s n = Some k" by (simp add: handle_new_entry_def split: if_splits)
      show "k < sc_next_id ?s" using sched_invD(8)[OF i c'] by (simp add: handle_new_entry_def)
      fix t assume "t \<in> set (sc_in_flight ?s)" "rt_id t = k"
      then show "rt_name t = n" using tasks sched_invD(8)[OF i c'] by fastforce
    qed
  qed (use sched_invD(5-7)[OF i] in \<open>auto simp: handle_new_entry_def\<close>)
qed

lemma remove_server_inv [inv_intros]:
  assumes i: "sched_inv s"
  shows "sched_inv (remove_refresh_server name s)"
proof -
  let ?s = "remove_refresh_server name s"
  have tasks: "\<exists>u \<in> set (sc_in_flight s). rt_id t = rt_id u \<and> rt_name t = rt_name u \<and>
      rt_generation t = rt_generation u \<and> rt_entry t = rt_entry u \<and>
      (rt_cancelled t \<longrightarrow> rt_cancelled u \<or> sc_cancel s name = Some (rt_id u))"
    if "t \<in> set (sc_in_flight ?s)" for t
    using cancel_task_set that by (simp add: remove_refresh_server_def)
  show ?thesis
    unfolding sched_inv_def
  proof (intro conjI)
    show "distinct (map rt_id (sc_in_flight ?s))"
      using sched_invD(1)[OF i] by (simp add: remove_refresh_server_def)
    show "\<forall>t \<in> set (sc_in_flight ?s). rt_id t < sc_next_id ?s"
      using tasks sched_invD(2)[OF i] by (fastforce simp: remove_refresh_server_def)
    show "\<forall>t \<in> set (sc_in_flight ?s). \<exists>g. sc_generations ?s (rt_name t) = Some g \<and> rt_generation t \<le> g"
      using tasks sched_invD(3)[OF i] by (fastforce simp: remove_refresh_server_def)
    show "\<forall>t \<in> set (sc_in_flight ?s). current ?s t \<longrightarrow>
         sc_timers ?s (rt_name t) = None \<and> sc_cancel ?s (rt_name t) = Some (rt_id t) \<and>
         \<not> rt_cancelled t \<and> sc_entries ?s (rt_name t) = Some (rt_entry t)"
    proof (intro ballI impI)
      fix t assume t: "t \<in> set (sc_in_flight ?s)" "current ?s t"
      obtain u where u: "u \<in> set (sc_in_flight s)" "rt_id t = rt_id u" "rt_name t = rt_name u"
        "rt_generation t = rt_generation u" "rt_entry t = rt_entry u"
        "rt_cancelled t \<longrightarrow> rt_cancelled u \<or> sc_cancel s name = Some (rt_id u)"
        using tasks[OF t(1)] by blast
      have n: "rt_name u \<noteq> name" using t(2) u(3) by (auto simp: current_def remove_refresh_server_def)
      have cu: "current s u" using t(2) n u by (simp add: current_def remove_refresh_server_def)
      have "sc_cancel s name \<noteq> Some (rt_id u)" using sched_invD(8)[OF i] u(1) n by blast
      then show "sc_timers ?s (rt_name t) = None \<and> sc_cancel ?s (rt_name t) = Some (rt_id t) \<and>
         \<not> rt_cancelled t \<and> sc_entries ?s (rt_name t) = Some (rt_entry t)"
        using sched_invD(4)[OF i u(1) cu] n u by (simp add: remove_refresh_server_def)
    qed
    show "\<forall>n k. sc_cancel ?s n = Some k \<longrightarrow>
         k < sc_next_id ?s \<and> (\<forall>t \<in> set (sc_in_flight ?s). rt_id t = k \<longrightarrow> rt_name t = n)"
    proof (intro allI impI conjI ballI)
      fix n k assume c: "sc_cancel ?s n = Some k"
      then have c': "sc_cancel s n = Some k" by (simp add: remove_refresh_server_def split: if_splits)
      show "k < sc_next_id ?s" using sched_invD(8)[OF i c'] by (simp add: remove_refresh_server_def)
      fix t assume "t \<in> set (sc_in_flight ?s)" "rt_id t = k"
      then show "rt_name t = n" using tasks sched_invD(8)[OF i c'] by fastforce
    qed
  qed (use sched_invD(5-7)[OF i] in \<open>auto simp: remove_refresh_server_def\<close>)
qed

lemma timer_inv [inv_intros]:
  assumes i: "sched_inv s" and d: "sc_timers s name = Some due"
  shows "sched_inv (handle_timer name s)"
proof -
  obtain e where e: "sc_entries s name = Some e" using sched_invD(5)[OF i, of name] d by auto
  obtain g where g: "sc_generations s name = Some g" using sched_invD(7)[OF i, of name] e by auto
  let ?t = "\<lparr>rt_id = sc_next_id s, rt_name = name, rt_generation = g, rt_entry = e, rt_cancelled = False\<rparr>"
  have s': "handle_timer name s = s\<lparr>sc_timers := (sc_timers s)(name := None),
      sc_cancel := (sc_cancel s)(name \<mapsto> sc_next_id s), sc_in_flight := sc_in_flight s @ [?t],
      sc_next_id := sc_next_id s + 1\<rparr>"
    using e g by (simp add: handle_timer_def Let_def generation_of_def)
  have other: "rt_name t \<noteq> name \<or> \<not> current s t" if "t \<in> set (sc_in_flight s)" for t
    using sched_invD(4)[OF i that] d by auto
  have nc: "sc_cancel s n \<noteq> Some (sc_next_id s)" for n
    using sched_invD(8)[OF i, of n "sc_next_id s"] by auto
  have cur: "current (handle_timer name s) t = current s t" for t
    unfolding s' by (simp add: current_def)
  show ?thesis
    unfolding sched_inv_def cur
    using sched_invD[OF i] e g other nc
    by (auto simp: s' less_Suc_eq dest: sched_invD(2)[OF i])
qed

text \<open>Joining a task: it leaves, and only a current task's result is applied.\<close>

definition dropped :: "refresh_task \<Rightarrow> scheduler \<Rightarrow> scheduler" where
  "dropped t s = s\<lparr>sc_in_flight := filter (\<lambda>u. rt_id u \<noteq> rt_id t) (sc_in_flight s)\<rparr>"

lemma dropped_inv:
  assumes i: "sched_inv s"
  shows "sched_inv (dropped t s)"
  using sched_invD[OF i]
  by (auto simp: sched_inv_def dropped_def current_def distinct_map_filter)

lemma clear_cancel_inv:
  assumes i: "sched_inv s" and no: "\<forall>u \<in> set (sc_in_flight s). current s u \<longrightarrow> rt_name u \<noteq> n"
  shows "sched_inv (s\<lparr>sc_cancel := (sc_cancel s)(n := None)\<rparr>)"
  using sched_invD[OF i] no by (auto simp: sched_inv_def current_def)

lemma joined_stale:
  assumes "\<not> current s t"
  shows "handle_joined now t (Finished r) s =
    (if sc_generations s (rt_name t) = Some (rt_generation t)
     then (dropped t s)\<lparr>sc_cancel := (sc_cancel s)(rt_name t := None)\<rparr> else dropped t s) \<or>
    (sc_generations s (rt_name t) = None \<and> rt_generation t = 0)"
  using assms by (auto simp: handle_joined_def dropped_def current_def Let_def generation_of_def split: option.splits)

lemma joined_current:
  assumes "current s t"
  shows "handle_joined now t (Finished r) s =
    apply_refresh_result now (rt_name t) r ((dropped t s)\<lparr>sc_cancel := (sc_cancel s)(rt_name t := None)\<rparr>)"
  using assms by (auto simp: handle_joined_def dropped_def current_def Let_def generation_of_def)

lemma apply_result_inv:
  assumes i: "sched_inv s" and e: "sc_entries s n \<noteq> None"
    and no: "\<forall>u \<in> set (sc_in_flight s). current s u \<longrightarrow> rt_name u \<noteq> n"
  shows "sched_inv (apply_refresh_result now n r s)"
proof -
  let ?s = "apply_refresh_result now n r s"
  have same: "sc_in_flight ?s = sc_in_flight s \<and> sc_entries ?s = sc_entries s \<and> sc_cancel ?s = sc_cancel s \<and>
      sc_generations ?s = sc_generations s \<and> sc_next_id ?s = sc_next_id s \<and>
      (\<forall>m. m \<noteq> n \<longrightarrow> sc_timers ?s m = sc_timers s m \<and> sc_retries ?s m = sc_retries s m) \<and>
      (\<forall>m. sc_tokens s m \<noteq> None \<longrightarrow> sc_tokens ?s m \<noteq> None) \<and>
      (\<forall>m. sc_backends s m \<noteq> None \<longrightarrow> sc_backends ?s m \<noteq> None)"
    by (auto simp: apply_refresh_result_def Let_def
        split: sum.splits reconnect_error.splits prod.splits option.splits)
  then have cur: "current ?s u = current s u" for u by (simp add: current_def)
  show ?thesis
    unfolding sched_inv_def cur
    using sched_invD[OF i] e no same by (intro conjI allI ballI impI; metis)
qed

lemma dropped_no_current:
  assumes i: "sched_inv s" and t: "t \<in> set (sc_in_flight s)" and c: "current s t"
    and u: "u \<in> set (sc_in_flight (dropped t s))" "current s u"
  shows "rt_name u \<noteq> rt_name t"
proof
  assume "rt_name u = rt_name t"
  then have "u = t" using current_unique[OF i _ t] u c by (simp add: dropped_def)
  then show False using u(1) by (simp add: dropped_def)
qed

lemma joined_inv [inv_intros]:
  assumes i: "sched_inv s" and t: "t \<in> set (sc_in_flight s)"
  shows "sched_inv (handle_joined now t outcome s)"
proof (cases outcome)
  case Panicked
  then show ?thesis using dropped_inv[OF i, of t] by (simp add: handle_joined_def dropped_def)
next
  case (Finished r)
  have d: "sched_inv (dropped t s)" by (rule dropped_inv[OF i])
  obtain g where g: "sc_generations s (rt_name t) = Some g" using sched_invD(3)[OF i t] by auto
  have same: "current (dropped t s) u = current s u" for u by (simp add: dropped_def current_def)
  show ?thesis
  proof (cases "current s t")
    case True
    let ?s = "(dropped t s)\<lparr>sc_cancel := (sc_cancel (dropped t s))(rt_name t := None)\<rparr>"
    have no: "\<forall>u \<in> set (sc_in_flight (dropped t s)). current (dropped t s) u \<longrightarrow> rt_name u \<noteq> rt_name t"
      using dropped_no_current[OF i t True] same by blast
    have "sched_inv ?s" by (rule clear_cancel_inv[OF d no])
    moreover have "sc_entries ?s (rt_name t) \<noteq> None" using True by (simp add: current_def dropped_def)
    ultimately have "sched_inv (apply_refresh_result now (rt_name t) r ?s)"
      by (rule apply_result_inv) (use no in \<open>simp add: current_def\<close>)
    then show ?thesis using joined_current[OF True] Finished by (simp add: dropped_def)
  next
    case False
    have e: "sc_entries s (rt_name t) = None" if "sc_generations s (rt_name t) = Some (rt_generation t)"
      using False that by (simp add: current_def)
    have "sched_inv ((dropped t s)\<lparr>sc_cancel := (sc_cancel s)(rt_name t := None)\<rparr>)"
      if "sc_generations s (rt_name t) = Some (rt_generation t)"
    proof -
      have "\<forall>u \<in> set (sc_in_flight (dropped t s)). current (dropped t s) u \<longrightarrow> rt_name u \<noteq> rt_name t"
        using e[OF that] by (auto simp: current_def dropped_def)
      from clear_cancel_inv[OF d this] show ?thesis by (simp add: dropped_def)
    qed
    then show ?thesis using joined_stale[OF False, of now r] g d Finished by (auto split: if_splits)
  qed
qed

lemma backend_inv [inv_intros]:
  "sched_inv s \<Longrightarrow> sched_inv (s\<lparr>sc_backends := (sc_backends s)(n \<mapsto> status)\<rparr>)"
  by (auto simp: sched_inv_def current_def)

lemma sched_step_inv: "sched_step now s ev s' \<Longrightarrow> sched_inv s \<Longrightarrow> sched_inv s'"
  by (induction rule: sched_step.induct) (auto intro: inv_intros)

lemma sched_run_inv: "sched_run s evs s' \<Longrightarrow> sched_inv s \<Longrightarrow> sched_inv s'"
  by (induction rule: sched_run.induct) (auto intro: sched_step_inv)

section \<open>No tracked server is forgotten\<close>

definition waiting :: "scheduler \<Rightarrow> string \<Rightarrow> bool" where
  "waiting s n = (sc_timers s n \<noteq> None \<or> (\<exists>t \<in> set (sc_in_flight s). rt_name t = n \<and> current s t))"

text \<open>A refresh that is not tried again: it failed permanently, or its task panicked.\<close>

definition gives_up :: "task_outcome \<Rightarrow> bool" where
  "gives_up out = (out = Panicked \<or> (\<exists>d. out = Finished (Err (RefreshFailed (PermanentFailure d)))))"

definition gave_up :: "scheduler \<Rightarrow> string \<Rightarrow> sched_event \<Rightarrow> bool" where
  "gave_up s n ev = (\<exists>t out. ev = EvJoined t out \<and> rt_name t = n \<and> current s t \<and> gives_up out)"

text \<open>Read off the events alone: the number of times \<open>n\<close> was registered, and whether a refresh of the last
  registration was given up.\<close>

fun given_up_step :: "string \<Rightarrow> sched_event \<Rightarrow> nat \<times> bool \<Rightarrow> nat \<times> bool" where
  "given_up_step n (EvNewEntry m st tok b) (g, x) = (if m = n then (g + 1, False) else (g, x))"
| "given_up_step n (EvJoined t out) (g, x) = (g, x \<or> rt_name t = n \<and> rt_generation t = g \<and> gives_up out)"
| "given_up_step n ev (g, x) = (g, x)"

definition given_up :: "string \<Rightarrow> sched_event list \<Rightarrow> bool" where
  "given_up n evs = snd (fold (given_up_step n) evs (0, False))"

lemma waiting_keeps_tasks:
  assumes "waiting s n" and "sc_timers s n = sc_timers s' n" and "sc_generations s n = sc_generations s' n"
    and "sc_entries s n = sc_entries s' n"
    and "\<And>u. u \<in> set (sc_in_flight s) \<Longrightarrow> rt_name u = n \<Longrightarrow> current s u \<Longrightarrow>
      \<exists>t \<in> set (sc_in_flight s'). rt_name t = n \<and> rt_generation t = rt_generation u"
  shows "waiting s' n"
  using assms unfolding waiting_def current_def by (metis (no_types, lifting))

lemma step_waiting:
  assumes st: "sched_step now s ev s'" and i: "sched_inv s"
    and w: "sc_entries s n \<noteq> None \<longrightarrow> waiting s n" and e: "sc_entries s' n \<noteq> None"
  shows "waiting s' n \<or> gave_up s n ev"
  using st
proof cases
  case (step_new name st' tok backend)
  show ?thesis
  proof (cases "n = name")
    case True
    then show ?thesis using step_new by (simp add: waiting_def handle_new_entry_def)
  next
    case False
    then have "waiting s n" using w e step_new by (simp add: handle_new_entry_def)
    then have "waiting s' n"
      by (rule waiting_keeps_tasks) (use False step_new cancel_task_mem in \<open>force simp: handle_new_entry_def\<close>)+
    then show ?thesis ..
  qed
next
  case (step_remove name)
  then have "n \<noteq> name" using e by (auto simp: remove_refresh_server_def)
  then have "waiting s n" using w e step_remove by (simp add: remove_refresh_server_def)
  then have "waiting s' n"
    by (rule waiting_keeps_tasks)
       (use \<open>n \<noteq> name\<close> step_remove cancel_task_mem in \<open>force simp: remove_refresh_server_def\<close>)+
  then show ?thesis ..
next
  case (step_timer name due)
  have en: "sc_entries s name \<noteq> None" using sched_invD(5)[OF i, of name] step_timer by auto
  obtain en' where en': "sc_entries s name = Some en'" using en by auto
  obtain g where g: "sc_generations s name = Some g" using sched_invD(7)[OF i, of name] en by auto
  show ?thesis
  proof (cases "n = name")
    case True
    then show ?thesis using step_timer en' g
      by (auto simp: waiting_def handle_timer_def Let_def current_def generation_of_def)
  next
    case False
    then have "waiting s n" using w e step_timer en' by (simp add: handle_timer_def Let_def)
    then have "waiting s' n"
      by (rule waiting_keeps_tasks) (use False step_timer en' in \<open>force simp: handle_timer_def Let_def\<close>)+
    then show ?thesis ..
  qed
next
  case (step_joined t outcome)
  show ?thesis
  proof (cases outcome)
    case Panicked
    show ?thesis
    proof (cases "rt_name t = n \<and> current s t")
      case True
      then show ?thesis using Panicked step_joined by (auto simp: gave_up_def gives_up_def)
    next
      case False
      have "waiting s n" using w e step_joined Panicked by (simp add: handle_joined_def)
      then have "waiting s' n"
      proof (rule waiting_keeps_tasks)
        fix u assume u: "u \<in> set (sc_in_flight s)" "rt_name u = n" "current s u"
        then have "rt_id u \<noteq> rt_id t"
          using False distinct_key_unique[OF sched_invD(1)[OF i] u(1)] step_joined by auto
        then show "\<exists>t \<in> set (sc_in_flight s'). rt_name t = n \<and> rt_generation t = rt_generation u"
          using u step_joined Panicked by (auto simp: handle_joined_def)
      qed (use step_joined Panicked in \<open>simp_all add: handle_joined_def\<close>)
      then show ?thesis ..
    qed
  next
    case (Finished r)
    show ?thesis
    proof (cases "current s t \<and> rt_name t = n")
      case True
      have nc: "\<not> rt_cancelled t" using sched_invD(4)[OF i] step_joined True by simp
      have s': "s' = apply_refresh_result now n r ((dropped t s)\<lparr>sc_cancel := (sc_cancel s)(n := None)\<rparr>)"
        using joined_current[of s t] True step_joined Finished by simp
      have po: "outcome_possible t (Finished r)" using step_joined Finished by simp
      show ?thesis
      proof (cases r)
        case (Inr ok)
        then show ?thesis using s' by (cases ok) (simp add: waiting_def apply_refresh_result_def)
      next
        case (Inl err)
        then obtain f where f: "err = RefreshFailed f" using po nc
          by (cases err) (auto simp: outcome_possible_def)
        show ?thesis
        proof (cases f)
          case (TransientFailure d)
          then show ?thesis using s' Inl f by (simp add: waiting_def apply_refresh_result_def Let_def)
        next
          case (PermanentFailure d)
          then show ?thesis using step_joined Finished Inl f True by (auto simp: gave_up_def gives_up_def)
        qed
      qed
    next
      case False
      have g: "sc_generations s (rt_name t) \<noteq> None" using sched_invD(3)[OF i, of t] step_joined by auto
      have keep: "sc_timers s' n = sc_timers s n \<and> sc_entries s' n = sc_entries s n \<and>
          sc_generations s' n = sc_generations s n \<and> sc_in_flight s' = sc_in_flight (dropped t s)"
      proof (cases "current s t")
        case True
        then have "rt_name t \<noteq> n" using False by simp
        then show ?thesis using joined_current[OF True, of now r] step_joined Finished
          by (auto simp: apply_refresh_result_def dropped_def Let_def
              split: sum.splits reconnect_error.splits prod.splits option.splits)
      next
        case nc: False
        then show ?thesis using joined_stale[OF nc, of now r] g step_joined Finished
          by (auto simp: dropped_def split: if_splits)
      qed
      have "waiting s n" using w e keep by simp
      then have "waiting s' n"
      proof (rule waiting_keeps_tasks)
        fix u assume u: "u \<in> set (sc_in_flight s)" "rt_name u = n" "current s u"
        then have "rt_id u \<noteq> rt_id t"
          using False distinct_key_unique[OF sched_invD(1)[OF i] u(1), of t] step_joined by auto
        then show "\<exists>t \<in> set (sc_in_flight s'). rt_name t = n \<and> rt_generation t = rt_generation u"
          using u keep by (auto simp: dropped_def)
      qed (use keep in simp_all)
      then show ?thesis ..
    qed
  qed
next
  case (step_backend name status)
  then have "waiting s n" using w e by simp
  then show ?thesis using step_backend by (auto simp: waiting_def current_def)
qed

lemma not_waitingD:
  "\<not> waiting s n \<Longrightarrow> sc_timers s n = None"
  "\<not> waiting s n \<Longrightarrow> t \<in> set (sc_in_flight s) \<Longrightarrow> rt_name t = n \<Longrightarrow> \<not> current s t"
  by (auto simp: waiting_def)

text \<open>What was given up stays so until the server is registered again.\<close>

lemma given_up_stays:
  assumes st: "sched_step now s ev s'" and i: "sched_inv s" and w: "\<not> waiting s n" "sc_entries s n \<noteq> None"
    and ev: "\<And>st tok b. ev \<noteq> EvNewEntry n st tok b"
  shows "\<not> waiting s' n"
  using st
proof cases
  case (step_new name st' tok backend)
  then have "name \<noteq> n" using ev by auto
  then show ?thesis using w step_new cancel_task_mem
    by (auto simp: waiting_def handle_new_entry_def current_def cancel_task_def split: option.splits if_splits)
next
  case (step_remove name)
  then show ?thesis using w by (auto simp: waiting_def remove_refresh_server_def current_def cancel_task_def split: option.splits if_splits)
next
  case (step_timer name due)
  then have "name \<noteq> n" using w by (auto simp: waiting_def)
  then show ?thesis using w step_timer by (auto simp: waiting_def handle_timer_def Let_def current_def split: option.splits)
next
  case (step_joined t outcome)
  show ?thesis
  proof (cases "rt_name t = n")
    case True
    then have nc: "\<not> current s t" using not_waitingD(2)[OF w(1)] step_joined by simp
    show ?thesis
    proof (cases outcome)
      case Panicked
      then show ?thesis using w step_joined by (auto simp: waiting_def handle_joined_def current_def)
    next
      case (Finished r)
      have "sc_generations s (rt_name t) \<noteq> None" using sched_invD(3)[OF i, of t] step_joined by auto
      then have "s' = dropped t s" using joined_stale[OF nc, of now r] step_joined Finished True w(2) nc
        by (auto simp: current_def split: if_splits)
      then show ?thesis using w by (auto simp: waiting_def dropped_def current_def)
    qed
  next
    case False
    have same: "sc_timers s' n = sc_timers s n" "sc_entries s' n = sc_entries s n" "sc_generations s' = sc_generations s"
      "set (sc_in_flight s') \<subseteq> set (sc_in_flight s)"
      using False step_joined
      by (auto simp: handle_joined_def apply_refresh_result_def Let_def
          split: task_outcome.splits sum.splits reconnect_error.splits prod.splits option.splits if_splits)
    then show ?thesis using w by (auto simp: waiting_def current_def)
  qed
next
  case (step_backend name status)
  then show ?thesis using w by (auto simp: waiting_def current_def)
qed

lemma gave_up_ends:
  assumes st: "sched_step now s ev s'" and i: "sched_inv s" and g: "gave_up s n ev"
  shows "\<not> waiting s' n"
proof -
  obtain t out where t: "ev = EvJoined t out" "rt_name t = n" "current s t" "gives_up out" using g by (auto simp: gave_up_def)
  from st t(1) have tm: "t \<in> set (sc_in_flight s)" "s' = handle_joined now t out s" by (auto elim: sched_stepE)
  have none: "sc_timers s n = None" using sched_invD(4)[OF i tm(1) t(3)] t(2) by simp
  have only: "u = t" if "u \<in> set (sc_in_flight s)" "current s u" "rt_name u = n" for u
    using current_unique[OF i that(1) tm(1) that(2) t(3)] that(3) t(2) by simp
  consider "out = Panicked" | d where "out = Finished (Err (RefreshFailed (PermanentFailure d)))" using t(4) by (auto simp: gives_up_def)
  then show ?thesis
  proof cases
    case 1
    then show ?thesis using tm(2) none only by (auto simp: waiting_def handle_joined_def current_def)
  next
    case 2
    have "s' = apply_refresh_result now n (Err (RefreshFailed (PermanentFailure d))) ((dropped t s)\<lparr>sc_cancel := (sc_cancel s)(n := None)\<rparr>)"
      using joined_current[OF t(3)] tm(2) 2 t(2) by simp
    then show ?thesis using only by (auto simp: waiting_def apply_refresh_result_def dropped_def current_def)
  qed
qed

lemma apply_result_keeps:
  "sc_entries (apply_refresh_result now n r s) = sc_entries s"
  "sc_generations (apply_refresh_result now n r s) = sc_generations s"
  by (auto simp: apply_refresh_result_def Let_def split: sum.split reconnect_error.split prod.split)

lemma joined_keeps:
  "sc_entries (handle_joined now t out s) = sc_entries s"
  "sc_generations (handle_joined now t out s) = sc_generations s"
  by (cases out; simp add: handle_joined_def Let_def apply_result_keeps)+

lemma timer_keeps:
  "sc_entries (handle_timer n s) = sc_entries s"
  "sc_generations (handle_timer n s) = sc_generations s"
  by (cases "sc_entries s n"; simp add: handle_timer_def Let_def)+

lemma generation_step:
  assumes st: "sched_step now s ev s'"
  shows "generation_of s' n = (case ev of EvNewEntry m st tok b \<Rightarrow> if m = n then generation_of s n + 1 else generation_of s n
                               | _ \<Rightarrow> generation_of s n)"
  using st
  by cases (simp_all add: generation_of_def handle_new_entry_def remove_refresh_server_def joined_keeps timer_keeps)

lemma entries_step:
  assumes st: "sched_step now s ev s'" and "\<And>st tok b. ev \<noteq> EvNewEntry n st tok b" and "sc_entries s' n \<noteq> None"
  shows "sc_entries s n \<noteq> None"
  using st
  by cases (use assms(2,3) in \<open>auto simp: handle_new_entry_def remove_refresh_server_def joined_keeps timer_keeps split: if_splits\<close>)

lemma given_up_step_cases:
  assumes st: "sched_step now s ev s'" and i: "sched_inv s" and g: "generation_of s n = g"
    and w: "sc_entries s n \<noteq> None \<longrightarrow> waiting s n = (\<not> x)" and e: "sc_entries s' n \<noteq> None"
  shows "waiting s' n = (\<not> snd (given_up_step n ev (g, x)))"
proof (cases "\<exists>st tok b. ev = EvNewEntry n st tok b")
  case True
  then show ?thesis using step_waiting[OF st i _ e] st by (auto simp: waiting_def handle_new_entry_def elim: sched_stepE)
next
  case new: False
  then have e0: "sc_entries s n \<noteq> None" using entries_step[OF st _ e] by blast
  have cur: "current s t = (rt_generation t = g)" if "t \<in> set (sc_in_flight s)" "rt_name t = n" for t
    using that e0 g sched_invD(3)[OF i that(1)] by (auto simp: current_def generation_of_def)
  have ev: "snd (given_up_step n ev (g, x)) = (x \<or> gave_up s n ev)"
    using st new by cases (use cur in \<open>auto simp: gave_up_def\<close>)
  show ?thesis
  proof (cases "gave_up s n ev")
    case True
    then show ?thesis using gave_up_ends[OF st i True] ev by simp
  next
    case False
    show ?thesis
    proof (cases x)
      case True
      then show ?thesis using given_up_stays[OF st i _ e0] new w e0 ev by auto
    next
      case nx: False
      then show ?thesis using step_waiting[OF st i _ e] False w e0 ev by auto
    qed
  qed
qed

lemma run_given_up:
  "sched_run s0 evs s \<Longrightarrow> s0 = new_scheduler \<Longrightarrow>
     generation_of s n = fst (fold (given_up_step n) evs (0, False))
     \<and> (sc_entries s n \<noteq> None \<longrightarrow> waiting s n = (\<not> given_up n evs))"
proof (induction rule: sched_run.induct)
  case (run_nil s)
  then show ?case by (simp add: new_scheduler_def generation_of_def)
next
  case (run_snoc s0 evs s1 now ev s2)
  obtain g x where gx: "fold (given_up_step n) evs (0, False) = (g, x)" by fastforce
  have IH: "generation_of s1 n = g" "sc_entries s1 n \<noteq> None \<longrightarrow> waiting s1 n = (\<not> x)"
    using run_snoc.IH[OF run_snoc.prems] gx by (simp_all add: given_up_def)
  have i: "sched_inv s1" using sched_run_inv[OF run_snoc.hyps(1)] run_snoc.prems new_scheduler_inv by simp
  have "generation_of s2 n = fst (given_up_step n ev (g, x))"
    using generation_step[OF run_snoc.hyps(2), of n] IH(1) by (cases ev) auto
  then show ?case using given_up_step_cases[OF run_snoc.hyps(2) i IH] gx by (simp add: given_up_def)
qed

section \<open>The retry loop\<close>

definition transient_reply :: "token_reply \<Rightarrow> bool" where
  "transient_reply r =
     (case r of TokenHttp st b \<Rightarrow> is_transient_http st b | TokenError _ \<Rightarrow> True | _ \<Rightarrow> False)"

lemma refresh_loop_cases:
  assumes "refresh_loop reply cancel now entry n k le = res"
  shows "\<exists>j \<le> n. (\<forall>i < j. transient_reply (reply (k + i))) \<and>
    ((\<exists>r. j < n \<and> reply (k + j) = TokenOk r \<and> res = Ok (entry\<lparr>
         oa_refresh_token := (case tr_refresh_token r of None \<Rightarrow> oa_refresh_token entry | t \<Rightarrow> t),
         oa_expires_at := now (k + j) + secs (case tr_expires_in r of None \<Rightarrow> 3600 | Some e \<Rightarrow> e)\<rparr>, tr_access_token r)) \<or>
     (\<exists>st b. j < n \<and> reply (k + j) = TokenHttp st b \<and> \<not> is_transient_http st b \<and>
         res = Err (RefreshFailed (PermanentFailure (refresh_http_error_detail st b)))) \<or>
     ((j = n \<or> j < n \<and> (\<exists>b. reply (k + j) = TokenMalformed b)) \<and> (\<exists>e. res = Err (RefreshFailed (TransientFailure e)))) \<or>
     (j < n \<and> cancel (k + j) \<noteq> NotCancelled \<and> res = Err Cancelled))"
  using assms
proof (induction n arbitrary: k le)
  case 0
  then show ?case by (auto split: option.splits)
next
  case (Suc n)
  note now_case = exI[of _ "0::nat"]
  have next_case: ?case
    if t: "transient_reply (reply k)" and l: "refresh_loop reply cancel now entry n (Suc k) le' = res" for le'
  proof -
    from Suc.IH[OF l] obtain j where j: "j \<le> n" "\<forall>i < j. transient_reply (reply (Suc k + i))" and
      rest: "(\<exists>r. j < n \<and> reply (Suc k + j) = TokenOk r \<and> res = Ok (entry\<lparr>
         oa_refresh_token := (case tr_refresh_token r of None \<Rightarrow> oa_refresh_token entry | t \<Rightarrow> t),
         oa_expires_at := now (Suc k + j) + secs (case tr_expires_in r of None \<Rightarrow> 3600 | Some e \<Rightarrow> e)\<rparr>, tr_access_token r)) \<or>
       (\<exists>st b. j < n \<and> reply (Suc k + j) = TokenHttp st b \<and> \<not> is_transient_http st b \<and>
         res = Err (RefreshFailed (PermanentFailure (refresh_http_error_detail st b)))) \<or>
       ((j = n \<or> j < n \<and> (\<exists>b. reply (Suc k + j) = TokenMalformed b)) \<and> (\<exists>e. res = Err (RefreshFailed (TransientFailure e)))) \<or>
       (j < n \<and> cancel (Suc k + j) \<noteq> NotCancelled \<and> res = Err Cancelled)"
      by blast
    have "\<forall>i < Suc j. transient_reply (reply (k + i))"
    proof (intro allI impI)
      fix i assume "i < Suc j"
      then show "transient_reply (reply (k + i))" using t j(2) by (cases i) auto
    qed
    then show ?case using j(1) rest by (intro exI[of _ "Suc j"]) simp
  qed
  show ?case
  proof (cases "cancel k = BeforeRequest \<or> cancel k = DuringRequest")
    case True
    then show ?thesis using Suc.prems by (intro now_case) auto
  next
    case False
    show ?thesis
    proof (cases "reply k")
      case (TokenOk r)
      then show ?thesis using Suc.prems False by (intro now_case) auto
    next
      case (TokenMalformed e)
      then show ?thesis using Suc.prems False by (intro now_case) auto
    next
      case (TokenHttp st b)
      show ?thesis
      proof (cases "is_transient_http st b \<and> \<not> (n \<noteq> 0 \<and> cancel k = DuringBackoff)")
        case True
        then show ?thesis using Suc.prems False TokenHttp by (intro next_case) (auto simp: transient_reply_def)
      next
        case no: False
        then show ?thesis using Suc.prems False TokenHttp by (intro now_case) (auto split: if_splits)
      qed
    next
      case (TokenError e)
      show ?thesis
      proof (cases "n \<noteq> 0 \<and> cancel k = DuringBackoff")
        case True
        then show ?thesis using Suc.prems False TokenError by (intro now_case) auto
      next
        case no: False
        then show ?thesis using Suc.prems False TokenError by (intro next_case) (auto simp: transient_reply_def)
      qed
    qed
  qed
qed

section \<open>Reconnects\<close>

datatype reconnect_op = RStart string | RCancel string | RCancelAll

fun reconnect_step :: "reconnect_op \<Rightarrow> reconnect_manager \<Rightarrow> reconnect_manager" where
  "reconnect_step (RStart n) m = start_reconnect n m"
| "reconnect_step (RCancel n) m = cancel_reconnect n m"
| "reconnect_step RCancelAll m = cancel_all_reconnects m"

definition rm_inv :: "reconnect_manager \<Rightarrow> bool" where
  "rm_inv m =
     ((\<forall>c n. (c, n) \<in> set (rm_started m) \<longrightarrow> c < length (rm_started m) \<and>
         (c \<notin> set (rm_cancelled m) \<longrightarrow> rm_in_flight m n = Some c)) \<and>
      (\<forall>c \<in> set (rm_cancelled m). c < length (rm_started m)) \<and>
      (\<forall>n c. rm_in_flight m n = Some c \<longrightarrow> (c, n) \<in> set (rm_started m)))"

definition new_manager :: reconnect_manager where
  "new_manager = \<lparr>rm_in_flight = Map.empty, rm_cancelled = [], rm_started = []\<rparr>"

lemma rm_invD:
  assumes "rm_inv m"
  shows "(c, n) \<in> set (rm_started m) \<Longrightarrow> c < length (rm_started m)"
    and "(c, n) \<in> set (rm_started m) \<Longrightarrow> c \<notin> set (rm_cancelled m) \<Longrightarrow> rm_in_flight m n = Some c"
    and "c \<in> set (rm_cancelled m) \<Longrightarrow> c < length (rm_started m)"
    and "rm_in_flight m n = Some c \<Longrightarrow> (c, n) \<in> set (rm_started m)"
  using assms unfolding rm_inv_def by blast+

lemma rm_invI:
  assumes "\<And>c n. (c, n) \<in> set (rm_started m) \<Longrightarrow> c < length (rm_started m)"
    and "\<And>c n. (c, n) \<in> set (rm_started m) \<Longrightarrow> c \<notin> set (rm_cancelled m) \<Longrightarrow> rm_in_flight m n = Some c"
    and "\<And>c. c \<in> set (rm_cancelled m) \<Longrightarrow> c < length (rm_started m)"
    and "\<And>c n. rm_in_flight m n = Some c \<Longrightarrow> (c, n) \<in> set (rm_started m)"
  shows "rm_inv m"
  using assms unfolding rm_inv_def by blast

lemma start_reconnect_inv:
  assumes i: "rm_inv m"
  shows "rm_inv (start_reconnect n m)"
proof (rule rm_invI)
  fix c k assume "(c, k) \<in> set (rm_started (start_reconnect n m))"
  then have "(c, k) \<in> set (rm_started m) \<or> c = length (rm_started m)"
    by (auto simp: start_reconnect_def Let_def)
  then show "c < length (rm_started (start_reconnect n m))"
    using rm_invD(1)[OF i, of c k] by (auto simp: start_reconnect_def Let_def)
next
  fix c k assume s: "(c, k) \<in> set (rm_started (start_reconnect n m))"
    and u: "c \<notin> set (rm_cancelled (start_reconnect n m))"
  from s consider "(c, k) \<in> set (rm_started m)" | "c = length (rm_started m)" "k = n"
    by (auto simp: start_reconnect_def Let_def)
  then show "rm_in_flight (start_reconnect n m) k = Some c"
  proof cases
    case 1
    have "c \<notin> set (rm_cancelled m)" using u by (cases "rm_in_flight m n") (simp_all add: start_reconnect_def Let_def)
    then have f: "rm_in_flight m k = Some c" using rm_invD(2)[OF i 1] by simp
    have "k \<noteq> n" using u f by (auto simp: start_reconnect_def Let_def)
    then show ?thesis using f by (simp add: start_reconnect_def Let_def)
  qed (simp add: start_reconnect_def Let_def)
next
  fix c assume c: "c \<in> set (rm_cancelled (start_reconnect n m))"
  have "c < length (rm_started m)"
  proof (cases "rm_in_flight m n")
    case None
    then show ?thesis using c rm_invD(3)[OF i, of c] by (simp add: start_reconnect_def Let_def)
  next
    case (Some d)
    then show ?thesis using c rm_invD(3)[OF i, of c] rm_invD(1)[OF i rm_invD(4)[OF i Some]]
      by (auto simp: start_reconnect_def Let_def)
  qed
  then show "c < length (rm_started (start_reconnect n m))" by (simp add: start_reconnect_def Let_def)
next
  fix c k assume "rm_in_flight (start_reconnect n m) k = Some c"
  then show "(c, k) \<in> set (rm_started (start_reconnect n m))"
    using rm_invD(4)[OF i, of k c] by (auto simp: start_reconnect_def Let_def split: if_splits)
qed

lemma cancel_reconnect_inv:
  assumes i: "rm_inv m"
  shows "rm_inv (cancel_reconnect n m)"
proof (cases "rm_in_flight m n")
  case None
  then show ?thesis using i by (simp add: cancel_reconnect_def)
next
  case (Some d)
  have e: "cancel_reconnect n m =
      m\<lparr>rm_in_flight := (rm_in_flight m)(n := None), rm_cancelled := d # rm_cancelled m\<rparr>"
    using Some by (simp add: cancel_reconnect_def)
  show ?thesis unfolding e
  proof (rule rm_invI, goal_cases)
    case (1 c k)
    then show ?case using rm_invD(1)[OF i, of c k] by simp
  next
    case (2 c k)
    then have f: "rm_in_flight m k = Some c" using rm_invD(2)[OF i, of c k] by simp
    moreover have "k \<noteq> n" using 2 f Some by auto
    ultimately show ?case by simp
  next
    case (3 c)
    then show ?case using rm_invD(3)[OF i, of c] rm_invD(1)[OF i rm_invD(4)[OF i Some]] by auto
  next
    case (4 c k)
    then show ?case using rm_invD(4)[OF i, of k c] by (auto split: if_splits)
  qed
qed

lemma cancel_all_inv:
  assumes i: "rm_inv m"
  shows "rm_inv (cancel_all_reconnects m)"
proof (rule rm_invI, goal_cases)
  case (1 c k)
  then show ?case using rm_invD(1)[OF i, of c k] by (simp add: cancel_all_reconnects_def)
next
  case (2 c k)
  then have s: "(c, k) \<in> set (rm_started m)" "c \<notin> set (rm_cancelled m)"
    by (simp_all add: cancel_all_reconnects_def)
  then have "rm_in_flight m k = Some c" using rm_invD(2)[OF i] by blast
  then have "c \<in> fst ` set (filter (\<lambda>(c, name). rm_in_flight m name = Some c) (rm_started m))"
    using s(1) by force
  then show ?case using 2(2) by (simp add: cancel_all_reconnects_def)
next
  case (3 c)
  then have "c \<in> set (rm_cancelled m) \<or> (\<exists>k. (c, k) \<in> set (rm_started m))"
    by (auto simp: cancel_all_reconnects_def)
  then show ?case using rm_invD(3)[OF i, of c] rm_invD(1)[OF i, of c] by (auto simp: cancel_all_reconnects_def)
next
  case (4 c k)
  then show ?case by (simp add: cancel_all_reconnects_def)
qed

lemma reconnect_step_inv: "rm_inv m \<Longrightarrow> rm_inv (reconnect_step op m)"
  by (cases op) (simp_all add: start_reconnect_inv cancel_reconnect_inv cancel_all_inv)

lemma reconnect_steps_inv: "rm_inv m \<Longrightarrow> rm_inv (fold reconnect_step ops m)"
  by (induction ops arbitrary: m) (simp_all add: reconnect_step_inv)

section \<open>Properties\<close>

text \<open>C6: In every run of the scheduler a tracked server has at most one refresh in flight that
  can still take effect; while it runs no timer is set for the server, it has not been
  cancelled, and it works on the entry the scheduler currently holds.\<close>

theorem one_refresh_per_server:
  assumes "sched_run new_scheduler evs s" and "t \<in> set (sc_in_flight s)" and "current s t"
  shows "sc_timers s (rt_name t) = None \<and> \<not> rt_cancelled t \<and>
    sc_entries s (rt_name t) = Some (rt_entry t) \<and>
    (\<forall>u \<in> set (sc_in_flight s). current s u \<and> rt_name u = rt_name t \<longrightarrow> u = t)"
  using sched_invD(4)[OF sched_run_inv[OF assms(1) new_scheduler_inv] assms(2,3)]
    current_unique[OF sched_run_inv[OF assms(1) new_scheduler_inv] _ assms(2) _ assms(3)] by blast

definition sample_oauth :: oauth_state where
  "sample_oauth = \<lparr>oa_refresh_token = Some ''r1'', oa_token_endpoint = ''t'', oa_client_id = ''c'',
     oa_client_secret = None, oa_expires_at = 7200000, oa_server_url = ''u'', oa_resource = ''u''\<rparr>"

definition sample_sched :: scheduler where
  "sample_sched = handle_timer ''srv'' (handle_new_entry 0 ''srv'' sample_oauth None Connected new_scheduler)"

lemma sample_sched_run: "sched_run new_scheduler [EvNewEntry ''srv'' sample_oauth None Connected, EvTimer ''srv''] sample_sched"
proof -
  let ?s = "handle_new_entry 0 ''srv'' sample_oauth None Connected new_scheduler"
  have a: "sched_run new_scheduler ([] @ [EvNewEntry ''srv'' sample_oauth None Connected]) ?s"
    by (rule run_snoc[OF run_nil step_new])
  have "sched_step 3600000 ?s (EvTimer ''srv'') (handle_timer ''srv'' ?s)"
    by (rule step_timer[of _ _ 3600000])
       (auto simp: handle_new_entry_def refresh_due_in_def sample_oauth_def REFRESH_MARGIN_MAX_def
          new_scheduler_def split: if_splits)
  from run_snoc[OF a this] show ?thesis by (simp add: sample_sched_def)
qed

lemma sample_sched_task:
  "sc_in_flight sample_sched = [\<lparr>rt_id = 0, rt_name = ''srv'', rt_generation = 1, rt_entry = sample_oauth,
     rt_cancelled = False\<rparr>]"
  "sc_generations sample_sched ''srv'' = Some 1" "sc_entries sample_sched ''srv'' = Some sample_oauth"
  by (simp_all add: sample_sched_def handle_timer_def handle_new_entry_def new_scheduler_def Let_def
      generation_of_def cancel_task_def)

theorem one_refresh_per_server_witness:
  "sc_timers sample_sched ''srv'' = None"
  using one_refresh_per_server[OF sample_sched_run, of "hd (sc_in_flight sample_sched)"]
  by (simp add: sample_sched_task current_def)

text \<open>The result of a refresh that was superseded by a new entry, or whose server was
  removed, changes nothing the scheduler knows about any server: tokens, timers, entries,
  retry counts, statuses and the persisted state stay.\<close>

theorem superseded_result_discarded:
  assumes "sched_run new_scheduler evs s" and "t \<in> set (sc_in_flight s)" and "\<not> current s t"
  shows "let s' = handle_joined now t outcome s in
    sc_tokens s' = sc_tokens s \<and> sc_timers s' = sc_timers s \<and> sc_entries s' = sc_entries s \<and>
    sc_retries s' = sc_retries s \<and> sc_backends s' = sc_backends s \<and> sc_persisted s' = sc_persisted s \<and>
    sc_generations s' = sc_generations s \<and> t \<notin> set (sc_in_flight s')"
proof (cases outcome)
  case Panicked
  then show ?thesis by (simp add: handle_joined_def Let_def)
next
  case (Finished r)
  have "sc_generations s (rt_name t) \<noteq> None"
    using sched_invD(3)[OF sched_run_inv[OF assms(1) new_scheduler_inv] assms(2)] by auto
  then show ?thesis
    using joined_stale[OF assms(3), of now r] Finished by (auto simp: Let_def dropped_def split: if_splits)
qed

theorem superseded_result_discarded_witness:
  "let s = remove_refresh_server ''srv'' sample_sched;
       s' = handle_joined 5 (hd (sc_in_flight s)) (Finished (Ok (sample_oauth, ''new''))) s
   in sc_timers s' = sc_timers s \<and> sc_persisted s' = sc_persisted s"
proof -
  let ?s = "remove_refresh_server ''srv'' sample_sched"
  have r: "sched_run new_scheduler ([EvNewEntry ''srv'' sample_oauth None Connected, EvTimer ''srv''] @ [EvRemove ''srv'']) ?s"
    by (rule run_snoc[OF sample_sched_run step_remove])
  have t: "hd (sc_in_flight ?s) \<in> set (sc_in_flight ?s)"
    by (simp add: remove_refresh_server_def sample_sched_task cancel_task_def split: option.split)
  have "\<not> current ?s (hd (sc_in_flight ?s))"
    by (simp add: current_def remove_refresh_server_def sample_sched_task cancel_task_def split: option.split)
  from superseded_result_discarded[OF r t this] show ?thesis by (simp add: Let_def)
qed

text \<open>C7: A tracked server is not forgotten.  In every run a tracked server has a timer or
  a refresh in flight for its present registration, unless a refresh of this registration failed permanently
  or its task panicked; in these two cases it has neither.  A result of an earlier registration, and a
  transient failure, never take the server off the schedule.\<close>

theorem tracked_server_not_forgotten:
  assumes "sched_run new_scheduler evs s" and "sc_entries s n \<noteq> None"
  shows "(sc_timers s n \<noteq> None \<or> (\<exists>t \<in> set (sc_in_flight s). rt_name t = n \<and> current s t)) \<longleftrightarrow> \<not> given_up n evs"
  using run_given_up[OF assms(1) refl, of n] assms(2) unfolding waiting_def by blast

theorem tracked_server_not_forgotten_witness:
  "(\<exists>due. sc_timers sample_sched ''srv'' = Some due) \<or>
   (\<exists>t \<in> set (sc_in_flight sample_sched). rt_name t = ''srv'' \<and> current sample_sched t)"
proof -
  have "sc_entries sample_sched ''srv'' \<noteq> None" by (simp add: sample_sched_task)
  from tracked_server_not_forgotten[OF sample_sched_run this] show ?thesis by (auto simp: given_up_def)
qed

text \<open>After a panic of its refresh a server is tracked and never refreshed again.\<close>

lemma panicked_refresh_is_not_retried:
  assumes "sched_run new_scheduler evs s" and "t \<in> set (sc_in_flight s)" and "current s t"
  shows "sc_entries (handle_joined now t Panicked s) (rt_name t) \<noteq> None
    \<and> \<not> waiting (handle_joined now t Panicked s) (rt_name t)"
proof
  have i: "sched_inv s" by (rule sched_run_inv[OF assms(1) new_scheduler_inv])
  show "sc_entries (handle_joined now t Panicked s) (rt_name t) \<noteq> None"
    using sched_invD(4)[OF i assms(2,3)] by (simp add: handle_joined_def)
  have "sched_step now s (EvJoined t Panicked) (handle_joined now t Panicked s)"
    by (rule step_joined) (simp_all add: assms(2) outcome_possible_def)
  then show "\<not> waiting (handle_joined now t Panicked s) (rt_name t)"
    by (rule gave_up_ends[OF _ i]) (simp add: gave_up_def gives_up_def assms(3))
qed

text \<open>A successful refresh stores the new token and the rotated refresh token, resets the
  retry count and sets a timer from the new expiry, but it keeps the registered entry: the
  refresh the timer starts presents the refresh token of the entry before, not the one the
  endpoint has just issued.\<close>

theorem next_refresh_uses_registered_entry:
  fixes now :: millis and new_state :: oauth_state and access :: string
  assumes "sched_run new_scheduler evs s" and "t \<in> set (sc_in_flight s)" and "current s t"
    and "sc_tokens s (rt_name t) \<noteq> None"
  defines "s' \<equiv> handle_joined now t (Finished (Ok (new_state, access))) s"
  shows "sc_tokens s' (rt_name t) = Some (Some access) \<and>
    sc_persisted s' (rt_name t) = Some (access, oa_refresh_token new_state, oa_expires_at new_state) \<and>
    sc_retries s' (rt_name t) = None \<and>
    sc_timers s' (rt_name t) = Some (now + refresh_due_in now new_state) \<and>
    rt_entry (last (sc_in_flight (handle_timer (rt_name t) s'))) = rt_entry t"
proof -
  have e: "sc_entries s (rt_name t) = Some (rt_entry t)"
    using sched_invD(4)[OF sched_run_inv[OF assms(1) new_scheduler_inv] assms(2,3)] by simp
  have s': "s' = apply_refresh_result now (rt_name t) (Ok (new_state, access))
      ((dropped t s)\<lparr>sc_cancel := (sc_cancel s)(rt_name t := None)\<rparr>)"
    unfolding s'_def by (rule joined_current[OF assms(3)])
  have "sc_entries s' (rt_name t) = Some (rt_entry t)"
    using e by (simp add: s' apply_refresh_result_def dropped_def)
  then have "rt_entry (last (sc_in_flight (handle_timer (rt_name t) s'))) = rt_entry t"
    by (simp add: handle_timer_def Let_def)
  then show ?thesis using assms(4) by (auto simp: s' apply_refresh_result_def dropped_def)
qed

theorem next_refresh_uses_registered_entry_witness:
  "let s' = handle_joined 9 (hd (sc_in_flight sample_sched))
        (Finished (Ok (sample_oauth\<lparr>oa_refresh_token := Some ''r2''\<rparr>, ''acc''))) sample_sched
   in oa_refresh_token (rt_entry (last (sc_in_flight (handle_timer ''srv'' s')))) = Some ''r1''"
proof -
  have tok: "sc_tokens sample_sched ''srv'' \<noteq> None"
    by (simp add: sample_sched_def handle_timer_def handle_new_entry_def new_scheduler_def Let_def)
  show ?thesis
    using next_refresh_uses_registered_entry[OF sample_sched_run, of "hd (sc_in_flight sample_sched)" 9
        "sample_oauth\<lparr>oa_refresh_token := Some ''r2''\<rparr>" "''acc''"] tok
    by (simp add: sample_sched_task current_def Let_def sample_oauth_def)
qed

text \<open>A refresh makes at most three requests, goes on only after transient replies, keeps the
  refresh token when the endpoint issues none, and fails permanently only without a refresh
  token or on an HTTP status that is not transient; a transient failure means that all three requests
  failed that way or that one answered with a body that is not a token response.\<close>

theorem refresh_outcome:
  assumes "do_refresh_cancellable reply cancel now entry = res"
  shows "case res of
      Ok (st, access) \<Rightarrow> \<exists>k < 3. \<exists>r. reply k = TokenOk r \<and> (\<forall>i < k. transient_reply (reply i)) \<and>
        access = tr_access_token r \<and> oa_refresh_token st \<noteq> None \<and>
        (tr_refresh_token r = None \<longrightarrow> oa_refresh_token st = oa_refresh_token entry) \<and>
        oa_client_id st = oa_client_id entry \<and> oa_resource st = oa_resource entry
    | Err (RefreshFailed (PermanentFailure d)) \<Rightarrow> oa_refresh_token entry = None \<or>
        (\<exists>k < 3. \<exists>st b. reply k = TokenHttp st b \<and> \<not> is_transient_http st b \<and> (\<forall>i < k. transient_reply (reply i)))
    | Err (RefreshFailed (TransientFailure d)) \<Rightarrow> oa_refresh_token entry \<noteq> None \<and>
        ((\<forall>i < 3. transient_reply (reply i)) \<or> (\<exists>k < 3. \<exists>b. reply k = TokenMalformed b))
    | Err Cancelled \<Rightarrow> \<exists>k < 3. cancel k \<noteq> NotCancelled
    | Err _ \<Rightarrow> False"
proof (cases "oa_refresh_token entry")
  case None
  then show ?thesis using assms by (auto simp: do_refresh_cancellable_def)
next
  case (Some rt)
  then have l: "refresh_loop reply cancel now entry 3 0 None = res"
    using assms by (simp add: do_refresh_cancellable_def MAX_RETRIES_def)
  from refresh_loop_cases[OF l] obtain j where j: "\<forall>i < j. transient_reply (reply i)" and
    c: "(\<exists>r. j < 3 \<and> reply j = TokenOk r \<and> res = Ok (entry\<lparr>
         oa_refresh_token := (case tr_refresh_token r of None \<Rightarrow> oa_refresh_token entry | t \<Rightarrow> t),
         oa_expires_at := now j + secs (case tr_expires_in r of None \<Rightarrow> 3600 | Some e \<Rightarrow> e)\<rparr>, tr_access_token r)) \<or>
     (\<exists>st b. j < 3 \<and> reply j = TokenHttp st b \<and> \<not> is_transient_http st b \<and>
         res = Err (RefreshFailed (PermanentFailure (refresh_http_error_detail st b)))) \<or>
     ((j = 3 \<or> j < 3 \<and> (\<exists>b. reply j = TokenMalformed b)) \<and> (\<exists>e. res = Err (RefreshFailed (TransientFailure e)))) \<or>
     (j < 3 \<and> cancel j \<noteq> NotCancelled \<and> res = Err Cancelled)"
    unfolding add_0 by (elim exE conjE) (rule that)
  from c show ?thesis
  proof (elim disjE exE conjE)
    fix r assume r: "j < 3" "reply j = TokenOk r" "res = Ok (entry\<lparr>
         oa_refresh_token := (case tr_refresh_token r of None \<Rightarrow> oa_refresh_token entry | t \<Rightarrow> t),
         oa_expires_at := now j + secs (case tr_expires_in r of None \<Rightarrow> 3600 | Some e \<Rightarrow> e)\<rparr>, tr_access_token r)"
    show ?thesis unfolding r(3) sum.case prod.case
      by (intro exI[of _ j] exI[of _ r] conjI) (use r(1,2) j Some in \<open>auto split: option.splits\<close>)
  next
    fix st b assume r: "j < 3" "reply j = TokenHttp st b" "\<not> is_transient_http st b"
      "res = Err (RefreshFailed (PermanentFailure (refresh_http_error_detail st b)))"
    show ?thesis unfolding r(4) sum.case reconnect_error.case refresh_failure.case
      using r(1,2,3) j by blast
  next
    fix e assume r: "j = 3" "res = Err (RefreshFailed (TransientFailure e))"
    show ?thesis unfolding r(2) sum.case reconnect_error.case refresh_failure.case
      using j Some r(1) by auto
  next
    fix e b assume r: "j < 3" "reply j = TokenMalformed b" "res = Err (RefreshFailed (TransientFailure e))"
    show ?thesis unfolding r(3) sum.case reconnect_error.case refresh_failure.case
      using Some r(1,2) by auto
  next
    assume r: "j < 3" "cancel j \<noteq> NotCancelled" "res = Err Cancelled"
    show ?thesis unfolding r(3) sum.case reconnect_error.case using r(1,2) by blast
  qed
qed

definition sample_reply :: "nat \<Rightarrow> token_reply" where
  "sample_reply k = (if k = 0 then TokenError ''x'' else TokenOk \<lparr>tr_access_token = ''a'',
     tr_refresh_token = None, tr_expires_in = None\<rparr>)"

theorem refresh_outcome_witness:
  "\<exists>k < 3. \<exists>r. sample_reply k = TokenOk r \<and> (\<forall>i < k. transient_reply (sample_reply i)) \<and> ''a'' = tr_access_token r"
proof -
  have "do_refresh_cancellable sample_reply (\<lambda>_. NotCancelled) (\<lambda>_. 0) sample_oauth =
      Ok (sample_oauth\<lparr>oa_expires_at := 3600000\<rparr>, ''a'')"
    by (simp add: do_refresh_cancellable_def MAX_RETRIES_def sample_oauth_def numeral_3_eq_3 sample_reply_def)
  from refresh_outcome[OF this] show ?thesis by auto
qed

text \<open>A refresh is due before the token expires, never earlier than an hour before it, and
  never before half of the remaining lifetime, so the scheduler cannot spin on short-lived
  tokens; transient retries wait between one minute and half an hour, never less than the
  retry before.\<close>

theorem refresh_timing:
  assumes "now \<le> oa_expires_at e" and "a \<le> b"
  shows "0 \<le> refresh_due_in now e \<and> refresh_due_in now e \<le> oa_expires_at e - now \<and>
    oa_expires_at e - now \<le> refresh_due_in now e + REFRESH_MARGIN_MAX \<and>
    oa_expires_at e - now \<le> 2 * refresh_due_in now e \<and>
    60 \<le> transient_backoff_secs a \<and> transient_backoff_secs a \<le> transient_backoff_secs b \<and>
    transient_backoff_secs b \<le> 1800"
proof (intro conjI)
  show "60 \<le> transient_backoff_secs a"
    using transient.delay_first[of "a - 1"] by (simp add: transient_backoff_delay TRANSIENT_BACKOFF_SECS_def)
  show "transient_backoff_secs a \<le> transient_backoff_secs b"
    unfolding transient_backoff_delay using assms(2) by (intro transient.delay_mono) simp
  show "transient_backoff_secs b \<le> 1800"
    using transient.delay_le_cap by (simp add: transient_backoff_delay TRANSIENT_BACKOFF_CAP_SECS_def)
qed (use assms(1) in \<open>auto simp: refresh_due_in_def Let_def REFRESH_MARGIN_MAX_def\<close>)

theorem refresh_timing_witness:
  "0 \<le> refresh_due_in 0 sample_oauth \<and> transient_backoff_secs 1 \<le> transient_backoff_secs 9"
  using refresh_timing[of 0 sample_oauth 1 9] by (simp add: sample_oauth_def)

text \<open>However reconnects are started and cancelled, at most one reconnect of a server is
  running uncancelled, and it is the last one started.\<close>

theorem one_reconnect_per_server:
  assumes "(c, n) \<in> set (rm_started (fold reconnect_step ops new_manager))"
    and "c \<notin> set (rm_cancelled (fold reconnect_step ops new_manager))"
  shows "rm_in_flight (fold reconnect_step ops new_manager) n = Some c \<and>
    (\<forall>d. (d, n) \<in> set (rm_started (fold reconnect_step ops new_manager)) \<and>
       d \<notin> set (rm_cancelled (fold reconnect_step ops new_manager)) \<longrightarrow> d = c)"
proof -
  have "rm_inv (fold reconnect_step ops new_manager)"
    by (rule reconnect_steps_inv) (simp add: rm_inv_def new_manager_def)
  from rm_invD(2)[OF this] show ?thesis using assms by (metis option.inject)
qed

theorem one_reconnect_per_server_witness:
  "rm_in_flight (fold reconnect_step [RStart ''s'', RStart ''s''] new_manager) ''s'' = Some 1"
  using one_reconnect_per_server[of 1 "''s''" "[RStart ''s'', RStart ''s'']"]
  by (simp add: start_reconnect_def new_manager_def Let_def)

end
