(* ===== verification/Mcp_Net.thy ===== *)
theory Mcp_Net
  imports Prelude "HOL-Library.Word"
begin

text \<open>
  The outbound network policy of the MCP crate: \<^verbatim>\<open>right-mcp/src/ssrf.rs\<close> and the URL predicates
  of \<^verbatim>\<open>right-mcp/src/credentials.rs\<close>.  An address is its 32-bit or 128-bit word, as
  \<^verbatim>\<open>u32::from\<close> and \<^verbatim>\<open>u128::from\<close> read it.  The URL parser and the DNS lookup are library code
  and arguments.  The first lemmas turn a masked comparison into one of quotients, so that
  facts about address ranges become linear arithmetic.
\<close>

unbundle bit_operations_syntax

section \<open>Addresses\<close>

type_synonym ipv4 = "32 word"
type_synonym ipv6 = "128 word"

datatype ip_addr = V4 ipv4 | V6 ipv6

definition ipv4_new :: "nat \<Rightarrow> nat \<Rightarrow> nat \<Rightarrow> nat \<Rightarrow> ipv4" where
  "ipv4_new a b c d = of_nat (((a * 256 + b) * 256 + c) * 256 + d)"

text \<open>The first two 16-bit segments of an address whose other segments are zero.\<close>

definition ipv6_head :: "nat \<Rightarrow> nat \<Rightarrow> nat \<Rightarrow> ipv6" where
  "ipv6_head a b c = of_nat (((a * 65536 + b) * 65536 + c) * 2 ^ 80)"

definition to_ipv4_mapped :: "ipv6 \<Rightarrow> ipv4 option" where
  "to_ipv4_mapped a = (if drop_bit 32 a = 0xFFFF then Some (ucast a) else None)"

definition in_ipv4_cidr :: "ipv4 \<Rightarrow> ipv4 \<Rightarrow> nat \<Rightarrow> bool" where
  "in_ipv4_cidr ip base prefix_len =
     (let mask = push_bit (32 - prefix_len) (- 1) in ip AND mask = base AND mask)"

definition in_ipv6_cidr :: "ipv6 \<Rightarrow> ipv6 \<Rightarrow> nat \<Rightarrow> bool" where
  "in_ipv6_cidr ip base prefix_len =
     (let mask = push_bit (128 - prefix_len) (- 1) in ip AND mask = base AND mask)"

section \<open>Address classes\<close>

function is_user_private_lan :: "ip_addr \<Rightarrow> bool" where
  "is_user_private_lan (V4 n) =
     (drop_bit 24 n = 10 \<or> in_ipv4_cidr n (ipv4_new 172 16 0 0) 12 \<or>
      in_ipv4_cidr n (ipv4_new 192 168 0 0) 16 \<or> in_ipv4_cidr n (ipv4_new 100 64 0 0) 10)"
| "is_user_private_lan (V6 v6) =
     (case to_ipv4_mapped v6 of
        Some v4 \<Rightarrow> is_user_private_lan (V4 v4)
      | None \<Rightarrow> in_ipv6_cidr v6 (ipv6_head 0xFC00 0 0) 7)"
  by pat_completeness auto
termination by (relation "measure (\<lambda>ip. case ip of V4 _ \<Rightarrow> 0 | V6 _ \<Rightarrow> 1)") auto

function is_cloud_metadata :: "ip_addr \<Rightarrow> bool" where
  "is_cloud_metadata (V4 v4) = (v4 = ipv4_new 169 254 169 254 \<or> v4 = ipv4_new 100 100 100 200)"
| "is_cloud_metadata (V6 v6) =
     (case to_ipv4_mapped v6 of
        Some v4 \<Rightarrow> is_cloud_metadata (V4 v4)
      | None \<Rightarrow> v6 = ipv6_head 0xFD00 0xEC2 0 + 0x254)"
  by pat_completeness auto
termination by (relation "measure (\<lambda>ip. case ip of V4 _ \<Rightarrow> 0 | V6 _ \<Rightarrow> 1)") auto

definition ipv4_is_loopback :: "ipv4 \<Rightarrow> bool" where
  "ipv4_is_loopback v4 = (drop_bit 24 v4 = 127)"

definition is_loopback_addr :: "ip_addr \<Rightarrow> bool" where
  "is_loopback_addr ip =
     (case ip of
        V4 v4 \<Rightarrow> ipv4_is_loopback v4
      | V6 v6 \<Rightarrow> (case to_ipv4_mapped v6 of Some v4 \<Rightarrow> ipv4_is_loopback v4 | None \<Rightarrow> v6 = 1))"

definition is_public_ipv4 :: "ipv4 \<Rightarrow> bool" where
  "is_public_ipv4 ip =
     (\<not> (drop_bit 24 ip \<in> {0, 10, 127} \<or>
         in_ipv4_cidr ip (ipv4_new 100 64 0 0) 10 \<or>
         in_ipv4_cidr ip (ipv4_new 169 254 0 0) 16 \<or>
         in_ipv4_cidr ip (ipv4_new 172 16 0 0) 12 \<or>
         in_ipv4_cidr ip (ipv4_new 192 0 0 0) 24 \<or>
         in_ipv4_cidr ip (ipv4_new 192 0 2 0) 24 \<or>
         in_ipv4_cidr ip (ipv4_new 192 88 99 0) 24 \<or>
         in_ipv4_cidr ip (ipv4_new 192 168 0 0) 16 \<or>
         in_ipv4_cidr ip (ipv4_new 198 18 0 0) 15 \<or>
         in_ipv4_cidr ip (ipv4_new 198 51 100 0) 24 \<or>
         in_ipv4_cidr ip (ipv4_new 203 0 113 0) 24 \<or>
         in_ipv4_cidr ip (ipv4_new 224 0 0 0) 4 \<or>
         in_ipv4_cidr ip (ipv4_new 240 0 0 0) 4))"

definition is_public_ipv6 :: "ipv6 \<Rightarrow> bool" where
  "is_public_ipv6 ip =
     (case to_ipv4_mapped ip of
        Some v4 \<Rightarrow> is_public_ipv4 v4
      | None \<Rightarrow>
          \<not> (ip = 0 \<or> ip = 1 \<or>
             in_ipv6_cidr ip (ipv6_head 0x64 0xFF9B 0) 96 \<or>
             in_ipv6_cidr ip (ipv6_head 0x64 0xFF9B 1) 48 \<or>
             in_ipv6_cidr ip (ipv6_head 0x100 0 0) 64 \<or>
             in_ipv6_cidr ip (ipv6_head 0x2001 2 0) 48 \<or>
             in_ipv6_cidr ip (ipv6_head 0x2001 0xDB8 0) 32 \<or>
             in_ipv6_cidr ip (ipv6_head 0x2002 0 0) 16 \<or>
             in_ipv6_cidr ip (ipv6_head 0xFC00 0 0) 7 \<or>
             in_ipv6_cidr ip (ipv6_head 0xFE80 0 0) 10 \<or>
             in_ipv6_cidr ip (ipv6_head 0xFF00 0 0) 8))"

definition is_public_ip :: "ip_addr \<Rightarrow> bool" where
  "is_public_ip ip = (case ip of V4 v4 \<Rightarrow> is_public_ipv4 v4 | V6 v6 \<Rightarrow> is_public_ipv6 v6)"

section \<open>The policy\<close>

datatype network_policy = PublicOnly | AllowPrivate

definition ip_allowed :: "ip_addr \<Rightarrow> network_policy \<Rightarrow> bool" where
  "ip_allowed ip policy =
     (if is_cloud_metadata ip then False
      else case policy of
             PublicOnly \<Rightarrow> is_public_ip ip
           | AllowPrivate \<Rightarrow> is_public_ip ip \<or> is_user_private_lan ip \<or> is_loopback_addr ip)"

text \<open>The resolver: \<open>lookup\<close> is the system's answer; \<open>DnsRejected\<close> stands for the error that carries
  the public-DNS marker.\<close>

datatype resolve_error = LookupFailed string | DnsRejected string

definition resolve_host :: "network_policy \<Rightarrow> (string \<Rightarrow> (string, ip_addr list) result) \<Rightarrow> string \<Rightarrow>
    (resolve_error, ip_addr list) result" where
  "resolve_host policy lookup host =
     (case lookup host of
        Err e \<Rightarrow> Err (LookupFailed e)
      | Ok addrs \<Rightarrow>
          (let allowed = filter (\<lambda>a. ip_allowed a policy) addrs in
           if allowed = [] then Err (DnsRejected host) else Ok allowed))"

section \<open>URLs\<close>

text \<open>What the code reads of a parsed URL.\<close>

datatype url_host = Domain string | Ipv4 ipv4 | Ipv6 ipv6

record parsed_url =
  u_scheme :: string
  u_host :: "url_host option"
  u_host_str :: "string option"
  u_port :: "nat option"
  u_path :: string
  u_username :: string
  u_password :: "string option"
  u_query :: "string option"
  u_fragment :: "string option"

type_synonym url_parser = "string \<Rightarrow> parsed_url option"

definition is_localhost_domain :: "string \<Rightarrow> bool" where
  "is_localhost_domain domain =
     (map to_lower (case strip_suffix ''.'' domain of Some d \<Rightarrow> d | None \<Rightarrow> domain) = ''localhost'')"

definition is_allowed_http_url :: "url_parser \<Rightarrow> string \<Rightarrow> network_policy \<Rightarrow> bool" where
  "is_allowed_http_url parse input policy =
     (case parse input of
        None \<Rightarrow> False
      | Some u \<Rightarrow>
          u_scheme u \<in> {''http'', ''https''} \<and> u_host_str u \<noteq> None \<and> u_username u = [] \<and>
          u_password u = None \<and> u_fragment u = None \<and>
          (case u_host u of
             None \<Rightarrow> False
           | Some (Domain d) \<Rightarrow>
               (case policy of PublicOnly \<Rightarrow> \<not> is_localhost_domain d | AllowPrivate \<Rightarrow> True)
           | Some (Ipv4 ip) \<Rightarrow> ip_allowed (V4 ip) policy
           | Some (Ipv6 ip) \<Rightarrow> ip_allowed (V6 ip) policy))"

definition is_public_http_url :: "url_parser \<Rightarrow> string \<Rightarrow> bool" where
  "is_public_http_url parse input = is_allowed_http_url parse input PublicOnly"

definition is_loopback_host :: "url_host \<Rightarrow> bool" where
  "is_loopback_host host =
     (case host of
        Domain d \<Rightarrow> is_localhost_domain d
      | Ipv4 v4 \<Rightarrow> ipv4_is_loopback v4
      | Ipv6 v6 \<Rightarrow> (case to_ipv4_mapped v6 of Some v4 \<Rightarrow> ipv4_is_loopback v4 | None \<Rightarrow> False) \<or> v6 = 1)"

definition ipv4_is_link_local :: "ipv4 \<Rightarrow> bool" where
  "ipv4_is_link_local v4 = (drop_bit 16 v4 = 0xA9FE)"

definition ipv6_is_unicast_link_local :: "ipv6 \<Rightarrow> bool" where
  "ipv6_is_unicast_link_local v6 = (drop_bit 118 v6 = 0x3FA)"

definition is_private_or_link_local_ipv4 :: "ipv4 \<Rightarrow> bool" where
  "is_private_or_link_local_ipv4 ip = (ipv4_is_link_local ip \<or> is_user_private_lan (V4 ip))"

definition is_private_or_link_local_ipv6 :: "ipv6 \<Rightarrow> bool" where
  "is_private_or_link_local_ipv6 ip =
     (case to_ipv4_mapped ip of
        Some v4 \<Rightarrow> is_private_or_link_local_ipv4 v4
      | None \<Rightarrow> is_user_private_lan (V6 ip) \<or> ipv6_is_unicast_link_local ip)"

definition is_private_or_link_local_host :: "url_host \<Rightarrow> bool" where
  "is_private_or_link_local_host host =
     (case host of
        Domain _ \<Rightarrow> False
      | Ipv4 v4 \<Rightarrow> is_private_or_link_local_ipv4 v4
      | Ipv6 v6 \<Rightarrow> is_private_or_link_local_ipv6 v6)"

definition is_loopback_url :: "url_parser \<Rightarrow> string \<Rightarrow> bool" where
  "is_loopback_url parse url =
     (case parse url of
        None \<Rightarrow> False
      | Some u \<Rightarrow> (case u_host u of Some h \<Rightarrow> is_loopback_host h | None \<Rightarrow> False))"

definition is_public_url :: "url_parser \<Rightarrow> string \<Rightarrow> bool" where
  "is_public_url parse url =
     (case parse url of
        None \<Rightarrow> False
      | Some u \<Rightarrow>
          u_scheme u \<in> {''https'', ''http''} \<and>
          (case u_host u of
             Some h \<Rightarrow> \<not> is_loopback_host h \<and> \<not> is_private_or_link_local_host h
           | None \<Rightarrow> False))"

section \<open>Ranges as intervals of numbers\<close>

lemma masked_eq_drop_bit:
  fixes a b :: "'a::len word"
  shows "a AND push_bit k (- 1) = b AND push_bit k (- 1) \<longleftrightarrow> drop_bit k a = drop_bit k b"
proof
  assume h: "a AND push_bit k (- 1) = b AND push_bit k (- 1)"
  show "drop_bit k a = drop_bit k b"
  proof (rule bit_word_eqI)
    fix n assume "n < LENGTH('a)"
    have "bit (a AND push_bit k (- 1)) (k + n) = bit (b AND push_bit k (- 1)) (k + n)" using h by simp
    then show "bit (drop_bit k a) n = bit (drop_bit k b) n"
      by (cases "k + n < LENGTH('a)") (auto simp: bit_simps dest: bit_imp_le_length)
  qed
next
  assume h: "drop_bit k a = drop_bit k b"
  show "a AND push_bit k (- 1) = b AND push_bit k (- 1)"
  proof (rule bit_word_eqI)
    fix n assume "n < LENGTH('a)"
    have "bit (drop_bit k a) (n - k) = bit (drop_bit k b) (n - k)" using h by simp
    then show "bit (a AND push_bit k (- 1)) n = bit (b AND push_bit k (- 1)) n"
      by (auto simp: bit_simps)
  qed
qed

lemma unat_drop_bit:
  fixes a :: "'a::len word"
  shows "unat (drop_bit k a) = unat a div 2 ^ k"
  by (simp only: unat_drop_bit_eq drop_bit_eq_div [of k "unat a"])

lemma div_interval:
  fixes x d q :: nat
  assumes "0 < d"
  shows "x div d = q \<longleftrightarrow> q * d \<le> x \<and> x < q * d + d"
proof
  assume "x div d = q"
  then show "q * d \<le> x \<and> x < q * d + d"
    using assms dividend_less_times_div[of d x] times_div_less_eq_dividend[of d x] by (auto simp: mult.commute)
next
  assume "q * d \<le> x \<and> x < q * d + d"
  then show "x div d = q" using assms by (intro div_nat_eqI) (auto simp: mult.commute)
qed

lemma drop_bit_range:
  fixes a w :: "'a::len word"
  shows "drop_bit k a = w \<longleftrightarrow> unat w * 2 ^ k \<le> unat a \<and> unat a < unat w * 2 ^ k + 2 ^ k"
  by (simp only: word_unat_eq_iff unat_drop_bit div_interval zero_less_power zero_less_numeral)

lemma cidr_range:
  "in_ipv4_cidr ip4 base4 p \<longleftrightarrow> unat (drop_bit (32 - p) base4) * 2 ^ (32 - p) \<le> unat ip4 \<and>
     unat ip4 < unat (drop_bit (32 - p) base4) * 2 ^ (32 - p) + 2 ^ (32 - p)"
  "in_ipv6_cidr ip6 base6 p \<longleftrightarrow> unat (drop_bit (128 - p) base6) * 2 ^ (128 - p) \<le> unat ip6 \<and>
     unat ip6 < unat (drop_bit (128 - p) base6) * 2 ^ (128 - p) + 2 ^ (128 - p)"
  unfolding in_ipv4_cidr_def in_ipv6_cidr_def Let_def masked_eq_drop_bit drop_bit_range by (rule refl)+

lemma ipv4_new_div: "unat (drop_bit k (ipv4_new a b c d)) =
    (((a * 256 + b) * 256 + c) * 256 + d) mod 2 ^ 32 div 2 ^ k"
  by (simp only: unat_drop_bit ipv4_new_def unat_of_nat len_num1 len_bit0 mult_numeral_1_right) simp

lemma ipv6_head_div: "unat (drop_bit k (ipv6_head a b c)) =
    (((a * 65536 + b) * 65536 + c) * 2 ^ 80) mod 2 ^ 128 div 2 ^ k"
  by (simp only: unat_drop_bit ipv6_head_def unat_of_nat len_num1 len_bit0 mult_numeral_1_right) simp

lemmas range_simps = drop_bit_range cidr_range ipv4_new_div ipv6_head_div

section \<open>What the classes have in common\<close>

lemma link_local_v4:
  assumes "ipv4_is_link_local a"
  shows "\<not> is_user_private_lan (V4 a)" "\<not> is_public_ipv4 a" "\<not> ipv4_is_loopback a"
  using assms by (simp_all add: ipv4_is_link_local_def is_public_ipv4_def ipv4_is_loopback_def range_simps)

lemma link_local_v6:
  assumes "ipv6_is_unicast_link_local a" "to_ipv4_mapped a = None"
  shows "\<not> is_user_private_lan (V6 a)" "\<not> is_public_ipv6 a" "a \<noteq> 1"
  using assms by (auto simp: ipv6_is_unicast_link_local_def is_public_ipv6_def range_simps)

lemma private_not_public_v4:
  assumes "is_user_private_lan (V4 a)"
  shows "\<not> is_public_ipv4 a"
  using assms by (auto simp: is_public_ipv4_def range_simps)

lemma private_not_public_v6:
  assumes "to_ipv4_mapped a = None" and "is_user_private_lan (V6 a)"
  shows "\<not> is_public_ipv6 a"
  using assms by (auto simp: is_public_ipv6_def range_simps)

lemma loopback_not_public_v4: "ipv4_is_loopback a \<Longrightarrow> \<not> is_public_ipv4 a"
  by (simp add: ipv4_is_loopback_def is_public_ipv4_def)

text \<open>Every predicate reads an IPv4-mapped IPv6 address as the IPv4 address.\<close>

lemma mapped_as_v4:
  assumes "to_ipv4_mapped v6 = Some v4"
  shows "is_public_ip (V6 v6) = is_public_ip (V4 v4)" "is_user_private_lan (V6 v6) = is_user_private_lan (V4 v4)"
    "is_loopback_addr (V6 v6) = is_loopback_addr (V4 v4)" "is_cloud_metadata (V6 v6) = is_cloud_metadata (V4 v4)"
    "ip_allowed (V6 v6) policy = ip_allowed (V4 v4) policy"
  using assms by (simp_all add: is_public_ip_def is_public_ipv6_def is_loopback_addr_def ip_allowed_def
      split: network_policy.split)

lemma private_not_public: "is_user_private_lan ip \<Longrightarrow> \<not> is_public_ip ip"
proof (cases ip)
  case (V4 a)
  then show "is_user_private_lan ip \<Longrightarrow> \<not> is_public_ip ip"
    using private_not_public_v4 by (simp add: is_public_ip_def)
next
  case (V6 a)
  then show "is_user_private_lan ip \<Longrightarrow> \<not> is_public_ip ip"
    using private_not_public_v6[of a] private_not_public_v4
    by (cases "to_ipv4_mapped a") (simp_all add: is_public_ip_def is_public_ipv6_def)
qed

lemma loopback_not_public: "is_loopback_addr ip \<Longrightarrow> \<not> is_public_ip ip"
proof (cases ip)
  case (V4 a)
  then show "is_loopback_addr ip \<Longrightarrow> \<not> is_public_ip ip"
    using loopback_not_public_v4 by (simp add: is_public_ip_def is_loopback_addr_def)
next
  case (V6 a)
  then show "is_loopback_addr ip \<Longrightarrow> \<not> is_public_ip ip"
    using loopback_not_public_v4
    by (cases "to_ipv4_mapped a") (auto simp: is_public_ip_def is_loopback_addr_def is_public_ipv6_def)
qed

text \<open>The addresses no tier may reach: the unspecified ones, link-local, multicast and the
  metadata services, as intervals of address numbers.\<close>

definition never_contacted_v4 :: "ipv4 \<Rightarrow> bool" where
  "never_contacted_v4 a =
     (unat a < 2 ^ 24 \<or> 0xA9FE0000 \<le> unat a \<and> unat a < 0xA9FF0000 \<or> 0xE0000000 \<le> unat a \<or>
      unat a = 0x646464C8)"

definition never_contacted :: "ip_addr \<Rightarrow> bool" where
  "never_contacted ip =
     (case ip of
        V4 a \<Rightarrow> never_contacted_v4 a
      | V6 a \<Rightarrow>
          (case to_ipv4_mapped a of
             Some v4 \<Rightarrow> never_contacted_v4 v4
           | None \<Rightarrow> unat a = 0 \<or> 0x3FA * 2 ^ 118 \<le> unat a \<and> unat a < 0x3FB * 2 ^ 118 \<or>
               0xFF * 2 ^ 120 \<le> unat a \<or> unat a = (0xFD00 * 65536 + 0xEC2) * 2 ^ 96 + 0x254))"

lemma never_contacted_v4_denied:
  assumes "never_contacted_v4 a"
  shows "\<not> ip_allowed (V4 a) policy"
proof (cases "unat a = 0x646464C8")
  case True
  then have "a = ipv4_new 100 100 100 200" by (simp add: word_unat_eq_iff ipv4_new_def)
  then show ?thesis by (simp add: ip_allowed_def)
next
  case False
  have u: "unat a < 2 ^ 32" using unsigned_less[of a] by simp
  from False assms have r: "unat a < 2 ^ 24 \<or> 0xA9FE0000 \<le> unat a \<and> unat a < 0xA9FF0000 \<or> 0xE0000000 \<le> unat a"
    by (simp add: never_contacted_v4_def)
  have "drop_bit 24 a = 0 \<or> in_ipv4_cidr a (ipv4_new 169 254 0 0) 16 \<or>
      in_ipv4_cidr a (ipv4_new 224 0 0 0) 4 \<or> in_ipv4_cidr a (ipv4_new 240 0 0 0) 4"
    using r u by (simp add: range_simps) linarith
  then have "\<not> is_public_ipv4 a" by (auto simp: is_public_ipv4_def)
  moreover have "\<not> is_user_private_lan (V4 a)" using r u by (auto simp: range_simps)
  moreover have "\<not> ipv4_is_loopback a" using r u by (auto simp: ipv4_is_loopback_def range_simps)
  ultimately show ?thesis
    by (simp add: ip_allowed_def is_public_ip_def is_loopback_addr_def del: is_user_private_lan.simps split: network_policy.split)
qed

lemma never_contacted_v6_denied:
  assumes m: "to_ipv4_mapped a = None" and "never_contacted (V6 a)"
  shows "\<not> ip_allowed (V6 a) policy"
proof (cases "unat a = (0xFD00 * 65536 + 0xEC2) * 2 ^ 96 + 0x254")
  case True
  then have "a = ipv6_head 0xFD00 0xEC2 0 + 0x254"
    by (simp add: word_unat_eq_iff ipv6_head_def unat_word_ariths)
  then show ?thesis using m by (simp add: ip_allowed_def)
next
  case False
  have u: "unat a < 2 ^ 128" using unsigned_less[of a] by simp
  from False assms have r: "unat a = 0 \<or> 0x3FA * 2 ^ 118 \<le> unat a \<and> unat a < 0x3FB * 2 ^ 118 \<or> 0xFF * 2 ^ 120 \<le> unat a"
    by (simp add: never_contacted_def)
  have "\<not> is_public_ipv6 a" using r u m by (auto simp: is_public_ipv6_def range_simps unat_eq_0)
  moreover have "\<not> is_user_private_lan (V6 a)" using r u m by (auto simp: range_simps)
  moreover have "a \<noteq> 1" using r by auto
  ultimately show ?thesis
    using m by (simp add: ip_allowed_def is_public_ip_def is_loopback_addr_def del: is_user_private_lan.simps split: network_policy.split)
qed

lemma never_contacted_denied: "never_contacted ip \<Longrightarrow> \<not> ip_allowed ip policy"
proof (cases ip)
  case (V4 a)
  then show "never_contacted ip \<Longrightarrow> \<not> ip_allowed ip policy"
    using never_contacted_v4_denied by (simp add: never_contacted_def)
next
  case (V6 a)
  then show "never_contacted ip \<Longrightarrow> \<not> ip_allowed ip policy"
    using never_contacted_v6_denied[of a] never_contacted_v4_denied
    by (cases "to_ipv4_mapped a") (simp_all add: never_contacted_def mapped_as_v4)
qed

section \<open>Properties\<close>

text \<open>C8: No tier of the policy ever admits an unspecified, link-local, multicast or metadata
  address, the mapped IPv6 forms included; the public tier admits no private and no loopback
  address, and whatever it admits the private tier admits too.\<close>

theorem policy_never_admits_internal:
  assumes "ip_allowed ip policy"
  shows "\<not> never_contacted ip \<and> ip_allowed ip AllowPrivate \<and>
    (policy = PublicOnly \<longrightarrow> \<not> is_user_private_lan ip \<and> \<not> is_loopback_addr ip)"
  using assms never_contacted_denied[of ip policy] private_not_public[of ip] loopback_not_public[of ip]
  by (cases policy) (auto simp: ip_allowed_def split: if_splits)

theorem policy_never_admits_internal_witness:
  "\<not> never_contacted (V4 (ipv4_new 8 8 8 8)) \<and> ip_allowed (V4 (ipv4_new 8 8 8 8)) AllowPrivate"
proof -
  have "ip_allowed (V4 (ipv4_new 8 8 8 8)) PublicOnly"
    by (simp add: ip_allowed_def is_public_ip_def is_public_ipv4_def range_simps) (simp add: ipv4_new_def)
  from policy_never_admits_internal[OF this] show ?thesis by blast
qed

text \<open>A URL that passes the check can only lead to addresses the policy admits: a literal
  address is admitted itself, and for a domain the resolver hands out exactly the admitted
  addresses of the lookup, or an error when there is none.\<close>

theorem checked_url_reaches_admitted_only:
  assumes "is_allowed_http_url parse url policy" and "parse url = Some u"
  shows "case u_host u of
      None \<Rightarrow> False
    | Some (Ipv4 a) \<Rightarrow> ip_allowed (V4 a) policy
    | Some (Ipv6 a) \<Rightarrow> ip_allowed (V6 a) policy
    | Some (Domain d) \<Rightarrow> (policy = PublicOnly \<longrightarrow> \<not> is_localhost_domain d) \<and>
        (case resolve_host policy lookup d of
           Ok addrs \<Rightarrow> addrs \<noteq> [] \<and> (\<exists>all. lookup d = Ok all \<and> addrs = filter (\<lambda>a. ip_allowed a policy) all)
         | Err _ \<Rightarrow> \<forall>all. lookup d = Ok all \<longrightarrow> (\<forall>a \<in> set all. \<not> ip_allowed a policy))"
  using assms
  by (auto simp: is_allowed_http_url_def resolve_host_def Let_def filter_empty_conv
      split: option.splits url_host.splits sum.splits network_policy.splits if_splits)

definition sample_url :: parsed_url where
  "sample_url = \<lparr>u_scheme = ''https'', u_host = Some (Domain ''mcp.example''), u_host_str = Some ''mcp.example'',
     u_port = None, u_path = ''/'', u_username = [], u_password = None, u_query = None, u_fragment = None\<rparr>"

theorem checked_url_reaches_admitted_only_witness:
  "\<not> is_localhost_domain ''mcp.example'' \<and> \<not> ip_allowed (V4 (ipv4_new 169 254 169 254)) PublicOnly"
proof -
  let ?lookup = "\<lambda>_. Ok [V4 (ipv4_new 169 254 169 254)]"
  have a: "is_allowed_http_url (\<lambda>_. Some sample_url) ''https://mcp.example/'' PublicOnly"
    by (simp add: is_allowed_http_url_def sample_url_def) code_simp
  have "resolve_host PublicOnly ?lookup ''mcp.example'' = Err (DnsRejected ''mcp.example'')"
    by (simp add: resolve_host_def ip_allowed_def)
  with checked_url_reaches_admitted_only[OF a refl, of ?lookup] show ?thesis by (simp add: sample_url_def)
qed

end
