(* ===== verification/Mcp_OAuth.thy ===== *)
theory Mcp_OAuth
  imports Mcp_Net
begin

text \<open>
  OAuth metadata discovery (\<^verbatim>\<open>right-mcp/src/oauth.rs\<close>) and the detection of a server's
  authentication mode (\<^verbatim>\<open>right-mcp/src/detect.rs\<close>).  Discovery returns, beside its result, the
  list of URLs it has sent a request to.  The URL parser, the HTTP client, the JSON parser and
  the texts of library errors are the fields of an environment record; what the derived
  decoders read of a JSON value is written out.
\<close>

section \<open>Errors and metadata\<close>

datatype oauth_error =
    DiscoveryFailed string
  | InvalidServerUrl string
  | NoAsMetadata string string
  | DcrFailed string
  | TokenExchangeFailed string
  | NoBrowserAuth
  | InvalidState
  | MissingClientId
  | MissingEndpoint string

fun is_no_as_metadata :: "oauth_error \<Rightarrow> bool" where
  "is_no_as_metadata (NoAsMetadata _ _) = True"
| "is_no_as_metadata _ = False"

fun error_text :: "oauth_error \<Rightarrow> string" where
  "error_text (DiscoveryFailed s) = ''AS discovery failed for server: '' @ s"
| "error_text (InvalidServerUrl s) = ''invalid server URL: '' @ s"
| "error_text (NoAsMetadata u p) = ''no AS metadata found for '' @ u @ '' (last probe: '' @ p @ '')''"
| "error_text (DcrFailed s) = ''Dynamic Client Registration failed: '' @ s"
| "error_text (TokenExchangeFailed s) = ''Token exchange failed: '' @ s"
| "error_text NoBrowserAuth = ''No browser auth available (tunnel not configured or unreachable)''"
| "error_text InvalidState = ''Invalid OAuth state token - possible CSRF attempt''"
| "error_text MissingClientId =
     ''Missing client_id: server has no registration_endpoint and mcp.json has no clientId''"
| "error_text (MissingEndpoint s) = ''Missing endpoint: '' @ s"

record as_metadata =
  am_authorization_endpoint :: string
  am_token_endpoint :: string
  am_registration_endpoint :: "string option"
  am_code_challenge_methods :: "string list option"
  am_scopes_supported :: "string list option"

record resource_metadata =
  rm_resource :: "string option"
  rm_authorization_servers :: "string list"
  rm_scopes_supported :: "string list option"

record oauth_discovery =
  od_metadata :: as_metadata
  od_resource :: string
  od_scopes :: "string list"

datatype json = JNull | JStr string | JNat nat | JArr "json list" | JObj "(string \<times> json) list" | JOther

datatype 'a metadata_probe = Found 'a | NotMetadata string

datatype metadata_kind = ResourceKind | AuthorizationServerKind

fun kind_label :: "metadata_kind \<Rightarrow> string" where
  "kind_label ResourceKind = ''RFC 9728''"
| "kind_label AuthorizationServerKind = ''AS metadata''"

definition has_markers :: "metadata_kind \<Rightarrow> json \<Rightarrow> bool" where
  "has_markers kind v =
     (case v of
        JObj o' \<Rightarrow>
          (case kind of
             ResourceKind \<Rightarrow>
               (\<exists>k \<in> set (map fst o'). k \<in> {''authorization_servers'', ''resource'', ''scopes_supported''})
           | AuthorizationServerKind \<Rightarrow>
               (\<exists>k \<in> set (map fst o'). k \<in> {''authorization_endpoint'', ''token_endpoint'',
                  ''registration_endpoint'', ''scopes_supported'', ''code_challenge_methods_supported''}))
      | _ \<Rightarrow> False)"

text \<open>The derived decoders: a missing or null optional field is absent, any other type fails.\<close>

definition string_field :: "(string \<times> json) list \<Rightarrow> string \<Rightarrow> string option" where
  "string_field o' k = (case map_of o' k of Some (JStr s) \<Rightarrow> Some s | _ \<Rightarrow> None)"

definition opt_string_field :: "(string \<times> json) list \<Rightarrow> string \<Rightarrow> string option option" where
  "opt_string_field o' k =
     (case map_of o' k of None \<Rightarrow> Some None | Some JNull \<Rightarrow> Some None | Some (JStr s) \<Rightarrow> Some (Some s) | _ \<Rightarrow> None)"

fun json_strings :: "json list \<Rightarrow> string list option" where
  "json_strings [] = Some []"
| "json_strings (JStr s # js) = map_option (Cons s) (json_strings js)"
| "json_strings (_ # js) = None"

definition strings_field :: "(string \<times> json) list \<Rightarrow> string \<Rightarrow> string list option" where
  "strings_field o' k = (case map_of o' k of Some (JArr js) \<Rightarrow> json_strings js | _ \<Rightarrow> None)"

definition opt_strings_field :: "(string \<times> json) list \<Rightarrow> string \<Rightarrow> string list option option" where
  "opt_strings_field o' k =
     (case map_of o' k of None \<Rightarrow> Some None | Some JNull \<Rightarrow> Some None
      | Some (JArr js) \<Rightarrow> map_option Some (json_strings js) | _ \<Rightarrow> None)"

definition as_metadata_of :: "json \<Rightarrow> as_metadata option" where
  "as_metadata_of v =
     (case v of
        JObj o' \<Rightarrow>
          Option.bind (string_field o' ''authorization_endpoint'') (\<lambda>a.
          Option.bind (string_field o' ''token_endpoint'') (\<lambda>t.
          Option.bind (opt_string_field o' ''registration_endpoint'') (\<lambda>r.
          Option.bind (opt_strings_field o' ''code_challenge_methods_supported'') (\<lambda>c.
          Option.bind (opt_strings_field o' ''scopes_supported'') (\<lambda>s.
            Some \<lparr>am_authorization_endpoint = a, am_token_endpoint = t, am_registration_endpoint = r,
                  am_code_challenge_methods = c, am_scopes_supported = s\<rparr>)))))
      | _ \<Rightarrow> None)"

definition resource_metadata_of :: "json \<Rightarrow> resource_metadata option" where
  "resource_metadata_of v =
     (case v of
        JObj o' \<Rightarrow>
          Option.bind (opt_string_field o' ''resource'') (\<lambda>r.
          Option.bind (strings_field o' ''authorization_servers'') (\<lambda>a.
          Option.bind (opt_strings_field o' ''scopes_supported'') (\<lambda>s.
            Some \<lparr>rm_resource = r, rm_authorization_servers = a, rm_scopes_supported = s\<rparr>)))
      | _ \<Rightarrow> None)"

section \<open>The environment\<close>

record http_response =
  hr_status :: nat
  hr_content_type :: string
  hr_www_authenticate :: "string option"
  hr_body :: "(string, string) result"

type_synonym http_get = "string \<Rightarrow> (string, http_response) result"

datatype post_body = JsonBody "(string \<times> json) list" | FormBody "(string \<times> string) list"

type_synonym url_policy = "string \<Rightarrow> (oauth_error, unit) result"

record oauth_env =
  en_parse_url :: url_parser
  en_get :: http_get
  en_post :: "string \<Rightarrow> post_body \<Rightarrow> (string, http_response) result"
  en_parse_json :: "string \<Rightarrow> (string, json) result"
  en_decode_error :: "json \<Rightarrow> string"
  en_status_text :: "nat \<Rightarrow> string"
  en_policy :: url_policy

definition is_success :: "nat \<Rightarrow> bool" where "is_success st = (200 \<le> st \<and> st < 300)"

definition is_hard_probe_status :: "nat \<Rightarrow> bool" where
  "is_hard_probe_status st = (500 \<le> st \<and> st < 600 \<or> st = 408 \<or> st = 429)"

section \<open>Probe state\<close>

record probe_state =
  last_probe :: "string option"
  last_hard_failure :: "string option"

definition no_probes :: probe_state where
  "no_probes = \<lparr>last_probe = None, last_hard_failure = None\<rparr>"

definition record_status :: "oauth_env \<Rightarrow> nat \<Rightarrow> string \<Rightarrow> probe_state \<Rightarrow> probe_state" where
  "record_status env st url p =
     (let detail = en_status_text env st @ '' at '' @ url; p' = p\<lparr>last_probe := Some detail\<rparr>
      in if is_hard_probe_status st then p'\<lparr>last_hard_failure := Some detail\<rparr> else p')"

definition record_request_error :: "string \<Rightarrow> string \<Rightarrow> probe_state \<Rightarrow> probe_state" where
  "record_request_error url e p =
     (let detail = ''request failed for '' @ url @ '': '' @ e
      in p\<lparr>last_probe := Some detail, last_hard_failure := Some detail\<rparr>)"

definition record_not_metadata :: "string \<Rightarrow> probe_state \<Rightarrow> probe_state" where
  "record_not_metadata reason p = p\<lparr>last_probe := Some reason\<rparr>"

definition no_metadata_error :: "string \<Rightarrow> probe_state \<Rightarrow> oauth_error" where
  "no_metadata_error server_url p =
     (case last_hard_failure p of
        Some h \<Rightarrow> DiscoveryFailed (''no AS metadata found for '' @ server_url @ '' (last hard failure: '' @ h @ '')'')
      | None \<Rightarrow> NoAsMetadata server_url
          (case last_probe p of Some l \<Rightarrow> l | None \<Rightarrow> ''no probes executed''))"

section \<open>Reading a response\<close>

definition response_content_type :: "http_response \<Rightarrow> string" where
  "response_content_type r = map to_lower (trim (takeWhile (\<lambda>c. c \<noteq> CHR '';'') (hr_content_type r)))"

definition parse_metadata_response ::
  "oauth_env \<Rightarrow> (json \<Rightarrow> 'a option) \<Rightarrow> metadata_kind \<Rightarrow> string \<Rightarrow> http_response \<Rightarrow>
   (oauth_error, 'a metadata_probe) result" where
  "parse_metadata_response env decode kind url r =
     (let label = kind_label kind; ct = response_content_type r in
      if ct \<noteq> [] \<and> ct \<noteq> ''application/json'' \<and> strip_suffix ''+json'' ct = None
      then Ok (NotMetadata (''non-json content-type '' @ ct @ '' at '' @ url))
      else
        (case hr_body r of
           Err e \<Rightarrow> Err (DiscoveryFailed (''failed to read '' @ label @ '' response from '' @ url @ '': '' @ e))
         | Ok body \<Rightarrow>
             (case en_parse_json env body of
                Ok v \<Rightarrow>
                  if \<not> has_markers kind v
                  then Ok (NotMetadata (''json body without '' @ label @ '' markers at '' @ url))
                  else
                    (case decode v of
                       Some m \<Rightarrow> Ok (Found m)
                     | None \<Rightarrow> Err (DiscoveryFailed
                         (''failed to parse '' @ label @ '' response from '' @ url @ '': '' @ en_decode_error env v)))
              | Err e \<Rightarrow>
                  if strip_prefix ''<'' (dropWhile is_ascii_ws body) \<noteq> None
                  then Ok (NotMetadata (''html body at '' @ url))
                  else Err (DiscoveryFailed
                    (''failed to parse '' @ label @ '' response from '' @ url @ '': '' @ e)))))"

section \<open>URLs built from a URL\<close>

definition trim_end_slashes :: "string \<Rightarrow> string" where
  "trim_end_slashes s = rev (dropWhile (\<lambda>c. c = CHR ''/'') (rev s))"

definition port_str :: "parsed_url \<Rightarrow> string" where
  "port_str u = (case u_port u of Some p \<Rightarrow> '':'' @ string_of_nat p | None \<Rightarrow> [])"

definition host_text :: "parsed_url \<Rightarrow> string" where
  "host_text u = (case u_host_str u of Some h \<Rightarrow> h | None \<Rightarrow> [])"

definition url_origin :: "parsed_url \<Rightarrow> string" where
  "url_origin u = u_scheme u @ ''://'' @ host_text u @ port_str u"

definition canonical_resource_from_url :: "parsed_url \<Rightarrow> string" where
  "canonical_resource_from_url u =
     (let scheme = map to_lower (u_scheme u); host = map to_lower (host_text u); path = trim_end_slashes (u_path u)
      in if path = [] then scheme @ ''://'' @ host @ port_str u else scheme @ ''://'' @ host @ port_str u @ path)"

definition canonical_resource_uri :: "url_parser \<Rightarrow> string \<Rightarrow> (oauth_error, string) result" where
  "canonical_resource_uri parse server_url =
     (case parse server_url of
        None \<Rightarrow> Err (DiscoveryFailed (''invalid server URL '' @ server_url))
      | Some u \<Rightarrow> Ok (canonical_resource_from_url u))"

definition as_metadata_urls :: "url_parser \<Rightarrow> string \<Rightarrow> string list" where
  "as_metadata_urls parse as_url =
     (case parse as_url of
        None \<Rightarrow> []
      | Some u \<Rightarrow>
          (let org = url_origin u; path = trim_end_slashes (u_path u) in
           if path = [] \<or> path = ''/''
           then [org @ ''/.well-known/oauth-authorization-server'', org @ ''/.well-known/openid-configuration'']
           else [org @ ''/.well-known/oauth-authorization-server'' @ path,
                 org @ ''/.well-known/openid-configuration'' @ path,
                 org @ path @ ''/.well-known/openid-configuration'',
                 org @ ''/.well-known/oauth-authorization-server'',
                 org @ ''/.well-known/openid-configuration'']))"

text \<open>The text after the first occurrence of the needle.\<close>

fun find_after :: "string \<Rightarrow> string \<Rightarrow> string option" where
  "find_after needle [] = strip_prefix needle []"
| "find_after needle (c # cs) =
     (case strip_prefix needle (c # cs) of Some r \<Rightarrow> Some r | None \<Rightarrow> find_after needle cs)"

definition parse_www_authenticate_resource_metadata :: "string \<Rightarrow> string option" where
  "parse_www_authenticate_resource_metadata header =
     (case find_after ''resource_metadata='' header of
        None \<Rightarrow> None
      | Some rest \<Rightarrow>
          (case strip_prefix [CHR 0x22] rest of
             Some stripped \<Rightarrow>
               if CHR 0x22 \<in> set stripped
               then (let v = takeWhile (\<lambda>c. c \<noteq> CHR 0x22) stripped in if v = [] then None else Some v)
               else None
           | None \<Rightarrow>
               (let v = trim (takeWhile (\<lambda>c. c \<noteq> CHR '','') rest) in if v = [] then None else Some v)))"

section \<open>Discovery\<close>

definition validate_as_metadata_endpoint :: "string \<Rightarrow> string \<Rightarrow> url_policy \<Rightarrow> (oauth_error, unit) result" where
  "validate_as_metadata_endpoint field url policy =
     (case policy url of
        Ok _ \<Rightarrow> Ok ()
      | Err e \<Rightarrow> Err (DiscoveryFailed (''unsafe OAuth metadata '' @ field @ '': '' @ error_text e)))"

definition validate_as_metadata_endpoints :: "as_metadata \<Rightarrow> url_policy \<Rightarrow> (oauth_error, unit) result" where
  "validate_as_metadata_endpoints m policy =
     bind_result (validate_as_metadata_endpoint ''authorization_endpoint'' (am_authorization_endpoint m) policy) (\<lambda>_.
     bind_result (validate_as_metadata_endpoint ''token_endpoint'' (am_token_endpoint m) policy) (\<lambda>_.
       case am_registration_endpoint m of
         Some r \<Rightarrow> validate_as_metadata_endpoint ''registration_endpoint'' r policy
       | None \<Rightarrow> Ok ()))"

definition select_oauth_scopes :: "string list \<Rightarrow> string list option \<Rightarrow> string list" where
  "select_oauth_scopes resource_scopes as_scopes =
     (let scopes = (if resource_scopes = [] then (case as_scopes of Some s \<Rightarrow> s | None \<Rightarrow> []) else resource_scopes);
          offline = (case as_scopes of Some s \<Rightarrow> ''offline_access'' \<in> set s | None \<Rightarrow> False)
      in if scopes \<noteq> [] \<and> offline \<and> ''offline_access'' \<notin> set scopes then scopes @ [''offline_access''] else scopes)"

text \<open>The unauthenticated request to the server itself.\<close>

definition probe_www_authenticate ::
  "oauth_env \<Rightarrow> string \<Rightarrow> probe_state \<Rightarrow> (oauth_error, string option) result \<times> probe_state \<times> string list" where
  "probe_www_authenticate env server_url p =
     (case en_policy env server_url of
        Err e \<Rightarrow> (Err e, p, [])
      | Ok _ \<Rightarrow>
          (case en_get env server_url of
             Err e \<Rightarrow> (Ok None, record_request_error server_url e p, [server_url])
           | Ok r \<Rightarrow>
               (Ok (if hr_status r \<noteq> 401 then None
                    else Option.bind (hr_www_authenticate r) parse_www_authenticate_resource_metadata),
                record_status env (hr_status r) server_url p, [server_url])))"

text \<open>What the resource metadata contributes: the authorization server, the resource and its
  scopes.\<close>

definition fetch_resource_metadata ::
  "oauth_env \<Rightarrow> string \<Rightarrow> string \<Rightarrow> probe_state \<Rightarrow>
   (oauth_error, string option \<times> string \<times> string list) result \<times> probe_state \<times> string list" where
  "fetch_resource_metadata env url fallback p =
     (case en_policy env url of
        Err e \<Rightarrow> (Err e, p, [])
      | Ok _ \<Rightarrow>
          (case en_get env url of
             Err e \<Rightarrow> (Ok (None, fallback, []), record_request_error url e p, [url])
           | Ok r \<Rightarrow>
               if is_success (hr_status r)
               then
                 (case parse_metadata_response env resource_metadata_of ResourceKind url r of
                    Err e \<Rightarrow> (Err e, p, [url])
                  | Ok (NotMetadata reason) \<Rightarrow> (Ok (None, fallback, []), record_not_metadata reason p, [url])
                  | Ok (Found m) \<Rightarrow>
                      (let resource = (case rm_resource m of
                             Some r' \<Rightarrow> if trim r' = [] then fallback else r' | None \<Rightarrow> fallback);
                           scopes = (case rm_scopes_supported m of Some s \<Rightarrow> s | None \<Rightarrow> [])
                       in (case rm_authorization_servers m of
                             [] \<Rightarrow> (Err (DiscoveryFailed ''RFC 9728 authorization_servers array is empty''), p, [url])
                           | a # _ \<Rightarrow> (Ok (Some a, resource, scopes), p, [url]))))
               else (Ok (None, fallback, []), record_status env (hr_status r) url p, [url])))"

fun as_metadata_loop ::
  "oauth_env \<Rightarrow> string \<Rightarrow> string \<Rightarrow> string list \<Rightarrow> string list \<Rightarrow> probe_state \<Rightarrow>
   (oauth_error, oauth_discovery) result \<times> string list" where
  "as_metadata_loop env server_url resource scopes [] p = (Err (no_metadata_error server_url p), [])"
| "as_metadata_loop env server_url resource scopes (url # urls) p =
     (case en_policy env url of
        Err e \<Rightarrow> (Err e, [])
      | Ok _ \<Rightarrow>
          (let next_url = (\<lambda>p'. case as_metadata_loop env server_url resource scopes urls p' of
                 (out, log) \<Rightarrow> (out, url # log)) in
           case en_get env url of
             Err e \<Rightarrow> next_url (record_request_error url e p)
           | Ok r \<Rightarrow>
               if is_success (hr_status r)
               then
                 (case parse_metadata_response env as_metadata_of AuthorizationServerKind url r of
                    Err e \<Rightarrow> (Err e, [url])
                  | Ok (NotMetadata reason) \<Rightarrow> next_url (record_not_metadata reason p)
                  | Ok (Found m) \<Rightarrow>
                      (case validate_as_metadata_endpoints m (en_policy env) of
                         Err e \<Rightarrow> (Err e, [url])
                       | Ok _ \<Rightarrow>
                           (Ok \<lparr>od_metadata = m, od_resource = resource,
                                od_scopes = select_oauth_scopes scopes (am_scopes_supported m)\<rparr>, [url])))
               else next_url (record_status env (hr_status r) url p)))"

definition discover_oauth_with_url_policy ::
  "oauth_env \<Rightarrow> string \<Rightarrow> (oauth_error, oauth_discovery) result \<times> string list" where
  "discover_oauth_with_url_policy env server_url =
     (case en_parse_url env server_url of
        None \<Rightarrow> (Err (DiscoveryFailed (''invalid server URL '' @ server_url)), [])
      | Some u \<Rightarrow>
          (let org = url_origin u; path = trim_end_slashes (u_path u) in
           case probe_www_authenticate env server_url no_probes of
             (Err e, _, log0) \<Rightarrow> (Err e, log0)
           | (Ok www, p0, log0) \<Rightarrow>
               (let resource_url = (case www of
                      Some w \<Rightarrow> w
                    | None \<Rightarrow> if path = [] \<or> path = ''/''
                              then org @ ''/.well-known/oauth-protected-resource''
                              else org @ ''/.well-known/oauth-protected-resource'' @ path) in
                case fetch_resource_metadata env resource_url (canonical_resource_from_url u) p0 of
                  (Err e, _, log1) \<Rightarrow> (Err e, log0 @ log1)
                | (Ok (as_url, resource, scopes), p1, log1) \<Rightarrow>
                    (let urls = as_metadata_urls (en_parse_url env) (case as_url of Some a \<Rightarrow> a | None \<Rightarrow> server_url) in
                     if urls = []
                     then (Err (DiscoveryFailed ''derived AS metadata URL list is empty''), log0 @ log1)
                     else (case as_metadata_loop env server_url resource scopes urls p1 of
                             (out, log2) \<Rightarrow> (out, log0 @ log1 @ log2))))))"

section \<open>Detection of the authentication mode\<close>

datatype resolved_host_class = HostLoopback | HostPrivateLan | HostPublicOrUnknown

definition classify_resolved_host :: "ip_addr list \<Rightarrow> resolved_host_class" where
  "classify_resolved_host addrs =
     (if list_ex is_loopback_addr addrs then HostLoopback
      else if list_ex is_user_private_lan addrs then HostPrivateLan
      else HostPublicOrUnknown)"

datatype mcp_auth_mode = OAuthMode | HeadersMode | UrlAsIsMode

datatype detection_reason =
  QueryStringPresent | LoopbackOrPrivate | PrivateNetworkNoOauth | OAuthDiscovered | NoOAuthMetadata

record oauth_summary =
  os_resource :: string
  os_scopes :: "string list"
  os_authorization_endpoint :: string
  os_token_endpoint :: string
  os_registration_endpoint :: "string option"

record mcp_auth_detection =
  md_bare_url :: string
  md_oauth_discovered :: bool
  md_recommended_mode :: mcp_auth_mode
  md_reason :: detection_reason
  md_oauth :: "oauth_summary option"

definition validate_detection_url :: "parsed_url \<Rightarrow> (oauth_error, unit) result" where
  "validate_detection_url u =
     (if u_scheme u \<notin> {''http'', ''https''} \<or> u_host_str u = None \<or> u_username u \<noteq> [] \<or>
         u_password u \<noteq> None \<or> u_fragment u \<noteq> None
      then Err (InvalidServerUrl ''unsupported URL form'') else Ok ())"

definition oauth_detected :: "url_parser \<Rightarrow> string \<Rightarrow> oauth_discovery \<Rightarrow> mcp_auth_detection" where
  "oauth_detected parse bare_url d =
     (let resource = (if trim (od_resource d) = []
                      then (case canonical_resource_uri parse bare_url of Ok r \<Rightarrow> r | Err _ \<Rightarrow> bare_url)
                      else od_resource d)
      in \<lparr>md_bare_url = bare_url, md_oauth_discovered = True, md_recommended_mode = OAuthMode,
          md_reason = OAuthDiscovered,
          md_oauth = Some \<lparr>os_resource = resource, os_scopes = od_scopes d,
            os_authorization_endpoint = am_authorization_endpoint (od_metadata d),
            os_token_endpoint = am_token_endpoint (od_metadata d),
            os_registration_endpoint = am_registration_endpoint (od_metadata d)\<rparr>\<rparr>)"

definition not_detected :: "string \<Rightarrow> mcp_auth_mode \<Rightarrow> detection_reason \<Rightarrow> mcp_auth_detection" where
  "not_detected bare_url mode reason =
     \<lparr>md_bare_url = bare_url, md_oauth_discovered = False, md_recommended_mode = mode,
      md_reason = reason, md_oauth = None\<rparr>"

text \<open>\<open>print_url\<close> is the library's serialisation, \<open>lookup\<close> the system's answer for a host, empty when
  the resolution fails.\<close>

definition detect_mcp_auth_inner ::
  "oauth_env \<Rightarrow> (parsed_url \<Rightarrow> string) \<Rightarrow> (string \<Rightarrow> ip_addr list) \<Rightarrow> string \<Rightarrow>
   (oauth_error, mcp_auth_detection) result \<times> string list" where
  "detect_mcp_auth_inner env print_url lookup original_url =
     (case en_parse_url env original_url of
        None \<Rightarrow> (Err (InvalidServerUrl ''unsupported URL form''), [])
      | Some u \<Rightarrow>
          (case validate_detection_url u of
             Err e \<Rightarrow> (Err e, [])
           | Ok _ \<Rightarrow>
               (let bare = u\<lparr>u_query := None\<rparr>; bare_url = print_url bare in
                if u_query u \<noteq> None then (Ok (not_detected bare_url UrlAsIsMode QueryStringPresent), [])
                else if is_loopback_url (en_parse_url env) original_url
                then (Ok (not_detected bare_url UrlAsIsMode LoopbackOrPrivate), [])
                else if \<not> is_public_url (en_parse_url env) bare_url
                then (Ok (not_detected bare_url HeadersMode PrivateNetworkNoOauth), [])
                else
                  (case (case u_host bare of Some (Domain d) \<Rightarrow> classify_resolved_host (lookup d) | _ \<Rightarrow> HostPublicOrUnknown) of
                     HostLoopback \<Rightarrow> (Ok (not_detected bare_url UrlAsIsMode LoopbackOrPrivate), [])
                   | HostPrivateLan \<Rightarrow> (Ok (not_detected bare_url HeadersMode PrivateNetworkNoOauth), [])
                   | HostPublicOrUnknown \<Rightarrow>
                       (case discover_oauth_with_url_policy env bare_url of
                          (Ok d, log) \<Rightarrow> (Ok (oauth_detected (en_parse_url env) bare_url d), log)
                        | (Err e, log) \<Rightarrow>
                            if is_no_as_metadata e then (Ok (not_detected bare_url HeadersMode NoOAuthMetadata), log)
                            else (Err e, log))))))"

section \<open>Client registration and token exchange\<close>

text \<open>Both return, beside the result, the endpoints they have posted to.\<close>

record dcr_response =
  dr_client_id :: string
  dr_client_secret :: "string option"

record oauth_token =
  ot_access_token :: string
  ot_refresh_token :: "string option"
  ot_token_type :: "string option"
  ot_scope :: "string option"
  ot_expires_in :: "nat option"

definition opt_nat_field :: "(string \<times> json) list \<Rightarrow> string \<Rightarrow> nat option option" where
  "opt_nat_field o' k =
     (case map_of o' k of None \<Rightarrow> Some None | Some JNull \<Rightarrow> Some None | Some (JNat n) \<Rightarrow> Some (Some n) | _ \<Rightarrow> None)"

definition dcr_response_of :: "json \<Rightarrow> dcr_response option" where
  "dcr_response_of v =
     (case v of
        JObj o' \<Rightarrow>
          Option.bind (string_field o' ''client_id'') (\<lambda>i.
          Option.bind (opt_string_field o' ''client_secret'') (\<lambda>s.
            Some \<lparr>dr_client_id = i, dr_client_secret = s\<rparr>))
      | _ \<Rightarrow> None)"

definition oauth_token_of :: "json \<Rightarrow> oauth_token option" where
  "oauth_token_of v =
     (case v of
        JObj o' \<Rightarrow>
          Option.bind (string_field o' ''access_token'') (\<lambda>a.
          Option.bind (opt_string_field o' ''refresh_token'') (\<lambda>r.
          Option.bind (opt_string_field o' ''token_type'') (\<lambda>t.
          Option.bind (opt_string_field o' ''scope'') (\<lambda>s.
          Option.bind (opt_nat_field o' ''expires_in'') (\<lambda>e.
            Some \<lparr>ot_access_token = a, ot_refresh_token = r, ot_token_type = t, ot_scope = s, ot_expires_in = e\<rparr>)))))
      | _ \<Rightarrow> None)"

definition response_json :: "oauth_env \<Rightarrow> (json \<Rightarrow> 'a option) \<Rightarrow> http_response \<Rightarrow> (string, 'a) result" where
  "response_json env decode r =
     bind_result (hr_body r) (\<lambda>body.
     bind_result (en_parse_json env body) (\<lambda>v.
       case decode v of Some x \<Rightarrow> Ok x | None \<Rightarrow> Err (en_decode_error env v)))"

definition response_text :: "http_response \<Rightarrow> string" where
  "response_text r = (case hr_body r of Ok b \<Rightarrow> b | Err _ \<Rightarrow> [])"

fun join_spaces :: "string list \<Rightarrow> string" where
  "join_spaces [] = []"
| "join_spaces [s] = s"
| "join_spaces (s # t # ts) = s @ '' '' @ join_spaces (t # ts)"

definition scope_param :: "string list \<Rightarrow> string option" where
  "scope_param scopes = (if scopes = [] then None else Some (join_spaces scopes))"

definition register_client ::
  "oauth_env \<Rightarrow> string \<Rightarrow> string \<Rightarrow> string list \<Rightarrow> (oauth_error, dcr_response) result" where
  "register_client env endpoint redirect_uri scopes =
     (let body = [(''client_name'', JStr ''Right Agent''),
                  (''redirect_uris'', JArr [JStr redirect_uri]),
                  (''grant_types'', JArr [JStr ''authorization_code'', JStr ''refresh_token'']),
                  (''response_types'', JArr [JStr ''code'']),
                  (''token_endpoint_auth_method'', JStr ''none''),
                  (''application_type'', JStr ''native'')] @
                 (case scope_param scopes of Some s \<Rightarrow> [(''scope'', JStr s)] | None \<Rightarrow> [])
      in case en_post env endpoint (JsonBody body) of
           Err e \<Rightarrow> Err (DcrFailed (''DCR request failed: '' @ e))
         | Ok r \<Rightarrow>
             if \<not> is_success (hr_status r)
             then Err (DcrFailed (''DCR returned '' @ en_status_text env (hr_status r) @ '' from '' @ endpoint @ '': '' @ response_text r))
             else (case response_json env dcr_response_of r of
                     Err e \<Rightarrow> Err (DcrFailed (''failed to parse DCR response from '' @ endpoint @ '': '' @ e))
                   | Ok d \<Rightarrow> Ok d))"

definition register_client_or_fallback ::
  "oauth_env \<Rightarrow> as_metadata \<Rightarrow> string option \<Rightarrow> string \<Rightarrow> string list \<Rightarrow>
   (oauth_error, string \<times> string option) result \<times> string list" where
  "register_client_or_fallback env m static_client_id redirect_uri scopes =
     (case am_registration_endpoint m of
        Some ep \<Rightarrow>
          (case en_policy env ep of
             Err e \<Rightarrow> (Err (DcrFailed (''unsafe registration_endpoint: '' @ error_text e)), [])
           | Ok _ \<Rightarrow>
               (bind_result (register_client env ep redirect_uri scopes)
                  (\<lambda>d. Ok (dr_client_id d, dr_client_secret d)), [ep]))
      | None \<Rightarrow>
          (case static_client_id of
             Some i \<Rightarrow> (Ok (i, None), [])
           | None \<Rightarrow> (Err MissingClientId, [])))"

definition exchange_token ::
  "oauth_env \<Rightarrow> string \<Rightarrow> string \<Rightarrow> string \<Rightarrow> string \<Rightarrow> string option \<Rightarrow> string \<Rightarrow> string \<Rightarrow>
   (oauth_error, oauth_token) result \<times> string list" where
  "exchange_token env token_endpoint code redirect_uri client_id client_secret code_verifier resource =
     (case en_policy env token_endpoint of
        Err e \<Rightarrow> (Err (TokenExchangeFailed (''unsafe token_endpoint: '' @ error_text e)), [])
      | Ok _ \<Rightarrow>
          (let params = [(''grant_type'', ''authorization_code''), (''code'', code), (''redirect_uri'', redirect_uri),
                         (''client_id'', client_id), (''code_verifier'', code_verifier), (''resource'', resource)] @
                        (case client_secret of Some s \<Rightarrow> [(''client_secret'', s)] | None \<Rightarrow> [])
           in (case en_post env token_endpoint (FormBody params) of
                 Err e \<Rightarrow> Err (TokenExchangeFailed (''token exchange request failed: '' @ e))
               | Ok r \<Rightarrow>
                   if \<not> is_success (hr_status r)
                   then Err (TokenExchangeFailed (''token endpoint returned '' @ en_status_text env (hr_status r) @ '': '' @ response_text r))
                   else (case response_json env oauth_token_of r of
                           Err e \<Rightarrow> Err (TokenExchangeFailed (''failed to parse token response from '' @ token_endpoint @ '': '' @ e))
                         | Ok tk \<Rightarrow> Ok tk), [token_endpoint])))"

section \<open>The authorization URL\<close>

definition is_unreserved :: "nat \<Rightarrow> bool" where
  "is_unreserved c = (65 \<le> c \<and> c \<le> 90 \<or> 97 \<le> c \<and> c \<le> 122 \<or> 48 \<le> c \<and> c \<le> 57 \<or> c \<in> {45, 95, 46, 126})"

definition hex_digit :: "nat \<Rightarrow> nat" where
  "hex_digit d = (if d < 10 then 48 + d else 55 + d)"

text \<open>\<^verbatim>\<open>c as u8\<close> keeps the low eight bits.\<close>

definition encode_char :: "nat \<Rightarrow> chars" where
  "encode_char c =
     (if is_unreserved c then [c] else [37, hex_digit (c mod 256 div 16), hex_digit (c mod 256 mod 16)])"

definition url_encode :: "chars \<Rightarrow> chars" where
  "url_encode s = concat (map encode_char s)"

definition build_auth_url :: "chars \<Rightarrow> chars \<Rightarrow> chars \<Rightarrow> chars \<Rightarrow> chars \<Rightarrow> chars \<Rightarrow> chars option \<Rightarrow> chars" where
  "build_auth_url authorization_endpoint client_id redirect_uri state code_challenge resource scope =
     authorization_endpoint @ text_chars ''?response_type=code&client_id='' @ url_encode client_id @
     text_chars ''&redirect_uri='' @ url_encode redirect_uri @ text_chars ''&state='' @ url_encode state @
     text_chars ''&code_challenge='' @ url_encode code_challenge @
     text_chars ''&code_challenge_method=S256&resource='' @ url_encode resource @
     (case scope of Some s \<Rightarrow> text_chars ''&scope='' @ url_encode s | None \<Rightarrow> [])"

end
