(* ===== verification/Mcp_OAuth_Props.thy ===== *)
theory Mcp_OAuth_Props
  imports Mcp_OAuth
begin

text \<open>
  Properties of OAuth discovery and of the detection: which requests are sent, what the two
  error classes mean and when no request is sent at all.
\<close>

section \<open>The request log\<close>

lemma probe_log:
  "probe_www_authenticate env url p = (out, p', log) \<Longrightarrow>
     (\<forall>u \<in> set log. is_ok (en_policy env u)) \<and> length log \<le> 1"
  by (auto simp: probe_www_authenticate_def split: sum.splits)

lemma fetch_resource_log:
  "fetch_resource_metadata env url fb p = (out, p', log) \<Longrightarrow>
     (\<forall>u \<in> set log. is_ok (en_policy env u)) \<and> length log \<le> 1"
  by (auto simp: fetch_resource_metadata_def Let_def split: sum.splits if_splits metadata_probe.splits list.splits)

lemma validate_endpoint_Ok:
  "validate_as_metadata_endpoint f url policy = Ok x \<Longrightarrow> is_ok (policy url)"
  by (simp add: validate_as_metadata_endpoint_def split: sum.splits)

lemma validate_endpoints_Ok:
  assumes "validate_as_metadata_endpoints m policy = Ok x"
  shows "is_ok (policy (am_authorization_endpoint m)) \<and> is_ok (policy (am_token_endpoint m)) \<and>
    (\<forall>r. am_registration_endpoint m = Some r \<longrightarrow> is_ok (policy r))"
  using assms
  by (auto simp: validate_as_metadata_endpoints_def bind_result_Inr intro: validate_endpoint_Ok)

definition endpoints_ok :: "url_policy \<Rightarrow> (oauth_error, oauth_discovery) result \<Rightarrow> bool" where
  "endpoints_ok policy out =
     (case out of
        Err _ \<Rightarrow> True
      | Ok d \<Rightarrow> is_ok (policy (am_authorization_endpoint (od_metadata d))) \<and>
          is_ok (policy (am_token_endpoint (od_metadata d))) \<and>
          (\<forall>r. am_registration_endpoint (od_metadata d) = Some r \<longrightarrow> is_ok (policy r)))"

lemma loop_log:
  "as_metadata_loop env s res sc urls p = (out, log) \<Longrightarrow>
     (\<forall>u \<in> set log. is_ok (en_policy env u)) \<and> length log \<le> length urls \<and> set log \<subseteq> set urls \<and>
     endpoints_ok (en_policy env) out"
proof (induction urls arbitrary: p out log)
  case Nil
  then show ?case by (auto simp: endpoints_ok_def)
next
  case (Cons u us)
  show ?case
  proof (cases "en_policy env u")
    case (Inl e)
    then show ?thesis using Cons.prems by (auto simp: endpoints_ok_def)
  next
    case (Inr x)
    have go_on: ?thesis if r: "(case as_metadata_loop env s res sc us p' of (o', l) \<Rightarrow> (o', u # l)) = (out, log)" for p'
    proof -
      obtain o' l where "as_metadata_loop env s res sc us p' = (o', l)" by (cases "as_metadata_loop env s res sc us p'")
      with Cons.IH[OF this] r Inr show ?thesis by auto
    qed
    show ?thesis
    proof (cases "en_get env u")
      case (Inl e)
      then show ?thesis using Cons.prems Inr go_on by simp
    next
      case get: (Inr r)
      show ?thesis
      proof (cases "is_success (hr_status r)")
        case False
        then show ?thesis using Cons.prems Inr get go_on by simp
      next
        case True
        show ?thesis
        proof (cases "parse_metadata_response env as_metadata_of AuthorizationServerKind u r")
          case (Inl e)
          then show ?thesis using Cons.prems Inr get True by (auto simp: endpoints_ok_def)
        next
          case parsed: (Inr m)
          show ?thesis
          proof (cases m)
            case (NotMetadata reason)
            then show ?thesis using Cons.prems Inr get True parsed go_on by simp
          next
            case (Found meta)
            then show ?thesis
              using Cons.prems Inr get True parsed validate_endpoints_Ok[of meta "en_policy env"]
              by (auto simp: endpoints_ok_def split: sum.splits)
          qed
        qed
      qed
    qed
  qed
qed

lemma as_urls_length: "length (as_metadata_urls parse u) \<le> 5"
  by (simp add: as_metadata_urls_def Let_def split: option.split)

text \<open>The stages of a discovery: the probe, the resource metadata and the loop.\<close>

lemma discover_cases:
  assumes "discover_oauth_with_url_policy env s = (out, log)"
  obtains (unparsed) "en_parse_url env s = None" "\<exists>m. out = Err (DiscoveryFailed m)" "log = []"
  | (probe) e p where "probe_www_authenticate env s no_probes = (Err e, p, log)" "out = Err e"
  | (resource) www p0 log0 url fb e p1 log1 where
      "probe_www_authenticate env s no_probes = (Ok www, p0, log0)"
      "fetch_resource_metadata env url fb p0 = (Err e, p1, log1)" "out = Err e" "log = log0 @ log1"
  | (no_urls) www p0 log0 url fb x p1 log1 where
      "probe_www_authenticate env s no_probes = (Ok www, p0, log0)"
      "fetch_resource_metadata env url fb p0 = (Ok x, p1, log1)"
      "\<exists>m. out = Err (DiscoveryFailed m)" "log = log0 @ log1"
  | (loop) www p0 log0 url fb a resource scopes p1 log1 log2 urls where
      "probe_www_authenticate env s no_probes = (Ok www, p0, log0)"
      "fetch_resource_metadata env url fb p0 = (Ok (a, resource, scopes), p1, log1)"
      "length urls \<le> 5" "as_metadata_loop env s resource scopes urls p1 = (out, log2)" "log = log0 @ log1 @ log2"
proof (cases "en_parse_url env s")
  case None
  then show thesis using assms by (intro that(1)) (auto simp: discover_oauth_with_url_policy_def)
next
  case (Some u)
  obtain o0 p0 log0 where pr: "probe_www_authenticate env s no_probes = (o0, p0, log0)"
    by (metis prod_cases3)
  show thesis
  proof (cases o0)
    case (Inl e)
    then show thesis using assms Some pr that(2)[of e p0] by (simp add: discover_oauth_with_url_policy_def Let_def)
  next
    case o0: (Inr www)
    let ?path = "trim_end_slashes (u_path u)" and ?fb = "canonical_resource_from_url u"
    let ?url = "case www of Some w \<Rightarrow> w
        | None \<Rightarrow> if ?path = [] \<or> ?path = ''/'' then url_origin u @ ''/.well-known/oauth-protected-resource''
                   else url_origin u @ ''/.well-known/oauth-protected-resource'' @ ?path"
    obtain o1 p1 log1 where fr: "fetch_resource_metadata env ?url ?fb p0 = (o1, p1, log1)" by (metis prod_cases3)
    show thesis
    proof (cases o1)
      case (Inl e)
      then show thesis
        using assms Some pr o0 fr that(3)[of www p0 log0 ?url ?fb e p1 log1]
        by (simp add: discover_oauth_with_url_policy_def Let_def)
    next
      case o1: (Inr x)
      obtain a resource scopes where x: "x = (a, resource, scopes)" by (cases x) auto
      let ?urls = "as_metadata_urls (en_parse_url env) (case a of Some b \<Rightarrow> b | None \<Rightarrow> s)"
      obtain o2 log2 where lp: "as_metadata_loop env s resource scopes ?urls p1 = (o2, log2)" by fastforce
      show thesis
      proof (cases "?urls = []")
        case True
        then show thesis
          using assms Some pr o0 fr o1 x
          by (intro that(4)[of www p0 log0 ?url ?fb x p1 log1])
             (auto simp: discover_oauth_with_url_policy_def Let_def)
      next
        case False
        then show thesis
          using assms Some pr o0 fr o1 x lp that(5)[of www p0 log0 ?url ?fb a resource scopes p1 log1 ?urls log2]
          by (simp add: discover_oauth_with_url_policy_def Let_def as_urls_length)
      qed
    qed
  qed
qed

lemma discover_log:
  assumes "discover_oauth_with_url_policy env s = (out, log)"
  shows "(\<forall>u \<in> set log. is_ok (en_policy env u)) \<and> length log \<le> 7 \<and> endpoints_ok (en_policy env) out"
  using assms
proof (cases rule: discover_cases)
  case unparsed
  then show ?thesis by (auto simp: endpoints_ok_def)
next
  case probe
  then show ?thesis using probe_log[OF probe(1)] by (auto simp: endpoints_ok_def)
next
  case resource
  then show ?thesis using probe_log[OF resource(1)] fetch_resource_log[OF resource(2)]
    by (auto simp: endpoints_ok_def)
next
  case no_urls
  then show ?thesis using probe_log[OF no_urls(1)] fetch_resource_log[OF no_urls(2)]
    by (auto simp: endpoints_ok_def)
next
  case loop
  then show ?thesis using probe_log[OF loop(1)] fetch_resource_log[OF loop(2)] loop_log[OF loop(4)] by auto
qed

section \<open>Hard failures\<close>

definition clean :: "oauth_env \<Rightarrow> string \<Rightarrow> bool" where
  "clean env u = (\<exists>r. en_get env u = Ok r \<and> \<not> is_hard_probe_status (hr_status r))"

text \<open>As long as the probe state has no hard failure, every request of the log was clean.\<close>

lemma record_hard_simps [simp]:
  "last_hard_failure (record_request_error u e p) \<noteq> None"
  "last_hard_failure (record_not_metadata r p) = last_hard_failure p"
  "last_hard_failure (record_status env st u p) = None \<longleftrightarrow> last_hard_failure p = None \<and> \<not> is_hard_probe_status st"
  by (auto simp: record_request_error_def record_not_metadata_def record_status_def Let_def)

lemma success_not_hard: "is_success st \<Longrightarrow> \<not> is_hard_probe_status st"
  by (auto simp: is_success_def is_hard_probe_status_def)

lemma probe_clean:
  assumes "probe_www_authenticate env s p = (Ok www, p', log)" and "last_hard_failure p' = None"
  shows "last_hard_failure p = None \<and> (\<forall>u \<in> set log. clean env u)"
  using assms by (auto simp: probe_www_authenticate_def clean_def split: sum.splits)

lemma fetch_resource_clean:
  assumes "fetch_resource_metadata env url fb p = (Ok x, p', log)" and "last_hard_failure p' = None"
  shows "last_hard_failure p = None \<and> (\<forall>u \<in> set log. clean env u)"
  using assms
  by (auto simp: fetch_resource_metadata_def clean_def Let_def success_not_hard
      split: sum.splits if_splits metadata_probe.splits list.splits)

lemma parse_error_not_no_metadata:
  "parse_metadata_response env dec k u r = Err e \<Longrightarrow> \<not> is_no_as_metadata e"
  by (auto simp: parse_metadata_response_def Let_def split: if_splits sum.splits option.splits)

lemma validate_error_not_no_metadata:
  "validate_as_metadata_endpoints m policy = Err e \<Longrightarrow> \<not> is_no_as_metadata e"
  by (auto simp: validate_as_metadata_endpoints_def validate_as_metadata_endpoint_def bind_result_def
      split: sum.splits option.splits)

lemma loop_clean:
  assumes "as_metadata_loop env s res sc urls p = (Err e, log)" and "is_no_as_metadata e"
    and pol: "\<forall>u e'. en_policy env u = Err e' \<longrightarrow> \<not> is_no_as_metadata e'"
  shows "last_hard_failure p = None \<and> (\<forall>u \<in> set log. clean env u)"
  using assms(1)
proof (induction urls arbitrary: p log)
  case Nil
  then show ?case using assms(2) by (auto simp: no_metadata_error_def split: option.splits)
next
  case (Cons u us)
  show ?case
  proof (cases "en_policy env u")
    case (Inl e')
    then show ?thesis using Cons.prems pol assms(2) by auto
  next
    case (Inr x)
    have go_on: "last_hard_failure p' = None \<and> (\<forall>v \<in> set (tl log). clean env v) \<and> log = u # tl log"
      if "(case as_metadata_loop env s res sc us p' of (o', l) \<Rightarrow> (o', u # l)) = (Err e, log)" for p'
    proof -
      obtain o' l where "as_metadata_loop env s res sc us p' = (o', l)" by (cases "as_metadata_loop env s res sc us p'")
      with Cons.IH[of p' l] that show ?thesis by auto
    qed
    show ?thesis
    proof (cases "en_get env u")
      case (Inl m)
      then show ?thesis using Cons.prems Inr go_on[of "record_request_error u m p"] by simp
    next
      case get: (Inr r)
      show ?thesis
      proof (cases "is_success (hr_status r)")
        case False
        then have "last_hard_failure p = None \<and> \<not> is_hard_probe_status (hr_status r) \<and>
            (\<forall>v \<in> set (tl log). clean env v) \<and> log = u # tl log"
          using Cons.prems Inr get go_on[of "record_status env (hr_status r) u p"] by simp
        then show ?thesis using get by (metis clean_def set_ConsD)
      next
        case True
        show ?thesis
        proof (cases "parse_metadata_response env as_metadata_of AuthorizationServerKind u r")
          case (Inl e')
          then show ?thesis using Cons.prems Inr get True assms(2) parse_error_not_no_metadata[OF Inl] by simp
        next
          case parsed: (Inr m)
          show ?thesis
          proof (cases m)
            case (NotMetadata reason)
            then have "last_hard_failure p = None \<and> (\<forall>v \<in> set (tl log). clean env v) \<and> log = u # tl log"
              using Cons.prems Inr get True parsed go_on[of "record_not_metadata reason p"] by simp
            then show ?thesis using get success_not_hard[OF True] by (metis clean_def set_ConsD)
          next
            case (Found meta)
            then show ?thesis
              using Cons.prems Inr get True parsed assms(2) validate_error_not_no_metadata by (auto split: sum.splits)
          qed
        qed
      qed
    qed
  qed
qed

lemma resource_error_not_no_metadata:
  assumes "fetch_resource_metadata env url fb p = (Err e, p', log)"
    and "\<forall>u e'. en_policy env u = Err e' \<longrightarrow> \<not> is_no_as_metadata e'"
  shows "\<not> is_no_as_metadata e"
  using assms
  by (auto simp: fetch_resource_metadata_def Let_def dest: parse_error_not_no_metadata
      split: sum.splits if_splits metadata_probe.splits list.splits)

section \<open>Reading an authorization URL back\<close>

definition unhex :: "nat \<Rightarrow> nat" where "unhex d = (if d < 58 then d - 48 else d - 55)"

fun percent_decode :: "chars \<Rightarrow> chars" where
  "percent_decode [] = []"
| "percent_decode (c # s) =
     (if c = 37 then (case s of a # b # r \<Rightarrow> (unhex a * 16 + unhex b) # percent_decode r | _ \<Rightarrow> c # percent_decode s)
      else c # percent_decode s)"

fun split_on :: "nat \<Rightarrow> chars \<Rightarrow> chars list" where
  "split_on x [] = [[]]"
| "split_on x (c # cs) =
     (if c = x then [] # split_on x cs
      else case split_on x cs of h # t \<Rightarrow> (c # h) # t | [] \<Rightarrow> [[c]])"

definition query_pairs :: "chars \<Rightarrow> (chars \<times> chars) list" where
  "query_pairs q =
     map (\<lambda>p. (takeWhile (\<lambda>c. c \<noteq> 61) p, percent_decode (drop 1 (dropWhile (\<lambda>c. c \<noteq> 61) p)))) (split_on 38 q)"

definition low8 :: "chars \<Rightarrow> chars" where "low8 s = map (\<lambda>c. c mod 256) s"

lemma split_on_append [simp]: "x \<notin> set a \<Longrightarrow> split_on x (a @ x # b) = a # split_on x b"
  by (induction a) auto

lemma split_on_none [simp]: "x \<notin> set a \<Longrightarrow> split_on x a = [a]"
  by (induction a) auto

lemma hex_digit_safe: "d < 16 \<Longrightarrow> unhex (hex_digit d) = d \<and> hex_digit d \<notin> {37, 38, 61}"
  by (auto simp: hex_digit_def unhex_def)

lemma decode_char: "percent_decode (encode_char c @ s) = (c mod 256) # percent_decode s"
proof (cases "is_unreserved c")
  case True
  then have "c \<noteq> 37" "c < 256" by (auto simp: is_unreserved_def)
  with True show ?thesis by (simp add: encode_char_def)
next
  case False
  have "c mod 256 div 16 < 16" by (simp add: less_mult_imp_div_less)
  then show ?thesis using False hex_digit_safe[of "c mod 256 div 16"] hex_digit_safe[of "c mod 256 mod 16"]
    by (simp add: encode_char_def)
qed

lemma decode_encode [simp]: "percent_decode (url_encode s) = low8 s"
  by (induction s) (simp_all add: url_encode_def low8_def decode_char)

lemma encode_char_safe: "38 \<notin> set (encode_char c)" "61 \<notin> set (encode_char c)"
proof -
  have "c mod 256 div 16 < 16" by (simp add: less_mult_imp_div_less)
  then show "38 \<notin> set (encode_char c)" "61 \<notin> set (encode_char c)"
    using hex_digit_safe[of "c mod 256 div 16"] hex_digit_safe[of "c mod 256 mod 16"]
    by (auto simp: encode_char_def is_unreserved_def)
qed

lemma url_encode_safe [simp]: "38 \<notin> set (url_encode s)" "61 \<notin> set (url_encode s)"
  using encode_char_safe by (auto simp: url_encode_def)

lemma query_pairs_cons:
  assumes "38 \<notin> set k" and "61 \<notin> set k"
  shows "query_pairs (k @ 61 # url_encode v @ 38 # r) = (k, low8 v) # query_pairs r"
    and "query_pairs (k @ 61 # url_encode v) = [(k, low8 v)]"
proof -
  have "split_on 38 ((k @ 61 # url_encode v) @ 38 # r) = (k @ 61 # url_encode v) # split_on 38 r"
    using assms by (intro split_on_append) auto
  moreover have "takeWhile (\<lambda>c. c \<noteq> 61) (k @ 61 # url_encode v) = k"
    "dropWhile (\<lambda>c. c \<noteq> 61) (k @ 61 # url_encode v) = 61 # url_encode v"
    using assms by (auto simp: takeWhile_append dropWhile_append)
  moreover have "split_on 38 (k @ 61 # url_encode v) = [k @ 61 # url_encode v]"
    using assms by (intro split_on_none) auto
  ultimately show "query_pairs (k @ 61 # url_encode v @ 38 # r) = (k, low8 v) # query_pairs r"
    "query_pairs (k @ 61 # url_encode v) = [(k, low8 v)]"
    by (simp_all add: query_pairs_def)
qed

definition auth_query :: "(chars \<times> chars) list \<Rightarrow> chars" where
  "auth_query ps = concat (map (\<lambda>(k, v). 38 # k @ 61 # url_encode v) ps)"

lemma auth_query_pairs:
  assumes "\<forall>(k, v) \<in> set ((k0, v0) # ps). 38 \<notin> set k \<and> 61 \<notin> set k"
  shows "query_pairs (k0 @ 61 # url_encode v0 @ auth_query ps) = map (map_prod id low8) ((k0, v0) # ps)"
  using assms
proof (induction ps arbitrary: k0 v0)
  case Nil
  then show ?case using query_pairs_cons(2)[of k0 v0] by (simp add: auth_query_def)
next
  case (Cons p ps)
  obtain k v where p: "p = (k, v)" by (cases p)
  have "k0 @ 61 # url_encode v0 @ auth_query (p # ps) =
      k0 @ 61 # url_encode v0 @ 38 # (k @ 61 # url_encode v @ auth_query ps)"
    by (simp add: auth_query_def p)
  then show ?case using Cons.IH[of k v] Cons.prems query_pairs_cons(1)[of k0 v0] by (simp add: p)
qed

section \<open>Properties\<close>

text \<open>C9: Discovery sends a request only to URLs the policy admits, at most seven of them, and the
  endpoints of the metadata it returns have passed the policy too.\<close>

theorem discovery_respects_policy:
  assumes "discover_oauth_with_url_policy env server_url = (out, log)"
  shows "(\<forall>u \<in> set log. is_ok (en_policy env u)) \<and> length log \<le> 7 \<and>
    (case out of
       Err _ \<Rightarrow> True
     | Ok d \<Rightarrow> is_ok (en_policy env (am_authorization_endpoint (od_metadata d))) \<and>
         is_ok (en_policy env (am_token_endpoint (od_metadata d))) \<and>
         (\<forall>r. am_registration_endpoint (od_metadata d) = Some r \<longrightarrow> is_ok (en_policy env r)))"
  using discover_log[OF assms] by (simp add: endpoints_ok_def)

definition sample_metadata :: json where
  "sample_metadata = JObj [(''authorization_endpoint'', JStr ''https://as/a''), (''token_endpoint'', JStr ''https://as/t'')]"

text \<open>A server without resource metadata whose own origin serves the authorization metadata.\<close>

definition sample_env :: oauth_env where
  "sample_env = \<lparr>en_parse_url = (\<lambda>_. Some sample_url),
     en_get = (\<lambda>u. Ok \<lparr>hr_status = (if u = ''https://mcp.example/.well-known/oauth-authorization-server'' then 200 else 404),
        hr_content_type = [], hr_www_authenticate = None, hr_body = Ok []\<rparr>),
     en_post = (\<lambda>_ _. Err []), en_parse_json = (\<lambda>_. Ok sample_metadata), en_decode_error = (\<lambda>_. []),
     en_status_text = string_of_nat,
     en_policy = (\<lambda>u. if strip_prefix ''https://'' u \<noteq> None then Ok () else Err (InvalidServerUrl u))\<rparr>"

definition sample_found :: oauth_discovery where
  "sample_found = \<lparr>od_metadata = \<lparr>am_authorization_endpoint = ''https://as/a'', am_token_endpoint = ''https://as/t'',
       am_registration_endpoint = None, am_code_challenge_methods = None, am_scopes_supported = None\<rparr>,
     od_resource = ''https://mcp.example'', od_scopes = []\<rparr>"

lemma sample_discovery:
  "discover_oauth_with_url_policy sample_env ''https://mcp.example/'' =
     (Ok sample_found, [''https://mcp.example/'', ''https://mcp.example/.well-known/oauth-protected-resource'',
        ''https://mcp.example/.well-known/oauth-authorization-server''])"
  by code_simp

theorem discovery_respects_policy_witness:
  "is_ok (en_policy sample_env ''https://as/t'') \<and>
     is_ok (en_policy sample_env ''https://mcp.example/.well-known/oauth-protected-resource'')"
  using discovery_respects_policy[OF sample_discovery] by (simp add: sample_found_def)

text \<open>The error that says a server has no metadata is only returned after every request that
  was sent got an answer that is no server error, no timeout and no rate limit; an outage is
  never mistaken for a server without OAuth.\<close>

theorem no_metadata_is_not_an_outage:
  assumes "discover_oauth_with_url_policy env server_url = (Err e, log)" and "is_no_as_metadata e"
    and pol: "\<forall>u e'. en_policy env u = Err e' \<longrightarrow> \<not> is_no_as_metadata e'"
  shows "\<forall>u \<in> set log. \<exists>r. en_get env u = Ok r \<and> \<not> is_hard_probe_status (hr_status r)"
  using assms(1)
proof (cases rule: discover_cases)
  case unparsed
  then show ?thesis using assms(2) by auto
next
  case probe
  then show ?thesis using assms(2) pol by (auto simp: probe_www_authenticate_def split: sum.splits)
next
  case resource
  then show ?thesis using assms(2) resource_error_not_no_metadata[OF resource(2) pol] by simp
next
  case no_urls
  then show ?thesis using assms(2) by auto
next
  case loop
  note l = loop_clean[OF loop(4) assms(2) pol]
  note f = fetch_resource_clean[OF loop(2)] and p = probe_clean[OF loop(1)]
  show ?thesis using l f p loop(5) by (auto simp: clean_def)
qed

lemma sample_outcome:
  "\<exists>e log. discover_oauth_with_url_policy (sample_env\<lparr>en_parse_json := \<lambda>_. Ok JNull\<rparr>) ''https://mcp.example/'' =
     (Err e, ''https://mcp.example/'' # log) \<and> is_no_as_metadata e"
proof -
  let ?out = "discover_oauth_with_url_policy (sample_env\<lparr>en_parse_json := \<lambda>_. Ok JNull\<rparr>) ''https://mcp.example/''"
  have "(case fst ?out of Err e \<Rightarrow> is_no_as_metadata e | Ok _ \<Rightarrow> False) \<and> snd ?out \<noteq> [] \<and>
      hd (snd ?out) = ''https://mcp.example/''" by code_simp
  then show ?thesis by (cases ?out; cases "snd ?out") (auto split: sum.splits)
qed

theorem no_metadata_is_not_an_outage_witness:
  "\<exists>r. en_get (sample_env\<lparr>en_parse_json := \<lambda>_. Ok JNull\<rparr>) ''https://mcp.example/'' = Ok r \<and>
     \<not> is_hard_probe_status (hr_status r)"
proof -
  let ?env = "sample_env\<lparr>en_parse_json := \<lambda>_. Ok JNull\<rparr>"
  obtain e log where d: "discover_oauth_with_url_policy ?env ''https://mcp.example/'' = (Err e, ''https://mcp.example/'' # log)"
    and n: "is_no_as_metadata e"
    using sample_outcome by blast
  have "\<forall>u e'. en_policy ?env u = Err e' \<longrightarrow> \<not> is_no_as_metadata e'" by (auto simp: sample_env_def)
  from no_metadata_is_not_an_outage[OF d n this] show ?thesis by simp
qed

text \<open>A host the detection must not probe: local by name, by its literal or by what it resolves to.\<close>

definition local_host :: "(string \<Rightarrow> ip_addr list) \<Rightarrow> url_host \<Rightarrow> bool" where
  "local_host lookup h =
     (case h of
        Domain d \<Rightarrow> is_localhost_domain d \<or> (\<exists>a \<in> set (lookup d). is_loopback_addr a \<or> is_user_private_lan a)
      | Ipv4 a \<Rightarrow> is_loopback_addr (V4 a) \<or> is_user_private_lan (V4 a) \<or> ipv4_is_link_local a
      | Ipv6 a \<Rightarrow> is_loopback_addr (V6 a) \<or> is_user_private_lan (V6 a))"

lemma local_literal_not_public:
  assumes "local_host lookup h" and "\<not> is_loopback_host h" and "\<forall>d. h \<noteq> Domain d"
  shows "is_private_or_link_local_host h"
proof (cases h)
  case (Ipv4 a)
  then show ?thesis using assms
    by (simp add: local_host_def is_loopback_host_def is_loopback_addr_def is_private_or_link_local_host_def
        is_private_or_link_local_ipv4_def del: is_user_private_lan.simps) blast
next
  case (Ipv6 a)
  then show ?thesis using assms
    by (auto simp: local_host_def is_loopback_host_def is_loopback_addr_def is_private_or_link_local_host_def
        is_private_or_link_local_ipv6_def is_private_or_link_local_ipv4_def simp del: is_user_private_lan.simps(1)
        split: option.splits)
qed (use assms(3) in simp)

text \<open>A server on a local host, by its name, its literal address or any address it resolves to,
  is never probed: the detection answers without sending a request, and never with OAuth.\<close>

theorem detection_never_probes_local:
  assumes "en_parse_url env url = Some u" and "is_ok (validate_detection_url u)" and "u_host u = Some h"
    and "local_host lookup h"
    and roundtrip: "en_parse_url env (print_url (u\<lparr>u_query := None\<rparr>)) = Some (u\<lparr>u_query := None\<rparr>)"
  shows "\<exists>m. detect_mcp_auth_inner env print_url lookup url = (Ok m, []) \<and>
    md_recommended_mode m \<noteq> OAuthMode \<and> \<not> md_oauth_discovered m"
proof (cases "u_query u = None \<and> \<not> is_loopback_url (en_parse_url env) url \<and>
    is_public_url (en_parse_url env) (print_url (u\<lparr>u_query := None\<rparr>))")
  case False
  then show ?thesis using assms(1,2)
    by (auto simp: detect_mcp_auth_inner_def not_detected_def is_ok_iff Let_def)
next
  case True
  then have "\<not> is_loopback_host h" "\<not> is_private_or_link_local_host h"
    using assms(1,3) roundtrip by (auto simp: is_loopback_url_def is_public_url_def)
  then obtain d where d: "h = Domain d" using local_literal_not_public[OF assms(4)] by blast
  with assms(4) \<open>\<not> is_loopback_host h\<close>
  have "classify_resolved_host (lookup d) \<noteq> HostPublicOrUnknown"
    by (auto simp: local_host_def is_loopback_host_def classify_resolved_host_def list_ex_iff)
  then show ?thesis using True assms(1,2,3) d
    by (cases "classify_resolved_host (lookup d)")
       (auto simp: detect_mcp_auth_inner_def not_detected_def is_ok_iff Let_def)
qed

theorem detection_never_probes_local_witness:
  "\<exists>m. detect_mcp_auth_inner sample_env (\<lambda>_. ''https://mcp.example/'')
      (\<lambda>_. [V4 (ipv4_new 93 184 216 34), V4 (ipv4_new 10 0 0 7)]) ''https://mcp.example/'' = (Ok m, []) \<and>
     md_recommended_mode m \<noteq> OAuthMode"
proof -
  let ?lookup = "\<lambda>_. [V4 (ipv4_new 93 184 216 34), V4 (ipv4_new 10 0 0 7)]"
  have p: "en_parse_url sample_env ''https://mcp.example/'' = Some sample_url" by (simp add: sample_env_def)
  have v: "is_ok (validate_detection_url sample_url)" by (simp add: validate_detection_url_def sample_url_def)
  have h: "u_host sample_url = Some (Domain ''mcp.example'')" by (simp add: sample_url_def)
  have "drop_bit 24 (ipv4_new 10 0 0 7) = 10" by (simp add: range_simps) (simp add: ipv4_new_def)
  then have l: "local_host ?lookup (Domain ''mcp.example'')" by (simp add: local_host_def)
  have r: "en_parse_url sample_env ((\<lambda>_. ''https://mcp.example/'') (sample_url\<lparr>u_query := None\<rparr>)) =
      Some (sample_url\<lparr>u_query := None\<rparr>)"
    by (simp add: sample_env_def sample_url_def)
  from detection_never_probes_local[OF p v h l r] show ?thesis by blast
qed

text \<open>The parameters of the authorization URL read back as what was put in, the low eight bits
  of every character: no parameter can break out of its place or add another one, and a text
  of ASCII characters survives unchanged.\<close>

theorem auth_url_parameters:
  "\<exists>q. build_auth_url endpoint client_id redirect_uri state challenge resource scope =
      endpoint @ text_chars ''?'' @ q \<and>
    query_pairs q =
      [(text_chars ''response_type'', text_chars ''code''), (text_chars ''client_id'', low8 client_id),
       (text_chars ''redirect_uri'', low8 redirect_uri), (text_chars ''state'', low8 state),
       (text_chars ''code_challenge'', low8 challenge),
       (text_chars ''code_challenge_method'', text_chars ''S256''), (text_chars ''resource'', low8 resource)] @
      (case scope of Some s \<Rightarrow> [(text_chars ''scope'', low8 s)] | None \<Rightarrow> [])"
proof -
  let ?ps = "[(text_chars ''client_id'', client_id), (text_chars ''redirect_uri'', redirect_uri),
      (text_chars ''state'', state), (text_chars ''code_challenge'', challenge),
      (text_chars ''code_challenge_method'', text_chars ''S256''), (text_chars ''resource'', resource)] @
      (case scope of Some s \<Rightarrow> [(text_chars ''scope'', s)] | None \<Rightarrow> [])"
  let ?q = "text_chars ''response_type'' @ 61 # url_encode (text_chars ''code'') @ auth_query ?ps"
  have "\<forall>(k, v) \<in> set ((text_chars ''response_type'', text_chars ''code'') # ?ps). 38 \<notin> set k \<and> 61 \<notin> set k"
    by (simp add: text_chars_def split: option.split)
  from auth_query_pairs[OF this]
  have "query_pairs ?q = map (map_prod id low8) ((text_chars ''response_type'', text_chars ''code'') # ?ps)" .
  moreover have "build_auth_url endpoint client_id redirect_uri state challenge resource scope =
      endpoint @ text_chars ''?'' @ ?q"
    by (simp add: build_auth_url_def auth_query_def text_chars_def url_encode_def encode_char_def is_unreserved_def
        split: option.split)
  ultimately show ?thesis by (intro exI[of _ ?q]) (simp add: text_chars_def low8_def split: option.split)
qed

text \<open>A character above 255 loses its high bits: after decoding, U+0141 reads as the letter A.\<close>

lemma encode_truncates: "percent_decode (url_encode [0x141]) = percent_decode (url_encode [65])"
  by (simp add: low8_def)

end
