(* ===== verification/Mcp_Registry.thy ===== *)
theory Mcp_Registry
  imports Mcp_Net
begin

text \<open>
  The registry of external MCP servers (\<^verbatim>\<open>right-mcp/src/credentials.rs\<close>): the tables \<^verbatim>\<open>mcp_servers\<close>,
  \<^verbatim>\<open>mcp_http_headers\<close>, \<^verbatim>\<open>auth_tokens\<close> and \<^verbatim>\<open>notice_token\<close> and every operation on them.  An operation
  that runs in a transaction gives back the database it was given when it fails.  SQL statements
  fail only on a key conflict; the clock is an argument; the time stamps of the header rows,
  which no query reads, are left out.  The header-name and header-value checks of the \<^verbatim>\<open>http\<close>
  crate are the two fields of \<open>header_lib\<close>.
\<close>

section \<open>Errors and validation\<close>

datatype credential_error =
    CredentialDb string
  | ServerNotFound string
  | InvalidServerName string
  | BadServerUrl string
  | InvalidAuthHeader string
  | InvalidAuthType string

definition RESERVED_NAMES :: "string list" where "RESERVED_NAMES = [''right'', ''rightmeta'']"

definition validate_server_name :: "string \<Rightarrow> (credential_error, unit) result" where
  "validate_server_name name =
     (if name = [] then Err (InvalidServerName ''server name must not be empty'')
      else if name \<in> set RESERVED_NAMES then Err (InvalidServerName (name @ '' is a reserved server name''))
      else if contains_text ''__'' name then Err (InvalidServerName (name @ '' must not contain __''))
      else Ok ())"

definition validate_server_url :: "url_parser \<Rightarrow> string \<Rightarrow> (credential_error, unit) result" where
  "validate_server_url parse url =
     (case parse url of
        None \<Rightarrow> Err (BadServerUrl ''invalid URL'')
      | Some u \<Rightarrow>
          if u_scheme u \<noteq> ''https'' \<and> u_scheme u \<noteq> ''http'' then Err (BadServerUrl ''only HTTP/HTTPS URLs are allowed'')
          else
            (case u_host u of
               None \<Rightarrow> Err (BadServerUrl ''URL has no host'')
             | Some h \<Rightarrow>
                 if (case h of
                       Domain _ \<Rightarrow> True
                     | Ipv4 a \<Rightarrow> ip_allowed (V4 a) AllowPrivate
                     | Ipv6 a \<Rightarrow> ip_allowed (V6 a) AllowPrivate)
                 then Ok ()
                 else Err (BadServerUrl ''address is not allowed (link-local or cloud-metadata)'')))"

text \<open>The \<^verbatim>\<open>http\<close> crate: the canonical form of a header name, and which values it accepts.\<close>

record header_lib =
  hl_canonical :: "string \<Rightarrow> string option"
  hl_valid_value :: "string \<Rightarrow> bool"

record http_header =
  hh_name :: string
  hh_value :: string

definition canonical_header_name :: "header_lib \<Rightarrow> string \<Rightarrow> (credential_error, string) result" where
  "canonical_header_name lib name =
     (case hl_canonical lib name of
        Some n \<Rightarrow> Ok n
      | None \<Rightarrow> Err (InvalidAuthHeader ''invalid header name''))"

definition new_header :: "header_lib \<Rightarrow> string \<Rightarrow> string \<Rightarrow> (credential_error, http_header) result" where
  "new_header lib name value =
     bind_result (canonical_header_name lib name) (\<lambda>n.
       if value = [] then Err (InvalidAuthHeader ''header value must not be empty'')
       else if \<not> hl_valid_value lib value then Err (InvalidAuthHeader ''invalid header value'')
       else Ok \<lparr>hh_name = n, hh_value = value\<rparr>)"

definition validate_header_name :: "header_lib \<Rightarrow> string \<Rightarrow> (credential_error, unit) result" where
  "validate_header_name lib name = bind_result (canonical_header_name lib name) (\<lambda>_. Ok ())"

section \<open>The tables\<close>

record server_entry =
  sv_name :: string
  sv_url :: string
  sv_instructions :: "string option"
  sv_auth_type :: "string option"
  sv_auth_header :: "string option"
  sv_auth_token :: "string option"
  sv_refresh_token :: "string option"
  sv_token_endpoint :: "string option"
  sv_client_id :: "string option"
  sv_client_secret :: "string option"
  sv_expires_at :: "string option"
  sv_oauth_resource :: "string option"

record server_row = server_entry +
  sv_created_at :: string

record header_row =
  hd_server :: string
  hd_name :: string
  hd_value :: string

record mcp_db =
  mcp_servers :: "server_row list"
  mcp_headers :: "header_row list"
  auth_tokens :: "string list"
  notice_token :: "string option"

text \<open>The column \<^verbatim>\<open>header_name\<close> compares and sorts without case.\<close>

definition nocase :: "string \<Rightarrow> string" where "nocase s = map to_lower s"

definition hd_key :: "header_row \<Rightarrow> string \<times> string" where
  "hd_key h = (hd_server h, nocase (hd_name h))"

text \<open>What a transaction answers and the database it leaves.\<close>

definition run_tx :: "mcp_db \<Rightarrow> (credential_error, 'a \<times> mcp_db) result \<Rightarrow>
    (credential_error, 'a) result \<times> mcp_db" where
  "run_tx db out = (case out of Ok (x, db') \<Rightarrow> (Ok x, db') | Err e \<Rightarrow> (Err e, db))"

section \<open>Reads\<close>

definition db_server_exists :: "mcp_db \<Rightarrow> string \<Rightarrow> bool" where
  "db_server_exists db name = list_ex (\<lambda>r. sv_name r = name) (mcp_servers db)"

definition db_list_servers :: "mcp_db \<Rightarrow> server_entry list" where
  "db_list_servers db = map server_entry.truncate (sort_key sv_name (mcp_servers db))"

definition db_list_oauth_servers :: "mcp_db \<Rightarrow> server_entry list" where
  "db_list_oauth_servers db =
     map server_entry.truncate (sort_key sv_name
       (filter (\<lambda>r. sv_auth_type r = Some ''oauth'' \<and> sv_refresh_token r \<noteq> None) (mcp_servers db)))"

definition server_headers :: "mcp_db \<Rightarrow> string \<Rightarrow> header_row list" where
  "server_headers db name = sort_key (\<lambda>h. nocase (hd_name h)) (filter (\<lambda>h. hd_server h = name) (mcp_headers db))"

definition db_list_http_header_names :: "mcp_db \<Rightarrow> string \<Rightarrow> string list" where
  "db_list_http_header_names db name = map hd_name (server_headers db name)"

definition db_list_all_http_header_names :: "mcp_db \<Rightarrow> (string \<times> string) list" where
  "db_list_all_http_header_names db =
     map (\<lambda>h. (hd_server h, hd_name h)) (sort_key hd_server (sort_key (\<lambda>h. nocase (hd_name h)) (mcp_headers db)))"

fun decode_headers :: "header_lib \<Rightarrow> header_row list \<Rightarrow> (credential_error, http_header list) result" where
  "decode_headers lib [] = Ok []"
| "decode_headers lib (h # hs) =
     bind_result (new_header lib (hd_name h) (hd_value h)) (\<lambda>x.
     bind_result (decode_headers lib hs) (\<lambda>xs. Ok (x # xs)))"

definition db_list_http_headers :: "header_lib \<Rightarrow> mcp_db \<Rightarrow> string \<Rightarrow> (credential_error, http_header list) result" where
  "db_list_http_headers lib db name = decode_headers lib (server_headers db name)"

record server_snapshot =
  sn_server :: server_entry
  sn_headers :: "http_header list"
  sn_created_at :: string

definition db_get_server_snapshot :: "header_lib \<Rightarrow> mcp_db \<Rightarrow> string \<Rightarrow>
    (credential_error, server_snapshot option) result" where
  "db_get_server_snapshot lib db name =
     (case List.find (\<lambda>r. sv_name r = name) (mcp_servers db) of
        None \<Rightarrow> Ok None
      | Some r \<Rightarrow>
          bind_result (db_list_http_headers lib db name) (\<lambda>hs.
            Ok (Some \<lparr>sn_server = server_entry.truncate r, sn_headers = hs, sn_created_at = sv_created_at r\<rparr>)))"

section \<open>Writes\<close>

definition new_server_row :: "string \<Rightarrow> string \<Rightarrow> string \<Rightarrow> server_row" where
  "new_server_row name url created =
     \<lparr>sv_name = name, sv_url = url, sv_instructions = None, sv_auth_type = None, sv_auth_header = None,
      sv_auth_token = None, sv_refresh_token = None, sv_token_endpoint = None, sv_client_id = None,
      sv_client_secret = None, sv_expires_at = None, sv_oauth_resource = None, sv_created_at = created\<rparr>"

text \<open>\<^verbatim>\<open>INSERT ... ON CONFLICT(name) DO UPDATE\<close>: the row when it is new, the update of the old one.\<close>

definition upsert_server :: "server_row \<Rightarrow> (server_row \<Rightarrow> server_row) \<Rightarrow> mcp_db \<Rightarrow> mcp_db" where
  "upsert_server row f db =
     (if db_server_exists db (sv_name row)
      then db\<lparr>mcp_servers := update_where (\<lambda>r. sv_name r = sv_name row) f (mcp_servers db)\<rparr>
      else db\<lparr>mcp_servers := mcp_servers db @ [row]\<rparr>)"

definition db_add_server :: "url_parser \<Rightarrow> string \<Rightarrow> string \<Rightarrow> string \<Rightarrow> mcp_db \<Rightarrow> (credential_error, unit) result \<times> mcp_db" where
  "db_add_server parse created name url db =
     run_tx db
       (bind_result (validate_server_name name) (\<lambda>_.
        bind_result (validate_server_url parse url) (\<lambda>_.
          Ok ((), upsert_server (new_server_row name url created) (\<lambda>r. r\<lparr>sv_url := url\<rparr>) db))))"

text \<open>The trigger on the server table deletes the headers of a removed server.\<close>

definition db_remove_server :: "string \<Rightarrow> mcp_db \<Rightarrow> (credential_error, unit) result \<times> mcp_db" where
  "db_remove_server name db =
     (if count_where (\<lambda>r. sv_name r = name) (mcp_servers db) = 0 then (Err (ServerNotFound name), db)
      else (Ok (), db\<lparr>mcp_servers := delete_where (\<lambda>r. sv_name r = name) (mcp_servers db),
                      mcp_headers := delete_where (\<lambda>h. hd_server h = name) (mcp_headers db)\<rparr>))"

definition update_server :: "string \<Rightarrow> (server_row \<Rightarrow> server_row) \<Rightarrow> mcp_db \<Rightarrow> (credential_error, mcp_db) result" where
  "update_server name f db =
     (if count_where (\<lambda>r. sv_name r = name) (mcp_servers db) = 0 then Err (ServerNotFound name)
      else Ok (db\<lparr>mcp_servers := update_where (\<lambda>r. sv_name r = name) f (mcp_servers db)\<rparr>))"

definition db_update_instructions :: "string \<Rightarrow> string option \<Rightarrow> mcp_db \<Rightarrow> (credential_error, unit) result \<times> mcp_db" where
  "db_update_instructions name instructions db =
     run_tx db (bind_result (update_server name (\<lambda>r. r\<lparr>sv_instructions := instructions\<rparr>) db) (\<lambda>db'. Ok ((), db')))"

definition drop_headers :: "string \<Rightarrow> mcp_db \<Rightarrow> mcp_db" where
  "drop_headers name db = db\<lparr>mcp_headers := delete_where (\<lambda>h. hd_server h = name) (mcp_headers db)\<rparr>"

text \<open>The columns every change of the authentication mode resets.\<close>

definition reset_auth :: "string option \<Rightarrow> string option \<Rightarrow> string option \<Rightarrow> server_row \<Rightarrow> server_row" where
  "reset_auth auth_type auth_header auth_token r =
     r\<lparr>sv_auth_type := auth_type, sv_auth_header := auth_header, sv_auth_token := auth_token,
       sv_refresh_token := None, sv_token_endpoint := None, sv_client_id := None,
       sv_client_secret := None, sv_expires_at := None, sv_oauth_resource := None\<rparr>"

text \<open>Plain inserts fail on a header that is there already, in any case.\<close>

fun insert_headers :: "string \<Rightarrow> http_header list \<Rightarrow> header_row list \<Rightarrow> (credential_error, header_row list) result" where
  "insert_headers name [] t = Ok t"
| "insert_headers name (h # hs) t =
     (let row = \<lparr>hd_server = name, hd_name = hh_name h, hd_value = hh_value h\<rparr> in
      if list_ex (\<lambda>x. hd_key x = hd_key row) t then Err (CredentialDb ''UNIQUE'')
      else insert_headers name hs (t @ [row]))"

definition upsert_header :: "string \<Rightarrow> http_header \<Rightarrow> header_row list \<Rightarrow> header_row list" where
  "upsert_header name h t =
     (let row = \<lparr>hd_server = name, hd_name = hh_name h, hd_value = hh_value h\<rparr> in
      if list_ex (\<lambda>x. hd_key x = hd_key row) t
      then update_where (\<lambda>x. hd_key x = hd_key row) (\<lambda>x. x\<lparr>hd_value := hh_value h\<rparr>) t
      else t @ [row])"

datatype server_auth =
    AuthNone
  | AuthLegacy string "string option" "string option"
  | AuthHeaders "http_header list"

definition replace_server_auth :: "string \<Rightarrow> server_auth \<Rightarrow> mcp_db \<Rightarrow> (credential_error, mcp_db) result" where
  "replace_server_auth name auth db =
     (let (auth_type, auth_header, auth_token) = (case auth of
            AuthNone \<Rightarrow> (None, None, None)
          | AuthLegacy t h tok \<Rightarrow> (Some t, h, tok)
          | AuthHeaders _ \<Rightarrow> (Some ''headers'', None, None))
      in bind_result (update_server name (reset_auth auth_type auth_header auth_token) db) (\<lambda>db1.
         let db2 = drop_headers name db1 in
         case auth of
           AuthHeaders hs \<Rightarrow>
             bind_result (insert_headers name hs (mcp_headers db2)) (\<lambda>t. Ok (db2\<lparr>mcp_headers := t\<rparr>))
         | _ \<Rightarrow> Ok db2))"

definition db_replace_server :: "header_lib \<Rightarrow> url_parser \<Rightarrow> string \<Rightarrow> string \<Rightarrow> string \<Rightarrow> server_auth \<Rightarrow> mcp_db \<Rightarrow>
    (credential_error, server_snapshot option) result \<times> mcp_db" where
  "db_replace_server lib parse created name url auth db =
     run_tx db
       (bind_result (validate_server_name name) (\<lambda>_.
        bind_result (validate_server_url parse url) (\<lambda>_.
        bind_result (db_get_server_snapshot lib db name) (\<lambda>previous.
          case db_add_server parse created name url db of
            (Err e, _) \<Rightarrow> Err e
          | (Ok _, db1) \<Rightarrow>
              bind_result (replace_server_auth name auth db1) (\<lambda>db2. Ok (previous, db2))))))"

definition db_restore_server_snapshot :: "server_snapshot \<Rightarrow> mcp_db \<Rightarrow> (credential_error, unit) result \<times> mcp_db" where
  "db_restore_server_snapshot snap db =
     (let row = server_entry.extend (sn_server snap) \<lparr>sv_created_at = sn_created_at snap\<rparr>;
          db1 = drop_headers (sv_name row) (upsert_server row (\<lambda>_. row) db)
      in run_tx db
           (bind_result (insert_headers (sv_name row) (sn_headers snap) (mcp_headers db1))
              (\<lambda>t. Ok ((), db1\<lparr>mcp_headers := t\<rparr>))))"

definition db_set_auth :: "string \<Rightarrow> string \<Rightarrow> string option \<Rightarrow> string option \<Rightarrow> mcp_db \<Rightarrow> (credential_error, unit) result \<times> mcp_db" where
  "db_set_auth name auth_type auth_header auth_token db =
     (if auth_type = ''headers'' then (Err (InvalidAuthType ''headers auth must be configured with db_set_http_headers''), db)
      else run_tx db
        (bind_result (update_server name (reset_auth (Some auth_type) auth_header auth_token) db)
           (\<lambda>db1. Ok ((), drop_headers name db1))))"

definition db_clear_auth :: "string \<Rightarrow> mcp_db \<Rightarrow> (credential_error, unit) result \<times> mcp_db" where
  "db_clear_auth name db =
     run_tx db (bind_result (update_server name (reset_auth None None None) db) (\<lambda>db1. Ok ((), drop_headers name db1)))"

definition db_set_http_headers :: "string \<Rightarrow> http_header list \<Rightarrow> mcp_db \<Rightarrow> (credential_error, unit) result \<times> mcp_db" where
  "db_set_http_headers name hs db =
     run_tx db
       (bind_result (update_server name (reset_auth (Some ''headers'') None None) db) (\<lambda>db1.
          let db2 = drop_headers name db1
          in Ok ((), db2\<lparr>mcp_headers := fold (upsert_header name) hs (mcp_headers db2)\<rparr>)))"

definition db_set_oauth_state :: "string \<Rightarrow> string \<Rightarrow> string option \<Rightarrow> string \<Rightarrow> string \<Rightarrow> string option \<Rightarrow> string \<Rightarrow> string \<Rightarrow>
    mcp_db \<Rightarrow> (credential_error, unit) result \<times> mcp_db" where
  "db_set_oauth_state name access_token refresh endpoint client secret expires resource db =
     run_tx db
       (bind_result (update_server name
          (\<lambda>r. r\<lparr>sv_auth_type := Some ''oauth'', sv_auth_header := None,
                 sv_auth_token := (if access_token = [] then None else Some access_token),
                 sv_refresh_token := refresh, sv_token_endpoint := Some endpoint, sv_client_id := Some client,
                 sv_client_secret := secret, sv_expires_at := Some expires, sv_oauth_resource := Some resource\<rparr>) db)
          (\<lambda>db1. Ok ((), drop_headers name db1)))"

definition db_update_oauth_token :: "string \<Rightarrow> string \<Rightarrow> string option \<Rightarrow> string \<Rightarrow> mcp_db \<Rightarrow> (credential_error, unit) result \<times> mcp_db" where
  "db_update_oauth_token name access_token refresh expires db =
     run_tx db
       (bind_result (update_server name
          (case refresh of
             Some rt \<Rightarrow> (\<lambda>r. r\<lparr>sv_auth_token := Some access_token, sv_refresh_token := Some rt, sv_expires_at := Some expires\<rparr>)
           | None \<Rightarrow> (\<lambda>r. r\<lparr>sv_auth_token := Some access_token, sv_expires_at := Some expires\<rparr>)) db)
          (\<lambda>db'. Ok ((), db')))"

section \<open>The single-row tables\<close>

definition save_auth_token :: "string \<Rightarrow> mcp_db \<Rightarrow> mcp_db" where
  "save_auth_token token db = db\<lparr>auth_tokens := [token]\<rparr>"

definition get_auth_token :: "mcp_db \<Rightarrow> string option" where
  "get_auth_token db = (case auth_tokens db of t # _ \<Rightarrow> Some t | [] \<Rightarrow> None)"

definition delete_auth_token :: "mcp_db \<Rightarrow> mcp_db" where
  "delete_auth_token db = db\<lparr>auth_tokens := []\<rparr>"

text \<open>\<^verbatim>\<open>INSERT OR IGNORE\<close> and the read that follows it.\<close>

definition get_or_create_notice_token :: "string \<Rightarrow> mcp_db \<Rightarrow> string \<times> mcp_db" where
  "get_or_create_notice_token candidate db =
     (case notice_token db of
        Some t \<Rightarrow> (t, db)
      | None \<Rightarrow> (candidate, db\<lparr>notice_token := Some candidate\<rparr>))"

definition redact_url :: "string \<Rightarrow> string" where
  "redact_url url =
     (if CHR ''?'' \<in> set url then takeWhile (\<lambda>c. c \<noteq> CHR ''?'') url @ ''?<redacted>'' else url)"

end
