(* ===== verification/Mcp_Registry_Props.thy ===== *)
theory Mcp_Registry_Props
  imports Mcp_Registry
begin

text \<open>
  Properties of the MCP server registry.  The four operations that switch a server's
  authentication mode share one contract, the locale \<open>auth_switch\<close>; a replacement and its undo
  are treated on their own.
\<close>

section \<open>The invariant\<close>

definition registry_inv :: "mcp_db \<Rightarrow> bool" where
  "registry_inv db =
     (distinct (map sv_name (mcp_servers db)) \<and> distinct (map hd_key (mcp_headers db)) \<and>
      (\<forall>r \<in> set (mcp_servers db). is_ok (validate_server_name (sv_name r))) \<and>
      (\<forall>h \<in> set (mcp_headers db). \<exists>r \<in> set (mcp_servers db).
         sv_name r = hd_server h \<and> sv_auth_type r = Some ''headers''))"

lemma registry_invI [inv_intros]:
  assumes "distinct (map sv_name (mcp_servers db))" and "distinct (map hd_key (mcp_headers db))"
    and "\<And>r. r \<in> set (mcp_servers db) \<Longrightarrow> is_ok (validate_server_name (sv_name r))"
    and "\<And>h. h \<in> set (mcp_headers db) \<Longrightarrow> \<exists>r \<in> set (mcp_servers db).
      sv_name r = hd_server h \<and> sv_auth_type r = Some ''headers''"
  shows "registry_inv db"
  using assms by (simp add: registry_inv_def)

lemma registry_invD:
  assumes "registry_inv db"
  shows "distinct (map sv_name (mcp_servers db))" "distinct (map hd_key (mcp_headers db))"
    and "r \<in> set (mcp_servers db) \<Longrightarrow> is_ok (validate_server_name (sv_name r))"
    and "h \<in> set (mcp_headers db) \<Longrightarrow> \<exists>r \<in> set (mcp_servers db).
      sv_name r = hd_server h \<and> sv_auth_type r = Some ''headers''"
  using assms by (simp_all add: registry_inv_def)

lemma exists_iff: "db_server_exists db n \<longleftrightarrow> n \<in> sv_name ` set (mcp_servers db)"
  by (auto simp: db_server_exists_def list_ex_iff)

lemma update_server_eq:
  "update_server n f db =
     (if db_server_exists db n then Ok (db\<lparr>mcp_servers := update_where (\<lambda>r. sv_name r = n) f (mcp_servers db)\<rparr>)
      else Err (ServerNotFound n))"
  by (auto simp: update_server_def count_where_0 db_server_exists_def list_ex_iff)

lemma run_tx_simps [simp]: "run_tx db (Ok (x, db')) = (Ok x, db')" "run_tx db (Err e) = (Err e, db)"
  by (simp_all add: run_tx_def)

section \<open>Header lists\<close>

definition header_of :: "string \<Rightarrow> http_header \<Rightarrow> header_row" where
  "header_of n h = \<lparr>hd_server = n, hd_name = hh_name h, hd_value = hh_value h\<rparr>"

lemma header_of_simps [simp]:
  "hd_server (header_of n h) = n" "hd_name (header_of n h) = hh_name h" "hd_value (header_of n h) = hh_value h"
  "hd_key (header_of n h) = (n, nocase (hh_name h))"
  by (simp_all add: header_of_def hd_key_def)

lemma fst_hd_key [simp]: "fst (hd_key h) = hd_server h" by (simp add: hd_key_def)

definition header_keys :: "string \<Rightarrow> http_header list \<Rightarrow> (string \<times> string) set" where
  "header_keys n hs = (\<lambda>h. (n, nocase (hh_name h))) ` set hs"

lemma header_keys_simps [simp]:
  "header_keys n [] = {}" "header_keys n (h # hs) = insert (n, nocase (hh_name h)) (header_keys n hs)"
  "(n, k) \<in> header_keys n hs \<longleftrightarrow> k \<in> (\<lambda>h. nocase (hh_name h)) ` set hs"
  by (auto simp: header_keys_def)

lemma insert_headers_iff:
  "insert_headers n hs t = Ok t' \<longleftrightarrow>
     t' = t @ map (header_of n) hs \<and> distinct (map (\<lambda>h. nocase (hh_name h)) hs) \<and>
     header_keys n hs \<inter> hd_key ` set t = {}"
proof (induction hs arbitrary: t)
  case (Cons h hs)
  show ?case
  proof (cases "(n, nocase (hh_name h)) \<in> hd_key ` set t")
    case True
    then show ?thesis by (auto simp: list_ex_iff Let_def hd_key_def)
  next
    case False
    have e: "insert_headers n (h # hs) t = insert_headers n hs (t @ [header_of n h])"
      using False by (auto simp: list_ex_iff Let_def header_of_def hd_key_def image_iff)
    have k: "hd_key ` set (t @ [header_of n h]) = insert (n, nocase (hh_name h)) (hd_key ` set t)" by simp
    show ?thesis unfolding e Cons k using False by auto
  qed
qed auto

lemma upsert_append:
  assumes "\<forall>x \<in> set t. hd_server x \<noteq> n"
  shows "upsert_header n h (t @ u) = t @ upsert_header n h u"
proof -
  have k: "x \<in> set t \<Longrightarrow> hd_key x \<noteq> (n, nocase (hh_name h))" for x
    using assms by (auto simp: hd_key_def)
  then have "update_where (\<lambda>x. hd_key x = (n, nocase (hh_name h))) f t = t" for f
    by (simp add: update_where_def map_idI)
  then show ?thesis using k
    by (auto simp: upsert_header_def Let_def list_ex_iff hd_key_def update_where_def)
qed

lemma fold_upsert_append:
  assumes "\<forall>x \<in> set t. hd_server x \<noteq> n"
  shows "fold (upsert_header n) hs (t @ u) = t @ fold (upsert_header n) hs u"
  using assms by (induction hs arbitrary: u) (simp_all add: upsert_append)

lemma upsert_props:
  assumes "distinct (map hd_key u)" and "\<forall>x \<in> set u. hd_server x = n"
  shows "distinct (map hd_key (upsert_header n h u)) \<and> (\<forall>x \<in> set (upsert_header n h u). hd_server x = n)"
proof (cases "list_ex (\<lambda>x. hd_key x = (n, nocase (hh_name h))) u")
  case True
  have "map hd_key (update_where c (\<lambda>x. x\<lparr>hd_value := hh_value h\<rparr>) u) = map hd_key u" for c
    by (intro update_where_key) (simp add: hd_key_def)
  with True assms show ?thesis
    by (auto simp: upsert_header_def Let_def hd_key_def set_update_where)
next
  case False
  with assms show ?thesis by (auto simp: upsert_header_def Let_def hd_key_def list_ex_iff)
qed

lemma fold_upsert_props:
  assumes "distinct (map hd_key u)" and "\<forall>x \<in> set u. hd_server x = n"
  shows "distinct (map hd_key (fold (upsert_header n) hs u)) \<and> (\<forall>x \<in> set (fold (upsert_header n) hs u). hd_server x = n)"
  using assms
proof (induction hs arbitrary: u)
  case (Cons h hs)
  note p = upsert_props[OF Cons.prems, of h]
  show ?case using Cons.IH[OF p[THEN conjunct1] p[THEN conjunct2]] by simp
qed simp

lemma fold_upsert_distinct:
  assumes "distinct (map (\<lambda>h. nocase (hh_name h)) hs)" and "header_keys n hs \<inter> hd_key ` set u = {}"
  shows "fold (upsert_header n) hs u = u @ map (header_of n) hs"
  using assms
proof (induction hs arbitrary: u)
  case (Cons h hs)
  have u: "upsert_header n h u = u @ [header_of n h]"
    using Cons.prems(2) by (auto simp: upsert_header_def Let_def header_of_def hd_key_def list_ex_iff image_iff)
  have "hd_key ` set (u @ [header_of n h]) = insert (n, nocase (hh_name h)) (hd_key ` set u)" by simp
  then have "header_keys n hs \<inter> hd_key ` set (u @ [header_of n h]) = {}"
    using Cons.prems by auto
  then show ?case using Cons.IH[of "u @ [header_of n h]"] Cons.prems(1) u by simp
qed simp

section \<open>Switching the authentication mode\<close>

text \<open>What a client sees of one server: its rows and its headers.\<close>

definition server_view :: "mcp_db \<Rightarrow> string \<Rightarrow> server_row list \<times> header_row list" where
  "server_view db n = (filter (\<lambda>r. sv_name r = n) (mcp_servers db), filter (\<lambda>h. hd_server h = n) (mcp_headers db))"

locale auth_switch =
  fixes enabled :: bool
    and op :: "mcp_db \<Rightarrow> (credential_error, unit) result \<times> mcp_db"
    and name :: string
    and mode :: "server_row \<Rightarrow> server_row"
    and hdrs :: "header_row list"
  assumes disabled: "\<not> enabled \<Longrightarrow> snd (op db) = db"
    and switches: "enabled \<Longrightarrow> op db =
      (if db_server_exists db name
       then (Ok (), db\<lparr>mcp_servers := update_where (\<lambda>r. sv_name r = name) mode (mcp_servers db),
                      mcp_headers := delete_where (\<lambda>h. hd_server h = name) (mcp_headers db) @ hdrs\<rparr>)
       else (Err (ServerNotFound name), db))"
    and mode_name: "sv_name (mode r) = sv_name r"
    and hdrs_server: "h \<in> set hdrs \<Longrightarrow> hd_server h = name"
    and hdrs_distinct: "distinct (map hd_key hdrs)"
    and hdrs_mode: "hdrs \<noteq> [] \<Longrightarrow> sv_auth_type (mode r) = Some ''headers''"
begin

lemma switch_inv:
  assumes i: "registry_inv db"
  shows "registry_inv (snd (op db))"
proof (cases "enabled \<and> db_server_exists db name")
  case False
  then show ?thesis using i disabled switches by (cases enabled) auto
next
  case True
  let ?db = "db\<lparr>mcp_servers := update_where (\<lambda>r. sv_name r = name) mode (mcp_servers db),
      mcp_headers := delete_where (\<lambda>h. hd_server h = name) (mcp_headers db) @ hdrs\<rparr>"
  have "registry_inv ?db"
  proof (rule registry_invI)
    show "distinct (map sv_name (mcp_servers ?db))"
      using registry_invD(1)[OF i] mode_name by (simp add: update_where_key)
    have "set (map hd_key (delete_where (\<lambda>h. hd_server h = name) (mcp_headers db))) \<inter> set (map hd_key hdrs) = {}"
      using hdrs_server by (auto simp: set_delete_where hd_key_def)
    then show "distinct (map hd_key (mcp_headers ?db))"
      using registry_invD(2)[OF i] hdrs_distinct by (simp add: delete_where_distinct)
    show "is_ok (validate_server_name (sv_name r))" if "r \<in> set (mcp_servers ?db)" for r
      using that registry_invD(3)[OF i] mode_name by (auto simp: set_update_where)
    show "\<exists>r \<in> set (mcp_servers ?db). sv_name r = hd_server h \<and> sv_auth_type r = Some ''headers''"
      if h: "h \<in> set (mcp_headers ?db)" for h
    proof (cases "h \<in> set hdrs")
      case True
      then show ?thesis
        using \<open>enabled \<and> db_server_exists db name\<close> hdrs_mode[of _] hdrs_server[OF True] mode_name
        by (fastforce simp: ex_update_where exists_iff)
    next
      case False
      then have h': "h \<in> set (mcp_headers db)" "hd_server h \<noteq> name"
        using h by (auto simp: set_delete_where)
      obtain r where "r \<in> set (mcp_servers db)" "sv_name r = hd_server h" "sv_auth_type r = Some ''headers''"
        using registry_invD(4)[OF i h'(1)] by blast
      then show ?thesis using h'(2) mode_name by (auto simp: ex_update_where intro!: bexI[of _ r])
    qed
  qed
  then show ?thesis using True switches by simp
qed

lemma switch_self:
  assumes enabled and "db_server_exists db name"
  shows "server_view (snd (op db)) name = (map mode (fst (server_view db name)), hdrs)"
proof -
  have "filter (\<lambda>r. sv_name r = name) (update_where (\<lambda>r. sv_name r = name) mode t) =
      map mode (filter (\<lambda>r. sv_name r = name) t)" for t
    using mode_name by (induction t) (auto simp: update_where_def)
  moreover have "filter (\<lambda>h. hd_server h = name) hdrs = hdrs"
    using hdrs_server by (simp add: filter_True)
  ultimately show ?thesis
    using assms switches by (simp add: server_view_def delete_where_def)
qed

lemma switch_other:
  assumes "m \<noteq> name"
  shows "server_view (snd (op db)) m = server_view db m"
proof -
  have "filter (\<lambda>r. sv_name r = m) (update_where (\<lambda>r. sv_name r = name) mode t) = filter (\<lambda>r. sv_name r = m) t" for t
    using mode_name assms by (induction t) (auto simp: update_where_def)
  moreover have "filter (\<lambda>h. hd_server h = m) (delete_where (\<lambda>h. hd_server h = name) t) = filter (\<lambda>h. hd_server h = m) t" for t
    using assms by (induction t) (auto simp: delete_where_def)
  moreover have "filter (\<lambda>h. hd_server h = m) hdrs = []"
    using hdrs_server assms by (auto simp: filter_empty_conv)
  ultimately have "enabled \<Longrightarrow> ?thesis" using switches[of db] by (cases "db_server_exists db name") (simp_all add: server_view_def)
  then show ?thesis using disabled by (cases enabled) auto
qed

end

lemma reset_auth_name [simp]: "sv_name (reset_auth t h k r) = sv_name r"
  by (simp add: reset_auth_def)

lemma reset_auth_type [simp]: "sv_auth_type (reset_auth t h k r) = t"
  by (simp add: reset_auth_def)

interpretation clear: auth_switch True "db_clear_auth n" n "reset_auth None None None" "[]" for n
  by unfold_locales (simp_all add: db_clear_auth_def update_server_eq drop_headers_def)

interpretation legacy: auth_switch "t \<noteq> ''headers''" "db_set_auth n t h k" n "reset_auth (Some t) h k" "[]" for n t h k
  by unfold_locales (simp_all add: db_set_auth_def update_server_eq drop_headers_def)

interpretation http_headers: auth_switch True "db_set_http_headers n hs" n "reset_auth (Some ''headers'') None None"
    "fold (upsert_header n) hs []" for n hs
proof (unfold_locales, goal_cases)
  case (2 db)
  have "fold (upsert_header n) hs (delete_where (\<lambda>h. hd_server h = n) (mcp_headers db)) =
      delete_where (\<lambda>h. hd_server h = n) (mcp_headers db) @ fold (upsert_header n) hs []"
    using fold_upsert_append[of "delete_where (\<lambda>h. hd_server h = n) (mcp_headers db)" n hs "[]"]
    by (simp add: set_delete_where)
  then show ?case by (simp add: db_set_http_headers_def update_server_eq drop_headers_def Let_def)
qed (use fold_upsert_props[of "[]" n hs] in auto)

interpretation oauth: auth_switch True "db_set_oauth_state n at rt ep cl sec ex res" n
    "\<lambda>r. r\<lparr>sv_auth_type := Some ''oauth'', sv_auth_header := None,
       sv_auth_token := (if at = [] then None else Some at), sv_refresh_token := rt,
       sv_token_endpoint := Some ep, sv_client_id := Some cl, sv_client_secret := sec,
       sv_expires_at := Some ex, sv_oauth_resource := Some res\<rparr>" "[]" for n at rt ep cl sec ex res
  by unfold_locales (simp_all add: db_set_oauth_state_def update_server_eq drop_headers_def)

section \<open>Replacing a server and undoing it\<close>

text \<open>What the \<^verbatim>\<open>http\<close> crate documents of header names: the canonical form is lower case and
  canonical itself.\<close>

definition header_lib_ok :: "header_lib \<Rightarrow> bool" where
  "header_lib_ok lib = (\<forall>n m. hl_canonical lib n = Some m \<longrightarrow> m = nocase n \<and> hl_canonical lib m = Some m)"

lemma auth_columns:
  "replace_server_auth n auth db = Ok db' \<Longrightarrow>
     \<exists>f hs. (\<forall>r. sv_name (f r) = sv_name r) \<and> (hs \<noteq> [] \<longrightarrow> (\<forall>r. sv_auth_type (f r) = Some ''headers'')) \<and>
       db_server_exists db n \<and> distinct (map (\<lambda>h. nocase (hh_name h)) hs) \<and>
       db' = db\<lparr>mcp_servers := update_where (\<lambda>r. sv_name r = n) f (mcp_servers db),
         mcp_headers := delete_where (\<lambda>h. hd_server h = n) (mcp_headers db) @ map (header_of n) hs\<rparr>"
proof (cases auth)
  case AuthNone
  then show "replace_server_auth n auth db = Ok db' \<Longrightarrow> ?thesis"
    by (intro exI[of _ "reset_auth None None None"] exI[of _ "[]"])
       (auto simp: replace_server_auth_def update_server_eq drop_headers_def Let_def split: if_splits)
next
  case (AuthLegacy t h k)
  then show "replace_server_auth n auth db = Ok db' \<Longrightarrow> ?thesis"
    by (intro exI[of _ "reset_auth (Some t) h k"] exI[of _ "[]"])
       (auto simp: replace_server_auth_def update_server_eq drop_headers_def Let_def split: if_splits)
next
  case (AuthHeaders hs)
  then show "replace_server_auth n auth db = Ok db' \<Longrightarrow> ?thesis"
    by (intro exI[of _ "reset_auth (Some ''headers'') None None"] exI[of _ hs])
       (auto simp: replace_server_auth_def update_server_eq drop_headers_def Let_def bind_result_Inr insert_headers_iff
          split: if_splits)
qed

text \<open>The database a successful replacement leaves.\<close>

definition replaced :: "string \<Rightarrow> server_row \<Rightarrow> (server_row \<Rightarrow> server_row) \<Rightarrow> http_header list \<Rightarrow> mcp_db \<Rightarrow> mcp_db" where
  "replaced n row f hs db =
     db\<lparr>mcp_servers := (if db_server_exists db n then update_where (\<lambda>r. sv_name r = n) f (mcp_servers db)
                       else mcp_servers db @ [row]),
        mcp_headers := delete_where (\<lambda>h. hd_server h = n) (mcp_headers db) @ map (header_of n) hs\<rparr>"

lemma db_add_server_Ok:
  "db_add_server parse created n url db = (Ok (), db') \<longleftrightarrow>
     is_ok (validate_server_name n) \<and> is_ok (validate_server_url parse url) \<and>
     db' = upsert_server (new_server_row n url created) (\<lambda>r. r\<lparr>sv_url := url\<rparr>) db"
  by (auto simp: db_add_server_def run_tx_def bind_result_def is_ok_def split: sum.splits)

lemma replace_cases:
  assumes "db_replace_server lib parse created n url auth db = (Ok prev, db')"
  shows "is_ok (validate_server_name n) \<and> db_get_server_snapshot lib db n = Ok prev \<and>
    (\<exists>row f hs. sv_name row = n \<and> (\<forall>r. sv_name (f r) = sv_name r) \<and>
       (hs \<noteq> [] \<longrightarrow> sv_auth_type row = Some ''headers'' \<and> (\<forall>r. sv_auth_type (f r) = Some ''headers'')) \<and>
       distinct (map (\<lambda>h. nocase (hh_name h)) hs) \<and> db' = replaced n row f hs db)"
proof -
  let ?new = "new_server_row n url created" and ?url = "\<lambda>r :: server_row. r\<lparr>sv_url := url\<rparr>"
  let ?db1 = "upsert_server ?new ?url db"
  have v: "is_ok (validate_server_name n)" "db_get_server_snapshot lib db n = Ok prev"
    and r: "replace_server_auth n auth ?db1 = Ok db'"
    using assms db_add_server_Ok[of parse created n url db]
    by (auto simp: db_replace_server_def run_tx_def bind_result_Inr split: sum.splits prod.splits)
  from auth_columns[OF r] obtain f hs where f: "\<forall>r. sv_name (f r) = sv_name r"
    "hs \<noteq> [] \<longrightarrow> (\<forall>r. sv_auth_type (f r) = Some ''headers'')" "distinct (map (\<lambda>h. nocase (hh_name h)) hs)"
    and db': "db' = ?db1\<lparr>mcp_servers := update_where (\<lambda>r. sv_name r = n) f (mcp_servers ?db1),
         mcp_headers := delete_where (\<lambda>h. hd_server h = n) (mcp_headers ?db1) @ map (header_of n) hs\<rparr>"
    by blast
  have n: "sv_name ?new = n" by (simp add: new_server_row_def)
  have "db' = replaced n (f ?new) (f \<circ> ?url) hs db"
  proof (cases "db_server_exists db n")
    case True
    then show ?thesis
      by (simp add: db' replaced_def upsert_server_def n update_where_def comp_def)
  next
    case False
    then have "update_where (\<lambda>r. sv_name r = n) f (mcp_servers db) = mcp_servers db"
      by (auto simp: update_where_def db_server_exists_def list_ex_iff intro!: map_idI)
    with False show ?thesis
      by (simp add: db' replaced_def upsert_server_def n update_where_def)
  qed
  then show ?thesis using v f n by (intro conjI exI[of _ "f ?new"] exI[of _ "f \<circ> ?url"] exI[of _ hs]) simp_all
qed

lemma replaced_inv:
  assumes i: "registry_inv db" and n: "is_ok (validate_server_name n)"
    and r: "sv_name row = n" "\<forall>r. sv_name (f r) = sv_name r"
    and h: "hs \<noteq> [] \<longrightarrow> sv_auth_type row = Some ''headers'' \<and> (\<forall>r. sv_auth_type (f r) = Some ''headers'')"
    and d: "distinct (map (\<lambda>h. nocase (hh_name h)) hs)"
  shows "registry_inv (replaced n row f hs db)"
proof (rule registry_invI)
  let ?db = "replaced n row f hs db"
  have s: "set (mcp_servers ?db) = (\<lambda>r. if sv_name r = n then f r else r) ` set (mcp_servers db) \<union>
      (if db_server_exists db n then {} else {row})"
    by (auto simp: replaced_def update_where_def db_server_exists_def list_ex_iff)
  show "distinct (map sv_name (mcp_servers ?db))"
    using registry_invD(1)[OF i] r by (auto simp: replaced_def update_where_key exists_iff)
  have "distinct (map (\<lambda>h. (n, nocase (hh_name h))) hs)"
    using d by (simp add: distinct_map inj_on_def)
  moreover have "set (map hd_key (delete_where (\<lambda>h. hd_server h = n) (mcp_headers db))) \<inter> set (map (\<lambda>h. (n, nocase (hh_name h))) hs) = {}"
    by (auto simp: set_delete_where hd_key_def)
  ultimately show "distinct (map hd_key (mcp_headers ?db))"
    using registry_invD(2)[OF i] by (simp add: replaced_def delete_where_distinct comp_def)
  show "is_ok (validate_server_name (sv_name x))" if "x \<in> set (mcp_servers ?db)" for x
    using that registry_invD(3)[OF i] n r by (auto simp: s split: if_splits)
  show "\<exists>x \<in> set (mcp_servers ?db). sv_name x = hd_server y \<and> sv_auth_type x = Some ''headers''"
    if y: "y \<in> set (mcp_headers ?db)" for y
  proof (cases "hd_server y = n")
    case True
    then have "hs \<noteq> []" using y by (auto simp: replaced_def set_delete_where)
    moreover have "\<exists>x \<in> set (mcp_servers ?db). sv_name x = n \<and> (x = row \<or> (\<exists>r. x = f r))"
    proof (cases "db_server_exists db n")
      case True
      then obtain x where "x \<in> set (mcp_servers db)" "sv_name x = n" by (auto simp: exists_iff)
      then have "f x \<in> set (mcp_servers ?db)" by (auto simp: s intro!: image_eqI[of _ _ x])
      with r \<open>sv_name x = n\<close> show ?thesis by (intro bexI[of _ "f x"]) auto
    qed (use r in \<open>auto simp: s\<close>)
    ultimately show ?thesis using h True by fastforce
  next
    case False
    then have "y \<in> set (mcp_headers db)" using y by (auto simp: replaced_def set_delete_where)
    then obtain x where "x \<in> set (mcp_servers db)" "sv_name x = hd_server y" "sv_auth_type x = Some ''headers''"
      using registry_invD(4)[OF i] by blast
    then show ?thesis using False by (intro bexI[of _ x]) (auto simp: s intro!: image_eqI[of _ _ x])
  qed
qed

lemma replace_inv:
  assumes "registry_inv db"
  shows "registry_inv (snd (db_replace_server lib parse created n url auth db))"
proof (cases "fst (db_replace_server lib parse created n url auth db)")
  case (Inl e)
  then show ?thesis using assms by (auto simp: db_replace_server_def run_tx_def split: sum.splits prod.splits)
next
  case (Inr prev)
  then have "db_replace_server lib parse created n url auth db =
      (Ok prev, snd (db_replace_server lib parse created n url auth db))" by (metis prod.collapse)
  from replace_cases[OF this] show ?thesis using replaced_inv[OF assms] by auto
qed

lemma find_name:
  assumes "distinct (map sv_name t)"
  shows "List.find (\<lambda>r. sv_name r = n) t = Some r \<longleftrightarrow> r \<in> set t \<and> sv_name r = n"
  using assms by (induction t) auto

lemma extend_truncate: "server_entry.extend (server_entry.truncate r) \<lparr>sv_created_at = sv_created_at r\<rparr> = (r :: server_row)"
  by (cases r) (simp add: server_entry.defs)

lemma to_lower_idem: "to_lower (to_lower c) = to_lower c"
proof (cases "is_upper c")
  case True
  then have b: "65 \<le> (of_char c :: nat)" "(of_char c :: nat) \<le> 90" by (auto simp: is_upper_def less_eq_char_def)
  then have "of_char (char_of ((of_char c :: nat) + 32) :: char) = (of_char c :: nat) + 32" by (simp add: of_char_of)
  with b have "\<not> is_upper (char_of ((of_char c :: nat) + 32))" by (simp add: is_upper_def less_eq_char_def)
  then show ?thesis using True by (simp add: to_lower_def)
qed (simp add: to_lower_def)

lemma nocase_idem [simp]: "nocase (nocase s) = nocase s"
  by (simp add: nocase_def comp_def to_lower_idem)

lemma decode_headers_canonical:
  assumes "header_lib_ok lib" and "decode_headers lib rs = Ok hs"
  shows "map hh_name hs = map (\<lambda>r. nocase (hd_name r)) rs \<and> decode_headers lib (map (header_of n) hs) = Ok hs"
  using assms(2)
proof (induction rs arbitrary: hs)
  case (Cons r rs)
  from Cons.prems obtain x xs where d: "new_header lib (hd_name r) (hd_value r) = Ok x" "decode_headers lib rs = Ok xs"
    "hs = x # xs" by (auto simp: bind_result_Inr)
  have c: "hl_canonical lib (hd_name r) = Some (hh_name x)" "hd_value r = hh_value x"
    "hh_value x \<noteq> []" "hl_valid_value lib (hh_value x)"
    using d(1) by (auto simp: new_header_def canonical_header_name_def bind_result_def split: option.splits if_splits)
  then have h: "hh_name x = nocase (hd_name r)" "hl_canonical lib (hh_name x) = Some (hh_name x)"
    using assms(1) by (auto simp: header_lib_ok_def)
  then have "new_header lib (hh_name x) (hh_value x) = Ok x"
    using c by (simp add: new_header_def canonical_header_name_def)
  then show ?case using Cons.IH[OF d(2)] d(3) h(1) by simp
qed simp

lemma server_headers_distinct:
  assumes "registry_inv db"
  shows "distinct (map (\<lambda>r. nocase (hd_name r)) (server_headers db n))"
proof -
  have "distinct (map hd_key (filter (\<lambda>h. hd_server h = n) (mcp_headers db)))"
    using registry_invD(2)[OF assms] by (rule distinct_map_filter)
  moreover have "map hd_key (filter (\<lambda>h. hd_server h = n) t) =
      map (Pair n) (map (\<lambda>r. nocase (hd_name r)) (filter (\<lambda>h. hd_server h = n) t))" for t
    by (induction t) (auto simp: hd_key_def)
  ultimately have "distinct (map (\<lambda>r. nocase (hd_name r)) (filter (\<lambda>h. hd_server h = n) (mcp_headers db)))"
    using distinct_map by metis
  then show ?thesis by (simp add: server_headers_def distinct_map_sort_key)
qed

lemma restore_replaced:
  assumes i: "registry_inv db" and lib: "header_lib_ok lib"
    and snap: "db_get_server_snapshot lib db n = Ok (Some snap)"
    and f: "\<forall>r. sv_name (f r) = sv_name r"
  shows "db_restore_server_snapshot snap (replaced n row f hs db) =
    (Ok (), db\<lparr>mcp_headers := delete_where (\<lambda>h. hd_server h = n) (mcp_headers db) @ map (header_of n) (sn_headers snap)\<rparr>)"
proof -
  note d = registry_invD(1)[OF i]
  obtain r0 where r0: "r0 \<in> set (mcp_servers db)" "sv_name r0 = n"
    and s: "sn_server snap = server_entry.truncate r0" "sn_created_at snap = sv_created_at r0"
    and h: "decode_headers lib (server_headers db n) = Ok (sn_headers snap)"
    using snap d by (auto simp: db_get_server_snapshot_def db_list_http_headers_def bind_result_Inr find_name
        split: option.splits)
  have row: "server_entry.extend (sn_server snap) \<lparr>sv_created_at = sn_created_at snap\<rparr> = r0"
    using s extend_truncate by simp
  have ex: "db_server_exists db n" using r0 by (auto simp: exists_iff)
  have u: "update_where (\<lambda>r. sv_name r = n) (\<lambda>_. r0) (update_where (\<lambda>r. sv_name r = n) f (mcp_servers db)) = mcp_servers db"
    unfolding update_where_def map_map
    by (intro map_idI) (use r0 f distinct_key_unique[OF d] in auto)
  have ex': "db_server_exists (replaced n row f hs db) n"
    using ex f by (simp add: replaced_def exists_iff) (metis image_set list.map_comp update_where_key)
  have k: "distinct (map (\<lambda>h. nocase (hh_name h)) (sn_headers snap))"
  proof -
    have "map (\<lambda>h. nocase (hh_name h)) (sn_headers snap) = map nocase (map hh_name (sn_headers snap))" by simp
    also have "\<dots> = map (\<lambda>r. nocase (hd_name r)) (server_headers db n)"
      using decode_headers_canonical[OF lib h] by (simp add: comp_def)
    finally show ?thesis using server_headers_distinct[OF i] by simp
  qed
  have e: "header_keys n (sn_headers snap) \<inter> hd_key ` set (delete_where (\<lambda>h. hd_server h = n) (mcp_headers db)) = {}"
    by (auto simp: header_keys_def set_delete_where hd_key_def)
  have dh: "delete_where (\<lambda>h. hd_server h = n) (delete_where (\<lambda>h. hd_server h = n) (mcp_headers db) @ map (header_of n) hs) =
      delete_where (\<lambda>h. hd_server h = n) (mcp_headers db)"
    by (simp add: delete_where_def)
  have "insert_headers n (sn_headers snap) (delete_where (\<lambda>h. hd_server h = n) (mcp_headers db)) =
      Ok (delete_where (\<lambda>h. hd_server h = n) (mcp_headers db) @ map (header_of n) (sn_headers snap))"
    using k e by (simp add: insert_headers_iff)
  then show ?thesis
    using ex ex' u dh r0(2)
    by (simp add: db_restore_server_snapshot_def row Let_def upsert_server_def drop_headers_def) (simp add: replaced_def)
qed

lemma snapshot_after_restore:
  assumes i: "registry_inv db" and lib: "header_lib_ok lib"
    and snap: "db_get_server_snapshot lib db n = Ok (Some snap)"
  defines "db2 \<equiv> db\<lparr>mcp_headers := delete_where (\<lambda>h. hd_server h = n) (mcp_headers db) @ map (header_of n) (sn_headers snap)\<rparr>"
  shows "db_get_server_snapshot lib db2 m = db_get_server_snapshot lib db m"
proof (cases "m = n")
  case False
  have "filter (\<lambda>h. hd_server h = m) (mcp_headers db2) = filter (\<lambda>h. hd_server h = m) (mcp_headers db)"
    using False by (auto simp: db2_def delete_where_def filter_empty_conv intro!: filter_cong)
  then have "db_list_http_headers lib db2 m = db_list_http_headers lib db m"
    by (simp only: db_list_http_headers_def server_headers_def)
  moreover have "mcp_servers db2 = mcp_servers db" by (simp add: db2_def)
  ultimately show ?thesis by (simp add: db_get_server_snapshot_def cong: option.case_cong)
next
  case True
  have h: "decode_headers lib (server_headers db n) = Ok (sn_headers snap)"
    using snap by (auto simp: db_get_server_snapshot_def db_list_http_headers_def bind_result_Inr split: option.splits)
  note c = decode_headers_canonical[OF lib h, of n]
  have f: "filter (\<lambda>h. hd_server h = n) (mcp_headers db2) = map (header_of n) (sn_headers snap)"
    by (simp add: db2_def delete_where_def filter_empty_conv)
  have "map (\<lambda>h. nocase (hd_name h)) (map (header_of n) (sn_headers snap)) = map nocase (map hh_name (sn_headers snap))"
    by simp
  also have "\<dots> = map (\<lambda>r. nocase (hd_name r)) (server_headers db n)" using c by (simp add: comp_def)
  finally have "sorted (map (\<lambda>h. nocase (hd_name h)) (map (header_of n) (sn_headers snap)))"
    by (simp add: server_headers_def)
  then have "server_headers db2 n = map (header_of n) (sn_headers snap)"
    unfolding server_headers_def f by (rule sort_key_id_if_sorted)
  then have "decode_headers lib (server_headers db2 n) = decode_headers lib (server_headers db n)"
    using c h by simp
  then have "db_list_http_headers lib db2 m = db_list_http_headers lib db m"
    using True by (simp only: db_list_http_headers_def)
  moreover have "mcp_servers db2 = mcp_servers db" by (simp add: db2_def)
  ultimately show ?thesis by (simp add: db_get_server_snapshot_def cong: option.case_cong)
qed

lemma remove_created:
  assumes i: "registry_inv db" and "\<not> db_server_exists db n" and "sv_name row = n"
  shows "db_remove_server n (replaced n row f hs db) = (Ok (), db)"
proof -
  have h: "\<forall>h \<in> set (mcp_headers db). hd_server h \<noteq> n"
    using registry_invD(4)[OF i] assms(2) by (force simp: exists_iff)
  have s: "\<forall>r \<in> set (mcp_servers db). sv_name r \<noteq> n" using assms(2) by (auto simp: exists_iff)
  have "delete_where (\<lambda>h. hd_server h = n) (mcp_headers db) = mcp_headers db"
    "filter (\<lambda>r. sv_name r \<noteq> n) (mcp_servers db) = mcp_servers db"
    using h s by (auto simp: delete_where_def filter_id_conv)
  then show ?thesis using assms(2,3)
    by (simp add: db_remove_server_def replaced_def count_where_0 delete_where_def filter_empty_conv)
qed

section \<open>Operation sequences\<close>

datatype registry_op =
    RegAdd string string string
  | RegRemove string
  | RegInstructions string "string option"
  | RegReplace string string string server_auth
  | RegRestore server_snapshot
  | RegSetAuth string string "string option" "string option"
  | RegClearAuth string
  | RegSetHeaders string "http_header list"
  | RegSetOauth string string "string option" string string "string option" string string
  | RegUpdateToken string string "string option" string

fun registry_step :: "header_lib \<Rightarrow> url_parser \<Rightarrow> registry_op \<Rightarrow> mcp_db \<Rightarrow> mcp_db" where
  "registry_step lib parse (RegAdd created n url) db = snd (db_add_server parse created n url db)"
| "registry_step lib parse (RegRemove n) db = snd (db_remove_server n db)"
| "registry_step lib parse (RegInstructions n x) db = snd (db_update_instructions n x db)"
| "registry_step lib parse (RegReplace created n url auth) db = snd (db_replace_server lib parse created n url auth db)"
| "registry_step lib parse (RegRestore snap) db = snd (db_restore_server_snapshot snap db)"
| "registry_step lib parse (RegSetAuth n t h k) db = snd (db_set_auth n t h k db)"
| "registry_step lib parse (RegClearAuth n) db = snd (db_clear_auth n db)"
| "registry_step lib parse (RegSetHeaders n hs) db = snd (db_set_http_headers n hs db)"
| "registry_step lib parse (RegSetOauth n at rt ep cl sec ex res) db =
     snd (db_set_oauth_state n at rt ep cl sec ex res db)"
| "registry_step lib parse (RegUpdateToken n at rt ex) db = snd (db_update_oauth_token n at rt ex db)"

text \<open>A snapshot to restore is consistent in itself: one that was read from the registry is.\<close>

definition snapshot_ok :: "server_snapshot \<Rightarrow> bool" where
  "snapshot_ok s =
     (is_ok (validate_server_name (sv_name (sn_server s))) \<and>
      (sn_headers s \<noteq> [] \<longrightarrow> sv_auth_type (sn_server s) = Some ''headers''))"

definition op_ok :: "registry_op \<Rightarrow> bool" where
  "op_ok op = (case op of RegRestore s \<Rightarrow> snapshot_ok s | _ \<Rightarrow> True)"

lemma update_columns_inv:
  assumes i: "registry_inv db" and f: "\<And>r. sv_name (f r) = sv_name r" "\<And>r. sv_auth_type (f r) = sv_auth_type r"
  shows "registry_inv (db\<lparr>mcp_servers := update_where c f (mcp_servers db)\<rparr>)"
proof (rule registry_invI)
  show "distinct (map sv_name (mcp_servers (db\<lparr>mcp_servers := update_where c f (mcp_servers db)\<rparr>)))"
    using registry_invD(1)[OF i] f by (simp add: update_where_key)
  show "\<exists>r \<in> set (mcp_servers (db\<lparr>mcp_servers := update_where c f (mcp_servers db)\<rparr>)).
      sv_name r = hd_server h \<and> sv_auth_type r = Some ''headers''"
    if "h \<in> set (mcp_headers (db\<lparr>mcp_servers := update_where c f (mcp_servers db)\<rparr>))" for h
    using registry_invD(4)[OF i, of h] that f by (auto simp: ex_update_where if_distrib[of sv_name] if_distrib[of sv_auth_type] cong: if_cong)
qed (use registry_invD(2,3)[OF i] f in \<open>auto simp: set_update_where\<close>)

lemma add_inv:
  assumes i: "registry_inv db"
  shows "registry_inv (snd (db_add_server parse created n url db))"
proof (cases "is_ok (validate_server_name n) \<and> is_ok (validate_server_url parse url)")
  case False
  then show ?thesis using i by (auto simp: db_add_server_def run_tx_def bind_result_def split: sum.splits)
next
  case True
  then have e: "db_add_server parse created n url db =
      (Ok (), upsert_server (new_server_row n url created) (\<lambda>r. r\<lparr>sv_url := url\<rparr>) db)"
    by (simp add: db_add_server_Ok)
  show ?thesis
  proof (cases "db_server_exists db n")
    case True
    then show ?thesis using update_columns_inv[OF i, of "\<lambda>r. r\<lparr>sv_url := url\<rparr>" "\<lambda>r. sv_name r = n"]
      by (simp add: e upsert_server_def new_server_row_def)
  next
    case False
    have "registry_inv (db\<lparr>mcp_servers := mcp_servers db @ [new_server_row n url created]\<rparr>)"
      using i False True by (auto simp: registry_inv_def exists_iff new_server_row_def)
    then show ?thesis using False by (simp add: e upsert_server_def new_server_row_def)
  qed
qed

lemma registry_remove_inv:
  assumes i: "registry_inv db"
  shows "registry_inv (snd (db_remove_server n db))"
proof (cases "count_where (\<lambda>r. sv_name r = n) (mcp_servers db) = 0")
  case False
  have "registry_inv (db\<lparr>mcp_servers := delete_where (\<lambda>r. sv_name r = n) (mcp_servers db),
      mcp_headers := delete_where (\<lambda>h. hd_server h = n) (mcp_headers db)\<rparr>)"
    using registry_invD[OF i] by (intro registry_invI) (fastforce simp: delete_where_distinct set_delete_where)+
  then show ?thesis using False by (simp add: db_remove_server_def)
qed (use i in \<open>simp add: db_remove_server_def\<close>)

lemma restore_inv:
  assumes i: "registry_inv db" and s: "snapshot_ok snap"
  shows "registry_inv (snd (db_restore_server_snapshot snap db))"
proof -
  let ?row = "server_entry.extend (sn_server snap) \<lparr>sv_created_at = sn_created_at snap\<rparr>"
  let ?n = "sv_name ?row" and ?hs = "sn_headers snap"
  let ?t = "delete_where (\<lambda>h. hd_server h = ?n) (mcp_headers db)"
  have row: "sv_name ?row = sv_name (sn_server snap)" "sv_auth_type ?row = sv_auth_type (sn_server snap)"
    by (simp_all add: server_entry.defs)
  show ?thesis
  proof (cases "insert_headers ?n ?hs ?t")
    case (Inl e)
    then show ?thesis using i by (simp add: db_restore_server_snapshot_def Let_def drop_headers_def upsert_server_def)
  next
    case (Inr t)
    then have t: "t = ?t @ map (header_of ?n) ?hs" "distinct (map (\<lambda>h. nocase (hh_name h)) ?hs)"
      by (simp_all add: insert_headers_iff)
    let ?f = "\<lambda>r. if sv_name r = ?n then ?row else r"
    have "update_where (\<lambda>r. sv_name r = ?n) (\<lambda>_. ?row) (mcp_servers db) = update_where (\<lambda>r. sv_name r = ?n) ?f (mcp_servers db)"
      by (simp add: update_where_def)
    then have "snd (db_restore_server_snapshot snap db) = replaced ?n ?row (\<lambda>_. ?row) ?hs db"
      using Inr t(1) by (simp add: db_restore_server_snapshot_def Let_def drop_headers_def upsert_server_def replaced_def)
    moreover have "replaced ?n ?row (\<lambda>_. ?row) ?hs db = replaced ?n ?row ?f ?hs db"
      by (simp add: replaced_def update_where_def)
    moreover have "registry_inv (replaced ?n ?row ?f ?hs db)"
    proof (cases "?hs = []")
      case True
      then show ?thesis using s row t(2) by (intro replaced_inv[OF i]) (auto simp: snapshot_ok_def)
    next
      case False
      let ?g = "\<lambda>r. (if sv_name r = ?n then ?row else r)\<lparr>sv_auth_type := Some ''headers''\<rparr>"
      have a: "sv_auth_type ?row = Some ''headers''" using s False row by (simp add: snapshot_ok_def)
      have "replaced ?n ?row ?f ?hs db = replaced ?n ?row ?g ?hs db"
        using a by (simp add: replaced_def update_where_def)
      then show ?thesis using s row t(2) a
        by (simp only:) (intro replaced_inv[OF i], auto simp: snapshot_ok_def)
    qed
    ultimately show ?thesis by simp
  qed
qed

lemma registry_step_inv:
  assumes "registry_inv db" and "op_ok op"
  shows "registry_inv (registry_step lib parse op db)"
proof (cases op)
  case (RegInstructions n x)
  then show ?thesis using assms(1) update_columns_inv[OF assms(1), of "\<lambda>r. r\<lparr>sv_instructions := x\<rparr>" "\<lambda>r. sv_name r = n"]
    by (simp add: db_update_instructions_def update_server_eq)
next
  case (RegUpdateToken n at rt ex)
  let ?f = "case rt of Some rt' \<Rightarrow> (\<lambda>r. r\<lparr>sv_auth_token := Some at, sv_refresh_token := Some rt', sv_expires_at := Some ex\<rparr>)
     | None \<Rightarrow> (\<lambda>r. r\<lparr>sv_auth_token := Some at, sv_expires_at := Some ex\<rparr>)"
  have "registry_inv (db\<lparr>mcp_servers := update_where (\<lambda>r. sv_name r = n) ?f (mcp_servers db)\<rparr>)"
    by (rule update_columns_inv[OF assms(1)]) (auto split: option.split)
  then show ?thesis using assms(1) RegUpdateToken by (simp add: db_update_oauth_token_def update_server_eq)
next
  case (RegRestore s)
  then show ?thesis using assms restore_inv by (simp add: op_ok_def)
qed (use assms add_inv registry_remove_inv replace_inv clear.switch_inv legacy.switch_inv
      http_headers.switch_inv oauth.switch_inv in simp_all)

lemma registry_steps_inv:
  assumes "registry_inv db" and "\<forall>op \<in> set ops. op_ok op"
  shows "registry_inv (fold (registry_step lib parse) ops db)"
  using assms by (induction ops arbitrary: db) (simp_all add: registry_step_inv)

lemma snapshot_read_ok:
  assumes "registry_inv db" and "db_get_server_snapshot lib db n = Ok (Some s)"
  shows "snapshot_ok s"
proof -
  obtain r where r: "r \<in> set (mcp_servers db)" "sv_name r = n" "sn_server s = server_entry.truncate r"
    and h: "decode_headers lib (server_headers db n) = Ok (sn_headers s)"
    using assms registry_invD(1)[OF assms(1)]
    by (auto simp: db_get_server_snapshot_def db_list_http_headers_def bind_result_Inr find_name split: option.splits)
  have t: "sv_name (sn_server s) = n" "sv_auth_type (sn_server s) = sv_auth_type r"
    using r by (simp_all add: server_entry.defs)
  have "sv_auth_type r = Some ''headers''" if "sn_headers s \<noteq> []"
  proof -
    have "server_headers db n \<noteq> []" using h that by auto
    then have "hd (server_headers db n) \<in> set (server_headers db n)" by (rule hd_in_set)
    then obtain y where "y \<in> set (mcp_headers db)" "hd_server y = n"
      by (auto simp: server_headers_def)
    then obtain x where "x \<in> set (mcp_servers db)" "sv_name x = n" "sv_auth_type x = Some ''headers''"
      using registry_invD(4)[OF assms(1)] by metis
    then show ?thesis using distinct_key_unique[OF registry_invD(1)[OF assms(1)]] r by metis
  qed
  then show ?thesis using t registry_invD(3)[OF assms(1) r(1)] r(2) by (simp add: snapshot_ok_def)
qed

section \<open>Properties\<close>

text \<open>C10: The registry keeps one row for a name, one header for a server and a name in any case,
  only valid server names, and headers only for servers in header mode, whatever sequence of
  operations runs; a snapshot read from it can always be restored.\<close>

theorem registry_invariant:
  assumes "registry_inv db" and "\<forall>op \<in> set ops. op_ok op"
  shows "registry_inv (fold (registry_step lib parse) ops db) \<and>
    (\<forall>n s. db_get_server_snapshot lib (fold (registry_step lib parse) ops db) n = Ok (Some s) \<longrightarrow> snapshot_ok s)"
  using registry_steps_inv[OF assms] snapshot_read_ok by blast

definition notion_row :: server_row where
  "notion_row = (new_server_row ''notion'' ''https://n'' ''t0'')\<lparr>sv_auth_type := Some ''headers''\<rparr>"

definition sample_mcp_db :: mcp_db where
  "sample_mcp_db = \<lparr>mcp_servers = [notion_row], mcp_headers = [\<lparr>hd_server = ''notion'', hd_name = ''x-key'', hd_value = ''k''\<rparr>],
     auth_tokens = [], notice_token = None\<rparr>"

definition sample_lib :: header_lib where
  "sample_lib = \<lparr>hl_canonical = (\<lambda>n. Some (nocase n)), hl_valid_value = (\<lambda>_. True)\<rparr>"

lemma sample_mcp_inv: "registry_inv sample_mcp_db"
proof -
  have "is_ok (validate_server_name ''notion'')" by code_simp
  then show ?thesis by (simp add: registry_inv_def sample_mcp_db_def notion_row_def new_server_row_def hd_key_def)
qed

lemma sample_lib_ok: "header_lib_ok sample_lib" by (simp add: header_lib_ok_def sample_lib_def)

theorem registry_invariant_witness:
  "registry_inv (fold (registry_step sample_lib (\<lambda>_. None)) [RegClearAuth ''notion'', RegRemove ''x''] sample_mcp_db)"
  using registry_invariant[OF sample_mcp_inv, of "[RegClearAuth ''notion'', RegRemove ''x'']"] by (simp add: op_ok_def)

text \<open>The row of a server in a given mode, column by column.\<close>

definition row_in_mode :: "server_row \<Rightarrow> string option \<Rightarrow> string option \<Rightarrow> string option \<Rightarrow> string option \<Rightarrow> string option \<Rightarrow>
    string option \<Rightarrow> string option \<Rightarrow> string option \<Rightarrow> string option \<Rightarrow> server_row" where
  "row_in_mode r auth_type header token refresh endpoint client secret expires resource =
     \<lparr>sv_name = sv_name r, sv_url = sv_url r, sv_instructions = sv_instructions r, sv_auth_type = auth_type, sv_auth_header = header,
      sv_auth_token = token, sv_refresh_token = refresh, sv_token_endpoint = endpoint, sv_client_id = client,
      sv_client_secret = secret, sv_expires_at = expires, sv_oauth_resource = resource, sv_created_at = sv_created_at r\<rparr>"

lemma reset_auth_row: "reset_auth t h k (r :: server_row) = row_in_mode r t h k None None None None None None"
  by (simp add: reset_auth_def row_in_mode_def)

text \<open>C11: Switching the authentication mode of a registered server leaves exactly the credentials of the
  new mode: no token, OAuth column or header of an earlier mode survives, the other columns are kept, and
  the rows and headers of every other server are as they were.  The single-header mode is any but
  'headers', and the names of new headers are distinct up to case.\<close>

theorem mode_switch_leaves_no_stale_secret:
  assumes "server_view db n = ([r], hs)" and "t \<noteq> ''headers''" and "distinct (map (\<lambda>h. nocase (hh_name h)) new)"
  shows "server_view (snd (db_clear_auth n db)) n = ([row_in_mode r None None None None None None None None None], []) \<and>
    server_view (snd (db_set_auth n t h k db)) n = ([row_in_mode r (Some t) h k None None None None None None], []) \<and>
    server_view (snd (db_set_http_headers n new db)) n =
      ([row_in_mode r (Some ''headers'') None None None None None None None None],
       map (\<lambda>h. \<lparr>hd_server = n, hd_name = hh_name h, hd_value = hh_value h\<rparr>) new) \<and>
    server_view (snd (db_set_oauth_state n at rt ep cl sec ex res db)) n =
      ([row_in_mode r (Some ''oauth'') None (if at = [] then None else Some at) rt (Some ep) (Some cl) sec (Some ex) (Some res)], []) \<and>
    (\<forall>m. m \<noteq> n \<longrightarrow>
       server_view (snd (db_clear_auth n db)) m = server_view db m \<and>
       server_view (snd (db_set_auth n t h k db)) m = server_view db m \<and>
       server_view (snd (db_set_http_headers n new db)) m = server_view db m \<and>
       server_view (snd (db_set_oauth_state n at rt ep cl sec ex res db)) m = server_view db m)"
proof -
  have "r \<in> set (filter (\<lambda>r. sv_name r = n) (mcp_servers db))" using assms(1) by (simp add: server_view_def)
  then have ex: "db_server_exists db n" by (auto simp: exists_iff)
  have v: "fst (server_view db n) = [r]" using assms(1) by simp
  have new: "fold (upsert_header n) new [] = map (\<lambda>h. \<lparr>hd_server = n, hd_name = hh_name h, hd_value = hh_value h\<rparr>) new"
    using fold_upsert_distinct[OF assms(3), of n "[]"] by (simp add: header_of_def)
  show ?thesis
    using clear.switch_self[OF TrueI ex] legacy.switch_self[OF assms(2) ex] http_headers.switch_self[OF TrueI ex]
      oauth.switch_self[OF TrueI ex] clear.switch_other legacy.switch_other http_headers.switch_other oauth.switch_other
    by (simp add: v new reset_auth_row) (simp add: row_in_mode_def)
qed

theorem mode_switch_leaves_no_stale_secret_witness:
  "server_view (snd (db_clear_auth ''notion'' sample_mcp_db)) ''notion'' = ([new_server_row ''notion'' ''https://n'' ''t0''], [])"
proof -
  have "server_view sample_mcp_db ''notion'' =
      ([notion_row], [\<lparr>hd_server = ''notion'', hd_name = ''x-key'', hd_value = ''k''\<rparr>])"
    by (simp add: server_view_def sample_mcp_db_def notion_row_def new_server_row_def)
  from mode_switch_leaves_no_stale_secret[OF this, of "''legacy''" "[]"]
  show ?thesis by (simp add: row_in_mode_def notion_row_def new_server_row_def)
qed

text \<open>A replacement can be undone exactly: restoring the snapshot it returned gives back the
  server rows and the snapshot of every server, its headers and OAuth state included, and
  removing a server the replacement created gives back the whole database.\<close>

theorem replacement_undone:
  assumes "registry_inv db" and "header_lib_ok lib"
    and "db_replace_server lib parse created n url auth db = (Ok prev, db1)"
  shows "case prev of
      Some snap \<Rightarrow> \<exists>db2. db_restore_server_snapshot snap db1 = (Ok (), db2) \<and> mcp_servers db2 = mcp_servers db \<and>
        (\<forall>m. db_get_server_snapshot lib db2 m = db_get_server_snapshot lib db m)
    | None \<Rightarrow> db_remove_server n db1 = (Ok (), db)"
proof -
  obtain row f hs where r: "db_get_server_snapshot lib db n = Ok prev" "sv_name row = n" "\<forall>r. sv_name (f r) = sv_name r"
    "db1 = replaced n row f hs db"
    using replace_cases[OF assms(3)] by blast
  show ?thesis
  proof (cases prev)
    case None
    then have "\<not> db_server_exists db n"
      using r(1) find_name[OF registry_invD(1)[OF assms(1)], of n]
      by (auto simp: db_get_server_snapshot_def bind_result_Inr exists_iff find_None_iff split: option.splits)
    then show ?thesis using None r remove_created[OF assms(1)] by simp
  next
    case (Some snap)
    then show ?thesis
      using r restore_replaced[OF assms(1,2) _ r(3)] snapshot_after_restore[OF assms(1,2)] by simp
  qed
qed

theorem replacement_undone_witness:
  "\<exists>db2. db_restore_server_snapshot
       \<lparr>sn_server = server_entry.truncate notion_row, sn_headers = [\<lparr>hh_name = ''x-key'', hh_value = ''k''\<rparr>], sn_created_at = ''t0''\<rparr>
       (snd (db_replace_server sample_lib (\<lambda>_. Some sample_url) ''t1'' ''notion'' ''https://m'' AuthNone sample_mcp_db)) =
     (Ok (), db2) \<and> mcp_servers db2 = mcp_servers sample_mcp_db"
proof -
  let ?r = "db_replace_server sample_lib (\<lambda>_. Some sample_url) ''t1'' ''notion'' ''https://m'' AuthNone sample_mcp_db"
  let ?s = "\<lparr>sn_server = server_entry.truncate notion_row, sn_headers = [\<lparr>hh_name = ''x-key'', hh_value = ''k''\<rparr>],
     sn_created_at = ''t0''\<rparr>"
  have "fst ?r = Ok (Some ?s)" by code_simp
  then have "?r = (Ok (Some ?s), snd ?r)" by (metis prod.collapse)
  from replacement_undone[OF sample_mcp_inv sample_lib_ok this] show ?thesis by auto
qed

text \<open>The update of a refreshed token asks nothing of the mode: a late one puts a token back into a
  server that has been cleared.\<close>

lemma late_token_update_revives:
  "fst (db_update_oauth_token ''notion'' ''tok'' (Some ''rt'') ''e'' (snd (db_clear_auth ''notion'' sample_mcp_db))) = Ok ()"
  by code_simp

end
