(* ===== verification/Text.thy ===== *)
theory Text
  imports Prelude
begin

text \<open>
  Texts as lists of Unicode scalar values, with the operations of Rust's
  standard library the code applies to them: trimming, ASCII case folding,
  splitting, the decimal notation of integers and its parser, and the
  conversion to and from UTF-16 code units.
\<close>

section \<open>Characters\<close>

text \<open>The code points with the property White\_Space, which \<^verbatim>\<open>char::is_whitespace\<close> tests.\<close>

definition is_uni_ws :: "nat \<Rightarrow> bool" where
  "is_uni_ws c =
     (if c < 128 then 9 \<le> c \<and> c \<le> 13 \<or> c = 32
      else 0x2000 \<le> c \<and> c \<le> 0x200A \<or> c \<in> {0x85, 0xA0, 0x1680, 0x2028, 0x2029, 0x202F, 0x205F, 0x3000})"

definition trim_chars :: "chars \<Rightarrow> chars" where
  "trim_chars s = rev (dropWhile is_uni_ws (rev (dropWhile is_uni_ws s)))"

definition is_digit_cp :: "nat \<Rightarrow> bool" where "is_digit_cp c = (48 \<le> c \<and> c \<le> 57)"

definition is_alnum_cp :: "nat \<Rightarrow> bool" where
  "is_alnum_cp c = (is_digit_cp c \<or> 65 \<le> c \<and> c \<le> 90 \<or> 97 \<le> c \<and> c \<le> 122)"

definition lower_cp :: "nat \<Rightarrow> nat" where
  "lower_cp c = (if 65 \<le> c \<and> c \<le> 90 then c + 32 else c)"

definition eq_ignore_ascii_case :: "chars \<Rightarrow> chars \<Rightarrow> bool" where
  "eq_ignore_ascii_case a b = (map lower_cp a = map lower_cp b)"

lemma eq_ignore_ascii_case_refl [simp]: "eq_ignore_ascii_case a a"
  by (simp add: eq_ignore_ascii_case_def)

text \<open>\<^verbatim>\<open>split_once\<close>: the parts before and after the first occurrence of a character.\<close>

definition split_once :: "nat \<Rightarrow> chars \<Rightarrow> (chars \<times> chars) option" where
  "split_once c s = (case dropWhile (\<lambda>d. d \<noteq> c) s of [] \<Rightarrow> None
                     | _ # r \<Rightarrow> Some (takeWhile (\<lambda>d. d \<noteq> c) s, r))"

lemma split_once_append: "c \<notin> set a \<Longrightarrow> split_once c (a @ c # b) = Some (a, b)"
  by (induction a) (auto simp: split_once_def split: list.splits)

lemma split_once_None: "split_once c s = None \<longleftrightarrow> c \<notin> set s"
proof
  assume "split_once c s = None"
  then show "c \<notin> set s" by (auto simp: split_once_def dropWhile_eq_Nil_conv split: list.splits)
next
  assume "c \<notin> set s"
  then have "dropWhile (\<lambda>d. d \<noteq> c) s = []" by (auto simp: dropWhile_eq_Nil_conv)
  then show "split_once c s = None" by (simp only: split_once_def list.case)
qed

text \<open>\<^verbatim>\<open>str::split\<close> on a character: one part more than the text has separators.\<close>

fun split_on_char :: "nat \<Rightarrow> chars \<Rightarrow> chars list" where
  "split_on_char d [] = [[]]"
| "split_on_char d (c # cs) =
     (if c = d then [] # split_on_char d cs
      else (case split_on_char d cs of [] \<Rightarrow> [[c]] | w # ws \<Rightarrow> (c # w) # ws))"

text \<open>\<^verbatim>\<open>str::contains\<close> of a fixed text.\<close>

definition has_text :: "string \<Rightarrow> chars \<Rightarrow> bool" where
  "has_text p s = list_ex (\<lambda>t. take (length p) t = text_chars p) (suffixes s)"

lemma has_text_infix: "has_text p (a @ text_chars p @ b)"
proof -
  have "text_chars p @ b \<in> set (suffixes (a @ text_chars p @ b))" by (simp add: suffix_def)
  moreover have "take (length p) (text_chars p @ b) = text_chars p" by (simp add: text_chars_def)
  ultimately show ?thesis unfolding has_text_def list_ex_iff by blast
qed

section \<open>Integers\<close>

definition text_of_nat :: "nat \<Rightarrow> chars" where
  "text_of_nat n = text_chars (string_of_nat n)"

definition text_of_int :: "int \<Rightarrow> chars" where
  "text_of_int i = (if i < 0 then 45 # text_of_nat (nat (- i)) else text_of_nat (nat i))"

fun digits_value :: "nat \<Rightarrow> chars \<Rightarrow> nat option" where
  "digits_value acc [] = Some acc"
| "digits_value acc (c # cs) = (if is_digit_cp c then digits_value (10 * acc + (c - 48)) cs else None)"

definition parse_digits :: "chars \<Rightarrow> nat option" where
  "parse_digits s = (if s = [] then None else digits_value 0 s)"

text \<open>\<^verbatim>\<open>str::parse\<close> on the integer types: an optional sign, at least one digit, and
  the value in range.\<close>

definition parse_int :: "int \<Rightarrow> int \<Rightarrow> chars \<Rightarrow> int option" where
  "parse_int lo hi s =
     (case (case s of [] \<Rightarrow> None
             | c # r \<Rightarrow> if c = 45 then map_option (\<lambda>n. - int n) (parse_digits r)
                        else map_option int (parse_digits (if c = 43 then r else s))) of
        None \<Rightarrow> None
      | Some i \<Rightarrow> if lo \<le> i \<and> i \<le> hi then Some i else None)"

abbreviation parse_i64 :: "chars \<Rightarrow> int option" where
  "parse_i64 \<equiv> parse_int (- (2 ^ 63)) (2 ^ 63 - 1)"

abbreviation parse_u64 :: "chars \<Rightarrow> int option" where
  "parse_u64 s \<equiv> (if take 1 s = [45] then None else parse_int 0 (2 ^ 64 - 1) s)"

definition in_i64 :: "int \<Rightarrow> bool" where "in_i64 i = (- (2 ^ 63) \<le> i \<and> i \<le> 2 ^ 63 - 1)"

lemma digits_value_append:
  "digits_value acc (s @ [48 + d]) = map_option (\<lambda>n. 10 * n + d) (digits_value acc s)"
  if "d < 10"
  using that by (induction acc s rule: digits_value.induct) (auto simp: is_digit_cp_def)

lemma text_of_nat_rec:
  "text_of_nat n = (if n < 10 then [48 + n] else text_of_nat (n div 10) @ [48 + n mod 10])"
  by (simp add: text_of_nat_def text_chars_def string_of_nat.simps[of n] of_char_of)

lemma digits_value_text: "digits_value 0 (text_of_nat n) = Some n"
proof (induction n rule: less_induct)
  case (less n)
  show ?case
  proof (cases "n < 10")
    case True
    then show ?thesis by (simp add: text_of_nat_rec[of n] is_digit_cp_def)
  next
    case False
    then have "digits_value 0 (text_of_nat (n div 10)) = Some (n div 10)" by (intro less) simp
    then show ?thesis using False by (simp add: text_of_nat_rec[of n] digits_value_append)
  qed
qed

lemma text_of_nat_digits: "c \<in> set (text_of_nat n) \<Longrightarrow> is_digit_cp c"
proof (induction n rule: less_induct)
  case (less n)
  show ?case
  proof (cases "n < 10")
    case True
    then show ?thesis using less.prems by (simp add: text_of_nat_rec[of n] is_digit_cp_def)
  next
    case False
    then have "c \<in> set (text_of_nat (n div 10)) \<or> c = 48 + n mod 10"
      using less.prems by (simp add: text_of_nat_rec[of n]) blast
    then show ?thesis using False less.IH[of "n div 10"] by (auto simp: is_digit_cp_def)
  qed
qed

lemma text_of_nat_nonempty [simp]: "text_of_nat n \<noteq> []"
  by (simp add: text_of_nat_rec[of n])

lemma parse_digits_text [simp]: "parse_digits (text_of_nat n) = Some n"
  by (simp add: parse_digits_def digits_value_text)

lemma parse_text_of_int: "lo \<le> i \<Longrightarrow> i \<le> hi \<Longrightarrow> parse_int lo hi (text_of_int i) = Some i"
proof (cases "i < 0")
  case False
  obtain c r where c: "text_of_nat (nat i) = c # r" by (meson neq_Nil_conv text_of_nat_nonempty)
  then have "is_digit_cp c" using text_of_nat_digits by (metis list.set_intros(1))
  then have "c \<noteq> 43 \<and> c \<noteq> 45" by (auto simp: is_digit_cp_def)
  moreover assume "lo \<le> i" "i \<le> hi"
  ultimately show ?thesis using False c parse_digits_text[of "nat i"]
    by (simp add: parse_int_def text_of_int_def split: list.split)
qed (simp add: parse_int_def text_of_int_def)

section \<open>UTF-8 lengths\<close>

definition utf8_len :: "nat \<Rightarrow> nat" where
  "utf8_len c = (if c < 0x80 then 1 else if c < 0x800 then 2 else if c < 0x10000 then 3 else 4)"

definition byte_len :: "chars \<Rightarrow> nat" where "byte_len s = sum_list (map utf8_len s)"

text \<open>The result of code that may panic.\<close>

datatype 'a run = Done 'a | Panics

section \<open>UTF-16\<close>

definition is_scalar :: "nat \<Rightarrow> bool" where
  "is_scalar c = (c < 0xD800 \<or> 0xDFFF < c \<and> c \<le> 0x10FFFF)"

fun encode_utf16 :: "chars \<Rightarrow> nat list" where
  "encode_utf16 [] = []"
| "encode_utf16 (c # cs) =
     (if c < 0x10000 then [c]
      else [0xD800 + (c - 0x10000) div 1024, 0xDC00 + (c - 0x10000) mod 1024]) @ encode_utf16 cs"

text \<open>\<^verbatim>\<open>String::from_utf16\<close> refuses an unpaired surrogate.\<close>

fun from_utf16 :: "nat list \<Rightarrow> chars option" where
  "from_utf16 [] = Some []"
| "from_utf16 (u # us) =
     (if u < 0xD800 \<or> 0xDFFF < u then map_option ((#) u) (from_utf16 us)
      else if u \<le> 0xDBFF then
        (case us of v # vs \<Rightarrow>
            if 0xDC00 \<le> v \<and> v \<le> 0xDFFF
            then map_option ((#) (0x10000 + (u - 0xD800) * 1024 + (v - 0xDC00))) (from_utf16 vs)
            else None
         | [] \<Rightarrow> None)
      else None)"

lemma encode_utf16_append: "encode_utf16 (a @ b) = encode_utf16 a @ encode_utf16 b"
  by (induction a) auto

lemma from_encode_utf16: "list_all is_scalar s \<Longrightarrow> from_utf16 (encode_utf16 s) = Some s"
proof (induction s)
  case (Cons c s)
  then have IH: "from_utf16 (encode_utf16 s) = Some s" and c: "is_scalar c" by auto
  show ?case
  proof (cases "c < 0x10000")
    case True
    then show ?thesis using IH c by (simp add: is_scalar_def)
  next
    case False
    define d where "d = c - 0x10000"
    have c': "c = 0x10000 + d" using False by (simp add: d_def)
    have "d < 0x100000" using c False by (auto simp: is_scalar_def d_def)
    then have q: "d div 1024 < 1024" by (simp add: less_mult_imp_div_less)
    have "d div 1024 * 1024 + d mod 1024 = d" by simp
    then show ?thesis using IH q by (simp add: c' less_imp_le)
  qed
qed simp

end
