(* ===== verification/Tg_Message.thy ===== *)
theory Tg_Message
  imports Text
begin

text \<open>
  The fields of a Telegram message the routing reads, the accessors of
  \<^verbatim>\<open>bot/src/telegram/msg_ext.rs\<close> and the detection of a bot address in
  \<^verbatim>\<open>mention.rs\<close>.  Identifiers of users are 64-bit words, as the Bot API types
  them; chat and thread ids are signed integers.  A message that is replied to
  is cut down to the two fields the code looks at.
\<close>

section \<open>Messages\<close>

datatype chat_type = ChatPrivate | ChatGroup | ChatSupergroup | ChatChannel

datatype entity_type = TextMention | Mention | BotCommand | OtherEntity

record tg_user =
  us_id :: "64 word"
  us_is_bot :: bool
  us_first_name :: chars
  us_last_name :: "chars option"

record tg_chat =
  ch_id :: int
  ch_type :: chat_type
  ch_title :: "chars option"

record tg_entity =
  en_type :: entity_type
  en_offset :: nat
  en_length :: nat
  en_user :: "tg_user option"

record tg_reply =
  rp_from :: "tg_user option"
  rp_forum_topic_created :: bool

record tg_message =
  ms_chat :: tg_chat
  ms_from :: "tg_user option"
  ms_text :: "chars option"
  ms_entities :: "tg_entity list option"
  ms_caption :: "chars option"
  ms_caption_entities :: "tg_entity list option"
  ms_thread_id :: "int option"
  ms_reply_to :: "tg_reply option"
  ms_media_group_id :: "chars option"
  ms_forwarded :: bool

text \<open>\<^verbatim>\<open>user.id as i64\<close>: the same 64 bits read as a signed integer.\<close>

definition user_chat_id :: "tg_user \<Rightarrow> int" where "user_chat_id u = sint (us_id u)"

definition is_private :: "tg_chat \<Rightarrow> bool" where "is_private c = (ch_type c = ChatPrivate)"

definition full_name :: "tg_user \<Rightarrow> chars" where
  "full_name u = (case us_last_name u of Some l \<Rightarrow> us_first_name u @ [32] @ l | None \<Rightarrow> us_first_name u)"

definition text_or_caption :: "tg_message \<Rightarrow> chars option" where
  "text_or_caption m = (case ms_text m of Some t \<Rightarrow> Some t | None \<Rightarrow> ms_caption m)"

text \<open>The thread of a message as \<^verbatim>\<open>session.rs\<close> computes it: an absent thread is 0.\<close>

definition effective_thread_id :: "tg_message \<Rightarrow> int" where
  "effective_thread_id m = (case ms_thread_id m of Some n \<Rightarrow> n | None \<Rightarrow> 0)"

text \<open>The accessor of the same name in \<^verbatim>\<open>msg_ext.rs\<close> also maps the General topic to 0.\<close>

definition effective_thread_id_ext :: "tg_message \<Rightarrow> int" where
  "effective_thread_id_ext m =
     (case ms_thread_id m of None \<Rightarrow> 0 | Some n \<Rightarrow> if n = 1 then 0 else n)"

section \<open>Entities\<close>

definition slice_entity_text :: "nat list \<Rightarrow> tg_entity \<Rightarrow> chars option" where
  "slice_entity_text units e =
     (let start = en_offset e; end = start + en_length e in
      if 2 ^ 64 \<le> end then None
      else if length units < end then None
      else from_utf16 (take (end - start) (drop start units)))"

definition collect_entities :: "chars \<Rightarrow> tg_entity list \<Rightarrow> (tg_entity \<times> chars) list" where
  "collect_entities source es =
     (let units = encode_utf16 source in
      map (\<lambda>e. (e, case slice_entity_text units e of Some t \<Rightarrow> t | None \<Rightarrow> [])) es)"

definition parse_entities :: "tg_message \<Rightarrow> (tg_entity \<times> chars) list option" where
  "parse_entities m =
     (case (ms_text m, ms_entities m) of
        (Some t, Some es) \<Rightarrow> Some (collect_entities t es)
      | _ \<Rightarrow> (case (ms_caption m, ms_caption_entities m) of
                (Some c, Some es) \<Rightarrow> Some (collect_entities c es)
              | _ \<Rightarrow> None))"

text \<open>An entity that covers the middle part of a text yields exactly that part, whatever
  characters of two code units come before it.\<close>

lemma slice_middle:
  assumes "list_all is_scalar b" and "en_offset e = length (encode_utf16 a)"
    and "en_length e = length (encode_utf16 b)" and "length (encode_utf16 (a @ b)) < 2 ^ 64"
  shows "slice_entity_text (encode_utf16 (a @ b @ c)) e = Some b"
  using assms by (simp add: slice_entity_text_def Let_def encode_utf16_append from_encode_utf16)

lemma slice_bounds:
  "slice_entity_text units e = Some t \<Longrightarrow> en_offset e + en_length e \<le> length units"
  by (auto simp: slice_entity_text_def Let_def split: if_splits)

section \<open>Who a message addresses\<close>

record bot_identity =
  bi_username :: chars
  bi_user_id :: "64 word"

datatype address_kind =
    DirectMessage
  | GroupMentionText
  | GroupMentionEntity
  | GroupReplyToBot
  | GroupSlashCommand

definition entity_address :: "bot_identity \<Rightarrow> tg_entity \<times> chars \<Rightarrow> address_kind option" where
  "entity_address ident p =
     (case p of (e, t) \<Rightarrow>
        (case en_type e of
           TextMention \<Rightarrow>
             (case en_user e of Some u \<Rightarrow> if us_id u = bi_user_id ident then Some GroupMentionEntity else None
              | None \<Rightarrow> None)
         | Mention \<Rightarrow>
             (case strip_prefix [64] t of
                Some u \<Rightarrow> if eq_ignore_ascii_case u (bi_username ident) then Some GroupMentionText else None
              | None \<Rightarrow> None)
         | BotCommand \<Rightarrow>
             (case split_once 64 t of
                Some (_, u) \<Rightarrow> if eq_ignore_ascii_case u (bi_username ident) then Some GroupSlashCommand else None
              | None \<Rightarrow> Some GroupSlashCommand)
         | OtherEntity \<Rightarrow> None))"

fun first_address :: "bot_identity \<Rightarrow> (tg_entity \<times> chars) list \<Rightarrow> address_kind option" where
  "first_address ident [] = None"
| "first_address ident (p # ps) =
     (case entity_address ident p of Some a \<Rightarrow> Some a | None \<Rightarrow> first_address ident ps)"

definition replies_to_bot :: "bot_identity \<Rightarrow> tg_message \<Rightarrow> bool" where
  "replies_to_bot ident m =
     (case ms_reply_to m of None \<Rightarrow> False
      | Some r \<Rightarrow> \<not> rp_forum_topic_created r \<and>
          (case rp_from r of Some u \<Rightarrow> us_id u = bi_user_id ident | None \<Rightarrow> False))"

definition is_bot_addressed :: "tg_message \<Rightarrow> bot_identity \<Rightarrow> address_kind option" where
  "is_bot_addressed m ident =
     (if is_private (ms_chat m) then Some DirectMessage
      else if replies_to_bot ident m then Some GroupReplyToBot
      else (case parse_entities m of Some ps \<Rightarrow> first_address ident ps | None \<Rightarrow> None))"

lemma first_address_None:
  "first_address ident ps = None \<longleftrightarrow> (\<forall>p \<in> set ps. entity_address ident p = None)"
  by (induction ps) (auto split: option.splits)

section \<open>Removing mentions of the bot\<close>

definition is_name_cp :: "nat \<Rightarrow> bool" where "is_name_cp c = (is_alnum_cp c \<or> c = 95)"

definition is_hspace :: "nat \<Rightarrow> bool" where "is_hspace c = (c = 32 \<or> c = 9)"

text \<open>The scan keeps what it has produced and what is left of the text.\<close>

fun strip_scan :: "chars \<Rightarrow> chars \<Rightarrow> chars \<Rightarrow> chars" where
  "strip_scan username out [] = out"
| "strip_scan username out (c # cs) =
     (let candidate = takeWhile is_name_cp cs; left = drop (length candidate) cs in
      if c = 64 \<and> candidate \<noteq> [] \<and> eq_ignore_ascii_case candidate username
      then if (out = [] \<or> is_hspace (last out)) \<and> left \<noteq> [] \<and> is_hspace (hd left)
           then strip_scan username out (tl left)
           else strip_scan username out left
      else strip_scan username (out @ [c]) cs)"

definition strip_bot_mentions :: "chars \<Rightarrow> chars \<Rightarrow> chars" where
  "strip_bot_mentions t username = trim_chars (strip_scan username [] t)"

end
