(* ===== verification/Allowlist.thy ===== *)
theory Allowlist
  imports Tg_Message
begin

text \<open>
  The allowlist of an agent (\<^verbatim>\<open>right-agent/src/agent/allowlist.rs\<close>): trusted users,
  opened groups and channels, the response mode of a group and of its topics,
  and the YAML text the bot writes.  The YAML parser and the formatting of an
  instant are arguments.
\<close>

section \<open>Data\<close>

datatype response_mode = ModeAddressed | ModeAll

datatype group_kind = KindGroup | KindChannel

record allowed_user =
  au_id :: int
  au_label :: "chars option"
  au_added_by :: "int option"
  au_added_at :: millis

record topic_mode =
  tm_thread_id :: int
  tm_mode :: response_mode

record allowed_group =
  ag_id :: int
  ag_label :: "chars option"
  ag_opened_by :: "int option"
  ag_opened_at :: millis
  ag_mode :: response_mode
  ag_topics :: "topic_mode list"
  ag_kind :: group_kind

record allowlist_file =
  af_version :: nat
  af_users :: "allowed_user list"
  af_groups :: "allowed_group list"

definition default_version :: nat where "default_version = 1"

definition CURRENT_VERSION :: nat where "CURRENT_VERSION = 2"

definition empty_allowlist :: allowlist_file where
  "empty_allowlist = \<lparr>af_version = CURRENT_VERSION, af_users = [], af_groups = []\<rparr>"

text \<open>The state of the bot wraps the file; the model keeps the file.\<close>

type_synonym allowlist = allowlist_file

datatype add_outcome = Inserted | AlreadyPresent

datatype remove_outcome = Removed | NotFound

section \<open>Queries\<close>

definition is_user_trusted :: "allowlist \<Rightarrow> int \<Rightarrow> bool" where
  "is_user_trusted s uid = list_ex (\<lambda>u. au_id u = uid) (af_users s)"

definition is_group_open :: "allowlist \<Rightarrow> int \<Rightarrow> bool" where
  "is_group_open s cid = list_ex (\<lambda>g. ag_id g = cid \<and> ag_kind g = KindGroup) (af_groups s)"

definition opened_channels :: "allowlist \<Rightarrow> allowed_group list" where
  "opened_channels s = filter (\<lambda>g. ag_kind g = KindChannel) (af_groups s)"

definition is_channel_open :: "allowlist \<Rightarrow> int \<Rightarrow> bool" where
  "is_channel_open s cid = list_ex (\<lambda>g. ag_id g = cid \<and> ag_kind g = KindChannel) (af_groups s)"

definition is_chat_allowed :: "allowlist \<Rightarrow> int \<Rightarrow> bool" where
  "is_chat_allowed s cid = (is_user_trusted s cid \<or> is_group_open s cid)"

definition find_group :: "allowlist \<Rightarrow> int \<Rightarrow> allowed_group option" where
  "find_group s cid = find (\<lambda>g. ag_id g = cid \<and> ag_kind g = KindGroup) (af_groups s)"

definition topic_override :: "allowed_group \<Rightarrow> int \<Rightarrow> response_mode option" where
  "topic_override g tid = map_option tm_mode (find (\<lambda>t. tm_thread_id t = tid) (ag_topics g))"

definition response_mode_of :: "allowlist \<Rightarrow> int \<Rightarrow> int \<Rightarrow> response_mode" where
  "response_mode_of s cid tid =
     (case find_group s cid of
        None \<Rightarrow> ModeAddressed
      | Some g \<Rightarrow> (case topic_override g tid of Some m \<Rightarrow> m | None \<Rightarrow> ag_mode g))"

section \<open>Updates\<close>

text \<open>\<^verbatim>\<open>iter_mut().find(p)\<close> followed by a write: the first match changes.\<close>

fun update_first_where :: "('a \<Rightarrow> bool) \<Rightarrow> ('a \<Rightarrow> 'a) \<Rightarrow> 'a list \<Rightarrow> 'a list" where
  "update_first_where p f [] = []"
| "update_first_where p f (x # xs) = (if p x then f x # xs else x # update_first_where p f xs)"

definition set_group_mode :: "int \<Rightarrow> response_mode \<Rightarrow> allowlist \<Rightarrow> bool \<times> allowlist" where
  "set_group_mode cid m s =
     (case find_group s cid of
        None \<Rightarrow> (False, s)
      | Some _ \<Rightarrow> (True, s\<lparr>af_groups := update_first_where (\<lambda>g. ag_id g = cid \<and> ag_kind g = KindGroup)
                            (\<lambda>g. g\<lparr>ag_mode := m\<rparr>) (af_groups s)\<rparr>))"

definition put_topic :: "int \<Rightarrow> response_mode \<Rightarrow> allowed_group \<Rightarrow> allowed_group" where
  "put_topic tid m g =
     (case find (\<lambda>t. tm_thread_id t = tid) (ag_topics g) of
        Some _ \<Rightarrow> g\<lparr>ag_topics := update_first_where (\<lambda>t. tm_thread_id t = tid) (\<lambda>t. t\<lparr>tm_mode := m\<rparr>) (ag_topics g)\<rparr>
      | None \<Rightarrow> g\<lparr>ag_topics := ag_topics g @ [\<lparr>tm_thread_id = tid, tm_mode = m\<rparr>]\<rparr>)"

definition set_topic_mode :: "int \<Rightarrow> int \<Rightarrow> response_mode \<Rightarrow> allowlist \<Rightarrow> bool \<times> allowlist" where
  "set_topic_mode cid tid m s =
     (case find_group s cid of
        None \<Rightarrow> (False, s)
      | Some _ \<Rightarrow> (True, s\<lparr>af_groups := update_first_where (\<lambda>g. ag_id g = cid \<and> ag_kind g = KindGroup)
                            (put_topic tid m) (af_groups s)\<rparr>))"

definition drop_topic :: "int \<Rightarrow> allowed_group \<Rightarrow> allowed_group" where
  "drop_topic tid g = g\<lparr>ag_topics := delete_where (\<lambda>t. tm_thread_id t = tid) (ag_topics g)\<rparr>"

definition clear_topic_mode :: "int \<Rightarrow> int \<Rightarrow> allowlist \<Rightarrow> bool \<times> allowlist" where
  "clear_topic_mode cid tid s =
     (case find_group s cid of
        None \<Rightarrow> (False, s)
      | Some g \<Rightarrow> (length (ag_topics (drop_topic tid g)) \<noteq> length (ag_topics g),
                   s\<lparr>af_groups := update_first_where (\<lambda>g. ag_id g = cid \<and> ag_kind g = KindGroup)
                      (drop_topic tid) (af_groups s)\<rparr>))"

definition add_user :: "allowed_user \<Rightarrow> allowlist \<Rightarrow> add_outcome \<times> allowlist" where
  "add_user u s =
     (if is_user_trusted s (au_id u) then (AlreadyPresent, s)
      else (Inserted, s\<lparr>af_users := af_users s @ [u]\<rparr>))"

definition remove_user :: "int \<Rightarrow> allowlist \<Rightarrow> remove_outcome \<times> allowlist" where
  "remove_user uid s =
     (let kept = delete_where (\<lambda>u. au_id u = uid) (af_users s) in
      (if length kept = length (af_users s) then NotFound else Removed, s\<lparr>af_users := kept\<rparr>))"

definition add_group :: "allowed_group \<Rightarrow> allowlist \<Rightarrow> add_outcome \<times> allowlist" where
  "add_group g s =
     (case find (\<lambda>e. ag_id e = ag_id g) (af_groups s) of
        Some e \<Rightarrow> if ag_kind e = ag_kind g then (AlreadyPresent, s)
                  else (Inserted, s\<lparr>af_groups := update_first_where (\<lambda>e. ag_id e = ag_id g) (\<lambda>_. g) (af_groups s)\<rparr>)
      | None \<Rightarrow> (Inserted, s\<lparr>af_groups := af_groups s @ [g]\<rparr>))"

definition remove_group :: "int \<Rightarrow> allowlist \<Rightarrow> remove_outcome \<times> allowlist" where
  "remove_group cid s =
     (let kept = delete_where (\<lambda>g. ag_id g = cid) (af_groups s) in
      (if length kept = length (af_groups s) then NotFound else Removed, s\<lparr>af_groups := kept\<rparr>))"

section \<open>The text of the file\<close>

record yaml_lib =
  yl_from_str :: "chars \<Rightarrow> string + allowlist_file"
  yl_rfc3339_secs :: "millis \<Rightarrow> chars"

definition parse_yaml :: "yaml_lib \<Rightarrow> chars \<Rightarrow> string + allowlist_file" where
  "parse_yaml lib t =
     (case yl_from_str lib t of
        Err e \<Rightarrow> Err (''allowlist.yaml parse error: '' @ e)
      | Ok f \<Rightarrow>
          if af_version f \<noteq> 1 \<and> af_version f \<noteq> CURRENT_VERSION
          then Err (''allowlist.yaml version '' @ string_of_nat (af_version f) @
                    '' is not supported (expected 1 or '' @ string_of_nat CURRENT_VERSION @ '')'')
          else Ok (f\<lparr>af_version := CURRENT_VERSION\<rparr>))"

text \<open>The hexadecimal digit of \<^verbatim>\<open>{:02X}\<close>; backslash is 92, the double quote 34.\<close>

definition hex_upper :: "nat \<Rightarrow> nat" where "hex_upper d = (if d < 10 then 48 + d else 55 + d)"

definition escape_cp :: "nat \<Rightarrow> chars" where
  "escape_cp c =
     (if c = 92 then [92, 92]
      else if c = 34 then [92, 34]
      else if c = 10 then [92, 110]
      else if c = 13 then [92, 114]
      else if c = 9 then [92, 116]
      else if c = 0 then [92, 48]
      else if c < 0x20 \<or> c = 0x7F then [92, 120, hex_upper (c div 16), hex_upper (c mod 16)]
      else [c])"

definition escape_double_quoted :: "chars \<Rightarrow> chars" where
  "escape_double_quoted s = concat (map escape_cp s)"

definition line :: "nat \<Rightarrow> chars list \<Rightarrow> chars" where
  "line indent parts = replicate indent 32 @ concat parts @ [10]"

definition write_label :: "string \<Rightarrow> chars option \<Rightarrow> nat \<Rightarrow> chars" where
  "write_label key val indent =
     (case val of
        Some s \<Rightarrow> line indent [text_chars key, text_chars '': '', [34], escape_double_quoted s, [34]]
      | None \<Rightarrow> line indent [text_chars key, text_chars '': null''])"

definition write_opt_i64 :: "string \<Rightarrow> int option \<Rightarrow> nat \<Rightarrow> chars" where
  "write_opt_i64 key val indent =
     (case val of
        Some n \<Rightarrow> line indent [text_chars key, text_chars '': '', text_of_int n]
      | None \<Rightarrow> line indent [text_chars key, text_chars '': null''])"

fun response_mode_str :: "response_mode \<Rightarrow> string" where
  "response_mode_str ModeAddressed = ''addressed''"
| "response_mode_str ModeAll = ''all''"

definition user_text :: "yaml_lib \<Rightarrow> allowed_user \<Rightarrow> chars" where
  "user_text lib u =
     line 2 [text_chars ''- id: '', text_of_int (au_id u)] @
     write_label ''label'' (au_label u) 4 @
     write_opt_i64 ''added_by'' (au_added_by u) 4 @
     line 4 [text_chars ''added_at: '', yl_rfc3339_secs lib (au_added_at u)]"

definition topic_text :: "topic_mode \<Rightarrow> chars" where
  "topic_text t =
     line 6 [text_chars ''- thread_id: '', text_of_int (tm_thread_id t)] @
     line 8 [text_chars ''mode: '', text_chars (response_mode_str (tm_mode t))]"

definition group_text :: "yaml_lib \<Rightarrow> allowed_group \<Rightarrow> chars" where
  "group_text lib g =
     line 2 [text_chars ''- id: '', text_of_int (ag_id g)] @
     write_label ''label'' (ag_label g) 4 @
     write_opt_i64 ''opened_by'' (ag_opened_by g) 4 @
     line 4 [text_chars ''opened_at: '', yl_rfc3339_secs lib (ag_opened_at g)] @
     (if ag_mode g \<noteq> ModeAddressed
      then line 4 [text_chars ''mode: '', text_chars (response_mode_str (ag_mode g))] else []) @
     (if ag_kind g = KindChannel then line 4 [text_chars ''kind: channel''] else []) @
     (if ag_topics g \<noteq> [] then line 4 [text_chars ''topics:''] @ concat (map topic_text (ag_topics g)) else [])"

definition serialize_yaml :: "yaml_lib \<Rightarrow> allowlist_file \<Rightarrow> chars" where
  "serialize_yaml lib f =
     line 0 [text_chars ''# Bot-managed. Edit via /allow, /deny, /allow_all, /deny_all,''] @
     line 0 [text_chars ''# or `right agent allow|deny|allow_all|deny_all`.''] @
     line 0 [text_chars ''version: '', text_of_nat (af_version f)] @
     (if af_users f = [] then line 0 [text_chars ''users: []'']
      else line 0 [text_chars ''users:''] @ concat (map (user_text lib) (af_users f))) @
     (if af_groups f = [] then line 0 [text_chars ''groups: []'']
      else line 0 [text_chars ''groups:''] @ concat (map (group_text lib) (af_groups f)))"

end
