(* ===== verification/Allowlist_Cmds.thy ===== *)
theory Allowlist_Cmds
  imports Allowlist
begin

text \<open>
  What reads and changes the allowlist of a running bot: the routing decision
  for an inbound message (\<^verbatim>\<open>filter.rs\<close>), the commands of trusted users
  (\<^verbatim>\<open>allowlist_commands.rs\<close>, \<^verbatim>\<open>mode_command.rs\<close>), the command line and the watcher
  of the file.  The bot holds a copy in memory; the file is the durable one.
  The last section interleaves the handlers, whose reads and writes are
  separate steps.

  The file is kept as the value its text parses to.  Instants are written in
  whole seconds, so what is read back is the file with its instants cut down.
  Whether the lock, a read or a write succeeds is an argument.
\<close>

section \<open>Routing\<close>

record routing_decision =
  rd_address :: "address_kind option"
  rd_response_mode :: response_mode
  rd_sender_trusted :: bool
  rd_group_open :: bool

definition route_decision :: "allowlist \<Rightarrow> bot_identity \<Rightarrow> tg_message \<Rightarrow> routing_decision option" where
  "route_decision al ident m =
     (case ms_from m of None \<Rightarrow> None
      | Some sender \<Rightarrow>
        (let chat_id = ch_id (ms_chat m);
             sender_trusted = is_user_trusted al (user_chat_id sender);
             group_open = is_group_open al chat_id;
             response_mode = (if is_private (ms_chat m) then ModeAddressed
                              else response_mode_of al chat_id (effective_thread_id m));
             addressed = is_bot_addressed m ident
         in if is_private (ms_chat m)
            then (if \<not> sender_trusted then None
                  else Some \<lparr>rd_address = Some DirectMessage, rd_response_mode = ModeAddressed,
                             rd_sender_trusted = True, rd_group_open = False\<rparr>)
            else if us_is_bot sender then None
            else if response_mode = ModeAll \<and> group_open
            then Some \<lparr>rd_address = addressed, rd_response_mode = response_mode,
                       rd_sender_trusted = sender_trusted, rd_group_open = group_open\<rparr>
            else if \<not> sender_trusted \<and> \<not> group_open then None
            else if addressed = None \<and> ms_media_group_id m = None \<and> \<not> ms_forwarded m then None
            else Some \<lparr>rd_address = addressed, rd_response_mode = response_mode,
                       rd_sender_trusted = sender_trusted, rd_group_open = group_open\<rparr>))"

text \<open>The messages the worker has collected are answered only when this gate is open.\<close>

definition batch_should_invoke_cc :: "routing_decision list \<Rightarrow> bool" where
  "batch_should_invoke_cc batch =
     (list_ex (\<lambda>d. rd_address d \<noteq> None) batch \<or>
      batch \<noteq> [] \<and> list_all (\<lambda>d. rd_response_mode d = ModeAll) batch)"

section \<open>The file\<close>

datatype disk_text = NoFile | Unreadable string | Holds allowlist_file

record disk =
  dk_file :: disk_text
  dk_tmp :: disk_text

definition whole_secs :: "millis \<Rightarrow> millis" where "whole_secs t = secs (t div 1000)"

definition saved :: "allowlist_file \<Rightarrow> allowlist_file" where
  "saved f = f\<lparr>af_users := map (\<lambda>u. u\<lparr>au_added_at := whole_secs (au_added_at u)\<rparr>) (af_users f),
              af_groups := map (\<lambda>g. g\<lparr>ag_opened_at := whole_secs (ag_opened_at g)\<rparr>) (af_groups f)\<rparr>"

datatype write_fault = CreateFails | WriteFails string | FsyncFails | RenameFails

record io_result =
  io_lock :: bool
  io_read :: bool
  io_write :: "write_fault option"

definition read_file :: "bool \<Rightarrow> disk \<Rightarrow> string + allowlist_file option" where
  "read_file ok d =
     (case dk_file d of
        NoFile \<Rightarrow> Ok None
      | Unreadable e \<Rightarrow> if ok then Err e else Err ''read''
      | Holds f \<Rightarrow> if ok then Ok (Some f) else Err ''read'')"

definition write_file_inner :: "write_fault option \<Rightarrow> allowlist_file \<Rightarrow> disk \<Rightarrow> (string + unit) \<times> disk" where
  "write_file_inner fault f d =
     (case fault of
        Some CreateFails \<Rightarrow> (Err ''create'', d)
      | Some (WriteFails part) \<Rightarrow> (Err ''write'', d\<lparr>dk_tmp := Unreadable part\<rparr>)
      | Some FsyncFails \<Rightarrow> (Err ''fsync'', d\<lparr>dk_tmp := Holds (saved f)\<rparr>)
      | Some RenameFails \<Rightarrow> (Err ''rename'', d\<lparr>dk_tmp := Holds (saved f)\<rparr>)
      | None \<Rightarrow> (Ok (), d\<lparr>dk_file := Holds (saved f), dk_tmp := NoFile\<rparr>))"

definition with_lock :: "bool \<Rightarrow> (disk \<Rightarrow> (string + 'r) \<times> disk) \<Rightarrow> disk \<Rightarrow> (string + 'r) \<times> disk" where
  "with_lock ok f d = (if ok then f d else (Err ''lock'', d))"

definition write_file :: "io_result \<Rightarrow> allowlist_file \<Rightarrow> disk \<Rightarrow> (string + unit) \<times> disk" where
  "write_file io f d = with_lock (io_lock io) (write_file_inner (io_write io) f) d"

record migration_report =
  mr_users :: nat
  mr_groups :: nat
  mr_already_present :: bool

fun migrate_ids :: "millis \<Rightarrow> int list \<Rightarrow> allowlist_file \<Rightarrow> allowlist_file" where
  "migrate_ids now [] f = f"
| "migrate_ids now (i # is) f =
     migrate_ids now is
       (if 0 < i
        then f\<lparr>af_users := af_users f @ [\<lparr>au_id = i, au_label = None, au_added_by = None, au_added_at = now\<rparr>]\<rparr>
        else if i < 0
        then f\<lparr>af_groups := af_groups f @ [\<lparr>ag_id = i, ag_label = None, ag_opened_by = None, ag_opened_at = now,
                 ag_mode = ModeAddressed, ag_topics = [], ag_kind = KindGroup\<rparr>]\<rparr>
        else f)"

definition migrate_from_legacy ::
  "io_result \<Rightarrow> int list \<Rightarrow> millis \<Rightarrow> disk \<Rightarrow> (string + migration_report) \<times> disk" where
  "migrate_from_legacy io ids now d =
     (if dk_file d \<noteq> NoFile
      then (Ok \<lparr>mr_users = 0, mr_groups = 0, mr_already_present = True\<rparr>, d)
      else (let f = migrate_ids now ids empty_allowlist in
            case write_file io f d of
              (Err e, d') \<Rightarrow> (Err e, d')
            | (Ok _, d') \<Rightarrow> (Ok \<lparr>mr_users = length (filter (\<lambda>i. 0 < i) ids),
                               mr_groups = length (filter (\<lambda>i. i < 0) ids), mr_already_present = False\<rparr>, d')))"

section \<open>Commands of trusted users\<close>

record world =
  wd_disk :: disk
  wd_mem :: allowlist

datatype user_target =
    NumericId int
  | TextMentionOf int chars
  | ReplyTo int chars
  | UnresolvableUsername chars
  | NoTarget

fun first_text_mention :: "tg_entity list \<Rightarrow> tg_user option" where
  "first_text_mention [] = None"
| "first_text_mention (e # es) =
     (case (en_type e, en_user e) of
        (TextMention, Some u) \<Rightarrow> Some u
      | _ \<Rightarrow> first_text_mention es)"

definition resolve_args :: "chars \<Rightarrow> user_target" where
  "resolve_args args =
     (let trimmed = trim_chars args in
      case parse_i64 trimmed of
        Some i \<Rightarrow> NumericId i
      | None \<Rightarrow> (case strip_prefix [64] trimmed of
                   Some u \<Rightarrow> if u \<noteq> [] then UnresolvableUsername u else NoTarget
                 | None \<Rightarrow> NoTarget))"

definition resolve_user_target :: "tg_message \<Rightarrow> chars \<Rightarrow> user_target" where
  "resolve_user_target m args =
     (case (case ms_reply_to m of Some r \<Rightarrow> rp_from r | None \<Rightarrow> None) of
        Some u \<Rightarrow> ReplyTo (user_chat_id u) (full_name u)
      | None \<Rightarrow>
        (case (case ms_entities m of Some es \<Rightarrow> first_text_mention es | None \<Rightarrow> None) of
           Some u \<Rightarrow> TextMentionOf (user_chat_id u) (full_name u)
         | None \<Rightarrow> resolve_args args))"

definition deny_all_target :: "bool \<Rightarrow> int \<Rightarrow> chars \<Rightarrow> int option" where
  "deny_all_target priv chat_id args =
     (let trimmed = trim_chars args in
      if priv then (if trimmed = [] then None else parse_i64 trimmed)
      else if trimmed = [] then Some chat_id else parse_i64 trimmed)"

definition sender_is_trusted :: "tg_message \<Rightarrow> allowlist \<Rightarrow> bool" where
  "sender_is_trusted m al =
     (case ms_from m of None \<Rightarrow> False | Some u \<Rightarrow> is_user_trusted al (user_chat_id u))"

datatype reply =
    CannotResolve chars | AllowUsage | DenyUsage | DenyAllUsage | NegativeUserId | CannotDenySelf
  | PersistFailed string | UserAllowed chars int | UserAlreadyAllowed int | UserRemoved int
  | UserNotFound int | OnlyInGroups | GroupOpened | GroupAlreadyOpened | ChatClosed | ChatNotOpened

text \<open>What a handler decides from the copy in memory: nothing but a reply, or a state to persist and
  the reply that follows a successful write.\<close>

datatype cmd_plan = JustReply reply | Persist allowlist reply

definition plan_allow :: "tg_message \<Rightarrow> chars \<Rightarrow> millis \<Rightarrow> allowlist \<Rightarrow> cmd_plan" where
  "plan_allow m args now al =
     (let go = (\<lambda>i label.
            if i < 0 then JustReply NegativeUserId
            else (case add_user \<lparr>au_id = i, au_label = label,
                       au_added_by = map_option user_chat_id (ms_from m), au_added_at = now\<rparr> al of
                    (Inserted, next) \<Rightarrow>
                      Persist next (UserAllowed (case label of Some l \<Rightarrow> l | None \<Rightarrow> text_of_int i) i)
                  | (AlreadyPresent, _) \<Rightarrow> JustReply (UserAlreadyAllowed i)))
      in case resolve_user_target m args of
           NumericId i \<Rightarrow> go i None
         | ReplyTo i name \<Rightarrow> go i (Some name)
         | TextMentionOf i name \<Rightarrow> go i (Some name)
         | UnresolvableUsername u \<Rightarrow> JustReply (CannotResolve u)
         | NoTarget \<Rightarrow> JustReply AllowUsage)"

definition plan_deny :: "tg_message \<Rightarrow> chars \<Rightarrow> allowlist \<Rightarrow> cmd_plan" where
  "plan_deny m args al =
     (let go = (\<lambda>i.
            if map_option user_chat_id (ms_from m) = Some i then JustReply CannotDenySelf
            else (case remove_user i al of
                    (Removed, next) \<Rightarrow> Persist next (UserRemoved i)
                  | (NotFound, _) \<Rightarrow> JustReply (UserNotFound i)))
      in case resolve_user_target m args of
           NumericId i \<Rightarrow> go i
         | ReplyTo i _ \<Rightarrow> go i
         | TextMentionOf i _ \<Rightarrow> go i
         | UnresolvableUsername u \<Rightarrow> JustReply (CannotResolve u)
         | NoTarget \<Rightarrow> JustReply DenyUsage)"

definition plan_allow_all :: "tg_message \<Rightarrow> millis \<Rightarrow> allowlist \<Rightarrow> cmd_plan" where
  "plan_allow_all m now al =
     (if is_private (ms_chat m) then JustReply OnlyInGroups
      else (case add_group \<lparr>ag_id = ch_id (ms_chat m), ag_label = ch_title (ms_chat m),
                 ag_opened_by = map_option user_chat_id (ms_from m), ag_opened_at = now,
                 ag_mode = ModeAddressed, ag_topics = [], ag_kind = KindGroup\<rparr> al of
              (Inserted, next) \<Rightarrow> Persist next GroupOpened
            | (AlreadyPresent, _) \<Rightarrow> JustReply GroupAlreadyOpened))"

definition plan_deny_all :: "tg_message \<Rightarrow> chars \<Rightarrow> allowlist \<Rightarrow> cmd_plan" where
  "plan_deny_all m args al =
     (case deny_all_target (is_private (ms_chat m)) (ch_id (ms_chat m)) args of
        None \<Rightarrow> JustReply DenyAllUsage
      | Some cid \<Rightarrow>
          (case remove_group cid al of
             (Removed, next) \<Rightarrow> Persist next ChatClosed
           | (NotFound, _) \<Rightarrow> JustReply ChatNotOpened))"

datatype command = Allow chars millis | Deny chars | AllowAll millis | DenyAll chars

fun plan_command :: "tg_message \<Rightarrow> command \<Rightarrow> allowlist \<Rightarrow> cmd_plan" where
  "plan_command m (Allow args now) al = plan_allow m args now al"
| "plan_command m (Deny args) al = plan_deny m args al"
| "plan_command m (AllowAll now) al = plan_allow_all m now al"
| "plan_command m (DenyAll args) al = plan_deny_all m args al"

definition persist_new :: "io_result \<Rightarrow> allowlist \<Rightarrow> world \<Rightarrow> (string + unit) \<times> world" where
  "persist_new io next w =
     (case write_file io next (wd_disk w) of
        (Err e, d) \<Rightarrow> (Err e, w\<lparr>wd_disk := d\<rparr>)
      | (Ok _, d) \<Rightarrow> (Ok (), w\<lparr>wd_disk := d, wd_mem := next\<rparr>))"

text \<open>A command handler run without interruption.\<close>

definition handle_command :: "io_result \<Rightarrow> tg_message \<Rightarrow> command \<Rightarrow> world \<Rightarrow> reply option \<times> world" where
  "handle_command io m c w =
     (if \<not> sender_is_trusted m (wd_mem w) then (None, w)
      else (case plan_command m c (wd_mem w) of
              JustReply r \<Rightarrow> (Some r, w)
            | Persist next r \<Rightarrow>
                (case persist_new io next w of
                   (Err e, w') \<Rightarrow> (Some (PersistFailed e), w')
                 | (Ok _, w') \<Rightarrow> (Some r, w'))))"

section \<open>Response modes\<close>

definition update_locked ::
  "io_result \<Rightarrow> (allowlist \<Rightarrow> 'r \<times> allowlist) \<Rightarrow> world \<Rightarrow> (string + 'r) \<times> world" where
  "update_locked io f w =
     (if \<not> io_lock io then (Err ''lock'', w)
      else (case read_file (io_read io) (wd_disk w) of
              Err e \<Rightarrow> (Err e, w)
            | Ok file \<Rightarrow>
                (case f (case file of Some x \<Rightarrow> x | None \<Rightarrow> empty_allowlist) of
                   (r, state) \<Rightarrow>
                     (case write_file_inner (io_write io) state (wd_disk w) of
                        (Err e, d) \<Rightarrow> (Err e, w\<lparr>wd_disk := d\<rparr>)
                      | (Ok _, d) \<Rightarrow> (Ok r, w\<lparr>wd_disk := d, wd_mem := state\<rparr>)))))"

datatype mode_scope = TopicScope | GroupScope

datatype mode_action = SetMode response_mode | ClearTopic

definition parse_callback :: "chars \<Rightarrow> (mode_scope \<times> mode_action) option" where
  "parse_callback data =
     (case strip_prefix (text_chars ''modegroup:'') data of
        Some rest \<Rightarrow>
          if rest = text_chars ''addressed'' then Some (GroupScope, SetMode ModeAddressed)
          else if rest = text_chars ''all'' then Some (GroupScope, SetMode ModeAll)
          else None
      | None \<Rightarrow>
        (case strip_prefix (text_chars ''mode:'') data of
           Some rest \<Rightarrow>
             if rest = text_chars ''addressed'' then Some (TopicScope, SetMode ModeAddressed)
             else if rest = text_chars ''all'' then Some (TopicScope, SetMode ModeAll)
             else if rest = text_chars ''clear'' then Some (TopicScope, ClearTopic)
             else None
         | None \<Rightarrow> None))"

text \<open>The two views a menu is rendered from look the entry up by its id alone.\<close>

definition group_mode :: "allowlist \<Rightarrow> int \<Rightarrow> response_mode option" where
  "group_mode al cid = map_option ag_mode (find (\<lambda>g. ag_id g = cid) (af_groups al))"

definition topic_mode_state :: "allowlist \<Rightarrow> int \<Rightarrow> int \<Rightarrow> (response_mode \<times> bool) option" where
  "topic_mode_state al cid tid =
     (case find (\<lambda>g. ag_id g = cid) (af_groups al) of
        None \<Rightarrow> None
      | Some g \<Rightarrow> (case topic_override g tid of Some m \<Rightarrow> Some (m, True) | None \<Rightarrow> Some (ag_mode g, False)))"

definition apply_mode_action ::
  "int \<Rightarrow> int \<Rightarrow> mode_scope \<Rightarrow> mode_action \<Rightarrow> allowlist \<Rightarrow> bool \<times> allowlist" where
  "apply_mode_action cid tid sc ac al =
     (case (sc, ac) of
        (GroupScope, SetMode m) \<Rightarrow> set_group_mode cid m al
      | (TopicScope, SetMode m) \<Rightarrow> set_topic_mode cid tid m al
      | (TopicScope, ClearTopic) \<Rightarrow>
          if \<not> is_group_open al cid then (False, al) else (True, snd (clear_topic_mode cid tid al))
      | (GroupScope, ClearTopic) \<Rightarrow> (False, al))"

datatype scope_view = TopicView response_mode bool | GroupView response_mode

definition render_scope_state :: "allowlist \<Rightarrow> int \<Rightarrow> int \<Rightarrow> mode_scope \<Rightarrow> scope_view option" where
  "render_scope_state al cid tid sc =
     (case sc of
        TopicScope \<Rightarrow> map_option (\<lambda>(m, b). TopicView m b) (topic_mode_state al cid tid)
      | GroupScope \<Rightarrow> map_option GroupView (group_mode al cid))"

datatype menu_message = RegularMessage tg_message | InaccessibleMessage int

fun message_chat_id :: "menu_message \<Rightarrow> int" where
  "message_chat_id (RegularMessage m) = ch_id (ms_chat m)"
| "message_chat_id (InaccessibleMessage cid) = cid"

fun callback_target :: "mode_scope \<Rightarrow> menu_message \<Rightarrow> (int \<times> int) option" where
  "callback_target GroupScope msg = Some (message_chat_id msg, 0)"
| "callback_target TopicScope (RegularMessage m) = Some (ch_id (ms_chat m), effective_thread_id m)"
| "callback_target TopicScope (InaccessibleMessage _) = None"

record callback_query =
  cq_from :: tg_user
  cq_data :: "chars option"
  cq_message :: "menu_message option"

datatype callback_answer =
    EmptyAnswer | NotAllowed | MenuUnavailable | SaveFailed | OpenGroupFirst | MenuEdited scope_view

definition handle_mode_callback :: "io_result \<Rightarrow> callback_query \<Rightarrow> world \<Rightarrow> callback_answer \<times> world" where
  "handle_mode_callback io q w =
     (case (case cq_data q of Some data \<Rightarrow> parse_callback data | None \<Rightarrow> None) of
        None \<Rightarrow> (EmptyAnswer, w)
      | Some (sc, ac) \<Rightarrow>
          if \<not> is_user_trusted (wd_mem w) (user_chat_id (cq_from q)) then (NotAllowed, w)
          else (case cq_message q of
                  None \<Rightarrow> (MenuUnavailable, w)
                | Some msg \<Rightarrow>
                    (case callback_target sc msg of
                       None \<Rightarrow> (MenuUnavailable, w)
                     | Some (cid, tid) \<Rightarrow>
                         (case update_locked io (apply_mode_action cid tid sc ac) w of
                            (Err _, w') \<Rightarrow> (SaveFailed, w')
                          | (Ok updated, w') \<Rightarrow>
                              if \<not> updated then (OpenGroupFirst, w')
                              else (case render_scope_state (wd_mem w') cid tid sc of
                                      None \<Rightarrow> (OpenGroupFirst, w')
                                    | Some view \<Rightarrow> (MenuEdited view, w'))))))"

section \<open>The command line and the watcher\<close>

definition cli_update ::
  "io_result \<Rightarrow> (allowlist \<Rightarrow> 'r \<times> allowlist) \<Rightarrow> ('r \<Rightarrow> bool) \<Rightarrow> disk \<Rightarrow> (string + 'r) \<times> disk" where
  "cli_update io f writes d =
     with_lock (io_lock io)
       (\<lambda>d. case read_file (io_read io) d of
              Err e \<Rightarrow> (Err e, d)
            | Ok file \<Rightarrow>
                (case f (case file of Some x \<Rightarrow> x | None \<Rightarrow> empty_allowlist) of
                   (r, state) \<Rightarrow>
                     if writes r
                     then (case write_file_inner (io_write io) state d of
                             (Err e, d') \<Rightarrow> (Err e, d')
                           | (Ok _, d') \<Rightarrow> (Ok r, d'))
                     else (Ok r, d))) d"

definition cli_allow :: "io_result \<Rightarrow> int \<Rightarrow> chars option \<Rightarrow> millis \<Rightarrow> disk \<Rightarrow> (string + add_outcome) \<times> disk" where
  "cli_allow io uid label now =
     cli_update io (add_user \<lparr>au_id = uid, au_label = label, au_added_by = None, au_added_at = now\<rparr>) (\<lambda>_. True)"

definition cli_deny :: "io_result \<Rightarrow> int \<Rightarrow> disk \<Rightarrow> (string + remove_outcome) \<times> disk" where
  "cli_deny io uid = cli_update io (remove_user uid) (\<lambda>_. True)"

definition cli_allow_all :: "io_result \<Rightarrow> int \<Rightarrow> chars option \<Rightarrow> millis \<Rightarrow> disk \<Rightarrow> (string + add_outcome) \<times> disk" where
  "cli_allow_all io cid label now =
     cli_update io (add_group \<lparr>ag_id = cid, ag_label = label, ag_opened_by = None, ag_opened_at = now,
       ag_mode = ModeAddressed, ag_topics = [], ag_kind = KindGroup\<rparr>) (\<lambda>_. True)"

definition cli_deny_all :: "io_result \<Rightarrow> int \<Rightarrow> disk \<Rightarrow> (string + remove_outcome) \<times> disk" where
  "cli_deny_all io cid = cli_update io (remove_group cid) (\<lambda>_. True)"

text \<open>\<^verbatim>\<open>right agent mode\<close>: the value is parsed first; clearing is for topics only.\<close>

definition cli_mode_change :: "int \<Rightarrow> int \<Rightarrow> bool \<Rightarrow> response_mode option \<Rightarrow> allowlist \<Rightarrow> bool \<times> allowlist" where
  "cli_mode_change cid tid whole mode al =
     (case mode of
        Some m \<Rightarrow> if whole then set_group_mode cid m al else set_topic_mode cid tid m al
      | None \<Rightarrow> (case clear_topic_mode cid tid al of (b, al') \<Rightarrow> (b \<or> is_group_open al' cid, al')))"

definition cli_mode :: "io_result \<Rightarrow> int \<Rightarrow> int \<Rightarrow> bool \<Rightarrow> string \<Rightarrow> disk \<Rightarrow> (string + bool) \<times> disk" where
  "cli_mode io cid tid whole value d =
     (if value \<notin> {''addressed'', ''all'', ''clear''} then (Err ''invalid mode'', d)
      else (let mode = (if value = ''addressed'' then Some ModeAddressed
                        else if value = ''all'' then Some ModeAll else None) in
            if whole \<and> mode = None then (Err ''clear is topic-only'', d)
            else cli_update io (cli_mode_change cid tid whole mode) (\<lambda>ok. ok) d))"

text \<open>The watcher reads the file without the lock; what it read replaces the memory later.\<close>

definition watcher_read :: "bool \<Rightarrow> disk \<Rightarrow> allowlist option" where
  "watcher_read ok d = (case read_file ok d of Ok (Some f) \<Rightarrow> Some f | _ \<Rightarrow> None)"

section \<open>Interleavings\<close>

text \<open>A handler in flight has passed the gate, or has a state to write, or has written it and
  must still swap it into memory.\<close>

datatype job = Gated tg_message command | GatedMode int int mode_scope mode_action
  | Writing allowlist | Swapping allowlist

record system =
  sy_disk :: disk
  sy_mem :: allowlist
  sy_jobs :: "job list"
  sy_reload :: "allowlist option"

datatype cli_op = CliAllow int "chars option" millis | CliDeny int
  | CliAllowAll int "chars option" millis | CliDenyAll int | CliMode int int bool string

fun cli_disk :: "io_result \<Rightarrow> cli_op \<Rightarrow> disk \<Rightarrow> disk" where
  "cli_disk io (CliAllow u l now) d = snd (cli_allow io u l now d)"
| "cli_disk io (CliDeny u) d = snd (cli_deny io u d)"
| "cli_disk io (CliAllowAll c l now) d = snd (cli_allow_all io c l now d)"
| "cli_disk io (CliDenyAll c) d = snd (cli_deny_all io c d)"
| "cli_disk io (CliMode c t g v) d = snd (cli_mode io c t g v d)"

datatype label = Accept tg_message command | Click callback_query | Cli cli_op | Internal

inductive sys_step :: "label \<Rightarrow> system \<Rightarrow> system \<Rightarrow> bool" where
  accept: "sys_step (Accept m c) s (s\<lparr>sy_jobs := Gated m c # sy_jobs s\<rparr>)"
    if "sender_is_trusted m (sy_mem s)"
| refuse: "sys_step (Accept m c) s s"
    if "\<not> sender_is_trusted m (sy_mem s)"
| plan: "sys_step Internal s (s\<lparr>sy_jobs := js @ Writing next # ks\<rparr>)"
    if "sy_jobs s = js @ Gated m c # ks" and "plan_command m c (sy_mem s) = Persist next r"
| answer: "sys_step Internal s (s\<lparr>sy_jobs := js @ ks\<rparr>)"
    if "sy_jobs s = js @ Gated m c # ks" and "plan_command m c (sy_mem s) = JustReply r"
| save_ok: "sys_step Internal s (s\<lparr>sy_disk := d, sy_jobs := js @ Swapping next # ks\<rparr>)"
    if "sy_jobs s = js @ Writing next # ks" and "write_file io next (sy_disk s) = (Ok u, d)"
| write_fails: "sys_step Internal s (s\<lparr>sy_disk := d, sy_jobs := js @ ks\<rparr>)"
    if "sy_jobs s = js @ Writing next # ks" and "write_file io next (sy_disk s) = (Err e, d)"
| swap: "sys_step Internal s (s\<lparr>sy_mem := next, sy_jobs := js @ ks\<rparr>)"
    if "sy_jobs s = js @ Swapping next # ks"
| click: "sys_step (Click q) s (s\<lparr>sy_jobs := GatedMode cid tid sc ac # sy_jobs s\<rparr>)"
    if "cq_data q = Some data" and "parse_callback data = Some (sc, ac)"
      and "is_user_trusted (sy_mem s) (user_chat_id (cq_from q))"
      and "cq_message q = Some msg" and "callback_target sc msg = Some (cid, tid)"
| click_refused: "sys_step (Click q) s s"
| mode: "sys_step Internal s (s\<lparr>sy_disk := wd_disk w, sy_jobs := js @ Swapping (wd_mem w) # ks\<rparr>)"
    if "sy_jobs s = js @ GatedMode cid tid sc ac # ks"
      and "update_locked io (apply_mode_action cid tid sc ac) \<lparr>wd_disk = sy_disk s, wd_mem = sy_mem s\<rparr> = (Ok b, w)"
| mode_fails: "sys_step Internal s (s\<lparr>sy_disk := wd_disk w, sy_jobs := js @ ks\<rparr>)"
    if "sy_jobs s = js @ GatedMode cid tid sc ac # ks"
      and "update_locked io (apply_mode_action cid tid sc ac) \<lparr>wd_disk = sy_disk s, wd_mem = sy_mem s\<rparr> = (Err e, w)"
| cli: "sys_step (Cli op) s (s\<lparr>sy_disk := cli_disk io op (sy_disk s)\<rparr>)"
| watch: "sys_step Internal s (s\<lparr>sy_reload := Some f\<rparr>)"
    if "watcher_read ok (sy_disk s) = Some f"
| reload: "sys_step Internal s (s\<lparr>sy_mem := f, sy_reload := None\<rparr>)"
    if "sy_reload s = Some f"

inductive sys_run :: "label list \<Rightarrow> system \<Rightarrow> system \<Rightarrow> bool" where
  stop: "sys_run [] s s"
| step: "sys_run (l # ls) s t" if "sys_step l s s'" and "sys_run ls s' t"

end
