(* ===== verification/Allowlist_Props.thy ===== *)
theory Allowlist_Props
  imports Allowlist_Cmds
begin

text \<open>
  What the allowlist guarantees: who may make the agent answer, that trust is
  only ever granted by a trusted user or on the command line however the
  handlers interleave, that a mode change never works on a stale copy, and that
  a label cannot escape from its place in the file.
\<close>

section \<open>Lookups and updates\<close>

definition trusted_ids :: "allowlist \<Rightarrow> int set" where "trusted_ids al = au_id ` set (af_users al)"

lemma is_user_trusted_iff: "is_user_trusted al u \<longleftrightarrow> u \<in> trusted_ids al"
  by (auto simp: is_user_trusted_def trusted_ids_def list_ex_iff)

lemma find_group_open: "is_group_open al cid \<longleftrightarrow> find_group al cid \<noteq> None"
  by (auto simp: is_group_open_def find_group_def list_ex_iff find_None_iff)

lemma all_mode_is_open: "response_mode_of al cid tid = ModeAll \<Longrightarrow> is_group_open al cid"
  by (auto simp: response_mode_of_def find_group_open split: option.splits)

lemma find_update_first:
  assumes "\<And>x. p (f x) = p x"
  shows "find p (update_first_where p f xs) = map_option f (find p xs)"
  using assms by (induction xs) auto

lemma find_update_other:
  assumes "\<And>x. p x \<Longrightarrow> q x \<Longrightarrow> False" and "\<And>x. q (f x) = q x"
  shows "find q (update_first_where p f xs) = find q xs"
  using assms by (induction xs) auto

lemma update_first_ids:
  "(\<And>x. k (f x) = k x) \<Longrightarrow> map k (update_first_where p f xs) = map k xs"
  by (induction xs) auto

lemma find_delete_where:
  "find p (delete_where q xs) = (if (\<forall>x. p x \<longrightarrow> q x) then None else find p (delete_where q xs))"
  by (auto simp: find_None_iff delete_where_def)

section \<open>Operations that grant nothing, or one id\<close>

text \<open>An operation on the allowlist that adds at most the ids of \<open>G\<close> to the trusted ones.\<close>

locale grant_bounded =
  fixes f :: "allowlist \<Rightarrow> 'r \<times> allowlist" and G :: "int set"
  assumes grants: "trusted_ids (snd (f al)) \<subseteq> trusted_ids al \<union> G"

definition disk_ids :: "disk \<Rightarrow> int set" where
  "disk_ids d = (case dk_file d of Holds f \<Rightarrow> trusted_ids f | _ \<Rightarrow> {})"

lemma trusted_ids_saved [simp]: "trusted_ids (saved f) = trusted_ids f"
  by (simp add: trusted_ids_def saved_def image_image)

lemma trusted_ids_empty [simp]: "trusted_ids empty_allowlist = {}"
  by (simp add: trusted_ids_def empty_allowlist_def)

lemma write_inner_ids:
  "write_file_inner w f d = (r, d') \<Longrightarrow> disk_ids d' \<subseteq> disk_ids d \<union> trusted_ids f"
  by (auto simp: write_file_inner_def disk_ids_def split: option.splits write_fault.splits)

lemma write_file_ids:
  "write_file io f d = (r, d') \<Longrightarrow> disk_ids d' \<subseteq> disk_ids d \<union> trusted_ids f"
  by (auto simp: write_file_def with_lock_def dest: write_inner_ids split: if_splits)

lemma read_file_ids:
  "read_file ok d = Ok file \<Longrightarrow> trusted_ids (case file of Some x \<Rightarrow> x | None \<Rightarrow> empty_allowlist) \<subseteq> disk_ids d"
  by (auto simp: read_file_def disk_ids_def split: disk_text.splits if_splits)

context grant_bounded
begin

lemma step_ids:
  assumes "read_file ok d = Ok file" and "f (case file of Some x \<Rightarrow> x | None \<Rightarrow> empty_allowlist) = (r, al)"
  shows "trusted_ids al \<subseteq> disk_ids d \<union> G"
  using grants[of "case file of Some x \<Rightarrow> x | None \<Rightarrow> empty_allowlist"] read_file_ids[OF assms(1)] assms(2)
  by auto

lemma update_locked_ids:
  assumes "update_locked io f w = (r, w')"
  shows "disk_ids (wd_disk w') \<subseteq> disk_ids (wd_disk w) \<union> G"
    and "is_ok r \<Longrightarrow> trusted_ids (wd_mem w') \<subseteq> disk_ids (wd_disk w) \<union> G"
  using assms unfolding update_locked_def
  by (auto split: if_splits sum.splits prod.splits dest!: write_inner_ids step_ids)

lemma cli_update_ids: "disk_ids (snd (cli_update io f wr d)) \<subseteq> disk_ids d \<union> G"
proof -
  obtain r d' where c: "cli_update io f wr d = (r, d')" by fastforce
  then have "disk_ids d' \<subseteq> disk_ids d \<union> G" unfolding cli_update_def with_lock_def
    by (auto split: if_splits sum.splits prod.splits dest!: write_inner_ids step_ids)
  then show ?thesis using c by simp
qed

end

lemma add_user_ids: "trusted_ids (snd (add_user u al)) = insert (au_id u) (trusted_ids al)"
  by (auto simp: add_user_def is_user_trusted_iff trusted_ids_def)

lemma remove_user_ids: "trusted_ids (snd (remove_user u al)) = trusted_ids al - {u}"
  by (auto simp: remove_user_def trusted_ids_def Let_def delete_where_def)

lemma group_ops_keep_users [simp]:
  "af_users (snd (add_group g al)) = af_users al"
  "af_users (snd (remove_group c al)) = af_users al"
  "af_users (snd (set_group_mode c m al)) = af_users al"
  "af_users (snd (set_topic_mode c t m al)) = af_users al"
  "af_users (snd (clear_topic_mode c t al)) = af_users al"
  by (auto simp: add_group_def remove_group_def set_group_mode_def set_topic_mode_def clear_topic_mode_def
      Let_def split: option.splits)

lemma mode_ops_keep_users [simp]:
  "af_users (snd (apply_mode_action c t sc ac al)) = af_users al"
  "af_users (snd (cli_mode_change c t b m al)) = af_users al"
  by (auto simp: apply_mode_action_def cli_mode_change_def case_prod_beta
      split: mode_scope.splits mode_action.splits option.splits)

interpretation adding_user: grant_bounded "add_user u" "{au_id u}" for u
  by unfold_locales (simp add: add_user_ids)

interpretation removing_user: grant_bounded "remove_user u" "{}" for u
  by unfold_locales (auto simp: remove_user_ids)

interpretation adding_group: grant_bounded "add_group g" "{}" for g
  by unfold_locales (simp add: trusted_ids_def)

interpretation removing_group: grant_bounded "remove_group c" "{}" for c
  by unfold_locales (simp add: trusted_ids_def)

interpretation mode_action: grant_bounded "apply_mode_action c t sc ac" "{}" for c t sc ac
  by unfold_locales (simp add: trusted_ids_def)

interpretation cli_mode_action: grant_bounded "cli_mode_change c t b m" "{}" for c t b m
  by unfold_locales (simp add: trusted_ids_def)

section \<open>Who is trusted in the end\<close>

text \<open>The id an accepted command makes trusted.\<close>

definition granted :: "tg_message \<Rightarrow> command \<Rightarrow> int set" where
  "granted m c =
     (case c of
        Allow args now \<Rightarrow>
          (case resolve_user_target m args of
             NumericId i \<Rightarrow> {i} | ReplyTo i _ \<Rightarrow> {i} | TextMentionOf i _ \<Rightarrow> {i} | _ \<Rightarrow> {})
      | _ \<Rightarrow> {})"

definition sender_in :: "int set \<Rightarrow> tg_message \<Rightarrow> bool" where
  "sender_in U m = (case ms_from m of Some u \<Rightarrow> user_chat_id u \<in> U | None \<Rightarrow> False)"

fun trust_label :: "int set \<Rightarrow> label \<Rightarrow> int set" where
  "trust_label U (Accept m c) = (if sender_in U m then U \<union> granted m c else U)"
| "trust_label U (Cli (CliAllow u _ _)) = insert u U"
| "trust_label U _ = U"

definition trust_after :: "label list \<Rightarrow> int set \<Rightarrow> int set" where
  "trust_after ls U = fold (\<lambda>l U. trust_label U l) ls U"

fun job_ids :: "job \<Rightarrow> int set" where
  "job_ids (Gated m c) = granted m c"
| "job_ids (GatedMode _ _ _ _) = {}"
| "job_ids (Writing al) = trusted_ids al"
| "job_ids (Swapping al) = trusted_ids al"

text \<open>Every id the system could make trusted from what it holds.\<close>

definition system_ids :: "system \<Rightarrow> int set" where
  "system_ids s = disk_ids (sy_disk s) \<union> trusted_ids (sy_mem s) \<union> \<Union> (set (map job_ids (sy_jobs s))) \<union>
     (case sy_reload s of Some f \<Rightarrow> trusted_ids f | None \<Rightarrow> {})"

lemma plan_grants:
  "plan_command m c al = Persist next r \<Longrightarrow> trusted_ids next \<subseteq> trusted_ids al \<union> granted m c"
proof (cases c)
  case (Allow args now)
  assume "plan_command m c al = Persist next r"
  then obtain i l where i: "resolve_user_target m args = NumericId i \<or> (\<exists>n. resolve_user_target m args = ReplyTo i n) \<or>
      (\<exists>n. resolve_user_target m args = TextMentionOf i n)"
    and n: "next = snd (add_user \<lparr>au_id = i, au_label = l,
       au_added_by = map_option user_chat_id (ms_from m), au_added_at = now\<rparr> al)"
    unfolding Allow by (auto simp: plan_allow_def Let_def split: user_target.splits if_splits prod.splits add_outcome.splits)
      (metis snd_conv)+
  from i have "i \<in> granted m c" by (auto simp: granted_def Allow)
  then show ?thesis by (simp add: n add_user_ids)
next
  case (Deny args)
  assume "plan_command m c al = Persist next r"
  then obtain i where "next = snd (remove_user i al)"
    unfolding Deny by (auto simp: plan_deny_def Let_def split: user_target.splits if_splits prod.splits remove_outcome.splits)
      (metis snd_conv)+
  then show ?thesis by (auto simp: remove_user_ids)
next
  case (AllowAll now)
  assume "plan_command m c al = Persist next r"
  then obtain g where "next = snd (add_group g al)"
    unfolding AllowAll by (auto simp: plan_allow_all_def split: if_splits prod.splits add_outcome.splits)
      (metis snd_conv)+
  then show ?thesis by (simp add: trusted_ids_def)
next
  case (DenyAll args)
  assume "plan_command m c al = Persist next r"
  then obtain i where "next = snd (remove_group i al)"
    unfolding DenyAll by (auto simp: plan_deny_all_def split: option.splits prod.splits remove_outcome.splits)
      (metis snd_conv)+
  then show ?thesis by (simp add: trusted_ids_def)
qed

lemma cli_disk_ids: "disk_ids (cli_disk io op d) \<subseteq> trust_label (disk_ids d) (Cli op)"
proof (cases op)
  case (CliMode c t g v)
  then show ?thesis using cli_mode_action.cli_update_ids by (auto simp: cli_mode_def Let_def)
qed (use adding_user.cli_update_ids removing_user.cli_update_ids adding_group.cli_update_ids
       removing_group.cli_update_ids in \<open>fastforce simp: cli_allow_def cli_deny_def cli_allow_all_def cli_deny_all_def\<close>)+


lemma trust_label_mono: "U \<subseteq> V \<Longrightarrow> trust_label U l \<subseteq> trust_label V l"
  by (cases "(U, l)" rule: trust_label.cases) (auto simp: sender_in_def split: option.splits)

lemma trust_label_grows: "U \<subseteq> trust_label U l"
  by (cases "(U, l)" rule: trust_label.cases) auto

lemma sender_is_trusted_iff: "sender_is_trusted m al \<longleftrightarrow> sender_in (trusted_ids al) m"
  by (simp add: sender_is_trusted_def sender_in_def is_user_trusted_iff split: option.splits)

lemma locked_ids:
  assumes "update_locked io (apply_mode_action cid tid sc ac) \<lparr>wd_disk = d, wd_mem = mem\<rparr> = (r, w)"
  shows "disk_ids (wd_disk w) \<subseteq> disk_ids d" "is_ok r \<Longrightarrow> trusted_ids (wd_mem w) \<subseteq> disk_ids d"
  using mode_action.update_locked_ids[OF assms] by auto

lemma watcher_ids: "watcher_read ok d = Some f \<Longrightarrow> trusted_ids f \<subseteq> disk_ids d"
  using read_file_ids[of ok d "Some f"] by (auto simp: watcher_read_def split: sum.splits option.splits)

lemma sys_step_ids:
  assumes "sys_step l s t"
  shows "system_ids t \<subseteq> trust_label (system_ids s) l"
  using assms
proof cases
  case (accept m c)
  then have "sender_in (system_ids s) m"
    by (auto simp: sender_is_trusted_iff sender_in_def system_ids_def split: option.splits)
  then show ?thesis using accept by (auto simp: system_ids_def)
next
  case (refuse m c)
  then show ?thesis using trust_label_grows by metis
next
  case (plan js m c ks al r)
  then show ?thesis using plan_grants[OF plan(4)] by (auto simp: system_ids_def)
next
  case (save_ok js al ks io u d)
  then show ?thesis using write_file_ids[of io al "sy_disk s" "Ok u" d] by (auto simp: system_ids_def)
next
  case (write_fails js al ks io e d)
  then show ?thesis using write_file_ids[OF write_fails(4)] by (auto simp: system_ids_def)
next
  case (mode js cid tid sc ac ks io b w)
  then show ?thesis using locked_ids[OF mode(4)] by (auto simp: system_ids_def)
next
  case (mode_fails js cid tid sc ac ks io e w)
  then show ?thesis using locked_ids(1)[OF mode_fails(4)] by (auto simp: system_ids_def)
next
  case (cli op io)
  have "trust_label (disk_ids (sy_disk s)) (Cli op) \<subseteq> trust_label (system_ids s) (Cli op)"
    by (intro trust_label_mono) (auto simp: system_ids_def)
  then show ?thesis using cli cli_disk_ids[of io op "sy_disk s"] trust_label_grows[of "system_ids s" "Cli op"]
    by (auto simp: system_ids_def)
next
  case (watch ok f)
  then show ?thesis using watcher_ids[OF watch(3)] by (auto simp: system_ids_def)
qed (auto simp: system_ids_def)

lemma trust_after_mono: "U \<subseteq> V \<Longrightarrow> trust_after ls U \<subseteq> trust_after ls V"
proof (induction ls arbitrary: U V)
  case (Cons l ls)
  show ?case using Cons.IH[OF trust_label_mono[OF Cons.prems]] by (simp add: trust_after_def)
qed (simp add: trust_after_def)

lemma sys_run_ids: "sys_run ls s t \<Longrightarrow> system_ids t \<subseteq> trust_after ls (system_ids s)"
proof (induction rule: sys_run.induct)
  case (step l s s' ls t)
  show ?case using step.IH trust_after_mono[OF sys_step_ids[OF step.hyps(1)], of ls]
    by (simp add: trust_after_def)
qed (simp add: trust_after_def)

text \<open>C12: However the handlers of commands, mode buttons, the command line and the watcher
  interleave, and whichever writes fail, a user trusted by the bot or by the file at the end
  was trusted at the start, was named on the command line, or was named in an /allow command
  whose sender was, when the command arrived, himself trusted by that very rule.\<close>

theorem trust_has_a_grantor:
  assumes "sys_run ls s t" and "sy_jobs s = []" and "sy_reload s = None"
    and "is_user_trusted (sy_mem t) u \<or> (dk_file (sy_disk t) = Holds f \<and> is_user_trusted f u)"
  shows "u \<in> trust_after ls (trusted_ids (sy_mem s) \<union> disk_ids (sy_disk s))"
proof -
  have "u \<in> system_ids t" using assms(4) by (auto simp: system_ids_def is_user_trusted_iff disk_ids_def)
  then show ?thesis using sys_run_ids[OF assms(1)] assms(2,3) by (auto simp: system_ids_def Un_commute)
qed


definition io_ok :: io_result where "io_ok = \<lparr>io_lock = True, io_read = True, io_write = None\<rparr>"

definition sample_user :: "64 word \<Rightarrow> tg_user" where
  "sample_user i = \<lparr>us_id = i, us_is_bot = False, us_first_name = text_chars ''Ann'', us_last_name = None\<rparr>"

definition sample_message :: "64 word \<Rightarrow> tg_message" where
  "sample_message i = \<lparr>ms_chat = \<lparr>ch_id = -7, ch_type = ChatSupergroup, ch_title = None\<rparr>,
     ms_from = Some (sample_user i), ms_text = None, ms_entities = None, ms_caption = None,
     ms_caption_entities = None, ms_thread_id = None, ms_reply_to = None, ms_media_group_id = None,
     ms_forwarded = False\<rparr>"

definition sample_allowlist :: "int list \<Rightarrow> allowlist" where
  "sample_allowlist ids = empty_allowlist\<lparr>af_users :=
     map (\<lambda>i. \<lparr>au_id = i, au_label = None, au_added_by = None, au_added_at = 0\<rparr>) ids\<rparr>"

definition sample_system :: system where
  "sample_system = \<lparr>sy_disk = \<lparr>dk_file = Holds (sample_allowlist [5]), dk_tmp = NoFile\<rparr>,
     sy_mem = sample_allowlist [5], sy_jobs = [], sy_reload = None\<rparr>"

definition granted_allowlist :: allowlist where
  "granted_allowlist = sample_allowlist [5]\<lparr>af_users := af_users (sample_allowlist [5]) @
     [\<lparr>au_id = 9, au_label = None, au_added_by = Some 5, au_added_at = 0\<rparr>]\<rparr>"

lemma sample_plan:
  "plan_command (sample_message 5) (Allow (text_chars ''9'') 0) (sample_allowlist [5]) =
     Persist granted_allowlist (UserAllowed (text_chars ''9'') 9)"
  by code_simp

lemma sample_trusted:
  "sender_is_trusted (sample_message 5) (sample_allowlist [5])" "is_user_trusted granted_allowlist 9"
  by code_simp+

theorem trust_has_a_grantor_witness:
  "9 \<in> trust_after [Accept (sample_message 5) (Allow (text_chars ''9'') 0), Internal, Internal, Internal] {5}"
proof -
  let ?c = "Allow (text_chars ''9'') 0" and ?s = sample_system and ?al = granted_allowlist
  let ?s1 = "?s\<lparr>sy_jobs := [Gated (sample_message 5) ?c]\<rparr>"
  have "sys_step (Accept (sample_message 5) ?c) ?s (?s\<lparr>sy_jobs := Gated (sample_message 5) ?c # sy_jobs ?s\<rparr>)"
    by (intro sys_step.accept) (simp add: sample_system_def sample_trusted)
  then have acc: "sys_step (Accept (sample_message 5) ?c) ?s ?s1" by (simp add: sample_system_def)
  have pl: "plan_command (sample_message 5) ?c (sy_mem ?s1) = Persist ?al (UserAllowed (text_chars ''9'') 9)"
    using sample_plan by (simp add: sample_system_def)
  let ?s2 = "?s1\<lparr>sy_jobs := [Writing ?al]\<rparr>"
  have "sys_step Internal ?s1 ?s2" using sys_step.plan[of ?s1 "[]" "sample_message 5" ?c "[]", OF _ pl] by simp
  moreover let ?s3 = "?s2\<lparr>sy_disk := \<lparr>dk_file = Holds (saved ?al), dk_tmp = NoFile\<rparr>, sy_jobs := [Swapping ?al]\<rparr>"
  have "write_file io_ok ?al (sy_disk ?s2) = (Ok (), \<lparr>dk_file = Holds (saved ?al), dk_tmp = NoFile\<rparr>)"
    by (simp add: write_file_def with_lock_def write_file_inner_def io_ok_def)
  then have "sys_step Internal ?s2 ?s3" using sys_step.save_ok[of ?s2 "[]" ?al "[]"] by simp
  moreover have "sys_step Internal ?s3 (?s3\<lparr>sy_mem := ?al, sy_jobs := []\<rparr>)"
    using sys_step.swap[of ?s3 "[]" ?al "[]"] by simp
  ultimately have "sys_run [Accept (sample_message 5) ?c, Internal, Internal, Internal] ?s (?s3\<lparr>sy_mem := ?al, sy_jobs := []\<rparr>)"
    using acc by (meson sys_run.intros)
  from trust_has_a_grantor[OF this, of 9] sample_trusted(2) show ?thesis
    by (simp add: sample_system_def trusted_ids_def disk_ids_def sample_allowlist_def)
qed

section \<open>Who is answered\<close>

definition authorised :: "allowlist \<Rightarrow> tg_message \<Rightarrow> bool" where
  "authorised al m =
     (case ms_from m of None \<Rightarrow> False
      | Some u \<Rightarrow> is_user_trusted al (user_chat_id u) \<and> (is_private (ms_chat m) \<or> \<not> us_is_bot u) \<or>
          \<not> is_private (ms_chat m) \<and> is_group_open al (ch_id (ms_chat m)) \<and> \<not> us_is_bot u)"

lemma routed_is_authorised: "route_decision al ident m = Some d \<Longrightarrow> authorised al m"
  by (auto simp: route_decision_def authorised_def Let_def split: option.splits if_splits)

lemma routed_fields:
  assumes "route_decision al ident m = Some d"
  shows "rd_address d = is_bot_addressed m ident"
    and "rd_response_mode d = (if is_private (ms_chat m) then ModeAddressed
           else response_mode_of al (ch_id (ms_chat m)) (effective_thread_id m))"
  using assms
  by (auto simp: route_decision_def is_bot_addressed_def Let_def split: option.splits if_splits)

lemma route_decision_iff:
  "route_decision al ident m \<noteq> None \<longleftrightarrow>
     authorised al m \<and>
     (is_private (ms_chat m) \<or> is_bot_addressed m ident \<noteq> None \<or> ms_media_group_id m \<noteq> None \<or> ms_forwarded m \<or>
      response_mode_of al (ch_id (ms_chat m)) (effective_thread_id m) = ModeAll)"
  using all_mode_is_open[of al "ch_id (ms_chat m)" "effective_thread_id m"]
  by (auto simp: route_decision_def authorised_def Let_def split: option.splits if_splits)

text \<open>C13: The agent is invoked for a batch of routed messages only when every sender is a trusted
  user or a human in an opened group, and when one of the messages addresses the bot or all of
  them come from scopes in the All mode of groups that are open; an entry for a channel never
  opens a group.\<close>

theorem invocation_is_authorised:
  assumes "map (route_decision al ident) ms = map Some ds" and "batch_should_invoke_cc ds"
  shows "list_all (authorised al) ms \<and>
    (list_ex (\<lambda>m. is_bot_addressed m ident \<noteq> None) ms \<or>
     ms \<noteq> [] \<and> list_all (\<lambda>m. is_group_open al (ch_id (ms_chat m)) \<and>
        response_mode_of al (ch_id (ms_chat m)) (effective_thread_id m) = ModeAll) ms)"
proof -
  have len: "length ms = length ds" using assms(1) by (metis length_map)
  have each: "route_decision al ident (ms ! i) = Some (ds ! i)" if "i < length ms" for i
    using assms(1) that len by (metis nth_map)
  have "list_all (authorised al) ms"
    using each routed_is_authorised by (metis list_all_length)
  moreover have "list_ex (\<lambda>m. is_bot_addressed m ident \<noteq> None) ms \<longleftrightarrow> list_ex (\<lambda>d. rd_address d \<noteq> None) ds"
    using each len routed_fields(1) by (simp add: list_ex_length) metis
  moreover have "is_group_open al (ch_id (ms_chat (ms ! i))) \<and>
      response_mode_of al (ch_id (ms_chat (ms ! i))) (effective_thread_id (ms ! i)) = ModeAll"
    if "i < length ms" "rd_response_mode (ds ! i) = ModeAll" for i
    using routed_fields(2)[OF each[OF that(1)]] that(2) all_mode_is_open by (metis response_mode.distinct(1))
  ultimately show ?thesis using assms(2) len by (auto simp: batch_should_invoke_cc_def list_all_length)
qed


definition opened_group :: "response_mode \<Rightarrow> allowed_group" where
  "opened_group m = \<lparr>ag_id = -7, ag_label = None, ag_opened_by = None, ag_opened_at = 0, ag_mode = m,
     ag_topics = [\<lparr>tm_thread_id = 3, tm_mode = ModeAddressed\<rparr>], ag_kind = KindGroup\<rparr>"

definition sample_identity :: bot_identity where
  "sample_identity = \<lparr>bi_username = text_chars ''rightbot'', bi_user_id = 77\<rparr>"

definition sample_open :: allowlist where
  "sample_open = (sample_allowlist [5])\<lparr>af_groups := [opened_group ModeAll]\<rparr>"

definition sample_decision :: routing_decision where
  "sample_decision = \<lparr>rd_address = None, rd_response_mode = ModeAll, rd_sender_trusted = False, rd_group_open = True\<rparr>"

theorem invocation_is_authorised_witness:
  "list_all (authorised sample_open) [sample_message 6] \<and> batch_should_invoke_cc [sample_decision]"
proof -
  have "map (route_decision sample_open sample_identity) [sample_message 6] = map Some [sample_decision]"
    and g: "batch_should_invoke_cc [sample_decision]" by code_simp+
  from invocation_is_authorised[OF this] g show ?thesis by blast
qed

section \<open>Mode buttons\<close>

lemma open_predicate_kept:
  "(\<And>g. ag_id (f g) = ag_id g \<and> ag_kind (f g) = ag_kind g) \<Longrightarrow>
   find_group (al\<lparr>af_groups := update_first_where (\<lambda>g. ag_id g = cid \<and> ag_kind g = KindGroup) f (af_groups al)\<rparr>) c =
     (if c = cid then map_option f (find_group al c) else find_group al c)"
proof (cases "c = cid")
  case False
  assume "\<And>g. ag_id (f g) = ag_id g \<and> ag_kind (f g) = ag_kind g"
  then show ?thesis using False unfolding find_group_def by (auto intro!: find_update_other)
qed (simp add: find_group_def find_update_first)

lemma topic_override_put:
  "topic_override (put_topic tid m g) t = (if t = tid then Some m else topic_override g t)"
proof (cases "find (\<lambda>t. tm_thread_id t = tid) (ag_topics g)")
  case None
  have app: "find p (xs @ [x]) = (case find p xs of Some y \<Rightarrow> Some y | None \<Rightarrow> if p x then Some x else None)"
    for p :: "topic_mode \<Rightarrow> bool" and xs x by (induction xs) auto
  show ?thesis using None by (auto simp: topic_override_def put_topic_def app split: option.splits)
next
  case (Some tm)
  have "find (\<lambda>x. tm_thread_id x = t) (update_first_where (\<lambda>x. tm_thread_id x = tid) (\<lambda>x. x\<lparr>tm_mode := m\<rparr>) (ag_topics g)) =
      find (\<lambda>x. tm_thread_id x = t) (ag_topics g)" if "t \<noteq> tid"
    using that by (intro find_update_other) auto
  moreover have "find (\<lambda>x. tm_thread_id x = tid) (update_first_where (\<lambda>x. tm_thread_id x = tid) (\<lambda>x. x\<lparr>tm_mode := m\<rparr>) (ag_topics g)) =
      Some (tm\<lparr>tm_mode := m\<rparr>)" using Some by (simp add: find_update_first)
  ultimately show ?thesis using Some by (simp add: topic_override_def put_topic_def)
qed

lemma topic_override_drop:
  "topic_override (drop_topic tid g) t = (if t = tid then None else topic_override g t)"
proof -
  have "find (\<lambda>x. tm_thread_id x = t) (delete_where (\<lambda>x. tm_thread_id x = tid) xs) =
      (if t = tid then None else find (\<lambda>x. tm_thread_id x = t) xs)" for xs
    by (induction xs) (auto simp: delete_where_def)
  from this[of "ag_topics g"] show ?thesis unfolding topic_override_def drop_topic_def by simp
qed

text \<open>The response mode of every scope after an action on one scope.\<close>

fun mode_after :: "mode_scope \<Rightarrow> mode_action \<Rightarrow> int \<Rightarrow> int \<Rightarrow> allowlist \<Rightarrow> int \<Rightarrow> int \<Rightarrow> response_mode" where
  "mode_after TopicScope (SetMode m) cid tid al c t =
     (if c = cid \<and> t = tid then m else response_mode_of al c t)"
| "mode_after TopicScope ClearTopic cid tid al c t =
     (if c = cid \<and> t = tid then (case find_group al c of Some g \<Rightarrow> ag_mode g | None \<Rightarrow> ModeAddressed)
      else response_mode_of al c t)"
| "mode_after GroupScope (SetMode m) cid tid al c t =
     (if c = cid \<and> (case find_group al c of Some g \<Rightarrow> topic_override g t = None | None \<Rightarrow> False) then m
      else response_mode_of al c t)"
| "mode_after GroupScope ClearTopic cid tid al c t = response_mode_of al c t"

lemma put_topic_fields [simp]:
  "ag_id (put_topic t m g) = ag_id g" "ag_kind (put_topic t m g) = ag_kind g" "ag_mode (put_topic t m g) = ag_mode g"
  by (simp_all add: put_topic_def split: option.splits)

lemma drop_topic_fields [simp]:
  "ag_id (drop_topic t g) = ag_id g" "ag_kind (drop_topic t g) = ag_kind g" "ag_mode (drop_topic t g) = ag_mode g"
  by (simp_all add: drop_topic_def)

lemma topic_override_mode [simp]: "topic_override (g\<lparr>ag_mode := m\<rparr>) t = topic_override g t"
  by (simp add: topic_override_def)

lemma apply_mode_effect:
  assumes "apply_mode_action cid tid sc ac al = (True, al')"
  shows "is_group_open al cid \<and> response_mode_of al' c t = mode_after sc ac cid tid al c t"
proof (cases sc; cases ac)
  fix m assume s: "sc = TopicScope" "ac = SetMode m"
  show ?thesis using assms unfolding s
    by (auto simp: apply_mode_action_def set_topic_mode_def response_mode_of_def open_predicate_kept
        find_group_open topic_override_put split: option.splits if_splits)
next
  assume s: "sc = TopicScope" "ac = ClearTopic"
  show ?thesis using assms unfolding s
    by (auto simp: apply_mode_action_def clear_topic_mode_def response_mode_of_def open_predicate_kept
        find_group_open topic_override_drop split: option.splits if_splits)
next
  fix m assume s: "sc = GroupScope" "ac = SetMode m"
  show ?thesis using assms unfolding s
    by (auto simp: apply_mode_action_def set_group_mode_def response_mode_of_def open_predicate_kept
        find_group_open split: option.splits if_splits)
next
  assume "sc = GroupScope" "ac = ClearTopic"
  then show ?thesis using assms by (simp add: apply_mode_action_def)
qed

lemma update_locked_Ok:
  assumes "update_locked io f w = (Ok r, w')"
  obtains fo where "read_file (io_read io) (wd_disk w) = Ok fo"
    "f (case fo of Some x \<Rightarrow> x | None \<Rightarrow> empty_allowlist) = (r, wd_mem w')"
    "dk_file (wd_disk w') = Holds (saved (wd_mem w'))"
  using assms unfolding update_locked_def
  by (auto simp: write_file_inner_def split: if_splits sum.splits prod.splits option.splits write_fault.splits)

lemma edited_menu_update:
  assumes "handle_mode_callback io q w = (MenuEdited view, w')"
  obtains data sc ac msg cid tid where "cq_data q = Some data" "parse_callback data = Some (sc, ac)"
    "is_user_trusted (wd_mem w) (user_chat_id (cq_from q))" "cq_message q = Some msg"
    "callback_target sc msg = Some (cid, tid)"
    "update_locked io (apply_mode_action cid tid sc ac) w = (Ok True, w')"
  using assms unfolding handle_mode_callback_def
  by (auto split: option.splits if_splits prod.splits sum.splits)

text \<open>A mode button that reports success was pressed by a trusted user; it changed the mode of
  the scope of its own chat and topic and of no other, it worked on the allowlist of the file
  and not on the copy in memory, so that a concurrent change of the file is kept, and the
  memory and the file agree afterwards.\<close>

theorem mode_button_effect:
  assumes "handle_mode_callback io q w = (MenuEdited view, w')"
  shows "\<exists>sc ac cid tid al msg.
    is_user_trusted (wd_mem w) (user_chat_id (cq_from q)) \<and>
    cq_message q = Some msg \<and> callback_target sc msg = Some (cid, tid) \<and>
    dk_file (wd_disk w) = Holds al \<and> is_group_open al cid \<and>
    af_users (wd_mem w') = af_users al \<and>
    (\<forall>c t. response_mode_of (wd_mem w') c t = mode_after sc ac cid tid al c t) \<and>
    dk_file (wd_disk w') = Holds (saved (wd_mem w'))"
proof -
  obtain data sc ac msg cid tid where q: "parse_callback data = Some (sc, ac)"
    "is_user_trusted (wd_mem w) (user_chat_id (cq_from q))" "cq_message q = Some msg"
    "callback_target sc msg = Some (cid, tid)"
    and u: "update_locked io (apply_mode_action cid tid sc ac) w = (Ok True, w')"
    using edited_menu_update[OF assms] by metis
  obtain fo where r: "read_file (io_read io) (wd_disk w) = Ok fo"
    and a: "apply_mode_action cid tid sc ac (case fo of Some x \<Rightarrow> x | None \<Rightarrow> empty_allowlist) = (True, wd_mem w')"
    and d: "dk_file (wd_disk w') = Holds (saved (wd_mem w'))" using update_locked_Ok[OF u] .
  let ?al = "case fo of Some x \<Rightarrow> x | None \<Rightarrow> empty_allowlist"
  note eff = apply_mode_effect[OF a]
  then have "?al \<noteq> empty_allowlist" by (auto simp: is_group_open_def empty_allowlist_def)
  then have "dk_file (wd_disk w) = Holds ?al"
    using r by (auto simp: read_file_def split: disk_text.splits if_splits)
  moreover have "af_users (wd_mem w') = af_users ?al"
    using mode_ops_keep_users(1)[of cid tid sc ac ?al] a by simp
  ultimately show ?thesis using q(2-4) eff d by blast
qed


definition sample_query :: callback_query where
  "sample_query = \<lparr>cq_from = sample_user 5, cq_data = Some (text_chars ''mode:all''),
     cq_message = Some (RegularMessage (sample_message 5))\<rparr>"

definition sample_world :: world where
  "sample_world = \<lparr>wd_disk = \<lparr>dk_file = Holds (sample_open\<lparr>af_groups := [opened_group ModeAddressed]\<rparr>), dk_tmp = NoFile\<rparr>,
     wd_mem = sample_allowlist [5, 8]\<rparr>"

theorem mode_button_effect_witness:
  "\<exists>w'. handle_mode_callback io_ok sample_query sample_world = (MenuEdited (TopicView ModeAll True), w') \<and>
     is_user_trusted (wd_mem sample_world) 5 \<and> dk_file (wd_disk w') = Holds (saved (wd_mem w'))"
proof -
  have "fst (handle_mode_callback io_ok sample_query sample_world) = MenuEdited (TopicView ModeAll True)" by code_simp
  then obtain w' where w: "handle_mode_callback io_ok sample_query sample_world = (MenuEdited (TopicView ModeAll True), w')"
    by (metis prod.collapse)
  have "user_chat_id (cq_from sample_query) = 5" by code_simp
  with mode_button_effect[OF w] w show ?thesis by auto
qed

section \<open>Commands against a stale copy\<close>

text \<open>The handlers of the commands build the new file from the copy in memory.  A user the command
  line removed a moment before is therefore trusted again, in the file too, when any other
  user is allowed before the watcher has reloaded the file.\<close>

lemma allow_restores_a_removed_user:
  assumes "cli_deny io_ok u (wd_disk w) = (Ok Removed, d)"
    and "is_user_trusted (wd_mem w) u" and "sender_is_trusted m (wd_mem w)"
    and "resolve_user_target m args = NumericId i" and "0 \<le> i" and "\<not> is_user_trusted (wd_mem w) i"
  shows "\<exists>r w' f. handle_command io_ok m (Allow args now) (w\<lparr>wd_disk := d\<rparr>) = (r, w') \<and>
    dk_file (wd_disk w') = Holds f \<and> is_user_trusted f u \<and> u \<notin> disk_ids d"
proof -
  let ?next = "(wd_mem w)\<lparr>af_users := af_users (wd_mem w) @ [\<lparr>au_id = i, au_label = None,
      au_added_by = map_option user_chat_id (ms_from m), au_added_at = now\<rparr>]\<rparr>"
  have "u \<notin> disk_ids d"
    using assms(1) unfolding cli_deny_def cli_update_def with_lock_def
    by (auto simp: io_ok_def write_file_inner_def disk_ids_def trusted_ids_def saved_def remove_user_def Let_def
        delete_where_def split: sum.splits prod.splits if_splits)
  moreover have "handle_command io_ok m (Allow args now) (w\<lparr>wd_disk := d\<rparr>) =
      (Some (UserAllowed (text_of_int i) i), w\<lparr>wd_disk := d\<lparr>dk_file := Holds (saved ?next), dk_tmp := NoFile\<rparr>, wd_mem := ?next\<rparr>)"
    using assms(3-6) by (simp add: handle_command_def plan_allow_def add_user_def persist_new_def write_file_def
        with_lock_def io_ok_def write_file_inner_def)
  moreover have "is_user_trusted (saved ?next) u"
    using assms(2) by (auto simp: is_user_trusted_iff) (auto simp: trusted_ids_def)
  ultimately show ?thesis by auto
qed

text \<open>In a forum topic every message replies to the message that created the topic.  The commands
  take that reply for their target and never look at the argument; the detection of a reply to
  the bot excludes it.\<close>

lemma topic_root_hides_the_argument:
  assumes "ms_reply_to m = Some \<lparr>rp_from = Some creator, rp_forum_topic_created = True\<rparr>"
  shows "resolve_user_target m args = ReplyTo (user_chat_id creator) (full_name creator) \<and> \<not> replies_to_bot ident m"
  using assms by (simp add: resolve_user_target_def replies_to_bot_def)

section \<open>Mentions\<close>

text \<open>In a group, an entity of type mention that covers \<open>@name\<close> in UTF-16 code units makes the
  message address the bot of that name, in any case of its letters and whatever characters
  outside the basic plane come before it.\<close>

theorem mention_is_recognised:
  assumes "\<not> is_private (ms_chat m)" and "ms_text m = Some (a @ [64] @ name @ b)" and "ms_entities m = Some es"
    and "e \<in> set es" and "en_type e = Mention" and "en_offset e = length (encode_utf16 a)"
    and "en_length e = length (encode_utf16 ([64] @ name))" and "list_all is_scalar name"
    and "length (encode_utf16 (a @ [64] @ name)) < 2 ^ 64"
    and "eq_ignore_ascii_case name (bi_username ident)"
  shows "is_bot_addressed m ident \<noteq> None \<and>
    (\<exists>ps. parse_entities m = Some ps \<and> (e, [64] @ name) \<in> set ps)"
proof -
  have "slice_entity_text (encode_utf16 (a @ ([64] @ name) @ b)) e = Some ([64] @ name)"
    using assms(6-9) by (intro slice_middle) (auto simp: is_scalar_def)
  then have p: "(e, [64] @ name) \<in> set (collect_entities (a @ [64] @ name @ b) es)"
    using assms(4) by (force simp: collect_entities_def Let_def image_iff)
  moreover have "entity_address ident (e, [64] @ name) = Some GroupMentionText"
    using assms(5,10) by (simp add: entity_address_def)
  ultimately have "first_address ident (collect_entities (a @ [64] @ name @ b) es) \<noteq> None"
    by (metis first_address_None option.distinct(1))
  then show ?thesis using assms(1-3) p by (auto simp: is_bot_addressed_def parse_entities_def)
qed

definition sample_mention :: tg_entity where
  "sample_mention = \<lparr>en_type = Mention, en_offset = 3, en_length = 9, en_user = None\<rparr>"

definition mention_message :: tg_message where
  "mention_message = (sample_message 6)\<lparr>ms_text := Some ([0x1F600, 32] @ [64] @ text_chars ''RightBot'' @ text_chars '' hi''),
     ms_entities := Some [sample_mention]\<rparr>"

theorem mention_is_recognised_witness:
  "is_bot_addressed mention_message sample_identity \<noteq> None \<and>
   (\<exists>ps. parse_entities mention_message = Some ps \<and> (sample_mention, [64] @ text_chars ''RightBot'') \<in> set ps)"
proof -
  have "eq_ignore_ascii_case (text_chars ''RightBot'') (bi_username sample_identity)" by code_simp
  moreover have n: "text_chars ''RightBot'' = [82, 105, 103, 104, 116, 66, 111, 116]" by code_simp
  ultimately show ?thesis
    using mention_is_recognised[of mention_message "[0x1F600, 32]" "text_chars ''RightBot''" "text_chars '' hi''"
        "[sample_mention]" sample_mention sample_identity]
    by (simp add: mention_message_def sample_mention_def sample_message_def is_private_def is_scalar_def)
qed

section \<open>Labels in the YAML text\<close>

text \<open>A reader of double-quoted scalars, after the YAML 1.2 grammar restricted to the escapes above:
  it returns the value and the text behind the closing quote, and refuses a control character.\<close>

definition hex_value :: "nat \<Rightarrow> nat option" where
  "hex_value c = (if is_digit_cp c then Some (c - 48) else if 65 \<le> c \<and> c \<le> 70 then Some (c - 55) else None)"

fun scan_quoted :: "chars \<Rightarrow> (chars \<times> chars) option" where
  "scan_quoted [] = None"
| "scan_quoted (c # cs) =
     (if c = 34 then Some ([], cs)
      else if c = 92 then
        (case cs of
           [] \<Rightarrow> None
         | d # ds \<Rightarrow>
             if d = 120
             then (case ds of
                     h # l # rest \<Rightarrow>
                       (case (hex_value h, hex_value l) of
                          (Some x, Some y) \<Rightarrow> map_option (\<lambda>(s, r). ((16 * x + y) # s, r)) (scan_quoted rest)
                        | _ \<Rightarrow> None)
                   | _ \<Rightarrow> None)
             else (case map_of [(92, 92), (34, 34), (110, 10), (114, 13), (116, 9), (48, 0)] d of
                     Some v \<Rightarrow> map_option (\<lambda>(s, r). (v # s, r)) (scan_quoted ds)
                   | None \<Rightarrow> None))
      else if c < 32 \<or> c = 127 then None
      else map_option (\<lambda>(s, r). (c # s, r)) (scan_quoted cs))"

lemma hex_upper_value: "d < 16 \<Longrightarrow> hex_value (hex_upper d) = Some d"
  by (auto simp: hex_value_def hex_upper_def is_digit_cp_def)

lemma scan_escape_cp: "scan_quoted (escape_cp c @ r) = map_option (\<lambda>(s, r). (c # s, r)) (scan_quoted r)"
proof (cases "c < 0x20 \<or> c = 0x7F")
  case True
  then have "c div 16 < 16" by auto
  with True show ?thesis by (auto simp: escape_cp_def hex_upper_value)
qed (auto simp: escape_cp_def)

text \<open>C14: Whatever a label contains, a reader of its line finds exactly that label and stops at the
  quote the bot wrote: no label can close its quotes early, add a line or break the file.\<close>

theorem label_round_trip:
  "write_label key (Some s) n = replicate n 32 @ text_chars key @ text_chars '': '' @ [34] @ escape_double_quoted s @ [34, 10] \<and>
   scan_quoted (escape_double_quoted s @ 34 # rest) = Some (s, rest) \<and>
   list_all (\<lambda>c. 32 \<le> c) (escape_double_quoted s)"
proof -
  have "scan_quoted (escape_double_quoted s @ 34 # rest) = Some (s, rest)"
    by (induction s) (simp_all add: escape_double_quoted_def scan_escape_cp)
  moreover have "list_all (\<lambda>c. 32 \<le> c) (escape_cp c)" for c
    by (auto simp: escape_cp_def hex_upper_def)
  then have "list_all (\<lambda>c. 32 \<le> c) (escape_double_quoted s)"
    by (induction s) (auto simp: escape_double_quoted_def)
  ultimately show ?thesis by (simp add: write_label_def line_def)
qed

end
