(* ===== verification/Run_Ledger.thy ===== *)
theory Run_Ledger
  imports Text
begin

text \<open>
  The ledger of asynchronous runs: the table \<^verbatim>\<open>async_runs\<close> with the operations of
  \<^verbatim>\<open>right-agent/src/async_runs.rs\<close>, and the owner's requests on it
  (\<^verbatim>\<open>AgentDbOwner::run_ledger\<close> in \<^verbatim>\<open>right/src/db_owner_ops.rs\<close>), the retryable ones behind
  the table of request ids.  Instants are the texts the rows hold, compared as texts.  A
  database failure other than a missing row or a violated constraint is left out.
\<close>

section \<open>Rows\<close>

record run_row =
  ar_id :: chars
  ar_kind :: string
  ar_producer_ref :: "chars option"
  ar_source_session :: "chars option"
  ar_run_session :: chars
  ar_chat :: int
  ar_thread :: "int option"
  ar_status :: string
  ar_handoff :: "string option"
  ar_started_at :: "string option"
  ar_finished_at :: "string option"
  ar_exit_code :: "int option"
  ar_log_path :: "chars option"
  ar_run_note :: "chars option"
  ar_delivery_json :: "chars option"
  ar_error_json :: "chars option"
  ar_delivery_required :: bool
  ar_delivery_status :: string
  ar_delivered_at :: "string option"
  ar_force_notify :: bool

datatype ledger_error = InvalidParameter string | RowNotFound | KeyConflict | RequestConflict string

record new_cron_run =
  nc_id :: chars
  nc_job_name :: chars
  nc_started_at :: string
  nc_log_path :: chars
  nc_chat :: "int option"
  nc_thread :: "int option"
  nc_force_notify :: bool

record new_background_run =
  nb_id :: chars
  nb_producer_ref :: "chars option"
  nb_source_session :: chars
  nb_run_session :: chars
  nb_chat :: int
  nb_thread :: "int option"

record run_output =
  ro_run_note :: "chars option"
  ro_delivery_json :: "chars option"
  ro_error_json :: "chars option"
  ro_delivery_required :: bool

definition has_run :: "chars \<Rightarrow> run_row list \<Rightarrow> bool" where
  "has_run i t = list_ex (\<lambda>r. ar_id r = i) t"

text \<open>An UPDATE of the row with an id, and the check that it touched one.\<close>

definition update_run :: "chars \<Rightarrow> (run_row \<Rightarrow> run_row) \<Rightarrow> run_row list \<Rightarrow> ledger_error + run_row list" where
  "update_run i f t =
     bind_result (ensure (has_run i t) RowNotFound) (\<lambda>_. Ok (update_where (\<lambda>r. ar_id r = i) f t))"

section \<open>Writes\<close>

definition insert_running_cron_run :: "new_cron_run \<Rightarrow> run_row list \<Rightarrow> ledger_error + run_row list" where
  "insert_running_cron_run n t =
     (case nc_chat n of
        None \<Rightarrow> Err (InvalidParameter ''target_chat_id is required'')
      | Some chat \<Rightarrow>
          bind_result (ensure (\<not> has_run (nc_id n) t) KeyConflict) (\<lambda>_.
          Ok (t @ [\<lparr>ar_id = nc_id n, ar_kind = ''cron'', ar_producer_ref = Some (nc_job_name n),
                    ar_source_session = None, ar_run_session = nc_id n, ar_chat = chat, ar_thread = nc_thread n,
                    ar_status = ''running'', ar_handoff = None, ar_started_at = Some (nc_started_at n),
                    ar_finished_at = None, ar_exit_code = None, ar_log_path = Some (nc_log_path n),
                    ar_run_note = None, ar_delivery_json = None, ar_error_json = None,
                    ar_delivery_required = False, ar_delivery_status = ''none'', ar_delivered_at = None,
                    ar_force_notify = nc_force_notify n\<rparr>])))"

definition insert_queued_background_run :: "new_background_run \<Rightarrow> run_row list \<Rightarrow> ledger_error + run_row list" where
  "insert_queued_background_run n t =
     bind_result (ensure (\<not> has_run (nb_id n) t) KeyConflict) (\<lambda>_.
     Ok (t @ [\<lparr>ar_id = nb_id n, ar_kind = ''background'', ar_producer_ref = nb_producer_ref n,
               ar_source_session = Some (nb_source_session n), ar_run_session = nb_run_session n,
               ar_chat = nb_chat n, ar_thread = nb_thread n, ar_status = ''queued'', ar_handoff = Some ''queued'',
               ar_started_at = None, ar_finished_at = None, ar_exit_code = None, ar_log_path = None,
               ar_run_note = None, ar_delivery_json = None, ar_error_json = None,
               ar_delivery_required = False, ar_delivery_status = ''none'', ar_delivered_at = None,
               ar_force_notify = False\<rparr>]))"

definition persist_run_output :: "chars \<Rightarrow> run_output \<Rightarrow> run_row list \<Rightarrow> ledger_error + run_row list" where
  "persist_run_output i out t =
     (if ro_delivery_required out \<and> ro_delivery_json out = None
      then Err (InvalidParameter ''delivery_json is required when delivery_required is true'')
      else update_run i (\<lambda>r. r\<lparr>ar_run_note := ro_run_note out, ar_delivery_json := ro_delivery_json out,
                               ar_error_json := ro_error_json out, ar_delivery_required := ro_delivery_required out,
                               ar_delivery_status := (if ro_delivery_required out then ''pending'' else ''none'')\<rparr>) t)"

definition finish_run :: "chars \<Rightarrow> int option \<Rightarrow> string \<Rightarrow> string \<Rightarrow> run_row list \<Rightarrow> ledger_error + run_row list" where
  "finish_run i exit_code status now t =
     update_run i (\<lambda>r. r\<lparr>ar_finished_at := Some now, ar_exit_code := exit_code, ar_status := status\<rparr>) t"

section \<open>The owner's requests\<close>

datatype ledger_response = OkResponse | PersistedWith string | Recovered nat

record ledger =
  lg_runs :: "run_row list"
  lg_requests :: "(chars \<times> string \<times> ledger_response) list"

definition idempotent_response :: "chars \<Rightarrow> string \<Rightarrow> ledger \<Rightarrow> ledger_error + ledger_response option" where
  "idempotent_response rid operation db =
     (case map_of (lg_requests db) rid of
        None \<Rightarrow> Ok None
      | Some (recorded, response) \<Rightarrow>
          if recorded \<noteq> operation then Err (RequestConflict recorded) else Ok (Some response))"

text \<open>A retryable request: its writes and the record of its answer are one transaction.\<close>

definition idempotent ::
  "chars \<Rightarrow> string \<Rightarrow> ledger_response \<Rightarrow> (run_row list \<Rightarrow> ledger_error + run_row list) \<Rightarrow> ledger \<Rightarrow>
   (ledger_error + ledger_response) \<times> ledger" where
  "idempotent rid operation response body db =
     (case idempotent_response rid operation db of
        Err e \<Rightarrow> (Err e, db)
      | Ok (Some old) \<Rightarrow> (Ok old, db)
      | Ok None \<Rightarrow>
          (case body (lg_runs db) of
             Err e \<Rightarrow> (Err e, db)
           | Ok t \<Rightarrow> (Ok response, db\<lparr>lg_runs := t, lg_requests := lg_requests db @ [(rid, operation, response)]\<rparr>)))"

record persist_request =
  pq_request_id :: chars
  pq_run_id :: chars
  pq_output :: run_output
  pq_exit_code :: "int option"
  pq_status :: string

datatype ledger_op =
    EnqueueBackgroundRun chars new_background_run
  | CronInsertRunningRun chars new_cron_run
  | MarkBackgroundSpawned chars string
  | PersistRunOutput persist_request string
  | FinishRun chars chars "int option" string string
  | MarkHandoffFailed chars chars chars chars chars string
  | RecoverInterruptedHandoffs string
  | CronMarkInterrupted chars chars string
  | DeliveryMarkOutcome chars chars string string

definition persist_body :: "persist_request \<Rightarrow> string \<Rightarrow> run_row list \<Rightarrow> ledger_error + run_row list" where
  "persist_body r now t =
     bind_result (persist_run_output (pq_run_id r) (pq_output r) t)
       (\<lambda>t. finish_run (pq_run_id r) (pq_exit_code r) (pq_status r) now t)"

definition handoff_failed_body ::
  "chars \<Rightarrow> chars \<Rightarrow> chars \<Rightarrow> chars \<Rightarrow> string \<Rightarrow> run_row list \<Rightarrow> ledger_error + run_row list" where
  "handoff_failed_body i note delivery err now t =
     bind_result (persist_run_output i \<lparr>ro_run_note = Some note, ro_delivery_json = Some delivery,
                    ro_error_json = Some err, ro_delivery_required = True\<rparr> t) (\<lambda>t.
     bind_result (update_run i (\<lambda>r. r\<lparr>ar_handoff := Some ''failed''\<rparr>) t)
       (\<lambda>t. finish_run i None ''failed'' now t))"

definition INTERRUPTED_HANDOFF_JSON :: chars where
  "INTERRUPTED_HANDOFF_JSON = text_chars ''{\"kind\":\"notify\",\"content\":\"A background task was interrupted before it produced a result.\",\"attachments\":null}''"

definition interrupted_handoff :: "run_row \<Rightarrow> bool" where
  "interrupted_handoff r = (ar_kind r = ''background'' \<and> ar_status r = ''queued'' \<and> ar_handoff r = Some ''queued'')"

definition recover_handoff :: "string \<Rightarrow> run_row \<Rightarrow> run_row" where
  "recover_handoff now r = r\<lparr>ar_run_note := Some (text_chars ''Background run interrupted before producing a result''),
     ar_delivery_json := Some INTERRUPTED_HANDOFF_JSON,
     ar_error_json := Some (text_chars ''{\"kind\":\"background_result_unavailable\",\"reason\":\"interrupted handoff\"}''),
     ar_delivery_required := True, ar_delivery_status := ''pending'', ar_handoff := Some ''failed'',
     ar_finished_at := Some now, ar_status := ''failed''\<rparr>"

definition cron_running :: "chars \<Rightarrow> run_row \<Rightarrow> bool" where
  "cron_running job r = (ar_kind r = ''cron'' \<and> ar_producer_ref r = Some job \<and> ar_status r = ''running'')"

text \<open>The statement that ends the runs a shutdown has cut off.  It leaves the column
  \<^verbatim>\<open>delivery_json\<close> as it is.\<close>

definition interrupt_cron :: "chars \<Rightarrow> string \<Rightarrow> run_row \<Rightarrow> run_row" where
  "interrupt_cron err now r = r\<lparr>ar_run_note := Some (text_chars ''Cron interrupted by shutdown''),
     ar_error_json := Some err, ar_delivery_required := ar_chat r \<noteq> 0,
     ar_delivery_status := (if ar_chat r \<noteq> 0 then ''pending'' else ''none''),
     ar_finished_at := Some now, ar_status := ''failed''\<rparr>"

fun run_ledger :: "ledger_op \<Rightarrow> ledger \<Rightarrow> (ledger_error + ledger_response) \<times> ledger" where
  "run_ledger (EnqueueBackgroundRun rid n) db =
     idempotent rid ''enqueue_background_run'' OkResponse (insert_queued_background_run n) db"
| "run_ledger (CronInsertRunningRun rid n) db =
     idempotent rid ''cron_insert_running_run'' OkResponse (insert_running_cron_run n) db"
| "run_ledger (MarkBackgroundSpawned i now) db =
     (case update_run i (\<lambda>r. r\<lparr>ar_status := ''running'', ar_handoff := Some ''spawned'',
              ar_started_at := (case ar_started_at r of None \<Rightarrow> Some now | s \<Rightarrow> s),
              ar_delivery_required := True, ar_delivery_status := ''pending''\<rparr>) (lg_runs db) of
        Err e \<Rightarrow> (Err e, db)
      | Ok t \<Rightarrow> (Ok OkResponse, db\<lparr>lg_runs := t\<rparr>))"
| "run_ledger (PersistRunOutput r now) db =
     idempotent (pq_request_id r) ''persist_run_output''
       (PersistedWith (if ro_delivery_required (pq_output r) then ''pending'' else ''none'')) (persist_body r now) db"
| "run_ledger (FinishRun rid i exit_code status now) db =
     idempotent rid ''finish_run'' OkResponse (finish_run i exit_code status now) db"
| "run_ledger (MarkHandoffFailed rid i note delivery err now) db =
     idempotent rid ''mark_handoff_failed'' OkResponse (handoff_failed_body i note delivery err now) db"
| "run_ledger (RecoverInterruptedHandoffs now) db =
     (Ok (Recovered (count_where interrupted_handoff (lg_runs db))),
      db\<lparr>lg_runs := update_where interrupted_handoff (recover_handoff now) (lg_runs db)\<rparr>)"
| "run_ledger (CronMarkInterrupted job err now) db =
     (Ok (Recovered (count_where (cron_running job) (lg_runs db))),
      db\<lparr>lg_runs := update_where (cron_running job) (interrupt_cron err now) (lg_runs db)\<rparr>)"
| "run_ledger (DeliveryMarkOutcome rid i status now) db =
     idempotent rid ''delivery_mark_outcome'' OkResponse
       (update_run i (\<lambda>r. r\<lparr>ar_delivery_status := status, ar_delivered_at := Some now\<rparr>)) db"

text \<open>How a request of the bot to the owner ends: the answer, or the request, may be lost.\<close>

datatype call = Answered | AnswerLost | NeverSent

section \<open>What the delivery loop asks\<close>

definition awaits_delivery :: "run_row \<Rightarrow> bool" where
  "awaits_delivery r = (ar_delivery_required r \<and> ar_delivery_status r \<in> {''pending'', ''retryable''} \<and>
     ar_status r \<in> {''success'', ''failed''})"

definition deliverable :: "run_row \<Rightarrow> bool" where
  "deliverable r = (awaits_delivery r \<and> ar_delivery_json r \<noteq> None)"

text \<open>NULL sorts before every text.\<close>

definition finished_key :: "run_row \<Rightarrow> string" where
  "finished_key r = (case ar_finished_at r of None \<Rightarrow> '''' | Some s \<Rightarrow> s)"

record pending_result =
  pd_id :: chars
  pd_kind :: string
  pd_producer_ref :: "chars option"
  pd_delivery_json :: chars
  pd_run_note :: chars
  pd_status :: string
  pd_chat :: "int option"
  pd_thread :: "int option"
  pd_force_notify :: bool

definition pending_from_row :: "bool \<Rightarrow> run_row \<Rightarrow> pending_result" where
  "pending_from_row force r =
     \<lparr>pd_id = ar_id r, pd_kind = ar_kind r, pd_producer_ref = ar_producer_ref r,
      pd_delivery_json = (case ar_delivery_json r of Some j \<Rightarrow> j | None \<Rightarrow> []),
      pd_run_note = (case ar_run_note r of Some n \<Rightarrow> n | None \<Rightarrow> []), pd_status = ar_status r,
      pd_chat = (if ar_chat r = 0 then None else Some (ar_chat r)), pd_thread = ar_thread r,
      pd_force_notify = force\<rparr>"

definition delivery_fetch_pending :: "nat \<Rightarrow> run_row list \<Rightarrow> pending_result list" where
  "delivery_fetch_pending limit t =
     map (\<lambda>r. pending_from_row (ar_force_notify r) r)
       (take (min 100 (max 1 limit)) (sort_key finished_key (filter deliverable t)))"

definition cron_deliverable :: "chars \<Rightarrow> run_row \<Rightarrow> bool" where
  "cron_deliverable job r = (ar_kind r = ''cron'' \<and> ar_producer_ref r = Some job \<and> deliverable r)"

definition newest_deliverable :: "chars \<Rightarrow> run_row list \<Rightarrow> run_row option" where
  "newest_deliverable job t =
     (case rev (sort_key finished_key (filter (cron_deliverable job) t)) of [] \<Rightarrow> None | r # _ \<Rightarrow> Some r)"

definition superseded_by :: "chars \<Rightarrow> chars \<Rightarrow> run_row \<Rightarrow> bool" where
  "superseded_by job i r =
     (ar_kind r = ''cron'' \<and> ar_producer_ref r = Some job \<and> ar_id r \<noteq> i \<and> awaits_delivery r)"

definition delivery_deduplicate_job ::
  "chars \<Rightarrow> string \<Rightarrow> run_row list \<Rightarrow> (pending_result option \<times> nat) \<times> run_row list" where
  "delivery_deduplicate_job job now t =
     (case newest_deliverable job t of
        None \<Rightarrow> ((None, 0), t)
      | Some r \<Rightarrow>
          ((Some (pending_from_row (list_ex (\<lambda>g. cron_deliverable job g \<and> ar_force_notify g) t) r),
            count_where (superseded_by job (ar_id r)) t),
           update_where (superseded_by job (ar_id r))
             (\<lambda>g. g\<lparr>ar_delivery_status := ''superseded'', ar_delivered_at := Some now\<rparr>) t))"

end
