(* ===== verification/Delivery.thy ===== *)
theory Delivery
  imports Run_Ledger Allowlist
begin

text \<open>
  The delivery of run results (\<^verbatim>\<open>bot/src/async_delivery.rs\<close>): one poll fetches the oldest
  waiting result, lets the newest of its job replace it, holds it until the chat is
  idle, checks the target against the allowlist and relays it through the session.
  The calls to the owner and to Telegram are arguments that say how each of them
  ends; a call to the owner may be lost before or after it took effect.
\<close>

section \<open>Constants and controls\<close>

definition IDLE_THRESHOLD_SECS :: int where "IDLE_THRESHOLD_SECS = 120"
definition PENDING_FETCH_BATCH_SIZE :: nat where "PENDING_FETCH_BATCH_SIZE = 25"
definition MAX_DELIVERY_ATTEMPTS :: nat where "MAX_DELIVERY_ATTEMPTS = 3"
definition DELIVERY_INTERRUPTED_BY_SHUTDOWN :: string where
  "DELIVERY_INTERRUPTED_BY_SHUTDOWN = ''delivery interrupted by shutdown''"
definition DELIVERY_SEND_OUTCOME_UNKNOWN :: string where
  "DELIVERY_SEND_OUTCOME_UNKNOWN = ''delivery send outcome unknown after shutdown''"

datatype delivery_mode = Normal | ShutdownFlush

definition should_wait_for_idle :: "delivery_mode \<Rightarrow> int \<Rightarrow> bool" where
  "should_wait_for_idle mode idle_for = (mode = Normal \<and> idle_for < IDLE_THRESHOLD_SECS)"

definition should_hold_delivery :: "bool \<Rightarrow> delivery_mode \<Rightarrow> int \<Rightarrow> bool" where
  "should_hold_delivery force mode idle_for = (\<not> force \<and> should_wait_for_idle mode idle_for)"

datatype target_classification = TargetMissing | TargetDenied | TargetReady int "int option"

definition classify_pending_target :: "pending_result \<Rightarrow> allowlist \<Rightarrow> target_classification" where
  "classify_pending_target p al =
     (case pd_chat p of
        None \<Rightarrow> TargetMissing
      | Some i \<Rightarrow> if \<not> is_chat_allowed al i then TargetDenied else TargetReady i (pd_thread p))"

section \<open>Sending\<close>

text \<open>How a guarded request to Telegram ends: completed, or cut off by the shutdown before or
  after it was first polled.  After the first poll nobody knows whether it arrived.  The number is how
  many messages Telegram really showed; the program never learns it: a request can fail, or lose
  its answer, after some of its messages were shown.\<close>

datatype 'a request_end = Completed 'a nat | CutBeforePoll | CutAfterPoll nat

definition run_telegram_request :: "bool \<Rightarrow> 'a request_end \<Rightarrow> (string + 'a) \<times> nat" where
  "run_telegram_request previous_side_effect e =
     (case e of
        Completed r n \<Rightarrow> (Ok r, n)
      | CutBeforePoll \<Rightarrow> (Err (if previous_side_effect then DELIVERY_SEND_OUTCOME_UNKNOWN
                             else DELIVERY_INTERRUPTED_BY_SHUTDOWN), 0)
      | CutAfterPoll n \<Rightarrow> (Err DELIVERY_SEND_OUTCOME_UNKNOWN, n))"

record send_report =
  sr_text_messages :: nat
  sr_attachment_batches :: nat

definition total_sent :: "send_report \<Rightarrow> nat" where
  "total_sent r = sr_text_messages r + sr_attachment_batches r"

definition ensure_non_empty :: "send_report \<Rightarrow> string + unit" where
  "ensure_non_empty r =
     ensure (total_sent r \<noteq> 0) ''empty delivery reply: no text messages or attachment batches sent''"

definition attachment_failure_is_fatal :: "nat \<Rightarrow> bool" where
  "attachment_failure_is_fatal body_messages_sent = (body_messages_sent = 0)"

record relay_reply =
  rr_has_content :: bool
  rr_has_attachments :: bool
  rr_content_end :: "nat request_end"
  rr_header_end :: "(string + unit) request_end"
  rr_plain_header_end :: "(string + unit) request_end"
  rr_attachments_end :: "(string + unit) request_end"

text \<open>What a relay really showed in the chat: messages of the body, the lone header line of a
  result without a body, and messages of the attachments.\<close>

record shown =
  sh_body :: nat
  sh_header :: nat
  sh_attachments :: nat

text \<open>The messages of the body: how many were delivered, complete or not.\<close>

definition send_content :: "relay_reply \<Rightarrow> (string + nat) \<times> nat" where
  "send_content r = (if rr_has_content r then run_telegram_request False (rr_content_end r) else (Ok 0, 0))"

definition send_header :: "relay_reply \<Rightarrow> nat \<Rightarrow> (string + nat) \<times> nat" where
  "send_header r sent =
     (if rr_has_content r \<or> \<not> rr_has_attachments r then (Ok 0, 0)
      else (case run_telegram_request (0 < sent) (rr_header_end r) of
              (Err e, n) \<Rightarrow> (Err e, n)
            | (Ok (Ok _), n) \<Rightarrow> (Ok 1, n)
            | (Ok (Err e), n) \<Rightarrow>
                (case run_telegram_request (0 < sent) (rr_plain_header_end r) of
                   (Err e2, m) \<Rightarrow> (Err e2, n + m)
                 | (Ok (Err e2), m) \<Rightarrow>
                     (Err (''telegram header send failed; html: '' @ e @ ''; plain: '' @ e2), n + m)
                 | (Ok (Ok _), m) \<Rightarrow> (Ok 1, n + m))))"

definition send_attachments :: "relay_reply \<Rightarrow> nat \<Rightarrow> nat \<Rightarrow> (string + nat) \<times> nat" where
  "send_attachments r sent body =
     (if \<not> rr_has_attachments r then (Ok 0, 0)
      else (case run_telegram_request (0 < sent) (rr_attachments_end r) of
              (Err e, n) \<Rightarrow> (Err e, n)
            | (Ok (Ok _), n) \<Rightarrow> (Ok 1, n)
            | (Ok (Err e), n) \<Rightarrow>
                (if attachment_failure_is_fatal body then Err (''telegram attachment send failed: '' @ e)
                 else Ok 0, n)))"

definition send_reply :: "relay_reply \<Rightarrow> (string + send_report) \<times> shown" where
  "send_reply r =
     (if \<not> rr_has_content r \<and> \<not> rr_has_attachments r
      then (Err ''empty delivery reply: no content or attachments'', \<lparr>sh_body = 0, sh_header = 0, sh_attachments = 0\<rparr>)
      else (case send_content r of
              (Err e, b) \<Rightarrow> (Err e, \<lparr>sh_body = b, sh_header = 0, sh_attachments = 0\<rparr>)
            | (Ok body, b) \<Rightarrow>
                (case send_header r body of
                   (Err e, h) \<Rightarrow> (Err e, \<lparr>sh_body = b, sh_header = h, sh_attachments = 0\<rparr>)
                 | (Ok header, h) \<Rightarrow>
                     (case send_attachments r (body + header) body of
                        (res, a) \<Rightarrow>
                          (bind_result res (\<lambda>batches.
                             let report = \<lparr>sr_text_messages = body + header, sr_attachment_batches = batches\<rparr>
                             in bind_result (ensure_non_empty report) (\<lambda>_. Ok report)),
                           \<lparr>sh_body = b, sh_header = h, sh_attachments = a\<rparr>)))))"

text \<open>What precedes the sending (the guest, its reply) either fails with an error of its own or
  ends in a reply.\<close>

definition deliver_through_session :: "string + relay_reply \<Rightarrow> (string + send_report) \<times> shown" where
  "deliver_through_session relayed =
     (case relayed of Err e \<Rightarrow> (Err e, \<lparr>sh_body = 0, sh_header = 0, sh_attachments = 0\<rparr>)
                    | Ok r \<Rightarrow> send_reply r)"

section \<open>One poll\<close>

record delivery_env =
  de_fetch :: bool
  de_dedup :: call
  de_mark :: "chars \<Rightarrow> string \<Rightarrow> call"
  de_request_id :: "ledger \<Rightarrow> chars"
  de_now :: string
  de_idle_for :: int
  de_allowlist :: allowlist
  de_session :: bool
  de_readable :: "chars \<Rightarrow> bool"
  de_relay :: "pending_result \<Rightarrow> string + relay_reply"

text \<open>The log is not part of the program: it lists the relays that were started, with their end and
  what they really showed.\<close>

record delivery_state =
  dl_in_memory :: "chars set"
  dl_attempts :: "chars \<rightharpoonup> nat"
  dl_ledger :: ledger
  dl_log :: "(pending_result \<times> int \<times> int option \<times> (string + send_report) \<times> shown) list"

datatype ipc_error = TransportError | OwnerError ledger_error

definition mark_delivery_outcome ::
  "delivery_env \<Rightarrow> chars \<Rightarrow> string \<Rightarrow> delivery_state \<Rightarrow> (ipc_error + unit) \<times> delivery_state" where
  "mark_delivery_outcome env i status st =
     (let (r, db) = run_ledger (DeliveryMarkOutcome (de_request_id env (dl_ledger st)) i status (de_now env)) (dl_ledger st) in
      case de_mark env i status of
        NeverSent \<Rightarrow> (Err TransportError, st)
      | AnswerLost \<Rightarrow> (Err TransportError, st\<lparr>dl_ledger := db\<rparr>)
      | Answered \<Rightarrow> (case r of Err e \<Rightarrow> (Err (OwnerError e), st\<lparr>dl_ledger := db\<rparr>)
                     | Ok _ \<Rightarrow> (Ok (), st\<lparr>dl_ledger := db\<rparr>)))"

fun skip_delivered ::
  "delivery_env \<Rightarrow> pending_result list \<Rightarrow> delivery_state \<Rightarrow> (ipc_error + pending_result option) \<times> delivery_state" where
  "skip_delivered env [] st = (Ok None, st)"
| "skip_delivered env (p # ps) st =
     (if pd_id p \<in> dl_in_memory st
      then (case mark_delivery_outcome env (pd_id p) ''delivered'' st of
              (Err e, st') \<Rightarrow> (Err e, st')
            | (Ok _, st') \<Rightarrow> skip_delivered env ps st')
      else (Ok (Some p), st))"

definition fetch_next_pending ::
  "delivery_env \<Rightarrow> delivery_state \<Rightarrow> (ipc_error + pending_result option) \<times> delivery_state" where
  "fetch_next_pending env st =
     (if \<not> de_fetch env then (Err TransportError, st)
      else skip_delivered env
             (delivery_fetch_pending (max PENDING_FETCH_BATCH_SIZE (card (dl_in_memory st) + 1)) (lg_runs (dl_ledger st))) st)"

definition select_delivery_candidate ::
  "delivery_env \<Rightarrow> pending_result \<Rightarrow> delivery_state \<Rightarrow>
   (ipc_error + (pending_result \<times> nat) option) \<times> delivery_state" where
  "select_delivery_candidate env p st =
     (case pd_producer_ref p of
        Some job \<Rightarrow>
          if pd_kind p \<noteq> ''cron'' then (Ok (Some (p, 0)), st)
          else (let ((c, n), t) = delivery_deduplicate_job job (de_now env) (lg_runs (dl_ledger st));
                    st' = st\<lparr>dl_ledger := (dl_ledger st)\<lparr>lg_runs := t\<rparr>\<rparr>
                in case de_dedup env of
                     NeverSent \<Rightarrow> (Err TransportError, st)
                   | AnswerLost \<Rightarrow> (Err TransportError, st')
                   | Answered \<Rightarrow> (Ok (map_option (\<lambda>c. (c, n)) c), st'))
      | None \<Rightarrow> (Ok (Some (p, 0)), st))"

text \<open>Marks an outcome; when that fails the run is remembered as dealt with.\<close>

definition mark_or_remember :: "delivery_env \<Rightarrow> chars \<Rightarrow> string \<Rightarrow> delivery_state \<Rightarrow> delivery_state" where
  "mark_or_remember env i status st =
     (case mark_delivery_outcome env i status st of
        (Ok _, st') \<Rightarrow> st'
      | (Err _, st') \<Rightarrow> st'\<lparr>dl_in_memory := insert i (dl_in_memory st')\<rparr>)"

definition attempts_of :: "delivery_state \<Rightarrow> chars \<Rightarrow> nat" where
  "attempts_of st i = (case dl_attempts st i of Some n \<Rightarrow> n | None \<Rightarrow> 0)"

definition after_delivery ::
  "delivery_env \<Rightarrow> chars \<Rightarrow> string + send_report \<Rightarrow> delivery_state \<Rightarrow> bool \<times> delivery_state" where
  "after_delivery env i outcome st =
     (case outcome of
        Ok report \<Rightarrow>
          if \<not> is_ok (ensure_non_empty report) then (True, st)
          else (True, mark_or_remember env i ''delivered'' st)
      | Err e \<Rightarrow>
          if e = DELIVERY_INTERRUPTED_BY_SHUTDOWN then (False, st)
          else if e = DELIVERY_SEND_OUTCOME_UNKNOWN
          then (True, (mark_or_remember env i ''failed'' st)\<lparr>dl_attempts := (dl_attempts st)(i := None)\<rparr>)
          else (let attempts = attempts_of st i + 1;
                    st1 = st\<lparr>dl_attempts := (dl_attempts st)(i \<mapsto> attempts)\<rparr>
                in if MAX_DELIVERY_ATTEMPTS \<le> attempts
                   then (True, (mark_or_remember env i ''failed'' st1)\<lparr>dl_attempts := (dl_attempts st1)(i := None)\<rparr>)
                   else (True, st1)))"

definition deliver_candidate ::
  "delivery_env \<Rightarrow> delivery_mode \<Rightarrow> pending_result \<Rightarrow> delivery_state \<Rightarrow> (ipc_error + bool) \<times> delivery_state" where
  "deliver_candidate env mode p st =
     (let i = pd_id p in
      if should_hold_delivery (pd_force_notify p) mode (de_idle_for env) then (Ok False, st)
      else if i \<in> dl_in_memory st
      then (case mark_delivery_outcome env i ''delivered'' st of
              (Ok _, st') \<Rightarrow> (Ok True, st'\<lparr>dl_in_memory := dl_in_memory st' - {i}\<rparr>)
            | (Err _, st') \<Rightarrow> (Ok True, st'))
      else (case classify_pending_target p (de_allowlist env) of
              TargetMissing \<Rightarrow> (Ok True, mark_or_remember env i ''no_target'' st)
            | TargetDenied \<Rightarrow> (Ok True, mark_or_remember env i ''denied'' st)
            | TargetReady chat thread \<Rightarrow>
                if \<not> de_session env then (Err TransportError, st)
                else if \<not> de_readable env (pd_delivery_json p)
                then (Ok True, mark_or_remember env i ''failed'' st)
                else (let outcome = deliver_through_session (de_relay env p);
                          st1 = st\<lparr>dl_log := dl_log st @ [(p, chat, thread, outcome)]\<rparr>
                      in (case after_delivery env i (fst outcome) st1 of (b, st2) \<Rightarrow> (Ok b, st2)))))"

definition run_delivery_once ::
  "delivery_env \<Rightarrow> delivery_mode \<Rightarrow> delivery_state \<Rightarrow> (ipc_error + bool) \<times> delivery_state" where
  "run_delivery_once env mode st =
     (case fetch_next_pending env st of
        (Err e, st1) \<Rightarrow> (Err e, st1)
      | (Ok None, st1) \<Rightarrow> (Ok False, st1)
      | (Ok (Some pending), st1) \<Rightarrow>
          (case select_delivery_candidate env pending st1 of
             (Err e, st2) \<Rightarrow> (Err e, st2)
           | (Ok None, st2) \<Rightarrow> (Ok False, st2)
           | (Ok (Some (p, _)), st2) \<Rightarrow> deliver_candidate env mode p st2))"

section \<open>The two loops\<close>

definition new_delivery_state :: "ledger \<Rightarrow> delivery_state" where
  "new_delivery_state db = \<lparr>dl_in_memory = {}, dl_attempts = Map.empty, dl_ledger = db, dl_log = []\<rparr>"

text \<open>The polls of the main loop, one after each period; an error waits for the next poll.\<close>

fun delivery_polls :: "delivery_env list \<Rightarrow> delivery_state \<Rightarrow> delivery_state" where
  "delivery_polls [] st = st"
| "delivery_polls (env # envs) st = delivery_polls envs (snd (run_delivery_once env Normal st))"

definition run_delivery_loop :: "delivery_env list \<Rightarrow> ledger \<Rightarrow> delivery_state" where
  "run_delivery_loop envs db = delivery_polls envs (new_delivery_state db)"

text \<open>The flush at shutdown forgets what the loop remembered; the list of polls ends at the deadline.\<close>

fun flush_polls :: "delivery_env list \<Rightarrow> delivery_state \<Rightarrow> delivery_state" where
  "flush_polls [] st = st"
| "flush_polls (env # envs) st =
     (case run_delivery_once env ShutdownFlush st of
        (Ok True, st') \<Rightarrow> flush_polls envs st'
      | (_, st') \<Rightarrow> st')"

definition flush_ready_deliveries_for_shutdown :: "delivery_env list \<Rightarrow> ledger \<Rightarrow> delivery_state" where
  "flush_ready_deliveries_for_shutdown envs db = flush_polls envs (new_delivery_state db)"

definition render_delivery_header :: "pending_result \<Rightarrow> chars" where
  "render_delivery_header p =
     (let glyph = (if pd_status p = ''failed'' then 0x2717 else 0x2713);
          label = (if pd_kind p = ''background'' then text_chars ''background task''
                   else (case pd_producer_ref p of Some name \<Rightarrow> name | None \<Rightarrow> text_chars ''cron''));
          label = map (\<lambda>c. if c = 10 \<or> c = 13 then 32 else c) label;
          status_word = text_chars (if pd_status p = ''failed'' then ''failed'' else ''success'')
      in [glyph, 32] @ label @ [32, 0xB7, 32] @
         (if pd_force_notify p then text_chars ''manual run '' @ [0xB7, 32] else []) @ status_word)"

end
