(* ===== verification/Run_Ledger_Props.thy ===== *)
theory Run_Ledger_Props
  imports Run_Ledger
begin

text \<open>
  The ledger under any sequence of requests: keys stay unique, a retried request
  repeats its answer and writes nothing, and the deduplication of a job leaves its
  newest result alone.
\<close>

section \<open>Keys\<close>

abbreviation run_ids :: "run_row list \<Rightarrow> chars list" where "run_ids t \<equiv> map ar_id t"

lemma has_run_iff: "has_run i t \<longleftrightarrow> i \<in> set (run_ids t)"
  by (auto simp: has_run_def list_ex_iff)

lemma update_run_Ok: "update_run i f t = Ok t' \<longleftrightarrow> has_run i t \<and> t' = update_where (\<lambda>r. ar_id r = i) f t"
  by (auto simp: update_run_def bind_result_Inr)

text \<open>The body of a retryable request: it may append a run, and it never changes an id.\<close>

locale ledger_body =
  fixes body :: "run_row list \<Rightarrow> ledger_error + run_row list"
  assumes ids_kept: "body t = Ok t' \<Longrightarrow> distinct (run_ids t) \<Longrightarrow> distinct (run_ids t')"
    and ids_grow: "body t = Ok t' \<Longrightarrow> set (run_ids t) \<subseteq> set (run_ids t')"

definition ledger_inv :: "ledger \<Rightarrow> bool" where
  "ledger_inv db = (distinct (run_ids (lg_runs db)) \<and> distinct (map fst (lg_requests db)))"

lemma map_of_fst: "map_of xs k = None \<longleftrightarrow> k \<notin> set (map fst xs)"
  by (simp add: map_of_eq_None_iff)

context ledger_body
begin

lemma idempotent_inv: "ledger_inv db \<Longrightarrow> ledger_inv (snd (idempotent rid opn resp body db))"
  unfolding idempotent_def idempotent_response_def
  by (auto simp: ledger_inv_def map_of_eq_None_iff split: option.splits sum.splits prod.splits if_splits dest: ids_kept)

lemma idempotent_ids:
  "set (run_ids (lg_runs db)) \<subseteq> set (run_ids (lg_runs (snd (idempotent rid opn resp body db))))"
  unfolding idempotent_def idempotent_response_def
  using ids_grow[of "lg_runs db"] by (simp split: option.splits sum.splits prod.splits if_splits)

end

lemma idempotent_requests:
  "\<exists>more. lg_requests (snd (idempotent rid opn resp body db)) = lg_requests db @ more"
  unfolding idempotent_def idempotent_response_def
  by (auto split: option.splits sum.splits prod.splits if_splits)

lemma idempotent_recorded:
  assumes "idempotent rid opn resp body db = (Ok r, db')"
  shows "map_of (lg_requests db') rid = Some (opn, r)"
  using assms unfolding idempotent_def idempotent_response_def
  by (auto simp: map_add_def split: option.splits sum.splits prod.splits if_splits)

lemma idempotent_again:
  assumes "map_of (lg_requests db) rid = Some (opn, r)"
  shows "idempotent rid opn resp body db = (Ok r, db)"
  using assms by (simp add: idempotent_def idempotent_response_def)

lemma update_run_body: "(\<And>r. ar_id (f r) = ar_id r) \<Longrightarrow> ledger_body (update_run i f)"
  by unfold_locales (auto simp: update_run_Ok update_where_key set_update_where)

lemma ledger_body_bind:
  assumes "ledger_body f" and "ledger_body g"
  shows "ledger_body (\<lambda>t. bind_result (f t) g)"
proof
  fix t t' assume "bind_result (f t) g = Ok t'"
  then obtain u where u: "f t = Ok u" "g u = Ok t'" by (auto simp: bind_result_Inr)
  show "set (run_ids t) \<subseteq> set (run_ids t')"
    using ledger_body.ids_grow[OF assms(1) u(1)] ledger_body.ids_grow[OF assms(2) u(2)] by blast
  assume "distinct (run_ids t)"
  then show "distinct (run_ids t')"
    using ledger_body.ids_kept[OF assms(1) u(1)] ledger_body.ids_kept[OF assms(2) u(2)] by blast
qed

interpretation cron_insert: ledger_body "insert_running_cron_run n" for n
  by unfold_locales (auto simp: insert_running_cron_run_def bind_result_Inr has_run_iff split: option.splits)

interpretation background_insert: ledger_body "insert_queued_background_run n" for n
  by unfold_locales (auto simp: insert_queued_background_run_def bind_result_Inr has_run_iff)

interpretation finishing: ledger_body "finish_run i exit_code status now" for i exit_code status now
  unfolding finish_run_def by (rule update_run_body) simp

interpretation marking: ledger_body "update_run i (\<lambda>r. r\<lparr>ar_delivery_status := status, ar_delivered_at := Some now\<rparr>)"
  for i status now by (rule update_run_body) simp

lemma persist_output_body: "ledger_body (persist_run_output i out)"
proof (cases "ro_delivery_required out \<and> ro_delivery_json out = None")
  case True
  then show ?thesis by unfold_locales (simp_all add: persist_run_output_def)
next
  case False
  let ?f = "\<lambda>r. r\<lparr>ar_run_note := ro_run_note out, ar_delivery_json := ro_delivery_json out,
     ar_error_json := ro_error_json out, ar_delivery_required := ro_delivery_required out,
     ar_delivery_status := (if ro_delivery_required out then ''pending'' else ''none'')\<rparr>"
  have "persist_run_output i out = update_run i ?f"
    using False by (intro ext) (auto simp: persist_run_output_def)
  then show ?thesis using update_run_body[of ?f i] by simp
qed

interpretation persisting: ledger_body "persist_body r now" for r now
  unfolding persist_body_def
  by (rule ledger_body_bind[OF persist_output_body finishing.ledger_body_axioms])

interpretation failing_handoff: ledger_body "handoff_failed_body i nt delivery err now" for i nt delivery err now
  unfolding handoff_failed_body_def
  by (intro ledger_body_bind persist_output_body update_run_body finishing.ledger_body_axioms) simp

section \<open>Every sequence of requests\<close>

fun ledger_history :: "ledger_op list \<Rightarrow> ledger \<Rightarrow> ledger" where
  "ledger_history [] db = db"
| "ledger_history (op # ops) db = ledger_history ops (snd (run_ledger op db))"

fun request_of :: "ledger_op \<Rightarrow> (chars \<times> string) option" where
  "request_of (EnqueueBackgroundRun rid _) = Some (rid, ''enqueue_background_run'')"
| "request_of (CronInsertRunningRun rid _) = Some (rid, ''cron_insert_running_run'')"
| "request_of (PersistRunOutput r _) = Some (pq_request_id r, ''persist_run_output'')"
| "request_of (FinishRun rid _ _ _ _) = Some (rid, ''finish_run'')"
| "request_of (MarkHandoffFailed rid _ _ _ _ _) = Some (rid, ''mark_handoff_failed'')"
| "request_of (DeliveryMarkOutcome rid _ _ _) = Some (rid, ''delivery_mark_outcome'')"
| "request_of _ = None"

lemma run_ledger_requests: "\<exists>more. lg_requests (snd (run_ledger op db)) = lg_requests db @ more"
  by (cases op) (auto simp: idempotent_requests split: sum.splits)

lemma history_requests: "\<exists>more. lg_requests (ledger_history ops db) = lg_requests db @ more"
proof (induction ops arbitrary: db)
  case (Cons op ops)
  then show ?case using run_ledger_requests[of op db] by (metis append.assoc ledger_history.simps(2))
qed simp

lemma run_ledger_inv: "ledger_inv db \<Longrightarrow> ledger_inv (snd (run_ledger op db))"
proof (cases op)
  case (MarkBackgroundSpawned i now)
  assume "ledger_inv db"
  then show ?thesis
    unfolding MarkBackgroundSpawned
    by (auto simp: ledger_inv_def update_run_Ok update_where_key split: sum.splits)
qed (simp_all add: cron_insert.idempotent_inv background_insert.idempotent_inv finishing.idempotent_inv
      marking.idempotent_inv persisting.idempotent_inv failing_handoff.idempotent_inv,
     simp_all add: ledger_inv_def update_where_key recover_handoff_def interrupt_cron_def)

lemma history_inv: "ledger_inv db \<Longrightarrow> ledger_inv (ledger_history ops db)"
  by (induction ops arbitrary: db) (simp_all add: run_ledger_inv)

lemma run_ledger_again:
  assumes "request_of op = Some (rid, opn)" and "map_of (lg_requests db) rid = Some (opn, r)"
  shows "run_ledger op db = (Ok r, db)"
  using assms by (cases op) (auto simp: idempotent_again)

lemma run_ledger_recorded:
  assumes "request_of op = Some (rid, opn)" and "run_ledger op db = (Ok r, db')"
  shows "map_of (lg_requests db') rid = Some (opn, r)"
  using assms by (cases op) (auto dest: idempotent_recorded)

text \<open>C17: A request whose answer was lost can be sent again at any later time: whatever other
  requests the owner served in between, the retry gets the first answer and writes nothing,
  and the ids of runs and requests stay unique.\<close>

theorem retried_request_repeats_answer:
  assumes "request_of op = Some (rid, opn)" and "run_ledger op db = (Ok r, db1)" and "ledger_inv db"
  shows "run_ledger op (ledger_history ops db1) = (Ok r, ledger_history ops db1) \<and>
    ledger_inv (ledger_history ops db1)"
proof -
  obtain more where "lg_requests (ledger_history ops db1) = lg_requests db1 @ more"
    using history_requests by blast
  then have "map_of (lg_requests (ledger_history ops db1)) rid = Some (opn, r)"
    using run_ledger_recorded[OF assms(1,2)] by (simp add: map_add_Some_iff)
  then show ?thesis
    using run_ledger_again[OF assms(1)] history_inv run_ledger_inv[OF assms(3), of op] assms(2) by simp
qed


definition sample_cron_run :: "string \<Rightarrow> new_cron_run" where
  "sample_cron_run i = \<lparr>nc_id = text_chars i, nc_job_name = text_chars ''daily'', nc_started_at = ''2026-01-01'',
     nc_log_path = [], nc_chat = Some 5, nc_thread = None, nc_force_notify = False\<rparr>"

definition empty_ledger :: ledger where "empty_ledger = \<lparr>lg_runs = [], lg_requests = []\<rparr>"

theorem retried_request_repeats_answer_witness:
  "\<exists>db. run_ledger (CronInsertRunningRun [1] (sample_cron_run ''a'')) empty_ledger = (Ok OkResponse, db) \<and>
     (let db2 = ledger_history [CronInsertRunningRun [2] (sample_cron_run ''b''), FinishRun [3] (text_chars ''a'') None ''failed'' ''x''] db in
      run_ledger (CronInsertRunningRun [1] (sample_cron_run ''a'')) db2 = (Ok OkResponse, db2))"
proof -
  let ?op = "CronInsertRunningRun [1] (sample_cron_run ''a'')"
  have "fst (run_ledger ?op empty_ledger) = Ok OkResponse" by code_simp
  then obtain db where db: "run_ledger ?op empty_ledger = (Ok OkResponse, db)" by (metis prod.collapse)
  have "ledger_inv empty_ledger" by (simp add: ledger_inv_def empty_ledger_def)
  from retried_request_repeats_answer[OF _ db this, of "[1]" "''cron_insert_running_run''"
      "[CronInsertRunningRun [2] (sample_cron_run ''b''), FinishRun [3] (text_chars ''a'') None ''failed'' ''x'']"]
  show ?thesis unfolding Let_def using db by (metis request_of.simps(2))
qed

section \<open>One result per job\<close>

lemma sorted_key_last:
  assumes "rev (sort_key f xs) = r # rs"
  shows "r \<in> set xs" "x \<in> set xs \<Longrightarrow> f x \<le> f r"
proof -
  have e: "sort_key f xs = rev rs @ [r]" using assms by (metis rev.simps(2) rev_rev_ident)
  then have "set xs = set (rev rs @ [r])" by (metis set_sort)
  then show "r \<in> set xs" by simp
  have "sorted (map f (rev rs @ [r]))" using e by (metis sorted_sort_key)
  then show "f x \<le> f r" if "x \<in> set xs"
    using that \<open>set xs = set (rev rs @ [r])\<close> by (auto simp: sorted_append)
qed

lemma filter_key_unique:
  "distinct (map k t) \<Longrightarrow> r \<in> set t \<Longrightarrow> p r \<Longrightarrow> filter (\<lambda>x. p x \<and> k x = k r) t = [r]"
proof (induction t)
  case (Cons x t)
  show ?case
  proof (cases "x = r")
    case True
    then have "filter (\<lambda>x. p x \<and> k x = k r) t = []"
      using Cons.prems(1) by (auto simp: filter_empty_conv) (metis image_eqI)
    then show ?thesis using True Cons.prems by simp
  next
    case False
    then have "k x \<noteq> k r" using Cons.prems(1,2) by auto
    then show ?thesis using Cons False by auto
  qed
qed simp

lemma filter_update_where:
  "(\<And>g. c g \<Longrightarrow> \<not> p (f g)) \<Longrightarrow> filter p (update_where c f t) = filter (\<lambda>g. p g \<and> \<not> c g) t"
  by (induction t) (auto simp: update_where_def)

text \<open>Before the result of a job is delivered, all but its newest deliverable result are
  superseded: afterwards that one is the only deliverable run of the job, it keeps its row, it is
  shown as a manual run when any of the waiting ones was, and the runs of other jobs and the
  background runs are untouched.\<close>

theorem deduplication_keeps_newest:
  assumes "distinct (run_ids t)" and "delivery_deduplicate_job job now t = ((Some p, n), t')"
  shows "\<exists>r. filter (cron_deliverable job) t' = [r] \<and> r \<in> set t \<and> pd_id p = ar_id r \<and>
    (\<forall>g \<in> set t. cron_deliverable job g \<longrightarrow> finished_key g \<le> finished_key r) \<and>
    (pd_force_notify p \<longleftrightarrow> (\<exists>g \<in> set t. cron_deliverable job g \<and> ar_force_notify g)) \<and>
    filter (\<lambda>g. ar_kind g \<noteq> ''cron'' \<or> ar_producer_ref g \<noteq> Some job) t' =
      filter (\<lambda>g. ar_kind g \<noteq> ''cron'' \<or> ar_producer_ref g \<noteq> Some job) t \<and>
    run_ids t' = run_ids t"
proof -
  obtain r where r: "newest_deliverable job t = Some r"
    and p: "p = pending_from_row (list_ex (\<lambda>g. cron_deliverable job g \<and> ar_force_notify g) t) r"
    and t': "t' = update_where (superseded_by job (ar_id r))
      (\<lambda>g. g\<lparr>ar_delivery_status := ''superseded'', ar_delivered_at := Some now\<rparr>) t"
    using assms(2) by (auto simp: delivery_deduplicate_job_def split: option.splits)
  then obtain rs where s: "rev (sort_key finished_key (filter (cron_deliverable job) t)) = r # rs"
    by (auto simp: newest_deliverable_def split: list.splits)
  have rt: "r \<in> set t" "cron_deliverable job r"
    and newest: "\<And>g. g \<in> set t \<Longrightarrow> cron_deliverable job g \<Longrightarrow> finished_key g \<le> finished_key r"
    using sorted_key_last[OF s] by auto
  have "filter (cron_deliverable job) t' = filter (\<lambda>g. cron_deliverable job g \<and> \<not> superseded_by job (ar_id r) g) t"
    unfolding t' by (rule filter_update_where) (simp add: cron_deliverable_def deliverable_def awaits_delivery_def)
  also have "\<dots> = filter (\<lambda>g. cron_deliverable job g \<and> ar_id g = ar_id r) t"
    by (rule filter_cong[OF refl]) (auto simp: superseded_by_def cron_deliverable_def deliverable_def)
  also have "\<dots> = [r]" using assms(1) rt by (rule filter_key_unique)
  finally have "filter (cron_deliverable job) t' = [r]" .
  moreover have "filter (\<lambda>g. ar_kind g \<noteq> ''cron'' \<or> ar_producer_ref g \<noteq> Some job) t' =
      filter (\<lambda>g. ar_kind g \<noteq> ''cron'' \<or> ar_producer_ref g \<noteq> Some job) t"
  proof -
    have "filter (\<lambda>g. ar_kind g \<noteq> ''cron'' \<or> ar_producer_ref g \<noteq> Some job) t' =
      map (\<lambda>g. if superseded_by job (ar_id r) g then g\<lparr>ar_delivery_status := ''superseded'', ar_delivered_at := Some now\<rparr> else g)
        (filter (\<lambda>g. ar_kind g \<noteq> ''cron'' \<or> ar_producer_ref g \<noteq> Some job) t)"
      unfolding t' update_where_def filter_map by (rule arg_cong[OF filter_cong[OF refl]]) simp
    also have "\<dots> = filter (\<lambda>g. ar_kind g \<noteq> ''cron'' \<or> ar_producer_ref g \<noteq> Some job) t"
      by (rule map_idI) (auto simp: superseded_by_def)
    finally show ?thesis .
  qed
  moreover have "run_ids t' = run_ids t" unfolding t' by (simp add: update_where_key)
  moreover have "pd_id p = ar_id r" "pd_force_notify p \<longleftrightarrow> (\<exists>g \<in> set t. cron_deliverable job g \<and> ar_force_notify g)"
    by (simp_all add: p pending_from_row_def list_ex_iff)
  ultimately show ?thesis using rt newest by blast
qed

definition waiting_row :: "string \<Rightarrow> string \<Rightarrow> bool \<Rightarrow> run_row" where
  "waiting_row i fin force = \<lparr>ar_id = text_chars i, ar_kind = ''cron'', ar_producer_ref = Some (text_chars ''daily''),
     ar_source_session = None, ar_run_session = text_chars i, ar_chat = 5, ar_thread = None, ar_status = ''success'',
     ar_handoff = None, ar_started_at = Some ''s'', ar_finished_at = Some fin, ar_exit_code = Some 0,
     ar_log_path = None, ar_run_note = None, ar_delivery_json = Some [1], ar_error_json = None,
     ar_delivery_required = True, ar_delivery_status = ''pending'', ar_delivered_at = None, ar_force_notify = force\<rparr>"

lemma waiting_deliverable:
  "cron_deliverable (text_chars ''daily'') (waiting_row i f b)" "finished_key (waiting_row i f b) = f"
  "ar_id (waiting_row i f b) = text_chars i"
  by (simp_all add: waiting_row_def cron_deliverable_def deliverable_def awaits_delivery_def finished_key_def)

lemma waiting_superseded:
  "superseded_by (text_chars ''daily'') j (waiting_row i f b) \<longleftrightarrow> text_chars i \<noteq> j"
  by (simp add: superseded_by_def waiting_row_def awaits_delivery_def)

lemma sample_ids: "text_chars ''a'' \<noteq> text_chars ''b''" by code_simp

theorem deduplication_keeps_newest_witness:
  "\<exists>p t'. delivery_deduplicate_job (text_chars ''daily'') ''now'' [waiting_row ''a'' ''1'' True, waiting_row ''b'' ''2'' False] =
      ((Some p, 1), t') \<and> (\<exists>r. filter (cron_deliverable (text_chars ''daily'')) t' = [r] \<and> pd_id p = ar_id r)"
proof -
  let ?t = "[waiting_row ''a'' ''1'' True, waiting_row ''b'' ''2'' False]"
  have n: "newest_deliverable (text_chars ''daily'') ?t = Some (waiting_row ''b'' ''2'' False)"
    by (simp add: newest_deliverable_def waiting_deliverable less_char_def)
  have c: "count_where (superseded_by (text_chars ''daily'') (ar_id (waiting_row ''b'' ''2'' False))) ?t = 1"
    using sample_ids by (simp add: count_where_def waiting_superseded waiting_deliverable)
  obtain p t' where d: "delivery_deduplicate_job (text_chars ''daily'') ''now'' ?t = ((Some p, 1), t')"
    unfolding delivery_deduplicate_job_def n option.case c by blast
  have "distinct (run_ids ?t)" using sample_ids by (simp add: waiting_deliverable)
  from deduplication_keeps_newest[OF this d] d show ?thesis by blast
qed

section \<open>Runs cut off by a shutdown\<close>

text \<open>The statement that ends them asks for a delivery without writing one: the row has no text to
  deliver, so no poll ever returns it, and the next result of the job supersedes it.\<close>

lemma interrupted_run_is_never_fetched:
  assumes "r \<in> set t" and "cron_running job r" and "ar_delivery_json r = None" and "ar_chat r \<noteq> 0"
  shows "awaits_delivery (interrupt_cron err now r) \<and> \<not> deliverable (interrupt_cron err now r) \<and>
    interrupt_cron err now r \<in> set (update_where (cron_running job) (interrupt_cron err now) t)"
  using assms by (auto simp: awaits_delivery_def deliverable_def interrupt_cron_def set_update_where)

lemma inserted_run_has_no_delivery:
  "insert_running_cron_run n t = Ok t' \<Longrightarrow> r \<in> set t' \<Longrightarrow> r \<notin> set t \<Longrightarrow> ar_delivery_json r = None"
  by (auto simp: insert_running_cron_run_def bind_result_Inr split: option.splits)

end
