(* ===== verification/Cron_Spec.thy ===== *)
theory Cron_Spec
  imports Complex_Main Run_Ledger Allowlist
begin

text \<open>
  The cron jobs of an agent: the table \<^verbatim>\<open>cron_specs\<close> with the operations of
  \<^verbatim>\<open>right-agent/src/cron_spec.rs\<close>, the links between jobs and skills
  (\<^verbatim>\<open>cron_skill_link.rs\<close>), and the tools of the agent that call them
  (\<^verbatim>\<open>call_cron_*\<close> in \<^verbatim>\<open>right/src/right_backend.rs\<close>).  The parser of cron expressions and of
  instants are parameters.  A budget is the rational its double stands for.
\<close>

section \<open>Jobs\<close>

definition DEFAULT_CRON_BUDGET_USD :: rat where "DEFAULT_CRON_BUDGET_USD = 5"
definition IMMEDIATE_DEFAULT_LOCK_TTL :: chars where "IMMEDIATE_DEFAULT_LOCK_TTL = text_chars ''6h''"
definition IMMEDIATE_SENTINEL :: chars where "IMMEDIATE_SENTINEL = text_chars ''@immediate''"
definition BG_SENTINEL_PREFIX :: chars where "BG_SENTINEL_PREFIX = text_chars ''@bg:''"

datatype schedule_kind = Recurring chars | OneShotCron chars | RunAt int | Immediate

fun cron_schedule :: "schedule_kind \<Rightarrow> chars option" where
  "cron_schedule (Recurring s) = Some s"
| "cron_schedule (OneShotCron s) = Some s"
| "cron_schedule _ = None"

fun is_one_shot :: "schedule_kind \<Rightarrow> bool" where
  "is_one_shot (Recurring _) = False"
| "is_one_shot _ = True"

datatype run_on = OnSuccess | OnFailure | Always

fun fires_on :: "run_on \<Rightarrow> bool \<Rightarrow> bool" where
  "fires_on Always success = True"
| "fires_on OnSuccess success = success"
| "fires_on OnFailure success = (\<not> success)"

record then_spec =
  th_instruction :: chars
  th_run_on :: run_on
  th_notify :: bool
  th_chat :: "int option"
  th_thread :: "int option"

record cron_spec =
  sp_schedule_kind :: schedule_kind
  sp_prompt :: chars
  sp_lock_ttl :: "chars option"
  sp_max_budget_usd :: rat
  sp_triggered_at :: "chars option"
  sp_trigger_force_notify :: bool
  sp_chat :: "int option"
  sp_thread :: "int option"
  sp_model :: "chars option"
  sp_extra_instruction :: "chars option"
  sp_then :: "then_spec option"
  sp_origin_chat :: "int option"
  sp_origin_thread :: "int option"

text \<open>The equality of specs compares the configuration and leaves out what a trigger sets.\<close>

definition same_config :: "cron_spec \<Rightarrow> cron_spec \<Rightarrow> bool" where
  "same_config a b =
     (sp_schedule_kind a = sp_schedule_kind b \<and> sp_prompt a = sp_prompt b \<and> sp_lock_ttl a = sp_lock_ttl b \<and>
      sp_max_budget_usd a = sp_max_budget_usd b \<and> sp_chat a = sp_chat b \<and> sp_thread a = sp_thread b \<and>
      sp_model a = sp_model b)"

text \<open>A row of \<^verbatim>\<open>cron_specs\<close>; a JSON column is kept as the value its text parses to, if it does.\<close>

record cron_row =
  cs_job_name :: chars
  cs_schedule :: chars
  cs_prompt :: chars
  cs_lock_ttl :: "chars option"
  cs_max_budget_usd :: rat
  cs_recurring :: int
  cs_run_at :: "chars option"
  cs_chat :: "int option"
  cs_thread :: "int option"
  cs_model :: "chars option"
  cs_triggered_at :: "chars option"
  cs_force_notify :: bool
  cs_extra_instruction :: "chars option"
  cs_then_json :: "then_spec option option"
  cs_origin_chat :: "int option"
  cs_origin_thread :: "int option"

text \<open>The libraries: which seven-field expressions parse, the minutes of their first sixty fires
  after the anchor, and which texts are instants.\<close>

record cron_lib =
  cl_minutes :: "chars \<Rightarrow> nat list option"
  cl_parse_dt :: "chars \<Rightarrow> int option"

datatype cron_error =
    EmptyName | LeadingHyphen | BadNameChar nat
  | EmptySchedule | BadSchedule chars
  | EmptyLockTtl | BadLockSuffix chars | BadLockNumber chars | Panicked
  | EmptyPrompt | BadBudget
  | BadRunAt chars | NoSchedule | ManySchedules | NothingToUpdate | ScheduleAndRunAt
  | LegacyBackground chars | BadThenJson
  | AlreadyExists chars | JobNotFound chars | SkillNotFound chars
  | TargetRefused int | ConstraintFailed | LinkFailed cron_error

section \<open>Validation\<close>

fun from_db_row :: "cron_lib \<Rightarrow> chars \<Rightarrow> chars option \<Rightarrow> int \<Rightarrow> cron_error + schedule_kind" where
  "from_db_row lib schedule (Some rat) recurring =
     (case cl_parse_dt lib rat of None \<Rightarrow> Err (BadRunAt rat) | Some dt \<Rightarrow> Ok (RunAt dt))"
| "from_db_row lib schedule None recurring =
     (if take (length BG_SENTINEL_PREFIX) schedule = BG_SENTINEL_PREFIX then Err (LegacyBackground schedule)
      else if schedule = IMMEDIATE_SENTINEL then Ok Immediate
      else if recurring = 0 then Ok (OneShotCron schedule)
      else Ok (Recurring schedule))"

definition is_name_char :: "nat \<Rightarrow> bool" where
  "is_name_char c = (97 \<le> c \<and> c \<le> 122 \<or> is_digit_cp c \<or> c = 45)"

definition validate_job_name :: "chars \<Rightarrow> cron_error + unit" where
  "validate_job_name name =
     (case name of
        [] \<Rightarrow> Err EmptyName
      | c # _ \<Rightarrow> if c = 45 then Err LeadingHyphen
                else (case find (\<lambda>c. \<not> is_name_char c) name of
                        Some c \<Rightarrow> Err (BadNameChar c) | None \<Rightarrow> Ok ()))"

text \<open>The distinct minutes 0 and 30 among the fires, the search stopping at two of them.\<close>

fun peak_hits :: "nat list \<Rightarrow> nat list \<Rightarrow> nat list" where
  "peak_hits [] hits = hits"
| "peak_hits (m # ms) hits =
     (if (m = 0 \<or> m = 30) \<and> m \<notin> set hits
      then (if length (hits @ [m]) = 2 then hits @ [m] else peak_hits ms (hits @ [m]))
      else peak_hits ms hits)"

definition to_7field :: "chars \<Rightarrow> chars" where
  "to_7field expr = text_chars ''0 '' @ trim_chars expr @ text_chars '' *''"

definition validate_schedule :: "cron_lib \<Rightarrow> chars \<Rightarrow> cron_error + nat list option" where
  "validate_schedule lib schedule =
     (if trim_chars schedule = [] then Err EmptySchedule
      else (case cl_minutes lib (to_7field schedule) of
              None \<Rightarrow> Err (BadSchedule (trim_chars schedule))
            | Some minutes \<Rightarrow>
                Ok (case peak_hits (take 60 minutes) [] of [] \<Rightarrow> None | hits \<Rightarrow> Some (sort hits))))"

text \<open>\<^verbatim>\<open>split_at(len - 1)\<close> panics when the last character takes more than a byte.\<close>

definition validate_lock_ttl :: "chars \<Rightarrow> cron_error + unit" where
  "validate_lock_ttl s =
     (if s = [] then Err EmptyLockTtl
      else if 1 < utf8_len (last s) then Err Panicked
      else if last s \<noteq> 109 \<and> last s \<noteq> 104 then Err (BadLockSuffix s)
      else (case parse_i64 (butlast s) of None \<Rightarrow> Err (BadLockNumber (butlast s)) | Some _ \<Rightarrow> Ok ()))"

definition validate_prompt :: "chars \<Rightarrow> cron_error + unit" where
  "validate_prompt prompt = ensure (trim_chars prompt \<noteq> []) EmptyPrompt"

definition validate_opt_ttl :: "chars option \<Rightarrow> cron_error + unit" where
  "validate_opt_ttl ttl = (case ttl of None \<Rightarrow> Ok () | Some t \<Rightarrow> validate_lock_ttl t)"

definition validate_budget :: "rat option \<Rightarrow> cron_error + unit" where
  "validate_budget budget = (case budget of None \<Rightarrow> Ok () | Some b \<Rightarrow> ensure (0 < b) BadBudget)"

definition validate_spec_inputs ::
  "cron_lib \<Rightarrow> chars \<Rightarrow> chars \<Rightarrow> chars \<Rightarrow> chars option \<Rightarrow> rat option \<Rightarrow> cron_error + nat list option" where
  "validate_spec_inputs lib name schedule prompt ttl budget =
     bind_result (validate_job_name name) (\<lambda>_.
     bind_result (validate_schedule lib schedule) (\<lambda>warning.
     bind_result (validate_prompt prompt) (\<lambda>_.
     bind_result (validate_opt_ttl ttl) (\<lambda>_.
     bind_result (validate_budget budget) (\<lambda>_. Ok warning)))))"

datatype schedule_warning = PeakMinutes "nat list" | RunAtInPast

fun resolve_schedule_fields ::
  "cron_lib \<Rightarrow> int \<Rightarrow> chars option \<Rightarrow> bool option \<Rightarrow> chars option \<Rightarrow> bool \<Rightarrow>
   cron_error + (chars \<times> int \<times> chars option \<times> schedule_warning option)" where
  "resolve_schedule_fields lib now (Some sched) recurring None False =
     bind_result (validate_schedule lib sched) (\<lambda>warning.
       Ok (sched, if recurring = Some False then 0 else 1, None, map_option PeakMinutes warning))"
| "resolve_schedule_fields lib now None recurring (Some rat) False =
     (case cl_parse_dt lib rat of
        None \<Rightarrow> Err (BadRunAt rat)
      | Some dt \<Rightarrow> Ok ([], 0, Some rat, if dt \<le> now then Some RunAtInPast else None))"
| "resolve_schedule_fields lib now None recurring None True = Ok (IMMEDIATE_SENTINEL, 0, None, None)"
| "resolve_schedule_fields lib now None recurring None False = Err NoSchedule"
| "resolve_schedule_fields lib now _ recurring _ _ = Err ManySchedules"

section \<open>The tables\<close>

record skill_link =
  lk_job :: chars
  lk_skill :: chars
  lk_origin :: string

record cron_db =
  cd_specs :: "cron_row list"
  cd_ledger :: ledger
  cd_links :: "skill_link list"
  cd_skills :: "(chars \<times> string) list"

definition job_row :: "chars \<Rightarrow> cron_db \<Rightarrow> cron_row option" where
  "job_row name db = find (\<lambda>r. cs_job_name r = name) (cd_specs db)"

definition has_job :: "chars \<Rightarrow> cron_db \<Rightarrow> bool" where
  "has_job name db = list_ex (\<lambda>r. cs_job_name r = name) (cd_specs db)"

definition update_job :: "chars \<Rightarrow> (cron_row \<Rightarrow> cron_row) \<Rightarrow> cron_db \<Rightarrow> cron_db" where
  "update_job name f db = db\<lparr>cd_specs := update_where (\<lambda>r. cs_job_name r = name) f (cd_specs db)\<rparr>"

definition budget_or_default :: "rat option \<Rightarrow> rat" where
  "budget_or_default b = (case b of Some x \<Rightarrow> x | None \<Rightarrow> DEFAULT_CRON_BUDGET_USD)"

text \<open>An INSERT; the columns a statement does not name get the default of the table.\<close>

definition insert_job :: "cron_row \<Rightarrow> cron_db \<Rightarrow> cron_error + cron_db" where
  "insert_job r db =
     bind_result (ensure (\<not> has_job (cs_job_name r) db) (AlreadyExists (cs_job_name r)))
       (\<lambda>_. Ok (db\<lparr>cd_specs := cd_specs db @ [r]\<rparr>))"

definition new_job_row ::
  "chars \<Rightarrow> chars \<Rightarrow> chars \<Rightarrow> chars option \<Rightarrow> rat \<Rightarrow> cron_row" where
  "new_job_row name schedule prompt ttl budget =
     \<lparr>cs_job_name = name, cs_schedule = schedule, cs_prompt = prompt, cs_lock_ttl = ttl, cs_max_budget_usd = budget,
      cs_recurring = 1, cs_run_at = None, cs_chat = None, cs_thread = None, cs_model = None, cs_triggered_at = None,
      cs_force_notify = False, cs_extra_instruction = None, cs_then_json = None, cs_origin_chat = None,
      cs_origin_thread = None\<rparr>"

definition create_spec ::
  "cron_lib \<Rightarrow> chars \<Rightarrow> chars \<Rightarrow> chars \<Rightarrow> chars option \<Rightarrow> rat option \<Rightarrow> cron_db \<Rightarrow> cron_error + cron_db" where
  "create_spec lib name schedule prompt ttl budget db =
     bind_result (validate_spec_inputs lib name schedule prompt ttl budget) (\<lambda>_.
     insert_job (new_job_row name schedule prompt ttl (budget_or_default budget)) db)"

definition create_spec_v2 ::
  "cron_lib \<Rightarrow> int \<Rightarrow> chars \<Rightarrow> chars option \<Rightarrow> chars \<Rightarrow> chars option \<Rightarrow> rat option \<Rightarrow> bool option \<Rightarrow> chars option \<Rightarrow>
   int option \<Rightarrow> int option \<Rightarrow> chars option \<Rightarrow> bool \<Rightarrow> cron_db \<Rightarrow> cron_error + cron_db" where
  "create_spec_v2 lib now name schedule prompt ttl budget recurring run_at chat thread model immediate db =
     bind_result (validate_job_name name) (\<lambda>_.
     bind_result (validate_prompt prompt) (\<lambda>_.
     bind_result (validate_opt_ttl ttl) (\<lambda>_.
     bind_result (validate_budget budget) (\<lambda>_.
     bind_result (resolve_schedule_fields lib now schedule recurring run_at immediate) (\<lambda>(sched, rec, rat, _).
     insert_job ((new_job_row name sched prompt ttl (budget_or_default budget))
       \<lparr>cs_recurring := rec, cs_run_at := rat, cs_chat := chat, cs_thread := thread, cs_model := model\<rparr>) db)))))"

definition update_spec ::
  "cron_lib \<Rightarrow> chars \<Rightarrow> chars \<Rightarrow> chars \<Rightarrow> chars option \<Rightarrow> rat option \<Rightarrow> cron_db \<Rightarrow> cron_error + cron_db" where
  "update_spec lib name schedule prompt ttl budget db =
     bind_result (validate_spec_inputs lib name schedule prompt ttl budget) (\<lambda>_.
     bind_result (ensure (has_job name db) (JobNotFound name)) (\<lambda>_.
     Ok (update_job name (\<lambda>r. r\<lparr>cs_schedule := schedule, cs_prompt := prompt, cs_lock_ttl := ttl,
                              cs_max_budget_usd := budget_or_default budget\<rparr>) db)))"

section \<open>Partial updates\<close>

record spec_update =
  su_schedule :: "chars option"
  su_run_at :: "chars option"
  su_prompt :: "chars option"
  su_recurring :: "bool option"
  su_lock_ttl :: "chars option"
  su_budget :: "rat option"
  su_chat :: "int option"
  su_thread :: "int option option"
  su_model :: "chars option option"

definition nothing_to_update :: "spec_update \<Rightarrow> bool" where
  "nothing_to_update u =
     (su_schedule u = None \<and> su_run_at u = None \<and> su_prompt u = None \<and> su_recurring u = None \<and> su_lock_ttl u = None \<and>
      su_budget u = None \<and> su_chat u = None \<and> su_thread u = None \<and> su_model u = None)"

definition validate_update :: "cron_lib \<Rightarrow> chars \<Rightarrow> spec_update \<Rightarrow> cron_error + nat list option" where
  "validate_update lib name u =
     bind_result (validate_job_name name) (\<lambda>_.
     bind_result (ensure (\<not> nothing_to_update u) NothingToUpdate) (\<lambda>_.
     bind_result (ensure (\<not> (su_schedule u \<noteq> None \<and> su_run_at u \<noteq> None)) ScheduleAndRunAt) (\<lambda>_.
     bind_result (case su_schedule u of None \<Rightarrow> Ok None | Some s \<Rightarrow> validate_schedule lib s) (\<lambda>warning.
     bind_result (case su_run_at u of None \<Rightarrow> Ok ()
                  | Some rat \<Rightarrow> ensure (cl_parse_dt lib rat \<noteq> None) (BadRunAt rat)) (\<lambda>_.
     bind_result (case su_prompt u of None \<Rightarrow> Ok () | Some p \<Rightarrow> validate_prompt p) (\<lambda>_.
     bind_result (validate_opt_ttl (su_lock_ttl u)) (\<lambda>_.
     bind_result (validate_budget (su_budget u)) (\<lambda>_. Ok warning))))))))"

definition opt_set :: "('a \<Rightarrow> 'r \<Rightarrow> 'r) \<Rightarrow> 'a option \<Rightarrow> 'r \<Rightarrow> 'r" where
  "opt_set f x r = (case x of None \<Rightarrow> r | Some v \<Rightarrow> f v r)"

definition set_schedule :: "spec_update \<Rightarrow> cron_row \<Rightarrow> cron_row" where
  "set_schedule u r =
     (case su_schedule u of
        Some sched \<Rightarrow> r\<lparr>cs_schedule := sched, cs_run_at := None, cs_recurring := if su_recurring u = Some False then 0 else 1\<rparr>
      | None \<Rightarrow>
          (case su_run_at u of
             Some rat \<Rightarrow> r\<lparr>cs_run_at := Some rat, cs_schedule := [], cs_recurring := 0\<rparr>
           | None \<Rightarrow> opt_set (\<lambda>rec r. r\<lparr>cs_recurring := if rec then 1 else 0\<rparr>) (su_recurring u) r))"

text \<open>The assignments of the dynamic UPDATE.\<close>

definition set_fields :: "spec_update \<Rightarrow> cron_row \<Rightarrow> cron_row" where
  "set_fields u r =
     opt_set (\<lambda>v r. r\<lparr>cs_model := v\<rparr>) (su_model u)
    (opt_set (\<lambda>v r. r\<lparr>cs_thread := v\<rparr>) (su_thread u)
    (opt_set (\<lambda>v r. r\<lparr>cs_chat := Some v\<rparr>) (su_chat u)
    (opt_set (\<lambda>v r. r\<lparr>cs_max_budget_usd := v\<rparr>) (su_budget u)
    (opt_set (\<lambda>v r. r\<lparr>cs_lock_ttl := Some v\<rparr>) (su_lock_ttl u)
    (opt_set (\<lambda>v r. r\<lparr>cs_prompt := v\<rparr>) (su_prompt u)
    (set_schedule u r))))))"

definition undelivered_run_of :: "chars \<Rightarrow> run_row \<Rightarrow> bool" where
  "undelivered_run_of name r =
     (ar_kind r = ''cron'' \<and> ar_producer_ref r = Some name \<and> ar_delivery_status r \<in> {''pending'', ''retryable''})"

text \<open>The target read back from the row goes to the waiting results of the job; the column of the
  runs refuses a missing chat, and then the transaction is rolled back.\<close>

definition propagate_target :: "chars \<Rightarrow> cron_db \<Rightarrow> cron_error + cron_db" where
  "propagate_target name db =
     (case job_row name db of
        None \<Rightarrow> Err (JobNotFound name)
      | Some spec \<Rightarrow>
          (case cs_chat spec of
             None \<Rightarrow> if list_ex (undelivered_run_of name) (lg_runs (cd_ledger db)) then Err ConstraintFailed else Ok db
           | Some chat \<Rightarrow>
               Ok (db\<lparr>cd_ledger := (cd_ledger db)\<lparr>lg_runs :=
                 update_where (undelivered_run_of name) (\<lambda>r. r\<lparr>ar_chat := chat, ar_thread := cs_thread spec\<rparr>)
                   (lg_runs (cd_ledger db))\<rparr>\<rparr>)))"

definition update_spec_partial ::
  "cron_lib \<Rightarrow> chars \<Rightarrow> spec_update \<Rightarrow> cron_db \<Rightarrow> cron_error + cron_db" where
  "update_spec_partial lib name u db =
     bind_result (validate_update lib name u) (\<lambda>_.
     bind_result (ensure (has_job name db) (JobNotFound name)) (\<lambda>_.
     let db1 = update_job name (set_fields u) db in
     if su_chat u \<noteq> None \<or> su_thread u \<noteq> None then propagate_target name db1 else Ok db1))"

section \<open>Deletion and triggers\<close>

text \<open>The lock file the deletion removes is part of the engine.\<close>

definition delete_spec :: "chars \<Rightarrow> cron_db \<Rightarrow> cron_error + cron_db" where
  "delete_spec name db =
     bind_result (ensure (has_job name db) (JobNotFound name)) (\<lambda>_.
     Ok (db\<lparr>cd_specs := delete_where (\<lambda>r. cs_job_name r = name) (cd_specs db),
            cd_links := delete_where (\<lambda>l. lk_job l = name) (cd_links db)\<rparr>))"

text \<open>The owner's own request, which the engine and the dashboard use.\<close>

definition cron_delete_spec :: "chars \<Rightarrow> cron_db \<Rightarrow> cron_error + cron_db" where
  "cron_delete_spec name db =
     bind_result (ensure (has_job name db) (JobNotFound name)) (\<lambda>_.
     Ok (db\<lparr>cd_specs := delete_where (\<lambda>r. cs_job_name r = name) (cd_specs db)\<rparr>))"

definition trigger_spec ::
  "chars \<Rightarrow> chars \<Rightarrow> bool \<Rightarrow> chars option \<Rightarrow> then_spec option \<Rightarrow> int option \<Rightarrow> int option \<Rightarrow> cron_db \<Rightarrow> cron_error + cron_db" where
  "trigger_spec now name force extra after chat thread db =
     bind_result (ensure (has_job name db) (JobNotFound name)) (\<lambda>_.
     Ok (update_job name (\<lambda>r. r\<lparr>cs_triggered_at := Some now, cs_force_notify := force, cs_extra_instruction := extra,
           cs_then_json := map_option Some after, cs_origin_chat := chat, cs_origin_thread := thread\<rparr>) db))"

definition clear_triggered_at :: "chars \<Rightarrow> cron_db \<Rightarrow> cron_db" where
  "clear_triggered_at name db =
     update_job name (\<lambda>r. r\<lparr>cs_triggered_at := None, cs_force_notify := False, cs_extra_instruction := None,
           cs_then_json := None, cs_origin_chat := None, cs_origin_thread := None\<rparr>) db"

section \<open>Loading\<close>

definition spec_of_row :: "schedule_kind \<Rightarrow> then_spec option \<Rightarrow> cron_row \<Rightarrow> cron_spec" where
  "spec_of_row kind after r =
     \<lparr>sp_schedule_kind = kind, sp_prompt = cs_prompt r, sp_lock_ttl = cs_lock_ttl r,
      sp_max_budget_usd = cs_max_budget_usd r, sp_triggered_at = cs_triggered_at r,
      sp_trigger_force_notify = cs_force_notify r, sp_chat = cs_chat r, sp_thread = cs_thread r,
      sp_model = cs_model r, sp_extra_instruction = cs_extra_instruction r, sp_then = after,
      sp_origin_chat = cs_origin_chat r, sp_origin_thread = cs_origin_thread r\<rparr>"

definition row_kind :: "cron_lib \<Rightarrow> cron_row \<Rightarrow> cron_error + schedule_kind" where
  "row_kind lib r = from_db_row lib (cs_schedule r) (cs_run_at r) (cs_recurring r)"

text \<open>One reader skips the rows it cannot read and drops a \<^verbatim>\<open>then\<close> it cannot read.\<close>

fun load_specs_from_db :: "cron_lib \<Rightarrow> cron_row list \<Rightarrow> (chars \<times> cron_spec) list" where
  "load_specs_from_db lib [] = []"
| "load_specs_from_db lib (r # rs) =
     (case row_kind lib r of
        Err _ \<Rightarrow> load_specs_from_db lib rs
      | Ok kind \<Rightarrow> (cs_job_name r, spec_of_row kind (Option.bind (cs_then_json r) id) r) # load_specs_from_db lib rs)"

text \<open>The other, which the engine uses, fails as a whole.\<close>

definition cron_spec_from_dto :: "cron_lib \<Rightarrow> cron_row \<Rightarrow> cron_error + (chars \<times> cron_spec)" where
  "cron_spec_from_dto lib r =
     bind_result (from_db_row lib (cs_schedule r) (cs_run_at r) (if cs_recurring r \<noteq> 0 then 1 else 0)) (\<lambda>kind.
     bind_result (case cs_then_json r of None \<Rightarrow> Ok None | Some None \<Rightarrow> Err BadThenJson | Some (Some t) \<Rightarrow> Ok (Some t))
       (\<lambda>after. Ok (cs_job_name r, spec_of_row kind after r)))"

fun load_specs_ipc :: "cron_lib \<Rightarrow> cron_row list \<Rightarrow> cron_error + (chars \<times> cron_spec) list" where
  "load_specs_ipc lib [] = Ok []"
| "load_specs_ipc lib (r # rs) =
     bind_result (cron_spec_from_dto lib r) (\<lambda>s. bind_result (load_specs_ipc lib rs) (\<lambda>ss. Ok (s # ss)))"

section \<open>Links between jobs and skills\<close>

definition insert_or_ignore :: "skill_link \<Rightarrow> skill_link list \<Rightarrow> skill_link list" where
  "insert_or_ignore l t =
     (if list_ex (\<lambda>x. lk_job x = lk_job l \<and> lk_skill x = lk_skill l) t then t else t @ [l])"

definition link_all :: "string \<Rightarrow> chars \<Rightarrow> chars list \<Rightarrow> skill_link list \<Rightarrow> skill_link list" where
  "link_all origin job skills t =
     fold (\<lambda>s. insert_or_ignore \<lparr>lk_job = job, lk_skill = s, lk_origin = origin\<rparr>) skills t"

definition link_auto :: "chars \<Rightarrow> chars list \<Rightarrow> cron_db \<Rightarrow> cron_db" where
  "link_auto job skills db = (if skills = [] then db else db\<lparr>cd_links := link_all ''auto'' job skills (cd_links db)\<rparr>)"

definition skill_live :: "cron_db \<Rightarrow> chars \<Rightarrow> bool" where
  "skill_live db s = list_ex (\<lambda>(n, state). n = s \<and> state \<noteq> ''archived'') (cd_skills db)"

fun ensure_skills_live :: "chars list \<Rightarrow> cron_db \<Rightarrow> cron_error + unit" where
  "ensure_skills_live [] db = Ok ()"
| "ensure_skills_live (s # ss) db =
     bind_result (ensure (skill_live db s) (SkillNotFound s)) (\<lambda>_. ensure_skills_live ss db)"

definition link_agent :: "chars \<Rightarrow> chars list \<Rightarrow> cron_db \<Rightarrow> cron_error + cron_db" where
  "link_agent job skills db =
     bind_result (ensure (has_job job db) (JobNotFound job)) (\<lambda>_.
     bind_result (ensure_skills_live skills db) (\<lambda>_.
     Ok (db\<lparr>cd_links := link_all ''agent'' job skills (cd_links db)\<rparr>)))"

definition unlink_agent :: "chars \<Rightarrow> chars list \<Rightarrow> cron_db \<Rightarrow> cron_error + cron_db" where
  "unlink_agent job skills db =
     bind_result (ensure (has_job job db) (JobNotFound job)) (\<lambda>_.
     Ok (db\<lparr>cd_links := delete_where (\<lambda>l. lk_job l = job \<and> lk_skill l \<in> set skills) (cd_links db)\<rparr>))"

definition list_for_job :: "chars \<Rightarrow> cron_db \<Rightarrow> chars list" where
  "list_for_job job db = sort (map lk_skill (filter (\<lambda>l. lk_job l = job) (cd_links db)))"

definition list_live_for_job :: "chars \<Rightarrow> cron_db \<Rightarrow> chars list" where
  "list_live_for_job job db =
     sort (map lk_skill (filter (\<lambda>l. lk_job l = job \<and> skill_live db (lk_skill l)) (cd_links db)))"

definition redirect_skill :: "chars \<Rightarrow> chars \<Rightarrow> cron_db \<Rightarrow> cron_db" where
  "redirect_skill old new db =
     (if old = new then db
      else db\<lparr>cd_links := delete_where (\<lambda>l. lk_skill l = old)
        (fold (\<lambda>l. insert_or_ignore (l\<lparr>lk_skill := new\<rparr>)) (filter (\<lambda>l. lk_skill l = old) (cd_links db)) (cd_links db))\<rparr>)"

definition drop_skill :: "chars \<Rightarrow> cron_db \<Rightarrow> cron_db" where
  "drop_skill s db = db\<lparr>cd_links := delete_where (\<lambda>l. lk_skill l = s) (cd_links db)\<rparr>"

section \<open>The tools of the agent\<close>

text \<open>The file of the allowlist, as it was read.\<close>

definition validate_target_against_allowlist :: "string + allowlist_file option \<Rightarrow> int \<Rightarrow> cron_error + unit" where
  "validate_target_against_allowlist disk chat =
     (case disk of
        Ok (Some state) \<Rightarrow> ensure (is_chat_allowed state chat) (TargetRefused chat)
      | _ \<Rightarrow> Err (TargetRefused chat))"

record create_params =
  cp_job_name :: chars
  cp_schedule :: "chars option"
  cp_prompt :: chars
  cp_lock_ttl :: "chars option"
  cp_budget :: "rat option"
  cp_recurring :: "bool option"
  cp_run_at :: "chars option"
  cp_chat :: int
  cp_thread :: "int option"
  cp_model :: "chars option"
  cp_skills :: "chars list"

text \<open>A failed link after the creation is undone by deleting the job again.\<close>

definition call_cron_create ::
  "cron_lib \<Rightarrow> int \<Rightarrow> string + allowlist_file option \<Rightarrow> create_params \<Rightarrow> cron_db \<Rightarrow> (cron_error + unit) \<times> cron_db" where
  "call_cron_create lib now disk p db =
     (case validate_target_against_allowlist disk (cp_chat p) of
        Err e \<Rightarrow> (Err e, db)
      | Ok _ \<Rightarrow>
          (case ensure_skills_live (cp_skills p) db of
             Err e \<Rightarrow> (Err (LinkFailed e), db)
           | Ok _ \<Rightarrow>
               (case create_spec_v2 lib now (cp_job_name p) (cp_schedule p) (cp_prompt p) (cp_lock_ttl p) (cp_budget p)
                       (cp_recurring p) (cp_run_at p) (Some (cp_chat p)) (cp_thread p) (cp_model p) False db of
                  Err e \<Rightarrow> (Err e, db)
                | Ok db1 \<Rightarrow>
                    if cp_skills p = [] then (Ok (), db1)
                    else (case link_agent (cp_job_name p) (cp_skills p) db1 of
                            Ok db2 \<Rightarrow> (Ok (), db2)
                          | Err e \<Rightarrow> (Err (LinkFailed e),
                              case delete_spec (cp_job_name p) db1 of Ok db2 \<Rightarrow> db2 | Err _ \<Rightarrow> db1)))))"

definition call_cron_update ::
  "cron_lib \<Rightarrow> string + allowlist_file option \<Rightarrow> chars \<Rightarrow> spec_update \<Rightarrow> cron_db \<Rightarrow> cron_error + cron_db" where
  "call_cron_update lib disk name u db =
     bind_result (case su_chat u of None \<Rightarrow> Ok () | Some chat \<Rightarrow> validate_target_against_allowlist disk chat)
       (\<lambda>_. update_spec_partial lib name u db)"

text \<open>The trigger remembers the conversation it was asked in; the thread 0 stands for no topic.\<close>

definition call_cron_trigger ::
  "chars \<Rightarrow> (int \<times> int) option \<Rightarrow> chars \<Rightarrow> bool \<Rightarrow> chars option \<Rightarrow> then_spec option \<Rightarrow> cron_db \<Rightarrow> cron_error + cron_db" where
  "call_cron_trigger now origin name force extra after db =
     trigger_spec now name force extra after (map_option fst origin)
       (case origin of None \<Rightarrow> None | Some (_, t) \<Rightarrow> if t \<noteq> 0 then Some t else None) db"

end
