(* ===== verification/Cron_Stream.thy ===== *)
theory Cron_Stream
  imports Complex_Main Text
begin

text \<open>
  The output stream of a cron run (\<^verbatim>\<open>bot/src/cron.rs\<close>): the guest writes one JSON value
  per line and ends with a result event.  The reader stops at that event and says
  whether the run succeeded; the rest reads the reply, or the reason of a failure,
  out of the collected lines.  The parser of JSON and the decoding of a reply are
  parameters.
\<close>

section \<open>JSON values\<close>

datatype cc_value =
    VNull | VBool bool | VInt int | VFloat rat | VText chars | VList "cc_value list" | VObj "(string \<times> cc_value) list"

type_synonym line_parser = "chars \<Rightarrow> cc_value option"

fun field :: "string \<Rightarrow> cc_value \<Rightarrow> cc_value option" where
  "field k (VObj fs) = map_of fs k"
| "field k _ = None"

fun as_text :: "cc_value \<Rightarrow> chars option" where
  "as_text (VText s) = Some s" | "as_text _ = None"

fun as_bool :: "cc_value \<Rightarrow> bool option" where
  "as_bool (VBool b) = Some b" | "as_bool _ = None"

fun as_i64 :: "cc_value \<Rightarrow> int option" where
  "as_i64 (VInt i) = (if in_i64 i then Some i else None)" | "as_i64 _ = None"

fun as_u64 :: "cc_value \<Rightarrow> int option" where
  "as_u64 (VInt i) = (if 0 \<le> i \<and> i < 2 ^ 64 then Some i else None)" | "as_u64 _ = None"

fun as_f64 :: "cc_value \<Rightarrow> rat option" where
  "as_f64 (VFloat x) = Some x" | "as_f64 (VInt i) = Some (of_int i)" | "as_f64 _ = None"

definition text_field :: "string \<Rightarrow> cc_value \<Rightarrow> chars option" where
  "text_field k v = Option.bind (field k v) as_text"

section \<open>Result events\<close>

definition is_result_line :: "cc_value \<Rightarrow> bool" where
  "is_result_line v = (text_field ''type'' v = Some (text_chars ''result''))"

definition is_error_flag :: "cc_value \<Rightarrow> bool" where
  "is_error_flag v = (Option.bind (field ''is_error'' v) as_bool = Some True)"

definition terminal_result_is_error :: "line_parser \<Rightarrow> chars \<Rightarrow> bool option" where
  "terminal_result_is_error js l =
     (case js l of
        None \<Rightarrow> None
      | Some v \<Rightarrow>
          if \<not> is_result_line v \<or> (field ''parent_tool_use_id'' v \<noteq> None \<and> field ''parent_tool_use_id'' v \<noteq> Some VNull)
          then None else Some (is_error_flag v))"

definition result_value :: "line_parser \<Rightarrow> chars \<Rightarrow> cc_value option" where
  "result_value js l = (case js l of Some v \<Rightarrow> if is_result_line v then Some v else None | None \<Rightarrow> None)"

definition find_last_result_line :: "line_parser \<Rightarrow> chars list \<Rightarrow> chars option" where
  "find_last_result_line js ls = find (\<lambda>l. result_value js l \<noteq> None) (rev ls)"

definition parse_result_stats :: "line_parser \<Rightarrow> chars list \<Rightarrow> (chars \<times> int \<times> rat) option" where
  "parse_result_stats js ls =
     Option.bind (find_last_result_line js ls) (\<lambda>l. Option.bind (js l) (\<lambda>v.
       Some (case text_field ''result'' v of Some t \<Rightarrow> t | None \<Rightarrow> [],
             case Option.bind (field ''num_turns'' v) as_u64 of Some n \<Rightarrow> n mod 2 ^ 32 | None \<Rightarrow> 0,
             case Option.bind (field ''total_cost_usd'' v) as_f64 of Some c \<Rightarrow> c | None \<Rightarrow> 0)))"

section \<open>Reading the stream\<close>

datatype stream_read = ReadLine chars | ReadFailed

datatype stream_outcome = StreamSuccess "chars list" | StreamFailed "chars list"

fun collected :: "stream_outcome \<Rightarrow> chars list" where
  "collected (StreamSuccess ls) = ls" | "collected (StreamFailed ls) = ls"

text \<open>The loop: what the reads so far have collected, and the flag of the terminal result.\<close>

fun consume_loop :: "line_parser \<Rightarrow> stream_read list \<Rightarrow> chars list \<Rightarrow> chars list \<times> bool option" where
  "consume_loop js [] acc = (acc, None)"
| "consume_loop js (ReadFailed # rs) acc = (acc, None)"
| "consume_loop js (ReadLine l # rs) acc =
     (case terminal_result_is_error js l of
        Some e \<Rightarrow> (acc @ [l], Some e)
      | None \<Rightarrow> consume_loop js rs (acc @ [l]))"

definition consume_cron_lines :: "line_parser \<Rightarrow> stream_read list \<Rightarrow> stream_outcome" where
  "consume_cron_lines js rs =
     (case consume_loop js rs [] of
        (ls, Some False) \<Rightarrow> StreamSuccess ls
      | (ls, _) \<Rightarrow> StreamFailed ls)"

section \<open>The reply\<close>

text \<open>The content of a notification and its files are opaque here.\<close>

datatype 'c delivery_decision = Notify 'c | Silent chars

fun silent_reason :: "'c delivery_decision \<Rightarrow> chars option" where
  "silent_reason (Silent r) = Some r" | "silent_reason (Notify _) = None"

record 'c cron_reply =
  cr_delivery :: "'c delivery_decision"
  cr_run_note :: chars

text \<open>The decoding of a reply and the validation of its content.\<close>

record 'c reply_lib =
  rl_decode :: "cc_value \<Rightarrow> string + 'c cron_reply"
  rl_valid_content :: "'c \<Rightarrow> string + unit"

fun validate_delivery :: "'c reply_lib \<Rightarrow> 'c delivery_decision \<Rightarrow> string + unit" where
  "validate_delivery lib (Notify c) = rl_valid_content lib c"
| "validate_delivery lib (Silent r) = ensure (trim_chars r \<noteq> []) ''empty silent reason''"

definition result_envelope :: "line_parser \<Rightarrow> chars list \<Rightarrow> cc_value option" where
  "result_envelope js ls = (case List.map_filter (result_value js) (rev ls) of [] \<Rightarrow> None | v # _ \<Rightarrow> Some v)"

definition result_payload :: "cc_value \<Rightarrow> string + cc_value" where
  "result_payload v =
     (case field ''structured_output'' v of
        Some so \<Rightarrow> Ok (if so \<noteq> VNull then so else (case field ''result'' v of Some r \<Rightarrow> r | None \<Rightarrow> so))
      | None \<Rightarrow>
          (case field ''result'' v of
             Some r \<Rightarrow> Ok r
           | None \<Rightarrow> Err ''result line has neither structured_output nor result field''))"

definition parse_cron_output :: "line_parser \<Rightarrow> 'c reply_lib \<Rightarrow> chars list \<Rightarrow> string + 'c cron_reply" where
  "parse_cron_output js lib ls =
     (case result_envelope js ls of
        None \<Rightarrow> Err ''no result line found in stream-json output''
      | Some v \<Rightarrow>
          bind_result (result_payload v) (\<lambda>payload.
          bind_result (rl_decode lib payload) (\<lambda>reply.
          bind_result (validate_delivery lib (cr_delivery reply)) (\<lambda>_. Ok reply))))"

section \<open>Failures\<close>

text \<open>The two decimals of \<open>{c:.2}\<close>, halves to even.\<close>

definition cents :: "rat \<Rightarrow> int" where
  "cents x = (let q = \<lfloor>100 * x\<rfloor>; f = 100 * x - of_int q in
     if f < 1 / 2 then q else if f > 1 / 2 then q + 1 else if even q then q else q + 1)"

definition fixed2 :: "rat \<Rightarrow> chars" where
  "fixed2 x = (let c = cents \<bar>x\<bar> in
     (if x < 0 then [45] else []) @ text_of_int (c div 100) @ [46, 48 + nat (c mod 100 div 10), 48 + nat (c mod 10)])"

datatype failure_message =
    Overloaded | RateLimited | ServerError int | Rejected int | TurnLimit | EndedWith chars | EndedWithError

record failure_classification =
  fc_user_message :: failure_message
  fc_detail :: chars

definition failure_message_of :: "int option \<Rightarrow> chars \<Rightarrow> chars \<Rightarrow> failure_message" where
  "failure_message_of api_status subtype result_text =
     (case api_status of
        Some s \<Rightarrow> if s = 529 \<or> s = 503 then Overloaded else if s = 429 then RateLimited
                  else if 500 \<le> s \<and> s < 600 then ServerError s else Rejected s
      | None \<Rightarrow> if subtype = text_chars ''error_max_turns'' then TurnLimit
                else if result_text \<noteq> [] then EndedWith result_text else EndedWithError)"

definition failure_detail_of :: "int option \<Rightarrow> chars \<Rightarrow> chars \<Rightarrow> chars" where
  "failure_detail_of api_status subtype result_text =
     (case api_status of
        Some s \<Rightarrow> text_chars ''api_error_status='' @ text_of_int s @
           (if result_text \<noteq> [] then text_chars ''; result='' @ result_text else text_chars ''; subtype='' @ subtype)
      | None \<Rightarrow> text_chars ''subtype='' @ subtype @
           (if result_text \<noteq> [] then text_chars ''; result='' @ result_text else []))"

definition classify_failed_result :: "line_parser \<Rightarrow> chars list \<Rightarrow> failure_classification option" where
  "classify_failed_result js ls =
     Option.bind (find_last_result_line js ls) (\<lambda>l. Option.bind (js l) (\<lambda>v.
       if \<not> is_error_flag v then None
       else (let api_status = Option.bind (field ''api_error_status'' v) as_i64;
                 subtype = (case text_field ''subtype'' v of Some s \<Rightarrow> s | None \<Rightarrow> []);
                 result_text = trim_chars (case text_field ''result'' v of Some t \<Rightarrow> t | None \<Rightarrow> [])
             in Some \<lparr>fc_user_message = failure_message_of api_status subtype result_text,
                      fc_detail = failure_detail_of api_status subtype result_text\<rparr>)))"

definition subtype_detail :: "chars \<Rightarrow> rat option \<Rightarrow> chars" where
  "subtype_detail subtype spent =
     (let cost = (case spent of Some c \<Rightarrow> text_chars '' (spent $'' @ fixed2 c @ text_chars '')'' | None \<Rightarrow> [])
      in if subtype = text_chars ''error_max_budget_usd'' then text_chars ''max budget exceeded'' @ cost
         else if subtype = text_chars ''error_max_turns'' then text_chars ''max turns reached''
         else subtype @ cost)"

definition terminal_failure_detail :: "line_parser \<Rightarrow> chars \<Rightarrow> chars option" where
  "terminal_failure_detail js l =
     Option.bind (result_value js l) (\<lambda>v.
       case text_field ''result'' v of
         Some t \<Rightarrow> if t \<noteq> [] then Some t
                   else if \<not> is_error_flag v then None
                   else Some (subtype_detail (case text_field ''subtype'' v of Some s \<Rightarrow> s | None \<Rightarrow> text_chars ''error'')
                                (Option.bind (field ''total_cost_usd'' v) as_f64))
       | None \<Rightarrow> if \<not> is_error_flag v then None
                 else Some (subtype_detail (case text_field ''subtype'' v of Some s \<Rightarrow> s | None \<Rightarrow> text_chars ''error'')
                              (Option.bind (field ''total_cost_usd'' v) as_f64)))"

datatype failure_kind = BudgetExceeded rat | MaxTurns nat | NonZeroExit int | StructuredOutputLoop nat

definition classify_cron_failure :: "int option \<Rightarrow> chars \<Rightarrow> rat \<Rightarrow> nat option \<Rightarrow> failure_kind" where
  "classify_cron_failure exit_code raw_detail budget max_turns =
     (let lower = map lower_cp raw_detail in
      if has_text ''max budget'' lower \<or> has_text ''budget exceeded'' lower then BudgetExceeded budget
      else if has_text ''max turns'' lower \<or> has_text ''turn limit'' lower
      then MaxTurns (case max_turns of Some n \<Rightarrow> n | None \<Rightarrow> 0)
      else NonZeroExit (case exit_code of Some c \<Rightarrow> c | None \<Rightarrow> - 1))"

definition skip_reflection_decision ::
  "line_parser \<Rightarrow> chars list \<Rightarrow> failure_kind \<Rightarrow> failure_classification option option" where
  "skip_reflection_decision js ls kind =
     (case classify_failed_result js ls of
        Some c \<Rightarrow> Some (Some c)
      | None \<Rightarrow> (case kind of BudgetExceeded _ \<Rightarrow> Some None | _ \<Rightarrow> None))"

text \<open>The reason of a failure: the result event, or what the guest wrote to its error stream.\<close>

definition raw_failure_detail :: "line_parser \<Rightarrow> chars list \<Rightarrow> chars \<Rightarrow> chars" where
  "raw_failure_detail js ls stderr =
     (case Option.bind (find_last_result_line js ls) (terminal_failure_detail js) of
        Some d \<Rightarrow> d | None \<Rightarrow> stderr)"

section \<open>What the stream promises\<close>

definition stream_lines :: "stream_read list \<Rightarrow> chars list" where
  "stream_lines rs = map (\<lambda>r. case r of ReadLine l \<Rightarrow> l | ReadFailed \<Rightarrow> []) (takeWhile (\<lambda>r. r \<noteq> ReadFailed) rs)"

text \<open>The reference: the lines up to and with the first terminal result, and its flag.\<close>

definition upto_terminal :: "line_parser \<Rightarrow> chars list \<Rightarrow> chars list \<times> bool option" where
  "upto_terminal js ls =
     (let before = takeWhile (\<lambda>l. terminal_result_is_error js l = None) ls;
          rest = dropWhile (\<lambda>l. terminal_result_is_error js l = None) ls
      in case rest of [] \<Rightarrow> (before, None) | l # _ \<Rightarrow> (before @ [l], terminal_result_is_error js l))"

lemma stream_lines_simps [simp]:
  "stream_lines [] = []" "stream_lines (ReadFailed # rs) = []" "stream_lines (ReadLine l # rs) = l # stream_lines rs"
  by (simp_all add: stream_lines_def)

lemma upto_terminal_simps [simp]:
  "upto_terminal js [] = ([], None)"
  "upto_terminal js (l # ls) =
     (case terminal_result_is_error js l of
        Some e \<Rightarrow> ([l], Some e) | None \<Rightarrow> apfst ((#) l) (upto_terminal js ls))"
  by (auto simp: upto_terminal_def Let_def dropWhile_eq_Nil_conv[symmetric] simp del: dropWhile_eq_Nil_conv
      split: option.splits list.splits)

lemma consume_loop_eq: "consume_loop js rs acc = apfst ((@) acc) (upto_terminal js (stream_lines rs))"
  by (induction js rs acc rule: consume_loop.induct)
    (auto simp: apfst_def map_prod_def split: option.splits prod.splits)

lemma terminal_is_result: "terminal_result_is_error js l = Some e \<Longrightarrow> \<exists>v. result_value js l = Some v \<and> is_error_flag v = e"
  by (auto simp: terminal_result_is_error_def result_value_def split: option.splits if_splits)

lemma upto_terminal_end:
  "upto_terminal js ls = (xs, Some e) \<Longrightarrow> \<exists>ys l zs. xs = ys @ [l] \<and> terminal_result_is_error js l = Some e \<and> ls = ys @ l # zs"
proof (induction ls arbitrary: xs)
  case (Cons x ls)
  show ?case
  proof (cases "terminal_result_is_error js x")
    case None
    then obtain xs' where "upto_terminal js ls = (xs', Some e)" "xs = x # xs'"
      using Cons.prems by (cases "upto_terminal js ls") auto
    then show ?thesis using Cons.IH by (metis append_Cons)
  next
    case (Some e')
    then have "xs = [] @ [x] \<and> e' = e \<and> x # ls = [] @ x # ls" using Cons.prems by simp
    then show ?thesis using Some by blast
  qed
qed simp

lemma upto_terminal_None: "upto_terminal js ls = (xs, None) \<Longrightarrow> xs = ls"
proof (induction ls arbitrary: xs)
  case (Cons x ls)
  then show ?case by (cases "upto_terminal js ls") (auto split: option.splits)
qed simp

lemma last_result:
  "terminal_result_is_error js l = Some e \<Longrightarrow> find_last_result_line js (ys @ [l]) = Some l"
  "terminal_result_is_error js l = Some e \<Longrightarrow> result_envelope js (ys @ [l]) = result_value js l"
  using terminal_is_result[of js l e] by (auto simp: find_last_result_line_def result_envelope_def map_filter_simps)

text \<open>The reader collects the lines up to and with the first top-level result event (all of them
  when there is none before the stream ends or fails) and no line after it; the run succeeded
  exactly when that event is not an error; and the reply and the reason of a failure are taken from
  that very event, whatever results of nested agents came before it.\<close>

theorem stream_ends_at_its_result:
  "(consume_cron_lines js rs =
      (case upto_terminal js (stream_lines rs) of (ls, Some False) \<Rightarrow> StreamSuccess ls | (ls, _) \<Rightarrow> StreamFailed ls)) \<and>
   (case upto_terminal js (stream_lines rs) of
      (ls, None) \<Rightarrow> ls = stream_lines rs
    | (ls, Some e) \<Rightarrow> (\<exists>ys l zs v. ls = ys @ [l] \<and> stream_lines rs = ys @ l # zs \<and>
         terminal_result_is_error js l = Some e \<and> result_value js l = Some v \<and>
         find_last_result_line js ls = Some l \<and> result_envelope js ls = Some v))"
proof -
  have "consume_cron_lines js rs =
      (case upto_terminal js (stream_lines rs) of (ls, Some False) \<Rightarrow> StreamSuccess ls | (ls, _) \<Rightarrow> StreamFailed ls)"
    by (cases "upto_terminal js (stream_lines rs)") (simp add: consume_cron_lines_def consume_loop_eq)
  moreover have "ls = stream_lines rs" if "upto_terminal js (stream_lines rs) = (ls, None)" for ls
    using upto_terminal_None[OF that] .
  moreover have "\<exists>ys l zs v. ls = ys @ [l] \<and> stream_lines rs = ys @ l # zs \<and> terminal_result_is_error js l = Some e \<and>
      result_value js l = Some v \<and> find_last_result_line js ls = Some l \<and> result_envelope js ls = Some v"
    if u: "upto_terminal js (stream_lines rs) = (ls, Some e)" for ls e
  proof -
    obtain ys l zs where y: "ls = ys @ [l]" "terminal_result_is_error js l = Some e" "stream_lines rs = ys @ l # zs"
      using upto_terminal_end[OF u] by blast
    obtain v where "result_value js l = Some v" using terminal_is_result[OF y(2)] by blast
    then show ?thesis using y last_result[OF y(2), of ys] by auto
  qed
  ultimately show ?thesis by (auto split: prod.splits option.splits)
qed

text \<open>The run's failure classes, told apart by the reason the result event gives.\<close>

lemma budget_text:
  "map lower_cp (text_chars ''max budget exceeded'') = text_chars ''max budget'' @ text_chars '' exceeded''"
  by code_simp

lemma budget_detail_class:
  "classify_cron_failure code (subtype_detail (text_chars ''error_max_budget_usd'') spent) budget turns = BudgetExceeded budget"
proof -
  obtain rest where "map lower_cp (subtype_detail (text_chars ''error_max_budget_usd'') spent) = text_chars ''max budget'' @ rest"
    by (simp add: subtype_detail_def budget_text)
  then have "has_text ''max budget'' (map lower_cp (subtype_detail (text_chars ''error_max_budget_usd'') spent))"
    using has_text_infix[of "''max budget''" "[]" rest] by simp
  then show ?thesis by (simp add: classify_cron_failure_def)
qed

lemma turns_detail:
  "classify_cron_failure code (text_chars ''max turns reached'') budget turns =
     MaxTurns (case turns of Some n \<Rightarrow> n | None \<Rightarrow> 0)"
proof -
  have "\<not> has_text ''max budget'' (map lower_cp (text_chars ''max turns reached''))"
    "\<not> has_text ''budget exceeded'' (map lower_cp (text_chars ''max turns reached''))"
    "has_text ''max turns'' (map lower_cp (text_chars ''max turns reached''))" by code_simp+
  then show ?thesis by (simp add: classify_cron_failure_def)
qed

lemma turns_subtype: "subtype_detail (text_chars ''error_max_turns'') spent = text_chars ''max turns reached''"
proof -
  have "text_chars ''error_max_turns'' \<noteq> text_chars ''error_max_budget_usd''" by code_simp
  then show ?thesis by (simp add: subtype_detail_def)
qed

lemma last_result_value: "find_last_result_line js ls = Some l \<Longrightarrow> js l = Some v \<Longrightarrow> result_value js l = Some v"
proof -
  assume f: "find_last_result_line js ls = Some l" and v: "js l = Some v"
  have "result_value js l \<noteq> None" using f by (auto simp: find_last_result_line_def find_Some_iff)
  then show ?thesis using v by (auto simp: result_value_def split: if_splits)
qed

text \<open>A run that the guest ended with an error result gets no reflection turn; and although such
  a result carries no text, a used-up budget and a turn limit are recognised as what they are.\<close>

theorem limits_are_recognised:
  assumes "find_last_result_line js ls = Some l" and "js l = Some v" and "is_error_flag v" and "text_field ''result'' v = None"
  shows "skip_reflection_decision js ls kind \<noteq> None \<and>
    classify_cron_failure code (raw_failure_detail js ls stderr) budget turns =
      (if text_field ''subtype'' v = Some (text_chars ''error_max_budget_usd'') then BudgetExceeded budget
       else if text_field ''subtype'' v = Some (text_chars ''error_max_turns'') then MaxTurns (case turns of Some n \<Rightarrow> n | None \<Rightarrow> 0)
       else classify_cron_failure code
         (subtype_detail (case text_field ''subtype'' v of Some s \<Rightarrow> s | None \<Rightarrow> text_chars ''error'')
           (Option.bind (field ''total_cost_usd'' v) as_f64)) budget turns)"
proof -
  have "raw_failure_detail js ls stderr = subtype_detail (case text_field ''subtype'' v of Some s \<Rightarrow> s | None \<Rightarrow> text_chars ''error'')
           (Option.bind (field ''total_cost_usd'' v) as_f64)"
    using assms last_result_value[OF assms(1,2)] by (simp add: raw_failure_detail_def terminal_failure_detail_def)
  moreover have "skip_reflection_decision js ls kind \<noteq> None"
    using assms by (simp add: skip_reflection_decision_def classify_failed_result_def Let_def)
  ultimately show ?thesis by (simp add: budget_detail_class turns_subtype turns_detail)
qed

definition budget_event :: cc_value where
  "budget_event = VObj [(''type'', VText (text_chars ''result'')), (''subtype'', VText (text_chars ''error_max_budget_usd'')),
     (''is_error'', VBool True), (''total_cost_usd'', VFloat (208122 / 100000))]"

theorem limits_are_recognised_witness:
  "\<exists>js. find_last_result_line js [[1], [2]] = Some [2] \<and>
     classify_cron_failure None (raw_failure_detail js [[1], [2]] []) 5 None = BudgetExceeded 5"
proof -
  let ?js = "\<lambda>l. if l = [2] then Some budget_event else None"
  have f: "text_field ''type'' budget_event = Some (text_chars ''result'')"
      "text_field ''subtype'' budget_event = Some (text_chars ''error_max_budget_usd'')"
      "is_error_flag budget_event" "text_field ''result'' budget_event = None"
    by (simp_all add: budget_event_def text_field_def is_error_flag_def)
  then have l: "find_last_result_line ?js [[1], [2]] = Some [2]"
    by (simp add: find_last_result_line_def result_value_def is_result_line_def)
  from limits_are_recognised[OF l _ f(3,4), of kind None "[]" 5 None] l f show ?thesis
    by (intro exI[of _ ?js]) simp
qed

text \<open>The notice of such a run does not say so: the classified message knows HTTP errors and turn
  limits, and an error result is always classified, so the branch that would report the budget is
  not reached.\<close>

lemma budget_notice_is_generic:
  "find_last_result_line js ls = Some l \<Longrightarrow> js l = Some budget_event \<Longrightarrow>
   \<exists>c. skip_reflection_decision js ls (BudgetExceeded b) = Some (Some c) \<and> fc_user_message c = EndedWithError"
proof -
  assume a: "find_last_result_line js ls = Some l" "js l = Some budget_event"
  have e: "is_error_flag budget_event" "text_field ''result'' budget_event = None" "field ''api_error_status'' budget_event = None"
    "text_field ''subtype'' budget_event = Some (text_chars ''error_max_budget_usd'')"
    by (simp_all add: budget_event_def text_field_def is_error_flag_def)
  have s: "text_chars ''error_max_budget_usd'' \<noteq> text_chars ''error_max_turns''" by code_simp
  show ?thesis using a e s
    by (simp add: skip_reflection_decision_def classify_failed_result_def failure_message_of_def Let_def trim_chars_def)
qed

lemma cents_example: "fixed2 (208122 / 100000) = text_chars ''2.08''"
  by code_simp

end
