(* ===== verification/Rich_Content.thy ===== *)
theory Rich_Content
  imports Text
begin

text \<open>
  Rich content, the message format agents answer in (\<^verbatim>\<open>right-rich-content/src/lib.rs\<close>):
  the document, its validation, its plain text, and the cutting into parts
  that Telegram accepts.  The parser of links is an argument; a list item
  and a table cell are the runs they hold.
\<close>

section \<open>The document\<close>

definition MAX_RICH_MESSAGE_UTF16 :: nat where "MAX_RICH_MESSAGE_UTF16 = 32768"
definition MAX_PLAIN_MESSAGE_UTF16 :: nat where "MAX_PLAIN_MESSAGE_UTF16 = 4096"

datatype mark = Bold | Italic | Strikethrough | CodeMark

record text_run =
  tr_text :: chars
  tr_marks :: "mark list option"
  tr_link :: "chars option"

datatype block =
    Paragraph "text_run list"
  | Heading nat "text_run list"
  | ListBlock bool "text_run list list"
  | Quote "text_run list"
  | CodeBlock chars "chars option"
  | Table "text_run list list list"

datatype rich_content = TextContent chars | BlocksContent "block list"

datatype validation_error =
    EmptyContent | SourceTextTooLong | HeadingLevel | EmptyList | EmptyTable | NonRectangularTable
  | DuplicateMark | InvalidCodeMark | InvalidLink

definition plain_run :: "chars \<Rightarrow> text_run" where
  "plain_run t = \<lparr>tr_text = t, tr_marks = None, tr_link = None\<rparr>"

section \<open>Plain text\<close>

definition utf16_units :: "nat \<Rightarrow> nat" where "utf16_units c = (if c < 0x10000 then 1 else 2)"
definition utf16_len :: "chars \<Rightarrow> nat" where "utf16_len s = sum_list (map utf16_units s)"

definition trim_end :: "chars \<Rightarrow> chars" where "trim_end s = rev (dropWhile is_uni_ws (rev s))"

text \<open>\<^verbatim>\<open>str::lines\<close>: a line ends with LF or CR LF, and nothing follows the last end.\<close>

definition strip_cr :: "chars \<Rightarrow> chars" where
  "strip_cr l = (if l \<noteq> [] \<and> last l = 13 then butlast l else l)"

fun line_loop :: "chars \<Rightarrow> chars \<Rightarrow> chars list" where
  "line_loop cur [] = (if cur = [] then [] else [cur])"
| "line_loop cur (c # cs) = (if c = 10 then strip_cr cur # line_loop [] cs else line_loop (cur @ [c]) cs)"

fun join_with :: "chars \<Rightarrow> chars list \<Rightarrow> chars" where
  "join_with sep [] = []"
| "join_with sep [x] = x"
| "join_with sep (x # y # ys) = x @ sep @ join_with sep (y # ys)"

definition normalize_text :: "chars \<Rightarrow> chars" where
  "normalize_text t = trim_chars (join_with [10] (map trim_end (line_loop [] t)))"

definition runs_text :: "text_run list \<Rightarrow> chars" where
  "runs_text rs = normalize_text (concat (map tr_text rs))"

definition list_prefix :: "bool \<Rightarrow> nat \<Rightarrow> chars" where
  "list_prefix ordered i = (if ordered then text_of_nat (i + 1) @ text_chars ''. '' else text_chars ''- '')"

primrec block_text :: "block \<Rightarrow> chars" where
  "block_text (Paragraph rs) = runs_text rs"
| "block_text (Heading l rs) = runs_text rs"
| "block_text (ListBlock ordered items) =
     join_with [10] (map (\<lambda>(i, rs). list_prefix ordered i @ runs_text rs) (enumerate 0 items))"
| "block_text (Quote rs) = runs_text rs"
| "block_text (CodeBlock t lang) = normalize_text t"
| "block_text (Table rows) = join_with [10] (map (\<lambda>row. join_with [9] (map runs_text row)) rows)"

definition normalized_blocks :: "block list \<Rightarrow> chars" where
  "normalized_blocks bs = join_with [10, 10] (filter (\<lambda>t. t \<noteq> []) (map block_text bs))"

primrec normalized_text :: "rich_content \<Rightarrow> chars" where
  "normalized_text (TextContent t) = normalize_text t"
| "normalized_text (BlocksContent bs) = normalized_blocks bs"

section \<open>Validation\<close>

text \<open>What the URL parser says of a link: its scheme and whether it has a host.\<close>

type_synonym link_parser = "chars \<Rightarrow> (chars \<times> bool) option"

definition require_visible :: "chars \<Rightarrow> validation_error + unit" where
  "require_visible t = ensure (trim_chars t \<noteq> []) EmptyContent"

definition validate_source_text :: "chars \<Rightarrow> validation_error + unit" where
  "validate_source_text t =
     bind_result (require_visible t) (\<lambda>_. ensure (utf16_len t \<le> MAX_RICH_MESSAGE_UTF16) SourceTextTooLong)"

definition validate_link :: "link_parser \<Rightarrow> chars \<Rightarrow> validation_error + unit" where
  "validate_link links l =
     (case links l of
        None \<Rightarrow> Err InvalidLink
      | Some (scheme, host) \<Rightarrow>
          let web = (scheme = text_chars ''http'' \<or> scheme = text_chars ''https'') in
          if \<not> web \<and> scheme \<noteq> text_chars ''tg'' then Err InvalidLink
          else ensure (web \<longrightarrow> host) InvalidLink)"

definition run_marks :: "text_run \<Rightarrow> mark list" where
  "run_marks r = (case tr_marks r of Some ms \<Rightarrow> ms | None \<Rightarrow> [])"

definition validate_run :: "link_parser \<Rightarrow> text_run \<Rightarrow> validation_error + unit" where
  "validate_run links r =
     bind_result (require_visible (tr_text r)) (\<lambda>_.
     bind_result (ensure (distinct (run_marks r)) DuplicateMark) (\<lambda>_.
     bind_result (ensure (\<not> (CodeMark \<in> set (run_marks r) \<and> (length (run_marks r) \<noteq> 1 \<or> tr_link r \<noteq> None))) InvalidCodeMark) (\<lambda>_.
     case tr_link r of None \<Rightarrow> Ok () | Some l \<Rightarrow> validate_link links l)))"

text \<open>The first error of a list of checks.\<close>

fun all_ok :: "('a \<Rightarrow> 'e + unit) \<Rightarrow> 'a list \<Rightarrow> 'e + unit" where
  "all_ok f [] = Ok ()"
| "all_ok f (x # xs) = bind_result (f x) (\<lambda>_. all_ok f xs)"

definition validate_runs :: "link_parser \<Rightarrow> bool \<Rightarrow> text_run list \<Rightarrow> validation_error + unit" where
  "validate_runs links allow_empty rs =
     bind_result (ensure (allow_empty \<or> rs \<noteq> []) EmptyContent) (\<lambda>_.
     bind_result (all_ok (validate_run links) rs) (\<lambda>_.
     if allow_empty then Ok () else require_visible (runs_text rs)))"

fun validate_block :: "link_parser \<Rightarrow> block \<Rightarrow> validation_error + unit" where
  "validate_block links (Paragraph rs) = validate_runs links False rs"
| "validate_block links (Heading level rs) =
     bind_result (ensure (1 \<le> level \<and> level \<le> 3) HeadingLevel) (\<lambda>_. validate_runs links False rs)"
| "validate_block links (ListBlock ordered items) =
     bind_result (ensure (items \<noteq> []) EmptyList) (\<lambda>_. all_ok (validate_runs links False) items)"
| "validate_block links (Quote rs) = validate_runs links False rs"
| "validate_block links (CodeBlock t lang) = validate_source_text t"
| "validate_block links (Table rows) =
     (case rows of [] \<Rightarrow> Err EmptyTable
      | row # _ \<Rightarrow>
          bind_result (ensure (row \<noteq> []) EmptyTable) (\<lambda>_.
          bind_result (ensure (list_all (\<lambda>r. length r = length row) rows) NonRectangularTable) (\<lambda>_.
          all_ok (validate_runs links True) (concat rows))))"

primrec validate_content :: "link_parser \<Rightarrow> rich_content \<Rightarrow> validation_error + unit" where
  "validate_content links (TextContent t) = validate_source_text t"
| "validate_content links (BlocksContent bs) =
     bind_result (ensure (bs \<noteq> []) EmptyContent) (\<lambda>_.
     bind_result (all_ok (validate_block links) bs) (\<lambda>_. require_visible (normalized_blocks bs)))"

text \<open>The value read from JSON is converted field by field, then validated.\<close>

definition accept_content :: "link_parser \<Rightarrow> rich_content \<Rightarrow> validation_error + rich_content" where
  "accept_content links raw = bind_result (validate_content links raw) (\<lambda>_. Ok raw)"

section \<open>Cutting\<close>

text \<open>One step of the loop over the characters: the chunk so far is closed when it shows something,
  else it is reduced to its last separator.\<close>

definition make_room :: "nat \<Rightarrow> nat \<Rightarrow> chars list \<times> chars \<times> nat \<times> bool \<Rightarrow> chars list \<times> chars \<times> nat \<times> bool" where
  "make_room max_units c st =
     (case st of (chunks, cur, units, visible) \<Rightarrow>
        if max_units < units + utf16_units c then
          (if visible then (chunks @ [cur], [], 0, False)
           else if cur = [] then st
           else (chunks, [last cur], utf16_units (last cur), visible))
        else st)"

fun split_loop :: "nat \<Rightarrow> chars \<Rightarrow> chars list \<times> chars \<times> nat \<times> bool \<Rightarrow> chars list" where
  "split_loop max_units [] (chunks, cur, units, visible) = (if visible then chunks @ [cur] else chunks)"
| "split_loop max_units (c # cs) st =
     (case make_room max_units c st of (chunks, cur, units, visible) \<Rightarrow>
        split_loop max_units cs (chunks, cur @ [c], units + utf16_units c, visible \<or> \<not> is_uni_ws c))"

definition split_visible_utf16 :: "chars \<Rightarrow> nat \<Rightarrow> chars list" where
  "split_visible_utf16 t max_units = split_loop max_units t ([], [], 0, False)"

text \<open>The blocks of one message, collected until the next one does not fit.\<close>

definition push_block_batch :: "rich_content list \<Rightarrow> block list \<Rightarrow> rich_content list" where
  "push_block_batch parts batch = (if batch = [] then parts else parts @ [BlocksContent batch])"

fun split_block_loop :: "block list \<Rightarrow> rich_content list \<Rightarrow> block list \<Rightarrow> nat \<Rightarrow> rich_content list" where
  "split_block_loop [] parts batch units = push_block_batch parts batch"
| "split_block_loop (b # bs) parts batch units =
     (let text = block_text b; n = utf16_len text in
      if MAX_RICH_MESSAGE_UTF16 < n then
        split_block_loop bs
          (push_block_batch parts batch @ map TextContent (split_visible_utf16 text MAX_RICH_MESSAGE_UTF16)) [] 0
      else
        (let separator = (if batch = [] then 0 else 2);
             (parts', batch', units') =
               (if batch \<noteq> [] \<and> MAX_RICH_MESSAGE_UTF16 < units + separator + n
                then (push_block_batch parts batch, [], 0) else (parts, batch, units))
         in split_block_loop bs parts' (batch' @ [b]) (units' + (if batch' = [] then 0 else 2) + n)))"

definition split_blocks :: "block list \<Rightarrow> rich_content list" where
  "split_blocks bs = split_block_loop (filter (\<lambda>b. block_text b \<noteq> []) bs) [] [] 0"

primrec delivery_parts :: "rich_content \<Rightarrow> rich_content list" where
  "delivery_parts (TextContent t) = map TextContent (split_visible_utf16 (normalize_text t) MAX_RICH_MESSAGE_UTF16)"
| "delivery_parts (BlocksContent bs) = split_blocks bs"

section \<open>Texts of the platform\<close>

definition platform_blocks :: "chars \<Rightarrow> block list" where
  "platform_blocks t = map (\<lambda>chunk. Paragraph [plain_run chunk]) (split_visible_utf16 (normalize_text t) MAX_RICH_MESSAGE_UTF16)"

definition platform_text :: "chars \<Rightarrow> validation_error + rich_content" where
  "platform_text t = bind_result (require_visible (normalize_text t)) (\<lambda>_. Ok (BlocksContent (platform_blocks t)))"

fun insert_platform_paragraph :: "chars \<Rightarrow> bool \<Rightarrow> rich_content \<Rightarrow> rich_content" where
  "insert_platform_paragraph t prepend (TextContent s) =
     (let agent = Paragraph [plain_run s] in
      BlocksContent (if prepend then platform_blocks t @ [agent] else agent # platform_blocks t))"
| "insert_platform_paragraph t prepend (BlocksContent bs) =
     BlocksContent (if prepend then platform_blocks t @ bs else bs @ platform_blocks t)"

definition literal :: "link_parser \<Rightarrow> chars \<Rightarrow> validation_error + rich_content" where
  "literal links t = accept_content links (TextContent t)"

definition paragraph_content :: "link_parser \<Rightarrow> chars \<Rightarrow> validation_error + rich_content" where
  "paragraph_content links t = accept_content links (BlocksContent [Paragraph [plain_run t]])"

end
