(* ===== verification/Cron_Engine.thy ===== *)
theory Cron_Engine
  imports Cron_Spec Cron_Stream Rich_Content
begin

text \<open>
  The cron engine of the bot (\<^verbatim>\<open>bot/src/cron.rs\<close>): the lock of a job, what a triggered run
  is told and what follows it, the reconciliation of the job loops with the table,
  and one execution of a job from its lock to its ledger row.
\<close>

section \<open>Locks\<close>

text \<open>\<^verbatim>\<open>chrono::Duration\<close> counts milliseconds in 64 bits; its constructors panic out of range.\<close>

definition secs_duration :: "int \<Rightarrow> millis run" where
  "secs_duration s = (if \<bar>s\<bar> \<le> (2 ^ 63 - 1) div 1000 then Done (1000 * s) else Panics)"

fun bind_run :: "'a run \<Rightarrow> ('a \<Rightarrow> 'b run) \<Rightarrow> 'b run" where
  "bind_run (Done x) f = f x"
| "bind_run Panics f = Panics"

text \<open>An unreadable text is \<open>None\<close>.\<close>

definition parse_lock_ttl :: "chars \<Rightarrow> millis option run" where
  "parse_lock_ttl s =
     (if s \<noteq> [] \<and> last s = 109
      then (case parse_i64 (trim_chars (butlast s)) of
              None \<Rightarrow> Done None | Some n \<Rightarrow> bind_run (secs_duration (60 * n)) (\<lambda>d. Done (Some d)))
      else if s \<noteq> [] \<and> last s = 104
      then (case parse_i64 (trim_chars (butlast s)) of
              None \<Rightarrow> Done None | Some n \<Rightarrow> bind_run (secs_duration (3600 * n)) (\<lambda>d. Done (Some d)))
      else Done None)"

text \<open>The lock files: a heartbeat, or a file without one.\<close>

type_synonym lock_files = "chars \<rightharpoonup> millis option"

definition is_lock_fresh :: "lock_files \<Rightarrow> chars \<Rightarrow> chars \<Rightarrow> millis \<Rightarrow> bool run" where
  "is_lock_fresh locks job ttl_text now =
     (case locks job of
        Some (Some heartbeat) \<Rightarrow>
          bind_run (parse_lock_ttl ttl_text) (\<lambda>ttl.
            Done (now - heartbeat < (case ttl of Some t \<Rightarrow> t | None \<Rightarrow> secs (30 * 60))))
      | _ \<Rightarrow> Done False)"

definition effective_lock_ttl :: "cron_spec \<Rightarrow> chars" where
  "effective_lock_ttl spec =
     (case sp_lock_ttl spec of
        Some ttl \<Rightarrow> ttl
      | None \<Rightarrow> if sp_schedule_kind spec = Immediate then IMMEDIATE_DEFAULT_LOCK_TTL else text_chars ''30m'')"

section \<open>A triggered run\<close>

definition resolve_cron_model :: "cron_spec \<Rightarrow> chars option \<Rightarrow> chars option" where
  "resolve_cron_model spec global = (case sp_model spec of Some m \<Rightarrow> Some m | None \<Rightarrow> global)"

definition wrap_system_notice :: "chars \<Rightarrow> chars \<Rightarrow> chars" where
  "wrap_system_notice token body =
     [0x27E8, 0x27E8] @ text_chars ''SYSTEM_NOTICE:'' @ token @ [0x27E9, 0x27E9, 10] @ body @
     [10, 0x27E8, 0x27E8] @ text_chars ''/SYSTEM_NOTICE:'' @ token @ [0x27E9, 0x27E9]"

definition FORCE_NOTICE :: chars where
  "FORCE_NOTICE = text_chars ''Manual verification trigger: always emit delivery.kind=\"notify\" with a complete report of what you found; do not go silent.''"

definition join_comma :: "chars list \<Rightarrow> chars" where
  "join_comma ss = (case ss of [] \<Rightarrow> [] | s # r \<Rightarrow> s @ concat (map (\<lambda>x. [44, 32] @ x) r))"

definition compose_run_prompt :: "chars \<Rightarrow> bool \<Rightarrow> chars option \<Rightarrow> chars \<Rightarrow> chars list \<Rightarrow> chars" where
  "compose_run_prompt prompt force extra token skills =
     (if force then wrap_system_notice token FORCE_NOTICE @ [10, 10] else []) @
     (case extra of
        Some e \<Rightarrow> if trim_chars e \<noteq> []
                  then wrap_system_notice token (text_chars ''Extra instruction for this run only: '' @ e) @ [10, 10] else []
      | None \<Rightarrow> []) @
     prompt @
     (if skills = [] then []
      else [10, 10] @ text_chars ''## Linked skills'' @ [10] @
           text_chars ''Linked skills for this job '' @ [0x2014] @
           text_chars '' use them via the Skill tool as appropriate: '' @ join_comma skills @ [10])"

record then_action =
  ta_chat :: int
  ta_thread :: "int option"
  ta_prompt :: chars

definition or_else :: "'a option \<Rightarrow> 'a option \<Rightarrow> 'a option" where
  "or_else a b = (case a of Some x \<Rightarrow> Some x | None \<Rightarrow> b)"

definition then_prompt :: "then_spec \<Rightarrow> chars" where
  "then_prompt t =
     (if th_notify t
      then [0x27E8, 0x27E8] @ text_chars ''SYSTEM_NOTICE'' @ [0x27E9, 0x27E9] @
           text_chars '' Scheduled follow-up of the job you just ran. Always emit delivery.kind=\"notify\" with a complete report. '' @
           [0x27E8, 0x27E8] @ text_chars ''/SYSTEM_NOTICE'' @ [0x27E9, 0x27E9, 10, 10] @ th_instruction t
      else th_instruction t)"

definition resolve_then_action :: "cron_spec \<Rightarrow> bool \<Rightarrow> then_action option" where
  "resolve_then_action spec success =
     (case sp_then spec of
        None \<Rightarrow> None
      | Some t \<Rightarrow>
          if \<not> fires_on (th_run_on t) success then None
          else (case or_else (th_chat t) (or_else (sp_origin_chat spec) (sp_chat spec)) of
                  None \<Rightarrow> None
                | Some chat \<Rightarrow>
                    let thread = (if th_chat t \<noteq> None then th_thread t
                                  else if sp_origin_chat spec \<noteq> None then sp_origin_thread spec
                                  else sp_thread spec)
                    in Some \<lparr>ta_chat = chat, ta_thread = (if thread = Some 0 then None else thread),
                             ta_prompt = then_prompt t\<rparr>))"

section \<open>Reconciliation\<close>

definition is_reconcile_tick_kind :: "schedule_kind \<Rightarrow> bool" where
  "is_reconcile_tick_kind k = (k = Immediate)"

fun is_run_job_loop_skip_kind :: "schedule_kind \<Rightarrow> bool" where
  "is_run_job_loop_skip_kind (RunAt _) = True"
| "is_run_job_loop_skip_kind Immediate = True"
| "is_run_job_loop_skip_kind _ = False"

text \<open>An execution that was spawned; a one-shot one deletes its job when it ends, however it ends.\<close>

record spawned =
  xs_job :: chars
  xs_spec :: cron_spec
  xs_model :: "chars option"
  xs_deletes_job :: bool

text \<open>A job loop is known by a number; aborted numbers are collected.\<close>

record engine =
  en_handles :: "(chars \<times> cron_spec \<times> nat) list"
  en_next :: nat
  en_aborted :: "nat list"
  en_spawned :: "spawned list"

definition new_engine :: engine where
  "new_engine = \<lparr>en_handles = [], en_next = 0, en_aborted = [], en_spawned = []\<rparr>"

record reconcile_env =
  re_lib :: cron_lib
  re_now :: millis
  re_listed :: bool
  re_cleared :: "chars \<Rightarrow> bool"
  re_locks :: lock_files
  re_model :: "chars option"

fun fire_one_shot_specs :: "reconcile_env \<Rightarrow> (chars \<times> cron_spec) list \<Rightarrow> engine \<Rightarrow> engine run" where
  "fire_one_shot_specs env [] st = Done st"
| "fire_one_shot_specs env ((name, spec) # ss) st =
     bind_run (is_lock_fresh (re_locks env) name (effective_lock_ttl spec) (re_now env)) (\<lambda>fresh.
       fire_one_shot_specs env ss
         (if fresh then st
          else st\<lparr>en_spawned := en_spawned st @
                 [\<lparr>xs_job = name, xs_spec = spec, xs_model = resolve_cron_model spec (re_model env), xs_deletes_job = True\<rparr>]\<rparr>))"

definition stale_handle :: "(chars \<times> cron_spec) list \<Rightarrow> chars \<times> cron_spec \<times> nat \<Rightarrow> bool" where
  "stale_handle specs h =
     (case h of (name, old, _) \<Rightarrow>
        (case map_of specs name of None \<Rightarrow> True | Some new \<Rightarrow> \<not> same_config new old))"

definition abort_stale :: "(chars \<times> cron_spec) list \<Rightarrow> engine \<Rightarrow> engine" where
  "abort_stale specs st =
     st\<lparr>en_handles := filter (\<lambda>h. \<not> stale_handle specs h) (en_handles st),
        en_aborted := en_aborted st @ map (snd \<circ> snd) (filter (stale_handle specs) (en_handles st))\<rparr>"

fun spawn_loops :: "(chars \<times> cron_spec) list \<Rightarrow> engine \<Rightarrow> engine" where
  "spawn_loops [] st = st"
| "spawn_loops ((name, spec) # ss) st =
     spawn_loops ss
       (if is_run_job_loop_skip_kind (sp_schedule_kind spec) \<or> name \<in> set (map fst (en_handles st)) then st
        else st\<lparr>en_handles := en_handles st @ [(name, spec, en_next st)], en_next := en_next st + 1\<rparr>)"

text \<open>The triggers; a lost request to clear one leaves it for the next tick.\<close>

fun fire_triggers :: "reconcile_env \<Rightarrow> (chars \<times> cron_spec) list \<Rightarrow> engine \<Rightarrow> cron_db \<Rightarrow> (engine \<times> cron_db) run" where
  "fire_triggers env [] st db = Done (st, db)"
| "fire_triggers env ((name, spec) # ss) st db =
     (if sp_triggered_at spec = None \<or> \<not> re_cleared env name then fire_triggers env ss st db
      else bind_run (is_lock_fresh (re_locks env) name (effective_lock_ttl spec) (re_now env)) (\<lambda>fresh.
        fire_triggers env ss
          (if fresh then st
           else st\<lparr>en_spawned := en_spawned st @
                  [\<lparr>xs_job = name, xs_spec = spec, xs_model = resolve_cron_model spec (re_model env), xs_deletes_job = False\<rparr>]\<rparr>)
          (clear_triggered_at name db)))"

definition overdue :: "millis \<Rightarrow> cron_spec \<Rightarrow> bool" where
  "overdue now spec = (case sp_schedule_kind spec of RunAt dt \<Rightarrow> dt \<le> now | _ \<Rightarrow> False)"

definition reconcile_jobs :: "reconcile_env \<Rightarrow> engine \<Rightarrow> cron_db \<Rightarrow> (engine \<times> cron_db) run" where
  "reconcile_jobs env st db =
     (if \<not> re_listed env then Done (st, db)
      else (case load_specs_ipc (re_lib env) (cd_specs db) of
              Err _ \<Rightarrow> Done (st, db)
            | Ok specs \<Rightarrow>
                bind_run (fire_one_shot_specs env (filter (\<lambda>(_, s). overdue (re_now env) s) specs) st) (\<lambda>st.
                bind_run (fire_one_shot_specs env (filter (\<lambda>(_, s). is_reconcile_tick_kind (sp_schedule_kind s)) specs) st) (\<lambda>st.
                fire_triggers env specs (spawn_loops specs (abort_stale specs st)) db))))"

text \<open>One firing of a job loop: the snapshot it was started with is executed; a one-shot schedule ends
  the loop.\<close>

definition loop_fires :: "chars \<Rightarrow> cron_spec \<Rightarrow> chars option \<Rightarrow> spawned \<times> bool" where
  "loop_fires name spec global =
     (\<lparr>xs_job = name, xs_spec = spec, xs_model = resolve_cron_model spec global,
       xs_deletes_job = is_one_shot (sp_schedule_kind spec)\<rparr>, \<not> is_one_shot (sp_schedule_kind spec))"

section \<open>One execution\<close>

text \<open>How the calls of an execution end.  A run is driven by \<open>je_reads\<close>; \<open>je_timed_out\<close> says that the
  wall clock ended it first.\<close>

record 'c job_env =
  je_now :: millis
  je_started_at :: string
  je_finished_at :: string
  je_locks_writable :: bool
  je_client :: bool
  je_call :: "ledger_op \<Rightarrow> call"
  je_request_id :: "ledger \<Rightarrow> chars"
  je_run_id :: chars
  je_registered :: bool
  je_notice_token :: "chars option"
  je_skills :: "chars list option"
  je_spawned :: bool
  je_timed_out :: bool
  je_reads :: "stream_read list"
  je_exit :: "int option"
  je_stderr :: chars
  je_json :: line_parser
  je_reply :: "'c reply_lib"
  je_notify_json :: "'c \<Rightarrow> chars option"
  je_silent_json :: "chars \<Rightarrow> chars option"
  je_notice_json :: "chars \<Rightarrow> chars option"
  je_error_json :: "string \<Rightarrow> chars \<Rightarrow> chars"
  je_failure_json :: "failure_classification option option \<Rightarrow> chars \<Rightarrow> chars option"

record exec_state =
  xe_ledger :: ledger
  xe_locks :: lock_files
  xe_then :: "then_action list"

text \<open>A request to the owner, and whether the execution learns that it succeeded.\<close>

definition ask :: "'c job_env \<Rightarrow> ledger_op \<Rightarrow> exec_state \<Rightarrow> bool \<times> exec_state" where
  "ask env op st =
     (case run_ledger op (xe_ledger st) of (r, db) \<Rightarrow>
        (case je_call env op of
           Answered \<Rightarrow> (is_ok r, st\<lparr>xe_ledger := db\<rparr>)
         | AnswerLost \<Rightarrow> (False, st\<lparr>xe_ledger := db\<rparr>)
         | NeverSent \<Rightarrow> (False, st)))"

definition remove_lock :: "chars \<Rightarrow> exec_state \<Rightarrow> exec_state" where
  "remove_lock job st = st\<lparr>xe_locks := (xe_locks st)(job := None)\<rparr>"

definition update_run_record :: "'c job_env \<Rightarrow> string \<Rightarrow> int option \<Rightarrow> exec_state \<Rightarrow> exec_state" where
  "update_run_record env status code st =
     snd (ask env (FinishRun (je_request_id env (xe_ledger st)) (je_run_id env) code status (je_finished_at env)) st)"

definition persist_request_of ::
  "'c job_env \<Rightarrow> chars option \<Rightarrow> chars option \<Rightarrow> chars option \<Rightarrow> bool \<Rightarrow> string \<Rightarrow> exec_state \<Rightarrow> ledger_op" where
  "persist_request_of env run_note delivery err required status st =
     PersistRunOutput \<lparr>pq_request_id = je_request_id env (xe_ledger st), pq_run_id = je_run_id env,
       pq_output = \<lparr>ro_run_note = run_note, ro_delivery_json = delivery, ro_error_json = err, ro_delivery_required = required\<rparr>,
       pq_exit_code = je_exit env, pq_status = status\<rparr> (je_finished_at env)"

definition follow_up :: "cron_spec \<Rightarrow> bool \<Rightarrow> exec_state \<Rightarrow> exec_state" where
  "follow_up spec success st =
     st\<lparr>xe_then := xe_then st @ (case resolve_then_action spec success of Some a \<Rightarrow> [a] | None \<Rightarrow> [])\<rparr>"

text \<open>What a decision is stored as: a forced run that stays silent stores its reason as a notice,
  when that is a valid content.\<close>

definition verification_notice :: "chars \<Rightarrow> chars" where
  "verification_notice reason =
     text_chars ''Verification run '' @ [0x2014] @ text_chars '' nothing to report. '' @ reason"

definition reply_json ::
  "'c job_env \<Rightarrow> cron_spec \<Rightarrow> 'c delivery_decision \<Rightarrow> validation_error + chars option" where
  "reply_json env spec d =
     (case d of
        Notify c \<Rightarrow> Ok (je_notify_json env c)
      | Silent r \<Rightarrow>
          if sp_trigger_force_notify spec
          then bind_result (validate_source_text (verification_notice r)) (\<lambda>_. Ok (je_notice_json env (verification_notice r)))
          else Ok (je_silent_json env r))"

text \<open>When the notice cannot be built, the execution returns at once.\<close>

definition finish_success :: "'c job_env \<Rightarrow> cron_spec \<Rightarrow> 'c cron_reply \<Rightarrow> exec_state \<Rightarrow> exec_state" where
  "finish_success env spec reply st =
     (case reply_json env spec (cr_delivery reply) of
        Err _ \<Rightarrow> st
      | Ok None \<Rightarrow> update_run_record env ''failed'' (je_exit env) st
      | Ok (Some json) \<Rightarrow>
          let required = (silent_reason (cr_delivery reply) = None \<or> sp_trigger_force_notify spec);
              (ok, st1) = ask env (persist_request_of env (Some (cr_run_note reply)) (Some json) None required ''success'' st) st
          in if ok then follow_up spec True st1
             else update_run_record env ''failed'' (je_exit env) st1)"

definition finish_unparsed :: "'c job_env \<Rightarrow> cron_spec \<Rightarrow> string \<Rightarrow> exec_state \<Rightarrow> exec_state" where
  "finish_unparsed env spec reason st =
     (let (ok, st1) = ask env (persist_request_of env None None (Some (je_error_json env ''cron_parse_failed'' (text_chars reason))) False ''failed'' st) st;
          st2 = (if ok then st1 else update_run_record env ''failed'' (je_exit env) st1)
      in follow_up spec False st2)"

definition finish_failed :: "'c job_env \<Rightarrow> cron_spec \<Rightarrow> chars list \<Rightarrow> exec_state \<Rightarrow> exec_state" where
  "finish_failed env spec ls st =
     (let st1 = update_run_record env ''failed'' (je_exit env) st;
          detail = raw_failure_detail (je_json env) ls (je_stderr env);
          kind = classify_cron_failure (je_exit env) detail (sp_max_budget_usd spec) None;
          skip = skip_reflection_decision (je_json env) ls kind;
          st2 = (case je_failure_json env skip detail of
                   None \<Rightarrow> st1
                 | Some json \<Rightarrow>
                     snd (ask env (persist_request_of env (Some (take 200 detail)) (Some json) (Some (je_error_json env ''cron_failed'' detail)) True
                            ''failed'' st1) st1))
      in follow_up spec False st2)"

definition run_stream :: "'c job_env \<Rightarrow> stream_outcome" where
  "run_stream env = (if je_timed_out env then StreamFailed [] else consume_cron_lines (je_json env) (je_reads env))"

definition finish_job :: "'c job_env \<Rightarrow> cron_spec \<Rightarrow> exec_state \<Rightarrow> exec_state" where
  "finish_job env spec st =
     (case run_stream env of
        StreamFailed ls \<Rightarrow> finish_failed env spec ls st
      | StreamSuccess ls \<Rightarrow>
          (case parse_cron_output (je_json env) (je_reply env) ls of
             Ok reply \<Rightarrow> finish_success env spec reply st
           | Err reason \<Rightarrow> finish_unparsed env spec reason st))"

text \<open>The preparation after the row exists; the error paths end the row as failed and drop the lock.\<close>

definition prepared :: "'c job_env \<Rightarrow> bool" where
  "prepared env = (je_registered env \<and> je_notice_token env \<noteq> None \<and> je_skills env \<noteq> None \<and> je_spawned env)"

definition execute_job :: "'c job_env \<Rightarrow> chars \<Rightarrow> cron_spec \<Rightarrow> exec_state \<Rightarrow> exec_state run" where
  "execute_job env job spec st =
     bind_run (is_lock_fresh (xe_locks st) job (effective_lock_ttl spec) (je_now env)) (\<lambda>fresh.
       if fresh \<or> \<not> je_locks_writable env then Done st
       else (let st1 = st\<lparr>xe_locks := (xe_locks st)(job \<mapsto> Some (je_now env))\<rparr> in
         if \<not> je_client env then Done (remove_lock job st1)
         else (case ask env (CronInsertRunningRun (je_request_id env (xe_ledger st1))
                       \<lparr>nc_id = je_run_id env, nc_job_name = job, nc_started_at = je_started_at env, nc_log_path = text_chars ''/sandbox/crons/logs/'' @ job @ [45] @ je_run_id env @ text_chars ''.ndjson'',
                        nc_chat = sp_chat spec, nc_thread = sp_thread spec, nc_force_notify = False\<rparr>) st1 of
                 (False, st2) \<Rightarrow> Done (remove_lock job st2)
               | (True, st2) \<Rightarrow>
                   if \<not> prepared env then Done (remove_lock job (update_run_record env ''failed'' None st2))
                   else Done (finish_job env spec (remove_lock job st2)))))"

end
