(* ===== verification/Cron_Spec_Props.thy ===== *)
theory Cron_Spec_Props
  imports Cron_Spec Run_Ledger_Props
begin

text \<open>
  What the jobs promise: every job the tools accepted can be loaded again, as what
  was asked for; a change of the target reaches the results that still wait; and
  a refused creation leaves no trace.
\<close>

section \<open>Well-formed jobs\<close>

text \<open>In the grammar of cron expressions the sign @ only opens a nickname that is a whole
  expression of its own, so none of the five fields starts with it.\<close>

definition cron_lib_ok :: "cron_lib \<Rightarrow> bool" where
  "cron_lib_ok lib = (\<forall>s. cl_minutes lib (to_7field s) \<noteq> None \<longrightarrow> take 1 (trim_chars s) \<noteq> [64])"

definition schedule_fires :: "cron_lib \<Rightarrow> cron_row \<Rightarrow> bool" where
  "schedule_fires lib r =
     (cs_run_at r = None \<longrightarrow> cs_schedule r \<noteq> IMMEDIATE_SENTINEL \<longrightarrow> cl_minutes lib (to_7field (cs_schedule r)) \<noteq> None)"

lemma schedule_fires_cong [simp]:
  "schedule_fires lib (r\<lparr>cs_prompt := p\<rparr>) = schedule_fires lib r"
  "schedule_fires lib (r\<lparr>cs_lock_ttl := t\<rparr>) = schedule_fires lib r"
  "schedule_fires lib (r\<lparr>cs_max_budget_usd := b\<rparr>) = schedule_fires lib r"
  "schedule_fires lib (r\<lparr>cs_chat := c\<rparr>) = schedule_fires lib r"
  "schedule_fires lib (r\<lparr>cs_thread := c\<rparr>) = schedule_fires lib r"
  "schedule_fires lib (r\<lparr>cs_model := m\<rparr>) = schedule_fires lib r"
  by (simp_all add: schedule_fires_def)

lemma validated_fires: "validate_schedule lib s = Ok w \<Longrightarrow> \<exists>ms. cl_minutes lib (to_7field s) = Some ms"
  by (auto simp: validate_schedule_def split: if_splits option.splits)

definition row_ok :: "cron_lib \<Rightarrow> cron_row \<Rightarrow> bool" where
  "row_ok lib r =
     (is_ok (validate_job_name (cs_job_name r)) \<and> is_ok (row_kind lib r) \<and> schedule_fires lib r \<and> is_ok (validate_prompt (cs_prompt r)) \<and>
      is_ok (validate_opt_ttl (cs_lock_ttl r)) \<and> 0 < cs_max_budget_usd r \<and> cs_then_json r \<noteq> Some None \<and>
      cs_recurring r \<in> {0, 1})"

definition specs_ok :: "cron_lib \<Rightarrow> cron_db \<Rightarrow> bool" where
  "specs_ok lib db = (list_all (row_ok lib) (cd_specs db) \<and> distinct (map cs_job_name (cd_specs db)))"

lemma trim_keeps_at: "take 1 s = [64] \<Longrightarrow> take 1 (trim_chars s) = [64]"
proof -
  assume "take 1 s = [64]"
  then obtain r where s: "s = 64 # r" by (cases s) auto
  have w: "\<not> is_uni_ws 64" by (simp add: is_uni_ws_def)
  then have "dropWhile is_uni_ws (rev r @ [64]) = dropWhile is_uni_ws (rev r) @ [64]"
    by (rule dropWhile_append3)
  then show ?thesis using w by (simp add: trim_chars_def s)
qed

lemma at_texts: "take 1 IMMEDIATE_SENTINEL = [64]" "take 1 BG_SENTINEL_PREFIX = [64]" "BG_SENTINEL_PREFIX \<noteq> []"
  by (simp_all add: IMMEDIATE_SENTINEL_def BG_SENTINEL_PREFIX_def text_chars_def)

lemma not_background:
  assumes "take 1 s \<noteq> [64]"
  shows "take (length BG_SENTINEL_PREFIX) s \<noteq> BG_SENTINEL_PREFIX" and "s \<noteq> IMMEDIATE_SENTINEL"
proof -
  have "take 1 (take (length BG_SENTINEL_PREFIX) s) = take 1 s"
    using at_texts(3) by (simp add: min_def) (meson Suc_leI length_greater_0_conv)
  then show "take (length BG_SENTINEL_PREFIX) s \<noteq> BG_SENTINEL_PREFIX" using assms at_texts(2) by metis
  show "s \<noteq> IMMEDIATE_SENTINEL" using assms at_texts(1) by blast
qed

lemma valid_schedule_reads:
  assumes "cron_lib_ok lib" and "validate_schedule lib s = Ok w"
  shows "from_db_row lib s None rec = Ok (if rec = 0 then OneShotCron s else Recurring s)"
proof -
  have "cl_minutes lib (to_7field s) \<noteq> None"
    using assms(2) by (auto simp: validate_schedule_def split: if_splits option.splits)
  then have "take 1 s \<noteq> [64]" using assms(1) trim_keeps_at by (auto simp: cron_lib_ok_def)
  then show ?thesis using not_background by simp
qed

lemma immediate_reads: "from_db_row lib IMMEDIATE_SENTINEL None rec = Ok Immediate"
proof -
  have "take (length BG_SENTINEL_PREFIX) IMMEDIATE_SENTINEL \<noteq> BG_SENTINEL_PREFIX" by code_simp
  then show ?thesis by simp
qed

definition asked_kind :: "cron_lib \<Rightarrow> chars option \<Rightarrow> bool option \<Rightarrow> chars option \<Rightarrow> schedule_kind option" where
  "asked_kind lib schedule recurring run_at =
     (case (schedule, run_at) of
        (Some s, _) \<Rightarrow> Some (if recurring = Some False then OneShotCron s else Recurring s)
      | (None, Some rat) \<Rightarrow> map_option RunAt (cl_parse_dt lib rat)
      | (None, None) \<Rightarrow> Some Immediate)"

lemma resolved_reads:
  assumes "cron_lib_ok lib" and "resolve_schedule_fields lib now schedule recurring run_at immediate = Ok (sched, rec, rat, w)"
  shows "rec \<in> {0, 1} \<and> (\<exists>k. asked_kind lib schedule recurring run_at = Some k \<and> from_db_row lib sched rat rec = Ok k) \<and>
    immediate = (schedule = None \<and> run_at = None)"
proof (cases schedule)
  case (Some s)
  then have "run_at = None" "\<not> immediate" using assms(2) by (cases run_at; cases immediate; simp)+
  then obtain v where "validate_schedule lib s = Ok v" "sched = s" "rat = None" "rec = (if recurring = Some False then 0 else 1)"
    using assms(2) Some by (auto simp: bind_result_Inr)
  then show ?thesis using valid_schedule_reads[OF assms(1), of s v rec] Some \<open>\<not> immediate\<close> by (simp add: asked_kind_def)
next
  case None
  show ?thesis
  proof (cases run_at)
    case (Some x)
    then have "\<not> immediate" using assms(2) None by (cases immediate) simp_all
    then show ?thesis using assms(2) None Some by (auto simp: asked_kind_def split: option.splits)
  next
    case r: None
    then have "immediate" using assms(2) None by (cases immediate) simp_all
    then show ?thesis using assms(2) None r immediate_reads[of lib rec] by (auto simp: asked_kind_def)
  qed
qed

lemma resolved_fires:
  assumes "resolve_schedule_fields lib now schedule recurring run_at immediate = Ok (sched, rec, rat, w)"
  shows "rat \<noteq> None \<or> sched = IMMEDIATE_SENTINEL \<or> (\<exists>ms. cl_minutes lib (to_7field sched) = Some ms)"
  using assms validated_fires
  by (cases "(lib, now, schedule, recurring, run_at, immediate)" rule: resolve_schedule_fields.cases)
    (auto simp: bind_result_Inr split: option.splits)

section \<open>Operations keep the jobs well formed\<close>

locale spec_writer =
  fixes op :: "cron_lib \<Rightarrow> cron_db \<Rightarrow> cron_error + cron_db"
  assumes keeps: "cron_lib_ok lib \<Longrightarrow> op lib db = Ok db' \<Longrightarrow> specs_ok lib db \<Longrightarrow> specs_ok lib db'"
begin

text \<open>A refused operation leaves the database as it is.\<close>

definition apply_op :: "cron_lib \<Rightarrow> cron_db \<Rightarrow> cron_db" where
  "apply_op lib db = (case op lib db of Ok db' \<Rightarrow> db' | Err _ \<Rightarrow> db)"

lemma apply_op_keeps: "cron_lib_ok lib \<Longrightarrow> specs_ok lib db \<Longrightarrow> specs_ok lib (apply_op lib db)"
  using keeps by (auto simp: apply_op_def split: sum.splits)

end

lemma insert_job_ok:
  assumes "insert_job r db = Ok db'" and "specs_ok lib db" and "row_ok lib r"
  shows "specs_ok lib db'"
  using assms by (auto simp: insert_job_def bind_result_Inr specs_ok_def has_job_def list_ex_iff list_all_iff) metis

lemma update_job_ok:
  assumes "specs_ok lib db" and "\<And>r. row_ok lib r \<Longrightarrow> row_ok lib (f r)" and "\<And>r. cs_job_name (f r) = cs_job_name r"
  shows "specs_ok lib (update_job name f db)"
  using assms by (auto simp: update_job_def specs_ok_def list_all_iff set_update_where update_where_key)

lemma default_budget: "is_ok (validate_budget b) \<Longrightarrow> 0 < budget_or_default b"
  by (auto simp: validate_budget_def budget_or_default_def DEFAULT_CRON_BUDGET_USD_def is_ok_iff split: option.splits)

lemma inputs_ok:
  assumes "validate_spec_inputs lib name schedule prompt ttl budget = Ok w"
  shows "is_ok (validate_job_name name)" "\<exists>v. validate_schedule lib schedule = Ok v"
    "is_ok (validate_prompt prompt)" "is_ok (validate_opt_ttl ttl)" "is_ok (validate_budget budget)"
  using assms by (auto simp: validate_spec_inputs_def bind_result_Inr is_ok_iff)

interpretation creating: spec_writer "\<lambda>lib. create_spec lib name schedule prompt ttl budget"
  for name schedule prompt ttl budget
proof
  fix lib db db'
  assume lib: "cron_lib_ok lib" and c: "create_spec lib name schedule prompt ttl budget db = Ok db'" and ok: "specs_ok lib db"
  then obtain w where w: "validate_spec_inputs lib name schedule prompt ttl budget = Ok w"
    and i: "insert_job (new_job_row name schedule prompt ttl (budget_or_default budget)) db = Ok db'"
    by (auto simp: create_spec_def bind_result_Inr)
  note v = inputs_ok[OF w]
  obtain u where "validate_schedule lib schedule = Ok u" using v(2) by blast
  then have "row_ok lib (new_job_row name schedule prompt ttl (budget_or_default budget))"
    using v default_budget[OF v(5)] valid_schedule_reads[OF lib] validated_fires
    by (auto simp: row_ok_def new_job_row_def row_kind_def schedule_fires_def)
  with i ok show "specs_ok lib db'" by (rule insert_job_ok)
qed

interpretation creating_v2: spec_writer
  "\<lambda>lib. create_spec_v2 lib now name schedule prompt ttl budget recurring run_at chat thread model immediate"
  for now name schedule prompt ttl budget recurring run_at chat thread model immediate
proof
  fix lib db db'
  assume lib: "cron_lib_ok lib" and ok: "specs_ok lib db"
    and c: "create_spec_v2 lib now name schedule prompt ttl budget recurring run_at chat thread model immediate db = Ok db'"
  then obtain sched rec rat w where v: "is_ok (validate_job_name name)" "is_ok (validate_prompt prompt)"
      "is_ok (validate_opt_ttl ttl)" "is_ok (validate_budget budget)"
    and r: "resolve_schedule_fields lib now schedule recurring run_at immediate = Ok (sched, rec, rat, w)"
    and i: "insert_job ((new_job_row name sched prompt ttl (budget_or_default budget))
       \<lparr>cs_recurring := rec, cs_run_at := rat, cs_chat := chat, cs_thread := thread, cs_model := model\<rparr>) db = Ok db'"
    by (auto simp: create_spec_v2_def bind_result_Inr is_ok_iff)
  have "row_ok lib ((new_job_row name sched prompt ttl (budget_or_default budget))
       \<lparr>cs_recurring := rec, cs_run_at := rat, cs_chat := chat, cs_thread := thread, cs_model := model\<rparr>)"
    using v default_budget[OF v(4)] resolved_reads[OF lib r] resolved_fires[OF r]
    by (auto simp: row_ok_def new_job_row_def row_kind_def schedule_fires_def simp del: from_db_row.simps)
  with i ok show "specs_ok lib db'" by (rule insert_job_ok)
qed

lemma read_after_schedule:
  "is_ok (from_db_row lib s rat rec) \<Longrightarrow> validate_schedule lib sched = Ok w \<Longrightarrow> cron_lib_ok lib \<Longrightarrow>
   is_ok (from_db_row lib sched rat rec)"
  using valid_schedule_reads[of lib sched w rec] by (cases rat) (auto split: option.splits)

interpretation updating: spec_writer "\<lambda>lib. update_spec lib name schedule prompt ttl budget"
  for name schedule prompt ttl budget
proof
  fix lib db db'
  assume lib: "cron_lib_ok lib" and c: "update_spec lib name schedule prompt ttl budget db = Ok db'" and ok: "specs_ok lib db"
  then obtain w where w: "validate_spec_inputs lib name schedule prompt ttl budget = Ok w"
    and db': "db' = update_job name (\<lambda>r. r\<lparr>cs_schedule := schedule, cs_prompt := prompt, cs_lock_ttl := ttl,
                              cs_max_budget_usd := budget_or_default budget\<rparr>) db"
    by (auto simp: update_spec_def bind_result_Inr)
  note v = inputs_ok[OF w]
  obtain u where u: "validate_schedule lib schedule = Ok u" using v(2) by blast
  show "specs_ok lib db'" unfolding db'
    by (rule update_job_ok[OF ok]) (use v default_budget[OF v(5)] read_after_schedule[OF _ u lib] validated_fires[OF u] in
        \<open>auto simp: row_ok_def row_kind_def schedule_fires_def\<close>)
qed

lemma opt_set_keeps: "P r \<Longrightarrow> (\<And>v. x = Some v \<Longrightarrow> P r \<Longrightarrow> P (f v r)) \<Longrightarrow> P (opt_set f x r)"
  by (cases x) (simp_all add: opt_set_def)

lemma row_ok_set:
  "row_ok lib r \<Longrightarrow> is_ok (validate_prompt p) \<Longrightarrow> row_ok lib (r\<lparr>cs_prompt := p\<rparr>)"
  "row_ok lib r \<Longrightarrow> is_ok (validate_lock_ttl t) \<Longrightarrow> row_ok lib (r\<lparr>cs_lock_ttl := Some t\<rparr>)"
  "row_ok lib r \<Longrightarrow> 0 < b \<Longrightarrow> row_ok lib (r\<lparr>cs_max_budget_usd := b\<rparr>)"
  "row_ok lib r \<Longrightarrow> row_ok lib (r\<lparr>cs_chat := c\<rparr>)" "row_ok lib r \<Longrightarrow> row_ok lib (r\<lparr>cs_thread := c\<rparr>)"
  "row_ok lib r \<Longrightarrow> row_ok lib (r\<lparr>cs_model := m\<rparr>)"
  by (simp_all add: row_ok_def row_kind_def validate_opt_ttl_def)

lemma set_fields_name [simp]: "cs_job_name (set_fields u r) = cs_job_name r"
  by (simp add: set_fields_def set_schedule_def opt_set_def split: option.splits)

lemma set_schedule_ok:
  assumes "cron_lib_ok lib" and "row_ok lib r"
    and "\<And>s. su_schedule u = Some s \<Longrightarrow> \<exists>w. validate_schedule lib s = Ok w"
    and "\<And>rat. su_run_at u = Some rat \<Longrightarrow> cl_parse_dt lib rat \<noteq> None"
  shows "row_ok lib (set_schedule u r)"
proof (cases "su_schedule u")
  case (Some s)
  obtain w where "validate_schedule lib s = Ok w" using assms(3)[OF Some] by blast
  from valid_schedule_reads[OF assms(1) this] validated_fires[OF this] show ?thesis
    using assms(2) Some by (auto simp: set_schedule_def row_ok_def row_kind_def schedule_fires_def)
next
  case None
  show ?thesis
  proof (cases "su_run_at u")
    case (Some rat)
    then show ?thesis using assms(2) assms(4)[OF Some] None
      by (auto simp: set_schedule_def row_ok_def row_kind_def schedule_fires_def)
  next
    case r: None
    show ?thesis
      using assms(2) None r
      by (cases "cs_run_at r") (auto simp: set_schedule_def row_ok_def row_kind_def schedule_fires_def opt_set_def split: option.splits)
  qed
qed

lemma validated_update:
  assumes "validate_update lib name u = Ok w"
  shows "su_schedule u = Some s \<Longrightarrow> \<exists>w. validate_schedule lib s = Ok w"
    and "su_run_at u = Some rat \<Longrightarrow> cl_parse_dt lib rat \<noteq> None"
    and "su_prompt u = Some p \<Longrightarrow> is_ok (validate_prompt p)"
    and "is_ok (validate_opt_ttl (su_lock_ttl u))" and "is_ok (validate_budget (su_budget u))"
  using assms by (auto simp: validate_update_def bind_result_Inr is_ok_iff split: option.splits)

lemma is_ok_ensure: "is_ok (ensure b e) = b" by (simp add: ensure_def)

lemma set_fields_ok:
  assumes lib: "cron_lib_ok lib" and r: "row_ok lib r" and v: "validate_update lib name u = Ok w"
  shows "row_ok lib (set_fields u r)"
proof -
  note d = validated_update[OF v]
  show ?thesis unfolding set_fields_def
    by (intro opt_set_keeps[where P = "row_ok lib"] set_schedule_ok[OF lib r d(1,2)])
      (use d(3-5) in \<open>auto intro!: row_ok_set simp: validate_opt_ttl_def validate_budget_def is_ok_ensure\<close>)
qed

lemma propagate_keeps_specs: "propagate_target name db = Ok db' \<Longrightarrow> cd_specs db' = cd_specs db"
  by (auto simp: propagate_target_def split: option.splits if_splits)

lemma specs_ok_specs: "cd_specs db' = cd_specs db \<Longrightarrow> specs_ok lib db' = specs_ok lib db"
  by (simp add: specs_ok_def)

interpretation updating_partial: spec_writer "\<lambda>lib. update_spec_partial lib name u" for name u
proof
  fix lib db db'
  assume lib: "cron_lib_ok lib" and c: "update_spec_partial lib name u db = Ok db'" and ok: "specs_ok lib db"
  then obtain w where v: "validate_update lib name u = Ok w"
    and s: "cd_specs db' = cd_specs (update_job name (set_fields u) db)"
    by (auto simp: update_spec_partial_def bind_result_Inr Let_def propagate_keeps_specs split: if_splits)
  have "specs_ok lib (update_job name (set_fields u) db)"
    by (rule update_job_ok[OF ok]) (auto intro: set_fields_ok[OF lib _ v])
  then show "specs_ok lib db'" using specs_ok_specs[OF s] by simp
qed

interpretation deleting: spec_writer "\<lambda>_. delete_spec name" for name
  by unfold_locales (auto simp: delete_spec_def bind_result_Inr specs_ok_def list_all_iff set_delete_where delete_where_distinct)

interpretation owner_deleting: spec_writer "\<lambda>_. cron_delete_spec name" for name
  by unfold_locales (auto simp: cron_delete_spec_def bind_result_Inr specs_ok_def list_all_iff set_delete_where delete_where_distinct)

interpretation triggering: spec_writer "\<lambda>_. trigger_spec now name force extra after chat thread"
  for now name force extra after chat thread
proof
  fix lib db db'
  assume "trigger_spec now name force extra after chat thread db = Ok db'" and ok: "specs_ok lib db"
  then have db': "db' = update_job name (\<lambda>r. r\<lparr>cs_triggered_at := Some now, cs_force_notify := force,
      cs_extra_instruction := extra, cs_then_json := map_option Some after, cs_origin_chat := chat,
      cs_origin_thread := thread\<rparr>) db"
    by (auto simp: trigger_spec_def bind_result_Inr)
  show "specs_ok lib db'" unfolding db'
    by (rule update_job_ok[OF ok]) (auto simp: row_ok_def row_kind_def schedule_fires_def)
qed

interpretation clearing: spec_writer "\<lambda>_ db. Ok (clear_triggered_at name db)" for name
proof
  fix lib db db'
  assume "Ok (clear_triggered_at name db) = (Ok db' :: cron_error + cron_db)" and ok: "specs_ok lib db"
  then have db': "db' = clear_triggered_at name db" by simp
  show "specs_ok lib db'" unfolding db' clear_triggered_at_def
    by (rule update_job_ok[OF ok]) (auto simp: row_ok_def row_kind_def schedule_fires_def)
qed

section \<open>Every history of the jobs\<close>

datatype cron_request =
    CreateV1 chars chars chars "chars option" "rat option"
  | CreateV2 int chars "chars option" chars "chars option" "rat option" "bool option" "chars option" "int option"
      "int option" "chars option" bool
  | Update chars chars chars "chars option" "rat option"
  | UpdatePartial chars spec_update
  | Delete chars | OwnerDelete chars
  | Trigger chars chars bool "chars option" "then_spec option" "int option" "int option"
  | Clear chars

fun cron_op :: "cron_lib \<Rightarrow> cron_request \<Rightarrow> cron_db \<Rightarrow> cron_error + cron_db" where
  "cron_op lib (CreateV1 n s p t b) = create_spec lib n s p t b"
| "cron_op lib (CreateV2 now n s p t b rec rat c th m imm) = create_spec_v2 lib now n s p t b rec rat c th m imm"
| "cron_op lib (Update n s p t b) = update_spec lib n s p t b"
| "cron_op lib (UpdatePartial n u) = update_spec_partial lib n u"
| "cron_op lib (Delete n) = delete_spec n"
| "cron_op lib (OwnerDelete n) = cron_delete_spec n"
| "cron_op lib (Trigger now n f e a c th) = trigger_spec now n f e a c th"
| "cron_op lib (Clear n) = (\<lambda>db. Ok (clear_triggered_at n db))"

fun cron_history :: "cron_lib \<Rightarrow> cron_request list \<Rightarrow> cron_db \<Rightarrow> cron_db" where
  "cron_history lib [] db = db"
| "cron_history lib (op # ops) db =
     cron_history lib ops (case cron_op lib op db of Ok db' \<Rightarrow> db' | Err _ \<Rightarrow> db)"

lemma cron_op_keeps: "cron_lib_ok lib \<Longrightarrow> cron_op lib op db = Ok db' \<Longrightarrow> specs_ok lib db \<Longrightarrow> specs_ok lib db'"
  by (cases op)
    (auto dest: creating.keeps creating_v2.keeps updating.keeps updating_partial.keeps deleting.keeps
      owner_deleting.keeps triggering.keeps intro: clearing.keeps)

lemma cron_history_ok: "cron_lib_ok lib \<Longrightarrow> specs_ok lib db \<Longrightarrow> specs_ok lib (cron_history lib ops db)"
proof (induction ops arbitrary: db)
  case (Cons op ops)
  then show ?case using cron_op_keeps[of lib op db] by (auto split: sum.splits)
qed simp

lemma row_ok_dto:
  assumes "row_ok lib r"
  shows "\<exists>k. row_kind lib r = Ok k \<and>
    cron_spec_from_dto lib r = Ok (cs_job_name r, spec_of_row k (Option.bind (cs_then_json r) id) r)"
proof -
  obtain k where k: "row_kind lib r = Ok k" using assms by (auto simp: row_ok_def is_ok_iff)
  have "(if cs_recurring r \<noteq> 0 then 1 else 0) = cs_recurring r" using assms by (auto simp: row_ok_def)
  then show ?thesis using assms k
    by (auto simp: cron_spec_from_dto_def row_kind_def row_ok_def split: option.splits simp del: from_db_row.simps)
qed

lemma rows_ok_load:
  "list_all (row_ok lib) rs \<Longrightarrow> load_specs_ipc lib rs = Ok (load_specs_from_db lib rs) \<and>
     map fst (load_specs_from_db lib rs) = map cs_job_name rs"
proof (induction rs)
  case (Cons r rs)
  then show ?case using row_ok_dto[of lib r] by auto
qed simp

text \<open>What an accepted job looks like when the engine reads it.  A name starts with a small letter or
  a digit and holds only those and the hyphen; a lock time is a number of minutes or hours; a budget is
  positive; a prompt has a character that is not white space; and an expression parses.\<close>

definition admissible_name :: "chars \<Rightarrow> bool" where
  "admissible_name n =
     (n \<noteq> [] \<and> n ! 0 \<noteq> 45 \<and> set n \<subseteq> set (text_chars ''abcdefghijklmnopqrstuvwxyz0123456789-''))"

definition admissible_lock_time :: "chars \<Rightarrow> bool" where
  "admissible_lock_time t =
     (\<exists>number unit i. t = number @ unit \<and> (unit = text_chars ''m'' \<or> unit = text_chars ''h'') \<and> parse_i64 number = Some i)"

definition admissible_job :: "cron_lib \<Rightarrow> chars \<times> cron_spec \<Rightarrow> bool" where
  "admissible_job lib =
     (\<lambda>(name, spec). admissible_name name \<and>
        (\<forall>s. sp_schedule_kind spec = Recurring s \<or> sp_schedule_kind spec = OneShotCron s \<longrightarrow>
             (\<exists>minutes. cl_minutes lib (text_chars ''0 '' @ trim_chars s @ text_chars '' *'') = Some minutes)) \<and>
        (\<exists>c \<in> set (sp_prompt spec). \<not> is_uni_ws c) \<and>
        (\<forall>t. sp_lock_ttl spec = Some t \<longrightarrow> admissible_lock_time t) \<and>
        0 < sp_max_budget_usd spec)"

lemma valid_name_admissible:
  assumes "is_ok (validate_job_name n)"
  shows "admissible_name n"
proof (cases n)
  case (Cons c cs)
  have f: "find (\<lambda>c. \<not> is_name_char c) n = None" and "c \<noteq> 45"
    using assms Cons by (auto simp: validate_job_name_def split: if_splits option.splits)
  have "set (text_chars ''abcdefghijklmnopqrstuvwxyz0123456789-'') = set ([97..<123] @ [48..<58] @ [45])"
    by code_simp
  also have "\<dots> = {97..<123} \<union> {48..<58} \<union> {45}" unfolding set_append set_upt by auto
  finally have ch: "k \<in> set (text_chars ''abcdefghijklmnopqrstuvwxyz0123456789-'')" if "is_name_char k" for k
    using that by (auto simp: is_name_char_def is_digit_cp_def)
  have "\<forall>k \<in> set n. is_name_char k" using f by (simp add: find_None_iff)
  then show ?thesis using Cons ch \<open>c \<noteq> 45\<close> unfolding admissible_name_def by auto
qed (use assms in \<open>simp add: validate_job_name_def\<close>)

lemma valid_lock_time_admissible:
  assumes "is_ok (validate_lock_ttl t)"
  shows "admissible_lock_time t"
proof -
  have t: "t \<noteq> []" "last t = 109 \<or> last t = 104" "parse_i64 (butlast t) \<noteq> None"
    using assms by (auto simp: validate_lock_ttl_def split: if_splits option.splits)
  have "t = butlast t @ [last t]" using t(1) by simp
  moreover have "[109] = text_chars ''m''" "[104] = text_chars ''h''" by (simp_all add: text_chars_def)
  ultimately show ?thesis using t(2,3) unfolding admissible_lock_time_def by (metis option.exhaust)
qed

lemma valid_prompt_has_text: "is_ok (validate_prompt p) \<Longrightarrow> \<exists>c \<in> set p. \<not> is_uni_ws c"
  by (rule ccontr) (auto simp: validate_prompt_def is_ok_ensure trim_chars_def dropWhile_eq_Nil_conv[THEN iffD2])

lemma row_ok_admissible:
  assumes "row_ok lib r" and "row_kind lib r = Ok k"
  shows "admissible_job lib (cs_job_name r, spec_of_row k after r)"
proof -
  have "\<exists>minutes. cl_minutes lib (to_7field s) = Some minutes" if "k = Recurring s \<or> k = OneShotCron s" for s
    using assms that by (cases "cs_run_at r") (auto simp: row_ok_def row_kind_def schedule_fires_def split: option.splits if_splits)
  then show ?thesis using assms valid_name_admissible valid_lock_time_admissible valid_prompt_has_text
    by (auto simp: admissible_job_def spec_of_row_def row_ok_def validate_opt_ttl_def to_7field_def)
qed

lemma rows_ok_admissible:
  "list_all (row_ok lib) rs \<Longrightarrow> x \<in> set (load_specs_from_db lib rs) \<Longrightarrow> admissible_job lib x"
  by (induction rs) (auto simp: row_ok_admissible split: sum.splits)

text \<open>C18: Whatever the tools, the engine and the dashboard did to the jobs, every job of the table
  can be loaded: the reader of the engine never fails, agrees with the reader that skips malformed
  rows, and yields exactly the jobs of the table, each with an admissible name, schedule, prompt, lock
  time and budget.\<close>

theorem accepted_jobs_always_load:
  assumes "cron_lib_ok lib" and "specs_ok lib db"
  shows "load_specs_ipc lib (cd_specs (cron_history lib ops db)) =
      Ok (load_specs_from_db lib (cd_specs (cron_history lib ops db))) \<and>
    map fst (load_specs_from_db lib (cd_specs (cron_history lib ops db))) =
      map cs_job_name (cd_specs (cron_history lib ops db)) \<and>
    (\<forall>job \<in> set (load_specs_from_db lib (cd_specs (cron_history lib ops db))). admissible_job lib job)"
  using rows_ok_load[of lib] rows_ok_admissible[of lib] cron_history_ok[OF assms, of ops] unfolding specs_ok_def by blast

text \<open>A library that accepts every expression without the sign @, and only the instant \<open>t\<close>.\<close>

definition sample_cron_lib :: cron_lib where
  "sample_cron_lib = \<lparr>cl_minutes = (\<lambda>s. if 64 \<in> set s then None else Some [17]),
     cl_parse_dt = (\<lambda>s. if s = text_chars ''t'' then Some 1000 else None)\<rparr>"

definition empty_cron_db :: cron_db where
  "empty_cron_db = \<lparr>cd_specs = [], cd_ledger = empty_ledger, cd_links = [], cd_skills = []\<rparr>"

lemma sample_cron_lib_ok: "cron_lib_ok sample_cron_lib"
proof -
  have "take 1 x \<noteq> [64]" if "64 \<notin> set x" for x :: chars using that by (cases x) auto
  then show ?thesis by (auto simp: cron_lib_ok_def sample_cron_lib_def to_7field_def split: if_splits)
qed

theorem accepted_jobs_always_load_witness:
  "let db = cron_history sample_cron_lib
        [CreateV2 0 (text_chars ''daily'') (Some (text_chars ''17 9 * * *'')) (text_chars ''p'') None None None None (Some 5) None None False,
         CreateV2 0 (text_chars ''later'') None (text_chars ''p'') (Some (text_chars ''10m'')) None None (Some (text_chars ''t'')) (Some 5) None None False]
        empty_cron_db
   in length (cd_specs db) = 2 \<and>
     load_specs_ipc sample_cron_lib (cd_specs db) = Ok (load_specs_from_db sample_cron_lib (cd_specs db)) \<and>
     (\<forall>job \<in> set (load_specs_from_db sample_cron_lib (cd_specs db)). admissible_job sample_cron_lib job)"
proof -
  have ok: "specs_ok sample_cron_lib empty_cron_db" by (simp add: specs_ok_def empty_cron_db_def)
  have n: "length (cd_specs (cron_history sample_cron_lib
        [CreateV2 0 (text_chars ''daily'') (Some (text_chars ''17 9 * * *'')) (text_chars ''p'') None None None None (Some 5) None None False,
         CreateV2 0 (text_chars ''later'') None (text_chars ''p'') (Some (text_chars ''10m'')) None None (Some (text_chars ''t'')) (Some 5) None None False]
        empty_cron_db)) = 2" by code_simp
  show ?thesis unfolding Let_def
    using n accepted_jobs_always_load[OF sample_cron_lib_ok ok] by blast
qed

section \<open>One malformed row\<close>

text \<open>The reader that skips rows is not the one the engine uses: a single row it cannot read (a
  background schedule of an older version) hides every other job from the engine.\<close>

lemma malformed_row_hides_all_jobs:
  assumes "r \<in> set rs" and "row_kind lib r = Err e" and "cs_recurring r \<in> {0, 1}"
  shows "\<not> is_ok (load_specs_ipc lib rs)"
  using assms
proof (induction rs)
  case (Cons x rs)
  show ?case
  proof (cases "x = r")
    case True
    have "(if cs_recurring r \<noteq> 0 then 1 else 0) = cs_recurring r" using assms(3) by auto
    then have "cron_spec_from_dto lib r = Err e" using assms(2)
      by (simp add: cron_spec_from_dto_def row_kind_def del: from_db_row.simps)
    then show ?thesis using True by simp
  next
    case False
    then have "\<not> is_ok (load_specs_ipc lib rs)" using Cons by simp
    then show ?thesis by (cases "cron_spec_from_dto lib x"; cases "load_specs_ipc lib rs") auto
  qed
qed simp

lemma malformed_row_is_skipped:
  assumes "row_kind lib r = Err e"
  shows "load_specs_from_db lib (a @ r # b) = load_specs_from_db lib a @ load_specs_from_db lib b"
  using assms by (induction a) (auto split: sum.splits)

section \<open>Creation\<close>

text \<open>C19: A job that was created is read back as the schedule that was asked for, with its prompt,
  target, model, lock time and budget, not triggered, and no other job changes.\<close>

theorem created_job_is_what_was_asked:
  assumes "cron_lib_ok lib"
    and "create_spec_v2 lib now name schedule prompt ttl budget recurring run_at chat thread model immediate db = Ok db'"
  shows "\<exists>r spec. cd_specs db' = cd_specs db @ [r] \<and> cron_spec_from_dto lib r = Ok (name, spec) \<and>
    asked_kind lib schedule recurring run_at = Some (sp_schedule_kind spec) \<and>
    immediate = (schedule = None \<and> run_at = None) \<and>
    sp_prompt spec = prompt \<and> sp_lock_ttl spec = ttl \<and> sp_chat spec = chat \<and> sp_thread spec = thread \<and>
    sp_model spec = model \<and> sp_max_budget_usd spec = budget_or_default budget \<and> sp_triggered_at spec = None \<and>
    \<not> sp_trigger_force_notify spec \<and> sp_then spec = None \<and> \<not> has_job name db"
proof -
  obtain sched rec rat w
    where r: "resolve_schedule_fields lib now schedule recurring run_at immediate = Ok (sched, rec, rat, w)"
    and i: "insert_job ((new_job_row name sched prompt ttl (budget_or_default budget))
       \<lparr>cs_recurring := rec, cs_run_at := rat, cs_chat := chat, cs_thread := thread, cs_model := model\<rparr>) db = Ok db'"
      (is "insert_job ?r db = _")
    using assms(2) by (auto simp: create_spec_v2_def bind_result_Inr)
  obtain k where k: "rec \<in> {0, 1}" "asked_kind lib schedule recurring run_at = Some k"
      "from_db_row lib sched rat rec = Ok k" "immediate = (schedule = None \<and> run_at = None)"
    using resolved_reads[OF assms(1) r] by blast
  have "(if rec \<noteq> 0 then 1 else 0) = rec" using k(1) by auto
  then have "cron_spec_from_dto lib ?r = Ok (name, spec_of_row k None ?r)"
    using k(3) by (simp add: cron_spec_from_dto_def new_job_row_def del: from_db_row.simps)
  moreover have "cd_specs db' = cd_specs db @ [?r]" "\<not> has_job name db"
    using i by (auto simp: insert_job_def bind_result_Inr new_job_row_def)
  ultimately show ?thesis using k(2,4)
    by (intro exI[of _ ?r] exI[of _ "spec_of_row k None ?r"]) (simp add: spec_of_row_def new_job_row_def)
qed

lemma sample_create:
  "is_ok (create_spec_v2 sample_cron_lib 0 (text_chars ''later'') None (text_chars ''p'') (Some (text_chars ''10m'')) None None
     (Some (text_chars ''t'')) (Some 5) None None False empty_cron_db)"
  by code_simp

theorem created_job_is_what_was_asked_witness:
  "\<exists>db' r spec. create_spec_v2 sample_cron_lib 0 (text_chars ''later'') None (text_chars ''p'') (Some (text_chars ''10m'')) None None
       (Some (text_chars ''t'')) (Some 5) None None False empty_cron_db = Ok db' \<and>
     cd_specs db' = [r] \<and> cron_spec_from_dto sample_cron_lib r = Ok (text_chars ''later'', spec) \<and>
     sp_schedule_kind spec = RunAt 1000"
proof -
  obtain db' where c: "create_spec_v2 sample_cron_lib 0 (text_chars ''later'') None (text_chars ''p'') (Some (text_chars ''10m'')) None None
       (Some (text_chars ''t'')) (Some 5) None None False empty_cron_db = Ok db'"
    using sample_create by (auto simp: is_ok_iff)
  have a: "asked_kind sample_cron_lib None None (Some (text_chars ''t'')) = Some (RunAt 1000)"
    by (simp add: asked_kind_def sample_cron_lib_def)
  from created_job_is_what_was_asked[OF sample_cron_lib_ok c] c a show ?thesis
    by (auto simp: empty_cron_db_def)
qed

section \<open>A new target\<close>

lemma job_row_update:
  assumes "\<And>r. cs_job_name (f r) = cs_job_name r"
  shows "job_row name (update_job name f db) = map_option f (job_row name db)"
proof -
  have "find (\<lambda>r. cs_job_name r = name) (update_where (\<lambda>r. cs_job_name r = name) f t) =
      map_option f (find (\<lambda>r. cs_job_name r = name) t)" for t
    using assms by (induction t) (auto simp: update_where_def)
  then show ?thesis by (simp add: job_row_def update_job_def)
qed

lemma set_fields_target:
  "cs_chat (set_fields u r) = (case su_chat u of None \<Rightarrow> cs_chat r | c \<Rightarrow> c)"
  "cs_thread (set_fields u r) = (case su_thread u of None \<Rightarrow> cs_thread r | Some t \<Rightarrow> t)"
  by (simp_all add: set_fields_def set_schedule_def opt_set_def split: option.splits)

lemma filter_not_update_where:
  "(\<And>r. c (f r) = c r) \<Longrightarrow> filter (\<lambda>r. \<not> c r) (update_where c f t) = filter (\<lambda>r. \<not> c r) t"
  by (induction t) (auto simp: update_where_def)

text \<open>When an update changes the target of a job, every result of the job that still waits goes
  to the target the job now has, a part of the target that was not given keeps its value, and no
  other run and no other job changes.\<close>

theorem update_moves_waiting_results:
  assumes "update_spec_partial lib name u db = Ok db'" and "su_chat u \<noteq> None \<or> su_thread u \<noteq> None"
  shows "\<exists>old spec. job_row name db = Some old \<and> job_row name db' = Some spec \<and>
    cs_chat spec = (case su_chat u of None \<Rightarrow> cs_chat old | c \<Rightarrow> c) \<and>
    cs_thread spec = (case su_thread u of None \<Rightarrow> cs_thread old | Some t \<Rightarrow> t) \<and>
    (\<forall>r \<in> set (lg_runs (cd_ledger db')). undelivered_run_of name r \<longrightarrow> Some (ar_chat r) = cs_chat spec \<and> ar_thread r = cs_thread spec) \<and>
    filter (\<lambda>r. \<not> undelivered_run_of name r) (lg_runs (cd_ledger db')) =
      filter (\<lambda>r. \<not> undelivered_run_of name r) (lg_runs (cd_ledger db)) \<and>
    run_ids (lg_runs (cd_ledger db')) = run_ids (lg_runs (cd_ledger db)) \<and>
    filter (\<lambda>r. cs_job_name r \<noteq> name) (cd_specs db') = filter (\<lambda>r. cs_job_name r \<noteq> name) (cd_specs db)"
proof -
  let ?db1 = "update_job name (set_fields u) db"
  have p: "propagate_target name ?db1 = Ok db'"
    using assms by (auto simp: update_spec_partial_def bind_result_Inr Let_def split: if_splits)
  have jr: "job_row name ?db1 = map_option (set_fields u) (job_row name db)" by (simp add: job_row_update)
  obtain old where old: "job_row name db = Some old"
    using p jr by (cases "job_row name db") (auto simp: propagate_target_def)
  let ?spec = "set_fields u old"
  have l: "cd_ledger ?db1 = cd_ledger db" by (simp add: update_job_def)
  have s: "job_row name db' = Some ?spec" "cd_specs db' = cd_specs ?db1"
    using propagate_keeps_specs[OF p] jr old by (simp_all add: job_row_def)
  have others: "filter (\<lambda>r. cs_job_name r \<noteq> name) (cd_specs db') = filter (\<lambda>r. cs_job_name r \<noteq> name) (cd_specs db)"
    using filter_not_update_where[of "\<lambda>r. cs_job_name r = name" "set_fields u"] s(2) by (simp add: update_job_def)
  have moved: "(\<forall>r \<in> set (lg_runs (cd_ledger db')). undelivered_run_of name r \<longrightarrow> Some (ar_chat r) = cs_chat ?spec \<and> ar_thread r = cs_thread ?spec) \<and>
    filter (\<lambda>r. \<not> undelivered_run_of name r) (lg_runs (cd_ledger db')) =
      filter (\<lambda>r. \<not> undelivered_run_of name r) (lg_runs (cd_ledger db)) \<and>
    run_ids (lg_runs (cd_ledger db')) = run_ids (lg_runs (cd_ledger db))"
  proof (cases "cs_chat ?spec")
    case None
    then have "db' = ?db1" "\<not> list_ex (undelivered_run_of name) (lg_runs (cd_ledger db))"
      using p jr old l by (auto simp: propagate_target_def split: if_splits)
    then show ?thesis using l by (auto simp: list_ex_iff)
  next
    case (Some chat)
    then have "lg_runs (cd_ledger db') = update_where (undelivered_run_of name)
        (\<lambda>r. r\<lparr>ar_chat := chat, ar_thread := cs_thread ?spec\<rparr>) (lg_runs (cd_ledger db))"
      using p jr old l by (auto simp: propagate_target_def)
    then show ?thesis using Some filter_not_update_where[of "undelivered_run_of name"]
      by (auto simp: set_update_where undelivered_run_of_def update_where_key)
  qed
  show ?thesis using old s(1) others moved set_fields_target[of u old] by blast
qed

definition sample_update :: spec_update where
  "sample_update = \<lparr>su_schedule = None, su_run_at = None, su_prompt = None, su_recurring = None, su_lock_ttl = None,
     su_budget = None, su_chat = Some 7, su_thread = None, su_model = None\<rparr>"

definition waiting_cron_db :: cron_db where
  "waiting_cron_db = \<lparr>cd_specs = [(new_job_row (text_chars ''daily'') (text_chars ''17 9 * * *'') (text_chars ''p'') None 5)\<lparr>cs_chat := Some 5\<rparr>],
     cd_ledger = \<lparr>lg_runs = [waiting_row ''a'' ''1'' False], lg_requests = []\<rparr>, cd_links = [], cd_skills = []\<rparr>"

lemma sample_update_runs:
  "is_ok (update_spec_partial sample_cron_lib (text_chars ''daily'') sample_update waiting_cron_db)"
  by code_simp

theorem update_moves_waiting_results_witness:
  "\<exists>db'. update_spec_partial sample_cron_lib (text_chars ''daily'') sample_update waiting_cron_db = Ok db' \<and>
     run_ids (lg_runs (cd_ledger db')) = [text_chars ''a''] \<and>
     filter (\<lambda>r. undelivered_run_of (text_chars ''daily'') r \<and> ar_chat r \<noteq> 7) (lg_runs (cd_ledger db')) = []"
proof -
  obtain db' where u: "update_spec_partial sample_cron_lib (text_chars ''daily'') sample_update waiting_cron_db = Ok db'"
    using sample_update_runs by (auto simp: is_ok_iff)
  from update_moves_waiting_results[OF u] show ?thesis using u
    by (auto simp: sample_update_def waiting_cron_db_def filter_empty_conv waiting_deliverable)
qed

section \<open>Skills of a job\<close>

lemma link_all_links: "s \<in> set skills \<or> (\<exists>l \<in> set t. lk_job l = job \<and> lk_skill l = s) \<longleftrightarrow>
   (\<exists>l \<in> set (link_all origin job skills t). lk_job l = job \<and> lk_skill l = s)"
proof (induction skills arbitrary: t)
  case (Cons x xs)
  show ?case
    using Cons[of "insert_or_ignore \<lparr>lk_job = job, lk_skill = x, lk_origin = origin\<rparr> t", symmetric]
    by (auto simp: link_all_def insert_or_ignore_def list_ex_iff)
qed (simp add: link_all_def)

lemma ensure_skills_live_iff: "is_ok (ensure_skills_live ss db) \<longleftrightarrow> (\<forall>s \<in> set ss. skill_live db s)"
  by (induction ss) (auto simp: ensure_def)

lemma link_agent_after_create:
  assumes "insert_job r db = Ok db1" and "is_ok (ensure_skills_live skills db)"
  shows "\<exists>db2. link_agent (cs_job_name r) skills db1 = Ok db2 \<and> cd_specs db2 = cd_specs db1 \<and>
    cd_ledger db2 = cd_ledger db \<and> cd_links db2 = link_all ''agent'' (cs_job_name r) skills (cd_links db)"
proof -
  have db1: "db1 = db\<lparr>cd_specs := cd_specs db @ [r]\<rparr>" using assms(1) by (auto simp: insert_job_def bind_result_Inr)
  have "skill_live db1 = skill_live db" by (simp add: db1 skill_live_def fun_eq_iff)
  then have "is_ok (ensure_skills_live skills db1)" using assms(2) by (simp add: ensure_skills_live_iff)
  then show ?thesis by (auto simp: link_agent_def is_ok_iff has_job_def db1 ensure_def)
qed

text \<open>The tool that creates a job either changes nothing, or adds a single job whose target is
  on the allowlist and links it to every skill it was asked to link, all of them live.\<close>

theorem create_tool_is_all_or_nothing:
  assumes "call_cron_create lib now disk p db = (r, db')"
  shows "(\<not> is_ok r \<and> db' = db) \<or>
    (is_ok r \<and> (\<exists>row state. cd_specs db' = cd_specs db @ [row] \<and> cs_job_name row = cp_job_name p \<and>
       cs_chat row = Some (cp_chat p) \<and> disk = Ok (Some state) \<and> is_chat_allowed state (cp_chat p) \<and>
       cd_ledger db' = cd_ledger db \<and> (\<forall>s \<in> set (cp_skills p). skill_live db s \<and> s \<in> set (list_for_job (cp_job_name p) db'))))"
proof (cases "validate_target_against_allowlist disk (cp_chat p)")
  case (Inl e)
  show ?thesis using assms by (auto simp: call_cron_create_def Inl)
next
  case v: (Inr u)
  then obtain state where state: "disk = Ok (Some state)" "is_chat_allowed state (cp_chat p)"
    by (auto simp: validate_target_against_allowlist_def split: sum.splits option.splits)
  show ?thesis
  proof (cases "ensure_skills_live (cp_skills p) db")
    case (Inl e)
    show ?thesis using assms by (auto simp: call_cron_create_def v Inl)
  next
    case l: (Inr u2)
    let ?c = "create_spec_v2 lib now (cp_job_name p) (cp_schedule p) (cp_prompt p) (cp_lock_ttl p) (cp_budget p)
       (cp_recurring p) (cp_run_at p) (Some (cp_chat p)) (cp_thread p) (cp_model p) False db"
    show ?thesis
    proof (cases ?c)
      case (Inl e)
      show ?thesis using assms by (auto simp: call_cron_create_def v l Inl)
    next
      case (Inr db1)
      then obtain row where i: "insert_job row db = Ok db1" "cs_job_name row = cp_job_name p" "cs_chat row = Some (cp_chat p)"
        by (auto simp: create_spec_v2_def bind_result_Inr new_job_row_def)
      have db1: "cd_specs db1 = cd_specs db @ [row]" "cd_ledger db1 = cd_ledger db"
        using i(1) by (auto simp: insert_job_def bind_result_Inr)
      obtain db2 where a: "link_agent (cp_job_name p) (cp_skills p) db1 = Ok db2" "cd_specs db2 = cd_specs db1"
          "cd_ledger db2 = cd_ledger db" "cd_links db2 = link_all ''agent'' (cp_job_name p) (cp_skills p) (cd_links db)"
        using link_agent_after_create[OF i(1)] l i(2) by (metis is_ok_simps(1))
      have linked: "s \<in> set (list_for_job (cp_job_name p) db2)" if "s \<in> set (cp_skills p)" for s
        using link_all_links[of s "cp_skills p" "cd_links db" "cp_job_name p" "''agent''"] that a(4)
        by (auto simp: list_for_job_def)
      have live: "\<forall>s \<in> set (cp_skills p). skill_live db s" using ensure_skills_live_iff[of "cp_skills p" db] l by simp
      have "(cp_skills p = [] \<and> r = Ok () \<and> db' = db1) \<or> (r = Ok () \<and> db' = db2)"
        using assms by (auto simp: call_cron_create_def v l Inr a(1) split: if_splits)
      then show ?thesis using i db1 a linked live state by auto
    qed
  qed
qed

text \<open>The tool alone can never leave a job without its links, but the deletion the engine uses for a
  one-shot job keeps the links: a later job of the same name inherits them.\<close>

lemma recreated_job_inherits_links:
  "let db = \<lparr>cd_specs = [new_job_row [97] [] [112] None 5], cd_ledger = empty_ledger,
       cd_links = [\<lparr>lk_job = [97], lk_skill = [115], lk_origin = ''agent''\<rparr>], cd_skills = []\<rparr>
   in (case cron_delete_spec [97] db of
         Ok db1 \<Rightarrow> (case insert_job (new_job_row [97] [] [113] None 5) db1 of
                      Ok db2 \<Rightarrow> list_for_job [97] db2 = [[115]] | Err _ \<Rightarrow> False)
       | Err _ \<Rightarrow> False)"
  by code_simp

theorem create_tool_is_all_or_nothing_witness:
  "\<exists>db'. call_cron_create sample_cron_lib 0 (Ok (Some \<lparr>af_version = 1, af_users = [\<lparr>au_id = 5, au_label = None, au_added_by = None, au_added_at = 0\<rparr>], af_groups = []\<rparr>))
     \<lparr>cp_job_name = text_chars ''daily'', cp_schedule = Some (text_chars ''17 9 * * *''), cp_prompt = text_chars ''p'', cp_lock_ttl = None,
      cp_budget = None, cp_recurring = None, cp_run_at = None, cp_chat = 5, cp_thread = None, cp_model = None, cp_skills = [text_chars ''s'']\<rparr>
     (empty_cron_db\<lparr>cd_skills := [(text_chars ''s'', ''active'')]\<rparr>) = (Ok (), db') \<and>
     text_chars ''s'' \<in> set (list_for_job (text_chars ''daily'') db')"
proof -
  let ?call = "call_cron_create sample_cron_lib 0 (Ok (Some \<lparr>af_version = 1, af_users = [\<lparr>au_id = 5, au_label = None, au_added_by = None, au_added_at = 0\<rparr>], af_groups = []\<rparr>))
     \<lparr>cp_job_name = text_chars ''daily'', cp_schedule = Some (text_chars ''17 9 * * *''), cp_prompt = text_chars ''p'', cp_lock_ttl = None,
      cp_budget = None, cp_recurring = None, cp_run_at = None, cp_chat = 5, cp_thread = None, cp_model = None, cp_skills = [text_chars ''s'']\<rparr>
     (empty_cron_db\<lparr>cd_skills := [(text_chars ''s'', ''active'')]\<rparr>)"
  have f: "fst ?call = Ok ()" by code_simp
  obtain r db' where c: "?call = (r, db')" by fastforce
  from create_tool_is_all_or_nothing[OF c] f c show ?thesis by auto
qed

end
