(* ===== verification/Cron_Engine_Props.thy ===== *)
theory Cron_Engine_Props
  imports Cron_Engine Cron_Spec_Props
begin

text \<open>
  What the engine promises: the loops that run are those of the jobs in the table, a
  trigger restarts none of them, and an execution that started leaves a finished
  row with the report the delivery needs.
\<close>

section \<open>Lock times\<close>

lemma trim_no_ws: "(\<And>c. c \<in> set s \<Longrightarrow> \<not> is_uni_ws c) \<Longrightarrow> trim_chars s = s"
proof -
  assume a: "\<And>c. c \<in> set s \<Longrightarrow> \<not> is_uni_ws c"
  have "dropWhile is_uni_ws x = x" if "set x = set s" for x :: chars
    using a that by (cases x) auto
  then show ?thesis by (simp add: trim_chars_def)
qed

lemma digits_value_digits: "digits_value acc s = Some n \<Longrightarrow> c \<in> set s \<Longrightarrow> is_digit_cp c"
  by (induction acc s rule: digits_value.induct) (auto split: if_splits)

lemma parsed_int_chars: "parse_int lo hi s = Some n \<Longrightarrow> c \<in> set s \<Longrightarrow> is_digit_cp c \<or> c = 43 \<or> c = 45"
  by (auto simp: parse_int_def parse_digits_def split: list.splits option.splits if_splits dest: digits_value_digits)

lemma parsed_int_trim: "parse_int lo hi s = Some n \<Longrightarrow> trim_chars s = s"
  by (rule trim_no_ws) (auto dest: parsed_int_chars simp: is_uni_ws_def is_digit_cp_def)

text \<open>A lock time the tools accepted means the same to the engine: it is never taken for
  unreadable (which would silently become thirty minutes), and as a number of minutes or hours up to
  two thousand billion it is exact.\<close>

theorem accepted_lock_time_is_exact:
  assumes "validate_lock_ttl s = Ok ()"
  shows "\<exists>n unit. parse_i64 (butlast s) = Some n \<and> unit = (if last s = 109 then 60 else 3600) \<and>
    parse_lock_ttl s = bind_run (secs_duration (unit * n)) (\<lambda>d. Done (Some d)) \<and>
    (\<bar>n\<bar> \<le> 2562047788015 \<longrightarrow> parse_lock_ttl s = Done (Some (1000 * unit * n)))"
proof -
  obtain n where s: "s \<noteq> []" "last s = 109 \<or> last s = 104" "parse_i64 (butlast s) = Some n"
    using assms by (auto simp: validate_lock_ttl_def split: if_splits option.splits)
  let ?u = "if last s = 109 then 60 else 3600 :: int"
  have p: "parse_lock_ttl s = bind_run (secs_duration (?u * n)) (\<lambda>d. Done (Some d))"
    using s parsed_int_trim[OF s(3)] by (auto simp: parse_lock_ttl_def)
  moreover have "parse_lock_ttl s = Done (Some (1000 * ?u * n))" if "\<bar>n\<bar> \<le> 2562047788015"
    unfolding p using that by (auto simp: secs_duration_def abs_mult)
  ultimately show ?thesis using s(3) by blast
qed

theorem accepted_lock_time_is_exact_witness:
  "parse_lock_ttl (text_chars ''6h'') = Done (Some (1000 * 3600 * 6))"
proof -
  have v: "validate_lock_ttl (text_chars ''6h'') = Ok ()" by code_simp
  have n: "parse_i64 (butlast (text_chars ''6h'')) = Some 6" "last (text_chars ''6h'') = 104" by code_simp+
  from accepted_lock_time_is_exact[OF v] n show ?thesis by auto
qed

text \<open>A larger number is accepted as well; the engine panics on it once the job has a lock file.\<close>

lemma huge_lock_time_panics:
  "validate_lock_ttl (text_chars ''9000000000000000000m'') = Ok () \<and>
   is_lock_fresh [[97] \<mapsto> Some 0] [97] (text_chars ''9000000000000000000m'') 0 = Panics"
proof -
  let ?s = "text_chars ''9000000000000000000m''"
  have s: "?s = [57, 48, 48, 48, 48, 48, 48, 48, 48, 48, 48, 48, 48, 48, 48, 48, 48, 48, 48] @ [109]" by code_simp
  have "digits_value 0 [57, 48, 48, 48, 48, 48, 48, 48, 48, 48, 48, 48, 48, 48, 48, 48, 48, 48, 48] = Some 9000000000000000000"
    by (simp add: is_digit_cp_def)
  then have n: "parse_i64 [57, 48, 48, 48, 48, 48, 48, 48, 48, 48, 48, 48, 48, 48, 48, 48, 48, 48, 48] = Some 9000000000000000000"
    by (simp add: parse_int_def parse_digits_def)
  have b: "butlast ?s = [57, 48, 48, 48, 48, 48, 48, 48, 48, 48, 48, 48, 48, 48, 48, 48, 48, 48, 48]" "last ?s = 109" "?s \<noteq> []" by (simp_all add: s butlast_append)
  have "validate_lock_ttl ?s = Ok ()" using b n by (simp add: validate_lock_ttl_def utf8_len_def)
  moreover have "parse_lock_ttl ?s = Panics"
    using b n parsed_int_trim[OF n] by (simp add: parse_lock_ttl_def secs_duration_def)
  ultimately show ?thesis by (simp add: is_lock_fresh_def)
qed

lemma multibyte_lock_time_panics: "validate_lock_ttl [49, 0x43C] = Err Panicked"
  by code_simp

section \<open>The loops that run\<close>

text \<open>The configuration of a job: the job without what a trigger sets.\<close>

definition config :: "cron_spec \<Rightarrow> cron_spec" where
  "config s = s\<lparr>sp_triggered_at := None, sp_trigger_force_notify := False, sp_extra_instruction := None, sp_then := None,
     sp_origin_chat := None, sp_origin_thread := None\<rparr>"

lemma same_config_iff: "same_config a b \<longleftrightarrow> config a = config b"
  by (cases a; cases b) (auto simp: same_config_def config_def)

lemma config_kind: "config a = config b \<Longrightarrow> sp_schedule_kind a = sp_schedule_kind b"
  using same_config_iff[of a b] by (simp add: same_config_def)

text \<open>The abstract view: which job runs a loop, with which configuration; and the specification, the
  jobs of the table that have a cron schedule.\<close>

definition loops_of :: "engine \<Rightarrow> chars \<Rightarrow> cron_spec option" where
  "loops_of st name = map_option (config \<circ> fst) (map_of (en_handles st) name)"

definition wanted :: "(chars \<times> cron_spec) list \<Rightarrow> chars \<Rightarrow> cron_spec option" where
  "wanted specs name =
     (case map_of specs name of
        Some s \<Rightarrow> if is_run_job_loop_skip_kind (sp_schedule_kind s) then None else Some (config s)
      | None \<Rightarrow> None)"

definition engine_inv :: "engine \<Rightarrow> bool" where
  "engine_inv st =
     (distinct (map fst (en_handles st)) \<and> distinct (map (snd \<circ> snd) (en_handles st)) \<and>
      (\<forall>(n, s, i) \<in> set (en_handles st). i < en_next st \<and> \<not> is_run_job_loop_skip_kind (sp_schedule_kind s)))"

lemma fire_keeps_handles:
  "fire_one_shot_specs env ss st = Done st' \<Longrightarrow>
   en_handles st' = en_handles st \<and> en_next st' = en_next st \<and> en_aborted st' = en_aborted st"
proof (induction env ss st rule: fire_one_shot_specs.induct)
  case (2 env name spec ss st)
  then show ?case
    by (cases "is_lock_fresh (re_locks env) name (effective_lock_ttl spec) (re_now env)") (auto split: if_splits)
qed auto

lemma triggers_keep_handles:
  "fire_triggers env ss st db = Done (st', db') \<Longrightarrow>
   en_handles st' = en_handles st \<and> en_next st' = en_next st \<and> en_aborted st' = en_aborted st"
proof (induction env ss st db rule: fire_triggers.induct)
  case (2 env name spec ss st db)
  show ?case
  proof (cases "sp_triggered_at spec = None \<or> \<not> re_cleared env name")
    case True
    then show ?thesis using 2 by auto
  next
    case False
    then obtain fresh where "is_lock_fresh (re_locks env) name (effective_lock_ttl spec) (re_now env) = Done fresh"
      using 2(3) by (cases "is_lock_fresh (re_locks env) name (effective_lock_ttl spec) (re_now env)") auto
    then show ?thesis using 2 False by (auto split: if_splits)
  qed
qed auto

lemma abort_stale_handles: "h \<in> set (en_handles (abort_stale specs st)) \<longleftrightarrow> h \<in> set (en_handles st) \<and> \<not> stale_handle specs h"
  by (auto simp: abort_stale_def)

lemma abort_inv: "engine_inv st \<Longrightarrow> engine_inv (abort_stale specs st)"
  unfolding engine_inv_def by (auto simp: abort_stale_def distinct_map_filter)

lemma spawn_inv: "engine_inv st \<Longrightarrow> engine_inv (spawn_loops ss st)"
proof (induction ss st rule: spawn_loops.induct)
  case (2 name spec ss st)
  have "engine_inv (if is_run_job_loop_skip_kind (sp_schedule_kind spec) \<or> name \<in> set (map fst (en_handles st)) then st
        else st\<lparr>en_handles := en_handles st @ [(name, spec, en_next st)], en_next := en_next st + 1\<rparr>)"
    using 2(2) by (fastforce simp: engine_inv_def)
  then show ?case using 2(1) by simp
qed simp

text \<open>The new loops: every job with a cron schedule that has none gets one.\<close>

lemma handled_iff: "n \<in> set (map fst (hs :: (chars \<times> cron_spec \<times> nat) list)) \<longleftrightarrow> map_of hs n \<noteq> None"
  by (simp add: map_of_eq_None_iff)

lemma spawn_loops_handles:
  "distinct (map fst ss) \<Longrightarrow> map_option fst (map_of (en_handles (spawn_loops ss st)) name) =
     (case map_of (en_handles st) name of
        Some h \<Rightarrow> Some (fst h)
      | None \<Rightarrow> (case map_of ss name of
                   Some s \<Rightarrow> if is_run_job_loop_skip_kind (sp_schedule_kind s) then None else Some s
                 | None \<Rightarrow> None))"
proof (induction ss st rule: spawn_loops.induct)
  case (2 n s ss st)
  let ?st = "if is_run_job_loop_skip_kind (sp_schedule_kind s) \<or> n \<in> set (map fst (en_handles st)) then st
        else st\<lparr>en_handles := en_handles st @ [(n, s, en_next st)], en_next := en_next st + 1\<rparr>"
  have fresh: "map_of ss n = None" using 2(2) by (simp add: map_of_eq_None_iff)
  have e: "map_of (en_handles ?st) name = (if name = n \<and> \<not> is_run_job_loop_skip_kind (sp_schedule_kind s) \<and> map_of (en_handles st) n = None
      then Some (s, en_next st) else map_of (en_handles st) name)"
    unfolding handled_iff by (simp add: map_add_def split: option.splits)
  have "map_option fst (map_of (en_handles (spawn_loops ss ?st)) name) =
     (case map_of (en_handles ?st) name of
        Some h \<Rightarrow> Some (fst h)
      | None \<Rightarrow> (case map_of ss name of
                   Some s \<Rightarrow> if is_run_job_loop_skip_kind (sp_schedule_kind s) then None else Some s
                 | None \<Rightarrow> None))"
    using 2 by simp
  also have "\<dots> = (case map_of (en_handles st) name of
        Some h \<Rightarrow> Some (fst h)
      | None \<Rightarrow> (case map_of ((n, s) # ss) name of
                   Some s \<Rightarrow> if is_run_job_loop_skip_kind (sp_schedule_kind s) then None else Some s
                 | None \<Rightarrow> None))"
    unfolding e using fresh by (auto split: option.splits)
  finally show ?case by simp
qed (simp split: option.split)

lemma spawn_keeps_loop: "h \<in> set (en_handles st) \<Longrightarrow> h \<in> set (en_handles (spawn_loops ss st))"
  by (induction ss st rule: spawn_loops.induct) auto

lemma spawn_aborted [simp]: "en_aborted (spawn_loops ss st) = en_aborted st"
  by (induction ss st rule: spawn_loops.induct) auto

lemma spawn_new_ids: "(n, s, i) \<in> set (en_handles (spawn_loops ss st)) \<Longrightarrow> (n, s, i) \<in> set (en_handles st) \<or> en_next st \<le> i"
proof (induction ss st rule: spawn_loops.induct)
  case (2 name spec ss st)
  then show ?case by (fastforce split: if_splits)
qed simp

lemma map_of_filter_distinct:
  "distinct (map fst xs) \<Longrightarrow> map_of (filter P xs) n = (case map_of xs n of Some h \<Rightarrow> if P (n, h) then Some h else None | None \<Rightarrow> None)"
proof (induction xs)
  case (Cons x xs)
  then have "map_of xs (fst x) = None" by (simp add: map_of_eq_None_iff)
  then show ?case using Cons by (cases x) (auto split: option.splits)
qed simp

lemma stale_iff:
  assumes "\<not> is_run_job_loop_skip_kind (sp_schedule_kind s)"
  shows "stale_handle specs (n, s, i) \<longleftrightarrow> wanted specs n \<noteq> Some (config s)"
proof (cases "map_of specs n")
  case (Some new)
  have "config new = config s \<Longrightarrow> \<not> is_run_job_loop_skip_kind (sp_schedule_kind new)"
    using assms config_kind[of new s] by simp
  then show ?thesis using Some by (auto simp: stale_handle_def wanted_def same_config_iff)
qed (simp add: stale_handle_def wanted_def)

text \<open>C20: A reconciliation that could read the table implements its specification: afterwards the
  running loops are exactly the jobs with a cron schedule, each with the configuration of the
  table; a loop whose job is unchanged (whatever triggers were set) goes on, and every other loop is
  aborted.\<close>

theorem reconcile_runs_exactly_the_jobs:
  assumes "reconcile_jobs env st db = Done (st', db')" and "re_listed env"
    and "load_specs_ipc (re_lib env) (cd_specs db) = Ok specs" and "distinct (map fst specs)" and "engine_inv st"
  shows "loops_of st' = wanted specs \<and> engine_inv st' \<and>
    (\<forall>n s i. (n, s, i) \<in> set (en_handles st) \<longrightarrow>
       (if loops_of st n = wanted specs n then (n, s, i) \<in> set (en_handles st')
        else i \<in> set (en_aborted st') \<and> i \<notin> set (map (snd \<circ> snd) (en_handles st'))))"
proof -
  obtain st1 st2 where f: "fire_one_shot_specs env (filter (\<lambda>(_, s). overdue (re_now env) s) specs) st = Done st1"
      "fire_one_shot_specs env (filter (\<lambda>(_, s). is_reconcile_tick_kind (sp_schedule_kind s)) specs) st1 = Done st2"
    and tr: "fire_triggers env specs (spawn_loops specs (abort_stale specs st2)) db = Done (st', db')"
    using assms(1-3)
    by (cases "fire_one_shot_specs env (filter (\<lambda>(_, s). overdue (re_now env) s) specs) st";
        cases "fire_one_shot_specs env (filter (\<lambda>(_, s). is_reconcile_tick_kind (sp_schedule_kind s)) specs) (case fire_one_shot_specs env (filter (\<lambda>(_, s). overdue (re_now env) s) specs) st of Done x \<Rightarrow> x | Panics \<Rightarrow> st)")
      (auto simp: reconcile_jobs_def)
  have h: "en_handles st2 = en_handles st" "en_next st2 = en_next st" "en_aborted st2 = en_aborted st"
    using fire_keeps_handles[OF f(1)] fire_keeps_handles[OF f(2)] by simp_all
  let ?a = "abort_stale specs st2" and ?s = "spawn_loops specs (abort_stale specs st2)"
  have e: "en_handles st' = en_handles ?s" "en_next st' = en_next ?s" "en_aborted st' = en_aborted ?a"
    using triggers_keep_handles[OF tr] by simp_all
  have inv2: "engine_inv st2" using assms(5) h by (simp add: engine_inv_def)
  then have inv: "engine_inv ?s" by (intro spawn_inv abort_inv)
  have kind: "\<not> is_run_job_loop_skip_kind (sp_schedule_kind s)" and bound: "i < en_next st2"
    if "(n, s, i) \<in> set (en_handles st)" for n s i using inv2 that h by (auto simp: engine_inv_def)
  have dist: "distinct (map fst (en_handles st))" using assms(5) by (simp add: engine_inv_def)
  have a: "map_of (en_handles ?a) n = (case map_of (en_handles st) n of
      Some h \<Rightarrow> if wanted specs n = Some (config (fst h)) then Some h else None | None \<Rightarrow> None)" for n
  proof -
    have "map_of (en_handles ?a) n = (case map_of (en_handles st) n of
        Some h \<Rightarrow> if \<not> stale_handle specs (n, h) then Some h else None | None \<Rightarrow> None)"
      using map_of_filter_distinct[OF dist] h(1) by (simp add: abort_stale_def)
    then show ?thesis using stale_iff kind by (auto split: option.splits dest!: map_of_SomeD)
  qed
  have "loops_of st' n = wanted specs n" for n
  proof -
    have "loops_of st' n = map_option config (map_option fst (map_of (en_handles ?s) n))"
      by (simp add: loops_of_def e(1) option.map_comp)
    also have "\<dots> = wanted specs n"
      unfolding spawn_loops_handles[OF assms(4)] a by (auto simp: wanted_def split: option.splits if_splits)
    finally show ?thesis .
  qed
  moreover have "engine_inv st'" using inv e(1,2) by (simp add: engine_inv_def)
  moreover have "if loops_of st n = wanted specs n then (n, s, i) \<in> set (en_handles st')
        else i \<in> set (en_aborted st') \<and> i \<notin> set (map (snd \<circ> snd) (en_handles st'))"
    if m: "(n, s, i) \<in> set (en_handles st)" for n s i
  proof -
    have l: "loops_of st n = Some (config s)" using map_of_is_SomeI[OF dist m] by (simp add: loops_of_def)
    show ?thesis
    proof (cases "stale_handle specs (n, s, i)")
      case False
      then have "(n, s, i) \<in> set (en_handles st')"
        unfolding e(1) by (intro spawn_keeps_loop) (use m h in \<open>simp add: abort_stale_def\<close>)
      then show ?thesis using False stale_iff[OF kind[OF m], of specs n i] l by auto
    next
      case True
      have ab: "i \<in> set (en_aborted st')" using True m h by (force simp: e(3) abort_stale_def)
      have "i \<notin> set (map (snd \<circ> snd) (en_handles st'))"
      proof
        assume "i \<in> set (map (snd \<circ> snd) (en_handles st'))"
        then obtain n' s' where "(n', s', i) \<in> set (en_handles ?s)" using e(1) by force
        then have "(n', s', i) \<in> set (en_handles ?a) \<or> en_next ?a \<le> i" by (rule spawn_new_ids)
        then have "(n', s', i) \<in> set (en_handles st)" "\<not> stale_handle specs (n', s', i)"
          using bound[OF m] h by (auto simp: abort_stale_def)
        moreover have "inj_on (snd \<circ> snd) (set (en_handles st))"
          using assms(5) by (simp add: engine_inv_def distinct_map)
        ultimately have "(n', s', i) = (n, s, i)" using m by (elim inj_onD) auto
        then show False using True \<open>\<not> stale_handle specs (n', s', i)\<close> by simp
      qed
      then show ?thesis using ab True stale_iff[OF kind[OF m], of specs n i] l by auto
    qed
  qed
  ultimately show ?thesis by blast
qed

definition sample_cron_db :: cron_db where
  "sample_cron_db = empty_cron_db\<lparr>cd_specs :=
     [new_job_row (text_chars ''daily'') (text_chars ''17 9 * * *'') (text_chars ''p'') None 5,
      new_job_row (text_chars ''now'') IMMEDIATE_SENTINEL (text_chars ''p'') None 5]\<rparr>"

definition sample_cron_spec :: cron_spec where
  "sample_cron_spec = spec_of_row (Recurring (text_chars ''0 1 * * *'')) None
     (new_job_row (text_chars ''gone'') (text_chars ''0 1 * * *'') (text_chars ''p'') None 5)"

definition sample_engine :: engine where
  "sample_engine = \<lparr>en_handles = [(text_chars ''gone'', sample_cron_spec, 0)], en_next = 1, en_aborted = [], en_spawned = []\<rparr>"

definition sample_reconcile :: reconcile_env where
  "sample_reconcile = \<lparr>re_lib = sample_cron_lib, re_now = 0, re_listed = True, re_cleared = (\<lambda>_. True),
     re_locks = Map.empty, re_model = None\<rparr>"

lemma sample_reconcile_runs:
  "case reconcile_jobs sample_reconcile sample_engine sample_cron_db of
     Done (st, _) \<Rightarrow> map fst (en_handles st) = [text_chars ''daily''] \<and> map xs_job (en_spawned st) = [text_chars ''now'']
   | Panics \<Rightarrow> False"
  by code_simp

lemma sample_specs_load:
  "case load_specs_ipc sample_cron_lib (cd_specs sample_cron_db) of
     Ok specs \<Rightarrow> distinct (map fst specs) \<and> map_of specs (text_chars ''gone'') = None | Err _ \<Rightarrow> False"
  by code_simp

theorem reconcile_runs_exactly_the_jobs_witness:
  "\<exists>st' db' specs. reconcile_jobs sample_reconcile sample_engine sample_cron_db = Done (st', db') \<and>
     load_specs_ipc sample_cron_lib (cd_specs sample_cron_db) = Ok specs \<and>
     loops_of st' = wanted specs \<and> 0 \<in> set (en_aborted st')"
proof -
  obtain st' db' where r: "reconcile_jobs sample_reconcile sample_engine sample_cron_db = Done (st', db')"
    using sample_reconcile_runs by (cases "reconcile_jobs sample_reconcile sample_engine sample_cron_db") auto
  obtain specs where s: "load_specs_ipc sample_cron_lib (cd_specs sample_cron_db) = Ok specs" "distinct (map fst specs)"
      "map_of specs (text_chars ''gone'') = None"
    using sample_specs_load by (cases "load_specs_ipc sample_cron_lib (cd_specs sample_cron_db)") auto
  have e: "re_listed sample_reconcile" "load_specs_ipc (re_lib sample_reconcile) (cd_specs sample_cron_db) = Ok specs"
    using s(1) by (simp_all add: sample_reconcile_def)
  have i: "engine_inv sample_engine" by (simp add: engine_inv_def sample_engine_def sample_cron_spec_def spec_of_row_def)
  have h: "(text_chars ''gone'', sample_cron_spec, 0) \<in> set (en_handles sample_engine)" by (simp add: sample_engine_def)
  have "loops_of sample_engine (text_chars ''gone'') \<noteq> wanted specs (text_chars ''gone'')"
    using s(3) by (simp add: loops_of_def wanted_def sample_engine_def)
  then show ?thesis using reconcile_runs_exactly_the_jobs[OF r e(1,2) s(2) i] h r s(1) by meson
qed

section \<open>A trigger\<close>

lemma triggered_only:
  "fire_triggers env ss st db = Done (st', db') \<Longrightarrow>
   (\<And>n. re_cleared env n) \<Longrightarrow>
   en_spawned st' = en_spawned st @
     map (\<lambda>(n, s). \<lparr>xs_job = n, xs_spec = s, xs_model = resolve_cron_model s (re_model env), xs_deletes_job = False\<rparr>)
       (filter (\<lambda>(n, s). sp_triggered_at s \<noteq> None \<and> is_lock_fresh (re_locks env) n (effective_lock_ttl s) (re_now env) = Done False) ss) \<and>
   cd_specs db' = map (\<lambda>r. if cs_job_name r \<in> fst ` {(n, s) \<in> set ss. sp_triggered_at s \<noteq> None}
     then r\<lparr>cs_triggered_at := None, cs_force_notify := False, cs_extra_instruction := None,
           cs_then_json := None, cs_origin_chat := None, cs_origin_thread := None\<rparr> else r) (cd_specs db)"
proof (induction env ss st db rule: fire_triggers.induct)
  case (2 env name spec ss st db)
  show ?case
  proof (cases "sp_triggered_at spec = None")
    case True
    then have "{(n, s). (n, s) \<in> set ((name, spec) # ss) \<and> sp_triggered_at s \<noteq> None} = {(n, s). (n, s) \<in> set ss \<and> sp_triggered_at s \<noteq> None}"
      by auto
    then show ?thesis using 2 True by simp
  next
    case False
    then obtain fresh where f: "is_lock_fresh (re_locks env) name (effective_lock_ttl spec) (re_now env) = Done fresh"
      using 2(3,4) by (cases "is_lock_fresh (re_locks env) name (effective_lock_ttl spec) (re_now env)") auto
    have s: "fst ` {(n, s) \<in> set ((name, spec) # ss). sp_triggered_at s \<noteq> None} = insert name (fst ` {(n, s) \<in> set ss. sp_triggered_at s \<noteq> None})"
      using False by force
    show ?thesis
      using 2(2)[of fresh] 2(3,4) False f unfolding s
      by (auto simp: clear_triggered_at_def update_job_def update_where_def split: if_splits)
  qed
qed simp

lemma fired_one_shots_delete:
  "fire_one_shot_specs env ss st = Done st' \<Longrightarrow> \<exists>xs. en_spawned st' = en_spawned st @ xs \<and> (\<forall>x \<in> set xs. xs_deletes_job x)"
proof (induction env ss st rule: fire_one_shot_specs.induct)
  case (2 env name spec ss st)
  then obtain fresh where f: "is_lock_fresh (re_locks env) name (effective_lock_ttl spec) (re_now env) = Done fresh"
    by (cases "is_lock_fresh (re_locks env) name (effective_lock_ttl spec) (re_now env)") auto
  show ?case using 2(1)[of fresh] 2(2) f by (fastforce split: if_splits)
qed simp

definition set_trigger ::
  "chars \<Rightarrow> bool \<Rightarrow> chars option \<Rightarrow> then_spec option \<Rightarrow> int option \<Rightarrow> int option \<Rightarrow> cron_spec \<Rightarrow> cron_spec" where
  "set_trigger now force extra after chat thread s =
     s\<lparr>sp_triggered_at := Some now, sp_trigger_force_notify := force, sp_extra_instruction := extra, sp_then := after,
       sp_origin_chat := chat, sp_origin_thread := thread\<rparr>"

lemma set_trigger_config [simp]: "config (set_trigger now force extra after chat thread s) = config s"
  by (simp add: set_trigger_def config_def)

lemma load_triggered:
  "load_specs_from_db lib (update_where (\<lambda>r. cs_job_name r = name) (\<lambda>r. r\<lparr>cs_triggered_at := Some now, cs_force_notify := force,
       cs_extra_instruction := extra, cs_then_json := map_option Some after, cs_origin_chat := chat, cs_origin_thread := thread\<rparr>) rs) =
   map (\<lambda>(n, s). (n, if n = name then set_trigger now force extra after chat thread s else s)) (load_specs_from_db lib rs)"
proof (induction rs)
  case (Cons r rs)
  then show ?case
    by (cases "row_kind lib r"; cases after) (auto simp: update_where_def row_kind_def spec_of_row_def set_trigger_def)
qed (simp add: update_where_def)

lemma wanted_config:
  assumes "\<And>s. config (f s) = config s"
  shows "wanted (map (\<lambda>(n, s). (n, if n = name then f s else s)) specs) = wanted specs"
proof
  fix m
  have k: "sp_schedule_kind (f s) = sp_schedule_kind s" for s using config_kind[OF assms] .
  have m: "map_of (map (\<lambda>(n, s). (n, if n = name then f s else s)) specs) m =
      map_option (\<lambda>s. if m = name then f s else s) (map_of specs m)"
    by (induction specs) auto
  show "wanted (map (\<lambda>(n, s). (n, if n = name then f s else s)) specs) m = wanted specs m"
    unfolding wanted_def m by (auto simp: k assms split: option.split)
qed

lemma in_sync_no_change:
  assumes "engine_inv st" and "loops_of st = wanted specs" and "distinct (map fst specs)"
  shows "abort_stale specs st = st" and "spawn_loops specs st = st"
proof -
  have d: "distinct (map fst (en_handles st))" using assms(1) by (simp add: engine_inv_def)
  have "\<not> stale_handle specs h" if h: "h \<in> set (en_handles st)" for h
  proof -
    obtain n s i where e: "h = (n, s, i)" by (cases h) auto
    have "loops_of st n = Some (config s)" using map_of_is_SomeI[OF d] h e by (simp add: loops_of_def)
    then have "wanted specs n = Some (config s)" using assms(2) by simp
    then show ?thesis using stale_iff[of s specs n i] assms(1) h e by (auto simp: engine_inv_def)
  qed
  then show "abort_stale specs st = st" by (simp add: abort_stale_def)
  have "spawn_loops ss st = st" if "\<And>n s. (n, s) \<in> set ss \<Longrightarrow> is_run_job_loop_skip_kind (sp_schedule_kind s) \<or> n \<in> set (map fst (en_handles st))" for ss
    using that by (induction ss) auto
  moreover have "is_run_job_loop_skip_kind (sp_schedule_kind s) \<or> n \<in> set (map fst (en_handles st))" if "(n, s) \<in> set specs" for n s
  proof (cases "is_run_job_loop_skip_kind (sp_schedule_kind s)")
    case False
    then have "wanted specs n = Some (config s)" using map_of_is_SomeI[OF assms(3) that] by (simp add: wanted_def)
    then have "map_of (en_handles st) n \<noteq> None" using assms(2) by (metis loops_of_def option.distinct(1) option.simps(8))
    then show ?thesis using handled_iff by blast
  qed simp
  ultimately show "spawn_loops specs st = st" by blast
qed

lemma loaded_row:
  "r \<in> set rs \<Longrightarrow> row_ok lib r \<Longrightarrow> \<exists>s. (cs_job_name r, s) \<in> set (load_specs_from_db lib rs) \<and> sp_triggered_at s = cs_triggered_at r"
proof (induction rs)
  case (Cons x rs)
  show ?case
  proof (cases "r = x")
    case True
    then obtain k where "row_kind lib x = Ok k" using Cons.prems by (auto simp: row_ok_def is_ok_iff)
    then show ?thesis using True
      by (intro exI[of _ "spec_of_row k (Option.bind (cs_then_json x) id) x"]) (simp add: spec_of_row_def)
  next
    case False
    then obtain s where "(cs_job_name r, s) \<in> set (load_specs_from_db lib rs)" "sp_triggered_at s = cs_triggered_at r"
      using Cons by auto
    then show ?thesis by (cases "row_kind lib x") auto
  qed
qed simp

lemma one_match:
  "distinct (map fst xs) \<Longrightarrow> (n, s) \<in> set xs \<Longrightarrow>
   length (filter (\<lambda>(m, t). m = n \<and> P (m, t)) xs) = (if P (n, s) then 1 else 0)"
proof (induction xs)
  case (Cons x xs)
  show ?case
  proof (cases "x = (n, s)")
    case True
    then have "filter (\<lambda>(m, t). m = n \<and> P (m, t)) xs = []"
      using Cons.prems(1) by (auto simp: filter_empty_conv) (metis fst_conv image_eqI)
    then show ?thesis using True by simp
  next
    case False
    then have "fst x \<noteq> n" using Cons.prems by (auto simp: image_iff)
    then show ?thesis using Cons False by (cases x) auto
  qed
qed simp

text \<open>Triggering a job restarts no loop, whatever else the trigger carries; the next
  reconciliation takes the trigger off the row and runs the job once, without deleting it, unless
  the job is locked.\<close>

theorem trigger_runs_once:
  assumes lib: "cron_lib_ok (re_lib env)" and ok: "specs_ok (re_lib env) db"
    and sync: "engine_inv st" "loops_of st = wanted (load_specs_from_db (re_lib env) (cd_specs db))"
    and tr: "trigger_spec now name force extra after chat thread db = Ok db1"
    and run: "reconcile_jobs env st db1 = Done (st', db2)" and env: "re_listed env" "\<forall>n. re_cleared env n"
  shows "en_handles st' = en_handles st \<and> en_aborted st' = en_aborted st \<and>
    (\<forall>r \<in> set (cd_specs db2). cs_triggered_at r = None) \<and>
    (\<exists>spec. map_of (load_specs_from_db (re_lib env) (cd_specs db)) name = Some spec \<and>
       length (filter (\<lambda>x. xs_job x = name \<and> \<not> xs_deletes_job x) (en_spawned st')) =
       length (filter (\<lambda>x. xs_job x = name \<and> \<not> xs_deletes_job x) (en_spawned st)) +
         (if is_lock_fresh (re_locks env) name (effective_lock_ttl spec) (re_now env) = Done False then 1 else 0))"
proof -
  let ?specs = "load_specs_from_db (re_lib env) (cd_specs db)"
  let ?f = "set_trigger now force extra after chat thread"
  define specs1 where "specs1 = map (\<lambda>(n, s). (n, if n = name then ?f s else s)) ?specs"
  have ok1: "specs_ok (re_lib env) db1" by (rule triggering.keeps[OF lib tr ok])
  have job: "has_job name db" and db1: "cd_specs db1 = update_where (\<lambda>r. cs_job_name r = name)
      (\<lambda>r. r\<lparr>cs_triggered_at := Some now, cs_force_notify := force, cs_extra_instruction := extra,
         cs_then_json := map_option Some after, cs_origin_chat := chat, cs_origin_thread := thread\<rparr>) (cd_specs db)"
    using tr by (auto simp: trigger_spec_def bind_result_Inr update_job_def)
  have load1: "load_specs_ipc (re_lib env) (cd_specs db1) = Ok specs1"
    using rows_ok_load[of "re_lib env" "cd_specs db1"] ok1 by (simp add: specs_ok_def db1 load_triggered specs1_def)
  have names: "map fst ?specs = map cs_job_name (cd_specs db)"
    using rows_ok_load[of "re_lib env" "cd_specs db"] ok by (simp add: specs_ok_def)
  have d: "distinct (map fst ?specs)" using names ok by (simp add: specs_ok_def)
  have "map fst specs1 = map fst ?specs" by (auto simp: specs1_def)
  then have d1: "distinct (map fst specs1)" using d by metis
  have w: "loops_of st = wanted specs1"
    unfolding specs1_def wanted_config[OF set_trigger_config] by (rule sync(2))
  obtain st1 st2 where f: "fire_one_shot_specs env (filter (\<lambda>(_, s). overdue (re_now env) s) specs1) st = Done st1"
      "fire_one_shot_specs env (filter (\<lambda>(_, s). is_reconcile_tick_kind (sp_schedule_kind s)) specs1) st1 = Done st2"
    and t: "fire_triggers env specs1 (spawn_loops specs1 (abort_stale specs1 st2)) db1 = Done (st', db2)"
    using run env(1) load1
    by (cases "fire_one_shot_specs env (filter (\<lambda>(_, s). overdue (re_now env) s) specs1) st";
        cases "fire_one_shot_specs env (filter (\<lambda>(_, s). is_reconcile_tick_kind (sp_schedule_kind s)) specs1) (case fire_one_shot_specs env (filter (\<lambda>(_, s). overdue (re_now env) s) specs1) st of Done x \<Rightarrow> x | Panics \<Rightarrow> st)")
      (auto simp: reconcile_jobs_def)
  have h: "en_handles st2 = en_handles st" "en_next st2 = en_next st" "en_aborted st2 = en_aborted st"
    using fire_keeps_handles[OF f(1)] fire_keeps_handles[OF f(2)] by simp_all
  have "loops_of st2 = loops_of st" by (simp add: loops_of_def fun_eq_iff h)
  then have s2: "engine_inv st2" "loops_of st2 = wanted specs1" using sync(1) w h by (simp_all add: engine_inv_def)
  have t': "fire_triggers env specs1 st2 db1 = Done (st', db2)"
    using t in_sync_no_change[OF s2 d1] by simp
  note k = triggers_keep_handles[OF t'] and o = triggered_only[OF t' env(2)[rule_format]]
  obtain ys zs where yz: "en_spawned st1 = en_spawned st @ ys" "\<forall>x \<in> set ys. xs_deletes_job x"
      "en_spawned st2 = en_spawned st1 @ zs" "\<forall>x \<in> set zs. xs_deletes_job x"
    using fired_one_shots_delete[OF f(1)] fired_one_shots_delete[OF f(2)] by blast
  define xs where "xs = ys @ zs"
  have xs: "en_spawned st2 = en_spawned st @ xs" "\<forall>x \<in> set xs. xs_deletes_job x" using yz by (auto simp: xs_def)
  have "name \<in> set (map cs_job_name (cd_specs db))" using job by (auto simp: has_job_def list_ex_iff)
  then obtain spec where spec: "(name, spec) \<in> set ?specs" unfolding names[symmetric] by auto
  have m: "(name, ?f spec) \<in> set specs1" using spec by (force simp: specs1_def)
  let ?P = "\<lambda>(n, s). sp_triggered_at s \<noteq> None \<and> is_lock_fresh (re_locks env) n (effective_lock_ttl s) (re_now env) = Done False"
  let ?X = "\<lambda>(n, s). \<lparr>xs_job = n, xs_spec = s, xs_model = resolve_cron_model s (re_model env), xs_deletes_job = False\<rparr>"
  have "filter (\<lambda>x. xs_job x = name \<and> \<not> xs_deletes_job x) (map ?X (filter ?P specs1)) =
      map ?X (filter (\<lambda>(n, s). n = name \<and> ?P (n, s)) specs1)"
    by (induction specs1) auto
  then have c: "length (filter (\<lambda>x. xs_job x = name \<and> \<not> xs_deletes_job x) (map ?X (filter ?P specs1))) =
      (if is_lock_fresh (re_locks env) name (effective_lock_ttl spec) (re_now env) = Done False then 1 else 0)"
    using one_match[OF d1 m, of ?P] by (simp add: set_trigger_def effective_lock_ttl_def)
  have "filter (\<lambda>x. xs_job x = name \<and> \<not> xs_deletes_job x) xs = []" using xs(2) by (auto simp: filter_empty_conv)
  then have n: "length (filter (\<lambda>x. xs_job x = name \<and> \<not> xs_deletes_job x) (en_spawned st')) =
       length (filter (\<lambda>x. xs_job x = name \<and> \<not> xs_deletes_job x) (en_spawned st)) +
         (if is_lock_fresh (re_locks env) name (effective_lock_ttl spec) (re_now env) = Done False then 1 else 0)"
    using c o xs(1) by simp
  have loaded: "specs1 = load_specs_from_db (re_lib env) (cd_specs db1)" by (simp add: db1 load_triggered specs1_def)
  have "cs_triggered_at r = None" if rin: "r \<in> set (cd_specs db2)" for r
  proof (rule ccontr)
    assume a: "cs_triggered_at r \<noteq> None"
    then obtain r0 where r0: "r0 \<in> set (cd_specs db1)" "r = r0"
        "cs_job_name r0 \<notin> fst ` {(n, s) \<in> set specs1. sp_triggered_at s \<noteq> None}"
      using rin conjunct2[OF o] by (auto split: if_splits)
    have "row_ok (re_lib env) r0" using ok1 r0(1) by (simp add: specs_ok_def list_all_iff)
    then obtain s where "(cs_job_name r0, s) \<in> set specs1" "sp_triggered_at s = cs_triggered_at r0"
      using loaded_row[OF r0(1)] loaded by blast
    then show False using r0 a by force
  qed
  then show ?thesis using k h n map_of_is_SomeI[OF d spec] by auto
qed

definition daily_row :: cron_row where
  "daily_row = new_job_row (text_chars ''daily'') (text_chars ''17 9 * * *'') (text_chars ''p'') None 5"

definition daily_spec :: cron_spec where
  "daily_spec = spec_of_row (Recurring (text_chars ''17 9 * * *'')) None daily_row"

definition daily_engine :: engine where
  "daily_engine = \<lparr>en_handles = [(text_chars ''daily'', daily_spec, 0)], en_next = 1, en_aborted = [], en_spawned = []\<rparr>"

lemma daily_loads: "load_specs_from_db sample_cron_lib [daily_row] = [(text_chars ''daily'', daily_spec)]"
  by code_simp

lemma daily_row_ok: "row_ok sample_cron_lib daily_row" by code_simp

lemma daily_trigger_runs:
  "case trigger_spec [49] (text_chars ''daily'') True None None None None (empty_cron_db\<lparr>cd_specs := [daily_row]\<rparr>) of
     Ok db \<Rightarrow> (case reconcile_jobs sample_reconcile daily_engine db of Done (st, _) \<Rightarrow> length (en_spawned st) = 1 | Panics \<Rightarrow> False)
   | Err _ \<Rightarrow> False"
  by code_simp

theorem trigger_runs_once_witness:
  "\<exists>db1 st' db2. trigger_spec [49] (text_chars ''daily'') True None None None None (empty_cron_db\<lparr>cd_specs := [daily_row]\<rparr>) = Ok db1 \<and>
     reconcile_jobs sample_reconcile daily_engine db1 = Done (st', db2) \<and> en_handles st' = en_handles daily_engine \<and>
     length (filter (\<lambda>x. xs_job x = text_chars ''daily'' \<and> \<not> xs_deletes_job x) (en_spawned st')) = 1"
proof -
  let ?db = "empty_cron_db\<lparr>cd_specs := [daily_row]\<rparr>"
  have specs: "load_specs_from_db (re_lib sample_reconcile) (cd_specs ?db) = [(text_chars ''daily'', daily_spec)]"
    using daily_loads by (simp add: sample_reconcile_def)
  obtain db1 where tr: "trigger_spec [49] (text_chars ''daily'') True None None None None ?db = Ok db1"
    using daily_trigger_runs by (auto split: sum.splits)
  then obtain st' db2 where r: "reconcile_jobs sample_reconcile daily_engine db1 = Done (st', db2)"
    using daily_trigger_runs by (cases "reconcile_jobs sample_reconcile daily_engine db1") auto
  have lib: "cron_lib_ok (re_lib sample_reconcile)" using sample_cron_lib_ok by (simp add: sample_reconcile_def)
  have ok: "specs_ok (re_lib sample_reconcile) ?db" using daily_row_ok by (simp add: specs_ok_def sample_reconcile_def)
  have inv: "engine_inv daily_engine" by (simp add: engine_inv_def daily_engine_def daily_spec_def spec_of_row_def)
  have sync: "loops_of daily_engine = wanted (load_specs_from_db (re_lib sample_reconcile) (cd_specs ?db))"
    unfolding specs by (rule ext) (simp add: loops_of_def wanted_def daily_engine_def daily_spec_def spec_of_row_def)
  have env: "re_listed sample_reconcile" "\<forall>n. re_cleared sample_reconcile n" by (simp_all add: sample_reconcile_def)
  have free: "is_lock_fresh (re_locks sample_reconcile) n ttl t = Done False" for n ttl t
    by (simp add: is_lock_fresh_def sample_reconcile_def)
  from trigger_runs_once[OF lib ok inv sync tr r env] tr r show ?thesis
    unfolding specs by (auto simp: free) (simp add: daily_engine_def)
qed

end
