(* ===== verification/Cron_Run_Props.thy ===== *)
theory Cron_Run_Props
  imports Cron_Engine_Props Delivery_Props
begin

text \<open>
  One execution against the ledger of the owner: the row it opens is closed on every
  path, and it is deliverable exactly when there is something to tell.
\<close>

section \<open>Requests on the row of the run\<close>

definition answered :: "'c job_env \<Rightarrow> bool" where
  "answered env = ((\<forall>op. je_call env op = Answered) \<and> (\<forall>db. je_request_id env db \<notin> set (map fst (lg_requests db))))"

text \<open>The row of the run is the last one, and its id is new.\<close>

definition at_row :: "'c job_env \<Rightarrow> run_row list \<Rightarrow> run_row \<Rightarrow> exec_state \<Rightarrow> bool" where
  "at_row env t row st =
     (lg_runs (xe_ledger st) = t @ [row] \<and> ar_id row = je_run_id env \<and> je_run_id env \<notin> set (run_ids t))"

lemma update_last:
  "i \<notin> set (run_ids t) \<Longrightarrow> ar_id row = i \<Longrightarrow> update_where (\<lambda>r. ar_id r = i) f (t @ [row]) = t @ [f row]"
  by (induction t) (auto simp: update_where_def)

lemma no_record: "answered env \<Longrightarrow> idempotent_response (je_request_id env db) opn db = Ok None"
proof -
  assume "answered env"
  then have "map_of (lg_requests db) (je_request_id env db) = None" by (simp add: answered_def map_of_eq_None_iff)
  then show ?thesis by (simp add: idempotent_response_def)
qed

definition finished_row :: "'c job_env \<Rightarrow> string \<Rightarrow> int option \<Rightarrow> run_row \<Rightarrow> run_row" where
  "finished_row env status code r = r\<lparr>ar_finished_at := Some (je_finished_at env), ar_exit_code := code, ar_status := status\<rparr>"

definition reported_row :: "run_output \<Rightarrow> run_row \<Rightarrow> run_row" where
  "reported_row out r = r\<lparr>ar_run_note := ro_run_note out, ar_delivery_json := ro_delivery_json out,
     ar_error_json := ro_error_json out, ar_delivery_required := ro_delivery_required out,
     ar_delivery_status := (if ro_delivery_required out then ''pending'' else ''none'')\<rparr>"

lemma row_ids [simp]: "ar_id (finished_row env s c r) = ar_id r" "ar_id (reported_row out r) = ar_id r"
  by (simp_all add: finished_row_def reported_row_def)

lemma finish_last:
  assumes "i \<notin> set (run_ids t)" and "ar_id row = i"
  shows "finish_run i code status now (t @ [row]) =
    Ok (t @ [row\<lparr>ar_finished_at := Some now, ar_exit_code := code, ar_status := status\<rparr>])"
  using update_last[OF assms] assms(2) by (simp add: finish_run_def update_run_def has_run_iff ensure_def)

lemma record_at_row:
  assumes "answered env" and "at_row env t row st"
  shows "at_row env t (finished_row env status code row) (update_run_record env status code st)"
    and "xe_locks (update_run_record env status code st) = xe_locks st"
    and "xe_then (update_run_record env status code st) = xe_then st"
  using assms finish_last[of "je_run_id env" t row code status "je_finished_at env"] no_record[OF assms(1), of "xe_ledger st"]
  by (auto simp: update_run_record_def ask_def idempotent_def at_row_def answered_def finished_row_def
      split: prod.splits sum.splits)

lemma persist_last:
  assumes "i \<notin> set (run_ids t)" and "ar_id row = i" and "ro_delivery_required out \<Longrightarrow> ro_delivery_json out \<noteq> None"
  shows "persist_run_output i out (t @ [row]) = Ok (t @ [reported_row out row])"
  using update_last[OF assms(1,2)] assms(2,3)
  by (auto simp: persist_run_output_def update_run_def has_run_iff ensure_def reported_row_def)

lemma persist_at_row:
  assumes "answered env" and "at_row env t row st" and "required \<Longrightarrow> json \<noteq> None"
    and "ask env (persist_request_of env nt json err required status st) st = (ok, st')"
  shows "ok" and "at_row env t (finished_row env status (je_exit env)
      (reported_row \<lparr>ro_run_note = nt, ro_delivery_json = json, ro_error_json = err, ro_delivery_required = required\<rparr> row)) st'"
    and "xe_locks st' = xe_locks st" and "xe_then st' = xe_then st"
proof -
  let ?out = "\<lparr>ro_run_note = nt, ro_delivery_json = json, ro_error_json = err, ro_delivery_required = required\<rparr>"
  let ?r = "\<lparr>pq_request_id = je_request_id env (xe_ledger st), pq_run_id = je_run_id env, pq_output = ?out,
       pq_exit_code = je_exit env, pq_status = status\<rparr>"
  have a: "lg_runs (xe_ledger st) = t @ [row]" "ar_id row = je_run_id env" "je_run_id env \<notin> set (run_ids t)"
    using assms(2) by (simp_all add: at_row_def)
  have "persist_body ?r (je_finished_at env) (t @ [row]) =
      Ok (t @ [finished_row env status (je_exit env) (reported_row ?out row)])"
    using persist_last[OF a(3,2), of ?out] finish_last[OF a(3), of "reported_row ?out row"] a(2) assms(3)
    by (simp add: persist_body_def finished_row_def)
  then obtain q db where r: "run_ledger (persist_request_of env nt json err required status st) (xe_ledger st) = (q, db)"
      "is_ok q" "lg_runs db = t @ [finished_row env status (je_exit env) (reported_row ?out row)]"
    using a(1) no_record[OF assms(1), of "xe_ledger st"] by (simp add: persist_request_of_def idempotent_def)
  then have e: "ok = is_ok q" "st' = st\<lparr>xe_ledger := db\<rparr>"
    using assms(1,4) by (auto simp: ask_def answered_def simp del: run_ledger.simps)
  show ok "xe_locks st' = xe_locks st" "xe_then st' = xe_then st" using e r(2) by simp_all
  show "at_row env t (finished_row env status (je_exit env) (reported_row ?out row)) st'"
    using e(2) r(3) a by (simp add: at_row_def)
qed

section \<open>The end of a run\<close>

text \<open>The execution returns without closing the row when it was forced to report, stayed silent and
  its notice would exceed the limit of a message.\<close>

definition notice_refused :: "'c job_env \<Rightarrow> cron_spec \<Rightarrow> bool" where
  "notice_refused env spec =
     (prepared env \<and> sp_trigger_force_notify spec \<and>
      (\<exists>ls note reason. run_stream env = StreamSuccess ls \<and>
         parse_cron_output (je_json env) (je_reply env) ls = Ok \<lparr>cr_delivery = Silent reason, cr_run_note = note\<rparr> \<and>
         32768 < utf16_len (text_chars ''Verification run '' @ [0x2014] @ text_chars '' nothing to report. '' @ reason)))"

text \<open>What is to be told otherwise: the status of the row and whether a delivery is due.\<close>

definition told_reply :: "'c job_env \<Rightarrow> cron_spec \<Rightarrow> 'c delivery_decision \<Rightarrow> string \<times> bool" where
  "told_reply env spec d =
     (let stored = (case d of
            Notify c \<Rightarrow> je_notify_json env c
          | Silent r \<Rightarrow> if sp_trigger_force_notify spec
              then je_notice_json env (text_chars ''Verification run '' @ [0x2014] @ text_chars '' nothing to report. '' @ r)
              else je_silent_json env r)
      in if stored = None then (''failed'', False)
         else (''success'', case d of Notify c \<Rightarrow> True | Silent r \<Rightarrow> sp_trigger_force_notify spec))"

definition expected_report :: "'c job_env \<Rightarrow> cron_spec \<Rightarrow> string \<times> bool" where
  "expected_report env spec =
     (if \<not> prepared env then (''failed'', False)
      else (case run_stream env of
              StreamFailed ls \<Rightarrow>
                let detail = raw_failure_detail (je_json env) ls (je_stderr env) in
                (''failed'', je_failure_json env (skip_reflection_decision (je_json env) ls
                   (classify_cron_failure (je_exit env) detail (sp_max_budget_usd spec) None)) detail \<noteq> None)
            | StreamSuccess ls \<Rightarrow>
                (case parse_cron_output (je_json env) (je_reply env) ls of
                   Err _ \<Rightarrow> (''failed'', False)
                 | Ok reply \<Rightarrow> told_reply env spec (cr_delivery reply))))"

lemma notice_is_visible: "require_visible (verification_notice r) = Ok ()"
proof -
  have v: "\<not> is_uni_ws 86" by (simp add: is_uni_ws_def)
  obtain cs where n: "verification_notice r = 86 # cs" by (simp add: verification_notice_def text_chars_def)
  have "dropWhile is_uni_ws (rev cs @ [86]) \<noteq> []" using v by (simp add: dropWhile_eq_Nil_conv)
  then show ?thesis using v n by (simp add: require_visible_def trim_chars_def)
qed

lemma reply_refused:
  "is_ok (reply_json env spec d) \<longleftrightarrow>
     \<not> (\<exists>r. d = Silent r \<and> sp_trigger_force_notify spec \<and> 32768 < utf16_len (verification_notice r))"
  by (cases d) (auto simp: reply_json_def validate_source_text_def notice_is_visible MAX_RICH_MESSAGE_UTF16_def
      ensure_def bind_result_def split: if_splits)

text \<open>A closed row: its status and whether the delivery will fetch it.\<close>

definition closed :: "'c job_env \<Rightarrow> run_row list \<Rightarrow> string \<times> bool \<Rightarrow> exec_state \<Rightarrow> bool" where
  "closed env t rep st =
     (\<exists>row. at_row env t row st \<and> ar_finished_at row = Some (je_finished_at env) \<and>
        ar_status row = fst rep \<and> deliverable row = snd rep \<and> \<not> ar_force_notify row)"

definition opened :: "'c job_env \<Rightarrow> run_row list \<Rightarrow> exec_state \<Rightarrow> bool" where
  "opened env t st = (\<exists>row. at_row env t row st \<and> \<not> ar_delivery_required row \<and> \<not> ar_force_notify row \<and>
     ar_status row = ''running'' \<and> ar_finished_at row = None)"

lemma closed_failed:
  assumes "answered env" and "opened env t st"
  shows "closed env t (''failed'', False) (update_run_record env ''failed'' code st)"
proof -
  obtain row where r: "at_row env t row st" "\<not> ar_delivery_required row" "\<not> ar_force_notify row"
    using assms(2) by (auto simp: opened_def)
  show ?thesis unfolding closed_def
    by (rule exI[of _ "finished_row env ''failed'' code row"])
      (use record_at_row(1)[OF assms(1) r(1)] r(2,3) in \<open>simp add: finished_row_def deliverable_def awaits_delivery_def\<close>)
qed

lemma closed_reported:
  assumes "answered env" and "at_row env t row st" and "required \<Longrightarrow> json \<noteq> None" and "status \<in> {''success'', ''failed''}"
    and "\<not> ar_force_notify row" and "ask env (persist_request_of env nt json err required status st) st = (ok, st')"
  shows "ok \<and> closed env t (status, required) st'"
  using persist_at_row(1,2)[OF assms(1,2,3,6)] assms(3,4,5)
  by (auto simp: closed_def finished_row_def reported_row_def deliverable_def awaits_delivery_def)

lemma closed_follow_up [simp]: "closed env t rep (follow_up spec b st) = closed env t rep st"
  by (simp add: closed_def at_row_def follow_up_def)

lemma told_reply_json:
  "is_ok (reply_json env spec d) \<Longrightarrow> told_reply env spec d = (if reply_json env spec d = Ok None then (''failed'', False)
      else (''success'', silent_reason d = None \<or> sp_trigger_force_notify spec))"
  by (cases d) (auto simp: told_reply_def reply_json_def verification_notice_def Let_def bind_result_def
      split: if_splits sum.splits)

lemma finish_success_closed:
  assumes "answered env" and "opened env t st"
  shows "if is_ok (reply_json env spec (cr_delivery reply))
    then closed env t (if reply_json env spec (cr_delivery reply) = Ok None then (''failed'', False)
      else (''success'', silent_reason (cr_delivery reply) = None \<or> sp_trigger_force_notify spec)) (finish_success env spec reply st)
    else opened env t (finish_success env spec reply st)"
proof (cases "reply_json env spec (cr_delivery reply)")
  case (Inl e)
  then show ?thesis using assms(2) by (simp add: finish_success_def)
next
  case (Inr out)
  show ?thesis
  proof (cases out)
    case None
    then show ?thesis using closed_failed[OF assms] Inr by (simp add: finish_success_def)
  next
    case (Some json)
    obtain row where r: "at_row env t row st" and nf: "\<not> ar_force_notify row" using assms(2) by (auto simp: opened_def)
    let ?req = "silent_reason (cr_delivery reply) = None \<or> sp_trigger_force_notify spec"
    obtain ok st1 where a: "ask env (persist_request_of env (Some (cr_run_note reply)) (Some json) None ?req ''success'' st) st = (ok, st1)"
      by fastforce
    have "ok \<and> closed env t (''success'', ?req) st1" by (rule closed_reported[OF assms(1) r _ _ nf a]) simp_all
    then show ?thesis using Some Inr a by (simp add: finish_success_def)
  qed
qed

lemma finish_unparsed_closed:
  assumes "answered env" and "opened env t st"
  shows "closed env t (''failed'', False) (finish_unparsed env spec reason st)"
proof -
  obtain row where r: "at_row env t row st" and nf: "\<not> ar_force_notify row" using assms(2) by (auto simp: opened_def)
  obtain ok st1 where a: "ask env (persist_request_of env None None (Some (je_error_json env ''cron_parse_failed'' (text_chars reason)))
      False ''failed'' st) st = (ok, st1)" by fastforce
  have "ok \<and> closed env t (''failed'', False) st1" by (rule closed_reported[OF assms(1) r _ _ nf a]) simp_all
  then show ?thesis using a by (simp add: finish_unparsed_def)
qed

lemma finish_failed_closed:
  assumes "answered env" and "opened env t st"
  shows "closed env t (let detail = raw_failure_detail (je_json env) ls (je_stderr env) in
                (''failed'', je_failure_json env (skip_reflection_decision (je_json env) ls
                   (classify_cron_failure (je_exit env) detail (sp_max_budget_usd spec) None)) detail \<noteq> None))
    (finish_failed env spec ls st)"
proof -
  let ?d = "raw_failure_detail (je_json env) ls (je_stderr env)"
  let ?j = "je_failure_json env (skip_reflection_decision (je_json env) ls
                   (classify_cron_failure (je_exit env) ?d (sp_max_budget_usd spec) None)) ?d"
  let ?st1 = "update_run_record env ''failed'' (je_exit env) st"
  obtain row where r: "at_row env t row st" and nf: "\<not> ar_force_notify row" using assms(2) by (auto simp: opened_def)
  have r1: "at_row env t (finished_row env ''failed'' (je_exit env) row) ?st1" by (rule record_at_row(1)[OF assms(1) r])
  have nf1: "\<not> ar_force_notify (finished_row env ''failed'' (je_exit env) row)" using nf by (simp add: finished_row_def)
  show ?thesis
  proof (cases ?j)
    case None
    then show ?thesis using closed_failed[OF assms, of "je_exit env"] by (simp add: finish_failed_def Let_def)
  next
    case (Some json)
    obtain ok st2 where a: "ask env (persist_request_of env (Some (take 200 ?d)) (Some json) (Some (je_error_json env ''cron_failed'' ?d)) True
        ''failed'' ?st1) ?st1 = (ok, st2)" by fastforce
    have "ok \<and> closed env t (''failed'', True) st2" by (rule closed_reported[OF assms(1) r1 _ _ nf1 a]) simp_all
    then show ?thesis using Some a by (simp add: finish_failed_def Let_def)
  qed
qed

lemma finish_job_closed:
  assumes "answered env" and "opened env t st" and "prepared env"
  shows "if notice_refused env spec then opened env t (finish_job env spec st)
    else closed env t (expected_report env spec) (finish_job env spec st)"
proof (cases "run_stream env")
  case (StreamFailed ls)
  then show ?thesis using finish_failed_closed[OF assms(1,2)] assms(3)
    by (simp add: finish_job_def expected_report_def notice_refused_def)
next
  case (StreamSuccess ls)
  show ?thesis
  proof (cases "parse_cron_output (je_json env) (je_reply env) ls")
    case (Inl reason)
    then show ?thesis using finish_unparsed_closed[OF assms(1,2)] StreamSuccess assms(3)
      by (simp add: finish_job_def expected_report_def notice_refused_def)
  next
    case (Inr reply)
    have "notice_refused env spec \<longleftrightarrow> \<not> is_ok (reply_json env spec (cr_delivery reply))"
      using Inr StreamSuccess assms(3) unfolding reply_refused notice_refused_def verification_notice_def by (cases reply) auto
    then show ?thesis using finish_success_closed[OF assms(1,2), of spec reply] StreamSuccess Inr assms(3)
      by (auto simp: finish_job_def expected_report_def told_reply_json)
  qed
qed

lemma ask_locks: "ask env op st = (ok, st') \<Longrightarrow> xe_locks st' = xe_locks st"
  by (auto simp: ask_def split: prod.splits call.splits simp del: run_ledger.simps)

lemma record_locks: "xe_locks (update_run_record env status code st) = xe_locks st"
  unfolding update_run_record_def by (rule ask_locks[OF surjective_pairing])

lemma asked_locks: "xe_locks (snd (ask env op st)) = xe_locks st"
  by (rule ask_locks[OF surjective_pairing])

lemma finish_job_locks: "xe_locks (finish_job env spec st) = xe_locks st"
  by (auto simp: finish_job_def finish_success_def finish_unparsed_def finish_failed_def follow_up_def Let_def
      record_locks asked_locks case_prod_beta split: stream_outcome.split sum.split option.split)

lemma executed_run_row:
  assumes "answered env" and "je_run_id env \<notin> set (run_ids (lg_runs (xe_ledger st)))"
    and "is_lock_fresh (xe_locks st) job (effective_lock_ttl spec) (je_now env) = Done False"
    and "je_locks_writable env" and "je_client env" and "sp_chat spec \<noteq> None"
    and "execute_job env job spec st = Done st'"
  shows "\<exists>row. lg_runs (xe_ledger st') = lg_runs (xe_ledger st) @ [row] \<and> ar_id row = je_run_id env \<and>
    (if notice_refused env spec then ar_status row = ''running'' \<and> ar_finished_at row = None \<and> \<not> deliverable row
     else ar_finished_at row = Some (je_finished_at env) \<and> (ar_status row, deliverable row) = expected_report env spec) \<and>
    xe_locks st' job = None \<and> \<not> ar_force_notify row"
proof -
  let ?t = "lg_runs (xe_ledger st)"
  let ?st1 = "st\<lparr>xe_locks := (xe_locks st)(job \<mapsto> Some (je_now env))\<rparr>"
  let ?n = "\<lparr>nc_id = je_run_id env, nc_job_name = job, nc_started_at = je_started_at env,
     nc_log_path = text_chars ''/sandbox/crons/logs/'' @ job @ [45] @ je_run_id env @ text_chars ''.ndjson'',
     nc_chat = sp_chat spec, nc_thread = sp_thread spec, nc_force_notify = False\<rparr>"
  obtain chat where c: "sp_chat spec = Some chat" using assms(6) by blast
  obtain row where i: "insert_running_cron_run ?n ?t = Ok (?t @ [row])" "ar_id row = je_run_id env" "\<not> ar_delivery_required row"
      "\<not> ar_force_notify row" "ar_status row = ''running''" "ar_finished_at row = None"
    using assms(2) c by (auto simp: insert_running_cron_run_def has_run_iff ensure_def)
  obtain ok st2 where a: "ask env (CronInsertRunningRun (je_request_id env (xe_ledger ?st1)) ?n) ?st1 = (ok, st2)" by fastforce
  have s2: "ok" "lg_runs (xe_ledger st2) = ?t @ [row]"
    using a i(1) assms(1) no_record[OF assms(1), of "xe_ledger st"] by (auto simp: ask_def answered_def idempotent_def)
  have o: "opened env ?t (remove_lock job st2)" "opened env ?t st2"
    using s2 i assms(2) by (auto simp: opened_def at_row_def remove_lock_def)
  have st': "st' = (if \<not> prepared env then remove_lock job (update_run_record env ''failed'' None st2)
      else finish_job env spec (remove_lock job st2))"
    using assms(3,4,5,7) a s2(1) by (simp add: execute_job_def Let_def split: if_splits)
  have l: "xe_locks st' job = None" unfolding st' by (simp add: record_locks finish_job_locks remove_lock_def)
  have "if notice_refused env spec then opened env ?t st' else closed env ?t (expected_report env spec) st'"
  proof (cases "prepared env")
    case True
    then show ?thesis using finish_job_closed[OF assms(1) o(1) True, of spec] st' by simp
  next
    case False
    then show ?thesis using closed_failed[OF assms(1) o(2), of None] st'
      by (simp add: expected_report_def notice_refused_def closed_def at_row_def remove_lock_def)
  qed
  moreover have "\<not> ar_delivery_required row \<Longrightarrow> \<not> deliverable row" for row
    by (simp add: deliverable_def awaits_delivery_def)
  ultimately show ?thesis using l by (auto simp: at_row_def closed_def opened_def prod_eq_iff split: if_splits)
qed

text \<open>C21: An execution that got past the lock and whose requests are all answered leaves one new row,
  changes no earlier one and drops its lock.  The row is closed: finished, a success exactly when the
  guest's reply could be read and stored, and deliverable exactly when there is something to tell
  (a notification, a forced report, the notice of a failure).  The only exception is a forced silent
  run whose notice is longer than a message may be: its row stays 'running' and nothing is told.\<close>

theorem executed_run_is_closed:
  assumes "answered env" and "je_run_id env \<notin> set (run_ids (lg_runs (xe_ledger st)))"
    and "is_lock_fresh (xe_locks st) job (effective_lock_ttl spec) (je_now env) = Done False"
    and "je_locks_writable env" and "je_client env" and "sp_chat spec \<noteq> None"
    and "execute_job env job spec st = Done st'"
  shows "\<exists>row. lg_runs (xe_ledger st') = lg_runs (xe_ledger st) @ [row] \<and> ar_id row = je_run_id env \<and>
    (if notice_refused env spec then ar_status row = ''running'' \<and> ar_finished_at row = None \<and> \<not> deliverable row
     else ar_finished_at row = Some (je_finished_at env) \<and> (ar_status row, deliverable row) = expected_report env spec) \<and>
    xe_locks st' job = None"
  using executed_run_row[OF assms] by blast

definition notify_event :: cc_value where
  "notify_event = VObj [(''type'', VText (text_chars ''result'')), (''structured_output'', VInt 1)]"

definition sample_job_env :: "unit job_env" where
  "sample_job_env = \<lparr>je_now = 0, je_started_at = ''s'', je_finished_at = ''f'', je_locks_writable = True, je_client = True,
     je_call = (\<lambda>_. Answered), je_request_id = (\<lambda>db. concat (map fst (lg_requests db)) @ [0]), je_run_id = [7],
     je_registered = True, je_notice_token = Some [1], je_skills = Some [], je_spawned = True, je_timed_out = False,
     je_reads = [ReadLine [2], ReadLine [1], ReadLine [3]], je_exit = Some 0, je_stderr = [],
     je_json = (\<lambda>l. if l = [1] then Some notify_event else None),
     je_reply = \<lparr>rl_decode = (\<lambda>_. Ok \<lparr>cr_delivery = Notify (), cr_run_note = [5]\<rparr>), rl_valid_content = (\<lambda>_. Ok ())\<rparr>,
     je_notify_json = (\<lambda>_. Some [6]), je_silent_json = (\<lambda>_. Some []), je_notice_json = (\<lambda>r. Some r),
     je_error_json = (\<lambda>_ d. d), je_failure_json = (\<lambda>_ d. Some d)\<rparr>"

lemma sample_job_answered: "answered sample_job_env"
proof -
  have "concat xs @ [0] \<notin> set xs" for xs :: "chars list"
    using concat_longer[of "concat xs @ [0]" xs] by auto
  then show ?thesis unfolding answered_def sample_job_env_def by (simp del: set_map)
qed

definition sample_exec_state :: exec_state where
  "sample_exec_state = \<lparr>xe_ledger = empty_ledger, xe_locks = Map.empty, xe_then = []\<rparr>"

lemma sample_job_report: "expected_report sample_job_env (daily_spec\<lparr>sp_chat := Some 5\<rparr>) = (''success'', True)"
  by code_simp

lemma sample_job_runs:
  "case execute_job sample_job_env [97] (daily_spec\<lparr>sp_chat := Some 5\<rparr>) sample_exec_state of Done _ \<Rightarrow> True | Panics \<Rightarrow> False"
  by code_simp

theorem executed_run_is_closed_witness:
  "\<exists>st' row. execute_job sample_job_env [97] (daily_spec\<lparr>sp_chat := Some 5\<rparr>) sample_exec_state = Done st' \<and>
     lg_runs (xe_ledger st') = [row] \<and> ar_status row = ''success'' \<and> deliverable row"
proof -
  obtain st' where e: "execute_job sample_job_env [97] (daily_spec\<lparr>sp_chat := Some 5\<rparr>) sample_exec_state = Done st'"
    using sample_job_runs
    by (cases "execute_job sample_job_env [97] (daily_spec\<lparr>sp_chat := Some 5\<rparr>) sample_exec_state") auto
  have f: "je_run_id sample_job_env \<notin> set (run_ids (lg_runs (xe_ledger sample_exec_state)))"
      "is_lock_fresh (xe_locks sample_exec_state) [97] (effective_lock_ttl (daily_spec\<lparr>sp_chat := Some 5\<rparr>)) (je_now sample_job_env) = Done False"
      "je_locks_writable sample_job_env" "je_client sample_job_env" "sp_chat (daily_spec\<lparr>sp_chat := Some 5\<rparr>) \<noteq> None"
    by (simp_all add: sample_exec_state_def empty_ledger_def is_lock_fresh_def sample_job_env_def)
  have "\<not> notice_refused sample_job_env (daily_spec\<lparr>sp_chat := Some 5\<rparr>)"
    by (simp add: notice_refused_def daily_spec_def spec_of_row_def daily_row_def new_job_row_def)
  with executed_run_is_closed[OF sample_job_answered f e] sample_job_report e show ?thesis
    by (auto simp: sample_exec_state_def empty_ledger_def)
qed

section \<open>Where the code falls short\<close>

text \<open>A trigger that asks for a report without delay: the row does not remember it, so its delivery
  waits for the chat to be idle like any other.\<close>

lemma forced_report_waits_for_idle:
  assumes "answered env" and "je_run_id env \<notin> set (run_ids (lg_runs (xe_ledger st)))"
    and "is_lock_fresh (xe_locks st) job (effective_lock_ttl spec) (je_now env) = Done False"
    and "je_locks_writable env" and "je_client env" and "sp_chat spec \<noteq> None" and "sp_trigger_force_notify spec"
    and "execute_job env job spec st = Done st'"
  shows "\<exists>row. lg_runs (xe_ledger st') = lg_runs (xe_ledger st) @ [row] \<and>
    should_hold_delivery (pd_force_notify (pending_from_row (ar_force_notify row) row)) Normal 0"
  using executed_run_row[OF assms(1-6,8)]
  by (auto simp: should_hold_delivery_def should_wait_for_idle_def pending_from_row_def IDLE_THRESHOLD_SECS_def)

text \<open>The notice of a forced silent run that is too long: the row never ends.\<close>

lemma oversized_notice_leaves_the_run_open:
  assumes "answered env" and "je_run_id env \<notin> set (run_ids (lg_runs (xe_ledger st)))"
    and "is_lock_fresh (xe_locks st) job (effective_lock_ttl spec) (je_now env) = Done False"
    and "je_locks_writable env" and "je_client env" and "sp_chat spec \<noteq> None"
    and "prepared env" and "sp_trigger_force_notify spec" and "run_stream env = StreamSuccess ls"
    and "parse_cron_output (je_json env) (je_reply env) ls = Ok \<lparr>cr_delivery = Silent reason, cr_run_note = note\<rparr>"
    and "32768 < length reason" and "execute_job env job spec st = Done st'"
  shows "\<exists>row. lg_runs (xe_ledger st') = lg_runs (xe_ledger st) @ [row] \<and> ar_status row = ''running'' \<and> \<not> deliverable row"
proof -
  have "length t \<le> utf16_len t" for t by (induction t) (auto simp: utf16_len_def utf16_units_def)
  from this[of "verification_notice reason"] have "32768 < utf16_len (verification_notice reason)"
    using assms(11) by (simp add: verification_notice_def)
  then have "notice_refused env spec" using assms(7-10) by (auto simp: notice_refused_def verification_notice_def)
  then show ?thesis using executed_run_row[OF assms(1-6,12)] by auto
qed

text \<open>A job without a target never runs: the ledger refuses the row.\<close>

lemma untargeted_job_never_runs:
  assumes "answered env" and "sp_chat spec = None" and "execute_job env job spec st = Done st'"
  shows "lg_runs (xe_ledger st') = lg_runs (xe_ledger st) \<and> xe_then st' = xe_then st"
proof -
  let ?st1 = "st\<lparr>xe_locks := (xe_locks st)(job \<mapsto> Some (je_now env))\<rparr>"
  let ?n = "\<lparr>nc_id = je_run_id env, nc_job_name = job, nc_started_at = je_started_at env,
     nc_log_path = text_chars ''/sandbox/crons/logs/'' @ job @ [45] @ je_run_id env @ text_chars ''.ndjson'',
     nc_chat = sp_chat spec, nc_thread = sp_thread spec, nc_force_notify = False\<rparr>"
  obtain ok st2 where a: "ask env (CronInsertRunningRun (je_request_id env (xe_ledger ?st1)) ?n) ?st1 = (ok, st2)" by fastforce
  have s2: "\<not> ok" "xe_ledger st2 = xe_ledger st" "xe_then st2 = xe_then st"
    using a assms(1,2) no_record[OF assms(1), of "xe_ledger st"]
    by (auto simp: ask_def answered_def idempotent_def insert_running_cron_run_def)
  obtain fresh where f: "is_lock_fresh (xe_locks st) job (effective_lock_ttl spec) (je_now env) = Done fresh"
    using assms(3) by (cases "is_lock_fresh (xe_locks st) job (effective_lock_ttl spec) (je_now env)") (auto simp: execute_job_def)
  have "st' = st \<or> st' = remove_lock job ?st1 \<or> st' = remove_lock job st2"
    using assms(3) a s2(1) f by (auto simp: execute_job_def Let_def split: if_splits)
  then show ?thesis using s2 by (auto simp: remove_lock_def)
qed

end
