(* ===== verification/Rich_Content_Props.thy ===== *)
theory Rich_Content_Props
  imports Rich_Content
begin

text \<open>
  Rich content: cutting a text loses no word, every part of a valid document is
  itself a valid message within Telegram's limit, and what the platform adds
  keeps a document valid.
\<close>

section \<open>What a text shows\<close>

definition visible :: "chars \<Rightarrow> chars" where "visible s = filter (\<lambda>c. \<not> is_uni_ws c) s"

fun word_loop :: "chars \<Rightarrow> chars \<Rightarrow> chars list" where
  "word_loop cur [] = (if cur = [] then [] else [cur])"
| "word_loop cur (c # cs) =
     (if is_uni_ws c then (if cur = [] then [] else [cur]) @ word_loop [] cs else word_loop (cur @ [c]) cs)"

definition words :: "chars \<Rightarrow> chars list" where "words s = word_loop [] s"

lemma visible_simps [simp]:
  "visible [] = []" "visible (a @ b) = visible a @ visible b" "visible (rev a) = rev (visible a)"
  "visible (c # a) = (if is_uni_ws c then visible a else c # visible a)"
  by (simp_all add: visible_def rev_filter)

lemma visible_concat: "visible (concat ts) = concat (map visible ts)"
  by (induction ts) auto

lemma visible_dropWhile [simp]: "visible (dropWhile is_uni_ws s) = visible s"
  by (induction s) auto

lemma visible_trims [simp]: "visible (trim_chars s) = visible s" "visible (trim_end s) = visible s"
  by (simp_all add: trim_chars_def trim_end_def)

lemma blank_iff: "visible s = [] \<longleftrightarrow> (\<forall>c \<in> set s. is_uni_ws c)"
  by (auto simp: visible_def filter_empty_conv)

lemma trim_chars_Nil [simp]: "trim_chars s = [] \<longleftrightarrow> visible s = []"
proof
  assume "trim_chars s = []"
  then show "visible s = []" by (metis visible_simps(1) visible_trims(1))
next
  assume "visible s = []"
  then have "dropWhile is_uni_ws s = []" by (simp add: blank_iff)
  then show "trim_chars s = []" unfolding trim_chars_def by (simp only: rev.simps dropWhile.simps)
qed

lemma require_visible_Ok [simp]: "require_visible t = Ok () \<longleftrightarrow> visible t \<noteq> []"
  by (simp add: require_visible_def)

lemma separators_blank [simp]: "is_uni_ws 9" "is_uni_ws 10" "is_uni_ws 13" "is_uni_ws 32" "\<not> is_uni_ws 45"
  by (simp_all add: is_uni_ws_def)

lemma visible_join [simp]: "visible sep = [] \<Longrightarrow> visible (join_with sep ts) = concat (map visible ts)"
  by (induction sep ts rule: join_with.induct) auto

lemma visible_strip_cr [simp]: "visible (strip_cr l) = visible l"
proof (cases "l \<noteq> [] \<and> last l = 13")
  case True
  then have "l = butlast l @ [13]" by (metis append_butlast_last_id)
  then have "visible l = visible (butlast l)" using separators_blank(3)
    by (metis append.right_neutral visible_simps(1,2,4))
  then show ?thesis using True by (simp add: strip_cr_def)
next
  case False
  then show ?thesis by (auto simp: strip_cr_def)
qed

lemma visible_lines: "concat (map visible (line_loop cur s)) = visible cur @ visible s"
  by (induction cur s rule: line_loop.induct) auto

lemma visible_normalize [simp]: "visible (normalize_text t) = visible t"
  using visible_lines[of "[]" t] by (simp add: normalize_text_def o_def)

lemma normalize_Nil [simp]: "normalize_text t = [] \<longleftrightarrow> visible t = []"
  using visible_lines[of "[]" t] by (simp add: normalize_text_def o_def)

lemma word_loop_concat: "concat (word_loop cur s) = cur @ visible s"
  by (induction cur s rule: word_loop.induct) auto

lemma concat_words: "concat (words s) = visible s"
  by (simp add: words_def word_loop_concat)

lemma word_loop_blank: "visible w = [] \<Longrightarrow> word_loop [] (w @ r) = word_loop [] r"
  by (induction w) (auto split: if_splits)

lemma word_loop_cut:
  "visible w = [] \<Longrightarrow> w \<noteq> [] \<Longrightarrow> word_loop cur (p @ w @ r) = word_loop cur p @ word_loop [] r"
proof (induction cur p rule: word_loop.induct)
  case (1 cur)
  then obtain c w' where "w = c # w'" "is_uni_ws c" "visible w' = []" by (cases w) (auto split: if_splits)
  then show ?case using word_loop_blank by simp
qed auto

lemma words_cut: "visible w = [] \<Longrightarrow> w \<noteq> [] \<Longrightarrow> words (p @ w @ r) = words p @ words r"
  by (simp add: words_def word_loop_cut)

section \<open>Cutting a text\<close>

text \<open>The state of the loop: what it counts and what it has closed.\<close>

definition split_inv :: "nat \<Rightarrow> chars list \<times> chars \<times> nat \<times> bool \<Rightarrow> bool" where
  "split_inv n st =
     (case st of (chunks, cur, units, vis) \<Rightarrow>
        units = utf16_len cur \<and> units \<le> n \<and> (vis \<longleftrightarrow> visible cur \<noteq> [])
        \<and> list_all (\<lambda>c. utf16_len c \<le> n \<and> visible c \<noteq> []) chunks)"

lemma utf16_len_simps [simp]:
  "utf16_len [] = 0" "utf16_len (a @ b) = utf16_len a + utf16_len b" "utf16_len (c # a) = utf16_units c + utf16_len a"
  by (simp_all add: utf16_len_def)

lemma utf16_units_bounds: "1 \<le> utf16_units c" "utf16_units c \<le> 2"
  by (simp_all add: utf16_units_def)

lemma utf16_len_encode: "utf16_len s = length (encode_utf16 s)"
  by (induction s) (auto simp: utf16_units_def)

lemma make_room_inv:
  assumes "split_inv n st" "4 \<le> n"
  obtains chunks cur units vis where "make_room n c st = (chunks, cur, units, vis)"
    "split_inv n (chunks, cur, units, vis)" "units + utf16_units c \<le> n"
proof -
  obtain chunks cur units vis where st: "st = (chunks, cur, units, vis)" by (cases st) auto
  have "utf16_units c \<le> 2" "utf16_units (last cur) \<le> 2" by (simp_all add: utf16_units_bounds)
  moreover have "visible cur = [] \<Longrightarrow> cur \<noteq> [] \<Longrightarrow> is_uni_ws (last cur)" by (simp add: blank_iff)
  ultimately have "case make_room n c st of (chunks, cur, units, vis) \<Rightarrow>
      split_inv n (chunks, cur, units, vis) \<and> units + utf16_units c \<le> n"
    using assms by (auto simp: st make_room_def split_inv_def)
  then show ?thesis using that by (auto split: prod.splits)
qed

lemma split_loop_bounds:
  "split_inv n st \<Longrightarrow> 4 \<le> n \<Longrightarrow> list_all (\<lambda>c. utf16_len c \<le> n \<and> visible c \<noteq> []) (split_loop n cs st)"
proof (induction cs arbitrary: st)
  case Nil
  then show ?case by (cases st) (auto simp: split_inv_def)
next
  case (Cons c cs)
  obtain chunks cur units vis where r: "make_room n c st = (chunks, cur, units, vis)"
    "split_inv n (chunks, cur, units, vis)" "units + utf16_units c \<le> n"
    using make_room_inv[OF Cons.prems] by blast
  then have "split_inv n (chunks, cur @ [c], units + utf16_units c, vis \<or> \<not> is_uni_ws c)"
    by (auto simp: split_inv_def)
  then show ?case using Cons r by simp
qed

lemma split_loop_words:
  "split_inv n (chunks, cur, units, vis) \<Longrightarrow> 4 \<le> n
    \<Longrightarrow> words (concat (split_loop n cs (chunks, cur, units, vis))) = words (concat chunks @ cur @ cs)"
proof (induction cs arbitrary: chunks cur units vis)
  case Nil
  show ?case
  proof (cases vis)
    case False
    then have "visible cur = []" using Nil by (simp add: split_inv_def)
    then have "words (concat chunks @ cur) = words (concat chunks)"
      using words_cut[of cur "concat chunks" "[]"] by (cases "cur = []") (auto simp: words_def)
    then show ?thesis using False by simp
  qed simp
next
  case (Cons c cs)
  obtain chunks' cur' units' vis' where r: "make_room n c (chunks, cur, units, vis) = (chunks', cur', units', vis')"
    "split_inv n (chunks', cur', units', vis')" "units' + utf16_units c \<le> n"
    using make_room_inv[OF Cons.prems] by blast
  then have "split_inv n (chunks', cur' @ [c], units' + utf16_units c, vis' \<or> \<not> is_uni_ws c)"
    by (auto simp: split_inv_def)
  then have step: "words (concat (split_loop n (c # cs) (chunks, cur, units, vis))) = words (concat chunks' @ cur' @ c # cs)"
    using Cons.IH Cons.prems(2) r(1) by simp
  consider "concat chunks' @ cur' = concat chunks @ cur"
    | "chunks' = chunks" "cur' = [last cur]" "cur \<noteq> []" "visible cur = []"
    using r(1) Cons.prems(1) by (auto simp: make_room_def split_inv_def split: if_splits)
  then show ?case
  proof cases
    case 1
    then have e: "(concat chunks' @ cur') @ c # cs = (concat chunks @ cur) @ c # cs" by simp
    show ?thesis using e step by (simp only: append_assoc)
  next
    case 2
    then have "is_uni_ws (last cur)" by (simp add: blank_iff)
    then show ?thesis
      using 2 step words_cut[of cur "concat chunks" "c # cs"] words_cut[of "[last cur]" "concat chunks" "c # cs"] by simp
  qed
qed

lemma split_start: "split_inv n ([], [], 0, False)"
  by (simp add: split_inv_def)

lemma split_words: "4 \<le> n \<Longrightarrow> words (concat (split_visible_utf16 t n)) = words t"
  using split_loop_words[OF split_start, of n t] by (simp add: split_visible_utf16_def)

lemma split_visible: "4 \<le> n \<Longrightarrow> visible (concat (split_visible_utf16 t n)) = visible t"
  by (metis concat_words split_words)

lemma split_bounds:
  "4 \<le> n \<Longrightarrow> list_all (\<lambda>c. utf16_len c \<le> n \<and> visible c \<noteq> []) (split_visible_utf16 t n)"
  by (simp add: split_visible_utf16_def split_loop_bounds[OF split_start])

text \<open>C22: cutting a text into messages keeps every word.  Joined again, the pieces hold exactly the
  words of the text in their order, whatever runs of blanks the cuts met; every piece has at most the
  allowed number of UTF-16 code units, which is how Telegram measures, and every piece shows something.\<close>
theorem cutting_keeps_every_word:
  assumes "4 \<le> n"
  shows "words (concat (split_visible_utf16 t n)) = words t
    \<and> list_all (\<lambda>piece. length (encode_utf16 piece) \<le> n \<and> trim_chars piece \<noteq> []) (split_visible_utf16 t n)"
  using split_words[OF assms, of t] split_bounds[OF assms, of t] by (simp add: utf16_len_encode list_all_iff)

lemma cutting_keeps_every_word_witness:
  "split_visible_utf16 [97, 98, 32, 32, 32, 32, 32, 99, 100] 4 = [[97, 98, 32, 32], [32, 32, 32, 99], [100]]
   \<and> words (concat (split_visible_utf16 [97, 98, 32, 32, 32, 32, 32, 99, 100] 4)) = words [97, 98, 32, 32, 32, 32, 32, 99, 100]"
proof
  show "split_visible_utf16 [97, 98, 32, 32, 32, 32, 32, 99, 100] 4 = [[97, 98, 32, 32], [32, 32, 32, 99], [100]]"
    by (simp add: split_visible_utf16_def make_room_def utf16_units_def is_uni_ws_def)
qed (use cutting_keeps_every_word[of 4] in blast)

section \<open>Parts of a document\<close>

lemma utf16_len_concat: "utf16_len (concat ts) = sum_list (map utf16_len ts)"
  by (induction ts) auto

lemma utf16_len_rev [simp]: "utf16_len (rev s) = utf16_len s"
  by (induction s) auto

lemma utf16_len_dropWhile: "utf16_len (dropWhile P s) \<le> utf16_len s"
  by (induction s) auto

lemma utf16_len_trims: "utf16_len (trim_chars s) \<le> utf16_len s" "utf16_len (trim_end s) \<le> utf16_len s"
  using utf16_len_dropWhile[of is_uni_ws] by (metis trim_chars_def utf16_len_rev order.trans, metis trim_end_def utf16_len_rev)

lemma utf16_len_strip_cr: "utf16_len (strip_cr l) \<le> utf16_len l"
proof (cases "l = []")
  case False
  then have "utf16_len l = utf16_len (butlast l) + utf16_units (last l)"
    by (metis append_butlast_last_id utf16_len_simps add.right_neutral)
  then show ?thesis by (simp add: strip_cr_def)
qed (simp add: strip_cr_def)

lemma join_with_Cons: "join_with sep (x # xs) = (if xs = [] then x else x @ sep @ join_with sep xs)"
  by (cases xs) auto

lemma utf16_len_lines: "utf16_len (join_with [10] (map trim_end (line_loop cur s))) \<le> utf16_len cur + utf16_len s"
proof (induction cur s rule: line_loop.induct)
  case (1 cur)
  then show ?case using utf16_len_trims(2)[of cur] by simp
next
  case (2 cur c cs)
  have "utf16_len (trim_end (strip_cr cur)) \<le> utf16_len cur"
    using utf16_len_trims(2)[of "strip_cr cur"] utf16_len_strip_cr[of cur] by linarith
  then show ?case using 2 by (auto simp: join_with_Cons utf16_units_def)
qed

lemma utf16_len_normalize: "utf16_len (normalize_text t) \<le> utf16_len t"
  using utf16_len_lines[of "[]" t] utf16_len_trims(1) order.trans by (fastforce simp: normalize_text_def)

lemma validate_source_text_Ok [simp]:
  "validate_source_text t = Ok () \<longleftrightarrow> visible t \<noteq> [] \<and> utf16_len t \<le> MAX_RICH_MESSAGE_UTF16"
  by (auto simp: validate_source_text_def bind_result_Inr)

lemma all_ok_iff [simp]: "all_ok f xs = Ok () \<longleftrightarrow> (\<forall>x \<in> set xs. f x = Ok ())"
  by (induction xs) (auto simp: bind_result_Inr)

lemma all_ok_append: "all_ok f (xs @ ys) = Ok () \<longleftrightarrow> all_ok f xs = Ok () \<and> all_ok f ys = Ok ()"
  by auto

lemma visible_normalized_blocks: "visible (normalized_blocks bs) = concat (map (\<lambda>b. visible (block_text b)) bs)"
  by (induction bs) (auto simp: normalized_blocks_def join_with_Cons)

lemma valid_blocks_iff:
  "validate_content links (BlocksContent bs) = Ok ()
    \<longleftrightarrow> (\<forall>b \<in> set bs. validate_block links b = Ok ()) \<and> (\<exists>b \<in> set bs. visible (block_text b) \<noteq> [])"
  by (auto simp: bind_result_Inr visible_normalized_blocks)

text \<open>A message within the limit: a piece of text, or blocks of the document.\<close>

definition part_of :: "block set \<Rightarrow> rich_content \<Rightarrow> bool" where
  "part_of B p \<longleftrightarrow> utf16_len (normalized_text p) \<le> MAX_RICH_MESSAGE_UTF16
     \<and> (case p of TextContent t \<Rightarrow> visible t \<noteq> [] \<and> utf16_len t \<le> MAX_RICH_MESSAGE_UTF16
        | BlocksContent bs \<Rightarrow> bs \<noteq> [] \<and> set bs \<subseteq> B \<and> (\<forall>b \<in> set bs. block_text b \<noteq> []))"

definition shown :: "rich_content list \<Rightarrow> chars" where
  "shown parts = concat (map (\<lambda>p. visible (normalized_text p)) parts)"

lemma shown_simps [simp]:
  "shown [] = []" "shown (a @ b) = shown a @ shown b" "shown (p # ps) = visible (normalized_text p) @ shown ps"
  by (simp_all add: shown_def)

lemma max_rich: "4 \<le> MAX_RICH_MESSAGE_UTF16"
  by (simp add: MAX_RICH_MESSAGE_UTF16_def)

lemma text_parts_ok:
  "list_all (part_of B) (map TextContent (split_visible_utf16 t MAX_RICH_MESSAGE_UTF16))"
proof -
  have "part_of B (TextContent u)" if "utf16_len u \<le> MAX_RICH_MESSAGE_UTF16" "visible u \<noteq> []" for u
    using that utf16_len_normalize[of u] by (simp add: part_of_def)
  then show ?thesis using split_bounds[OF max_rich, of t] by (auto simp: list_all_iff)
qed

lemma text_parts_visible [simp]: "shown (map TextContent (split_visible_utf16 t MAX_RICH_MESSAGE_UTF16)) = visible t"
  using split_visible[OF max_rich, of t] by (simp add: shown_def o_def visible_concat)

lemma join_with_snoc: "join_with sep (xs @ [y]) = (if xs = [] then y else join_with sep xs @ sep @ y)"
  by (induction xs) (auto simp: join_with_Cons)

lemma normalized_blocks_snoc:
  "block_text b \<noteq> [] \<Longrightarrow> \<forall>c \<in> set bs. block_text c \<noteq> []
    \<Longrightarrow> normalized_blocks (bs @ [b]) = (if bs = [] then block_text b else normalized_blocks bs @ [10, 10] @ block_text b)"
  using join_with_snoc[of "[10, 10]" "map block_text bs" "block_text b"]
  by (simp add: normalized_blocks_def filter_map o_def filter_id_conv)

definition batch_ok :: "block set \<Rightarrow> block list \<Rightarrow> nat \<Rightarrow> bool" where
  "batch_ok B batch units \<longleftrightarrow> units = utf16_len (normalized_blocks batch) \<and> units \<le> MAX_RICH_MESSAGE_UTF16
     \<and> set batch \<subseteq> B \<and> (\<forall>b \<in> set batch. block_text b \<noteq> [])"

lemma empty_batch_ok: "batch_ok B [] 0"
  by (simp add: batch_ok_def normalized_blocks_def)

lemma push_ok:
  "list_all (part_of B) parts \<Longrightarrow> batch_ok B batch units \<Longrightarrow> list_all (part_of B) (push_block_batch parts batch)"
  by (auto simp: push_block_batch_def batch_ok_def part_of_def)

lemma push_shown [simp]: "shown (push_block_batch parts batch) = shown parts @ visible (normalized_blocks batch)"
  by (simp add: push_block_batch_def normalized_blocks_def)

lemma batch_grows:
  "batch_ok B batch units \<Longrightarrow> b \<in> B \<Longrightarrow> block_text b \<noteq> []
    \<Longrightarrow> units + (if batch = [] then 0 else 2) + utf16_len (block_text b) \<le> MAX_RICH_MESSAGE_UTF16
    \<Longrightarrow> batch_ok B (batch @ [b]) (units + (if batch = [] then 0 else 2) + utf16_len (block_text b))"
  by (cases "batch = []") (auto simp: batch_ok_def normalized_blocks_snoc utf16_units_def, simp add: normalized_blocks_def)

lemma split_block_loop_ok:
  "list_all (part_of B) parts \<Longrightarrow> batch_ok B batch units \<Longrightarrow> set bs \<subseteq> B \<Longrightarrow> \<forall>b \<in> set bs. block_text b \<noteq> []
    \<Longrightarrow> list_all (part_of B) (split_block_loop bs parts batch units)
      \<and> shown (split_block_loop bs parts batch units)
          = shown parts @ visible (normalized_blocks batch) @ visible (normalized_blocks bs)"
proof (induction bs arbitrary: parts batch units)
  case Nil
  then show ?case using push_ok by (simp add: normalized_blocks_def)
next
  case (Cons b bs)
  note prem = Cons.prems
  let ?t = "block_text b" and ?n = "utf16_len (block_text b)"
  let ?full = "batch \<noteq> [] \<and> MAX_RICH_MESSAGE_UTF16 < units + 2 + ?n"
  have b: "b \<in> B" "?t \<noteq> []" using prem by auto
  have rest: "set bs \<subseteq> B" "\<forall>b \<in> set bs. block_text b \<noteq> []" using prem by auto
  consider "MAX_RICH_MESSAGE_UTF16 < ?n" | "?n \<le> MAX_RICH_MESSAGE_UTF16" ?full
    | "?n \<le> MAX_RICH_MESSAGE_UTF16" "\<not> ?full" by linarith
  then show ?case
  proof cases
    case 1
    have "list_all (part_of B) (push_block_batch parts batch @ map TextContent (split_visible_utf16 ?t MAX_RICH_MESSAGE_UTF16))"
      using push_ok[OF prem(1,2)] text_parts_ok by simp
    from Cons.IH[OF this empty_batch_ok rest] show ?thesis using 1 by (simp add: visible_normalized_blocks)
  next
    case 2
    have "batch_ok B [b] ?n" using batch_grows[OF empty_batch_ok b] 2 by simp
    from Cons.IH[OF push_ok[OF prem(1,2)] this rest] show ?thesis
      using 2 by (simp add: Let_def visible_normalized_blocks)
  next
    case 3
    then have "batch_ok B (batch @ [b]) (units + (if batch = [] then 0 else 2) + ?n)"
      using prem(2) by (intro batch_grows[OF _ b]) (auto simp: batch_ok_def normalized_blocks_def split: if_splits)
    from Cons.IH[OF prem(1) this rest] show ?thesis
      using 3 by (auto simp: Let_def visible_normalized_blocks)
  qed
qed

lemma parts_ok:
  "list_all (part_of (case c of TextContent _ \<Rightarrow> {} | BlocksContent bs \<Rightarrow> set bs)) (delivery_parts c)
   \<and> shown (delivery_parts c) = visible (normalized_text c)"
proof (cases c)
  case (TextContent t)
  then show ?thesis using text_parts_ok by simp
next
  case (BlocksContent bs)
  let ?vis = "filter (\<lambda>b. block_text b \<noteq> []) bs"
  have "concat (map (\<lambda>b. visible (block_text b)) ?vis) = concat (map (\<lambda>b. visible (block_text b)) bs)"
    by (induction bs) auto
  moreover have "list_all (part_of (set bs)) (split_blocks bs)
      \<and> shown (split_blocks bs) = shown [] @ visible (normalized_blocks []) @ visible (normalized_blocks ?vis)"
    unfolding split_blocks_def by (intro split_block_loop_ok empty_batch_ok) auto
  ultimately show ?thesis using BlocksContent by (simp add: visible_normalized_blocks)
qed

text \<open>A table whose cells are all empty passes the validation, and its text is only separators.\<close>

definition blank_table :: "block \<Rightarrow> bool" where
  "blank_table b = (case b of Table rows \<Rightarrow> visible (block_text b) = [] | _ \<Rightarrow> False)"

lemma validate_runs_visible: "validate_runs links False rs = Ok () \<Longrightarrow> visible (runs_text rs) \<noteq> []"
  by (auto simp: validate_runs_def bind_result_Inr)

lemma valid_block_shows:
  assumes "validate_block links b = Ok ()" "\<not> blank_table b"
  shows "visible (block_text b) \<noteq> []"
proof (cases b)
  case (ListBlock ordered items)
  then obtain rs items' where "items = rs # items'" "visible (runs_text rs) \<noteq> []"
    using assms(1) validate_runs_visible by (cases items) (auto simp: bind_result_Inr)
  then show ?thesis using ListBlock by (auto simp: join_with_Cons)
qed (use assms validate_runs_visible in \<open>auto simp: bind_result_Inr blank_table_def\<close>)

definition blank_free :: "rich_content \<Rightarrow> bool" where
  "blank_free c = (case c of TextContent _ \<Rightarrow> True | BlocksContent bs \<Rightarrow> list_all (\<lambda>b. \<not> blank_table b) bs)"

text \<open>The parts a valid document is sent in show together exactly what the document shows, in its
  order; the text of every part fits in one message; and when the document has no table of empty cells,
  every part is itself a valid document, so none is refused as empty or too long.\<close>
theorem parts_are_valid_messages:
  assumes "validate_content links c = Ok ()" "blank_free c"
  shows "concat (map (\<lambda>p. visible (normalized_text p)) (delivery_parts c)) = visible (normalized_text c)
    \<and> delivery_parts c \<noteq> []
    \<and> list_all (\<lambda>p. validate_content links p = Ok ()
        \<and> length (encode_utf16 (normalized_text p)) \<le> MAX_RICH_MESSAGE_UTF16) (delivery_parts c)"
proof -
  have shows_it: "shown (delivery_parts c) = visible (normalized_text c)"
    and parts: "list_all (part_of (case c of TextContent _ \<Rightarrow> {} | BlocksContent bs \<Rightarrow> set bs)) (delivery_parts c)"
    using parts_ok by blast+
  have "visible (normalized_text c) \<noteq> []"
    using assms(1) by (cases c) (auto simp: bind_result_Inr)
  then have "delivery_parts c \<noteq> []" using shows_it by auto
  moreover have "validate_content links p = Ok ()" if "p \<in> set (delivery_parts c)" for p
  proof (cases p)
    case (TextContent t)
    then show ?thesis using parts that by (auto simp: list_all_iff part_of_def)
  next
    case (BlocksContent bs)
    have "part_of (case c of TextContent _ \<Rightarrow> {} | BlocksContent bs \<Rightarrow> set bs) p"
      using parts that by (simp add: list_all_iff)
    then obtain cs where c: "c = BlocksContent cs" "bs \<noteq> []" "set bs \<subseteq> set cs"
      using BlocksContent by (cases c) (auto simp: part_of_def)
    have ok: "\<forall>b \<in> set bs. validate_block links b = Ok () \<and> \<not> blank_table b"
      using assms unfolding c(1) valid_blocks_iff blank_free_def using c(3) by (auto simp: list_all_iff)
    then show ?thesis
      using c(2) valid_block_shows BlocksContent
      by (simp only: valid_blocks_iff) (metis last_in_set)
  qed
  ultimately show ?thesis
    using shows_it parts by (auto simp: shown_def list_all_iff part_of_def utf16_len_encode)
qed

lemma plain_runs [simp]:
  "validate_runs links False [plain_run s] = Ok () \<longleftrightarrow> visible s \<noteq> []"
  "visible (runs_text [plain_run s]) = visible s"
  by (auto simp: plain_run_def validate_runs_def validate_run_def run_marks_def runs_text_def bind_result_Inr)

lemma plain_paragraph [simp]:
  "validate_block links (Paragraph [plain_run s]) = Ok () \<longleftrightarrow> visible s \<noteq> []"
  "visible (block_text (Paragraph [plain_run s])) = visible s"
  by simp_all

lemma parts_are_valid_messages_witness:
  "validate_content (\<lambda>_. None) (BlocksContent [Paragraph [plain_run [104, 105, 32]], ListBlock False [[plain_run [97]]]]) = Ok ()
   \<and> concat (map (\<lambda>p. visible (normalized_text p)) (delivery_parts (BlocksContent [Paragraph [plain_run [104, 105, 32]], ListBlock False [[plain_run [97]]]])))
     = [104, 105, 45, 97]"
proof -
  let ?c = "BlocksContent [Paragraph [plain_run [104, 105, 32]], ListBlock False [[plain_run [97]]]]"
  have small: "\<not> is_uni_ws 104" "\<not> is_uni_ws 105" "\<not> is_uni_ws 97" by (simp_all add: is_uni_ws_def)
  have prefix: "visible (list_prefix False 0) = [45]" by (simp add: list_prefix_def text_chars_def is_uni_ws_def)
  have valid: "validate_content (\<lambda>_. None) ?c = Ok ()" unfolding valid_blocks_iff by (simp add: small ensure_def bind_result_Inr)
  have "visible (normalized_text ?c) = [104, 105, 45, 97]"
    by (simp add: visible_normalized_blocks small prefix)
  moreover have "blank_free ?c" by (simp add: blank_free_def blank_table_def)
  ultimately show ?thesis using parts_are_valid_messages[OF valid] valid by simp
qed

text \<open>The filter that is to drop blocks without text looks for the empty text, so a table of empty
  cells can end up in a message of its own, which no validation would accept.\<close>

lemma blank_table_is_sent_alone:
  assumes "utf16_len (block_text b) = MAX_RICH_MESSAGE_UTF16" "validate_block links b = Ok ()" "\<not> blank_table b"
  shows "validate_content links (BlocksContent [b, Table [[[], []]]]) = Ok ()"
    "delivery_parts (BlocksContent [b, Table [[[], []]]]) = [BlocksContent [b], BlocksContent [Table [[[], []]]]]"
    "validate_content links (BlocksContent [Table [[[], []]]]) = Err EmptyContent"
proof -
  have "visible (block_text b) \<noteq> []" using valid_block_shows assms(2,3) by blast
  then have b: "visible (block_text b) \<noteq> []" "block_text b \<noteq> []" by auto
  have t: "block_text (Table [[[], []]]) = [9]" "validate_block links (Table [[[], []]]) = Ok ()"
    by (simp_all add: runs_text_def normalize_text_def trim_chars_def validate_runs_def bind_result_Inr)
  then show "validate_content links (BlocksContent [b, Table [[[], []]]]) = Ok ()"
    using assms(2) b unfolding valid_blocks_iff by simp
  show "validate_content links (BlocksContent [Table [[[], []]]]) = Err EmptyContent"
    using t by (simp add: require_visible_def ensure_def visible_normalized_blocks del: validate_block.simps block_text.simps)
  show "delivery_parts (BlocksContent [b, Table [[[], []]]]) = [BlocksContent [b], BlocksContent [Table [[[], []]]]]"
    using b t assms(1) max_rich by (simp add: split_blocks_def push_block_batch_def utf16_units_def Let_def del: block_text.simps)
qed

section \<open>Texts of the platform\<close>

lemma platform_blocks_ok:
  "\<forall>b \<in> set (platform_blocks t). validate_block links b = Ok () \<and> \<not> blank_table b"
  "concat (map (\<lambda>b. visible (block_text b)) (platform_blocks t)) = visible t"
proof -
  have "\<forall>c \<in> set (split_visible_utf16 (normalize_text t) MAX_RICH_MESSAGE_UTF16). visible c \<noteq> []"
    using split_bounds[OF max_rich, of "normalize_text t"] by (auto simp: list_all_iff)
  then show "\<forall>b \<in> set (platform_blocks t). validate_block links b = Ok () \<and> \<not> blank_table b"
    by (auto simp: platform_blocks_def blank_table_def simp del: validate_block.simps block_text.simps)
  show "concat (map (\<lambda>b. visible (block_text b)) (platform_blocks t)) = visible t"
    using split_visible[OF max_rich, of "normalize_text t"]
    by (simp add: platform_blocks_def o_def visible_concat del: block_text.simps)
qed

text \<open>What the platform adds keeps a document valid.  The document with a platform paragraph before
  or after it is valid, gains no table of empty cells, and shows the added text and the document one
  after the other; a platform text of any length is a valid document that shows all of it.\<close>
theorem platform_text_keeps_validity:
  assumes "validate_content links c = Ok ()" "visible t \<noteq> []"
  shows "validate_content links (insert_platform_paragraph t prepend c) = Ok ()
    \<and> (blank_free c \<longrightarrow> blank_free (insert_platform_paragraph t prepend c))
    \<and> visible (normalized_text (insert_platform_paragraph t prepend c))
        = (if prepend then visible t @ visible (normalized_text c) else visible (normalized_text c) @ visible t)
    \<and> platform_text t = Ok (BlocksContent (platform_blocks t))
    \<and> validate_content links (BlocksContent (platform_blocks t)) = Ok ()
    \<and> visible (normalized_text (BlocksContent (platform_blocks t))) = visible t"
proof -
  note pb = platform_blocks_ok(1)[of t links] platform_blocks_ok(2)[of t]
  obtain b where b: "b \<in> set (platform_blocks t)" "visible (block_text b) \<noteq> []"
    using assms(2) pb(2) by (metis (no_types, lifting) concat_eq_Nil_conv image_iff list.set_map)
  have pure: "validate_content links (BlocksContent (platform_blocks t)) = Ok ()"
    unfolding valid_blocks_iff using pb(1) b by blast
  have own: "platform_text t = Ok (BlocksContent (platform_blocks t))"
    using assms(2) by (simp add: platform_text_def require_visible_def ensure_def)
  show ?thesis
  proof (cases c)
    case (TextContent s)
    then have "visible s \<noteq> []" using assms(1) by simp
    then show ?thesis
      unfolding TextContent insert_platform_paragraph.simps Let_def valid_blocks_iff
      using pb b pure own by (auto simp: visible_normalized_blocks blank_free_def blank_table_def list_all_iff
          simp del: validate_block.simps block_text.simps)
  next
    case (BlocksContent bs)
    then have "(\<forall>b \<in> set bs. validate_block links b = Ok ())" using assms(1) unfolding BlocksContent valid_blocks_iff by blast
    then show ?thesis
      unfolding BlocksContent insert_platform_paragraph.simps valid_blocks_iff
      using pb b pure own by (auto simp: visible_normalized_blocks blank_free_def list_all_iff
          simp del: validate_block.simps block_text.simps)
  qed
qed

lemma platform_text_keeps_validity_witness:
  "validate_content (\<lambda>_. None) (insert_platform_paragraph [104, 105] True (TextContent [97, 32, 98])) = Ok ()
   \<and> visible (normalized_text (insert_platform_paragraph [104, 105] True (TextContent [97, 32, 98]))) = [104, 105, 97, 98]"
  using platform_text_keeps_validity[of "\<lambda>_. None" "TextContent [97, 32, 98]" "[104, 105]" True]
  by (simp add: is_uni_ws_def utf16_units_def MAX_RICH_MESSAGE_UTF16_def)

end
