(* ===== verification/Tg_Send.thy ===== *)
theory Tg_Send
  imports Rich_Content_Props
begin

text \<open>
  Sending to Telegram (\<^verbatim>\<open>bot/src/telegram/tg_bot.rs\<close>, \<^verbatim>\<open>rich_content.rs\<close>): the gate that spaces
  the sends to one chat, the retry of a rate-limited call, and the delivery of
  rich content in parts.  The HTTP client is an argument that sees the calls
  made so far; the chat, the topic and the reply are the same for all calls of
  one delivery and are left out.
\<close>

section \<open>The gate\<close>

definition DEFAULT_PER_CHAT_INTERVAL :: millis where "DEFAULT_PER_CHAT_INTERVAL = 1000"
definition THROTTLE_PRUNE_INTERVAL :: nat where "THROTTLE_PRUNE_INTERVAL = 256"

text \<open>The per-minute and global limiters are a library's; they only delay a send further.\<close>

record throttle =
  th_interval :: millis
  th_next :: "int \<rightharpoonup> millis"
  th_count :: "64 word"

definition new_throttle :: "millis \<Rightarrow> throttle" where
  "new_throttle interval = \<lparr>th_interval = interval, th_next = Map.empty, th_count = 0\<rparr>"

text \<open>The instant granted to a send, and the reservation it leaves.\<close>

definition acquire_slot :: "millis \<Rightarrow> int \<Rightarrow> throttle \<Rightarrow> millis \<times> throttle" where
  "acquire_slot now chat th =
     (let at = max (case th_next th chat of Some s \<Rightarrow> s | None \<Rightarrow> now) now
      in (at, th\<lparr>th_next := (th_next th)(chat \<mapsto> at + th_interval th)\<rparr>))"

definition maybe_prune :: "millis \<Rightarrow> throttle \<Rightarrow> throttle" where
  "maybe_prune now th =
     (let th1 = th\<lparr>th_count := th_count th + 1\<rparr> in
      if unat (th_count th) mod THROTTLE_PRUNE_INTERVAL \<noteq> 0 then th1
      else th1\<lparr>th_next := (\<lambda>c. case th_next th c of None \<Rightarrow> None | Some n \<Rightarrow> if now < n then Some n else None)\<rparr>)"

section \<open>Retries\<close>

text \<open>An error of the Bot API carries its code, its text and perhaps a time to wait.\<close>

datatype tg_error = ApiError nat chars "int option" | ClientError chars | DownloadError chars | TimedOut millis | OtherError chars

definition MAX_429_RETRIES :: nat where "MAX_429_RETRIES = 3"
definition TELEGRAM_TEXT_TIMEOUT :: millis where "TELEGRAM_TEXT_TIMEOUT = secs 30"

fun retry_after_secs :: "tg_error \<Rightarrow> int option" where
  "retry_after_secs (ApiError _ _ after) = after"
| "retry_after_secs _ = None"

text \<open>An attempt is answered, or it stalls; a stalled attempt without a ceiling never returns.  The
  result comes with the sleeps that were slept.\<close>

datatype 'a attempt = Answers "tg_error + 'a" | Stalls

function with_retry_loop :: "(nat \<Rightarrow> 'a attempt) \<Rightarrow> millis option \<Rightarrow> nat \<Rightarrow> millis list \<Rightarrow> ((tg_error + 'a) \<times> millis list) option" where
  "with_retry_loop call ceiling attempt slept =
     (case call attempt of
        Stalls \<Rightarrow> map_option (\<lambda>d. (Err (TimedOut d), slept)) ceiling
      | Answers (Ok v) \<Rightarrow> Some (Ok v, slept)
      | Answers (Err e) \<Rightarrow>
          (case retry_after_secs e of
             Some after \<Rightarrow>
               if attempt < MAX_429_RETRIES then with_retry_loop call ceiling (attempt + 1) (slept @ [secs after])
               else Some (Err e, slept)
           | None \<Rightarrow> Some (Err e, slept)))"
  by pat_completeness auto
termination by (relation "measure (\<lambda>(call, ceiling, attempt, slept). MAX_429_RETRIES - attempt)") auto

declare with_retry_loop.simps [simp del]

definition with_retry_bounded :: "(nat \<Rightarrow> 'a attempt) \<Rightarrow> millis option \<Rightarrow> ((tg_error + 'a) \<times> millis list) option" where
  "with_retry_bounded call ceiling = with_retry_loop call ceiling 0 []"

definition with_retry_text :: "(nat \<Rightarrow> 'a attempt) \<Rightarrow> ((tg_error + 'a) \<times> millis list) option" where
  "with_retry_text call = with_retry_bounded call (Some TELEGRAM_TEXT_TIMEOUT)"

section \<open>Calls\<close>

datatype outbound_kind = Photo | Document | Video | Audio | Voice | VideoNote | Sticker | Animation

text \<open>The calls of a delivery with the keyboard they carry; an upload carries the bytes of its file.\<close>

datatype tg_call =
    RichCall rich_content "chars option"
  | PlainCall chars "chars option"
  | MediaCall outbound_kind "nat list"
  | AlbumCall "(outbound_kind \<times> nat list) list"

type_synonym exchange = "(tg_call \<times> (tg_error + int list)) list"

record telegram =
  ta_one :: "exchange \<Rightarrow> tg_call \<Rightarrow> tg_error + int"
  ta_album :: "exchange \<Rightarrow> tg_call \<Rightarrow> tg_error + int list"

definition ask_one :: "telegram \<Rightarrow> tg_call \<Rightarrow> exchange \<Rightarrow> (tg_error + int) \<times> exchange" where
  "ask_one tg c log = (ta_one tg log c, log @ [(c, case ta_one tg log c of Err e \<Rightarrow> Err e | Ok m \<Rightarrow> Ok [m])])"

definition ask_album :: "telegram \<Rightarrow> tg_call \<Rightarrow> exchange \<Rightarrow> (tg_error + int list) \<times> exchange" where
  "ask_album tg c log = (ta_album tg log c, log @ [(c, ta_album tg log c)])"

section \<open>Rich content\<close>

record rich_outcome =
  so_delivered :: "int list"
  so_text :: chars
  so_error :: "tg_error option"

definition no_outcome :: rich_outcome where
  "no_outcome = \<lparr>so_delivered = [], so_text = [], so_error = None\<rparr>"

abbreviation is_complete :: "rich_outcome \<Rightarrow> bool" where "is_complete r \<equiv> so_error r = None"

definition append_delivered_text :: "chars \<Rightarrow> chars \<Rightarrow> chars" where
  "append_delivered_text s fragment = (if s = [] then fragment else s @ [10, 10] @ fragment)"

definition add_delivered :: "chars \<Rightarrow> int \<Rightarrow> rich_outcome \<Rightarrow> rich_outcome" where
  "add_delivered t m r = r\<lparr>so_text := append_delivered_text (so_text r) t, so_delivered := so_delivered r @ [m]\<rparr>"

definition record_terminal :: "tg_error \<Rightarrow> rich_outcome \<Rightarrow> rich_outcome" where
  "record_terminal e r = (if so_error r = None then r\<lparr>so_error := Some e\<rparr> else r)"

definition split_plain :: "chars \<Rightarrow> chars list" where
  "split_plain t = split_visible_utf16 t MAX_PLAIN_MESSAGE_UTF16"

fun is_retryable_rich_content_error :: "tg_error \<Rightarrow> bool" where
  "is_retryable_rich_content_error (ApiError code description after) =
     (code = 400 \<and> (let d = map lower_cp description in
        list_ex (\<lambda>known. has_text known d)
          [''unsupported rich block'', ''rich message is too long'', ''rich text is too long'', ''can't parse rich'',
           ''cannot parse rich'', ''invalid rich'', ''rich message format'']))"
| "is_retryable_rich_content_error _ = False"

fun send_chunks :: "telegram \<Rightarrow> chars option \<Rightarrow> chars list \<Rightarrow> rich_outcome \<times> exchange \<Rightarrow> rich_outcome \<times> exchange" where
  "send_chunks tg markup [] st = st"
| "send_chunks tg markup (c # cs) (r, log) =
     (case ask_one tg (PlainCall c (if cs = [] then markup else None)) log of
        (Ok m, log') \<Rightarrow> send_chunks tg markup cs (add_delivered c m r, log')
      | (Err e, log') \<Rightarrow> send_chunks tg markup cs (record_terminal e r, log'))"

fun send_parts :: "telegram \<Rightarrow> chars option \<Rightarrow> rich_content list \<Rightarrow> rich_outcome \<times> exchange \<Rightarrow> rich_outcome \<times> exchange" where
  "send_parts tg markup [] st = st"
| "send_parts tg markup (p # ps) (r, log) =
     (let mk = (if ps = [] then markup else None) in
      case ask_one tg (RichCall p mk) log of
        (Ok m, log') \<Rightarrow> send_parts tg markup ps (add_delivered (normalized_text p) m r, log')
      | (Err e, log') \<Rightarrow>
          if is_retryable_rich_content_error e
          then send_parts tg markup ps (send_chunks tg mk (split_plain (normalized_text p)) (r, log'))
          else send_parts tg markup ps (record_terminal e r, log'))"

definition send_rich :: "telegram \<Rightarrow> chars option \<Rightarrow> rich_content \<Rightarrow> exchange \<Rightarrow> rich_outcome \<times> exchange" where
  "send_rich tg markup c log = send_parts tg markup (delivery_parts c) (no_outcome, log)"

text \<open>The variant for channels returns at the first failure.\<close>

fun chunks_until_failure :: "telegram \<Rightarrow> chars list \<Rightarrow> rich_outcome \<times> exchange \<Rightarrow> rich_outcome \<times> exchange" where
  "chunks_until_failure tg [] st = st"
| "chunks_until_failure tg (c # cs) (r, log) =
     (case ask_one tg (PlainCall c None) log of
        (Ok m, log') \<Rightarrow> chunks_until_failure tg cs (add_delivered c m r, log')
      | (Err e, log') \<Rightarrow> (r\<lparr>so_error := Some e\<rparr>, log'))"

fun parts_until_failure :: "telegram \<Rightarrow> rich_content list \<Rightarrow> rich_outcome \<times> exchange \<Rightarrow> rich_outcome \<times> exchange" where
  "parts_until_failure tg [] st = st"
| "parts_until_failure tg (p # ps) (r, log) =
     (case ask_one tg (RichCall p None) log of
        (Ok m, log') \<Rightarrow> parts_until_failure tg ps (add_delivered (normalized_text p) m r, log')
      | (Err e, log') \<Rightarrow>
          if is_retryable_rich_content_error e
          then (case chunks_until_failure tg (split_plain (normalized_text p)) (r, log') of
                  (r', log'') \<Rightarrow> if is_complete r' then parts_until_failure tg ps (r', log'') else (r', log''))
          else (r\<lparr>so_error := Some e\<rparr>, log'))"

definition send_until_failure :: "telegram \<Rightarrow> rich_content \<Rightarrow> exchange \<Rightarrow> rich_outcome \<times> exchange" where
  "send_until_failure tg c log = parts_until_failure tg (delivery_parts c) (no_outcome, log)"

end
