(* ===== verification/Tg_Send_Props.thy ===== *)
theory Tg_Send_Props
  imports Tg_Send
begin

text \<open>
  What sending guarantees: sends to one chat are granted a second apart, a
  rate-limited call is tried at most four times and always returns, and the
  outcome of a delivery says exactly what Telegram accepted.
\<close>

section \<open>The gate\<close>

datatype gate_event = Acquire millis int | Prune millis

fun event_time :: "gate_event \<Rightarrow> millis" where
  "event_time (Acquire t c) = t" | "event_time (Prune t) = t"

text \<open>The instants granted, with their chats, in the order of the calls.\<close>

fun gate_run :: "gate_event list \<Rightarrow> throttle \<Rightarrow> (int \<times> millis) list" where
  "gate_run [] th = []"
| "gate_run (Acquire t c # es) th = (case acquire_slot t c th of (at, th') \<Rightarrow> (c, at) # gate_run es th')"
| "gate_run (Prune t # es) th = gate_run es (maybe_prune t th)"

definition slots_of :: "int \<Rightarrow> (int \<times> millis) list \<Rightarrow> millis list" where
  "slots_of c gs = map snd (filter (\<lambda>g. fst g = c) gs)"

lemma slots_simps [simp]:
  "slots_of c [] = []" "slots_of c (g # gs) = (if fst g = c then snd g # slots_of c gs else slots_of c gs)"
  by (simp_all add: slots_of_def)

text \<open>An earlier grant is honoured by the reservation, or the clock has passed it.\<close>

definition honoured :: "throttle \<Rightarrow> millis \<Rightarrow> int \<Rightarrow> millis \<Rightarrow> bool" where
  "honoured th now c at \<longleftrightarrow> at + th_interval th \<le> now \<or> (\<exists>n. th_next th c = Some n \<and> at + th_interval th \<le> n)"

lemma honoured_mono: "honoured th now c at \<Longrightarrow> now \<le> now' \<Longrightarrow> honoured th now' c at"
  by (auto simp: honoured_def)

lemma acquire_interval [simp]: "th_interval (snd (acquire_slot t c th)) = th_interval th"
  by (simp add: acquire_slot_def Let_def)

lemma prune_interval [simp]: "th_interval (maybe_prune t th) = th_interval th"
  by (simp add: maybe_prune_def Let_def)

lemma acquire_honours:
  assumes "honoured th t c at" "acquire_slot t d th = (at', th')" "0 \<le> th_interval th"
  shows "honoured th' t c at" "d = c \<Longrightarrow> at + th_interval th \<le> at'"
  using assms by (cases "c = d"; force simp: honoured_def acquire_slot_def Let_def split: option.splits)+

lemma acquire_reserves: "acquire_slot t c th = (at, th') \<Longrightarrow> honoured th' t c at"
  by (auto simp: honoured_def acquire_slot_def Let_def)

lemma prune_honours: "honoured th t c at \<Longrightarrow> honoured (maybe_prune t th) t c at"
  by (auto simp: honoured_def maybe_prune_def Let_def)

lemma later_slots:
  "sorted (map event_time es) \<Longrightarrow> 0 \<le> th_interval th \<Longrightarrow> \<forall>e \<in> set es. now \<le> event_time e \<Longrightarrow> honoured th now c at
    \<Longrightarrow> \<forall>s \<in> set (slots_of c (gate_run es th)). at + th_interval th \<le> s"
proof (induction es th arbitrary: now rule: gate_run.induct)
  case (2 t d es th)
  obtain at' th' where a: "acquire_slot t d th = (at', th')" by fastforce
  have h: "honoured th t c at" using 2 honoured_mono by auto
  have i: "th_interval th' = th_interval th" using acquire_interval[of t d th] a by simp
  from "2.IH"[OF a[symmetric], of t] have "\<forall>s \<in> set (slots_of c (gate_run es th')). at + th_interval th \<le> s"
    using "2.prems" acquire_honours(1)[OF h a] i by auto
  then show ?case using a acquire_honours(2)[OF h a] "2.prems" by auto
next
  case (3 t es th)
  then show ?case using prune_honours honoured_mono by auto
qed simp

text \<open>C23: sends to one chat are spaced.  However acquisitions for all chats and the cleanup of past
  reservations interleave, on a clock that does not run backwards the instants granted to one chat come
  in order and at least the interval apart; the cleanup never frees a slot that is still needed.\<close>
theorem sends_to_a_chat_are_spaced:
  assumes "sorted (map event_time es)" "0 \<le> interval"
  shows "sorted_wrt (\<lambda>a b. a + interval \<le> b) (slots_of c (gate_run es (new_throttle interval)))"
proof -
  have "sorted_wrt (\<lambda>a b. a + th_interval th \<le> b) (slots_of c (gate_run es th))"
    if "sorted (map event_time es)" "0 \<le> th_interval th" for es th
    using that
  proof (induction es th rule: gate_run.induct)
    case (2 t d es th)
    obtain at' th' where a: "acquire_slot t d th = (at', th')" by fastforce
    have i: "th_interval th' = th_interval th" using acquire_interval[of t d th] a by simp
    have "\<forall>s \<in> set (slots_of c (gate_run es th')). at' + th_interval th' \<le> s" if "d = c"
      using later_slots[of es th' t c at'] acquire_reserves[OF a] that 2 i by auto
    then show ?case using 2 a i by auto
  qed auto
  from this[OF assms(1), of "new_throttle interval"] show ?thesis using assms(2) by (simp add: new_throttle_def)
qed

lemma sends_to_a_chat_are_spaced_witness:
  "slots_of 7 (gate_run [Acquire 0 7, Acquire 10 7, Prune 10, Acquire 20 8, Acquire 30 7] (new_throttle 1000)) = [0, 1000, 2000]
   \<and> sorted_wrt (\<lambda>a b. a + 1000 \<le> b) (slots_of 7 (gate_run [Acquire 0 7, Acquire 10 7, Prune 10, Acquire 20 8, Acquire 30 7] (new_throttle 1000)))"
proof
  show "slots_of 7 (gate_run [Acquire 0 7, Acquire 10 7, Prune 10, Acquire 20 8, Acquire 30 7] (new_throttle 1000)) = [0, 1000, 2000]"
    by (simp add: acquire_slot_def maybe_prune_def new_throttle_def THROTTLE_PRUNE_INTERVAL_def)
qed (use sends_to_a_chat_are_spaced[of "[Acquire 0 7, Acquire 10 7, Prune 10, Acquire 20 8, Acquire 30 7]" 1000 7] in simp)

section \<open>Retries\<close>

text \<open>An attempt that asked to be repeated.\<close>

definition told_to_wait :: "'a attempt \<Rightarrow> int \<Rightarrow> bool" where
  "told_to_wait a after \<longleftrightarrow> (\<exists>e. a = Answers (Err e) \<and> retry_after_secs e = Some after)"

lemma retry_loop_facts:
  "attempt \<le> MAX_429_RETRIES \<Longrightarrow> length slept = attempt \<Longrightarrow> \<forall>i < attempt. told_to_wait (call i) (slept ! i div 1000)
    \<Longrightarrow> \<exists>r all_slept. with_retry_loop call (Some d) attempt slept = Some (r, all_slept)
       \<and> length all_slept \<le> MAX_429_RETRIES
       \<and> (\<forall>i < length all_slept. told_to_wait (call i) (all_slept ! i div 1000))
       \<and> (call (length all_slept) = Answers r \<or> call (length all_slept) = Stalls \<and> r = Err (TimedOut d))
       \<and> (\<forall>after. told_to_wait (call (length all_slept)) after \<longrightarrow> length all_slept = MAX_429_RETRIES)"
proof (induction "MAX_429_RETRIES - attempt" arbitrary: attempt slept)
  case (0 attempt slept)
  then show ?case
    by (subst (1) with_retry_loop.simps)
      (auto simp: told_to_wait_def split: attempt.splits sum.splits option.splits)
next
  case (Suc k attempt slept)
  show ?case
  proof (cases "\<exists>after. told_to_wait (call attempt) after")
    case True
    then obtain e after where c: "call attempt = Answers (Err e)" "retry_after_secs e = Some after"
      by (auto simp: told_to_wait_def)
    have "\<forall>i < attempt + 1. told_to_wait (call i) ((slept @ [secs after]) ! i div 1000)"
      using Suc.prems c by (auto simp: nth_append told_to_wait_def less_Suc_eq)
    from Suc.hyps(1)[of "attempt + 1" "slept @ [secs after]", OF _ _ _ this] show ?thesis
      using Suc.hyps(2) Suc.prems c by (subst (1) with_retry_loop.simps) auto
  next
    case False
    then show ?thesis using Suc.prems
      by (subst (1) with_retry_loop.simps)
        (auto simp: told_to_wait_def split: attempt.splits sum.splits option.splits)
  qed
qed

text \<open>A call of the text class always returns.  It makes at most four attempts; every attempt but
  the last was answered with a time to wait, which is what was slept before the next; the result is the
  answer of the last attempt, or the timeout when it stalled, and a time to wait is passed on only after
  the fourth.\<close>
theorem text_call_returns:
  "\<exists>r slept. with_retry_text call = Some (r, slept) \<and> length slept \<le> 3
     \<and> list_all (\<lambda>i. told_to_wait (call i) (slept ! i div 1000)) [0..<length slept]
     \<and> (call (length slept) = Answers r \<or> call (length slept) = Stalls \<and> r = Err (TimedOut (secs 30)))
     \<and> (told_to_wait (call (length slept)) after \<longrightarrow> length slept = 3)"
  using retry_loop_facts[of 0 "[]" call TELEGRAM_TEXT_TIMEOUT]
  by (fastforce simp: with_retry_text_def with_retry_bounded_def MAX_429_RETRIES_def TELEGRAM_TEXT_TIMEOUT_def list_all_iff)

lemma text_call_returns_witness:
  "with_retry_text (\<lambda>i. if i = 0 then Answers (Err (ApiError 429 [] (Some 2))) else Answers (Ok (7::int))) = Some (Ok 7, [2000])"
proof -
  let ?call = "\<lambda>i. if i = 0 then Answers (Err (ApiError 429 [] (Some 2))) else Answers (Ok (7::int))"
  obtain r slept where r: "with_retry_text ?call = Some (r, slept)"
      "list_all (\<lambda>i. told_to_wait (?call i) (slept ! i div 1000)) [0..<length slept]"
    using text_call_returns[of ?call] by blast
  have "slept = [2000]" "r = Ok 7"
    using r(1) by (auto simp: with_retry_text_def with_retry_bounded_def with_retry_loop.simps MAX_429_RETRIES_def)
  then show ?thesis using r(1) by simp
qed

section \<open>Deliveries\<close>

text \<open>What Telegram accepted: the messages and the text they show.\<close>

definition published :: "exchange \<Rightarrow> int list" where
  "published log = concat (map (\<lambda>(c, a). case a of Ok ms \<Rightarrow> ms | Err _ \<Rightarrow> []) log)"

fun call_text :: "tg_call \<Rightarrow> chars" where
  "call_text (RichCall p _) = normalized_text p"
| "call_text (PlainCall s _) = s"
| "call_text _ = []"

definition shown_text :: "exchange \<Rightarrow> chars" where
  "shown_text log = concat (map (\<lambda>(c, a). if is_ok a then visible (call_text c) else []) log)"

lemma published_simps [simp]: "published [] = []" "published (a @ b) = published a @ published b"
  "published [(c, Ok ms)] = ms" "published [(c, Err e)] = []"
  by (simp_all add: published_def)

lemma shown_text_simps [simp]: "shown_text [] = []" "shown_text (a @ b) = shown_text a @ shown_text b"
  "shown_text [(c, Ok ms)] = visible (call_text c)" "shown_text [(c, Err e)] = []"
  by (simp_all add: shown_text_def)

text \<open>A call that keeps Telegram's limits, which count UTF-16 code units, and shows something.\<close>

fun fits_call :: "tg_call \<Rightarrow> bool" where
  "fits_call (RichCall p _) = (length (encode_utf16 (normalized_text p)) \<le> MAX_RICH_MESSAGE_UTF16)"
| "fits_call (PlainCall s _) = (length (encode_utf16 s) \<le> MAX_PLAIN_MESSAGE_UTF16 \<and> trim_chars s \<noteq> [])"
| "fits_call _ = True"

text \<open>What a delivery from outcome \<open>r\<close> with the calls \<open>new\<close> adds to the outcome, when \<open>t\<close> is to be shown.\<close>

definition delivers :: "rich_outcome \<Rightarrow> exchange \<Rightarrow> chars \<Rightarrow> rich_outcome \<Rightarrow> bool" where
  "delivers r new t r' \<longleftrightarrow>
     so_delivered r' = so_delivered r @ published new \<and> visible (so_text r') = visible (so_text r) @ shown_text new
     \<and> (is_complete r' \<longrightarrow> is_complete r \<and> shown_text new = t)
     \<and> (\<forall>e. so_error r' = Some e \<longrightarrow> so_error r = Some e \<or> (\<exists>call. (call, Err e) \<in> set new))
     \<and> list_all (\<lambda>(c, _). fits_call c) new"

lemma delivers_refl: "delivers r [] [] r"
  by (simp add: delivers_def)

lemma delivers_trans: "delivers r a t r1 \<Longrightarrow> delivers r1 b u r2 \<Longrightarrow> delivers r (a @ b) (t @ u) r2"
  by (auto simp: delivers_def)

lemma delivers_stopped: "delivers r a t r1 \<Longrightarrow> \<not> is_complete r1 \<Longrightarrow> delivers r a u r1"
  by (auto simp: delivers_def)

lemma delivers_accepted: "fits_call c \<Longrightarrow> delivers r [(c, Ok [m])] (visible (call_text c)) (add_delivered (call_text c) m r)"
  by (simp add: delivers_def add_delivered_def append_delivered_text_def)

lemma delivers_failed: "fits_call c \<Longrightarrow> delivers r [(c, Err e)] t (record_terminal e r)"
  "fits_call c \<Longrightarrow> delivers r [(c, Err e)] t (r\<lparr>so_error := Some e\<rparr>)"
  by (auto simp: delivers_def record_terminal_def)

lemma delivers_rejected: "fits_call c \<Longrightarrow> delivers r [(c, Err e)] [] r"
  by (simp add: delivers_def)

lemma ask_one_cases:
  obtains (accepted) m where "ask_one tg c log = (Ok m, log @ [(c, Ok [m])])"
  | (failed) e where "ask_one tg c log = (Err e, log @ [(c, Err e)])"
  by (cases "ta_one tg log c") (auto simp: ask_one_def)

definition grows :: "exchange \<Rightarrow> rich_outcome \<Rightarrow> chars \<Rightarrow> rich_outcome \<times> exchange \<Rightarrow> bool" where
  "grows log r t st \<longleftrightarrow> (\<exists>new. snd st = log @ new \<and> delivers r new t (fst st))"

lemma grows_step: "grows (log @ a) r1 u st \<Longrightarrow> delivers r a t r1 \<Longrightarrow> grows log r (t @ u) st"
  using delivers_trans by (fastforce simp: grows_def)

lemma send_chunks_grows: "list_all (\<lambda>c. fits_call (PlainCall c None)) cs \<Longrightarrow> grows log r (concat (map visible cs)) (send_chunks tg mk cs (r, log))"
proof (induction cs arbitrary: r log)
  case Nil
  then show ?case using delivers_refl by (auto simp: grows_def)
next
  case (Cons c cs)
  let ?c = "PlainCall c (if cs = [] then mk else None)"
  show ?case
  proof (cases rule: ask_one_cases[of tg ?c log])
    case (accepted m)
    then show ?thesis using Cons.prems grows_step[OF Cons.IH delivers_accepted[of ?c r m]] by simp
  next
    case (failed e)
    then show ?thesis using Cons.prems grows_step[OF Cons.IH delivers_failed(1)[of ?c r e "visible c"]] by simp
  qed
qed

lemma plain_chunks_fit: "list_all (\<lambda>c. fits_call (PlainCall c None)) (split_plain t)"
  using split_bounds[of MAX_PLAIN_MESSAGE_UTF16 t]
  by (simp add: split_plain_def MAX_PLAIN_MESSAGE_UTF16_def utf16_len_encode list_all_iff)

lemma plain_chunks_visible: "concat (map visible (split_plain t)) = visible t"
  using split_visible[of MAX_PLAIN_MESSAGE_UTF16 t] by (simp add: split_plain_def visible_concat MAX_PLAIN_MESSAGE_UTF16_def)

lemma send_parts_grows: "list_all (\<lambda>p. fits_call (RichCall p None)) ps \<Longrightarrow> grows log r (shown ps) (send_parts tg mk ps (r, log))"
proof (induction ps arbitrary: r log)
  case Nil
  then show ?case using delivers_refl by (auto simp: grows_def)
next
  case (Cons p ps)
  let ?mk = "if ps = [] then mk else None"
  show ?case
  proof (cases rule: ask_one_cases[of tg "RichCall p ?mk" log])
    case (accepted m)
    then show ?thesis using Cons.prems grows_step[OF Cons.IH delivers_accepted[of "RichCall p ?mk" r m]] by simp
  next
    case (failed e)
    show ?thesis
    proof (cases "is_retryable_rich_content_error e")
      case True
      obtain r' new where s: "send_chunks tg ?mk (split_plain (normalized_text p)) (r, log @ [(RichCall p ?mk, Err e)])
            = (r', (log @ [(RichCall p ?mk, Err e)]) @ new)"
          "delivers r new (visible (normalized_text p)) r'"
        using send_chunks_grows[OF plain_chunks_fit, of "log @ [(RichCall p ?mk, Err e)]" r "normalized_text p" tg ?mk]
        by (auto simp: grows_def plain_chunks_visible) (metis prod.collapse)
      have "delivers r ([(RichCall p ?mk, Err e)] @ new) ([] @ visible (normalized_text p)) r'"
        using Cons.prems delivers_trans[OF delivers_rejected s(2)] by simp
      from grows_step[OF Cons.IH this] show ?thesis using Cons.prems failed True s(1) by simp
    next
      case False
      then show ?thesis
        using failed Cons.prems grows_step[OF Cons.IH delivers_failed(1)[of "RichCall p ?mk" r e "visible (normalized_text p)"]] by simp
    qed
  qed
qed

lemma chunks_until_grows: "list_all (\<lambda>c. fits_call (PlainCall c None)) cs \<Longrightarrow> grows log r (concat (map visible cs)) (chunks_until_failure tg cs (r, log))"
proof (induction cs arbitrary: r log)
  case Nil
  then show ?case using delivers_refl by (auto simp: grows_def)
next
  case (Cons c cs)
  show ?case
  proof (cases rule: ask_one_cases[of tg "PlainCall c None" log])
    case (accepted m)
    then show ?thesis using Cons.prems grows_step[OF Cons.IH delivers_accepted[of "PlainCall c None" r m]] by simp
  next
    case (failed e)
    then show ?thesis using Cons.prems delivers_failed(2)[of "PlainCall c None" r e] by (simp add: grows_def)
  qed
qed

lemma parts_until_grows: "list_all (\<lambda>p. fits_call (RichCall p None)) ps \<Longrightarrow> grows log r (shown ps) (parts_until_failure tg ps (r, log))"
proof (induction ps arbitrary: r log)
  case Nil
  then show ?case using delivers_refl by (auto simp: grows_def)
next
  case (Cons p ps)
  let ?log = "\<lambda>e::tg_error. log @ [(RichCall p None, Err e :: tg_error + int list)]"
  show ?case
  proof (cases rule: ask_one_cases[of tg "RichCall p None" log])
    case (accepted m)
    then show ?thesis using Cons.prems grows_step[OF Cons.IH delivers_accepted[of "RichCall p None" r m]] by simp
  next
    case (failed e)
    show ?thesis
    proof (cases "is_retryable_rich_content_error e")
      case True
      obtain r' new where s: "chunks_until_failure tg (split_plain (normalized_text p)) (r, ?log e) = (r', ?log e @ new)"
          "delivers r new (visible (normalized_text p)) r'"
        using chunks_until_grows[OF plain_chunks_fit, of "?log e" r "normalized_text p" tg]
        by (auto simp: grows_def plain_chunks_visible) (metis prod.collapse)
      have d: "delivers r ([(RichCall p None, Err e)] @ new) ([] @ visible (normalized_text p)) r'"
        using Cons.prems delivers_trans[OF delivers_rejected s(2)] by simp
      show ?thesis
      proof (cases "is_complete r'")
        case True
        from grows_step[OF Cons.IH d] True show ?thesis
          using Cons.prems failed \<open>is_retryable_rich_content_error e\<close> s(1) by simp
      next
        case False
        then show ?thesis
          using failed \<open>is_retryable_rich_content_error e\<close> s(1) delivers_stopped[OF d] by (auto simp: grows_def)
      qed
    next
      case False
      then show ?thesis using failed Cons.prems delivers_failed(2)[of "RichCall p None" r e] by (simp add: grows_def)
    qed
  qed
qed

text \<open>The contract of a sender of rich content, which its users rely on.\<close>

locale rich_sender =
  fixes send :: "telegram \<Rightarrow> rich_content \<Rightarrow> exchange \<Rightarrow> rich_outcome \<times> exchange"
  assumes sends: "grows log no_outcome (visible (normalized_text c)) (send tg c log)"
begin

lemma outcome:
  assumes "send tg c log = (r, log')"
  obtains new where "log' = log @ new" "so_delivered r = published new" "visible (so_text r) = shown_text new"
    "is_complete r \<Longrightarrow> shown_text new = visible (normalized_text c)"
    "\<And>e. so_error r = Some e \<Longrightarrow> \<exists>call. (call, Err e) \<in> set new"
    "list_all (\<lambda>(c, _). fits_call c) new"
  using sends[of log c tg] assms by (auto simp: grows_def delivers_def no_outcome_def)

lemma complete_shows_everything:
  assumes "send tg c log = (r, log')" "is_complete r"
  shows "visible (so_text r) = visible (normalized_text c)"
  using outcome[OF assms(1)] assms(2) by metis

end

lemma parts_fit: "list_all (\<lambda>p. fits_call (RichCall p None)) (delivery_parts c)"
  using parts_ok[of c] by (auto simp: list_all_iff part_of_def utf16_len_encode)

lemma parts_show: "shown (delivery_parts c) = visible (normalized_text c)"
  using parts_ok by blast

interpretation best_effort: rich_sender "\<lambda>tg. send_rich tg markup" for markup
  by unfold_locales (metis send_rich_def send_parts_grows[OF parts_fit] parts_show)

interpretation channel: rich_sender send_until_failure
  by unfold_locales (metis send_until_failure_def parts_until_grows[OF parts_fit] parts_show)

text \<open>C24: the outcome of a delivery of rich content is the truth.  It names exactly the messages Telegram
  accepted, its text is what they show; when it is complete, they show the whole document, whatever parts
  were refused and sent again as plain text; an error is one that Telegram gave; and every call keeps the
  limits of Telegram, whatever the length of the document.\<close>
theorem rich_delivery_tells_what_was_shown:
  assumes "send_rich tg markup c log = (r, log')"
  shows "\<exists>new. log' = log @ new \<and> so_delivered r = published new \<and> visible (so_text r) = shown_text new
    \<and> (is_complete r \<longrightarrow> visible (so_text r) = visible (normalized_text c))
    \<and> (\<forall>e. so_error r = Some e \<longrightarrow> (\<exists>call. (call, Err e) \<in> set new))
    \<and> list_all (\<lambda>(call, _). fits_call call) new"
  using best_effort.outcome[OF assms] best_effort.complete_shows_everything[OF assms] by metis

definition agreeable :: telegram where
  "agreeable = \<lparr>ta_one = (\<lambda>log c. Ok (int (length log))), ta_album = (\<lambda>log c. Ok [])\<rparr>"

lemma rich_delivery_tells_what_was_shown_witness:
  "\<exists>r log'. send_rich agreeable None (TextContent [104, 105]) [] = (r, log') \<and> so_delivered r = [0] \<and> is_complete r
     \<and> visible (so_text r) = [104, 105]"
proof -
  obtain r log' where run: "send_rich agreeable None (TextContent [104, 105]) [] = (r, log')" by fastforce
  have parts: "delivery_parts (TextContent [104, 105]) = [TextContent [104, 105]]"
    by (simp add: normalize_text_def trim_end_def trim_chars_def is_uni_ws_def split_visible_utf16_def make_room_def
        utf16_units_def MAX_RICH_MESSAGE_UTF16_def)
  then have "so_delivered r = [0] \<and> is_complete r"
    using run by (auto simp: send_rich_def ask_one_def agreeable_def add_delivered_def no_outcome_def)
  moreover have "visible (normalized_text (TextContent [104, 105])) = [104, 105]" by (simp add: is_uni_ws_def)
  ultimately show ?thesis using run rich_delivery_tells_what_was_shown[OF run] by metis
qed

text \<open>A call that did not end a delivery: it was accepted, or its format was refused.\<close>

fun passed :: "tg_call \<times> (tg_error + int list) \<Rightarrow> bool" where
  "passed (c, Ok ms) = True"
| "passed (RichCall p k, Err e) = is_retryable_rich_content_error e"
| "passed (_, Err e) = False"

definition stops :: "exchange \<Rightarrow> rich_outcome \<times> exchange \<Rightarrow> bool" where
  "stops log st \<longleftrightarrow> (\<exists>new. snd st = log @ new \<and>
     (case so_error (fst st) of None \<Rightarrow> list_all passed new
      | Some e \<Rightarrow> \<exists>before call. new = before @ [(call, Err e)] \<and> list_all passed before))"

lemma stops_step:
  assumes "stops (log @ a) st" "list_all passed a"
  shows "stops log st"
proof -
  obtain new where new: "snd st = log @ a @ new" using assms(1) by (auto simp: stops_def)
  show ?thesis
  proof (cases "so_error (fst st)")
    case None
    then show ?thesis using assms new by (auto simp: stops_def)
  next
    case (Some e)
    then obtain before call where "new = before @ [(call, Err e)]" "list_all passed before"
      using assms(1) new by (auto simp: stops_def)
    then have "snd st = log @ (a @ before) @ [(call, Err e)]" "list_all passed (a @ before)" using assms(2) new by auto
    then have "\<exists>new before call. snd st = log @ new \<and> new = before @ [(call, Err e)] \<and> list_all passed before" by blast
    then show ?thesis using Some by (simp add: stops_def)
  qed
qed

lemma stops_refl: "is_complete r \<Longrightarrow> stops log (r, log)"
  by (simp add: stops_def)

lemma chunks_until_stops: "is_complete r \<Longrightarrow> stops log (chunks_until_failure tg cs (r, log))"
proof (induction cs arbitrary: r log)
  case (Cons c cs)
  show ?case
  proof (cases rule: ask_one_cases[of tg "PlainCall c None" log])
    case (accepted m)
    have "is_complete (add_delivered c m r)" using Cons.prems by (simp add: add_delivered_def)
    from stops_step[OF Cons.IH[OF this]] show ?thesis using accepted by simp
  qed (auto simp: stops_def)
qed (simp add: stops_refl)

lemma parts_until_stops: "is_complete r \<Longrightarrow> stops log (parts_until_failure tg ps (r, log))"
proof (induction ps arbitrary: r log)
  case (Cons p ps)
  show ?case
  proof (cases rule: ask_one_cases[of tg "RichCall p None" log])
    case (accepted m)
    have "is_complete (add_delivered (normalized_text p) m r)" using Cons.prems by (simp add: add_delivered_def)
    from stops_step[OF Cons.IH[OF this]] show ?thesis using accepted by simp
  next
    case (failed e)
    show ?thesis
    proof (cases "is_retryable_rich_content_error e")
      case True
      define log1 where "log1 = log @ [(RichCall p None, Err e :: tg_error + int list)]"
      obtain r' log2 where s: "chunks_until_failure tg (split_plain (normalized_text p)) (r, log1) = (r', log2)" by fastforce
      have c: "stops log1 (r', log2)" using chunks_until_stops[OF Cons.prems, of log1 tg] s by metis
      have "stops log1 (if is_complete r' then parts_until_failure tg ps (r', log2) else (r', log2))"
      proof (cases "is_complete r'")
        case True
        then obtain new where "log2 = log1 @ new" "list_all passed new" using c by (auto simp: stops_def)
        then show ?thesis using stops_step[of log1 new] Cons.IH[OF True, of log2] True by simp
      qed (use c in auto)
      then show ?thesis
        using failed True s stops_step[of log "[(RichCall p None, Err e)]"] by (simp add: log1_def)
    qed (use failed in \<open>auto simp: stops_def\<close>)
  qed
qed (simp add: stops_refl)

text \<open>A publication to a channel ends with its first failure.  All calls before the last were accepted
  or refused only for their format; a failure is the answer to the last call, so nothing was sent after
  it; without a failure the whole document was shown, and the outcome names exactly the messages that
  were accepted.\<close>
theorem channel_send_stops_at_first_failure:
  assumes "send_until_failure tg c log = (r, log')"
  shows "\<exists>new. log' = log @ new \<and> so_delivered r = published new \<and> visible (so_text r) = shown_text new
    \<and> (case so_error r of
          None \<Rightarrow> list_all passed new \<and> visible (so_text r) = visible (normalized_text c)
        | Some e \<Rightarrow> \<exists>before call. new = before @ [(call, Err e)] \<and> list_all passed before)"
proof -
  have "stops log (r, log')"
    using parts_until_stops[of no_outcome log tg "delivery_parts c"] assms
    by (simp add: send_until_failure_def no_outcome_def)
  moreover obtain new where "log' = log @ new" "so_delivered r = published new" "visible (so_text r) = shown_text new"
    using channel.outcome[OF assms] by metis
  moreover have "visible (so_text r) = visible (normalized_text c)" if "so_error r = None"
    using channel.complete_shows_everything[OF assms that] .
  ultimately show ?thesis by (cases "so_error r") (auto simp: stops_def)
qed

text \<open>A server that refuses every rich message for its format and then loses the connection.\<close>

definition refusing :: telegram where
  "refusing = \<lparr>ta_one = (\<lambda>log c. case c of RichCall _ _ \<Rightarrow> Err (ApiError 400 (text_chars ''invalid rich'') None) | _ \<Rightarrow> Err (TimedOut 30000)),
     ta_album = (\<lambda>log c. Ok [])\<rparr>"

lemma channel_send_stops_at_first_failure_witness:
  "\<exists>r log'. send_until_failure refusing (TextContent [104, 105]) [] = (r, log') \<and> so_error r = Some (TimedOut 30000)
     \<and> so_delivered r = [] \<and> length log' = 2"
proof -
  obtain r log' where run: "send_until_failure refusing (TextContent [104, 105]) [] = (r, log')" by fastforce
  have norm: "normalize_text [104, 105] = [104, 105]"
    by (simp add: normalize_text_def trim_end_def trim_chars_def is_uni_ws_def)
  have cut: "split_visible_utf16 [104, 105] n = [[104, 105]]" if "4 \<le> n" for n
    using that by (simp add: split_visible_utf16_def make_room_def utf16_units_def is_uni_ws_def)
  have "map lower_cp (text_chars ''invalid rich'') = text_chars ''invalid rich''" by code_simp
  then have rej: "is_retryable_rich_content_error (ApiError 400 (text_chars ''invalid rich'') None)"
    using has_text_infix[of "''invalid rich''" "[]" "[]"] by simp
  then have "so_error r = Some (TimedOut 30000) \<and> length log' = 2"
    using run rej cut[of MAX_RICH_MESSAGE_UTF16] cut[of MAX_PLAIN_MESSAGE_UTF16]
    by (auto simp: send_until_failure_def ask_one_def refusing_def no_outcome_def norm split_plain_def
        MAX_RICH_MESSAGE_UTF16_def MAX_PLAIN_MESSAGE_UTF16_def)
  moreover have "so_delivered r = []"
    using channel_send_stops_at_first_failure[OF run] run norm cut[of MAX_RICH_MESSAGE_UTF16] cut[of MAX_PLAIN_MESSAGE_UTF16] rej
    by (auto simp: send_until_failure_def ask_one_def refusing_def no_outcome_def split_plain_def
        MAX_RICH_MESSAGE_UTF16_def MAX_PLAIN_MESSAGE_UTF16_def)
  ultimately show ?thesis using run by blast
qed

end
