(* ===== verification/Outbox.thy ===== *)
theory Outbox
  imports Tg_Send
begin

text \<open>
  The files an agent sends (\<^verbatim>\<open>bot/src/telegram/attachments.rs\<close>): albums are put together,
  every path is confined to an outbox, its file is fetched from the sandbox or
  taken from the host, and the sends are reported.  The sandbox's files and the
  resolution of links on the host are arguments, the host's files are state.
\<close>

section \<open>Attachments and albums\<close>

record outbound_attachment =
  oa_kind :: outbound_kind
  oa_path :: chars
  oa_filename :: "chars option"
  oa_group :: "chars option"

datatype album_kind = PhotoVideo | DocumentGroup | AudioGroup

fun album_kind_of :: "outbound_kind \<Rightarrow> album_kind option" where
  "album_kind_of Photo = Some PhotoVideo"
| "album_kind_of Video = Some PhotoVideo"
| "album_kind_of Document = Some DocumentGroup"
| "album_kind_of Audio = Some AudioGroup"
| "album_kind_of _ = None"

datatype group_plan = SendAsGroup album_kind | SplitGroup "outbound_attachment list list" album_kind | Degrade

definition MEDIA_GROUP_MAX :: nat where "MEDIA_GROUP_MAX = 10"

function chunks_of :: "nat \<Rightarrow> 'a list \<Rightarrow> 'a list list" where
  "chunks_of k xs = (if xs = [] \<or> k = 0 then [] else take k xs # chunks_of k (drop k xs))"
  by pat_completeness auto
termination by (relation "measure (\<lambda>(k, xs). length xs)") auto

declare chunks_of.simps [simp del]

definition classify_media_group :: "outbound_attachment list \<Rightarrow> group_plan" where
  "classify_media_group items =
     (if length items < 2 then Degrade
      else (case album_kind_of (oa_kind (hd items)) of
              None \<Rightarrow> Degrade
            | Some first \<Rightarrow>
                if \<not> list_all (\<lambda>it. album_kind_of (oa_kind it) = Some first) (tl items) then Degrade
                else if length items \<le> MEDIA_GROUP_MAX then SendAsGroup first
                else SplitGroup (chunks_of MEDIA_GROUP_MAX items) first))"

datatype outbound_send = SingleSend outbound_attachment | GroupSend album_kind "outbound_attachment list"

definition group_sends :: "outbound_attachment list \<Rightarrow> outbound_send list" where
  "group_sends items =
     (case classify_media_group items of
        SendAsGroup k \<Rightarrow> [GroupSend k items]
      | SplitGroup chunks k \<Rightarrow> map (\<lambda>c. if length c < 2 then SingleSend (hd c) else GroupSend k c) chunks
      | Degrade \<Rightarrow> map SingleSend items)"

text \<open>A group takes the place of its first member; the members that follow have been sent with it.\<close>

fun slot_sends :: "outbound_attachment list \<Rightarrow> chars list \<Rightarrow> outbound_attachment list \<Rightarrow> outbound_send list" where
  "slot_sends every seen [] = []"
| "slot_sends every seen (a # as) =
     (case oa_group a of
        None \<Rightarrow> SingleSend a # slot_sends every seen as
      | Some i \<Rightarrow>
          if i \<in> set seen then slot_sends every seen as
          else group_sends (filter (\<lambda>b. oa_group b = Some i) every) @ slot_sends every (i # seen) as)"

definition partition_sends :: "outbound_attachment list \<Rightarrow> outbound_send list" where
  "partition_sends atts = slot_sends atts [] atts"

section \<open>Paths\<close>

definition SANDBOX_OUTBOX :: chars where "SANDBOX_OUTBOX = text_chars ''/sandbox/outbox/''"

text \<open>What may follow the outbox: no empty file name, no absolute path and no dot components.\<close>

definition outbox_remainder_ok :: "chars \<Rightarrow> bool" where
  "outbox_remainder_ok r =
     (r \<noteq> [] \<and> last r \<noteq> 47 \<and> list_all (\<lambda>c. c \<noteq> [46] \<and> c \<noteq> [46, 46]) (split_on_char 47 r) \<and> hd r \<noteq> 47)"

definition sandbox_outbox_path_is_valid :: "chars \<Rightarrow> bool" where
  "sandbox_outbox_path_is_valid p =
     (case strip_prefix SANDBOX_OUTBOX p of None \<Rightarrow> False | Some r \<Rightarrow> outbox_remainder_ok r)"

definition path_is_within_dir :: "chars \<Rightarrow> chars \<Rightarrow> bool" where
  "path_is_within_dir p dir = (case strip_prefix dir p of None \<Rightarrow> False | Some r \<Rightarrow> r \<noteq> [] \<and> hd r = 47)"

datatype outbox_resolution = HostLocal | SandboxDownload | Reject

definition classify_outbox_path :: "chars \<Rightarrow> chars \<Rightarrow> outbox_resolution" where
  "classify_outbox_path p host_outbox =
     (if host_outbox \<noteq> [] \<and> path_is_within_dir p host_outbox then HostLocal
      else if sandbox_outbox_path_is_valid p then SandboxDownload
      else Reject)"

section \<open>Files\<close>

type_synonym files = "chars \<rightharpoonup> nat list"

record outbox_env =
  oe_agent_dir :: chars
  oe_tmp_ready :: bool
  oe_outbox_found :: bool
  oe_canon :: "chars \<Rightarrow> chars"
  oe_sandbox :: files

datatype resolve_error = OutsideOutbox | DownloadFailed | NoOutbox | NotCanonical | EscapesOutbox | NoMetadata | TooLarge

definition TELEGRAM_PHOTO_UPLOAD_LIMIT :: nat where "TELEGRAM_PHOTO_UPLOAD_LIMIT = 10 * 1024 * 1024"
definition TELEGRAM_FILE_UPLOAD_LIMIT :: nat where "TELEGRAM_FILE_UPLOAD_LIMIT = 50 * 1024 * 1024"

definition host_outbox :: "outbox_env \<Rightarrow> chars" where
  "host_outbox env = oe_agent_dir env @ text_chars ''/outbox''"

definition file_name :: "chars \<Rightarrow> chars" where "file_name p = last (split_on_char 47 p)"

definition download_dest :: "outbox_env \<Rightarrow> chars \<Rightarrow> chars" where
  "download_dest env p = oe_agent_dir env @ text_chars ''/tmp/outbox/'' @ file_name p"

definition inside :: "chars \<Rightarrow> chars \<Rightarrow> bool" where
  "inside dir p = (p = dir \<or> path_is_within_dir p dir)"

definition fetch_file :: "outbox_env \<Rightarrow> chars \<Rightarrow> files \<Rightarrow> (resolve_error + chars) \<times> files" where
  "fetch_file env p fs =
     (case classify_outbox_path p (host_outbox env) of
        Reject \<Rightarrow> (Err OutsideOutbox, fs)
      | SandboxDownload \<Rightarrow>
          (case oe_sandbox env p of
             None \<Rightarrow> (Err DownloadFailed, fs)
           | Some bytes \<Rightarrow> (Ok (download_dest env p), fs(download_dest env p \<mapsto> bytes)))
      | HostLocal \<Rightarrow>
          if \<not> oe_outbox_found env then (Err NoOutbox, fs)
          else if fs (oe_canon env p) = None then (Err NotCanonical, fs)
          else if \<not> inside (oe_canon env (host_outbox env)) (oe_canon env p) then (Err EscapesOutbox, fs)
          else (Ok (oe_canon env p), fs))"

definition upload_limit :: "outbound_kind \<Rightarrow> nat" where
  "upload_limit k = (if k = Photo then TELEGRAM_PHOTO_UPLOAD_LIMIT else TELEGRAM_FILE_UPLOAD_LIMIT)"

definition resolve_host_path :: "outbox_env \<Rightarrow> outbound_attachment \<Rightarrow> files \<Rightarrow> (resolve_error + chars) \<times> files" where
  "resolve_host_path env att fs =
     (case fetch_file env (oa_path att) fs of
        (Err e, fs1) \<Rightarrow> (Err e, fs1)
      | (Ok host, fs1) \<Rightarrow>
          (case fs1 host of
             None \<Rightarrow> (Err NoMetadata, fs1)
           | Some bytes \<Rightarrow>
               if upload_limit (oa_kind att) < length bytes then (Err TooLarge, fs1(host := None))
               else (Ok host, fs1)))"

section \<open>Sends\<close>

datatype send_error = Skip resolve_error | Api tg_error
datatype group_error = FallbackToSingles | Terminal send_error
datatype send_failure = Certain send_error | Uncertain send_error

fun is_rejection :: "tg_error \<Rightarrow> bool" where
  "is_rejection (ApiError code description after) = (code = 400)"
| "is_rejection _ = False"

fun classify_send_error :: "send_error \<Rightarrow> send_failure" where
  "classify_send_error (Skip e) = Certain (Skip e)"
| "classify_send_error (Api e) = (if is_rejection e then Certain (Api e) else Uncertain (Api e))"

definition is_media_group_validation_error_text :: "chars \<Rightarrow> bool" where
  "is_media_group_validation_error_text t =
     (let lower = map lower_cp t in
      has_text ''failed to send message'' lower \<and> has_text ''wrong file identifier/http url specified'' lower
      \<or> has_text ''media_group_invalid'' lower
      \<or> has_text ''media group'' lower \<and> has_text ''bad request'' lower
        \<and> (has_text ''file identifier'' lower \<or> has_text ''http url'' lower))"

fun classify_media_group_send_error :: "tg_error \<Rightarrow> group_error" where
  "classify_media_group_send_error (ApiError code description after) =
     (if code = 400 \<and> is_media_group_validation_error_text description then FallbackToSingles
      else Terminal (Api (ApiError code description after)))"
| "classify_media_group_send_error e = Terminal (Api e)"

text \<open>A file that is gone makes the client fail before it calls.\<close>

definition missing_file :: tg_error where "missing_file = ClientError (text_chars ''no such file'')"

definition send_single :: "telegram \<Rightarrow> outbox_env \<Rightarrow> outbound_attachment \<Rightarrow> files \<times> exchange \<Rightarrow> (send_error + int) \<times> files \<times> exchange" where
  "send_single tg env att st =
     (case st of (fs, log) \<Rightarrow>
        (case resolve_host_path env att fs of
           (Err e, fs1) \<Rightarrow> (Err (Skip e), fs1, log)
         | (Ok host, fs1) \<Rightarrow>
             (case fs1 host of
                None \<Rightarrow> (Err (Api missing_file), fs1, log)
              | Some bytes \<Rightarrow>
                  (case ask_one tg (MediaCall (oa_kind att) bytes) log of
                     (Ok m, log1) \<Rightarrow> (Ok m, fs1(host := None), log1)
                   | (Err e, log1) \<Rightarrow> (Err (Api e), fs1, log1)))))"

definition is_webp_file_header :: "nat list \<Rightarrow> bool" where
  "is_webp_file_header h =
     (12 \<le> length h \<and> take 4 h = text_chars ''RIFF'' \<and> take 4 (drop 8 h) = text_chars ''WEBP'')"

definition preflight_fallback :: "outbound_attachment list \<Rightarrow> chars list \<Rightarrow> files \<Rightarrow> bool" where
  "preflight_fallback items hosts fs =
     list_ex (\<lambda>(att, host). oa_kind att = Document
        \<and> (case fs host of None \<Rightarrow> False | Some bytes \<Rightarrow> is_webp_file_header (take 12 bytes))) (zip items hosts)"

definition cleanup_host_paths :: "chars list \<Rightarrow> files \<Rightarrow> files" where
  "cleanup_host_paths hosts fs = (\<lambda>p. if p \<in> set hosts then None else fs p)"

fun resolve_all :: "outbox_env \<Rightarrow> outbound_attachment list \<Rightarrow> chars list \<Rightarrow> files \<Rightarrow> (resolve_error + chars list) \<times> files" where
  "resolve_all env [] hosts fs = (Ok hosts, fs)"
| "resolve_all env (a # as) hosts fs =
     (case resolve_host_path env a fs of
        (Ok p, fs1) \<Rightarrow> resolve_all env as (hosts @ [p]) fs1
      | (Err e, fs1) \<Rightarrow> (Err e, cleanup_host_paths hosts fs1))"

definition send_group :: "telegram \<Rightarrow> outbox_env \<Rightarrow> outbound_attachment list \<Rightarrow> files \<times> exchange \<Rightarrow> (group_error + int list) \<times> files \<times> exchange" where
  "send_group tg env items st =
     (case st of (fs, log) \<Rightarrow>
        (case resolve_all env items [] fs of
           (Err e, fs1) \<Rightarrow> (Err (Terminal (Skip e)), fs1, log)
         | (Ok hosts, fs1) \<Rightarrow>
             if preflight_fallback items hosts fs1 then (Err FallbackToSingles, cleanup_host_paths hosts fs1, log)
             else if list_ex (\<lambda>h. fs1 h = None) hosts
             then (Err (Terminal (Api missing_file)), cleanup_host_paths hosts fs1, log)
             else (case ask_album tg (AlbumCall (zip (map oa_kind items) (map (\<lambda>h. case fs1 h of Some b \<Rightarrow> b | None \<Rightarrow> []) hosts))) log of
                     (Ok ms, log1) \<Rightarrow> (Ok ms, cleanup_host_paths hosts fs1, log1)
                   | (Err e, log1) \<Rightarrow> (Err (classify_media_group_send_error e), cleanup_host_paths hosts fs1, log1))))"

section \<open>The report\<close>

record attach_report =
  at_confirmed :: "int list"
  at_fragments :: "chars list"
  at_failure :: "send_failure option"
  at_more :: "send_failure list"

definition empty_report :: attach_report where
  "empty_report = \<lparr>at_confirmed = [], at_fragments = [], at_failure = None, at_more = []\<rparr>"

fun kind_name :: "outbound_kind \<Rightarrow> string" where
  "kind_name Photo = ''photo''" | "kind_name Document = ''document''" | "kind_name Video = ''video''"
| "kind_name Audio = ''audio''" | "kind_name Voice = ''voice''" | "kind_name VideoNote = ''video_note''"
| "kind_name Sticker = ''sticker''" | "kind_name Animation = ''animation''"

definition attachment_fragment :: "outbound_attachment \<Rightarrow> chars" where
  "attachment_fragment a =
     (case oa_filename a of
        Some f \<Rightarrow> [91] @ text_chars (kind_name (oa_kind a)) @ text_chars '': '' @ f @ [93]
      | None \<Rightarrow> [91] @ text_chars (kind_name (oa_kind a)) @ [93])"

definition record_send_failure :: "send_error \<Rightarrow> attach_report \<Rightarrow> attach_report" where
  "record_send_failure e r =
     (if at_failure r = None then r\<lparr>at_failure := Some (classify_send_error e)\<rparr>
      else r\<lparr>at_more := at_more r @ [classify_send_error e]\<rparr>)"

definition confirm :: "int list \<Rightarrow> outbound_attachment list \<Rightarrow> attach_report \<Rightarrow> attach_report" where
  "confirm ms items r =
     r\<lparr>at_confirmed := at_confirmed r @ ms, at_fragments := at_fragments r @ map attachment_fragment items\<rparr>"

text \<open>The items of an album that Telegram refused as one, or a list of single sends; the flag says
  that the loop was left.\<close>

fun send_items :: "bool \<Rightarrow> telegram \<Rightarrow> outbox_env \<Rightarrow> outbound_attachment list \<Rightarrow> attach_report \<Rightarrow> files \<times> exchange
    \<Rightarrow> bool \<times> attach_report \<times> files \<times> exchange" where
  "send_items stop tg env [] r st = (False, r, st)"
| "send_items stop tg env (a # as) r st =
     (case send_single tg env a st of
        (Ok m, st1) \<Rightarrow> send_items stop tg env as (confirm [m] [a] r) st1
      | (Err e, st1) \<Rightarrow>
          if stop then (True, record_send_failure e r, st1)
          else send_items stop tg env as (record_send_failure e r) st1)"

definition send_one :: "bool \<Rightarrow> telegram \<Rightarrow> outbox_env \<Rightarrow> outbound_send \<Rightarrow> attach_report \<Rightarrow> files \<times> exchange
    \<Rightarrow> bool \<times> attach_report \<times> files \<times> exchange" where
  "send_one stop tg env s r st =
     (case s of
        SingleSend a \<Rightarrow> send_items stop tg env [a] r st
      | GroupSend k items \<Rightarrow>
          (case send_group tg env items st of
             (Ok ms, st1) \<Rightarrow> (False, confirm ms items r, st1)
           | (Err FallbackToSingles, st1) \<Rightarrow> send_items stop tg env items r st1
           | (Err (Terminal e), st1) \<Rightarrow> (stop, record_send_failure e r, st1)))"

fun send_list :: "bool \<Rightarrow> telegram \<Rightarrow> outbox_env \<Rightarrow> outbound_send list \<Rightarrow> attach_report \<Rightarrow> files \<times> exchange
    \<Rightarrow> attach_report \<times> files \<times> exchange" where
  "send_list stop tg env [] r st = (r, st)"
| "send_list stop tg env (s # ss) r st =
     (case send_one stop tg env s r st of
        (True, r1, st1) \<Rightarrow> (r1, st1)
      | (False, r1, st1) \<Rightarrow> send_list stop tg env ss r1 st1)"

definition send_attachments_reported :: "bool \<Rightarrow> telegram \<Rightarrow> outbox_env \<Rightarrow> outbound_attachment list \<Rightarrow> files \<times> exchange
    \<Rightarrow> attach_report \<times> files \<times> exchange" where
  "send_attachments_reported stop tg env atts st =
     (if \<not> oe_tmp_ready env then (empty_report\<lparr>at_failure := Some (Certain (Skip DownloadFailed))\<rparr>, st)
      else send_list stop tg env (partition_sends atts) empty_report st)"

text \<open>\<^verbatim>\<open>send_attachments\<close> folds the report into one error with every failure.\<close>

definition send_attachments :: "telegram \<Rightarrow> outbox_env \<Rightarrow> outbound_attachment list \<Rightarrow> files \<times> exchange
    \<Rightarrow> (send_failure list + unit) \<times> files \<times> exchange" where
  "send_attachments tg env atts st =
     (case send_attachments_reported False tg env atts st of
        (r, st1) \<Rightarrow> ((case at_failure r of None \<Rightarrow> Ok () | Some f \<Rightarrow> Err (f # at_more r)), st1))"

end
