(* ===== verification/Outbox_Props.thy ===== *)
theory Outbox_Props
  imports Outbox Tg_Send_Props
begin

text \<open>
  What sending files guarantees: albums lose no attachment and respect Telegram's
  rules, only files of the two outboxes leave the host, and a report without a
  failure means that every file was uploaded.
\<close>

section \<open>Albums\<close>

fun send_items_of :: "outbound_send \<Rightarrow> outbound_attachment list" where
  "send_items_of (SingleSend a) = [a]"
| "send_items_of (GroupSend k items) = items"

text \<open>An album Telegram takes: two to ten items of one kind of album.\<close>

fun album_ok :: "outbound_send \<Rightarrow> bool" where
  "album_ok (SingleSend a) = True"
| "album_ok (GroupSend k items) =
     (2 \<le> length items \<and> length items \<le> 10 \<and> list_all (\<lambda>a. album_kind_of (oa_kind a) = Some k) items)"

lemma chunks_concat: "0 < k \<Longrightarrow> concat (chunks_of k xs) = xs"
  by (induction k xs rule: chunks_of.induct) (subst chunks_of.simps, auto)

lemma chunks_bounds: "c \<in> set (chunks_of k xs) \<Longrightarrow> c \<noteq> [] \<and> length c \<le> k \<and> set c \<subseteq> set xs"
proof (induction k xs rule: chunks_of.induct)
  case (1 k xs)
  show ?case
  proof (cases "xs = [] \<or> k = 0")
    case True
    then show ?thesis using "1.prems" by (subst (asm) chunks_of.simps) simp
  next
    case False
    then consider "c = take k xs" | "c \<in> set (chunks_of k (drop k xs))"
      using "1.prems" by (subst (asm) chunks_of.simps) auto
    then show ?thesis
      using "1.IH"[OF False] False by cases (auto dest: in_set_takeD in_set_dropD)
  qed
qed

lemma concat_singles [simp]: "concat (map (send_items_of \<circ> SingleSend) items) = items"
  by (induction items) auto

lemma group_sends_items: "concat (map send_items_of (group_sends items)) = items"
proof (cases "classify_media_group items")
  case (SplitGroup chunks k)
  then have c: "chunks = chunks_of MEDIA_GROUP_MAX items"
    by (auto simp: classify_media_group_def split: if_splits option.splits)
  have "send_items_of (if length x < 2 then SingleSend (hd x) else GroupSend k x) = x" if "x \<in> set chunks" for x
  proof -
    have "x \<noteq> []" using chunks_bounds that c by blast
    then show ?thesis by (cases x; cases "tl x") auto
  qed
  then have "map send_items_of (group_sends items) = chunks"
    using SplitGroup by (simp add: group_sends_def o_def map_idI)
  then show ?thesis using chunks_concat[of 10 items] c by (simp add: MEDIA_GROUP_MAX_def)
qed (simp_all add: group_sends_def)

lemma group_sends_members: "y \<in> set (group_sends items) \<Longrightarrow> x \<in> set (send_items_of y) \<Longrightarrow> x \<in> set items"
proof -
  assume "y \<in> set (group_sends items)" "x \<in> set (send_items_of y)"
  then have "x \<in> set (concat (map send_items_of (group_sends items)))" by auto
  then show ?thesis by (simp only: group_sends_items)
qed

lemma same_kind:
  "length items \<ge> 2 \<Longrightarrow> album_kind_of (oa_kind (hd items)) = Some k
    \<Longrightarrow> list_all (\<lambda>it. album_kind_of (oa_kind it) = Some k) (tl items)
    \<Longrightarrow> list_all (\<lambda>it. album_kind_of (oa_kind it) = Some k) items"
  by (cases items) auto

lemma group_sends_ok: "list_all album_ok (group_sends items)"
proof (cases "classify_media_group items")
  case (SendAsGroup k)
  then show ?thesis using same_kind[of items k]
    by (auto simp: classify_media_group_def group_sends_def MEDIA_GROUP_MAX_def split: if_splits option.splits)
next
  case (SplitGroup chunks k)
  then have "chunks = chunks_of 10 items" "list_all (\<lambda>it. album_kind_of (oa_kind it) = Some k) items"
    using same_kind[of items k]
    by (auto simp: classify_media_group_def MEDIA_GROUP_MAX_def split: if_splits option.splits)
  then show ?thesis using SplitGroup chunks_bounds[of _ 10 items]
    by (fastforce simp: group_sends_def list_all_iff)
qed (simp add: group_sends_def list_all_iff)

lemma slot_sends_ok: "list_all album_ok (slot_sends every seen as)"
  by (induction every seen as rule: slot_sends.induct) (auto simp: group_sends_ok split: option.splits)

text \<open>What the slots from here on send of one group, and of the attachments in none.\<close>

lemma slot_sends_items:
  "filter (\<lambda>a. oa_group a = g) (concat (map send_items_of (slot_sends every seen as))) =
     (case g of
        None \<Rightarrow> filter (\<lambda>a. oa_group a = None) as
      | Some i \<Rightarrow> if i \<notin> set seen \<and> (\<exists>a \<in> set as. oa_group a = Some i) then filter (\<lambda>a. oa_group a = Some i) every else [])"
  by (induction every seen as rule: slot_sends.induct)
    (auto simp: group_sends_items filter_empty_conv dest: group_sends_members split: option.splits)

lemma partition_order:
  "filter (\<lambda>a. oa_group a = g) (concat (map send_items_of (partition_sends atts))) = filter (\<lambda>a. oa_group a = g) atts"
  using slot_sends_items[of g atts "[]" atts] by (cases g) (auto simp: partition_sends_def filter_empty_conv)

lemma partition_mset: "mset (concat (map send_items_of (partition_sends atts))) = mset atts"
proof (rule multiset_eqI)
  fix a
  let ?sent = "concat (map send_items_of (partition_sends atts))"
  have "count (mset (filter (\<lambda>b. oa_group b = oa_group a) ?sent)) a = count (mset (filter (\<lambda>b. oa_group b = oa_group a) atts)) a"
    by (simp only: partition_order)
  then show "count (mset ?sent) a = count (mset atts) a" by simp
qed

text \<open>C25: the albums keep every attachment.  Whatever groups the agent named, what is sent contains of
  every group, and of the attachments without one, exactly the attachments in their order, none twice
  and none lost; and every album has two to ten items of kinds that Telegram lets share an album.\<close>
theorem albums_keep_every_attachment:
  "filter (\<lambda>a. oa_group a = g) (concat (map send_items_of (partition_sends atts))) = filter (\<lambda>a. oa_group a = g) atts
   \<and> mset (concat (map send_items_of (partition_sends atts))) = mset atts
   \<and> list_all album_ok (partition_sends atts)"
  using partition_order partition_mset slot_sends_ok by (simp add: partition_sends_def)

section \<open>Where files come from\<close>

text \<open>The components of a path, its dots resolved by name.\<close>

definition resolve_path :: "chars \<Rightarrow> chars list" where
  "resolve_path p = foldl (\<lambda>at c. if c = [] \<or> c = [46] then at else if c = [46, 46] then butlast at else at @ [c])
     [] (split_on_char 47 p)"

definition in_sandbox_outbox :: "chars \<Rightarrow> bool" where
  "in_sandbox_outbox p \<longleftrightarrow> (\<exists>rest. rest \<noteq> [] \<and> resolve_path p = [text_chars ''sandbox'', text_chars ''outbox''] @ rest)"

lemma split_on_char_nonempty [simp]: "split_on_char d s \<noteq> []"
  by (induction s) (auto split: list.splits)

lemma split_on_char_append: "split_on_char d (a @ d # b) = split_on_char d a @ split_on_char d b"
proof (induction a)
  case (Cons c a)
  then show ?case by (cases "split_on_char d a") auto
qed simp

lemma hd_split: "r \<noteq> [] \<Longrightarrow> hd r \<noteq> d \<Longrightarrow> hd (split_on_char d r) \<noteq> []"
  by (cases r) (auto split: list.splits)

lemma resolve_grows:
  "list_all (\<lambda>c. c \<noteq> [46] \<and> c \<noteq> [46, 46]) cs
    \<Longrightarrow> foldl (\<lambda>at c. if c = [] \<or> c = [46] then at else if c = [46, 46] then butlast at else at @ [c]) acc cs
        = acc @ filter (\<lambda>c. c \<noteq> []) cs"
  by (induction cs arbitrary: acc) auto

lemma valid_path_confined:
  assumes "sandbox_outbox_path_is_valid p"
  shows "in_sandbox_outbox p"
proof -
  obtain r where r: "strip_prefix SANDBOX_OUTBOX p = Some r" "outbox_remainder_ok r"
    using assms by (auto simp: sandbox_outbox_path_is_valid_def split: option.splits)
  have "SANDBOX_OUTBOX = 47 # text_chars ''sandbox'' @ 47 # text_chars ''outbox'' @ [47]" by code_simp
  then have p: "p = [] @ 47 # text_chars ''sandbox'' @ 47 # text_chars ''outbox'' @ 47 # r"
    using r(1) by (simp add: strip_prefix_Some)
  have "split_on_char 47 (text_chars ''sandbox'') = [text_chars ''sandbox'']"
    "split_on_char 47 (text_chars ''outbox'') = [text_chars ''outbox'']" by code_simp+
  then have cs: "split_on_char 47 p = [[], text_chars ''sandbox'', text_chars ''outbox''] @ split_on_char 47 r"
    unfolding p split_on_char_append by simp
  have dots: "list_all (\<lambda>c. c \<noteq> [46] \<and> c \<noteq> [46, 46]) [[], text_chars ''sandbox'', text_chars ''outbox'']" by code_simp
  have names: "filter (\<lambda>c. c \<noteq> []) [[], text_chars ''sandbox'', text_chars ''outbox''] = [text_chars ''sandbox'', text_chars ''outbox'']"
    by code_simp
  have "list_all (\<lambda>c. c \<noteq> [46] \<and> c \<noteq> [46, 46]) (split_on_char 47 p)"
    unfolding cs list_all_append using dots r(2) by (simp add: outbox_remainder_ok_def)
  then have "resolve_path p = [text_chars ''sandbox'', text_chars ''outbox''] @ filter (\<lambda>c. c \<noteq> []) (split_on_char 47 r)"
    unfolding resolve_path_def using names by (simp only: resolve_grows cs filter_append append_Nil)
  moreover have "hd (split_on_char 47 r) \<noteq> []" using r(2) hd_split[of r 47] by (simp add: outbox_remainder_ok_def)
  then have "filter (\<lambda>c. c \<noteq> []) (split_on_char 47 r) \<noteq> []"
    by (metis (mono_tags, lifting) filter_empty_conv hd_in_set split_on_char_nonempty)
  ultimately show ?thesis by (auto simp: in_sandbox_outbox_def)
qed

text \<open>A content that may be sent: a file of the sandbox's outbox, or one that lay in the host's outbox
  when the delivery began.\<close>

definition may_leave :: "outbox_env \<Rightarrow> files \<Rightarrow> nat list \<Rightarrow> bool" where
  "may_leave env fs0 b \<longleftrightarrow>
     (\<exists>p. in_sandbox_outbox p \<and> oe_sandbox env p = Some b)
     \<or> (\<exists>p. inside (oe_canon env (host_outbox env)) p \<and> fs0 p = Some b)"

fun uploads :: "tg_call \<Rightarrow> (outbound_kind \<times> nat list) list" where
  "uploads (MediaCall k b) = [(k, b)]"
| "uploads (AlbumCall kbs) = kbs"
| "uploads _ = []"

definition log_may_leave :: "outbox_env \<Rightarrow> files \<Rightarrow> exchange \<Rightarrow> bool" where
  "log_may_leave env fs0 log \<longleftrightarrow> (\<forall>(c, a) \<in> set log. \<forall>(k, b) \<in> set (uploads c). may_leave env fs0 b)"

text \<open>The host's files hold what they held, or downloads from the sandbox's outbox; a path a file
  will be read from holds what may leave.\<close>

definition files_inv :: "outbox_env \<Rightarrow> files \<Rightarrow> files \<Rightarrow> bool" where
  "files_inv env fs0 fs \<longleftrightarrow>
     (\<forall>p b. fs p = Some b \<longrightarrow> fs0 p = Some b \<or> (\<exists>q. in_sandbox_outbox q \<and> oe_sandbox env q = Some b))"

definition path_ok :: "outbox_env \<Rightarrow> files \<Rightarrow> files \<Rightarrow> chars \<Rightarrow> bool" where
  "path_ok env fs0 fs p \<longleftrightarrow> (\<forall>b. fs p = Some b \<longrightarrow> may_leave env fs0 b)"

lemma fetch_inv:
  assumes "fetch_file env p fs = (r, fs')" "files_inv env fs0 fs"
  shows "files_inv env fs0 fs'" "path_ok env fs0 fs h \<Longrightarrow> path_ok env fs0 fs' h" "r = Ok host \<Longrightarrow> path_ok env fs0 fs' host"
proof -
  consider "classify_outbox_path p (host_outbox env) = Reject" "fs' = fs" "r = Err OutsideOutbox"
    | b where "sandbox_outbox_path_is_valid p" "oe_sandbox env p = Some b"
        "r = Ok (download_dest env p)" "fs' = fs(download_dest env p \<mapsto> b)"
    | e where "fs' = fs" "r = Err e"
    | "fs' = fs" "r = Ok (oe_canon env p)" "inside (oe_canon env (host_outbox env)) (oe_canon env p)"
    using assms(1) by (auto simp: fetch_file_def classify_outbox_path_def split: outbox_resolution.splits option.splits if_splits)
  then show "files_inv env fs0 fs'" "path_ok env fs0 fs h \<Longrightarrow> path_ok env fs0 fs' h" "r = Ok host \<Longrightarrow> path_ok env fs0 fs' host"
    using assms(2) valid_path_confined
    by (cases; fastforce simp: files_inv_def path_ok_def may_leave_def split: if_splits)+
qed

lemma drop_inv:
  "files_inv env fs0 fs \<Longrightarrow> files_inv env fs0 (fs(h := None))"
  "files_inv env fs0 fs \<Longrightarrow> files_inv env fs0 (cleanup_host_paths hs fs)"
  "path_ok env fs0 fs p \<Longrightarrow> path_ok env fs0 (fs(h := None)) p"
  by (auto simp: files_inv_def path_ok_def cleanup_host_paths_def)

lemma resolve_inv:
  assumes "resolve_host_path env a fs = (r, fs')" "files_inv env fs0 fs"
  shows "files_inv env fs0 fs'" "path_ok env fs0 fs h \<Longrightarrow> path_ok env fs0 fs' h" "r = Ok host \<Longrightarrow> path_ok env fs0 fs' host"
proof -
  obtain r1 fs1 where f: "fetch_file env (oa_path a) fs = (r1, fs1)" by fastforce
  note inv = fetch_inv[OF f assms(2)]
  show "files_inv env fs0 fs'"
    using assms(1) f inv(1) drop_inv(1) by (auto simp: resolve_host_path_def split: sum.splits option.splits if_splits)
  show "path_ok env fs0 fs h \<Longrightarrow> path_ok env fs0 fs' h"
    using assms(1) f inv(2) drop_inv(3) by (auto simp: resolve_host_path_def split: sum.splits option.splits if_splits)
  show "r = Ok host \<Longrightarrow> path_ok env fs0 fs' host"
    using assms(1) f inv(3) by (auto simp: resolve_host_path_def split: sum.splits option.splits if_splits)
qed

lemma resolve_all_inv:
  "resolve_all env as hosts fs = (r, fs') \<Longrightarrow> files_inv env fs0 fs \<Longrightarrow> \<forall>h \<in> set hosts. path_ok env fs0 fs h
    \<Longrightarrow> files_inv env fs0 fs' \<and> (\<forall>hs. r = Ok hs \<longrightarrow> (\<forall>h \<in> set hs. path_ok env fs0 fs' h))"
proof (induction as arbitrary: hosts fs)
  case (Cons a as)
  obtain r1 fs1 where s: "resolve_host_path env a fs = (r1, fs1)" by fastforce
  note inv = resolve_inv[OF s Cons.prems(2)]
  show ?case
  proof (cases r1)
    case (Inl e)
    then show ?thesis using Cons.prems(1) s inv(1) drop_inv(2) by auto
  next
    case (Inr p)
    then show ?thesis
      using Cons.prems(1,3) s inv Cons.IH[of "hosts @ [p]" fs1] by auto
  qed
qed auto

definition outbox_inv :: "outbox_env \<Rightarrow> files \<Rightarrow> files \<times> exchange \<Rightarrow> bool" where
  "outbox_inv env fs0 st \<longleftrightarrow> files_inv env fs0 (fst st) \<and> log_may_leave env fs0 (snd st)"

lemma log_may_leave_snoc:
  "log_may_leave env fs0 (log @ [(c, a)]) \<longleftrightarrow> log_may_leave env fs0 log \<and> (\<forall>(k, b) \<in> set (uploads c). may_leave env fs0 b)"
  by (auto simp: log_may_leave_def)

lemma send_single_inv:
  assumes "send_single tg env a st = (r, st')" "outbox_inv env fs0 st"
  shows "outbox_inv env fs0 st'"
proof -
  obtain fs log where st: "st = (fs, log)" by (cases st)
  have inv: "files_inv env fs0 fs" "log_may_leave env fs0 log" using assms(2) st by (simp_all add: outbox_inv_def)
  obtain r1 fs1 where s: "resolve_host_path env a fs = (r1, fs1)" by fastforce
  note ok = resolve_inv[OF s inv(1)]
  show ?thesis
  proof (cases r1)
    case (Inl e)
    then show ?thesis using assms(1) s st inv ok(1) by (auto simp: send_single_def outbox_inv_def)
  next
    case (Inr h)
    show ?thesis
    proof (cases "fs1 h")
      case None
      then show ?thesis using Inr assms(1) s st inv ok(1) by (auto simp: send_single_def outbox_inv_def)
    next
      case (Some b)
      then have "may_leave env fs0 b" using ok(3)[OF Inr] by (auto simp: path_ok_def)
      then show ?thesis
        using Some Inr assms(1) s st inv ok(1) drop_inv(1)[OF ok(1)]
        by (cases rule: ask_one_cases[of tg "MediaCall (oa_kind a) b" log])
          (auto simp: send_single_def outbox_inv_def log_may_leave_snoc)
    qed
  qed
qed

lemma send_group_inv:
  assumes "send_group tg env items st = (r, st')" "outbox_inv env fs0 st"
  shows "outbox_inv env fs0 st'"
proof -
  obtain fs log where st: "st = (fs, log)" by (cases st)
  have inv: "files_inv env fs0 fs" "log_may_leave env fs0 log" using assms(2) st by (simp_all add: outbox_inv_def)
  obtain r1 fs1 where s: "resolve_all env items [] fs = (r1, fs1)" by fastforce
  have ok: "files_inv env fs0 fs1" "\<And>hs. r1 = Ok hs \<Longrightarrow> \<forall>h \<in> set hs. path_ok env fs0 fs1 h"
    using resolve_all_inv[OF s inv(1)] by auto
  show ?thesis
  proof (cases r1)
    case (Inl e)
    then show ?thesis using assms(1) s st inv ok(1) by (auto simp: send_group_def outbox_inv_def)
  next
    case (Inr hs)
    define call where "call = AlbumCall (zip (map oa_kind items) (map (\<lambda>h. case fs1 h of Some b \<Rightarrow> b | None \<Rightarrow> []) hs))"
    have "\<forall>(k, b) \<in> set (uploads call). may_leave env fs0 b" if "\<forall>h \<in> set hs. fs1 h \<noteq> None"
    proof -
      have "may_leave env fs0 (case fs1 h of Some b \<Rightarrow> b | None \<Rightarrow> [])" if "h \<in> set hs" for h
        using that \<open>\<forall>h \<in> set hs. fs1 h \<noteq> None\<close> ok(2)[OF Inr] by (auto simp: path_ok_def)
      then show ?thesis by (auto simp: call_def dest!: set_zip_rightD)
    qed
    note leaves = this
    have gone: "files_inv env fs0 (cleanup_host_paths hs fs1)" using drop_inv(2)[OF ok(1)] .
    show ?thesis
    proof (cases "preflight_fallback items hs fs1 \<or> (\<exists>h \<in> set hs. fs1 h = None)")
      case True
      then have "st' = (cleanup_host_paths hs fs1, log)"
        using Inr assms(1) s st by (auto simp: send_group_def list_ex_iff split: if_splits)
      then show ?thesis using gone inv(2) by (simp add: outbox_inv_def)
    next
      case False
      then have "snd (send_group tg env items st) = (cleanup_host_paths hs fs1, log @ [(call, ta_album tg log call)])"
        using Inr s st by (simp add: send_group_def list_ex_iff ask_album_def call_def split: sum.split)
      then show ?thesis using assms(1) gone inv(2) leaves False by (simp add: outbox_inv_def log_may_leave_snoc)
    qed
  qed
qed

lemma send_items_inv:
  "outbox_inv env fs0 st \<Longrightarrow> send_items stop tg env as r st = (out, r', st') \<Longrightarrow> outbox_inv env fs0 st'"
proof (induction as arbitrary: r st)
  case (Cons a as)
  obtain r1 st1 where s: "send_single tg env a st = (r1, st1)" by (metis surj_pair)
  have inv: "outbox_inv env fs0 st1" using send_single_inv[OF s Cons.prems(1)] .
  show ?case
  proof (cases r1)
    case (Inl e)
    then show ?thesis using Cons.prems(2) s inv Cons.IH[OF inv] by (cases stop) simp_all
  next
    case (Inr m)
    then show ?thesis using Cons.prems(2) s Cons.IH[OF inv] by simp
  qed
qed simp

lemma send_one_inv:
  assumes "outbox_inv env fs0 st" "send_one stop tg env s r st = (out, r', st')"
  shows "outbox_inv env fs0 st'"
proof (cases s)
  case (SingleSend a)
  then show ?thesis using assms(2) send_items_inv[OF assms(1)] by (simp only: send_one_def outbound_send.case)
next
  case (GroupSend k items)
  obtain r1 st1 where g: "send_group tg env items st = (r1, st1)" by (metis surj_pair)
  have inv: "outbox_inv env fs0 st1" using send_group_inv[OF g assms(1)] .
  consider ms where "r1 = Ok ms" | "r1 = Err FallbackToSingles" | e where "r1 = Err (Terminal e)"
    by (metis group_error.exhaust sum.exhaust)
  then show ?thesis
    using assms(2) GroupSend g inv send_items_inv[OF inv] by cases (simp_all add: send_one_def)
qed

lemma send_list_inv:
  "outbox_inv env fs0 st \<Longrightarrow> send_list stop tg env ss r st = (r', st') \<Longrightarrow> outbox_inv env fs0 st'"
proof (induction ss arbitrary: r st)
  case (Cons s ss)
  obtain out r1 st1 where o: "send_one stop tg env s r st = (out, r1, st1)" by (metis surj_pair)
  show ?case
    using Cons.prems o Cons.IH[OF send_one_inv[OF Cons.prems(1) o]] send_one_inv[OF Cons.prems(1) o]
    by (cases out) auto
qed simp

text \<open>C26: only files of an outbox leave.  Whatever paths the agent names, with dots, links or as host
  paths, every content that is uploaded is that of a file under the sandbox's outbox, dots resolved, or of
  a file that lay in the host's outbox, links resolved, when the delivery began.\<close>
theorem only_outbox_files_are_uploaded:
  assumes "send_attachments_reported stop tg env atts (fs, []) = (r, fs', log)" "(call, answer) \<in> set log" "(k, b) \<in> set (uploads call)"
  shows "(\<exists>p rest. resolve_path p = [text_chars ''sandbox'', text_chars ''outbox''] @ rest \<and> rest \<noteq> [] \<and> oe_sandbox env p = Some b)
    \<or> (\<exists>p. inside (oe_canon env (oe_agent_dir env @ text_chars ''/outbox'')) p \<and> fs p = Some b)"
proof -
  have "outbox_inv env fs (fs, [])" by (simp add: outbox_inv_def files_inv_def log_may_leave_def)
  then have "outbox_inv env fs (fs', log)"
    using assms(1) send_list_inv by (auto simp: send_attachments_reported_def split: if_splits)
  then have "may_leave env fs b" using assms(2,3) by (fastforce simp: outbox_inv_def log_may_leave_def)
  then show ?thesis by (auto simp: may_leave_def in_sandbox_outbox_def host_outbox_def)
qed

section \<open>What a report says\<close>

text \<open>What was uploaded, and what an attachment is to upload.\<close>

definition uploaded :: "exchange \<Rightarrow> (outbound_kind \<times> nat list) list" where
  "uploaded log = concat (map (\<lambda>(c, a). if is_ok a then uploads c else []) log)"

definition wanted_upload :: "outbox_env \<Rightarrow> outbound_attachment \<Rightarrow> outbound_kind \<times> nat list" where
  "wanted_upload env a = (oa_kind a, case oe_sandbox env (oa_path a) of Some b \<Rightarrow> b | None \<Rightarrow> [])"

text \<open>Attachments of the sandbox with file names of their own.\<close>

definition own_names :: "outbox_env \<Rightarrow> outbound_attachment list \<Rightarrow> bool" where
  "own_names env atts \<longleftrightarrow> distinct (map (\<lambda>a. file_name (oa_path a)) atts)
     \<and> list_all (\<lambda>a. classify_outbox_path (oa_path a) (host_outbox env) = SandboxDownload) atts"

lemma uploaded_simps [simp]: "uploaded [] = []" "uploaded (a @ b) = uploaded a @ uploaded b"
  "uploaded [(c, Ok ms)] = uploads c" "uploaded [(c, Err e)] = []"
  by (simp_all add: uploaded_def)

lemma resolve_sandbox:
  assumes "classify_outbox_path (oa_path a) (host_outbox env) = SandboxDownload"
    "resolve_host_path env a fs = (Ok h, fs')"
  obtains b where "h = download_dest env (oa_path a)" "oe_sandbox env (oa_path a) = Some b" "fs' = fs(h \<mapsto> b)"
  using assms by (auto simp: resolve_host_path_def fetch_file_def split: option.splits if_splits)

lemma send_single_uploads:
  assumes "classify_outbox_path (oa_path a) (host_outbox env) = SandboxDownload" "send_single tg env a (fs, log) = (r, fs', log')"
  shows "uploaded log' = uploaded log @ (if is_ok r then [wanted_upload env a] else [])"
proof -
  obtain r1 fs1 where s: "resolve_host_path env a fs = (r1, fs1)" by fastforce
  show ?thesis
  proof (cases r1)
    case (Inl e)
    then show ?thesis using assms(2) s by (auto simp: send_single_def)
  next
    case (Inr h)
    then obtain b where b: "oe_sandbox env (oa_path a) = Some b" "fs1 h = Some b"
      using resolve_sandbox[OF assms(1)] s by (metis fun_upd_same)
    show ?thesis using assms(2) s Inr b
      by (cases rule: ask_one_cases[of tg "MediaCall (oa_kind a) b" log])
        (auto simp: send_single_def wanted_upload_def)
  qed
qed

lemma dest_eq [simp]: "download_dest env p = download_dest env q \<longleftrightarrow> file_name p = file_name q"
  by (simp add: download_dest_def)

lemma resolve_all_sandbox:
  "own_names env items \<Longrightarrow> resolve_all env items hosts fs = (Ok hs, fs')
    \<Longrightarrow> hs = hosts @ map (\<lambda>a. download_dest env (oa_path a)) items
      \<and> (\<forall>a \<in> set items. oe_sandbox env (oa_path a) \<noteq> None \<and> fs' (download_dest env (oa_path a)) = oe_sandbox env (oa_path a))
      \<and> (\<forall>p. p \<notin> set (map (\<lambda>a. download_dest env (oa_path a)) items) \<longrightarrow> fs' p = fs p)"
proof (induction items arbitrary: hosts fs)
  case (Cons a items)
  let ?d = "\<lambda>a. download_dest env (oa_path a)"
  obtain r1 fs1 where s: "resolve_host_path env a fs = (r1, fs1)" by fastforce
  then obtain h where h: "r1 = Ok h" using Cons.prems(2) by (cases r1) auto
  have own: "own_names env items" "?d a \<notin> set (map ?d items)"
    "classify_outbox_path (oa_path a) (host_outbox env) = SandboxDownload"
    using Cons.prems(1) by (auto simp: own_names_def)
  obtain b where b: "h = ?d a" "oe_sandbox env (oa_path a) = Some b" "fs1 = fs(h \<mapsto> b)"
    using resolve_sandbox[OF own(3)] s h by blast
  have "resolve_all env items (hosts @ [h]) fs1 = (Ok hs, fs')" using Cons.prems(2) s h by simp
  note rest = Cons.IH[OF own(1) this]
  have "fs' (?d a) = Some b" using rest own(2) b by simp
  then show ?case using rest b by auto
qed simp

lemma send_group_uploads:
  assumes "own_names env items" "send_group tg env items (fs, log) = (r, fs', log')"
  shows "uploaded log' = uploaded log @ (if is_ok r then map (wanted_upload env) items else [])"
proof -
  obtain r1 fs1 where s: "resolve_all env items [] fs = (r1, fs1)" by fastforce
  show ?thesis
  proof (cases r1)
    case (Inl e)
    then show ?thesis using assms(2) s by (auto simp: send_group_def)
  next
    case (Inr hs)
    let ?content = "\<lambda>h. case fs1 h of Some b \<Rightarrow> b | None \<Rightarrow> []"
    have hs: "hs = map (\<lambda>a. download_dest env (oa_path a)) items"
      "\<forall>a \<in> set items. fs1 (download_dest env (oa_path a)) = oe_sandbox env (oa_path a)"
      using resolve_all_sandbox[OF assms(1), of "[]" fs hs fs1] s Inr by auto
    have "zip (map oa_kind items) (map ?content hs) = map (wanted_upload env) items"
      using hs by (simp add: zip_map_map zip_same_conv_map wanted_upload_def)
    then show ?thesis
      using assms(2) s Inr by (auto simp: send_group_def ask_album_def split: if_splits sum.splits)
  qed
qed

lemma failure_kept:
  "at_failure (record_send_failure e r) \<noteq> None" "at_failure (confirm ms items r) = at_failure r"
  by (auto simp: record_send_failure_def confirm_def)

lemma send_items_failure: "send_items stop tg env as r st = (out, r', st') \<Longrightarrow> at_failure r \<noteq> None \<Longrightarrow> at_failure r' \<noteq> None"
proof (induction as arbitrary: r st)
  case (Cons a as)
  obtain r1 st1 where s: "send_single tg env a st = (r1, st1)" by (metis surj_pair)
  show ?case
  proof (cases r1)
    case (Inl e)
    then show ?thesis using Cons s failure_kept(1)[of e r] by (cases stop) auto
  next
    case (Inr m)
    then show ?thesis using Cons s failure_kept(2)[of "[m]" "[a]" r] by auto
  qed
qed simp

lemma send_items_uploads:
  "list_all (\<lambda>a. classify_outbox_path (oa_path a) (host_outbox env) = SandboxDownload) as
    \<Longrightarrow> send_items stop tg env as r (fs, log) = (out, r', fs', log') \<Longrightarrow> at_failure r' = None
    \<Longrightarrow> \<not> out \<and> at_failure r = None \<and> uploaded log' = uploaded log @ map (wanted_upload env) as
      \<and> at_fragments r' = at_fragments r @ map attachment_fragment as"
proof (induction as arbitrary: r fs log)
  case (Cons a as)
  obtain r1 fs1 log1 where s: "send_single tg env a (fs, log) = (r1, fs1, log1)" by (metis surj_pair)
  show ?case
  proof (cases r1)
    case (Inl e)
    then have False
      using Cons.prems(2,3) s send_items_failure[of stop tg env as "record_send_failure e r"] failure_kept(1)[of e r]
      by (cases stop) auto
    then show ?thesis ..
  next
    case (Inr m)
    then have "send_items stop tg env as (confirm [m] [a] r) (fs1, log1) = (out, r', fs', log')"
      using Cons.prems(2) s by simp
    then show ?thesis
      using Cons.IH[of "confirm [m] [a] r" fs1 log1] Cons.prems(1,3) send_single_uploads[of a env tg fs log r1 fs1 log1] s Inr
      by (simp add: confirm_def)
  qed
qed simp

lemma send_one_uploads:
  assumes "own_names env (send_items_of s)" "send_one stop tg env s r (fs, log) = (out, r', fs', log')" "at_failure r' = None"
  shows "\<not> out \<and> at_failure r = None \<and> uploaded log' = uploaded log @ map (wanted_upload env) (send_items_of s)
    \<and> at_fragments r' = at_fragments r @ map attachment_fragment (send_items_of s)"
proof (cases s)
  case (SingleSend a)
  then have run: "send_items stop tg env [a] r (fs, log) = (out, r', fs', log')"
    using assms(2) by (simp only: send_one_def outbound_send.case)
  have "list_all (\<lambda>a. classify_outbox_path (oa_path a) (host_outbox env) = SandboxDownload) [a]"
    using assms(1) SingleSend by (simp add: own_names_def)
  from send_items_uploads[OF this run assms(3)] show ?thesis using SingleSend by simp
next
  case (GroupSend k items)
  obtain r1 fs1 log1 where g: "send_group tg env items (fs, log) = (r1, fs1, log1)" by (metis surj_pair)
  have own: "own_names env items" "list_all (\<lambda>a. classify_outbox_path (oa_path a) (host_outbox env) = SandboxDownload) items"
    using assms(1) GroupSend by (simp_all add: own_names_def)
  note up = send_group_uploads[OF own(1) g]
  consider ms where "r1 = Ok ms" | "r1 = Err FallbackToSingles" | e where "r1 = Err (Terminal e)"
    by (metis group_error.exhaust sum.exhaust)
  then show ?thesis
  proof cases
    case 1
    then show ?thesis using assms(2,3) GroupSend g up by (auto simp: send_one_def confirm_def)
  next
    case 2
    then show ?thesis using assms(2,3) GroupSend g up send_items_uploads[OF own(2), of stop tg r fs1 log1 out r' fs' log']
      by (simp add: send_one_def)
  next
    case 3
    then show ?thesis using assms(2,3) GroupSend g failure_kept(1)[of e r] by (auto simp: send_one_def)
  qed
qed

lemma send_one_failure: "send_one stop tg env s r st = (out, r', st') \<Longrightarrow> at_failure r \<noteq> None \<Longrightarrow> at_failure r' \<noteq> None"
proof (cases s)
  case (SingleSend a)
  then show "send_one stop tg env s r st = (out, r', st') \<Longrightarrow> at_failure r \<noteq> None \<Longrightarrow> at_failure r' \<noteq> None"
    using send_items_failure by (simp only: send_one_def outbound_send.case)
next
  case (GroupSend k items)
  obtain r1 st1 where g: "send_group tg env items st = (r1, st1)" by (metis surj_pair)
  consider ms where "r1 = Ok ms" | "r1 = Err FallbackToSingles" | e where "r1 = Err (Terminal e)"
    by (metis group_error.exhaust sum.exhaust)
  then show "send_one stop tg env s r st = (out, r', st') \<Longrightarrow> at_failure r \<noteq> None \<Longrightarrow> at_failure r' \<noteq> None"
    using GroupSend g send_items_failure failure_kept by cases (auto simp: send_one_def)
qed

lemma send_list_failure: "send_list stop tg env ss r st = (r', st') \<Longrightarrow> at_failure r \<noteq> None \<Longrightarrow> at_failure r' \<noteq> None"
proof (induction ss arbitrary: r st)
  case (Cons s ss)
  obtain out r1 st1 where o: "send_one stop tg env s r st = (out, r1, st1)" by (metis surj_pair)
  show ?case using Cons o send_one_failure[OF o] by (cases out) auto
qed simp

lemma own_names_append: "own_names env (a @ b) \<Longrightarrow> own_names env a \<and> own_names env b"
  by (simp add: own_names_def)

lemma send_list_uploads:
  "own_names env (concat (map send_items_of ss)) \<Longrightarrow> send_list stop tg env ss r (fs, log) = (r', fs', log') \<Longrightarrow> at_failure r' = None
    \<Longrightarrow> at_failure r = None \<and> uploaded log' = uploaded log @ map (wanted_upload env) (concat (map send_items_of ss))
      \<and> at_fragments r' = at_fragments r @ map attachment_fragment (concat (map send_items_of ss))"
proof (induction ss arbitrary: r fs log)
  case (Cons s ss)
  have own: "own_names env (send_items_of s)" "own_names env (concat (map send_items_of ss))"
    using Cons.prems(1) own_names_append[of env "send_items_of s" "concat (map send_items_of ss)"] by simp_all
  obtain out r1 fs1 log1 where o: "send_one stop tg env s r (fs, log) = (out, r1, fs1, log1)"
    using prod_cases4 by blast
  have "at_failure r1 = None"
    using Cons.prems(2,3) o send_list_failure[of stop tg env ss r1 "(fs1, log1)"] by (cases out; cases "at_failure r1") auto
  note one = send_one_uploads[OF own(1) o this]
  then have "send_list stop tg env ss r1 (fs1, log1) = (r', fs', log')" using Cons.prems(2) o by simp
  from Cons.IH[OF own(2) this Cons.prems(3)] one show ?case by simp
qed simp

lemma own_names_mset:
  assumes "mset a = mset b" "own_names env a"
  shows "own_names env b"
proof -
  have "mset (map (\<lambda>x. file_name (oa_path x)) a) = mset (map (\<lambda>x. file_name (oa_path x)) b)" using assms(1) by simp
  then have "distinct (map (\<lambda>x. file_name (oa_path x)) b)"
    using assms(2) mset_eq_imp_distinct_iff unfolding own_names_def by blast
  moreover have "set a = set b" using assms(1) by (rule mset_eq_setD)
  ultimately show ?thesis using assms(2) by (simp add: own_names_def list_all_iff)
qed

text \<open>C27: for attachments that are files of the sandbox with distinct base names, a report without a failure
  means that every file was uploaded: Telegram accepted, in one message or album each, exactly the wanted
  kind and content of every attachment, no more and no fewer, whatever was refused as an album and sent
  again one by one; and the archive gets one fragment for each.  Files that share a base name are outside
  of it: an album of two such files reports success and sends one of them twice
  (\<open>same_name_sends_one_file_twice\<close>).\<close>
theorem reported_success_sent_every_file:
  assumes "own_names env atts" "send_attachments_reported stop tg env atts (fs, []) = (r, fs', log)" "at_failure r = None"
  shows "mset (uploaded log) = mset (map (wanted_upload env) atts)
    \<and> mset (at_fragments r) = mset (map attachment_fragment atts)"
proof -
  let ?sent = "concat (map send_items_of (partition_sends atts))"
  have m: "mset ?sent = mset atts" by (rule partition_mset)
  have "send_list stop tg env (partition_sends atts) empty_report (fs, []) = (r, fs', log)"
    using assms(2,3) by (auto simp: send_attachments_reported_def split: if_splits)
  from send_list_uploads[OF own_names_mset[OF m[symmetric] assms(1)] this assms(3)]
  have "uploaded log = map (wanted_upload env) ?sent" "at_fragments r = map attachment_fragment ?sent"
    by (simp_all add: empty_report_def)
  then show ?thesis by (simp only: mset_map m)
qed

section \<open>Concrete deliveries\<close>

definition sample_env :: outbox_env where
  "sample_env = \<lparr>oe_agent_dir = text_chars ''/a'', oe_tmp_ready = True, oe_outbox_found = True, oe_canon = id,
     oe_sandbox = [text_chars ''/sandbox/outbox/x'' \<mapsto> [1], text_chars ''/sandbox/outbox/y'' \<mapsto> [2],
       text_chars ''/sandbox/outbox/d/x'' \<mapsto> [3]]\<rparr>"

definition sample_file :: "string \<Rightarrow> string option \<Rightarrow> outbound_attachment" where
  "sample_file p g = \<lparr>oa_kind = Photo, oa_path = text_chars p, oa_filename = None, oa_group = map_option text_chars g\<rparr>"

lemma sample_paths:
  "classify_outbox_path (text_chars ''/sandbox/outbox/x'') (host_outbox sample_env) = SandboxDownload"
  "classify_outbox_path (text_chars ''/sandbox/outbox/y'') (host_outbox sample_env) = SandboxDownload"
  "classify_outbox_path (text_chars ''/sandbox/outbox/d/x'') (host_outbox sample_env) = SandboxDownload"
  "download_dest sample_env (text_chars ''/sandbox/outbox/x'') = text_chars ''/a/tmp/outbox/x''"
  "download_dest sample_env (text_chars ''/sandbox/outbox/y'') = text_chars ''/a/tmp/outbox/y''"
  "download_dest sample_env (text_chars ''/sandbox/outbox/d/x'') = text_chars ''/a/tmp/outbox/x''"
  by code_simp+

lemma sample_names [simp]:
  "text_chars a = text_chars b \<longleftrightarrow> a = b"
  by (auto simp: text_chars_def inj_map_eq_map inj_def)

lemma sample_album:
  "partition_sends [sample_file p (Some ''g''), sample_file q (Some ''g'')]
    = [GroupSend PhotoVideo [sample_file p (Some ''g''), sample_file q (Some ''g'')]]"
  by (simp add: partition_sends_def group_sends_def classify_media_group_def sample_file_def MEDIA_GROUP_MAX_def)

lemma sample_resolve:
  assumes "classify_outbox_path (text_chars p) (host_outbox sample_env) = SandboxDownload" "oe_sandbox sample_env (text_chars p) = Some [b]"
  shows "resolve_host_path sample_env (sample_file p g) fs
    = (Ok (download_dest sample_env (text_chars p)), fs(download_dest sample_env (text_chars p) \<mapsto> [b]))"
  using assms by (simp add: resolve_host_path_def fetch_file_def sample_file_def upload_limit_def TELEGRAM_PHOTO_UPLOAD_LIMIT_def)

lemma sample_contents [simp]:
  "oe_sandbox sample_env (text_chars ''/sandbox/outbox/x'') = Some [1]"
  "oe_sandbox sample_env (text_chars ''/sandbox/outbox/y'') = Some [2]"
  "oe_sandbox sample_env (text_chars ''/sandbox/outbox/d/x'') = Some [3]" "oe_tmp_ready sample_env"
  by (simp_all add: sample_env_def)

lemma sample_kind [simp]: "oa_kind (sample_file p g) = Photo"
  by (simp add: sample_file_def)

lemma agreeable_album [simp]: "ask_album agreeable c log = (Ok [], log @ [(c, Ok [])])"
  by (simp add: ask_album_def agreeable_def)

lemma sample_delivery:
  "send_attachments_reported True agreeable sample_env
      [sample_file ''/sandbox/outbox/x'' (Some ''g''), sample_file ''/sandbox/outbox/y'' (Some ''g'')] (Map.empty, [])
    = (confirm [] [sample_file ''/sandbox/outbox/x'' (Some ''g''), sample_file ''/sandbox/outbox/y'' (Some ''g'')] empty_report,
       Map.empty, [(AlbumCall [(Photo, [1]), (Photo, [2])], Ok [])])"
  by (simp add: send_attachments_reported_def sample_album send_one_def send_group_def sample_resolve sample_paths
      preflight_fallback_def cleanup_host_paths_def fun_eq_iff del: One_nat_def)

lemma reported_success_sent_every_file_witness:
  "\<exists>r fs log. send_attachments_reported True agreeable sample_env
       [sample_file ''/sandbox/outbox/x'' (Some ''g''), sample_file ''/sandbox/outbox/y'' (Some ''g'')] (Map.empty, []) = (r, fs, log)
     \<and> at_failure r = None \<and> mset (uploaded log) = {# (Photo, [1]), (Photo, [2]) #}"
proof -
  let ?atts = "[sample_file ''/sandbox/outbox/x'' (Some ''g''), sample_file ''/sandbox/outbox/y'' (Some ''g'')]"
  have "file_name (text_chars ''/sandbox/outbox/x'') \<noteq> file_name (text_chars ''/sandbox/outbox/y'')" by code_simp
  then have "own_names sample_env ?atts" using sample_paths by (simp add: own_names_def sample_file_def)
  from reported_success_sent_every_file[OF this sample_delivery]
  have "mset (uploaded [(AlbumCall [(Photo, [1]), (Photo, [2])], Ok [])]) = mset (map (wanted_upload sample_env) ?atts)"
    by (simp add: confirm_def empty_report_def)
  then show ?thesis
    using sample_delivery by (auto simp: confirm_def empty_report_def wanted_upload_def sample_file_def)
qed

lemma only_outbox_files_are_uploaded_witness:
  "\<exists>fs p rest. snd (send_attachments_reported True agreeable sample_env
       [sample_file ''/sandbox/outbox/x'' (Some ''g''), sample_file ''/sandbox/outbox/y'' (Some ''g'')] (Map.empty, [])) = fs
     \<and> resolve_path p = [text_chars ''sandbox'', text_chars ''outbox''] @ rest \<and> rest \<noteq> [] \<and> oe_sandbox sample_env p = Some [1]"
  using only_outbox_files_are_uploaded[OF sample_delivery, of "AlbumCall [(Photo, [1]), (Photo, [2])]" "Ok []" Photo "[1]"]
  by auto

text \<open>Two files with one name in different directories of the sandbox are fetched to one place, so an
  album of both sends the second file twice and never the first.\<close>

lemma same_name_sends_one_file_twice:
  "uploaded (snd (snd (send_attachments_reported True agreeable sample_env
      [sample_file ''/sandbox/outbox/x'' (Some ''g''), sample_file ''/sandbox/outbox/d/x'' (Some ''g'')] (Map.empty, []))))
   = [(Photo, [3]), (Photo, [3])]"
  by (simp add: send_attachments_reported_def sample_album send_one_def send_group_def sample_resolve sample_paths
      preflight_fallback_def uploaded_def del: One_nat_def)

text \<open>A cron job's files are staged in the host's outbox, and a failed delivery is tried again.  A single
  send keeps its file when the call fails; an album deletes the files of all its items, so the next
  attempt finds none of them.\<close>

lemma failed_album_loses_staged_files:
  assumes "classify_outbox_path (oa_path a) (host_outbox env) = HostLocal" "classify_outbox_path (oa_path b) (host_outbox env) = HostLocal"
    "oa_kind a = Photo" "oa_kind b = Photo" "oe_outbox_found env"
    "inside (oe_canon env (host_outbox env)) (oe_canon env (oa_path a))" "inside (oe_canon env (host_outbox env)) (oe_canon env (oa_path b))"
    "fs (oe_canon env (oa_path a)) = Some x" "fs (oe_canon env (oa_path b)) = Some y"
    "length x \<le> TELEGRAM_PHOTO_UPLOAD_LIMIT" "length y \<le> TELEGRAM_PHOTO_UPLOAD_LIMIT"
    "ta_album tg [] (AlbumCall [(Photo, x), (Photo, y)]) = Err (TimedOut t)"
  shows "\<exists>fs' log. send_group tg env [a, b] (fs, []) = (Err (Terminal (Api (TimedOut t))), fs', log)
      \<and> resolve_host_path env a fs' = (Err NotCanonical, fs') \<and> resolve_host_path env b fs' = (Err NotCanonical, fs')"
  using assms
  by (simp add: send_group_def resolve_host_path_def fetch_file_def upload_limit_def preflight_fallback_def ask_album_def
      cleanup_host_paths_def)

text \<open>The same happens to an album of staged documents with a WebP file, which is not even tried as an
  album: its files are deleted before they are sent one by one.\<close>

lemma webp_album_loses_staged_files:
  assumes "classify_outbox_path (oa_path a) (host_outbox env) = HostLocal" "classify_outbox_path (oa_path b) (host_outbox env) = HostLocal"
    "oa_kind a = Document" "oa_kind b = Document" "oe_outbox_found env" "oe_tmp_ready env" "oa_group a = Some g" "oa_group b = Some g"
    "inside (oe_canon env (host_outbox env)) (oe_canon env (oa_path a))" "inside (oe_canon env (host_outbox env)) (oe_canon env (oa_path b))"
    "fs (oe_canon env (oa_path a)) = Some x" "fs (oe_canon env (oa_path b)) = Some y" "is_webp_file_header (take 12 x)"
    "length x \<le> TELEGRAM_FILE_UPLOAD_LIMIT" "length y \<le> TELEGRAM_FILE_UPLOAD_LIMIT"
  shows "\<exists>fs'. send_attachments tg env [a, b] (fs, [])
      = (Err [Certain (Skip NotCanonical), Certain (Skip NotCanonical)], fs', [])"
proof -
  let ?fs = "cleanup_host_paths [oe_canon env (oa_path a), oe_canon env (oa_path b)] fs"
  have gone: "resolve_host_path env a ?fs = (Err NotCanonical, ?fs)" "resolve_host_path env b ?fs = (Err NotCanonical, ?fs)"
    using assms by (simp_all add: resolve_host_path_def fetch_file_def cleanup_host_paths_def)
  have "partition_sends [a, b] = [GroupSend DocumentGroup [a, b]]"
    using assms by (simp add: partition_sends_def group_sends_def classify_media_group_def MEDIA_GROUP_MAX_def)
  moreover have "send_group tg env [a, b] (fs, []) = (Err FallbackToSingles, ?fs, [])"
    using assms by (simp add: send_group_def resolve_host_path_def fetch_file_def upload_limit_def preflight_fallback_def)
  ultimately show ?thesis
    using gone assms(6)
    by (simp add: send_attachments_def send_attachments_reported_def send_one_def send_single_def record_send_failure_def empty_report_def)
qed

end
