(* ===== verification/Progress.thy ===== *)
theory Progress
  imports Outbox Allowlist
begin

text \<open>
  The tools an agent speaks with during a turn.  The owner keeps a registry of
  running invocations (\<^verbatim>\<open>right/src/progress.rs\<close>) and serves the tools
  (\<^verbatim>\<open>right/src/right_backend.rs\<close>); the bot keeps its own registry and does the sending
  (\<^verbatim>\<open>bot/src/telegram/progress.rs\<close>).  Every registry operation holds the lock of the
  registry; between two of them other tools may run.
\<close>

section \<open>The registry of the owner\<close>

definition PROGRESS_RATE_LIMIT :: millis where "PROGRESS_RATE_LIMIT = secs 30"
definition PROGRESS_MESSAGE_MAX_CHARS :: nat where "PROGRESS_MESSAGE_MAX_CHARS = 2000"
definition MAX_SEND_MESSAGE_PER_TURN :: nat where "MAX_SEND_MESSAGE_PER_TURN = 20"
definition MAX_CHANNEL_POST_PER_TURN :: nat where "MAX_CHANNEL_POST_PER_TURN = 10"

datatype invocation_kind = Foreground | BackgroundReview | ProbeWriter | Curator | CronRun

definition is_learning_capable :: "invocation_kind \<Rightarrow> bool" where
  "is_learning_capable k = (k \<in> {Foreground, ProbeWriter, Curator, CronRun})"

definition sends_learning_messages :: "invocation_kind \<Rightarrow> bool" where
  "sends_learning_messages k = (k = Foreground)"

record conv_scope =
  cv_chat :: int
  cv_thread :: int

text \<open>Where an invocation's bot listens, and the token it asks for.\<close>

record send_target =
  st_socket :: chars
  st_token :: chars

record registration =
  rg_id :: chars
  rg_kind :: invocation_kind
  rg_target :: send_target
  rg_scope :: "conv_scope option"

record invocation =
  iv_kind :: invocation_kind
  iv_target :: send_target
  iv_scope :: "conv_scope option"
  iv_last_sent :: "millis option"
  iv_messages :: nat
  iv_posts :: nat

datatype progress_error = Unavailable | Forbidden | RateLimited millis

type_synonym registry = "chars \<rightharpoonup> invocation"

definition register :: "registration \<Rightarrow> registry \<Rightarrow> registry" where
  "register r reg = reg(rg_id r \<mapsto> \<lparr>iv_kind = rg_kind r, iv_target = rg_target r, iv_scope = rg_scope r,
     iv_last_sent = None, iv_messages = 0, iv_posts = 0\<rparr>)"

definition unregister :: "chars \<Rightarrow> registry \<Rightarrow> registry" where
  "unregister i reg = reg(i := None)"

text \<open>The handler of a registration: the scope needs both the chat and the topic.\<close>

definition progress_register ::
  "chars \<Rightarrow> invocation_kind \<Rightarrow> send_target \<Rightarrow> int option \<Rightarrow> int option \<Rightarrow> registry \<Rightarrow> registry" where
  "progress_register i kind target chat thread reg =
     register \<lparr>rg_id = i, rg_kind = kind, rg_target = target,
       rg_scope = (case (chat, thread) of (Some c, Some t) \<Rightarrow> Some \<lparr>cv_chat = c, cv_thread = t\<rparr> | _ \<Rightarrow> None)\<rparr> reg"

definition begin_send :: "chars \<Rightarrow> millis \<Rightarrow> registry \<Rightarrow> (progress_error + send_target) \<times> registry" where
  "begin_send i now reg =
     (case reg i of
        None \<Rightarrow> (Err Unavailable, reg)
      | Some iv \<Rightarrow>
          if iv_kind iv \<noteq> Foreground then (Err Forbidden, reg)
          else (case iv_last_sent iv of
                  Some before \<Rightarrow>
                    let elapsed = max 0 (now - before) in
                    if elapsed < PROGRESS_RATE_LIMIT then (Err (RateLimited (PROGRESS_RATE_LIMIT - elapsed)), reg)
                    else (Ok (iv_target iv), reg(i \<mapsto> iv\<lparr>iv_last_sent := Some now\<rparr>))
                | None \<Rightarrow> (Ok (iv_target iv), reg(i \<mapsto> iv\<lparr>iv_last_sent := Some now\<rparr>))))"

definition begin_message_send :: "chars \<Rightarrow> registry \<Rightarrow> (progress_error + send_target) \<times> registry" where
  "begin_message_send i reg =
     (case reg i of
        None \<Rightarrow> (Err Unavailable, reg)
      | Some iv \<Rightarrow>
          if iv_kind iv \<noteq> Foreground then (Err Forbidden, reg)
          else if MAX_SEND_MESSAGE_PER_TURN \<le> iv_messages iv then (Err (RateLimited 0), reg)
          else (Ok (iv_target iv), reg(i \<mapsto> iv\<lparr>iv_messages := iv_messages iv + 1\<rparr>)))"

definition begin_channel_post :: "chars \<Rightarrow> registry \<Rightarrow> (progress_error + send_target) \<times> registry" where
  "begin_channel_post i reg =
     (case reg i of
        None \<Rightarrow> (Err Unavailable, reg)
      | Some iv \<Rightarrow>
          if iv_kind iv \<noteq> Foreground \<and> iv_kind iv \<noteq> CronRun then (Err Forbidden, reg)
          else if MAX_CHANNEL_POST_PER_TURN \<le> iv_posts iv then (Err (RateLimited 0), reg)
          else (Ok (iv_target iv), reg(i \<mapsto> iv\<lparr>iv_posts := iv_posts iv + 1\<rparr>)))"

definition mark_send_failed :: "chars \<Rightarrow> registry \<Rightarrow> registry" where
  "mark_send_failed i reg =
     (case reg i of None \<Rightarrow> reg | Some iv \<Rightarrow> reg(i \<mapsto> iv\<lparr>iv_last_sent := None\<rparr>))"

definition learning_invocation :: "chars \<Rightarrow> registry \<Rightarrow> progress_error + (invocation_kind \<times> send_target)" where
  "learning_invocation i reg =
     (case reg i of
        None \<Rightarrow> Err Unavailable
      | Some iv \<Rightarrow> if is_learning_capable (iv_kind iv) then Ok (iv_kind iv, iv_target iv) else Err Forbidden)"

definition foreground_scope :: "chars \<Rightarrow> registry \<Rightarrow> progress_error + (conv_scope \<times> send_target)" where
  "foreground_scope i reg =
     (case reg i of
        None \<Rightarrow> Err Unavailable
      | Some iv \<Rightarrow>
          if iv_kind iv \<noteq> Foreground then Err Forbidden
          else (case iv_scope iv of None \<Rightarrow> Err Unavailable | Some s \<Rightarrow> Ok (s, iv_target iv)))"

definition conversation_scope :: "chars \<Rightarrow> registry \<Rightarrow> progress_error + conv_scope" where
  "conversation_scope i reg = bind_result (foreground_scope i reg) (\<lambda>(s, t). Ok s)"

definition conversation_scope_opt :: "chars \<Rightarrow> registry \<Rightarrow> conv_scope option" where
  "conversation_scope_opt i reg =
     (case reg i of None \<Rightarrow> None | Some iv \<Rightarrow> if iv_kind iv \<noteq> Foreground then None else iv_scope iv)"

definition forum_target :: "chars \<Rightarrow> registry \<Rightarrow> progress_error + (send_target \<times> int)" where
  "forum_target i reg = bind_result (foreground_scope i reg) (\<lambda>(s, t). Ok (t, cv_chat s))"

section \<open>The tools\<close>

text \<open>What the owner asks of the bot, and what it hears: a reply, or an error of any kind.\<close>

datatype bot_request =
    ProgressRequest chars chars chars
  | MessageRequest chars chars "rich_content option" "outbound_attachment list"
  | PostRequest chars chars int "rich_content option" "outbound_attachment list"

record bot_reply =
  br_ok :: bool
  br_ids :: "int list"
  br_uncertain :: bool

datatype tool_answer = ToolSent "int list" | ToolError string | ToolPartial string "int list" | ToolWait int

definition attachment_path_is_valid :: "chars \<Rightarrow> bool" where
  "attachment_path_is_valid p =
     (case strip_prefix SANDBOX_OUTBOX p of None \<Rightarrow> False | Some r \<Rightarrow> outbox_remainder_ok r)"

text \<open>The parameters come parsed, or they did not parse; \<open>ask\<close> is the request to the bot and
  \<open>meanwhile\<close> what other calls do to the registry until it is answered.  The requests are returned.\<close>

definition call_send_progress ::
  "(send_target \<Rightarrow> bot_request \<Rightarrow> bot_reply option) \<Rightarrow> (registry \<Rightarrow> registry) \<Rightarrow> chars option \<Rightarrow> chars option \<Rightarrow> millis
    \<Rightarrow> registry \<Rightarrow> tool_answer \<times> (send_target \<times> bot_request) list \<times> registry" where
  "call_send_progress ask meanwhile params ctx now reg =
     (case params of
        None \<Rightarrow> (ToolError ''invalid_argument'', [], reg)
      | Some raw \<Rightarrow>
          let message = trim_chars raw in
          if message = [] \<or> PROGRESS_MESSAGE_MAX_CHARS < length message then (ToolError ''invalid_argument'', [], reg)
          else (case ctx of
                  None \<Rightarrow> (ToolError ''progress_unavailable'', [], reg)
                | Some i \<Rightarrow>
                    (case begin_send i now reg of
                       (Err Unavailable, reg1) \<Rightarrow> (ToolError ''progress_unavailable'', [], reg1)
                     | (Err Forbidden, reg1) \<Rightarrow> (ToolError ''progress_forbidden'', [], reg1)
                     | (Err (RateLimited after), reg1) \<Rightarrow> (ToolWait (after div 1000), [], reg1)
                     | (Ok target, reg1) \<Rightarrow>
                         let req = ProgressRequest i (st_token target) message in
                         (case ask target req of
                            Some _ \<Rightarrow> (ToolSent [], [(target, req)], meanwhile reg1)
                          | None \<Rightarrow> (ToolError ''progress_send_failed'', [(target, req)], mark_send_failed i (meanwhile reg1))))))"

definition call_send_message ::
  "(send_target \<Rightarrow> bot_request \<Rightarrow> bot_reply option) \<Rightarrow> (rich_content option \<times> outbound_attachment list) option \<Rightarrow> chars option
    \<Rightarrow> registry \<Rightarrow> tool_answer \<times> (send_target \<times> bot_request) list \<times> registry" where
  "call_send_message ask params ctx reg =
     (case params of
        None \<Rightarrow> (ToolError ''invalid_argument'', [], reg)
      | Some (content, atts) \<Rightarrow>
          if content = None \<and> atts = [] then (ToolError ''send_message_empty'', [], reg)
          else if list_ex (\<lambda>a. \<not> attachment_path_is_valid (oa_path a)) atts then (ToolError ''send_message_bad_path'', [], reg)
          else (case ctx of
                  None \<Rightarrow> (ToolError ''send_message_unavailable'', [], reg)
                | Some i \<Rightarrow>
                    (case begin_message_send i reg of
                       (Err (RateLimited _), reg1) \<Rightarrow> (ToolError ''send_message_limit'', [], reg1)
                     | (Err Forbidden, reg1) \<Rightarrow> (ToolError ''send_message_forbidden'', [], reg1)
                     | (Err Unavailable, reg1) \<Rightarrow> (ToolError ''send_message_unavailable'', [], reg1)
                     | (Ok target, reg1) \<Rightarrow>
                         let req = MessageRequest i (st_token target) content atts in
                         (case ask target req of
                            Some r \<Rightarrow>
                              if br_ok r then (ToolSent (br_ids r), [(target, req)], reg1)
                              else (ToolPartial ''send_message_partially_sent'' (br_ids r), [(target, req)], reg1)
                          | None \<Rightarrow> (ToolError ''send_message_failed'', [(target, req)], reg1)))))"

definition is_opened_channel :: "int \<Rightarrow> allowlist_file \<Rightarrow> bool" where
  "is_opened_channel c file = list_ex (\<lambda>g. ag_id g = c \<and> ag_kind g = KindChannel) (af_groups file)"

text \<open>A failed read of the allowlist is an error of the server, not of the tool: the result is \<open>None\<close>.\<close>

definition call_channel_post ::
  "(send_target \<Rightarrow> bot_request \<Rightarrow> bot_reply option) \<Rightarrow> string + allowlist_file option
    \<Rightarrow> (int \<times> rich_content option \<times> outbound_attachment list) option \<Rightarrow> chars option
    \<Rightarrow> registry \<Rightarrow> tool_answer option \<times> (send_target \<times> bot_request) list \<times> registry" where
  "call_channel_post ask allowed params ctx reg =
     (case params of
        None \<Rightarrow> (Some (ToolError ''invalid_argument''), [], reg)
      | Some (chan, content, atts) \<Rightarrow>
          if content = None \<and> atts = [] then (Some (ToolError ''empty_content''), [], reg)
          else if list_ex (\<lambda>a. \<not> attachment_path_is_valid (oa_path a)) atts then (Some (ToolError ''invalid_argument''), [], reg)
          else (case allowed of
                  Err e \<Rightarrow> (None, [], reg)
                | Ok file \<Rightarrow>
                    if \<not> (case file of None \<Rightarrow> False | Some f \<Rightarrow> is_opened_channel chan f) then (Some (ToolError ''channel_not_opened''), [], reg)
                    else (case ctx of
                            None \<Rightarrow> (Some (ToolError ''channel_post_unavailable''), [], reg)
                          | Some i \<Rightarrow>
                              (case begin_channel_post i reg of
                                 (Err (RateLimited _), reg1) \<Rightarrow> (Some (ToolError ''channel_post_limit''), [], reg1)
                               | (Err Forbidden, reg1) \<Rightarrow> (Some (ToolError ''channel_post_forbidden''), [], reg1)
                               | (Err Unavailable, reg1) \<Rightarrow> (Some (ToolError ''channel_post_unavailable''), [], reg1)
                               | (Ok target, reg1) \<Rightarrow>
                                   let req = PostRequest i (st_token target) chan content atts in
                                   (Some (case ask target req of
                                      Some r \<Rightarrow>
                                        if br_ok r then ToolSent (br_ids r)
                                        else if br_uncertain r then ToolPartial ''channel_post_delivery_uncertain'' (br_ids r)
                                        else if br_ids r \<noteq> [] then ToolPartial ''channel_post_partially_sent'' (br_ids r)
                                        else ToolError ''channel_post_failed''
                                    | None \<Rightarrow> ToolError ''channel_post_failed''), [(target, req)], reg1)))))"

section \<open>The registry of the bot\<close>

text \<open>The counter is an atomic of 32 bits.\<close>

record progress_target =
  pt_token :: chars
  pt_thread :: int
  pt_outbox :: outbox_env
  pt_sandbox :: bool
  pt_posts :: "32 word"

type_synonym bot_registry = "chars \<rightharpoonup> progress_target"

definition bot_register :: "chars \<Rightarrow> progress_target \<Rightarrow> bot_registry \<Rightarrow> bot_registry" where
  "bot_register i t st = st(i \<mapsto> t)"

definition bot_unregister :: "chars \<Rightarrow> bot_registry \<Rightarrow> bot_registry" where
  "bot_unregister i st = st(i := None)"

definition claim_channel_post :: "chars \<Rightarrow> bot_registry \<Rightarrow> bool \<times> bot_registry" where
  "claim_channel_post i st =
     (case st i of
        None \<Rightarrow> (False, st)
      | Some t \<Rightarrow> (unat (pt_posts t) < MAX_CHANNEL_POST_PER_TURN, st(i \<mapsto> t\<lparr>pt_posts := pt_posts t + 1\<rparr>)))"

definition token_matches :: "progress_target \<Rightarrow> chars \<Rightarrow> bool" where
  "token_matches t token = (pt_token t = token)"

section \<open>The endpoints of the bot\<close>

record http_reply =
  hr_status :: nat
  hr_body :: bot_reply

definition status_only :: "nat \<Rightarrow> http_reply" where
  "status_only s = \<lparr>hr_status = s, hr_body = \<lparr>br_ok = False, br_ids = [], br_uncertain = False\<rparr>\<rparr>"

definition reply_ok :: "int list \<Rightarrow> http_reply" where
  "reply_ok ids = \<lparr>hr_status = 200, hr_body = \<lparr>br_ok = True, br_ids = ids, br_uncertain = False\<rparr>\<rparr>"

text \<open>The client of the owner reads a body only under a status below 400.\<close>

definition heard :: "http_reply \<Rightarrow> bot_reply option" where
  "heard r = (if hr_status r < 400 then Some (hr_body r) else None)"

text \<open>\<open>late\<close> says that the endpoint's own timeout passed first.\<close>

definition handle_progress_send ::
  "telegram \<Rightarrow> bool \<Rightarrow> chars \<Rightarrow> chars \<Rightarrow> chars \<Rightarrow> bot_registry \<Rightarrow> exchange \<Rightarrow> http_reply \<times> exchange" where
  "handle_progress_send tg late i token raw st log =
     (case st i of
        None \<Rightarrow> (status_only 404, log)
      | Some t \<Rightarrow>
          if \<not> token_matches t token then (status_only 403, log)
          else (let message = trim_chars raw in
            if message = [] \<or> PROGRESS_MESSAGE_MAX_CHARS < length message then (status_only 400, log)
            else if late then (status_only 504, log @ [(PlainCall message None, Err (TimedOut (secs 10)))])
            else (case ask_one tg (PlainCall message None) log of
                    (Ok m, log1) \<Rightarrow> (reply_ok [m], log1)
                  | (Err e, log1) \<Rightarrow> (status_only 502, log1))))"

definition partial_publication_response :: "int list \<Rightarrow> http_reply" where
  "partial_publication_response ids = \<lparr>hr_status = 200, hr_body = \<lparr>br_ok = False, br_ids = ids, br_uncertain = False\<rparr>\<rparr>"

definition send_content_of ::
  "telegram \<Rightarrow> rich_content option \<Rightarrow> exchange \<Rightarrow> rich_outcome \<times> exchange" where
  "send_content_of tg content log = (case content of None \<Rightarrow> (no_outcome, log) | Some c \<Rightarrow> send_rich tg None c log)"

definition handle_message_send ::
  "telegram \<Rightarrow> chars \<Rightarrow> chars \<Rightarrow> rich_content option \<Rightarrow> outbound_attachment list \<Rightarrow> bot_registry \<Rightarrow> files \<times> exchange
    \<Rightarrow> http_reply \<times> files \<times> exchange" where
  "handle_message_send tg i token content atts st w =
     (case w of (fs, log) \<Rightarrow>
        (case st i of
           None \<Rightarrow> (status_only 404, fs, log)
         | Some t \<Rightarrow>
             if \<not> token_matches t token then (status_only 403, fs, log)
             else (case send_content_of tg content log of (r, log1) \<Rightarrow>
               if \<not> is_complete r
               then (if so_delivered r = [] then status_only 502 else partial_publication_response (so_delivered r), fs, log1)
               else if atts = [] then (reply_ok (so_delivered r), fs, log1)
               else if \<not> pt_sandbox t then (status_only 503, fs, log1)
               else (case send_attachments tg (pt_outbox t) atts (fs, log1) of
                       (Err e, w1) \<Rightarrow> (status_only 502, w1)
                     | (Ok _, w1) \<Rightarrow> (reply_ok (so_delivered r), w1)))))"

text \<open>What a publication has come to: its messages, and the first failure with its certainty.\<close>

definition finish_channel_post :: "bool \<Rightarrow> int list \<Rightarrow> bool option \<Rightarrow> bool \<Rightarrow> http_reply" where
  "finish_channel_post archived ids failure no_sandbox =
     (if ids \<noteq> [] \<and> \<not> archived
      then \<lparr>hr_status = 200, hr_body = \<lparr>br_ok = False, br_ids = ids, br_uncertain = (failure = Some True)\<rparr>\<rparr>
      else (case failure of
              None \<Rightarrow> reply_ok ids
            | Some uncertain \<Rightarrow>
                if ids \<noteq> [] \<or> uncertain
                then \<lparr>hr_status = 200, hr_body = \<lparr>br_ok = False, br_ids = ids, br_uncertain = uncertain\<rparr>\<rparr>
                else status_only (if no_sandbox then 503 else 502)))"

definition uncertain_failure :: "send_failure \<Rightarrow> bool" where
  "uncertain_failure f = (case f of Certain _ \<Rightarrow> False | Uncertain _ \<Rightarrow> True)"

definition publish ::
  "telegram \<Rightarrow> progress_target \<Rightarrow> rich_content option \<Rightarrow> outbound_attachment list \<Rightarrow> files \<times> exchange
    \<Rightarrow> int list \<times> bool option \<times> bool \<times> files \<times> exchange" where
  "publish tg t content atts w =
     (case w of (fs, log) \<Rightarrow>
        (case (case content of None \<Rightarrow> (no_outcome, log) | Some c \<Rightarrow> send_until_failure tg c log) of (r, log1) \<Rightarrow>
           (case so_error r of
              Some e \<Rightarrow> (so_delivered r, Some (\<not> is_rejection e), False, fs, log1)
            | None \<Rightarrow>
                if atts = [] then (so_delivered r, None, False, fs, log1)
                else if \<not> pt_sandbox t then (so_delivered r, Some False, True, fs, log1)
                else (case send_attachments_reported True tg (pt_outbox t) atts (fs, log1) of (rep, w1) \<Rightarrow>
                        (so_delivered r @ at_confirmed rep, map_option uncertain_failure (at_failure rep), False, w1)))))"

definition handle_channel_post ::
  "telegram \<Rightarrow> string + allowlist_file option \<Rightarrow> bool \<Rightarrow> chars \<Rightarrow> chars \<Rightarrow> int \<Rightarrow> rich_content option \<Rightarrow> outbound_attachment list
    \<Rightarrow> bot_registry \<Rightarrow> files \<times> exchange \<Rightarrow> http_reply \<times> bot_registry \<times> files \<times> exchange" where
  "handle_channel_post tg allowed archived i token chan content atts st w =
     (case st i of
        None \<Rightarrow> (status_only 404, st, w)
      | Some t \<Rightarrow>
          if \<not> token_matches t token then (status_only 403, st, w)
          else if content = None \<and> atts = [] then (status_only 422, st, w)
          else (case claim_channel_post i st of (claimed, st1) \<Rightarrow>
            if \<not> claimed then (status_only 429, st1, w)
            else (case allowed of
                    Err e \<Rightarrow> (status_only 500, st1, w)
                  | Ok file \<Rightarrow>
                      if \<not> (case file of None \<Rightarrow> False | Some f \<Rightarrow> is_opened_channel chan f) then (status_only 400, st1, w)
                      else (case publish tg t content atts w of (ids, failure, no_sandbox, w1) \<Rightarrow>
                              (finish_channel_post archived ids failure no_sandbox, st1, w1)))))"

end
