(* ===== verification/Progress_Props.thy ===== *)
theory Progress_Props
  imports Progress Outbox_Props
begin

text \<open>
  What the tools of a turn guarantee: the spacing and the caps of the registry hold
  however calls interleave, and a publication to a channel is reported as it was.
\<close>

section \<open>The registry\<close>

datatype registry_event =
    Registered registration
  | Unregistered chars
  | WantsProgress chars millis
  | WantsMessage chars
  | WantsPost chars
  | SendFailed chars

fun registry_step :: "registry_event \<Rightarrow> registry \<Rightarrow> bool \<times> registry" where
  "registry_step (Registered r) reg = (True, register r reg)"
| "registry_step (Unregistered i) reg = (True, unregister i reg)"
| "registry_step (WantsProgress i t) reg = (case begin_send i t reg of (a, reg1) \<Rightarrow> (is_ok a, reg1))"
| "registry_step (WantsMessage i) reg = (case begin_message_send i reg of (a, reg1) \<Rightarrow> (is_ok a, reg1))"
| "registry_step (WantsPost i) reg = (case begin_channel_post i reg of (a, reg1) \<Rightarrow> (is_ok a, reg1))"
| "registry_step (SendFailed i) reg = (True, mark_send_failed i reg)"

text \<open>The events the registry admitted, in order.\<close>

fun admitted :: "registry_event list \<Rightarrow> registry \<Rightarrow> registry_event list" where
  "admitted [] reg = []"
| "admitted (e # es) reg =
     (case registry_step e reg of (ok, reg1) \<Rightarrow> (if ok then [e] else []) @ admitted es reg1)"

fun registry_after :: "registry_event list \<Rightarrow> registry \<Rightarrow> registry" where
  "registry_after [] reg = reg"
| "registry_after (e # es) reg = registry_after es (snd (registry_step e reg))"

definition registers :: "chars \<Rightarrow> registry_event \<Rightarrow> bool" where
  "registers i e \<longleftrightarrow> (\<exists>r. e = Registered r \<and> rg_id r = i)"

text \<open>What one event that is no registration of \<open>i\<close> does to \<open>i\<close>'s entry.\<close>

definition kept :: "registry_event \<Rightarrow> bool \<Rightarrow> chars \<Rightarrow> invocation \<Rightarrow> invocation \<Rightarrow> bool" where
  "kept e ok i v v' \<longleftrightarrow> iv_kind v' = iv_kind v
     \<and> iv_messages v' = iv_messages v + (if ok \<and> e = WantsMessage i then 1 else 0)
     \<and> iv_posts v' = iv_posts v + (if ok \<and> e = WantsPost i then 1 else 0)
     \<and> (ok \<and> e = WantsMessage i \<longrightarrow> iv_kind v = Foreground \<and> iv_messages v < MAX_SEND_MESSAGE_PER_TURN)
     \<and> (ok \<and> e = WantsPost i \<longrightarrow> iv_kind v \<in> {Foreground, CronRun} \<and> iv_posts v < MAX_CHANNEL_POST_PER_TURN)"

lemmas begin_defs = begin_send_def begin_message_send_def begin_channel_post_def

lemma registry_step_entry:
  assumes "registry_step e reg = (ok, reg1)" "\<not> registers i e"
  shows "case reg i of
      None \<Rightarrow> reg1 i = None \<and> \<not> (ok \<and> e \<in> {WantsMessage i, WantsPost i})
    | Some v \<Rightarrow> reg1 i = None \<and> e = Unregistered i \<or> (\<exists>v'. reg1 i = Some v' \<and> kept e ok i v v')"
  using assms
  by (cases e; cases "reg i")
    (auto simp: kept_def registers_def register_def unregister_def mark_send_failed_def begin_defs Let_def
      split: option.splits if_splits)

lemma admitted_gone:
  "reg i = None \<Longrightarrow> list_all (\<lambda>e. \<not> registers i e) es \<Longrightarrow> filter (\<lambda>e. e \<in> {WantsMessage i, WantsPost i}) (admitted es reg) = []"
proof (induction es arbitrary: reg)
  case (Cons e es)
  obtain ok reg1 where s: "registry_step e reg = (ok, reg1)" by fastforce
  then show ?case using registry_step_entry[OF s, of i] Cons by auto
qed simp

lemma admitted_counts:
  assumes "reg i = Some v" "list_all (\<lambda>e. \<not> registers i e) es"
    "iv_messages v \<le> MAX_SEND_MESSAGE_PER_TURN" "iv_posts v \<le> MAX_CHANNEL_POST_PER_TURN"
  shows "iv_messages v + count_list (admitted es reg) (WantsMessage i) \<le> MAX_SEND_MESSAGE_PER_TURN
    \<and> iv_posts v + count_list (admitted es reg) (WantsPost i) \<le> MAX_CHANNEL_POST_PER_TURN
    \<and> (WantsMessage i \<in> set (admitted es reg) \<longrightarrow> iv_kind v = Foreground)
    \<and> (WantsPost i \<in> set (admitted es reg) \<longrightarrow> iv_kind v \<in> {Foreground, CronRun})"
  using assms
proof (induction es arbitrary: reg v)
  case (Cons e es)
  obtain ok reg1 where s: "registry_step e reg = (ok, reg1)" by fastforce
  consider (gone) "reg1 i = None" "e = Unregistered i" | (stays) v' where "reg1 i = Some v'" "kept e ok i v v'"
    using registry_step_entry[OF s, of i] Cons.prems by auto
  then show ?case
  proof cases
    case gone
    then have "filter (\<lambda>e. e \<in> {WantsMessage i, WantsPost i}) (admitted es reg1) = []"
      using admitted_gone Cons.prems by simp
    then have "WantsMessage i \<notin> set (admitted es reg1) \<and> WantsPost i \<notin> set (admitted es reg1)"
      by (auto simp: filter_empty_conv)
    then show ?thesis using gone s Cons.prems by (auto simp: count_notin)
  next
    case stays
    then show ?thesis using Cons.IH[of reg1 v'] Cons.prems s by (auto simp: kept_def split: if_splits)
  qed
qed simp

text \<open>C28: the caps of a turn hold.  From its registration on, however its calls interleave with each other
  and with those of other invocations, an invocation is admitted to at most twenty messages and ten channel
  posts; messages are only ever admitted for a foreground turn, posts only for a foreground turn or a cron
  run.  Nothing but a new registration starts the count again.\<close>
theorem turn_caps_hold:
  assumes "list_all (\<lambda>e. \<not> registers (rg_id r) e) es"
  shows "count_list (admitted (Registered r # es) reg) (WantsMessage (rg_id r)) \<le> 20
    \<and> count_list (admitted (Registered r # es) reg) (WantsPost (rg_id r)) \<le> 10
    \<and> (WantsMessage (rg_id r) \<in> set (admitted (Registered r # es) reg) \<longrightarrow> rg_kind r = Foreground)
    \<and> (WantsPost (rg_id r) \<in> set (admitted (Registered r # es) reg) \<longrightarrow> rg_kind r \<in> {Foreground, CronRun})"
  using admitted_counts[OF _ assms, of "register r reg"]
  by (simp add: register_def MAX_SEND_MESSAGE_PER_TURN_def MAX_CHANNEL_POST_PER_TURN_def)

definition sample_registration :: registration where
  "sample_registration = \<lparr>rg_id = [1], rg_kind = CronRun, rg_target = \<lparr>st_socket = [], st_token = []\<rparr>, rg_scope = None\<rparr>"

lemma turn_caps_hold_witness:
  "count_list (admitted (Registered sample_registration # replicate 12 (WantsPost [1])) Map.empty) (WantsPost [1]) = 10
   \<and> WantsMessage [1] \<notin> set (admitted (Registered sample_registration # replicate 12 (WantsPost [1])) Map.empty)"
proof
  have "list_all (\<lambda>e. \<not> registers (rg_id sample_registration) e) (replicate 12 (WantsPost [1]))"
    by (simp add: registers_def list_all_iff)
  from turn_caps_hold[OF this, of Map.empty]
  show "WantsMessage [1] \<notin> set (admitted (Registered sample_registration # replicate 12 (WantsPost [1])) Map.empty)"
    by (auto simp: sample_registration_def)
qed (simp add: numeral_eq_Suc sample_registration_def register_def begin_channel_post_def MAX_CHANNEL_POST_PER_TURN_def)

lemma last_sent_stays:
  assumes "registry_step e reg = (ok, reg1)" "\<not> registers i e" "e \<noteq> SendFailed i"
    "reg i = Some v" "iv_last_sent v = Some s" "iv_kind v = Foreground" "a \<le> s"
  shows "reg1 i = None \<or> (\<exists>v' s'. reg1 i = Some v' \<and> iv_last_sent v' = Some s' \<and> iv_kind v' = Foreground \<and> a \<le> s')"
  using assms
  by (cases e)
    (auto simp: registers_def register_def unregister_def mark_send_failed_def begin_defs PROGRESS_RATE_LIMIT_def Let_def
      split: option.splits if_splits)

lemma gone_stays:
  "registry_step e reg = (ok, reg1) \<Longrightarrow> \<not> registers i e \<Longrightarrow> reg i = None \<Longrightarrow> reg1 i = None"
  using registry_step_entry[of e reg ok reg1 i] by auto

lemma later_sends:
  assumes "list_all (\<lambda>e. \<not> registers i e \<and> e \<noteq> SendFailed i) es"
    "reg i = None \<or> (\<exists>v s. reg i = Some v \<and> iv_last_sent v = Some s \<and> iv_kind v = Foreground \<and> a \<le> s)"
    "registry_step (WantsProgress i b) (registry_after es reg) = (True, reg2)"
  shows "a + PROGRESS_RATE_LIMIT \<le> b"
  using assms
proof (induction es arbitrary: reg)
  case Nil
  then show ?case by (auto simp: begin_send_def PROGRESS_RATE_LIMIT_def Let_def split: if_splits)
next
  case (Cons e es)
  obtain ok reg1 where s: "registry_step e reg = (ok, reg1)" by fastforce
  have "reg1 i = None \<or> (\<exists>v s. reg1 i = Some v \<and> iv_last_sent v = Some s \<and> iv_kind v = Foreground \<and> a \<le> s)"
    using Cons.prems(1,2) last_sent_stays[OF s] gone_stays[OF s] by auto
  from Cons.IH[of reg1, OF _ this] show ?case using Cons.prems s by simp
qed

text \<open>Progress messages are spaced.  Between two progress messages that a registry admits for one
  invocation at least thirty seconds pass on the clock, whatever other calls, ends and registrations of
  other invocations come between, unless the earlier one failed or the invocation was registered anew;
  a clock that runs backwards admits nothing early.\<close>
theorem progress_messages_are_spaced:
  assumes "registry_step (WantsProgress i a) reg = (True, reg1)"
    "list_all (\<lambda>e. \<not> registers i e \<and> e \<noteq> SendFailed i) es"
    "registry_step (WantsProgress i b) (registry_after es reg1) = (True, reg2)"
  shows "a + 30000 \<le> b"
proof -
  have "\<exists>v s. reg1 i = Some v \<and> iv_last_sent v = Some s \<and> iv_kind v = Foreground \<and> a \<le> s"
    using assms(1) by (auto simp: begin_send_def Let_def split: option.splits if_splits)
  from later_sends[OF assms(2) _ assms(3)] this show ?thesis by (auto simp: PROGRESS_RATE_LIMIT_def)
qed

definition foreground_turn :: registry where
  "foreground_turn = register (sample_registration\<lparr>rg_kind := Foreground\<rparr>) Map.empty"

lemma progress_messages_are_spaced_witness:
  "admitted [WantsProgress [1] 0, WantsProgress [1] 500, WantsProgress [1] 31000] foreground_turn
     = [WantsProgress [1] 0, WantsProgress [1] 31000] \<and> 0 + 30000 \<le> (31000::int)"
proof
  obtain reg1 where a: "registry_step (WantsProgress [1] 0) foreground_turn = (True, reg1)"
      "\<exists>v. reg1 [1] = Some v \<and> iv_kind v = Foreground \<and> iv_last_sent v = Some 0"
    by (simp add: begin_send_def register_def sample_registration_def foreground_turn_def)
  then obtain reg2 where "registry_step (WantsProgress [1] 31000) (registry_after [WantsProgress [1] 500] reg1) = (True, reg2)"
    by (auto simp: begin_send_def PROGRESS_RATE_LIMIT_def Let_def)
  from progress_messages_are_spaced[OF a(1) _ this] show "0 + 30000 \<le> (31000::int)" by (simp add: registers_def)
qed (simp add: begin_send_def register_def sample_registration_def foreground_turn_def PROGRESS_RATE_LIMIT_def Let_def)

section \<open>A publication to a channel\<close>

text \<open>What a report gained with the calls \<open>new\<close>: the messages Telegram accepted; without a failure, or
  with a certain one, every call that failed was refused.\<close>

definition all_refused :: "exchange \<Rightarrow> bool" where
  "all_refused new \<longleftrightarrow> (\<forall>call e. (call, Err e) \<in> set new \<longrightarrow> is_rejection e)"

definition honest :: "exchange \<Rightarrow> attach_report \<Rightarrow> bool \<Rightarrow> attach_report \<Rightarrow> bool" where
  "honest new r stopped r' \<longleftrightarrow> at_confirmed r' = at_confirmed r @ published new
     \<and> (case at_failure r' of None \<Rightarrow> all_refused new | Some f \<Rightarrow> stopped \<and> (uncertain_failure f \<or> all_refused new))
     \<and> shown_text new = []"

lemma all_refused_simps [simp]: "all_refused []" "all_refused (a @ b) \<longleftrightarrow> all_refused a \<and> all_refused b"
  "all_refused [(c, Ok m)]" "all_refused [(c, Err e)] \<longleftrightarrow> is_rejection e"
  by (auto simp: all_refused_def)

lemma honest_trans:
  "honest a r st r1 \<Longrightarrow> honest b r1 st' r2 \<Longrightarrow> at_failure r1 = None \<Longrightarrow> honest (a @ b) r st' r2"
  by (auto simp: honest_def split: option.splits)

lemma send_single_calls:
  assumes "send_single tg env att (fs, log) = (out, fs', log')"
  obtains (accepted) call m where "out = Ok m" "log' = log @ [(call, Ok [m])]" "call_text call = []"
  | (failed) call e where "out = Err (Api e)" "log' = log @ [(call, Err e)]" "call_text call = []"
  | (unsent) e where "out = Err e" "log' = log"
proof -
  obtain res fs1 where r: "resolve_host_path env att fs = (res, fs1)" by fastforce
  show ?thesis
  proof (cases res)
    case (Inl e)
    then show ?thesis using assms r unsent by (auto simp: send_single_def)
  next
    case (Inr host)
    show ?thesis
    proof (cases "fs1 host")
      case None
      then show ?thesis using assms r Inr unsent by (auto simp: send_single_def)
    next
      case (Some bytes)
      show ?thesis
        by (cases rule: ask_one_cases[of tg "MediaCall (oa_kind att) bytes" log])
          (use assms r Inr Some accepted failed in \<open>auto simp: send_single_def\<close>)
    qed
  qed
qed

lemma confirm_simps [simp]:
  "at_confirmed (confirm ms as r) = at_confirmed r @ ms" "at_failure (confirm ms as r) = at_failure r"
  by (simp_all add: confirm_def)

lemma record_first_failure:
  "at_failure r = None \<Longrightarrow> at_failure (record_send_failure e r) = Some (classify_send_error e)"
  "at_confirmed (record_send_failure e r) = at_confirmed r"
  by (simp_all add: record_send_failure_def)

lemma send_items_honest:
  "send_items True tg env as r (fs, log) = (stopped, r', fs', log') \<Longrightarrow> at_failure r = None
    \<Longrightarrow> \<exists>new. log' = log @ new \<and> honest new r stopped r'"
proof (induction as arbitrary: r fs log)
  case (Cons a as)
  obtain out fs1 log1 where s: "send_single tg env a (fs, log) = (out, fs1, log1)" using prod_cases3 by blast
  show ?case
  proof (cases rule: send_single_calls[OF s])
    case (1 call m)
    have h: "honest [(call, Ok [m])] r stopped (confirm [m] [a] r)" using 1 Cons.prems(2) by (simp add: honest_def)
    have run: "send_items True tg env as (confirm [m] [a] r) (fs1, log1) = (stopped, r', fs', log')"
      using Cons.prems s 1 by simp
    obtain new where "log' = log1 @ new" "honest new (confirm [m] [a] r) stopped r'"
      using Cons.IH[OF run] Cons.prems(2) by auto
    then show ?thesis using 1 honest_trans[OF h] Cons.prems(2) by auto
  next
    case (2 call e)
    then have "log' = log @ [(call, Err e)] \<and> honest [(call, Err e)] r stopped r'"
      using Cons.prems s by (auto simp: honest_def record_first_failure uncertain_failure_def)
    then show ?thesis by blast
  next
    case (3 e)
    then have "log' = log @ [] \<and> honest [] r stopped r'"
      using Cons.prems s by (auto simp: honest_def record_first_failure)
    then show ?thesis by blast
  qed
qed (simp add: honest_def)

lemma send_group_calls:
  assumes "send_group tg env items (fs, log) = (out, fs', log')"
  obtains (accepted) call ms where "out = Ok ms" "log' = log @ [(call, Ok ms)]" "call_text call = []"
  | (failed) call e where "out = Err (classify_media_group_send_error e)" "log' = log @ [(call, Err e)]" "call_text call = []"
  | (unsent) e where "out = Err e" "log' = log"
proof -
  obtain res fs1 where r: "resolve_all env items [] fs = (res, fs1)" by fastforce
  show ?thesis
  proof (cases res)
    case (Inl e)
    then show ?thesis using assms r unsent by (auto simp: send_group_def)
  next
    case (Inr hosts)
    let ?c = "AlbumCall (zip (map oa_kind items) (map (\<lambda>h. case fs1 h of Some b \<Rightarrow> b | None \<Rightarrow> []) hosts))"
    show ?thesis
    proof (cases "ta_album tg log ?c")
      case (Inl e)
      then show ?thesis using assms r Inr unsent failed[of e ?c]
        by (auto simp: send_group_def ask_album_def split: if_splits)
    next
      case (Inr ms)
      then show ?thesis using assms r \<open>res = Ok hosts\<close> unsent accepted[of ms ?c]
        by (auto simp: send_group_def ask_album_def split: if_splits)
    qed
  qed
qed

lemma album_errors:
  "classify_media_group_send_error e = FallbackToSingles \<Longrightarrow> is_rejection e"
  "classify_media_group_send_error e = Terminal x \<Longrightarrow> x = Api e"
  by (cases e; auto split: if_splits)+

lemma send_one_honest:
  assumes "send_one True tg env s r (fs, log) = (stopped, r', fs', log')" "at_failure r = None"
  shows "\<exists>new. log' = log @ new \<and> honest new r stopped r'"
proof (cases s)
  case (SingleSend a)
  then show ?thesis using send_items_honest assms by (auto simp: send_one_def simp del: send_items.simps)
next
  case (GroupSend k items)
  obtain out fs1 log1 where g: "send_group tg env items (fs, log) = (out, fs1, log1)" using prod_cases3 by blast
  have fallback: ?thesis if "out = Err FallbackToSingles" "log1 = log @ a" "honest a r False r" for a
  proof -
    have "send_items True tg env items r (fs1, log1) = (stopped, r', fs', log')"
      using assms g that GroupSend by (simp add: send_one_def)
    then obtain new where "log' = log1 @ new" "honest new r stopped r'" using send_items_honest assms(2) by blast
    then show ?thesis using that honest_trans[OF that(3) _ assms(2)] by auto
  qed
  show ?thesis
  proof (cases rule: send_group_calls[OF g])
    case (1 call ms)
    then have "log' = log @ [(call, Ok ms)] \<and> honest [(call, Ok ms)] r stopped r'"
      using assms g GroupSend by (auto simp: send_one_def honest_def)
    then show ?thesis by blast
  next
    case (2 call e)
    show ?thesis
    proof (cases "classify_media_group_send_error e")
      case FallbackToSingles
      then show ?thesis using 2 fallback[of "[(call, Err e)]"] album_errors(1) assms(2) by (simp add: honest_def)
    next
      case (Terminal x)
      then have "log' = log @ [(call, Err e)] \<and> honest [(call, Err e)] r stopped r'"
        using 2 assms g GroupSend album_errors(2)[OF Terminal]
        by (auto simp: send_one_def honest_def record_first_failure uncertain_failure_def)
      then show ?thesis by blast
    qed
  next
    case (3 ge)
    show ?thesis
    proof (cases ge)
      case FallbackToSingles
      then show ?thesis using 3 fallback[of "[]"] assms(2) by (simp add: honest_def)
    next
      case (Terminal x)
      then have "log' = log @ [] \<and> honest [] r stopped r'"
        using 3 assms g GroupSend by (auto simp: send_one_def honest_def record_first_failure)
      then show ?thesis by blast
    qed
  qed
qed

lemma send_list_honest:
  "send_list True tg env ss r (fs, log) = (r', fs', log') \<Longrightarrow> at_failure r = None
    \<Longrightarrow> \<exists>new. log' = log @ new \<and> honest new r True r'"
proof (induction ss arbitrary: r fs log)
  case (Cons s ss)
  obtain stopped r1 fs1 log1 where o: "send_one True tg env s r (fs, log) = (stopped, r1, fs1, log1)"
    using prod_cases4 by blast
  obtain new where new: "log1 = log @ new" "honest new r stopped r1" using send_one_honest[OF o Cons.prems(2)] by blast
  show ?case
  proof (cases stopped)
    case True
    then have "r' = r1 \<and> log' = log @ new" using Cons.prems o new by simp
    then show ?thesis using new True by auto
  next
    case False
    have "at_failure r1 = None" using new False by (auto simp: honest_def split: option.splits)
    moreover have "send_list True tg env ss r1 (fs1, log1) = (r', fs', log')" using Cons.prems o False by simp
    ultimately obtain more where "log' = log1 @ more" "honest more r1 True r'" using Cons.IH by blast
    then show ?thesis using new honest_trans[OF new(2) _ \<open>at_failure r1 = None\<close>] by auto
  qed
qed (auto simp: honest_def)

lemma report_honest:
  assumes "send_attachments_reported True tg env atts (fs, log) = (r, fs', log')"
  obtains new where "log' = log @ new" "honest new empty_report True r"
proof (cases "oe_tmp_ready env")
  case True
  then show ?thesis using assms send_list_honest[of tg env "partition_sends atts" empty_report fs log r fs' log'] that
    by (auto simp: send_attachments_reported_def empty_report_def)
next
  case False
  then have "log' = log @ [] \<and> honest [] empty_report True r"
    using assms by (auto simp: send_attachments_reported_def honest_def empty_report_def)
  then show ?thesis using that by blast
qed

text \<open>What the agent is to believe of a publication with the calls \<open>new\<close>, by its first failure.\<close>

definition content_text :: "rich_content option \<Rightarrow> chars" where
  "content_text content = (case content of None \<Rightarrow> [] | Some c \<Rightarrow> visible (normalized_text c))"

definition account :: "rich_content option \<Rightarrow> exchange \<Rightarrow> int list \<Rightarrow> bool option \<Rightarrow> bool" where
  "account content new ids failure \<longleftrightarrow> ids = published new
     \<and> (failure = None \<longrightarrow> shown_text new = content_text content)
     \<and> (failure \<noteq> Some True \<longrightarrow> all_refused new)"

lemma passed_refused: "list_all passed new \<Longrightarrow> all_refused new"
proof (unfold all_refused_def, intro allI impI)
  fix call e
  assume "list_all passed new" "(call, Err e) \<in> set new"
  then have "passed (call, Err e)" by (auto simp: list_all_iff)
  then have "is_retryable_rich_content_error e" by (cases call) auto
  then show "is_rejection e" by (cases e) auto
qed

lemma content_account:
  assumes "send_until_failure tg c log = (r, log')"
  obtains new where "log' = log @ new"
    "account (Some c) new (so_delivered r) (map_option (\<lambda>e. \<not> is_rejection e) (so_error r))"
proof -
  have st: "stops log (r, log')"
    using parts_until_stops[of no_outcome log tg "delivery_parts c"] assms
    by (simp add: send_until_failure_def no_outcome_def)
  obtain new where new: "log' = log @ new" "so_delivered r = published new"
      "is_complete r \<Longrightarrow> shown_text new = visible (normalized_text c)"
    using channel.outcome[OF assms] by metis
  have "all_refused new" if "map_option (\<lambda>e. \<not> is_rejection e) (so_error r) \<noteq> Some True"
    using st new(1) that by (cases "so_error r") (auto simp: stops_def passed_refused)
  then show ?thesis using that new by (auto simp: account_def content_text_def)
qed

lemma publish_account:
  assumes "publish tg t content atts (fs, log) = (ids, failure, no_sandbox, fs', log')"
  obtains new where "log' = log @ new" "account content new ids failure"
proof -
  obtain r log1 where c: "(case content of None \<Rightarrow> (no_outcome, log) | Some c \<Rightarrow> send_until_failure tg c log) = (r, log1)"
    by fastforce
  obtain new where new: "log1 = log @ new"
      "account content new (so_delivered r) (map_option (\<lambda>e. \<not> is_rejection e) (so_error r))"
  proof (cases content)
    case None
    then show ?thesis using c that[of "[]"] by (auto simp: account_def content_text_def no_outcome_def)
  next
    case (Some d)
    then show ?thesis using c that content_account[of tg d log r log1] by auto
  qed
  show ?thesis
  proof (cases "so_error r = None \<and> atts \<noteq> [] \<and> pt_sandbox t")
    case False
    then show ?thesis using assms c new that
      by (cases "so_error r") (auto simp: publish_def account_def split: if_splits)
  next
    case True
    obtain rep fs2 log2 where s: "send_attachments_reported True tg (pt_outbox t) atts (fs, log1) = (rep, fs2, log2)"
      using prod_cases3 by blast
    obtain more where "log2 = log1 @ more" "honest more empty_report True rep" by (rule report_honest[OF s])
    then show ?thesis using assms c s True new that[of "new @ more"]
      by (cases "at_failure rep") (auto simp: publish_def account_def honest_def empty_report_def)
  qed
qed

text \<open>The bot at the other end of a request, and the world after it.\<close>

definition channel_bot ::
  "telegram \<Rightarrow> string + allowlist_file option \<Rightarrow> bool \<Rightarrow> bot_registry \<Rightarrow> files \<times> exchange \<Rightarrow> send_target \<Rightarrow> bot_request
    \<Rightarrow> bot_reply option" where
  "channel_bot tg allowed archived st w target req =
     (case req of PostRequest i token chan content atts \<Rightarrow> heard (fst (handle_channel_post tg allowed archived i token chan content atts st w))
      | _ \<Rightarrow> None)"

definition channel_answer :: "bot_reply option \<Rightarrow> tool_answer" where
  "channel_answer heard_reply = (case heard_reply of
      Some r \<Rightarrow> if br_ok r then ToolSent (br_ids r)
        else if br_uncertain r then ToolPartial ''channel_post_delivery_uncertain'' (br_ids r)
        else if br_ids r \<noteq> [] then ToolPartial ''channel_post_partially_sent'' (br_ids r)
        else ToolError ''channel_post_failed''
    | None \<Rightarrow> ToolError ''channel_post_failed'')"

text \<open>A call that reached the bot passed every check.\<close>

lemma channel_post_asked:
  assumes "call_channel_post ask allowed (Some (chan, content, atts)) ctx reg = (Some answer, [(target, req)], reg')"
  obtains i f where "req = PostRequest i (st_token target) chan content atts"
    "list_all (\<lambda>a. attachment_path_is_valid (oa_path a)) atts" "allowed = Ok (Some f)" "is_opened_channel chan f"
    "answer = channel_answer (ask target req)"
proof -
  note call = assms[unfolded call_channel_post_def]
  have full: "\<not> (content = None \<and> atts = [])" by (rule notI) (use call in simp)
  have paths: "\<not> list_ex (\<lambda>a. \<not> attachment_path_is_valid (oa_path a)) atts"
    by (rule notI) (use call full in simp)
  obtain found where found: "allowed = Ok found" using call full paths by (cases allowed) simp_all
  obtain f where f: "found = Some f" using call full paths found by (cases found) simp_all
  have opened: "is_opened_channel chan f" by (rule ccontr) (use call full paths found f in simp)
  obtain i where i: "ctx = Some i" using call full paths found f opened by (cases ctx) simp_all
  obtain got reg1 where b: "begin_channel_post i reg = (got, reg1)" by fastforce
  obtain t where t: "got = Ok t"
  proof (cases got)
    case (Inl e)
    then show ?thesis using call full paths found f opened i b by (cases e) simp_all
  qed (use that in auto)
  show ?thesis
    by (rule that[of i f]) (use call full paths found f opened i b t in \<open>auto simp: Let_def list_all_iff list_ex_iff channel_answer_def\<close>)
qed

text \<open>A request the bot answered without publishing, or its publication.\<close>

lemma channel_post_handled:
  assumes "handle_channel_post tg allowed archived i token chan content atts st w = (reply, st', w')"
  obtains (refused) "heard reply = None" "w' = w"
  | (posted) t ids failure ns where "publish tg t content atts w = (ids, failure, ns, w')"
      "reply = finish_channel_post archived ids failure ns"
proof -
  note call = assms[unfolded handle_channel_post_def]
  have refused_simps: "400 \<le> s \<Longrightarrow> heard (status_only s) = None" for s by (simp add: heard_def status_only_def)
  show ?thesis
  proof (cases "st i")
    case None
    then show ?thesis using call refused refused_simps by auto
  next
    case (Some t)
    obtain claimed st1 where c: "claim_channel_post i st = (claimed, st1)" by fastforce
    show ?thesis
    proof (cases "token_matches t token \<and> \<not> (content = None \<and> atts = []) \<and> claimed")
      case False
      then show ?thesis using call Some c refused refused_simps by (auto split: if_splits)
    next
      case True
      show ?thesis
      proof (cases "\<exists>f. allowed = Ok (Some f) \<and> is_opened_channel chan f")
        case False
        then show ?thesis using call Some c True refused refused_simps
          by (auto split: if_splits option.splits sum.splits)
      next
        case opened: True
        obtain ids failure ns w1 where p: "publish tg t content atts w = (ids, failure, ns, w1)" using prod_cases4 by blast
        then have "w1 = w'" "reply = finish_channel_post archived ids failure ns" using call Some c True opened by auto
        then show ?thesis using posted p by blast
      qed
    qed
  qed
qed

lemma publication_told:
  assumes "account content new ids failure" "answer = channel_answer (heard (finish_channel_post archived ids failure ns))"
  shows "case answer of
         ToolSent ids \<Rightarrow> ids = published new \<and> shown_text new = content_text content \<and> all_refused new
       | ToolPartial err ids \<Rightarrow> ids = published new \<and> (err = ''channel_post_delivery_uncertain'' \<or> all_refused new)
       | ToolError err \<Rightarrow> published new = [] \<and> all_refused new
       | ToolWait n \<Rightarrow> False"
proof (cases failure)
  case None
  then show ?thesis using assms
    by (cases "ids \<noteq> [] \<and> \<not> archived")
      (simp_all add: finish_channel_post_def channel_answer_def heard_def reply_ok_def account_def)
next
  case (Some u)
  then show ?thesis using assms
    by (cases "ids = []"; cases u; cases archived)
      (simp_all add: finish_channel_post_def channel_answer_def heard_def status_only_def account_def)
qed

text \<open>C29: the agent is told the truth about a channel post.  A post reaches the bot only for a channel the
  owner finds opened and with files of the outbox.  Whatever the bot then does, whatever Telegram answers and
  whether the archive can be written, the agent's answer agrees with the calls that were made: a plain
  failure means that nothing was published and that every failed call was refused, so it is safe to try
  again; success means that the whole text was shown; a partial answer names exactly the messages published,
  and without the word uncertain no failed call can have published more.\<close>
theorem channel_post_tells_the_truth:
  assumes "call_channel_post (channel_bot tg allowed' archived st (fs, log)) allowed (Some (chan, content, atts)) ctx reg
      = (Some answer, [(target, PostRequest i token chan' content' atts')], reg')"
    "handle_channel_post tg allowed' archived i token chan' content' atts' st (fs, log) = (reply, st', fs', log')"
  shows "chan' = chan \<and> content' = content \<and> atts' = atts \<and> list_all (\<lambda>a. attachment_path_is_valid (oa_path a)) atts
    \<and> (\<exists>f. allowed = Ok (Some f) \<and> is_opened_channel chan f)
    \<and> (\<exists>new. log' = log @ new \<and>
      (case answer of
         ToolSent ids \<Rightarrow> ids = published new \<and> shown_text new = content_text content \<and> all_refused new
       | ToolPartial err ids \<Rightarrow> ids = published new \<and> (err = ''channel_post_delivery_uncertain'' \<or> all_refused new)
       | ToolError err \<Rightarrow> published new = [] \<and> all_refused new
       | ToolWait n \<Rightarrow> False))"
proof -
  let ?req = "PostRequest i token chan content atts"
  obtain f where req: "chan' = chan" "content' = content" "atts' = atts" "list_all (\<lambda>a. attachment_path_is_valid (oa_path a)) atts"
      "allowed = Ok (Some f)" "is_opened_channel chan f" and
    answer: "answer = channel_answer (channel_bot tg allowed' archived st (fs, log) target ?req)"
    by (rule channel_post_asked[OF assms(1)]) auto
  have bot: "channel_bot tg allowed' archived st (fs, log) target ?req = heard reply"
    using assms(2) req(1-3) by (simp add: channel_bot_def)
  have "\<exists>new. log' = log @ new \<and> (heard reply = None \<and> new = []
      \<or> (\<exists>ids failure ns. reply = finish_channel_post archived ids failure ns \<and> account content new ids failure))"
  proof (cases rule: channel_post_handled[OF assms(2)])
    case (2 t ids failure ns)
    then show ?thesis using req(1-3) publish_account by metis
  qed simp
  then obtain new where new: "log' = log @ new" and
    "heard reply = None \<and> new = [] \<or> (\<exists>ids failure ns. reply = finish_channel_post archived ids failure ns \<and> account content new ids failure)"
    by blast
  then have "case answer of
         ToolSent ids \<Rightarrow> ids = published new \<and> shown_text new = content_text content \<and> all_refused new
       | ToolPartial err ids \<Rightarrow> ids = published new \<and> (err = ''channel_post_delivery_uncertain'' \<or> all_refused new)
       | ToolError err \<Rightarrow> published new = [] \<and> all_refused new
       | ToolWait n \<Rightarrow> False"
    using answer bot publication_told by (elim disjE exE conjE) (simp_all add: channel_answer_def)
  then show ?thesis using req new by blast
qed

definition channel_file :: allowlist_file where
  "channel_file = \<lparr>af_version = 1, af_users = [], af_groups =
     [\<lparr>ag_id = 7, ag_label = None, ag_opened_by = None, ag_opened_at = 0, ag_mode = ModeAddressed, ag_topics = [], ag_kind = KindChannel\<rparr>]\<rparr>"

definition bot_with_run :: bot_registry where
  "bot_with_run = bot_register [1] \<lparr>pt_token = [], pt_thread = 0, pt_outbox = sample_env, pt_sandbox = False, pt_posts = 0\<rparr> Map.empty"

lemma channel_post_tells_the_truth_witness:
  "\<exists>answer target reg' reply st' fs' log'.
     call_channel_post (channel_bot agreeable (Ok (Some channel_file)) True bot_with_run (Map.empty, [])) (Ok (Some channel_file))
        (Some (7, Some (TextContent [104, 105]), [])) (Some [1]) (register sample_registration Map.empty)
      = (Some answer, [(target, PostRequest [1] [] 7 (Some (TextContent [104, 105])) [])], reg')
     \<and> handle_channel_post agreeable (Ok (Some channel_file)) True [1] [] 7 (Some (TextContent [104, 105])) [] bot_with_run (Map.empty, [])
      = (reply, st', fs', log')
     \<and> answer = ToolSent [0] \<and> published log' = [0] \<and> shown_text log' = [104, 105]"
proof -
  let ?c = "TextContent [104, 105]"
  obtain reply st' fs' log' where h: "handle_channel_post agreeable (Ok (Some channel_file)) True [1] [] 7 (Some ?c) [] bot_with_run (Map.empty, [])
      = (reply, st', fs', log')" using prod_cases4 by blast
  have parts: "delivery_parts ?c = [?c]"
    by (simp add: normalize_text_def trim_end_def trim_chars_def is_uni_ws_def split_visible_utf16_def make_room_def
        utf16_units_def MAX_RICH_MESSAGE_UTF16_def)
  have "heard reply = Some \<lparr>br_ok = True, br_ids = [0], br_uncertain = False\<rparr>"
    using h parts
    by (auto simp: handle_channel_post_def bot_with_run_def bot_register_def token_matches_def claim_channel_post_def
        is_opened_channel_def channel_file_def MAX_CHANNEL_POST_PER_TURN_def publish_def send_until_failure_def ask_one_def
        agreeable_def add_delivered_def no_outcome_def finish_channel_post_def reply_ok_def heard_def)
  then have "\<exists>target reg'. call_channel_post (channel_bot agreeable (Ok (Some channel_file)) True bot_with_run (Map.empty, []))
      (Ok (Some channel_file)) (Some (7, Some ?c, [])) (Some [1]) (register sample_registration Map.empty)
      = (Some (ToolSent [0]), [(target, PostRequest [1] [] 7 (Some ?c) [])], reg')"
    using h
    by (simp add: call_channel_post_def is_opened_channel_def channel_file_def begin_channel_post_def register_def
        sample_registration_def MAX_CHANNEL_POST_PER_TURN_def channel_bot_def)
  then obtain target reg' where c: "call_channel_post (channel_bot agreeable (Ok (Some channel_file)) True bot_with_run (Map.empty, []))
      (Ok (Some channel_file)) (Some (7, Some ?c, [])) (Some [1]) (register sample_registration Map.empty)
      = (Some (ToolSent [0]), [(target, PostRequest [1] [] 7 (Some ?c) [])], reg')" by blast
  from channel_post_tells_the_truth[OF c h] have "published log' = [0] \<and> shown_text log' = [104, 105]"
    by (simp add: content_text_def is_uni_ws_def)
  then show ?thesis using c h by blast
qed

text \<open>The same does not hold of messages to the own chat: when the text is out and the sandbox is not there,
  the agent hears a plain failure.\<close>

lemma message_failure_hides_sent_text:
  assumes "send_content_of tg content log = (r, log')" "is_complete r" "atts \<noteq> []"
    "st i = Some t" "token_matches t token" "\<not> pt_sandbox t"
  shows "handle_message_send tg i token content atts st (fs, log) = (status_only 503, fs, log')
    \<and> heard (status_only 503) = None"
  using assms by (simp add: handle_message_send_def heard_def status_only_def)

end
