(* ===== verification/Skill_Learning.thy ===== *)
theory Skill_Learning
  imports Progress Cron_Spec
begin

text \<open>
  Skills the agents learn: the lifecycle of a skill (\<^verbatim>\<open>right-lifecycle/src/lib.rs\<close>), the
  journal of what was learned (\<^verbatim>\<open>right-agent/src/learned_skills.rs\<close>), the two tools
  (\<^verbatim>\<open>right/src/learning.rs\<close>, \<^verbatim>\<open>right_backend.rs\<close>) and the owner's requests
  (\<^verbatim>\<open>db_owner_ops.rs\<close>).
\<close>

section \<open>The lifecycle\<close>

datatype lifecycle_state = SkillActive | SkillStale | SkillArchived

datatype created_by = ByForeground | ByProbeWriter | ByCurator | ByBundled | ByCron

fun lifecycle_db_str :: "lifecycle_state \<Rightarrow> string" where
  "lifecycle_db_str SkillActive = ''active''"
| "lifecycle_db_str SkillStale = ''stale''"
| "lifecycle_db_str SkillArchived = ''archived''"

definition lifecycle_from_db_str :: "string \<Rightarrow> string + lifecycle_state" where
  "lifecycle_from_db_str s =
     (if s = ''active'' then Ok SkillActive else if s = ''stale'' then Ok SkillStale
      else if s = ''archived'' then Ok SkillArchived else Err s)"

fun created_by_db_str :: "created_by \<Rightarrow> string" where
  "created_by_db_str ByForeground = ''foreground''"
| "created_by_db_str ByProbeWriter = ''probe_writer''"
| "created_by_db_str ByCurator = ''curator''"
| "created_by_db_str ByBundled = ''bundled''"
| "created_by_db_str ByCron = ''cron''"

definition created_by_from_db_str :: "string \<Rightarrow> string + created_by" where
  "created_by_from_db_str s =
     (if s = ''foreground'' then Ok ByForeground else if s = ''probe_writer'' then Ok ByProbeWriter
      else if s = ''curator'' then Ok ByCurator else if s = ''bundled'' then Ok ByBundled
      else if s = ''cron'' then Ok ByCron else Err s)"

record skill_row =
  sl_name :: chars
  sl_state :: lifecycle_state
  sl_pinned :: bool
  sl_created_by :: created_by
  sl_use_count :: int
  sl_patch_count :: int
  sl_created_at :: "millis option"
  sl_last_used :: "millis option"
  sl_last_patched :: "millis option"
  sl_archived_at :: "millis option"
  sl_absorbed :: "chars option"

definition new_skill :: "chars \<Rightarrow> created_by \<Rightarrow> millis \<Rightarrow> skill_row" where
  "new_skill n by now = \<lparr>sl_name = n, sl_state = SkillActive, sl_pinned = False, sl_created_by = by, sl_use_count = 0,
     sl_patch_count = 0, sl_created_at = Some now, sl_last_used = None, sl_last_patched = None, sl_archived_at = None,
     sl_absorbed = None\<rparr>"

definition upsert_skill :: "skill_row \<Rightarrow> (skill_row \<Rightarrow> skill_row) \<Rightarrow> skill_row list \<Rightarrow> skill_row list" where
  "upsert_skill new f t =
     (if list_ex (\<lambda>r. sl_name r = sl_name new) t then update_where (\<lambda>r. sl_name r = sl_name new) f t else t @ [new])"

definition mark_created :: "chars \<Rightarrow> created_by \<Rightarrow> millis \<Rightarrow> skill_row list \<Rightarrow> skill_row list" where
  "mark_created n by now =
     upsert_skill (new_skill n by now)
       (\<lambda>r. r\<lparr>sl_state := SkillActive, sl_created_by := by, sl_created_at := Some now, sl_archived_at := None, sl_absorbed := None\<rparr>)"

definition bump_patch :: "chars \<Rightarrow> created_by \<Rightarrow> millis \<Rightarrow> skill_row list \<Rightarrow> skill_row list" where
  "bump_patch n by now =
     upsert_skill ((new_skill n by now)\<lparr>sl_patch_count := 1, sl_last_patched := Some now\<rparr>)
       (\<lambda>r. r\<lparr>sl_state := SkillActive, sl_patch_count := sl_patch_count r + 1, sl_last_patched := Some now,
              sl_archived_at := None, sl_absorbed := None\<rparr>)"

definition bump_use :: "chars \<Rightarrow> millis \<Rightarrow> skill_row list \<Rightarrow> skill_row list" where
  "bump_use n now =
     upsert_skill ((new_skill n ByForeground now)\<lparr>sl_use_count := 1, sl_last_used := Some now\<rparr>)
       (\<lambda>r. r\<lparr>sl_state := SkillActive, sl_use_count := sl_use_count r + 1, sl_last_used := Some now,
              sl_archived_at := None, sl_absorbed := None\<rparr>)"

definition bump_use_many :: "chars list \<Rightarrow> millis \<Rightarrow> skill_row list \<Rightarrow> skill_row list" where
  "bump_use_many ns now t = fold (\<lambda>n. bump_use n now) ns t"

definition set_pinned :: "chars \<Rightarrow> bool \<Rightarrow> skill_row list \<Rightarrow> bool \<times> skill_row list" where
  "set_pinned n b t =
     (let c = (\<lambda>r. sl_name r = n \<and> sl_pinned r \<noteq> b)
      in (0 < count_where c t, update_where c (\<lambda>r. r\<lparr>sl_pinned := b\<rparr>) t))"

definition get_skill :: "chars \<Rightarrow> skill_row list \<Rightarrow> skill_row option" where
  "get_skill n t = find (\<lambda>r. sl_name r = n) t"

definition is_learned :: "created_by \<Rightarrow> bool" where
  "is_learned by = (by \<in> {ByProbeWriter, ByCurator, ByForeground, ByCron})"

definition list_curator_candidates :: "skill_row list \<Rightarrow> skill_row list" where
  "list_curator_candidates t =
     sort_key sl_name (filter (\<lambda>r. sl_state r = SkillStale \<and> \<not> sl_pinned r \<and> is_learned (sl_created_by r)) t)"

definition latest_activity_at :: "skill_row \<Rightarrow> millis option" where
  "latest_activity_at r =
     (case (sl_last_used r, sl_last_patched r) of
        (Some used, Some patched) \<Rightarrow> Some (max used patched)
      | (Some used, None) \<Rightarrow> Some used
      | (None, Some patched) \<Rightarrow> Some patched
      | (None, None) \<Rightarrow> None)"

text \<open>\<^verbatim>\<open>MAX\<close> of SQL is NULL when an argument is; \<^verbatim>\<open>COALESCE\<close> takes the first that is not.\<close>

definition sql_max :: "millis option \<Rightarrow> millis option \<Rightarrow> millis option" where
  "sql_max a b = (case (a, b) of (Some x, Some y) \<Rightarrow> Some (max x y) | _ \<Rightarrow> None)"

fun coalesce :: "'a option list \<Rightarrow> 'a option" where
  "coalesce [] = None"
| "coalesce (Some x # xs) = Some x"
| "coalesce (None # xs) = coalesce xs"

definition activity_before_cutoff :: "millis \<Rightarrow> skill_row \<Rightarrow> bool" where
  "activity_before_cutoff cutoff r =
     (case coalesce [sql_max (sl_last_used r) (sl_last_patched r), sl_last_used r, sl_last_patched r] of
        None \<Rightarrow> False | Some t \<Rightarrow> t < cutoff)"

record transition_config =
  tc_stale_after :: millis
  tc_archive_after :: millis

definition default_transitions :: transition_config where
  "default_transitions = \<lparr>tc_stale_after = secs (30 * 86400), tc_archive_after = secs (90 * 86400)\<rparr>"

definition apply_automatic_transitions :: "millis \<Rightarrow> transition_config \<Rightarrow> skill_row list \<Rightarrow> nat \<times> skill_row list" where
  "apply_automatic_transitions now cfg t =
     (let old = (\<lambda>r. sl_state r \<in> {SkillActive, SkillStale} \<and> \<not> sl_pinned r \<and> is_learned (sl_created_by r)
                  \<and> activity_before_cutoff (now - tc_archive_after cfg) r);
          t1 = update_where old (\<lambda>r. r\<lparr>sl_state := SkillArchived, sl_archived_at := Some now\<rparr>) t;
          idle = (\<lambda>r. sl_state r = SkillActive \<and> \<not> sl_pinned r \<and> is_learned (sl_created_by r)
                  \<and> activity_before_cutoff (now - tc_stale_after cfg) r)
      in (count_where old t + count_where idle t1, update_where idle (\<lambda>r. r\<lparr>sl_state := SkillStale\<rparr>) t1))"

definition count_changes_since :: "millis \<Rightarrow> skill_row list \<Rightarrow> nat" where
  "count_changes_since since t =
     min (2 ^ 32 - 1) (count_where (\<lambda>r. (case sl_created_at r of None \<Rightarrow> False | Some c \<Rightarrow> since < c)
                        \<or> (case sl_last_patched r of None \<Rightarrow> False | Some p \<Rightarrow> since < p)) t)"

section \<open>The journal\<close>

datatype learning_action = LearnCreate | LearnUpdate
datatype learning_phase = PhaseStart | PhaseFinish
datatype learning_status = LearnCreated | LearnUpdated | LearnAborted | LearnFailed

definition learning_success :: "learning_status \<Rightarrow> bool" where
  "learning_success s = (s \<in> {LearnCreated, LearnUpdated})"

record learning_event =
  le_invocation :: chars
  le_action :: learning_action
  le_skill :: chars
  le_phase :: learning_phase
  le_status :: "learning_status option"
  le_hint :: "string option"
  le_reason :: "chars option"
  le_message :: "chars option"
  le_summary :: "chars option"
  le_refs :: "chars list"
  le_at :: millis

definition finished_well :: "chars \<Rightarrow> learning_event \<Rightarrow> bool" where
  "finished_well i e = (le_invocation e = i \<and> le_phase e = PhaseFinish
     \<and> (case le_status e of None \<Rightarrow> False | Some s \<Rightarrow> learning_success s))"

definition successful_finish_exists :: "chars \<Rightarrow> learning_event list \<Rightarrow> bool" where
  "successful_finish_exists i es = (0 < count_where (finished_well i) es)"

text \<open>The latest finish: ordered by time, then by row id, which is the order of the journal.\<close>

definition finish_event_for_invocation :: "chars \<Rightarrow> learning_event list \<Rightarrow> (chars \<times> learning_status) option" where
  "finish_event_for_invocation i es =
     (case rev (sort_key le_at (filter (\<lambda>e. le_invocation e = i \<and> le_phase e = PhaseFinish \<and> le_status e \<noteq> None) es)) of
        [] \<Rightarrow> None
      | e # _ \<Rightarrow> map_option (Pair (le_skill e)) (le_status e))"

definition successful_finishes_for_invocation :: "chars \<Rightarrow> learning_event list \<Rightarrow> chars list" where
  "successful_finishes_for_invocation i es = map le_skill (filter (finished_well i) es)"

section \<open>What may be learned\<close>

definition LEARNED_SKILL_PREFIX :: chars where "LEARNED_SKILL_PREFIX = text_chars ''rightx-''"

definition BUILTIN_SKILL_NAMES :: "chars list" where
  "BUILTIN_SKILL_NAMES = map text_chars [''right-skills'', ''right-cron'', ''right-mcp'', ''right-learn-skill'',
     ''right-memory'', ''right-reflect'', ''right-composio'']"

definition BUILTIN_SKILL_LEGACY_NAMES :: "chars list" where
  "BUILTIN_SKILL_LEGACY_NAMES = map text_chars [''rightskills'', ''rightcron'', ''rightmcp'', ''rightmemory'', ''rightreflect'']"

definition skill_name_byte :: "nat \<Rightarrow> bool" where
  "skill_name_byte c = (97 \<le> c \<and> c \<le> 122 \<or> 48 \<le> c \<and> c \<le> 57 \<or> c = 45)"

definition validate_skill_name :: "chars \<Rightarrow> string + unit" where
  "validate_skill_name n =
     (if \<not> (3 \<le> length n \<and> length n \<le> 80) then Err ''invalid_argument''
      else if hd n = 45 \<or> last n = 45 then Err ''invalid_argument''
      else if \<not> list_all skill_name_byte n then Err ''invalid_argument''
      else Ok ())"

definition is_known_core_skill :: "chars \<Rightarrow> bool" where
  "is_known_core_skill n = (n \<in> set BUILTIN_SKILL_NAMES \<or> n \<in> set BUILTIN_SKILL_LEGACY_NAMES)"

text \<open>The registry of installed skills: no file, one that cannot be read or parsed, or the entries of
  its object.\<close>

datatype installed_entry = EntryText chars | EntryObject "chars option" | EntryOther

datatype installed_registry = NoRegistry | BadRegistry | Installed "chars \<rightharpoonup> installed_entry"

fun source_marks_core :: "installed_entry \<Rightarrow> bool" where
  "source_marks_core (EntryText s) =
     (s \<in> set (map text_chars [''builtin'', ''platform'', ''core'', ''codegen'', ''bundled'', ''codegen-owned'']))"
| "source_marks_core (EntryObject (Some s)) =
     (s \<in> set (map text_chars [''builtin'', ''platform'', ''core'', ''codegen'', ''bundled'', ''codegen-owned'']))"
| "source_marks_core (EntryObject None) = False"
| "source_marks_core EntryOther = False"

fun installed_json_marks_core :: "installed_registry \<Rightarrow> chars \<Rightarrow> string + bool" where
  "installed_json_marks_core NoRegistry n = Ok False"
| "installed_json_marks_core BadRegistry n = Err ''skill_registry_invalid''"
| "installed_json_marks_core (Installed f) n = Ok (case f n of None \<Rightarrow> False | Some e \<Rightarrow> source_marks_core e)"

definition validate_learning_target :: "installed_registry \<Rightarrow> chars \<Rightarrow> string + unit" where
  "validate_learning_target installed n =
     bind_result (validate_skill_name n) (\<lambda>_.
     bind_result (installed_json_marks_core installed n) (\<lambda>core.
     bind_result (ensure (\<not> (is_known_core_skill n \<or> core)) ''skill_core_readonly'') (\<lambda>_.
     ensure (strip_prefix LEARNED_SKILL_PREFIX n \<noteq> None) ''invalid_argument'')))"

definition validate_nonempty_message :: "chars option \<Rightarrow> string + unit" where
  "validate_nonempty_message m =
     (case m of
        None \<Rightarrow> Err ''invalid_argument''
      | Some raw \<Rightarrow>
          let t = trim_chars raw in
          if t = [] then Err ''invalid_argument''
          else ensure (length t \<le> PROGRESS_MESSAGE_MAX_CHARS) ''invalid_argument'')"

definition validate_start_message :: "invocation_kind \<Rightarrow> chars option \<Rightarrow> string + unit" where
  "validate_start_message k m = (if sends_learning_messages k then validate_nonempty_message m else Ok ())"

definition validate_finish_receipt_message :: "learning_status \<Rightarrow> chars option \<Rightarrow> string + unit" where
  "validate_finish_receipt_message s m = (if learning_success s then validate_nonempty_message m else Ok ())"

text \<open>The sandbox says whether a package is there, or cannot be asked.\<close>

datatype package_expectation = MustExist | MustNotExist

definition validate_skill_package_state :: "(chars \<Rightarrow> bool option) \<Rightarrow> chars \<Rightarrow> package_expectation \<Rightarrow> string + unit" where
  "validate_skill_package_state probe n expect =
     (case probe n of
        None \<Rightarrow> Err ''skill_package_check_failed''
      | Some there \<Rightarrow>
          if expect = MustExist \<and> \<not> there then Err ''skill_package_missing''
          else if expect = MustNotExist \<and> there then Err ''skill_already_exists''
          else Ok ())"

section \<open>The tools\<close>

text \<open>A message of the tools goes to the user through the bot, without counting as progress.\<close>

definition send_learning_message ::
  "(send_target \<Rightarrow> bot_request \<Rightarrow> bot_reply option) \<Rightarrow> chars \<Rightarrow> chars option \<Rightarrow> registry \<Rightarrow> (string + unit) \<times> (send_target \<times> bot_request) list" where
  "send_learning_message ask i m reg =
     (case learning_invocation i reg of
        Err (RateLimited _) \<Rightarrow> (Err ''learning_send_failed'', [])
      | Err _ \<Rightarrow> (Err ''learning_unavailable'', [])
      | Ok (kind, target) \<Rightarrow>
          if \<not> sends_learning_messages kind then (Ok (), [])
          else (case validate_nonempty_message m of
                  Err e \<Rightarrow> (Err e, [])
                | Ok _ \<Rightarrow>
                    let req = ProgressRequest i (st_token target) (trim_chars (case m of Some raw \<Rightarrow> raw | None \<Rightarrow> [])) in
                    ((case ask target req of Some _ \<Rightarrow> Ok () | None \<Rightarrow> Err ''learning_send_failed''), [(target, req)])))"

definition invocation_kind_to_created_by :: "invocation_kind \<Rightarrow> string + created_by" where
  "invocation_kind_to_created_by k =
     (case k of Foreground \<Rightarrow> Ok ByForeground | ProbeWriter \<Rightarrow> Ok ByProbeWriter | Curator \<Rightarrow> Ok ByCurator
      | CronRun \<Rightarrow> Ok ByCron | BackgroundReview \<Rightarrow> Err ''learning_unavailable'')"

definition learning_kind :: "chars \<Rightarrow> registry \<Rightarrow> string + invocation_kind" where
  "learning_kind i reg =
     (case learning_invocation i reg of
        Ok (kind, _) \<Rightarrow> Ok kind
      | Err (RateLimited _) \<Rightarrow> Err ''learning_send_failed''
      | Err _ \<Rightarrow> Err ''learning_unavailable'')"

record learning_start =
  ls_action :: learning_action
  ls_skill :: chars
  ls_reason :: "chars option"
  ls_refs :: "chars list option"
  ls_message :: "chars option"

record learning_finish =
  lf_action :: learning_action
  lf_skill :: chars
  lf_status :: learning_status
  lf_message :: "chars option"
  lf_summary :: "chars option"
  lf_refs :: "chars list option"
  lf_hint :: "string option"

record learning_db =
  ld_skills :: "skill_row list"
  ld_events :: "learning_event list"

text \<open>What surrounds a call: the registry of installed skills, the sandbox, the bot, the times of the
  writes and whether they succeed.\<close>

record learning_env =
  lv_installed :: installed_registry
  lv_probe :: "chars \<Rightarrow> bool option"
  lv_ask :: "send_target \<Rightarrow> bot_request \<Rightarrow> bot_reply option"
  lv_event_at :: millis
  lv_event_ok :: bool
  lv_lifecycle_at :: millis
  lv_lifecycle_ok :: bool

text \<open>An answer of a tool, or an error of the server.\<close>

datatype learning_answer = LearningDone string | LearningRefused string | ServerError

definition refs_of :: "chars list option \<Rightarrow> chars list" where
  "refs_of r = (case r of Some xs \<Rightarrow> xs | None \<Rightarrow> [])"

definition call_skill_learning_start ::
  "learning_env \<Rightarrow> learning_start option \<Rightarrow> chars option \<Rightarrow> registry \<Rightarrow> registry \<Rightarrow> learning_db
    \<Rightarrow> learning_answer \<times> (send_target \<times> bot_request) list \<times> learning_db" where
  "call_skill_learning_start env params ctx reg later db =
     (case params of
        None \<Rightarrow> (LearningRefused ''invalid_argument'', [], db)
      | Some p \<Rightarrow>
          (case validate_learning_target (lv_installed env) (ls_skill p) of
             Err e \<Rightarrow> (LearningRefused e, [], db)
           | Ok _ \<Rightarrow>
          (case validate_skill_package_state (lv_probe env) (ls_skill p) (case ls_action p of LearnCreate \<Rightarrow> MustNotExist | LearnUpdate \<Rightarrow> MustExist) of
             Err e \<Rightarrow> (LearningRefused e, [], db)
           | Ok _ \<Rightarrow>
          (case ctx of
             None \<Rightarrow> (LearningRefused ''learning_unavailable'', [], db)
           | Some i \<Rightarrow>
          (case learning_kind i reg of
             Err e \<Rightarrow> (LearningRefused e, [], db)
           | Ok kind \<Rightarrow>
          (case validate_start_message kind (ls_message p) of
             Err e \<Rightarrow> (LearningRefused e, [], db)
           | Ok _ \<Rightarrow>
          if \<not> lv_event_ok env then (ServerError, [], db)
          else (let db1 = db\<lparr>ld_events := ld_events db @ [\<lparr>le_invocation = i, le_action = ls_action p, le_skill = ls_skill p,
                  le_phase = PhaseStart, le_status = None, le_hint = None, le_reason = ls_reason p, le_message = ls_message p,
                  le_summary = None, le_refs = refs_of (ls_refs p), le_at = lv_event_at env\<rparr>]\<rparr> in
                (case send_learning_message (lv_ask env) i (ls_message p) later of
                   (Err e, sent) \<Rightarrow> (LearningRefused e, sent, db1)
                 | (Ok _, sent) \<Rightarrow> (LearningDone ''started'', sent, db1)))))))))"

definition status_str :: "learning_status \<Rightarrow> string" where
  "status_str s = (case s of LearnCreated \<Rightarrow> ''created'' | LearnUpdated \<Rightarrow> ''updated'' | LearnAborted \<Rightarrow> ''aborted'' | LearnFailed \<Rightarrow> ''failed'')"

definition write_lifecycle :: "learning_status \<Rightarrow> chars \<Rightarrow> created_by \<Rightarrow> millis \<Rightarrow> skill_row list \<Rightarrow> skill_row list" where
  "write_lifecycle s n by now t =
     (case s of LearnCreated \<Rightarrow> mark_created n by now t | LearnUpdated \<Rightarrow> bump_patch n by now t | _ \<Rightarrow> t)"

text \<open>The second half of the finish tool, after the event was written.\<close>

definition finish_success_part ::
  "learning_env \<Rightarrow> learning_finish \<Rightarrow> chars \<Rightarrow> registry \<Rightarrow> registry \<Rightarrow> learning_db
    \<Rightarrow> learning_answer \<times> (send_target \<times> bot_request) list \<times> learning_db" where
  "finish_success_part env p i reg later db =
     (case learning_kind i reg of
        Err e \<Rightarrow> (LearningRefused e, [], db)
      | Ok kind \<Rightarrow>
          (case invocation_kind_to_created_by kind of
             Err e \<Rightarrow> (LearningRefused e, [], db)
           | Ok by \<Rightarrow>
               (case (if sends_learning_messages kind then send_learning_message (lv_ask env) i (lf_message p) later else (Ok (), [])) of
                  (Err e, sent) \<Rightarrow> (LearningRefused e, sent, db)
                | (Ok _, sent) \<Rightarrow>
                    if \<not> lv_lifecycle_ok env then (LearningRefused ''skill_lifecycle_write_failed'', sent, db)
                    else (LearningDone (status_str (lf_status p)), sent,
                          db\<lparr>ld_skills := write_lifecycle (lf_status p) (lf_skill p) by (lv_lifecycle_at env) (ld_skills db)\<rparr>))))"

definition call_skill_learning_finish ::
  "learning_env \<Rightarrow> learning_finish option \<Rightarrow> chars option \<Rightarrow> registry \<Rightarrow> registry \<Rightarrow> learning_db
    \<Rightarrow> learning_answer \<times> (send_target \<times> bot_request) list \<times> learning_db" where
  "call_skill_learning_finish env params ctx reg later db =
     (case params of
        None \<Rightarrow> (LearningRefused ''invalid_argument'', [], db)
      | Some p \<Rightarrow>
          (case validate_learning_target (lv_installed env) (lf_skill p) of
             Err e \<Rightarrow> (LearningRefused e, [], db)
           | Ok _ \<Rightarrow>
          (case validate_finish_receipt_message (lf_status p) (lf_message p) of
             Err e \<Rightarrow> (LearningRefused e, [], db)
           | Ok _ \<Rightarrow>
          (case ctx of
             None \<Rightarrow> (LearningRefused ''learning_unavailable'', [], db)
           | Some i \<Rightarrow>
          (case (if learning_success (lf_status p) then validate_skill_package_state (lv_probe env) (lf_skill p) MustExist else Ok ()) of
             Err e \<Rightarrow> (LearningRefused e, [], db)
           | Ok _ \<Rightarrow>
          if \<not> lv_event_ok env then (ServerError, [], db)
          else (let db1 = db\<lparr>ld_events := ld_events db @ [\<lparr>le_invocation = i, le_action = lf_action p, le_skill = lf_skill p,
                  le_phase = PhaseFinish, le_status = Some (lf_status p), le_hint = lf_hint p, le_reason = None,
                  le_message = lf_message p, le_summary = lf_summary p, le_refs = refs_of (lf_refs p), le_at = lv_event_at env\<rparr>]\<rparr> in
                if learning_success (lf_status p) then finish_success_part env p i reg later db1
                else (LearningDone (status_str (lf_status p)), [], db1)))))))"

section \<open>Requests of the owner\<close>

text \<open>The join of the lifecycle with the links of the cron jobs.\<close>

definition with_skills :: "skill_row list \<Rightarrow> cron_db \<Rightarrow> cron_db" where
  "with_skills t cdb = cdb\<lparr>cd_skills := map (\<lambda>r. (sl_name r, lifecycle_db_str (sl_state r))) t\<rparr>"

definition archived_names :: "skill_row list \<Rightarrow> chars list" where
  "archived_names t = map sl_name (filter (\<lambda>r. sl_state r = SkillArchived) t)"

definition retire_link :: "chars \<times> chars option \<Rightarrow> cron_db \<Rightarrow> cron_db" where
  "retire_link s cdb = (case s of (n, Some target) \<Rightarrow> redirect_skill n target cdb | (n, None) \<Rightarrow> drop_skill n cdb)"

definition curator_apply_transitions ::
  "millis \<Rightarrow> transition_config \<Rightarrow> skill_row list \<Rightarrow> cron_db \<Rightarrow> (nat \<times> skill_row list \<times> chars list) \<times> skill_row list \<times> cron_db" where
  "curator_apply_transitions now cfg t cdb =
     (let before = archived_names t;
          (changes, t1) = apply_automatic_transitions now cfg t;
          fresh = map (\<lambda>r. (sl_name r, sl_absorbed r)) (filter (\<lambda>r. sl_state r = SkillArchived \<and> sl_name r \<notin> set before) t1)
      in ((changes, list_curator_candidates t1, map fst fresh), t1, fold retire_link fresh cdb))"

definition link_cron_authored :: "chars \<Rightarrow> chars \<Rightarrow> learning_event list \<Rightarrow> cron_db \<Rightarrow> nat \<times> cron_db" where
  "link_cron_authored i job es cdb =
     (let names = remdups_adj (sort (successful_finishes_for_invocation i es)) in (length names, link_auto job names cdb))"

text \<open>A request that may be sent again counts once.\<close>

definition lifecycle_bump_use_many ::
  "chars \<Rightarrow> chars list \<Rightarrow> millis \<Rightarrow> (chars \<times> string \<times> nat) list \<times> skill_row list
    \<Rightarrow> (string + nat) \<times> (chars \<times> string \<times> nat) list \<times> skill_row list" where
  "lifecycle_bump_use_many rid ns now st =
     (case st of (reqs, t) \<Rightarrow>
        (case map_of reqs rid of
           Some (operation, n) \<Rightarrow> if operation \<noteq> ''lifecycle_bump_use_many'' then (Err operation, st) else (Ok n, st)
         | None \<Rightarrow> (Ok (length ns), reqs @ [(rid, ''lifecycle_bump_use_many'', length ns)], bump_use_many ns now t)))"

text \<open>The names of a turn's receipts that count as learned skills.\<close>

definition used_skill_names_from_receipts :: "chars list \<Rightarrow> chars list" where
  "used_skill_names_from_receipts ps = remdups_adj (sort (filter (\<lambda>n. strip_prefix LEARNED_SKILL_PREFIX n \<noteq> None) ps))"

end
