(* ===== verification/Curator.thy ===== *)
theory Curator
  imports Skill_Learning
begin

text \<open>
  The curator of learned skills (\<^verbatim>\<open>bot/src/learning_curator.rs\<close>): the gate that decides whether a
  pass is due, the circuit that holds it back after failures, and one tick with everything
  the owner, the sandbox and the guest may answer.  Times that the code stores as text are
  instants; the numbers of a cost spike are rationals.
\<close>

section \<open>The gate\<close>

abbreviation hours :: "nat \<Rightarrow> millis" where "hours n \<equiv> secs (3600 * int n)"
abbreviation days :: "nat \<Rightarrow> millis" where "days n \<equiv> secs (86400 * int n)"

record cost_spike =
  sp_today :: rat
  sp_baseline :: rat
  sp_k :: rat
  sp_floor :: rat

datatype curator_mode = CuratorApply | CuratorReportOnly

datatype curator_trigger = CostSpike cost_spike | SkillChangeCount nat nat | TimeFallback nat

record curator_state =
  cu_last_run :: "millis option"
  cu_last_status :: "string option"
  cu_failures :: nat
  cu_open_until :: "millis option"
  cu_evidence :: "(curator_trigger \<times> millis) option"

record curator_config =
  cc_enabled :: bool
  cc_paused :: bool
  cc_interval_hours :: nat
  cc_min_idle_hours :: nat
  cc_min_cooldown_hours :: nat
  cc_stale_after_days :: nat
  cc_archive_after_days :: nat
  cc_skill_change_threshold :: nat
  cc_circuit_failure_threshold :: nat
  cc_circuit_cooldown_hours :: nat
  cc_mode :: curator_mode

datatype curator_gate =
    RunPass curator_trigger
  | SkipDisabled | SkipPaused | SkipCircuitOpen | SkipChatNotIdle | SkipCooldown | SkipNoTrigger

definition cheap_skip :: "curator_config \<Rightarrow> curator_state \<Rightarrow> millis \<Rightarrow> millis option \<Rightarrow> curator_gate option" where
  "cheap_skip cfg st now activity =
     (if \<not> cc_enabled cfg then Some SkipDisabled
      else if cc_paused cfg then Some SkipPaused
      else if (case cu_open_until st of None \<Rightarrow> False | Some u \<Rightarrow> now < u) then Some SkipCircuitOpen
      else if (case activity of None \<Rightarrow> False | Some a \<Rightarrow> now - a < hours (cc_min_idle_hours cfg)) then Some SkipChatNotIdle
      else if (case cu_last_run st of None \<Rightarrow> False | Some l \<Rightarrow> now - l < hours (cc_min_cooldown_hours cfg)) then Some SkipCooldown
      else None)"

definition next_circuit_open_until :: "nat \<Rightarrow> nat \<Rightarrow> nat \<Rightarrow> millis \<Rightarrow> millis option" where
  "next_circuit_open_until failures threshold cooldown_hours now =
     (if threshold \<le> failures then Some (now + hours cooldown_hours) else None)"

definition should_run_now :: "curator_config \<Rightarrow> curator_state \<Rightarrow> millis \<Rightarrow> millis option \<Rightarrow> cost_spike option \<Rightarrow> nat \<Rightarrow> curator_gate" where
  "should_run_now cfg st now activity spike changes =
     (case cheap_skip cfg st now activity of
        Some skip \<Rightarrow> skip
      | None \<Rightarrow>
          (case spike of
             Some e \<Rightarrow> RunPass (CostSpike e)
           | None \<Rightarrow>
               if cc_skill_change_threshold cfg \<le> changes then RunPass (SkillChangeCount changes (cc_skill_change_threshold cfg))
               else if (case cu_last_run st of None \<Rightarrow> False | Some l \<Rightarrow> hours (cc_interval_hours cfg) \<le> now - l)
               then RunPass (TimeFallback (cc_interval_hours cfg))
               else SkipNoTrigger))"

definition mark_failed_run :: "curator_config \<Rightarrow> millis \<Rightarrow> curator_state \<Rightarrow> curator_state" where
  "mark_failed_run cfg now st =
     (let st1 = st\<lparr>cu_last_run := Some now, cu_last_status := Some ''failed'', cu_failures := cu_failures st + 1\<rparr>
      in (case next_circuit_open_until (cu_failures st1) (cc_circuit_failure_threshold cfg) (cc_circuit_cooldown_hours cfg) now of
            Some u \<Rightarrow> st1\<lparr>cu_open_until := Some u\<rparr>
          | None \<Rightarrow> st1))"

definition trigger_label :: "curator_trigger \<Rightarrow> string" where
  "trigger_label t =
     (case t of CostSpike _ \<Rightarrow> ''cost_spike'' | SkillChangeCount _ _ \<Rightarrow> ''skill_change'' | TimeFallback _ \<Rightarrow> ''time_fallback'')"

section \<open>The record of a pass\<close>

record curator_run =
  cr_run_at :: millis
  cr_trigger :: string
  cr_mode :: string
  cr_status :: string
  cr_cost :: rat
  cr_cache_read :: int
  cr_cache_creation :: int
  cr_merged :: "(chars \<times> chars) list"
  cr_archived :: "chars list"

record skill_spend =
  ss_skill :: chars
  ss_cost :: rat
  ss_cache_read :: int
  ss_cache_creation :: int

type_synonym pass_usage = "rat \<times> nat \<times> nat"

definition usage_triple :: "pass_usage option \<Rightarrow> rat \<times> int \<times> int" where
  "usage_triple u = (case u of Some (cost, cr, cc) \<Rightarrow> (cost, int cr, int cc) | None \<Rightarrow> (0, 0, 0))"

text \<open>The cost of a pass is split over the skills the transitions archived, cache tokens in whole numbers.\<close>

definition maintain_spend :: "pass_usage option \<Rightarrow> chars list \<Rightarrow> skill_spend list" where
  "maintain_spend u names =
     (case u of
        None \<Rightarrow> []
      | Some (cost, cr, cc) \<Rightarrow>
          map (\<lambda>n. \<lparr>ss_skill = n, ss_cost = cost / of_nat (length names), ss_cache_read = int cr div int (length names),
                     ss_cache_creation = int cc div int (length names)\<rparr>) names)"

section \<open>A tick\<close>

text \<open>What the tick meets.  An IPC read that failed is \<open>None\<close>; the archived skills are read before and after.\<close>

record curator_world =
  wc_state :: "curator_state option"
  wc_activity :: "millis option option"
  wc_spike :: "cost_spike option"
  wc_changes :: "nat option"
  wc_archived_before :: "(chars \<times> chars option) list option"
  wc_transitions :: "chars list option"
  wc_listing_ok :: bool
  wc_sandbox :: bool
  wc_registered :: bool
  wc_built :: bool
  wc_success :: bool
  wc_usage :: "pass_usage option"
  wc_archived_after :: "(chars \<times> chars option) list option"

text \<open>What the tick asks of the owner: a state to save, or the end of a pass.\<close>

datatype curator_request =
    SaveState curator_state
  | ApplyTransitions millis transition_config
  | Finalize curator_state curator_run "skill_spend list"

text \<open>How the tick ended.\<close>

datatype curator_end = NoState | Deferred | NoActivity | Gated curator_gate | NoCount | Proposed | NotListed | NotApplied | NoSandbox | FailedEarly | Forked bool

definition run_report_only_pass ::
  "curator_world \<Rightarrow> millis \<Rightarrow> curator_trigger \<Rightarrow> curator_state \<Rightarrow> curator_end \<times> curator_request list" where
  "run_report_only_pass w now trigger st =
     (if \<not> wc_listing_ok w then (NotListed, [])
      else (Proposed, [Finalize (st\<lparr>cu_last_run := Some now, cu_last_status := Some ''proposed''\<rparr>)
        \<lparr>cr_run_at = now, cr_trigger = trigger_label trigger, cr_mode = ''report_only'', cr_status = ''proposed'', cr_cost = 0,
          cr_cache_read = 0, cr_cache_creation = 0, cr_merged = [], cr_archived = []\<rparr> []]))"

text \<open>The skills this pass archived, those absorbed by another with their target.\<close>

definition pass_archived :: "curator_world \<Rightarrow> (chars \<times> chars option) list" where
  "pass_archived w =
     (let before = (case wc_archived_before w of Some xs \<Rightarrow> map fst xs | None \<Rightarrow> []);
          after = (case wc_archived_after w of Some xs \<Rightarrow> xs | None \<Rightarrow> [])
      in filter (\<lambda>(n, _). n \<notin> set before) after)"

definition merged_of :: "(chars \<times> chars option) list \<Rightarrow> (chars \<times> chars) list" where
  "merged_of xs = concat (map (\<lambda>(n, t). case t of Some target \<Rightarrow> [(n, target)] | None \<Rightarrow> []) xs)"

definition finish_pass ::
  "curator_config \<Rightarrow> curator_world \<Rightarrow> millis \<Rightarrow> curator_trigger \<Rightarrow> chars list \<Rightarrow> curator_state \<Rightarrow> curator_request" where
  "finish_pass cfg w now trigger archived st =
     (let st1 = (if wc_success w
                 then st\<lparr>cu_last_run := Some now, cu_last_status := Some ''success'', cu_failures := 0, cu_open_until := None\<rparr>
                 else mark_failed_run cfg now st);
          (cost, cr, cc) = usage_triple (wc_usage w)
      in Finalize st1
           \<lparr>cr_run_at = now, cr_trigger = trigger_label trigger, cr_mode = ''apply'',
             cr_status = (if wc_success w then ''success'' else ''failed''), cr_cost = cost, cr_cache_read = cr,
             cr_cache_creation = cc, cr_merged = merged_of (pass_archived w), cr_archived = map fst (pass_archived w)\<rparr>
           (maintain_spend (wc_usage w) archived))"

definition run_apply_pass ::
  "curator_config \<Rightarrow> curator_world \<Rightarrow> millis \<Rightarrow> curator_trigger \<Rightarrow> curator_state \<Rightarrow> curator_end \<times> curator_request list" where
  "run_apply_pass cfg w now trigger st =
     (let apply = ApplyTransitions now \<lparr>tc_stale_after = days (cc_stale_after_days cfg), tc_archive_after = days (cc_archive_after_days cfg)\<rparr>
      in (case wc_transitions w of
            None \<Rightarrow> (NotApplied, [apply])
          | Some archived \<Rightarrow>
              if \<not> wc_sandbox w then (NoSandbox, [apply])
              else if \<not> wc_registered w \<or> \<not> wc_built w
              then (FailedEarly, [apply, SaveState (mark_failed_run cfg now st)])
              else (Forked (wc_success w), [apply, finish_pass cfg w now trigger archived st])))"

definition run_if_due :: "curator_config \<Rightarrow> curator_world \<Rightarrow> millis \<Rightarrow> curator_end \<times> curator_request list" where
  "run_if_due cfg w now =
     (case wc_state w of
        None \<Rightarrow> (NoState, [])
      | Some st \<Rightarrow>
          (case cu_last_run st of
             None \<Rightarrow> (Deferred, [SaveState (st\<lparr>cu_last_run := Some now\<rparr>)])
           | Some last_run \<Rightarrow>
               (case wc_activity w of
                  None \<Rightarrow> (NoActivity, [])
                | Some activity \<Rightarrow>
                    (case cheap_skip cfg st now activity of
                       Some skip \<Rightarrow> (Gated skip, [])
                     | None \<Rightarrow>
                         (case wc_changes w of
                            None \<Rightarrow> (NoCount, [])
                          | Some changes \<Rightarrow>
                              (case should_run_now cfg st now activity (wc_spike w) changes of
                                 RunPass trigger \<Rightarrow>
                                   let st1 = st\<lparr>cu_evidence := Some (trigger, now)\<rparr> in
                                   if cc_mode cfg = CuratorReportOnly then run_report_only_pass w now trigger st1
                                   else run_apply_pass cfg w now trigger st1
                               | skip \<Rightarrow> (Gated skip, [])))))))"

text \<open>The state the owner holds after a tick.  A request to save it, or to end a pass, may not be carried out;
  the tick only logs that, and what it wanted to store is lost.\<close>

fun saved_state :: "(curator_request \<Rightarrow> bool) \<Rightarrow> curator_request list \<Rightarrow> curator_state \<Rightarrow> curator_state" where
  "saved_state carried [] st = st"
| "saved_state carried (SaveState s # rs) st =
     saved_state carried rs (if carried (SaveState s) then s else st)"
| "saved_state carried (ApplyTransitions now cfg # rs) st = saved_state carried rs st"
| "saved_state carried (Finalize s r spend # rs) st =
     saved_state carried rs (if carried (Finalize s r spend) then s else st)"

end
