(* ===== verification/Curator_Props.thy ===== *)
theory Curator_Props
  imports Curator
begin

text \<open>
  What the lifecycle of learned skills and its curator guarantee: the transitions are
  those of a reference by age, the rows stay consistent, retired skills leave no links,
  the tools record only what they checked, and passes keep their pace.
\<close>

section \<open>Transitions\<close>

text \<open>The reference: what the passing of time makes of one skill.\<close>

definition aged :: "millis \<Rightarrow> transition_config \<Rightarrow> skill_row \<Rightarrow> skill_row" where
  "aged now cfg r =
     (if sl_pinned r \<or> sl_created_by r = ByBundled \<or> sl_state r = SkillArchived then r
      else (case latest_activity_at r of
              None \<Rightarrow> r
            | Some t \<Rightarrow>
                if t < now - tc_archive_after cfg then r\<lparr>sl_state := SkillArchived, sl_archived_at := Some now\<rparr>
                else if sl_state r = SkillActive \<and> t < now - tc_stale_after cfg then r\<lparr>sl_state := SkillStale\<rparr>
                else r))"

lemma before_cutoff_iff:
  "activity_before_cutoff c r \<longleftrightarrow> (case latest_activity_at r of None \<Rightarrow> False | Some t \<Rightarrow> t < c)"
  by (cases "sl_last_used r"; cases "sl_last_patched r")
    (simp_all add: activity_before_cutoff_def latest_activity_at_def sql_max_def)

lemma is_learned_iff: "is_learned by \<longleftrightarrow> by \<noteq> ByBundled"
  by (cases "by") (simp_all add: is_learned_def)

lemma latest_activity_updates [simp]:
  "latest_activity_at (r\<lparr>sl_state := s\<rparr>) = latest_activity_at r"
  "latest_activity_at (r\<lparr>sl_state := s, sl_archived_at := a\<rparr>) = latest_activity_at r"
  by (simp_all add: latest_activity_at_def)

text \<open>One row under the two statements, archiving first.\<close>

definition archive_row :: "millis \<Rightarrow> transition_config \<Rightarrow> skill_row \<Rightarrow> bool" where
  "archive_row now cfg r \<longleftrightarrow> sl_state r \<in> {SkillActive, SkillStale} \<and> \<not> sl_pinned r \<and> is_learned (sl_created_by r)
     \<and> activity_before_cutoff (now - tc_archive_after cfg) r"

definition stale_row :: "millis \<Rightarrow> transition_config \<Rightarrow> skill_row \<Rightarrow> bool" where
  "stale_row now cfg r \<longleftrightarrow> sl_state r = SkillActive \<and> \<not> sl_pinned r \<and> is_learned (sl_created_by r)
     \<and> activity_before_cutoff (now - tc_stale_after cfg) r"

definition archived_row :: "millis \<Rightarrow> skill_row \<Rightarrow> skill_row" where
  "archived_row now r = r\<lparr>sl_state := SkillArchived, sl_archived_at := Some now\<rparr>"

lemma archived_row_simps [simp]:
  "sl_state (archived_row now r) = SkillArchived" "\<not> stale_row now' cfg (archived_row now r)"
  "sl_name (archived_row now r) = sl_name r"
  by (simp_all add: archived_row_def stale_row_def)

lemma aged_cases:
  "aged now cfg r = (if archive_row now cfg r then archived_row now r
     else if stale_row now cfg r then r\<lparr>sl_state := SkillStale\<rparr> else r)"
  by (cases "sl_state r"; cases "latest_activity_at r")
    (simp_all add: aged_def archive_row_def stale_row_def archived_row_def before_cutoff_iff is_learned_iff)

lemma transitions_steps:
  "apply_automatic_transitions now cfg t =
     (let t1 = update_where (archive_row now cfg) (archived_row now) t
      in (count_where (archive_row now cfg) t + count_where (stale_row now cfg) t1,
          update_where (stale_row now cfg) (\<lambda>r. r\<lparr>sl_state := SkillStale\<rparr>) t1))"
  unfolding apply_automatic_transitions_def archive_row_def[abs_def] stale_row_def[abs_def] archived_row_def[abs_def]
  by (simp only: Let_def)

lemma aged_changes: "aged now cfg r \<noteq> r \<longleftrightarrow> archive_row now cfg r \<or> stale_row now cfg r"
proof -
  have "archived_row now r \<noteq> r" if "archive_row now cfg r"
  proof
    assume "archived_row now r = r"
    then have "sl_state r = SkillArchived" using archived_row_simps(1)[of now r] by simp
    then show False using that by (simp add: archive_row_def)
  qed
  moreover have "r\<lparr>sl_state := SkillStale\<rparr> \<noteq> r" if "stale_row now cfg r"
  proof
    assume "r\<lparr>sl_state := SkillStale\<rparr> = r"
    then have "sl_state (r\<lparr>sl_state := SkillStale\<rparr>) = sl_state r" by simp
    then show False using that by (simp add: stale_row_def)
  qed
  ultimately show ?thesis by (simp add: aged_cases)
qed

lemma transitions_aged:
  "apply_automatic_transitions now cfg t = (count_where (\<lambda>r. aged now cfg r \<noteq> r) t, map (aged now cfg) t)"
proof (induction t)
  case (Cons r t)
  then show ?case
    by (simp add: transitions_steps Let_def update_where_def count_where_def aged_changes)
      (simp add: aged_cases)
qed (simp add: transitions_steps update_where_def count_where_def)

lemma aged_activity [simp]: "latest_activity_at (aged now cfg r) = latest_activity_at r" "sl_name (aged now cfg r) = sl_name r"
  "sl_absorbed (aged now cfg r) = sl_absorbed r"
  by (simp_all add: aged_cases archived_row_def)

lemma aged_idem: "aged now cfg (aged now cfg r) = aged now cfg r"
  by (cases "archive_row now cfg r"; cases "stale_row now cfg r")
    (simp_all add: aged_cases, simp_all add: archive_row_def stale_row_def before_cutoff_iff)

text \<open>C30: the automatic transitions are the ageing of each skill by itself.  A skill that is pinned, bundled,
  archived or was never used or patched stays; any other is archived when its latest use or patch lies
  before the archive cutoff, and made stale when it was active and lies before the stale cutoff; the number
  returned is that of the skills that changed, and a second pass at the same time changes none.\<close>
theorem transitions_are_ageing:
  "apply_automatic_transitions now cfg t = (length (filter (\<lambda>r. aged now cfg r \<noteq> r) t), map (aged now cfg) t)
   \<and> apply_automatic_transitions now cfg (map (aged now cfg) t) = (0, map (aged now cfg) t)"
  by (simp add: transitions_aged count_where_def aged_idem o_def)

section \<open>The rows\<close>

datatype lifecycle_op =
    Created chars created_by millis
  | Patched chars created_by millis
  | Used "chars list" millis
  | PinSet chars bool
  | Transitions millis transition_config

fun lifecycle_step :: "lifecycle_op \<Rightarrow> skill_row list \<Rightarrow> skill_row list" where
  "lifecycle_step (Created n by t) rows = mark_created n by t rows"
| "lifecycle_step (Patched n by t) rows = bump_patch n by t rows"
| "lifecycle_step (Used ns t) rows = bump_use_many ns t rows"
| "lifecycle_step (PinSet n b) rows = snd (set_pinned n b rows)"
| "lifecycle_step (Transitions t cfg) rows = snd (apply_automatic_transitions t cfg rows)"

definition lifecycle_after :: "lifecycle_op list \<Rightarrow> skill_row list" where
  "lifecycle_after ops = fold lifecycle_step ops []"

definition row_ok :: "skill_row \<Rightarrow> bool" where
  "row_ok r \<longleftrightarrow> (sl_state r = SkillArchived \<longleftrightarrow> sl_archived_at r \<noteq> None) \<and> sl_absorbed r = None
     \<and> 0 \<le> sl_use_count r \<and> 0 \<le> sl_patch_count r \<and> sl_created_at r \<noteq> None
     \<and> (0 < sl_use_count r \<longleftrightarrow> sl_last_used r \<noteq> None) \<and> (0 < sl_patch_count r \<longleftrightarrow> sl_last_patched r \<noteq> None)
     \<and> (sl_state r \<noteq> SkillActive \<longrightarrow> latest_activity_at r \<noteq> None)"

definition rows_ok :: "skill_row list \<Rightarrow> bool" where
  "rows_ok t \<longleftrightarrow> distinct (map sl_name t) \<and> list_all row_ok t"

lemma upsert_ok:
  assumes "rows_ok t" "row_ok new" "\<And>r. row_ok r \<Longrightarrow> row_ok (f r)" "\<And>r. sl_name (f r) = sl_name r"
  shows "rows_ok (upsert_skill new f t)"
  using assms by (auto simp: rows_ok_def upsert_skill_def row_simps list_all_iff list_ex_iff set_update_where)

lemma bump_use_ok: "rows_ok t \<Longrightarrow> rows_ok (bump_use n now t)"
  unfolding bump_use_def by (rule upsert_ok) (auto simp: row_ok_def new_skill_def latest_activity_at_def split: option.splits)

lemma lifecycle_step_ok: "rows_ok t \<Longrightarrow> rows_ok (lifecycle_step op t)"
proof (induction op t rule: lifecycle_step.induct)
  case (1 n "by" now rows)
  then show ?case
    by (simp add: mark_created_def, intro upsert_ok) (auto simp: row_ok_def new_skill_def latest_activity_at_def split: option.splits)
next
  case (2 n "by" now rows)
  then show ?case
    by (simp add: bump_patch_def, intro upsert_ok) (auto simp: row_ok_def new_skill_def latest_activity_at_def split: option.splits)
next
  case (3 ns now rows)
  then show ?case by (induction ns arbitrary: rows) (simp_all add: bump_use_many_def bump_use_ok)
next
  case (4 n b rows)
  have "row_ok (r\<lparr>sl_pinned := b\<rparr>) \<longleftrightarrow> row_ok r" for r by (simp add: row_ok_def latest_activity_at_def)
  then show ?case using 4 by (auto simp: rows_ok_def set_pinned_def Let_def row_simps list_all_iff set_update_where)
next
  case (5 now cfg rows)
  have "row_ok (aged now cfg r)" if "row_ok r" for r
    using that
    by (cases "archive_row now cfg r"; cases "stale_row now cfg r")
      (simp_all add: aged_cases, simp_all add: row_ok_def archive_row_def stale_row_def archived_row_def before_cutoff_iff
        split: option.splits)
  then show ?case using 5 by (auto simp: rows_ok_def transitions_aged list_all_iff o_def)
qed

lemma lifecycle_ok: "rows_ok (lifecycle_after ops)"
proof -
  have "rows_ok (fold lifecycle_step ops t)" if "rows_ok t" for t
    using that by (induction ops arbitrary: t) (simp_all add: lifecycle_step_ok)
  then show ?thesis by (simp add: lifecycle_after_def rows_ok_def)
qed

text \<open>The rows of the lifecycle stay consistent.  After any history of creations, patches, uses, pins and
  transitions there is one row per skill; it is archived exactly when it has a time of archival; it counts
  uses and patches exactly when it has their times; a skill that is not active had been used or patched;
  and no row ever says that it was absorbed into another.\<close>
theorem lifecycle_rows_are_consistent:
  "distinct (map sl_name (lifecycle_after ops)) \<and> list_all row_ok (lifecycle_after ops)"
  using lifecycle_ok by (simp add: rows_ok_def)

text \<open>A skill that is made again keeps the time of its last use, so the next transitions archive it at once.\<close>

lemma recreated_skill_is_archived_at_once:
  "map sl_state (snd (apply_automatic_transitions (t + 1) default_transitions
     (mark_created n ByForeground t [(new_skill n ByForeground 0)\<lparr>sl_last_used := Some 0, sl_use_count := 1\<rparr>])))
   = [SkillArchived]" if "secs (90 * 86400) \<le> t"
  using that
  by (simp add: transitions_aged aged_def mark_created_def upsert_skill_def update_where_def new_skill_def
      latest_activity_at_def default_transitions_def)

section \<open>Links of retired skills\<close>

lemma drop_skills_links:
  "cd_links (fold retire_link (map (\<lambda>r. (sl_name r, None)) rs) cdb)
     = filter (\<lambda>l. lk_skill l \<notin> sl_name ` set rs) (cd_links cdb)"
  by (induction rs arbitrary: cdb) (auto simp: retire_link_def drop_skill_def delete_where_def intro: filter_cong)

lemma with_skills_live:
  "distinct (map sl_name t) \<Longrightarrow> r \<in> set t \<Longrightarrow> skill_live (with_skills t cdb) (sl_name r) \<longleftrightarrow> sl_state r \<noteq> SkillArchived"
proof -
  assume a: "distinct (map sl_name t)" "r \<in> set t"
  have "lifecycle_db_str s = ''archived'' \<longleftrightarrow> s = SkillArchived" for s by (cases s) simp_all
  moreover have "r' = r" if "r' \<in> set t" "sl_name r' = sl_name r" for r'
    using a that distinct_key_unique[of sl_name t r' r] by blast
  ultimately show ?thesis using a(2) by (auto simp: skill_live_def with_skills_def list_ex_iff)
qed

lemma archived_names_mem:
  "distinct (map sl_name t) \<Longrightarrow> r \<in> set t \<Longrightarrow> sl_name r \<in> set (archived_names t) \<longleftrightarrow> sl_state r = SkillArchived"
  using distinct_key_unique[of sl_name t] by (fastforce simp: archived_names_def)

text \<open>A skill that is archived leaves no links.  When the curator's transitions are applied to a table of
  the lifecycle, the names returned are exactly the skills archived now and not before; the cron jobs keep
  exactly their links to other skills; and the skills a run of any job gets are those it would have got
  without the cleanup, so the cleanup and the check at the start of a run agree.\<close>
theorem archived_skills_leave_no_links:
  assumes "curator_apply_transitions now cfg (lifecycle_after ops) cdb = ((changes, candidates, fresh), t', cdb')"
  shows "t' = map (aged now cfg) (lifecycle_after ops)
    \<and> set fresh = set (archived_names t') - set (archived_names (lifecycle_after ops))
    \<and> cd_links cdb' = filter (\<lambda>l. lk_skill l \<notin> set fresh) (cd_links cdb)
    \<and> list_live_for_job job (with_skills t' cdb') = list_live_for_job job (with_skills t' cdb)"
proof -
  let ?t = "lifecycle_after ops" and ?t' = "map (aged now cfg) (lifecycle_after ops)"
  let ?new = "filter (\<lambda>r. sl_state r = SkillArchived \<and> sl_name r \<notin> set (archived_names ?t)) ?t'"
  have ok: "distinct (map sl_name ?t)" "list_all row_ok ?t"
    using lifecycle_ok by (simp_all add: rows_ok_def)
  have d: "distinct (map sl_name ?t')" using ok(1) by (simp add: o_def)
  have none: "sl_absorbed r = None" if "r \<in> set ?new" for r
    using that ok(2) by (auto simp: list_all_iff row_ok_def)
  have pairs: "map (\<lambda>r. (sl_name r, sl_absorbed r)) ?new = map (\<lambda>r. (sl_name r, None)) ?new"
    using none by (simp cong: map_cong)
  have res: "t' = ?t'" "fresh = map sl_name ?new" "cdb' = fold retire_link (map (\<lambda>r. (sl_name r, None)) ?new) cdb"
  proof -
    have "curator_apply_transitions now cfg ?t cdb
        = ((count_where (\<lambda>r. aged now cfg r \<noteq> r) ?t, list_curator_candidates ?t', map fst (map (\<lambda>r. (sl_name r, None :: chars option)) ?new)),
            ?t', fold retire_link (map (\<lambda>r. (sl_name r, None)) ?new) cdb)"
      unfolding pairs[symmetric] by (simp only: curator_apply_transitions_def transitions_aged Let_def prod.case)
    with assms show "t' = ?t'" "fresh = map sl_name ?new" "cdb' = fold retire_link (map (\<lambda>r. (sl_name r, None)) ?new) cdb"
      by (simp_all only: prod.inject map_map o_def fst_conv) blast+
  qed
  have f: "set fresh = set (archived_names t') - set (archived_names ?t)"
    unfolding res by (auto simp: archived_names_def)
  have links: "cd_links cdb' = filter (\<lambda>l. lk_skill l \<notin> set fresh) (cd_links cdb)"
    unfolding res by (simp add: drop_skills_links)
  have dead: "\<not> skill_live (with_skills t' cdb) n" if m: "n \<in> set fresh" for n
  proof -
    obtain r where "r \<in> set t'" "sl_name r = n" "sl_state r = SkillArchived" using m res by auto
    then show ?thesis using with_skills_live[of t' r cdb] d res(1) by blast
  qed
  have same: "skill_live (with_skills t' cdb') n = skill_live (with_skills t' cdb) n" for n
    by (simp add: skill_live_def with_skills_def)
  have unlinked: "cd_links (with_skills t' c) = cd_links c" for c by (simp add: with_skills_def)
  have "filter (\<lambda>l. lk_job l = job \<and> skill_live (with_skills t' cdb') (lk_skill l)) (cd_links (with_skills t' cdb'))
      = filter (\<lambda>l. lk_job l = job \<and> skill_live (with_skills t' cdb) (lk_skill l)) (cd_links (with_skills t' cdb))"
    unfolding unlinked links filter_filter same using dead by (auto intro: filter_cong)
  then show ?thesis using res(1) f links by (simp add: list_live_for_job_def)
qed

lemma archived_skills_leave_no_links_witness:
  "\<exists>changes candidates t' cdb'.
     curator_apply_transitions (secs (100 * 86400)) default_transitions (lifecycle_after [Used [[114]] 0])
       \<lparr>cd_specs = [], cd_ledger = \<lparr>lg_runs = [], lg_requests = []\<rparr>, cd_links = [\<lparr>lk_job = [106], lk_skill = [114], lk_origin = ''auto''\<rparr>], cd_skills = []\<rparr>
     = ((changes, candidates, [[114]]), t', cdb') \<and> cd_links cdb' = []"
proof -
  let ?cdb = "\<lparr>cd_specs = [], cd_ledger = \<lparr>lg_runs = [], lg_requests = []\<rparr>, cd_links = [\<lparr>lk_job = [106], lk_skill = [114], lk_origin = ''auto''\<rparr>], cd_skills = []\<rparr>"
  obtain changes candidates fresh t' cdb' where run:
    "curator_apply_transitions (secs (100 * 86400)) default_transitions (lifecycle_after [Used [[114]] 0]) ?cdb
      = ((changes, candidates, fresh), t', cdb')" by (metis prod.collapse)
  then have "fresh = [[114]]"
    by (auto simp: curator_apply_transitions_def transitions_aged lifecycle_after_def bump_use_many_def bump_use_def upsert_skill_def
        new_skill_def archived_names_def aged_def latest_activity_at_def default_transitions_def)
  then show ?thesis using run archived_skills_leave_no_links[OF run] by auto
qed

section \<open>The tools\<close>

text \<open>A name that may be learned, spelled out.\<close>

definition learnable :: "installed_registry \<Rightarrow> chars \<Rightarrow> bool" where
  "learnable installed n \<longleftrightarrow> (\<exists>rest. n = text_chars ''rightx-'' @ rest \<and> rest \<noteq> []) \<and> length n \<le> 80
     \<and> list_all skill_name_byte n \<and> last n \<noteq> 45 \<and> \<not> is_known_core_skill n \<and> installed_json_marks_core installed n = Ok False"

lemma target_learnable: "validate_learning_target installed n = Ok u \<Longrightarrow> learnable installed n"
proof -
  assume v: "validate_learning_target installed n = Ok u"
  then obtain rest where r: "n = LEARNED_SKILL_PREFIX @ rest" and
    f: "length n \<le> 80" "list_all skill_name_byte n" "last n \<noteq> 45" "\<not> is_known_core_skill n" "installed_json_marks_core installed n = Ok False"
    by (auto simp: validate_learning_target_def bind_result_Inr validate_skill_name_def strip_prefix_Some split: if_splits)
  have "last LEARNED_SKILL_PREFIX = 45" by code_simp
  then have "rest \<noteq> []" using r f(3) by (cases rest) auto
  then show ?thesis using r f by (auto simp: learnable_def LEARNED_SKILL_PREFIX_def)
qed

lemma package_there: "validate_skill_package_state probe n MustExist = Ok u \<Longrightarrow> probe n = Some True"
  by (auto simp: validate_skill_package_state_def split: option.splits if_splits)

lemma learning_message_cases:
  assumes "send_learning_message ask i m reg = (res, sent)"
  shows "sent = [] \<or> (\<exists>target t. learning_invocation i reg = Ok (Foreground, target) \<and> sent = [(target, ProgressRequest i (st_token target) t)]
     \<and> t \<noteq> [] \<and> length t \<le> PROGRESS_MESSAGE_MAX_CHARS)"
proof (cases "learning_invocation i reg")
  case (Inl e)
  then show ?thesis using assms by (cases e) (auto simp: send_learning_message_def)
next
  case (Inr kt)
  obtain k target where kt: "kt = (k, target)" by fastforce
  show ?thesis
  proof (cases "validate_nonempty_message m")
    case (Inl e)
    then show ?thesis using assms Inr kt by (cases "sends_learning_messages k") (auto simp: send_learning_message_def)
  next
    case ok: (Inr u)
    then obtain raw where raw: "m = Some raw" "trim_chars raw \<noteq> []" "length (trim_chars raw) \<le> PROGRESS_MESSAGE_MAX_CHARS"
      by (auto simp: validate_nonempty_message_def Let_def split: option.splits if_splits)
    show ?thesis
    proof (cases "k = Foreground")
      case False
      then show ?thesis using assms Inr kt by (simp add: send_learning_message_def sends_learning_messages_def)
    next
      case True
      then have "sent = [(target, ProgressRequest i (st_token target) (trim_chars raw))]"
        using assms Inr kt ok \<open>m = Some raw\<close> by (simp add: send_learning_message_def sends_learning_messages_def Let_def)
      then show ?thesis using Inr kt True \<open>trim_chars raw \<noteq> []\<close> \<open>length (trim_chars raw) \<le> PROGRESS_MESSAGE_MAX_CHARS\<close> by blast
    qed
  qed
qed

lemma finish_part_cases:
  assumes "finish_success_part env p i reg later db = (answer, sent, db')"
  obtains (refused) e where "answer = LearningRefused e" "db' = db"
  | (written) kind "by" where "answer = LearningDone (status_str (lf_status p))" "learning_kind i reg = Ok kind"
      "invocation_kind_to_created_by kind = Ok by"
      "db' = db\<lparr>ld_skills := write_lifecycle (lf_status p) (lf_skill p) by (lv_lifecycle_at env) (ld_skills db)\<rparr>"
proof (cases "learning_kind i reg")
  case (Inl e)
  then show ?thesis using assms refused by (auto simp: finish_success_part_def)
next
  case (Inr kind)
  show ?thesis
  proof (cases "invocation_kind_to_created_by kind")
    case (Inl e)
    then show ?thesis using assms Inr refused by (auto simp: finish_success_part_def)
  next
    case author: (Inr b)
    obtain res msgs where m: "(if sends_learning_messages kind then send_learning_message (lv_ask env) i (lf_message p) later else (Ok (), []))
        = (res, msgs)" by fastforce
    show ?thesis
      by (cases res; cases "lv_lifecycle_ok env")
        (use assms Inr author m refused written[OF _ Inr author] in \<open>auto simp: finish_success_part_def\<close>)
  qed
qed

text \<open>The author a lesson is recorded under, and the row it leaves: a new row, or the row of the skill
  with its use and pin kept.  A creation takes the row over, an update counts a patch.\<close>

fun author_of :: "invocation_kind \<Rightarrow> created_by option" where
  "author_of Foreground = Some ByForeground"
| "author_of ProbeWriter = Some ByProbeWriter"
| "author_of Curator = Some ByCurator"
| "author_of CronRun = Some ByCron"
| "author_of BackgroundReview = None"

fun lesson_row :: "learning_status \<Rightarrow> chars \<Rightarrow> created_by \<Rightarrow> millis \<Rightarrow> skill_row option \<Rightarrow> skill_row" where
  "lesson_row LearnCreated n author now None =
     \<lparr>sl_name = n, sl_state = SkillActive, sl_pinned = False, sl_created_by = author, sl_use_count = 0, sl_patch_count = 0,
      sl_created_at = Some now, sl_last_used = None, sl_last_patched = None, sl_archived_at = None, sl_absorbed = None\<rparr>"
| "lesson_row LearnCreated n author now (Some r) =
     \<lparr>sl_name = n, sl_state = SkillActive, sl_pinned = sl_pinned r, sl_created_by = author, sl_use_count = sl_use_count r,
      sl_patch_count = sl_patch_count r, sl_created_at = Some now, sl_last_used = sl_last_used r,
      sl_last_patched = sl_last_patched r, sl_archived_at = None, sl_absorbed = None\<rparr>"
| "lesson_row _ n author now None =
     \<lparr>sl_name = n, sl_state = SkillActive, sl_pinned = False, sl_created_by = author, sl_use_count = 0, sl_patch_count = 1,
      sl_created_at = Some now, sl_last_used = None, sl_last_patched = Some now, sl_archived_at = None, sl_absorbed = None\<rparr>"
| "lesson_row _ n author now (Some r) =
     \<lparr>sl_name = n, sl_state = SkillActive, sl_pinned = sl_pinned r, sl_created_by = sl_created_by r,
      sl_use_count = sl_use_count r, sl_patch_count = sl_patch_count r + 1, sl_created_at = sl_created_at r,
      sl_last_used = sl_last_used r, sl_last_patched = Some now, sl_archived_at = None, sl_absorbed = None\<rparr>"

definition lesson_written ::
  "learning_status \<Rightarrow> chars \<Rightarrow> created_by \<Rightarrow> millis \<Rightarrow> skill_row list \<Rightarrow> skill_row list \<Rightarrow> bool" where
  "lesson_written s n author now t t' \<longleftrightarrow>
     filter (\<lambda>r. sl_name r \<noteq> n) t' = filter (\<lambda>r. sl_name r \<noteq> n) t \<and>
     filter (\<lambda>r. sl_name r = n) t' =
       (if n \<in> set (map sl_name t) then map (\<lambda>r. lesson_row s n author now (Some r)) (filter (\<lambda>r. sl_name r = n) t)
        else [lesson_row s n author now None])"

lemma upsert_rows:
  assumes "\<And>r. sl_name r = sl_name new \<Longrightarrow> f r = g r" and "\<And>r. sl_name (f r) = sl_name r"
  shows "filter (\<lambda>r. sl_name r \<noteq> sl_name new) (upsert_skill new f t) = filter (\<lambda>r. sl_name r \<noteq> sl_name new) t"
    and "filter (\<lambda>r. sl_name r = sl_name new) (upsert_skill new f t) =
      (if sl_name new \<in> set (map sl_name t) then map g (filter (\<lambda>r. sl_name r = sl_name new) t) else [new])"
proof -
  have "filter (\<lambda>r. sl_name r \<noteq> sl_name new) (update_where (\<lambda>r. sl_name r = sl_name new) f t) = filter (\<lambda>r. sl_name r \<noteq> sl_name new) t"
    by (induction t) (auto simp: update_where_def assms(2))
  moreover have "filter (\<lambda>r. sl_name r = sl_name new) (update_where (\<lambda>r. sl_name r = sl_name new) f t)
      = map g (filter (\<lambda>r. sl_name r = sl_name new) t)"
    by (induction t) (auto simp: update_where_def assms(2) simp flip: assms(1))
  ultimately show "filter (\<lambda>r. sl_name r \<noteq> sl_name new) (upsert_skill new f t) = filter (\<lambda>r. sl_name r \<noteq> sl_name new) t"
    "filter (\<lambda>r. sl_name r = sl_name new) (upsert_skill new f t) =
      (if sl_name new \<in> set (map sl_name t) then map g (filter (\<lambda>r. sl_name r = sl_name new) t) else [new])"
    by (auto simp: upsert_skill_def list_ex_iff filter_empty_conv image_iff)
qed

lemma created_written: "lesson_written LearnCreated n author now t (mark_created n author now t)"
  using upsert_rows[of "new_skill n author now"
      "\<lambda>r. r\<lparr>sl_state := SkillActive, sl_created_by := author, sl_created_at := Some now, sl_archived_at := None, sl_absorbed := None\<rparr>"
      "\<lambda>r. lesson_row LearnCreated n author now (Some r)" t]
  by (simp add: lesson_written_def mark_created_def new_skill_def)

lemma updated_written: "lesson_written LearnUpdated n author now t (bump_patch n author now t)"
  using upsert_rows[of "(new_skill n author now)\<lparr>sl_patch_count := 1, sl_last_patched := Some now\<rparr>"
      "\<lambda>r. r\<lparr>sl_state := SkillActive, sl_patch_count := sl_patch_count r + 1, sl_last_patched := Some now,
              sl_archived_at := None, sl_absorbed := None\<rparr>"
      "\<lambda>r. lesson_row LearnUpdated n author now (Some r)" t]
  by (simp add: lesson_written_def bump_patch_def new_skill_def)

lemma lifecycle_written:
  assumes "learning_success s" and "learning_kind i reg = Ok kind" and "invocation_kind_to_created_by kind = Ok author"
  shows "\<exists>iv. reg i = Some iv \<and> author_of (iv_kind iv) = Some author \<and>
    lesson_written s n author now t (write_lifecycle s n author now t)"
proof -
  have "lesson_written s n author now t (write_lifecycle s n author now t)"
    using assms(1) created_written updated_written by (cases s) (auto simp: learning_success_def write_lifecycle_def)
  moreover obtain iv where "reg i = Some iv" "iv_kind iv = kind"
    using assms(2) by (auto simp: learning_kind_def learning_invocation_def split: option.splits if_splits sum.splits)
  moreover have "author_of kind = Some author"
    using assms(3) by (cases kind) (auto simp: invocation_kind_to_created_by_def)
  ultimately show ?thesis by auto
qed

text \<open>C31: a finished lesson is recorded as it was checked.  A row of the lifecycle is written only for a name
  that may be learned, whose package the sandbox confirmed, and only by an answer of success; an answer of
  success comes with exactly one event in the journal, which holds what was reported, and, when the lesson
  succeeded, with the row of the skill under the author the kind of the registered invocation stands for: a
  creation takes the row over, an update counts one more patch at its time, and no other row changes; whatever
  the answer, nothing else of the journal changes.\<close>
theorem finished_lesson_is_recorded:
  assumes "call_skill_learning_finish env (Some p) ctx reg later db = (answer, sent, db')"
  shows "(ld_skills db' \<noteq> ld_skills db \<longrightarrow>
        learnable (lv_installed env) (lf_skill p) \<and> lv_probe env (lf_skill p) = Some True \<and> lf_status p \<in> {LearnCreated, LearnUpdated}
        \<and> (\<exists>st. answer = LearningDone st))
    \<and> (answer = LearningDone st \<longrightarrow>
        st = (case lf_status p of LearnCreated \<Rightarrow> ''created'' | LearnUpdated \<Rightarrow> ''updated'' | LearnAborted \<Rightarrow> ''aborted'' | LearnFailed \<Rightarrow> ''failed'')
        \<and> (\<exists>i. ctx = Some i
            \<and> ld_events db' = ld_events db @ [\<lparr>le_invocation = i, le_action = lf_action p, le_skill = lf_skill p,
                le_phase = PhaseFinish, le_status = Some (lf_status p), le_hint = lf_hint p, le_reason = None,
                le_message = lf_message p, le_summary = lf_summary p,
                le_refs = (case lf_refs p of Some refs \<Rightarrow> refs | None \<Rightarrow> []), le_at = lv_event_at env\<rparr>]
            \<and> (lf_status p \<in> {LearnCreated, LearnUpdated} \<longrightarrow>
                (\<exists>iv author. reg i = Some iv \<and> author_of (iv_kind iv) = Some author
                  \<and> lesson_written (lf_status p) (lf_skill p) author (lv_lifecycle_at env) (ld_skills db) (ld_skills db')))))
    \<and> (ld_events db' = ld_events db \<or> (\<exists>e. ld_events db' = ld_events db @ [e] \<and> le_skill e = lf_skill p))"
proof (cases "validate_learning_target (lv_installed env) (lf_skill p)")
  case (Inl e)
  then show ?thesis using assms by (auto simp: call_skill_learning_finish_def)
next
  case target: (Inr u)
  show ?thesis
  proof (cases "is_ok (validate_finish_receipt_message (lf_status p) (lf_message p)) \<and> ctx \<noteq> None
      \<and> is_ok (if learning_success (lf_status p) then validate_skill_package_state (lv_probe env) (lf_skill p) MustExist else Ok ())
      \<and> lv_event_ok env")
    case False
    then have "(\<exists>e. answer = LearningRefused e) \<or> answer = ServerError" "db' = db"
      using assms target
      by (auto simp: call_skill_learning_finish_def is_ok_def split: sum.splits option.splits if_splits)
    then show ?thesis by auto
  next
    case True
    then obtain i where i: "ctx = Some i" by auto
    define e where "e = \<lparr>le_invocation = i, le_action = lf_action p, le_skill = lf_skill p,
                  le_phase = PhaseFinish, le_status = Some (lf_status p), le_hint = lf_hint p, le_reason = None,
                  le_message = lf_message p, le_summary = lf_summary p, le_refs = refs_of (lf_refs p), le_at = lv_event_at env\<rparr>"
    have facts: "le_skill e = lf_skill p" "e = \<lparr>le_invocation = i, le_action = lf_action p, le_skill = lf_skill p,
                le_phase = PhaseFinish, le_status = Some (lf_status p), le_hint = lf_hint p, le_reason = None,
                le_message = lf_message p, le_summary = lf_summary p,
                le_refs = (case lf_refs p of Some refs \<Rightarrow> refs | None \<Rightarrow> []), le_at = lv_event_at env\<rparr>"
      by (simp_all add: e_def refs_of_def)
    have run: "(answer, sent, db') = (if learning_success (lf_status p) then finish_success_part env p i reg later (db\<lparr>ld_events := ld_events db @ [e]\<rparr>)
        else (LearningDone (status_str (lf_status p)), [], db\<lparr>ld_events := ld_events db @ [e]\<rparr>))"
      using assms target True i by (auto simp: call_skill_learning_finish_def is_ok_iff Let_def e_def)
    show ?thesis
    proof (cases "learning_success (lf_status p)")
      case False
      then have "lf_status p \<notin> {LearnCreated, LearnUpdated}" by (auto simp: learning_success_def)
      then show ?thesis using False run i facts by (auto simp: status_str_def)
    next
      case success: True
      then have ok: "lf_status p \<in> {LearnCreated, LearnUpdated}" by (auto simp: learning_success_def)
      from run success have part: "finish_success_part env p i reg later (db\<lparr>ld_events := ld_events db @ [e]\<rparr>) = (answer, sent, db')"
        by simp
      have checked: "learnable (lv_installed env) (lf_skill p)" "lv_probe env (lf_skill p) = Some True"
        using target True success target_learnable package_there by (auto simp: is_ok_iff)
      show ?thesis
      proof (cases rule: finish_part_cases[OF part])
        case (1 err)
        then show ?thesis using facts by auto
      next
        case (2 kind "by")
        from lifecycle_written[OF success 2(2,3), of "lf_skill p" "lv_lifecycle_at env" "ld_skills db"]
        obtain iv where "reg i = Some iv" "author_of (iv_kind iv) = Some by"
          "lesson_written (lf_status p) (lf_skill p) by (lv_lifecycle_at env) (ld_skills db) (ld_skills db')"
          using 2(4) by auto
        then show ?thesis using 2(1,4) checked ok i facts by (auto simp: status_str_def)
      qed
    qed
  qed
qed

text \<open>A foreground turn learns a skill in a sandbox that has its package.\<close>

definition sample_lesson :: learning_finish where
  "sample_lesson = \<lparr>lf_action = LearnCreate, lf_skill = text_chars ''rightx-a'', lf_status = LearnCreated,
     lf_message = Some (text_chars ''done''), lf_summary = None, lf_refs = None, lf_hint = None\<rparr>"

definition sample_learning_env :: learning_env where
  "sample_learning_env = \<lparr>lv_installed = NoRegistry, lv_probe = (\<lambda>n. Some True),
     lv_ask = (\<lambda>t r. Some \<lparr>br_ok = True, br_ids = [1], br_uncertain = False\<rparr>),
     lv_event_at = 5, lv_event_ok = True, lv_lifecycle_at = 6, lv_lifecycle_ok = True\<rparr>"

definition turn_of :: "invocation_kind \<Rightarrow> registry" where
  "turn_of k = register \<lparr>rg_id = [7], rg_kind = k, rg_target = \<lparr>st_socket = [], st_token = []\<rparr>, rg_scope = None\<rparr> Map.empty"

lemma learning_kind_turn [simp]:
  "learning_invocation [7] (turn_of k) = (if k = BackgroundReview then Err Forbidden else Ok (k, \<lparr>st_socket = [], st_token = []\<rparr>))"
  "learning_kind [7] (turn_of k) = (if k = BackgroundReview then Err ''learning_unavailable'' else Ok k)"
  by (cases k; simp add: learning_invocation_def learning_kind_def turn_of_def register_def is_learning_capable_def)+

lemma sample_checks:
  "validate_learning_target NoRegistry (text_chars ''rightx-a'') = Ok ()"
  "validate_nonempty_message (Some (text_chars ''done'')) = Ok ()"
proof -
  have "validate_skill_name (text_chars ''rightx-a'') = Ok ()" by code_simp
  moreover have "\<not> is_known_core_skill (text_chars ''rightx-a'')" by code_simp
  moreover have "strip_prefix LEARNED_SKILL_PREFIX (text_chars ''rightx-a'') \<noteq> None" by code_simp
  ultimately show "validate_learning_target NoRegistry (text_chars ''rightx-a'') = Ok ()"
    by (simp add: validate_learning_target_def ensure_def)
  have "trim_chars (text_chars ''done'') = text_chars ''done''" by code_simp
  moreover have "length (text_chars ''done'') = 4" "text_chars ''done'' \<noteq> []" by code_simp+
  ultimately show "validate_nonempty_message (Some (text_chars ''done'')) = Ok ()"
    by (simp add: validate_nonempty_message_def ensure_def PROGRESS_MESSAGE_MAX_CHARS_def)
qed

lemma sample_finish:
  "call_skill_learning_finish sample_learning_env (Some sample_lesson) (Some [7]) (turn_of k) (turn_of k) db
   = (let db1 = db\<lparr>ld_events := ld_events db @ [\<lparr>le_invocation = [7], le_action = LearnCreate, le_skill = text_chars ''rightx-a'',
        le_phase = PhaseFinish, le_status = Some LearnCreated, le_hint = None, le_reason = None,
        le_message = Some (text_chars ''done''), le_summary = None, le_refs = [], le_at = 5\<rparr>]\<rparr>
      in finish_success_part sample_learning_env sample_lesson [7] (turn_of k) (turn_of k) db1)"
  by (simp add: call_skill_learning_finish_def sample_lesson_def sample_learning_env_def sample_checks learning_success_def
      validate_finish_receipt_message_def validate_skill_package_state_def refs_of_def)

lemma finished_lesson_is_recorded_witness:
  "\<exists>sent db'. call_skill_learning_finish sample_learning_env (Some sample_lesson) (Some [7]) (turn_of Foreground) (turn_of Foreground)
       \<lparr>ld_skills = [], ld_events = []\<rparr> = (LearningDone ''created'', sent, db')
     \<and> ld_skills db' = [new_skill (text_chars ''rightx-a'') ByForeground 6]
     \<and> learnable NoRegistry (text_chars ''rightx-a'')
     \<and> lesson_written LearnCreated (text_chars ''rightx-a'') ByForeground 6 [] (ld_skills db')"
proof -
  obtain answer sent db' where run: "call_skill_learning_finish sample_learning_env (Some sample_lesson) (Some [7]) (turn_of Foreground)
      (turn_of Foreground) \<lparr>ld_skills = [], ld_events = []\<rparr> = (answer, sent, db')" using prod_cases3 by blast
  have done_: "answer = LearningDone ''created''" "ld_skills db' = [new_skill (text_chars ''rightx-a'') ByForeground 6]"
    using run[unfolded sample_finish]
    by (auto simp: finish_success_part_def invocation_kind_to_created_by_def sends_learning_messages_def
        send_learning_message_def sample_checks Let_def sample_lesson_def sample_learning_env_def status_str_def
        write_lifecycle_def mark_created_def upsert_skill_def)
  from finished_lesson_is_recorded[OF run] done_(2) have "learnable NoRegistry (text_chars ''rightx-a'')"
    by (simp add: sample_lesson_def sample_learning_env_def)
  moreover have "lesson_written LearnCreated (text_chars ''rightx-a'') ByForeground 6 [] (ld_skills db')"
    using finished_lesson_is_recorded[OF run, of "''created''"] done_(1)
    by (auto simp: sample_lesson_def sample_learning_env_def turn_of_def register_def)
  ultimately show ?thesis using run done_ by blast
qed

text \<open>The event is written before the kind of the invocation is looked at: a background review is refused, yet
  the journal holds its finish as a success.\<close>

lemma refused_finish_counts_as_success:
  "\<exists>db'. call_skill_learning_finish sample_learning_env (Some sample_lesson) (Some [7]) (turn_of BackgroundReview) (turn_of BackgroundReview) db
     = (LearningRefused ''learning_unavailable'', [], db') \<and> successful_finish_exists [7] (ld_events db') \<and> ld_skills db' = ld_skills db"
  unfolding sample_finish by (simp add: finish_success_part_def Let_def successful_finish_exists_def count_where_def finished_well_def
      learning_success_def)

text \<open>A receipt that cannot be sent leaves the new skill in the journal without a row of its lifecycle.\<close>

lemma unsent_receipt_leaves_no_row:
  "\<exists>sent db'. call_skill_learning_finish (sample_learning_env\<lparr>lv_ask := (\<lambda>t r. None)\<rparr>) (Some sample_lesson) (Some [7]) (turn_of Foreground)
       (turn_of Foreground) db = (LearningRefused ''learning_send_failed'', sent, db')
     \<and> successful_finish_exists [7] (ld_events db') \<and> ld_skills db' = ld_skills db"
  by (simp add: call_skill_learning_finish_def sample_lesson_def sample_learning_env_def sample_checks learning_success_def
      validate_finish_receipt_message_def validate_skill_package_state_def refs_of_def finish_success_part_def
      invocation_kind_to_created_by_def sends_learning_messages_def send_learning_message_def Let_def
      successful_finish_exists_def count_where_def finished_well_def)

section \<open>The pace of the curator\<close>

text \<open>A pass: its time, the latest activity of the chat it saw, and how it ended.\<close>

fun is_pass :: "curator_end \<Rightarrow> bool" where
  "is_pass Proposed = True" | "is_pass FailedEarly = True" | "is_pass (Forked ok) = True" | "is_pass _ = False"

fun is_failed_pass :: "curator_end \<Rightarrow> bool" where
  "is_failed_pass FailedEarly = True" | "is_failed_pass (Forked ok) = (\<not> ok)" | "is_failed_pass _ = False"

text \<open>A tick meets a world, reads the state the owner holds (or fails to), and its requests are carried
  out or not.  A pass is listed with whether what it wanted to store was stored.\<close>

record curator_tick =
  ct_now :: millis
  ct_world :: curator_world
  ct_carried :: "curator_request \<Rightarrow> bool"

record curator_pass =
  ps_at :: millis
  ps_activity :: "millis option"
  ps_end :: curator_end
  ps_stored :: bool

definition seen :: "curator_state \<Rightarrow> curator_world \<Rightarrow> curator_world" where
  "seen st w = w\<lparr>wc_state := map_option (\<lambda>_. st) (wc_state w)\<rparr>"

fun stores_state :: "curator_request \<Rightarrow> bool" where
  "stores_state (ApplyTransitions now cfg) = False" | "stores_state _ = True"

fun curator_passes :: "curator_config \<Rightarrow> curator_tick list \<Rightarrow> curator_state \<Rightarrow> curator_pass list" where
  "curator_passes cfg [] st = []"
| "curator_passes cfg (t # ts) st =
     (case run_if_due cfg (seen st (ct_world t)) (ct_now t) of
        (e, reqs) \<Rightarrow> (if is_pass e
           then [\<lparr>ps_at = ct_now t, ps_activity = (case wc_activity (ct_world t) of Some a \<Rightarrow> a | None \<Rightarrow> None), ps_end = e,
                  ps_stored = list_all (ct_carried t) (filter stores_state reqs)\<rparr>] else [])
          @ curator_passes cfg ts (saved_state (ct_carried t) reqs st))"

text \<open>The failures since the last success, after a pass.\<close>

definition next_failures :: "curator_end \<Rightarrow> nat \<Rightarrow> nat" where
  "next_failures e n = (if e = Forked True then 0 else if is_failed_pass e then n + 1 else n)"

text \<open>What a tick does to the state, by its end.\<close>

lemma unread_state: "wc_state w = None \<Longrightarrow> run_if_due cfg (seen st w) now = (NoState, [])"
  by (simp add: run_if_due_def seen_def)

lemma seen_state: "wc_state w \<noteq> None \<Longrightarrow> seen st w = w\<lparr>wc_state := Some st\<rparr>"
  by (auto simp: seen_def)

lemma pass_gates:
  assumes "run_if_due cfg (seen st w) now = (e, reqs)" "is_pass e"
  shows "\<exists>l a. cu_last_run st = Some l \<and> wc_activity w = Some a \<and> cheap_skip cfg st now a = None"
proof -
  have r: "run_if_due cfg (w\<lparr>wc_state := Some st\<rparr>) now = (e, reqs)"
    using assms unread_state[of w cfg st now] seen_state[of w st] by (cases "wc_state w") auto
  show ?thesis
  proof (cases "cu_last_run st = None \<or> wc_activity w = None")
    case True
    then show ?thesis using r assms(2) by (auto simp: run_if_due_def split: option.splits)
  next
    case False
    then obtain l a where "cu_last_run st = Some l" "wc_activity w = Some a" by auto
    then show ?thesis using r assms(2) by (cases "cheap_skip cfg st now a") (auto simp: run_if_due_def)
  qed
qed

lemma mark_failed_facts [simp]:
  "cu_last_run (mark_failed_run cfg now st) = Some now"
  "cu_failures (mark_failed_run cfg now st) = Suc (cu_failures st)"
  "cc_circuit_failure_threshold cfg \<le> Suc (cu_failures st)
    \<Longrightarrow> cu_open_until (mark_failed_run cfg now st) = Some (now + hours (cc_circuit_cooldown_hours cfg))"
  by (auto simp: mark_failed_run_def next_circuit_open_until_def Let_def)

text \<open>A pass stores one state, or none when its request is not carried out.\<close>

definition pass_state :: "curator_config \<Rightarrow> millis \<Rightarrow> curator_end \<Rightarrow> nat \<Rightarrow> curator_state \<Rightarrow> bool" where
  "pass_state cfg now e failures st \<longleftrightarrow> cu_last_run st = Some now \<and> cu_failures st = next_failures e failures
     \<and> (is_failed_pass e \<and> cc_circuit_failure_threshold cfg \<le> cu_failures st
          \<longrightarrow> cu_open_until st = Some (now + hours (cc_circuit_cooldown_hours cfg)))"

definition after_tick ::
  "curator_config \<Rightarrow> millis \<Rightarrow> curator_end \<Rightarrow> nat \<Rightarrow> (curator_request \<Rightarrow> bool) \<Rightarrow> curator_request list \<Rightarrow> curator_state \<Rightarrow> bool" where
  "after_tick cfg now e failures carried reqs st \<longleftrightarrow>
     (if is_pass e then (if list_all carried (filter stores_state reqs) then pass_state cfg now e failures (saved_state carried reqs st)
        else saved_state carried reqs st = st)
      else saved_state carried reqs st = st \<or> cu_last_run st = None \<and> saved_state carried reqs st = st\<lparr>cu_last_run := Some now\<rparr>)"

lemma apply_pass_state:
  assumes "run_apply_pass cfg w now trigger st = (e, reqs)"
  shows "after_tick cfg now e (cu_failures st) carried reqs st0"
proof (cases "wc_transitions w")
  case None
  then show ?thesis using assms by (auto simp: run_apply_pass_def after_tick_def)
next
  case (Some archived)
  show ?thesis
  proof (cases "wc_sandbox w \<and> wc_registered w \<and> wc_built w")
    case False
    then show ?thesis using assms Some
      by (auto simp: run_apply_pass_def next_failures_def pass_state_def after_tick_def Let_def split: if_splits)
  next
    case True
    obtain s r spend where f: "finish_pass cfg w now trigger archived st = Finalize s r spend"
      "pass_state cfg now (Forked (wc_success w)) (cu_failures st) s"
      by (cases "wc_success w"; cases "usage_triple (wc_usage w)")
        (auto simp: finish_pass_def next_failures_def pass_state_def)
    then show ?thesis using assms Some True by (auto simp: run_apply_pass_def after_tick_def Let_def)
  qed
qed

lemma tick_state:
  assumes "run_if_due cfg (seen st w) now = (e, reqs)"
  shows "after_tick cfg now e (cu_failures st) carried reqs st"
proof (cases "wc_state w")
  case None
  then show ?thesis using assms unread_state[of w cfg st now] by (auto simp: after_tick_def)
next
  case (Some old)
  have r: "run_if_due cfg (w\<lparr>wc_state := Some st\<rparr>) now = (e, reqs)" using assms seen_state[of w st] Some by simp
  show ?thesis
  proof (cases "\<exists>trigger st1 w'. (e, reqs) = run_apply_pass cfg w' now trigger st1 \<and> cu_failures st1 = cu_failures st")
    case True
    then obtain trigger st1 w' where "run_apply_pass cfg w' now trigger st1 = (e, reqs)" "cu_failures st1 = cu_failures st" by metis
    from apply_pass_state[OF this(1), of carried st] this(2) show ?thesis by simp
  next
    case False
    have applied: "run_apply_pass cfg w' now trigger (st\<lparr>cu_evidence := ev\<rparr>) \<noteq> (e, reqs)" for w' trigger ev
    proof
      assume "run_apply_pass cfg w' now trigger (st\<lparr>cu_evidence := ev\<rparr>) = (e, reqs)"
      moreover have "cu_failures (st\<lparr>cu_evidence := ev\<rparr>) = cu_failures st" by simp
      ultimately show False using False by metis
    qed
    show ?thesis
    proof (cases "cu_last_run st = None \<or> wc_activity w = None \<or> wc_changes w = None")
      case True
      then show ?thesis using r by (auto simp: run_if_due_def after_tick_def split: option.splits)
    next
      case False
      then obtain l a c where la: "cu_last_run st = Some l" "wc_activity w = Some a" "wc_changes w = Some c" by auto
      show ?thesis
      proof (cases "cheap_skip cfg st now a")
        case (Some skip)
        then show ?thesis using r la by (simp add: run_if_due_def after_tick_def) auto
      next
        case None
        show ?thesis
          using r la None applied
          by (cases "should_run_now cfg st now a (wc_spike w) c"; cases "cc_mode cfg")
            (auto simp: run_if_due_def Let_def run_report_only_pass_def next_failures_def pass_state_def after_tick_def split: if_splits)
      qed
    qed
  qed
qed

text \<open>The failures the owner knows of: a pass that was not stored changes nothing.\<close>

definition known_failures :: "curator_pass \<Rightarrow> nat \<Rightarrow> nat" where
  "known_failures p n = (if ps_stored p then next_failures (ps_end p) n else n)"

lemma passes_step:
  "curator_passes cfg ts st = p # ps \<Longrightarrow> \<exists>ts' st'. ps = curator_passes cfg ts' st'
     \<and> (ps_stored p \<longrightarrow> pass_state cfg (ps_at p) (ps_end p) (cu_failures st) st')
     \<and> (\<not> ps_stored p \<longrightarrow> cu_failures st' = cu_failures st)"
proof (induction cfg ts st rule: curator_passes.induct)
  case (2 cfg t ts st)
  obtain e reqs where r: "run_if_due cfg (seen st (ct_world t)) (ct_now t) = (e, reqs)" by fastforce
  note s = tick_state[OF r, of "ct_carried t"]
  show ?case
  proof (cases "is_pass e")
    case True
    then show ?thesis using 2 r s
      by (intro exI[of _ ts] exI[of _ "saved_state (ct_carried t) reqs st"]) (auto simp: after_tick_def)
  next
    case False
    then have "curator_passes cfg ts (saved_state (ct_carried t) reqs st) = p # ps" using 2 r by simp
    moreover have f: "cu_failures (saved_state (ct_carried t) reqs st) = cu_failures st"
      using False s by (auto simp: after_tick_def)
    ultimately show ?thesis using "2.IH"[OF r[symmetric]] unfolding f by simp
  qed
qed simp

definition idle_enough :: "curator_config \<Rightarrow> curator_pass \<Rightarrow> bool" where
  "idle_enough cfg p \<longleftrightarrow> cc_enabled cfg \<and> \<not> cc_paused cfg
     \<and> (case ps_activity p of None \<Rightarrow> True | Some a \<Rightarrow> a + hours (cc_min_idle_hours cfg) \<le> ps_at p)"

lemma first_pass:
  "curator_passes cfg ts st = p # ps \<Longrightarrow> idle_enough cfg p
     \<and> (\<forall>l. cu_last_run st = Some l \<longrightarrow> l + hours (cc_min_cooldown_hours cfg) \<le> ps_at p)
     \<and> (\<forall>u. cu_open_until st = Some u \<longrightarrow> u \<le> ps_at p)"
proof (induction cfg ts st rule: curator_passes.induct)
  case (2 cfg t ts st)
  obtain e reqs where r: "run_if_due cfg (seen st (ct_world t)) (ct_now t) = (e, reqs)" by fastforce
  show ?case
  proof (cases "is_pass e")
    case True
    obtain l a where "cu_last_run st = Some l" "wc_activity (ct_world t) = Some a" "cheap_skip cfg st (ct_now t) a = None"
      using pass_gates[OF r True] by blast
    then show ?thesis using 2 r True
      by (auto simp: cheap_skip_def idle_enough_def split: if_splits option.splits)
  next
    case False
    then have "curator_passes cfg ts (saved_state (ct_carried t) reqs st) = p # ps" using 2 r by simp
    from "2.IH"[OF r[symmetric] this] show ?thesis
      using False tick_state[OF r, of "ct_carried t"] by (auto simp: after_tick_def)
  qed
qed simp

lemma later_passes:
  "curator_passes cfg ts st = before @ rest \<Longrightarrow> \<exists>ts' st'. rest = curator_passes cfg ts' st'
     \<and> cu_failures st' = fold known_failures before (cu_failures st)"
proof (induction before arbitrary: ts st)
  case Nil
  then show ?case by (intro exI[of _ ts] exI[of _ st]) simp
next
  case (Cons x before)
  then have "curator_passes cfg ts st = x # (before @ rest)" by simp
  from passes_step[OF this] obtain ts' st' where n: "before @ rest = curator_passes cfg ts' st'"
      and f: "ps_stored x \<longrightarrow> pass_state cfg (ps_at x) (ps_end x) (cu_failures st) st'"
        "\<not> ps_stored x \<longrightarrow> cu_failures st' = cu_failures st" by blast
  have n2: "cu_failures st' = known_failures x (cu_failures st)"
    using f by (simp add: known_failures_def pass_state_def)
  from Cons.IH[OF n[symmetric]] show ?case using n2 by simp
qed

text \<open>C32: the curator keeps its pace.  Over any sequence of ticks, whatever the owner, the sandbox and the
  guest answer, no pass runs while the curator is off or paused or the chat was active within the idle time;
  after a pass whose outcome the owner stored, the next comes no earlier than the cooldown, and when that pass
  failed and completes the threshold of stored failures without a stored success between, no earlier than the
  cooldown of the circuit.  A pass whose outcome could not be stored holds back nothing (see
  \<open>unstored_pass_comes_again\<close>).\<close>
theorem curator_keeps_its_pace:
  assumes "curator_passes cfg ts st = before @ p # q # after"
  shows "idle_enough cfg p \<and> idle_enough cfg q
    \<and> (ps_stored p \<longrightarrow> ps_at p + hours (cc_min_cooldown_hours cfg) \<le> ps_at q)
    \<and> (ps_stored p \<and> is_failed_pass (ps_end p)
        \<and> cc_circuit_failure_threshold cfg \<le> fold known_failures (before @ [p]) (cu_failures st)
       \<longrightarrow> ps_at p + hours (cc_circuit_cooldown_hours cfg) \<le> ps_at q)"
proof -
  obtain ts1 st1 where p: "p # q # after = curator_passes cfg ts1 st1"
      "cu_failures st1 = fold known_failures before (cu_failures st)"
    using later_passes[OF assms] by blast
  obtain ts2 st2 where q: "q # after = curator_passes cfg ts2 st2"
      "ps_stored p \<longrightarrow> pass_state cfg (ps_at p) (ps_end p) (cu_failures st1) st2"
    using passes_step[OF p(1)[symmetric]] by blast
  show ?thesis
    using first_pass[OF p(1)[symmetric]] first_pass[OF q(1)[symmetric]] q(2) p(2)
    by (auto simp: pass_state_def known_failures_def)
qed

definition sample_curator :: curator_config where
  "sample_curator = \<lparr>cc_enabled = True, cc_paused = False, cc_interval_hours = 24, cc_min_idle_hours = 1, cc_min_cooldown_hours = 2,
     cc_stale_after_days = 30, cc_archive_after_days = 90, cc_skill_change_threshold = 5, cc_circuit_failure_threshold = 1,
     cc_circuit_cooldown_hours = 12, cc_mode = CuratorApply\<rparr>"

definition fresh_curator :: curator_state where
  "fresh_curator = \<lparr>cu_last_run = Some 0, cu_last_status = None, cu_failures = 0, cu_open_until = None, cu_evidence = None\<rparr>"

definition busy_world :: curator_world where
  "busy_world = \<lparr>wc_state = Some fresh_curator, wc_activity = Some None, wc_spike = None, wc_changes = Some 9, wc_archived_before = None,
     wc_transitions = Some [], wc_listing_ok = True, wc_sandbox = True, wc_registered = False, wc_built = True, wc_success = False,
     wc_usage = None, wc_archived_after = None\<rparr>"

definition busy_tick :: "int \<Rightarrow> bool \<Rightarrow> curator_tick" where
  "busy_tick s stored = \<lparr>ct_now = secs s, ct_world = busy_world, ct_carried = (\<lambda>_. stored)\<rparr>"

definition failed_at :: "int \<Rightarrow> bool \<Rightarrow> curator_pass" where
  "failed_at s stored = \<lparr>ps_at = secs s, ps_activity = None, ps_end = FailedEarly, ps_stored = stored\<rparr>"

lemmas busy_defs = run_if_due_def run_apply_pass_def cheap_skip_def should_run_now_def mark_failed_run_def
  next_circuit_open_until_def Let_def sample_curator_def busy_world_def fresh_curator_def busy_tick_def failed_at_def seen_def

lemma curator_keeps_its_pace_witness:
  "curator_passes sample_curator [busy_tick 7200 True, busy_tick 18000 True, busy_tick 50400 True] fresh_curator
     = [failed_at 7200 True, failed_at 50400 True]
   \<and> secs 7200 + hours 12 \<le> secs 50400"
proof
  show c: "curator_passes sample_curator [busy_tick 7200 True, busy_tick 18000 True, busy_tick 50400 True] fresh_curator
     = [failed_at 7200 True, failed_at 50400 True]"
    by (simp add: busy_defs)
  show "secs 7200 + hours 12 \<le> secs 50400"
    using curator_keeps_its_pace[of sample_curator _ fresh_curator "[]" "failed_at 7200 True" "failed_at 50400 True" "[]",
        unfolded append_Nil, OF c]
    by (simp add: known_failures_def next_failures_def sample_curator_def failed_at_def)
qed

text \<open>A pass whose outcome could not be stored is only logged: the next tick runs a pass again, a minute later,
  inside the cooldown and with the circuit closed.\<close>

lemma unstored_pass_comes_again:
  "curator_passes sample_curator [busy_tick 7200 False, busy_tick 7260 False] fresh_curator
     = [failed_at 7200 False, failed_at 7260 False]"
  by (simp add: busy_defs)

text \<open>A pass that finds no sandbox leaves no trace in the state, so it comes again with every tick.\<close>

lemma missing_sandbox_is_not_counted:
  assumes "run_if_due cfg (seen st w) now = (NoSandbox, reqs)"
  shows "saved_state carried reqs st = st"
proof -
  have "saved_state carried reqs st = st \<or> cu_last_run st = None"
    using tick_state[OF assms, of carried] by (auto simp: after_tick_def)
  moreover have "cu_last_run st \<noteq> None"
    using assms by (auto simp: run_if_due_def seen_def split: option.splits)
  ultimately show ?thesis by blast
qed

end
