(* ===== verification/Faults.thy ===== *)
theory Faults
  imports Text
begin

text \<open>
  Procedures that the machine can interrupt.  A procedure is a chain of primitive actions on files and
  tables; a script says what happens to each action in turn: it works, it fails before or after it took
  effect, or the process dies before or after it.  What holds at the end of a procedure under every script
  is computed by the rules below, backwards through the chain.
\<close>

datatype fault = FaultNone | FailBefore | FailAfter | CrashBefore | CrashAfter

datatype ('e, 'a) ending = Returned "'e + 'a" | Died

type_synonym ('w, 'e, 'a) proc = "'w \<times> fault list \<Rightarrow> ('e, 'a) ending \<times> 'w \<times> fault list"

definition pdone :: "'a \<Rightarrow> ('w, 'e, 'a) proc" where
  "pdone x = (\<lambda>(w, fs). (Returned (Ok x), w, fs))"

definition pfail :: "'e \<Rightarrow> ('w, 'e, 'a) proc" where
  "pfail e = (\<lambda>(w, fs). (Returned (Err e), w, fs))"

definition plook :: "('w \<Rightarrow> 'a) \<Rightarrow> ('w, 'e, 'a) proc" where
  "plook f = (\<lambda>(w, fs). (Returned (Ok (f w)), w, fs))"

text \<open>One action: \<open>f\<close> is its result and effect when it is carried out, \<open>e\<close> the error of a failure of the
  machine.  An empty script goes on without faults.\<close>

definition paction :: "'e \<Rightarrow> ('w \<Rightarrow> ('e + 'a) \<times> 'w) \<Rightarrow> ('w, 'e, 'a) proc" where
  "paction e f = (\<lambda>(w, fs).
     (case (if fs = [] then FaultNone else hd fs) of
        FaultNone \<Rightarrow> (Returned (fst (f w)), snd (f w), tl fs)
      | FailBefore \<Rightarrow> (Returned (Err e), w, tl fs)
      | FailAfter \<Rightarrow> (Returned (Err e), snd (f w), tl fs)
      | CrashBefore \<Rightarrow> (Died, w, tl fs)
      | CrashAfter \<Rightarrow> (Died, snd (f w), tl fs)))"

definition pbind :: "('w, 'e, 'a) proc \<Rightarrow> ('a \<Rightarrow> ('w, 'e, 'b) proc) \<Rightarrow> ('w, 'e, 'b) proc" where
  "pbind m k = (\<lambda>s. case m s of
       (Returned (Inr x), s') \<Rightarrow> k x s'
     | (Returned (Inl e), s') \<Rightarrow> (Returned (Err e), s')
     | (Died, s') \<Rightarrow> (Died, s'))"

definition pcatch :: "('w, 'e, 'a) proc \<Rightarrow> ('e \<Rightarrow> ('w, 'e, 'a) proc) \<Rightarrow> ('w, 'e, 'a) proc" where
  "pcatch m h = (\<lambda>s. case m s of
       (Returned (Inl e), s') \<Rightarrow> h e s'
     | (r, s') \<Rightarrow> (r, s'))"

abbreviation pthen :: "('w, 'e, 'a) proc \<Rightarrow> ('w, 'e, 'b) proc \<Rightarrow> ('w, 'e, 'b) proc" where
  "pthen m n \<equiv> pbind m (\<lambda>_. n)"

text \<open>A procedure on a part of the state.\<close>

definition pzoom :: "('w \<Rightarrow> 'v) \<Rightarrow> ('v \<Rightarrow> 'w \<Rightarrow> 'w) \<Rightarrow> ('v, 'e, 'a) proc \<Rightarrow> ('w, 'e, 'a) proc" where
  "pzoom g p m = (\<lambda>(w, fs). case m (g w, fs) of (r, v, fs') \<Rightarrow> (r, p v w, fs'))"

section \<open>Under every script\<close>

definition ends :: "('w, 'e, 'a) proc \<Rightarrow> 'w \<Rightarrow> (('e, 'a) ending \<Rightarrow> 'w \<Rightarrow> bool) \<Rightarrow> bool" where
  "ends m w Q = (\<forall>fs. Q (fst (m (w, fs))) (fst (snd (m (w, fs)))))"

lemma ends_pdone [simp]: "ends (pdone x) w Q = Q (Returned (Ok x)) w"
  by (simp add: ends_def pdone_def)

lemma ends_pfail [simp]: "ends (pfail e) w Q = Q (Returned (Err e)) w"
  by (simp add: ends_def pfail_def)

lemma ends_plook [simp]: "ends (plook f) w Q = Q (Returned (Ok (f w))) w"
  by (simp add: ends_def plook_def)

lemma ends_paction [simp]:
  "ends (paction e f) w Q \<longleftrightarrow>
     Q (Returned (fst (f w))) (snd (f w)) \<and> Q (Returned (Err e)) w \<and> Q (Returned (Err e)) (snd (f w))
     \<and> Q Died w \<and> Q Died (snd (f w))" (is "?l = ?r")
proof
  assume l: ?l
  have "Q (fst (paction e f (w, [x]))) (fst (snd (paction e f (w, [x]))))" for x
    using l unfolding ends_def by blast
  from this[of FaultNone] this[of FailBefore] this[of FailAfter] this[of CrashBefore] this[of CrashAfter]
  show ?r by (simp add: paction_def)
next
  assume r: ?r
  show ?l unfolding ends_def
  proof
    fix fs
    show "Q (fst (paction e f (w, fs))) (fst (snd (paction e f (w, fs))))"
      using r by (cases "if fs = [] then FaultNone else hd fs") (simp_all add: paction_def)
  qed
qed

lemma ends_pbind:
  "ends m w (\<lambda>r w'. case r of Returned (Inr x) \<Rightarrow> ends (k x) w' Q | Returned (Inl e) \<Rightarrow> Q (Returned (Err e)) w'
                    | Died \<Rightarrow> Q Died w') \<Longrightarrow> ends (pbind m k) w Q"
  unfolding ends_def pbind_def
proof
  fix fs
  assume a: "\<forall>fs. case fst (m (w, fs)) of
      Returned (Inr x) \<Rightarrow> \<forall>fsa. Q (fst (k x (fst (snd (m (w, fs))), fsa))) (fst (snd (k x (fst (snd (m (w, fs))), fsa))))
    | Returned (Inl e) \<Rightarrow> Q (Returned (Err e)) (fst (snd (m (w, fs)))) | Died \<Rightarrow> Q Died (fst (snd (m (w, fs))))"
  obtain r w' fs' where m: "m (w, fs) = (r, w', fs')" by (metis prod.collapse)
  show "Q (fst (case m (w, fs) of (Returned (Inr x), s') \<Rightarrow> k x s' | (Returned (Inl e), s') \<Rightarrow> (Returned (Err e), s') | (Died, s') \<Rightarrow> (Died, s')))
        (fst (snd (case m (w, fs) of (Returned (Inr x), s') \<Rightarrow> k x s' | (Returned (Inl e), s') \<Rightarrow> (Returned (Err e), s') | (Died, s') \<Rightarrow> (Died, s'))))"
    using a[rule_format, of fs] m by (cases r) (auto split: sum.splits)
qed

lemma ends_pcatch:
  "ends m w (\<lambda>r w'. case r of Returned (Inl e) \<Rightarrow> ends (h e) w' Q | Returned (Inr x) \<Rightarrow> Q (Returned (Ok x)) w'
                    | Died \<Rightarrow> Q Died w') \<Longrightarrow> ends (pcatch m h) w Q"
  unfolding ends_def pcatch_def
proof
  fix fs
  assume a: "\<forall>fs. case fst (m (w, fs)) of
      Returned (Inl e) \<Rightarrow> \<forall>fsa. Q (fst (h e (fst (snd (m (w, fs))), fsa))) (fst (snd (h e (fst (snd (m (w, fs))), fsa))))
    | Returned (Inr x) \<Rightarrow> Q (Returned (Ok x)) (fst (snd (m (w, fs)))) | Died \<Rightarrow> Q Died (fst (snd (m (w, fs))))"
  obtain r w' fs' where m: "m (w, fs) = (r, w', fs')" by (metis prod.collapse)
  show "Q (fst (case m (w, fs) of (Returned (Inl e), s') \<Rightarrow> h e s' | (r, s') \<Rightarrow> (r, s')))
        (fst (snd (case m (w, fs) of (Returned (Inl e), s') \<Rightarrow> h e s' | (r, s') \<Rightarrow> (r, s'))))"
  proof (cases r)
    case (Returned x)
    then show ?thesis using spec[OF a, of fs] m by (cases x) simp_all
  next
    case Died
    then show ?thesis using spec[OF a, of fs] m by simp
  qed
qed

lemma ends_pzoom: "ends m (g w) (\<lambda>r v. Q r (p v w)) \<Longrightarrow> ends (pzoom g p m) w Q"
  unfolding ends_def pzoom_def by (auto split: prod.splits) (metis fst_conv snd_conv)

lemma ends_mono: "ends m w Q \<Longrightarrow> (\<And>r w'. Q r w' \<Longrightarrow> R r w') \<Longrightarrow> ends m w R"
  by (simp add: ends_def)

lemma endsD: "ends m w Q \<Longrightarrow> m (w, fs) = (r, w', fs') \<Longrightarrow> Q r w'"
  unfolding ends_def by (metis fst_conv snd_conv)

lemma ends_conj: "ends m w Q \<Longrightarrow> ends m w R \<Longrightarrow> ends m w (\<lambda>r w'. Q r w' \<and> R r w')"
  by (simp add: ends_def)

text \<open>An action that keeps a property keeps it whatever happens to it.\<close>

definition keeps :: "('w \<Rightarrow> bool) \<Rightarrow> ('w, 'e, 'a) proc \<Rightarrow> bool" where
  "keeps P m = (\<forall>w. P w \<longrightarrow> ends m w (\<lambda>r w'. P w'))"

lemma keepsD: "keeps P m \<Longrightarrow> P w \<Longrightarrow> ends m w (\<lambda>r w'. P w')"
  by (simp add: keeps_def)

lemma keeps_basic [simp]: "keeps P (pdone x)" "keeps P (pfail e)" "keeps P (plook f)"
  by (simp_all add: keeps_def)

lemma keeps_paction: "(\<And>w. P w \<Longrightarrow> P (snd (f w))) \<Longrightarrow> keeps P (paction e f)"
  by (simp add: keeps_def)

lemma keeps_pbind: "keeps P m \<Longrightarrow> (\<And>x. keeps P (k x)) \<Longrightarrow> keeps P (pbind m k)"
  unfolding keeps_def
proof (intro allI impI)
  fix w
  assume m: "\<forall>w. P w \<longrightarrow> ends m w (\<lambda>r w'. P w')" and k: "\<And>x. \<forall>w. P w \<longrightarrow> ends (k x) w (\<lambda>r w'. P w')" and w: "P w"
  show "ends (pbind m k) w (\<lambda>r w'. P w')"
    by (rule ends_pbind, rule ends_mono[OF m[rule_format, OF w]]) (use k in \<open>auto split: ending.splits sum.splits\<close>)
qed

lemma keeps_pcatch: "keeps P m \<Longrightarrow> (\<And>e. keeps P (h e)) \<Longrightarrow> keeps P (pcatch m h)"
  unfolding keeps_def
proof (intro allI impI)
  fix w
  assume m: "\<forall>w. P w \<longrightarrow> ends m w (\<lambda>r w'. P w')" and h: "\<And>e. \<forall>w. P w \<longrightarrow> ends (h e) w (\<lambda>r w'. P w')" and w: "P w"
  show "ends (pcatch m h) w (\<lambda>r w'. P w')"
    by (rule ends_pcatch, rule ends_mono[OF m[rule_format, OF w]]) (use h in \<open>auto split: ending.splits sum.splits\<close>)
qed

lemma keeps_pzoom: "(\<And>w. P w \<Longrightarrow> ends m (g w) (\<lambda>r v. P (p v w))) \<Longrightarrow> keeps P (pzoom g p m)"
  unfolding keeps_def by (auto intro: ends_pzoom)

section \<open>Without faults\<close>

lemma no_faults [simp]:
  "pdone x (w, []) = (Returned (Ok x), w, [])" "pfail e (w, []) = (Returned (Err e), w, [])"
  "plook g (w, []) = (Returned (Ok (g w)), w, [])" "paction e f (w, []) = (Returned (fst (f w)), snd (f w), [])"
  by (simp_all add: pdone_def pfail_def plook_def paction_def)

lemma pbind_run:
  "m s = (Returned (Inr x), s') \<Longrightarrow> pbind m k s = k x s'"
  "m s = (Returned (Inl e), s') \<Longrightarrow> pbind m k s = (Returned (Err e), s')"
  "m s = (Died, s') \<Longrightarrow> pbind m k s = (Died, s')"
  by (simp_all add: pbind_def)

lemma pcatch_run:
  "m s = (Returned (Inr x), s') \<Longrightarrow> pcatch m h s = (Returned (Ok x), s')"
  "m s = (Returned (Inl e), s') \<Longrightarrow> pcatch m h s = h e s'"
  "m s = (Died, s') \<Longrightarrow> pcatch m h s = (Died, s')"
  by (simp_all add: pcatch_def)

lemma pzoom_run: "m (g w, fs) = (r, v, fs') \<Longrightarrow> pzoom g p m (w, fs) = (r, p v w, fs')"
  by (simp add: pzoom_def)

end
