(* ===== verification/Identity_Mirror.thy ===== *)
theory Identity_Mirror
  imports Faults
begin

text \<open>
  The host copy of the identity files an agent keeps in its sandbox: \<^verbatim>\<open>right-agent/src/identity_mirror.rs\<close>.
  The files are staged in a directory of their own and then published by renames, with a rollback of
  what was published when a step fails.
\<close>

datatype mirror_entry = RegularFile chars | OtherEntry

record mirror_fs =
  mf_dest :: "string \<Rightarrow> mirror_entry option"
  mf_staged :: "string \<Rightarrow> chars option"
  mf_backup :: "string \<Rightarrow> chars option"

datatype mirror_error =
    MirrorIo
  | CopyFailed "string list"
  | NotRegular string
  | PublishFailed "string list"
  | CleanupFailed "string list"

type_synonym 'a mirror_proc = "(mirror_fs, mirror_error, 'a) proc"

definition IDENTITY_FILES :: "string list" where
  "IDENTITY_FILES = [''IDENTITY.md'', ''SOUL.md'', ''USER.md'']"

definition host_identity_mirror_complete :: "mirror_fs \<Rightarrow> bool" where
  "host_identity_mirror_complete m = list_all (\<lambda>n. mf_dest m n \<noteq> None) IDENTITY_FILES"

section \<open>Steps\<close>

text \<open>An error that does not end the procedure is collected under the name of its file.\<close>

definition collect :: "string \<Rightarrow> unit mirror_proc \<Rightarrow> string list mirror_proc" where
  "collect n m = pcatch (pthen m (pdone [])) (\<lambda>e. pdone [n])"

definition copy_one :: "(string \<Rightarrow> chars option) \<Rightarrow> string \<Rightarrow> unit mirror_proc" where
  "copy_one guest n = paction MirrorIo (\<lambda>m. case guest n of
       None \<Rightarrow> (Err MirrorIo, m)
     | Some c \<Rightarrow> (Ok (), m\<lparr>mf_staged := (mf_staged m)(n := Some c)\<rparr>))"

definition stat_one :: "string \<Rightarrow> bool mirror_proc" where
  "stat_one n = paction MirrorIo (\<lambda>m. (case mf_dest m n of
       None \<Rightarrow> Ok False | Some (RegularFile c) \<Rightarrow> Ok True | Some OtherEntry \<Rightarrow> Err (NotRegular n), m))"

definition backup_one :: "string \<Rightarrow> unit mirror_proc" where
  "backup_one n = paction MirrorIo (\<lambda>m. case mf_dest m n of
       Some (RegularFile c) \<Rightarrow> (Ok (), m\<lparr>mf_dest := (mf_dest m)(n := None), mf_backup := (mf_backup m)(n := Some c)\<rparr>)
     | _ \<Rightarrow> (Err MirrorIo, m))"

definition publish_one :: "string \<Rightarrow> unit mirror_proc" where
  "publish_one n = paction MirrorIo (\<lambda>m. case mf_staged m n of
       Some c \<Rightarrow> (Ok (), m\<lparr>mf_dest := (mf_dest m)(n := Some (RegularFile c)), mf_staged := (mf_staged m)(n := None)\<rparr>)
     | None \<Rightarrow> (Err MirrorIo, m))"

definition remove_one :: "string \<Rightarrow> unit mirror_proc" where
  "remove_one n = paction MirrorIo (\<lambda>m. case mf_dest m n of
       Some (RegularFile c) \<Rightarrow> (Ok (), m\<lparr>mf_dest := (mf_dest m)(n := None)\<rparr>) | _ \<Rightarrow> (Err MirrorIo, m))"

definition restore_one :: "string \<Rightarrow> unit mirror_proc" where
  "restore_one n = paction MirrorIo (\<lambda>m. case mf_backup m n of
       Some c \<Rightarrow> (Ok (), m\<lparr>mf_dest := (mf_dest m)(n := Some (RegularFile c)), mf_backup := (mf_backup m)(n := None)\<rparr>)
     | None \<Rightarrow> (Err MirrorIo, m))"

definition drop_backup :: "string \<Rightarrow> unit mirror_proc" where
  "drop_backup n = paction MirrorIo (\<lambda>m. case mf_backup m n of
       Some c \<Rightarrow> (Ok (), m\<lparr>mf_backup := (mf_backup m)(n := None)\<rparr>) | None \<Rightarrow> (Err MirrorIo, m))"

section \<open>Publishing\<close>

text \<open>A file of the list: its name, whether the old file was moved to a backup, whether the new one is in
  place.\<close>

type_synonym published_file = "string \<times> bool \<times> bool"

fun plan_files :: "string list \<Rightarrow> (string \<times> bool) list mirror_proc" where
  "plan_files [] = pdone []"
| "plan_files (n # ns) = pbind (stat_one n) (\<lambda>b. pbind (plan_files ns) (\<lambda>ps. pdone ((n, b) # ps)))"

fun rollback_files :: "published_file list \<Rightarrow> string list mirror_proc" where
  "rollback_files [] = pdone []"
| "rollback_files ((n, b, p) # fs) =
     pbind (if p then collect n (remove_one n) else pdone []) (\<lambda>e1.
     pbind (if b then collect n (restore_one n) else pdone []) (\<lambda>e2.
     pbind (rollback_files fs) (\<lambda>e3. pdone (e1 @ e2 @ e3))))"

definition publish_error :: "published_file list \<Rightarrow> unit mirror_proc" where
  "publish_error fs = pbind (rollback_files (rev fs)) (\<lambda>errs. pfail (PublishFailed errs))"

fun cleanup_backups :: "published_file list \<Rightarrow> string list mirror_proc" where
  "cleanup_backups [] = pdone []"
| "cleanup_backups ((n, b, p) # fs) =
     pbind (if b then collect n (drop_backup n) else pdone []) (\<lambda>e1.
     pbind (cleanup_backups fs) (\<lambda>e2. pdone (e1 @ e2)))"

definition cleanup_published :: "published_file list \<Rightarrow> unit mirror_proc" where
  "cleanup_published fs = pbind (cleanup_backups fs) (\<lambda>errs. if errs = [] then pdone () else pfail (CleanupFailed errs))"

fun publish_files :: "(string \<times> bool) list \<Rightarrow> published_file list \<Rightarrow> unit mirror_proc" where
  "publish_files [] files = cleanup_published files"
| "publish_files ((n, b) # ps) files =
     pthen (if b then pcatch (backup_one n) (\<lambda>e. publish_error files) else pdone ())
     (pthen (pcatch (publish_one n) (\<lambda>e. publish_error (files @ [(n, b, False)])))
     (publish_files ps (files @ [(n, b, True)])))"

definition publish_staged_identity_mirror :: "unit mirror_proc" where
  "publish_staged_identity_mirror = pbind (plan_files IDENTITY_FILES) (\<lambda>ps. publish_files ps [])"

fun copy_staged :: "(string \<Rightarrow> chars option) \<Rightarrow> string list \<Rightarrow> string list mirror_proc" where
  "copy_staged guest [] = pdone []"
| "copy_staged guest (n # ns) = pbind (collect n (copy_one guest n)) (\<lambda>e1. pbind (copy_staged guest ns) (\<lambda>e2. pdone (e1 @ e2)))"

text \<open>The staging directory is new for each run.\<close>

definition sync_identity_mirror_from_sandbox :: "(string \<Rightarrow> chars option) \<Rightarrow> unit mirror_proc" where
  "sync_identity_mirror_from_sandbox guest =
     pthen (paction MirrorIo (\<lambda>m. (Ok (), m\<lparr>mf_staged := \<lambda>_. None, mf_backup := \<lambda>_. None\<rparr>)))
     (pbind (copy_staged guest IDENTITY_FILES) (\<lambda>errs.
        if errs \<noteq> [] then pfail (CopyFailed errs) else publish_staged_identity_mirror))"

section \<open>One failure\<close>

text \<open>Scripts with at most one failure, of an action that took no effect.\<close>

definition one_failure :: "fault list \<Rightarrow> bool" where
  "one_failure fs = (fs = [] \<or> (\<exists>k. fs = replicate k FaultNone @ [FailBefore]))"

lemma one_failure_Nil [simp]: "one_failure []"
  by (simp add: one_failure_def)

lemma one_failure_action:
  assumes "one_failure fs"
  obtains "paction e f (w, fs) = (Returned (fst (f w)), snd (f w), tl fs)" "one_failure (tl fs)"
  | "paction e f (w, fs) = (Returned (Err e), w, [])" "fs \<noteq> []"
proof (cases fs)
  case Nil
  then show ?thesis using that(1) by (simp add: paction_def)
next
  case (Cons x xs)
  then obtain k where k: "fs = replicate k FaultNone @ [FailBefore]" using assms by (auto simp: one_failure_def)
  show ?thesis
  proof (cases k)
    case 0
    then show ?thesis using that(2) k by (simp add: paction_def)
  next
    case (Suc k')
    then have "one_failure (tl fs)" using k by (auto simp: one_failure_def)
    then show ?thesis using that(1) k Suc by (simp add: paction_def)
  qed
qed

text \<open>What a rollback can undo: files in place have their old content in the backup, where there was one,
  and nothing else changed.\<close>

definition undoable :: "(string \<Rightarrow> mirror_entry option) \<Rightarrow> published_file list \<Rightarrow> mirror_fs \<Rightarrow> bool" where
  "undoable old files m =
     ((\<forall>(n, b, p) \<in> set files.
         (if p then (\<exists>c. mf_dest m n = Some (RegularFile c)) else mf_dest m n = None)
         \<and> (if b then (\<exists>c. old n = Some (RegularFile c) \<and> mf_backup m n = Some c) else old n = None))
      \<and> (\<forall>n. n \<notin> fst ` set files \<longrightarrow> mf_dest m n = old n))"

lemma remove_one_run: "mf_dest m n = Some (RegularFile c) \<Longrightarrow>
    collect n (remove_one n) (m, []) = (Returned (Ok []), m\<lparr>mf_dest := (mf_dest m)(n := None)\<rparr>, [])"
  by (simp add: collect_def remove_one_def pcatch_run pbind_run)

lemma restore_one_run: "mf_backup m n = Some c \<Longrightarrow>
    collect n (restore_one n) (m, []) = (Returned (Ok []),
      m\<lparr>mf_dest := (mf_dest m)(n := Some (RegularFile c)), mf_backup := (mf_backup m)(n := None)\<rparr>, [])"
  by (simp add: collect_def restore_one_def pcatch_run pbind_run)

lemma rollback_restores:
  "distinct (map fst files) \<Longrightarrow> undoable old files m \<Longrightarrow>
   \<exists>m'. rollback_files (rev files) (m, []) = (Returned (Ok []), m', []) \<and> mf_dest m' = old"
proof (induction files arbitrary: m rule: rev_induct)
  case Nil
  then show ?case by (auto simp: undoable_def)
next
  case (snoc x files)
  obtain n b p where x: "x = (n, b, p)" by (cases x)
  define m1 where "m1 = (if p then m\<lparr>mf_dest := (mf_dest m)(n := None)\<rparr> else m)"
  have n: "(if p then (\<exists>c. mf_dest m n = Some (RegularFile c)) else mf_dest m n = None)"
    "(if b then (\<exists>c. old n = Some (RegularFile c) \<and> mf_backup m n = Some c) else old n = None)"
    using snoc.prems(2) by (simp_all add: undoable_def x)
  have r1: "(if p then collect n (remove_one n) else pdone []) (m, []) = (Returned (Ok []), m1, [])"
    using n(1) by (auto simp: m1_def remove_one_run)
  have m1: "mf_dest m1 n = None" "mf_backup m1 = mf_backup m" "\<And>k. k \<noteq> n \<Longrightarrow> mf_dest m1 k = mf_dest m k"
    using n(1) by (auto simp: m1_def)
  define m2 where "m2 = (if b then m1\<lparr>mf_dest := (mf_dest m1)(n := old n), mf_backup := (mf_backup m1)(n := None)\<rparr> else m1)"
  have r2: "(if b then collect n (restore_one n) else pdone []) (m1, []) = (Returned (Ok []), m2, [])"
    using n(2) m1(2) by (auto simp: m2_def restore_one_run split: if_splits)
  have fresh: "n \<notin> fst ` set files" using snoc.prems(1) x by auto
  have "undoable old files m2"
    unfolding undoable_def
  proof (intro conjI ballI allI impI)
    fix y assume y: "y \<in> set files"
    obtain k c q where k: "y = (k, c, q)" by (cases y)
    have "k \<noteq> n" using y k fresh by force
    then have "mf_dest m2 k = mf_dest m k" "mf_backup m2 k = mf_backup m k" using m1 by (auto simp: m2_def)
    then show "case y of (n, b, p) \<Rightarrow>
         (if p then (\<exists>c. mf_dest m2 n = Some (RegularFile c)) else mf_dest m2 n = None)
         \<and> (if b then (\<exists>c. old n = Some (RegularFile c) \<and> mf_backup m2 n = Some c) else old n = None)"
      using snoc.prems(2) y k by (auto simp: undoable_def)
  next
    fix k assume k: "k \<notin> fst ` set files"
    show "mf_dest m2 k = old k"
    proof (cases "k = n")
      case True
      then show ?thesis using n(2) m1(1) by (auto simp: m2_def split: if_splits)
    next
      case False
      then have "mf_dest m k = old k" using snoc.prems(2) k by (simp add: undoable_def x)
      then show ?thesis using False m1(3) by (simp add: m2_def)
    qed
  qed
  then obtain m' where m': "rollback_files (rev files) (m2, []) = (Returned (Ok []), m', [])" "mf_dest m' = old"
    using snoc.IH snoc.prems(1) by auto
  have "rollback_files (rev (files @ [x])) (m, []) = (Returned (Ok []), m', [])"
    using r1 r2 m'(1) by (simp add: x pbind_run)
  then show ?case using m'(2) by blast
qed


section \<open>All or nothing\<close>

text \<open>The mirror as it is when every file of \<open>ns\<close> was published from \<open>staged\<close>.\<close>

definition all_published :: "(string \<Rightarrow> mirror_entry option) \<Rightarrow> (string \<Rightarrow> chars option) \<Rightarrow> string set \<Rightarrow> (string \<Rightarrow> mirror_entry option)" where
  "all_published old staged ns = (\<lambda>n. if n \<in> ns then map_option RegularFile (staged n) else old n)"

definition all_or_nothing :: "(string \<Rightarrow> mirror_entry option) \<Rightarrow> (string \<Rightarrow> mirror_entry option) \<Rightarrow> (mirror_error, unit) ending \<Rightarrow> mirror_fs \<Rightarrow> bool" where
  "all_or_nothing old new r m =
     (case r of
        Returned (Inr _) \<Rightarrow> mf_dest m = new
      | Returned (Inl (CleanupFailed _)) \<Rightarrow> mf_dest m = new
      | Returned (Inl _) \<Rightarrow> mf_dest m = old
      | Died \<Rightarrow> False)"

lemma drop_backup_run:
  assumes "one_failure fs" and "mf_backup m n \<noteq> None"
  obtains e1 m1 fs1 where "collect n (drop_backup n) (m, fs) = (Returned (Ok e1), m1, fs1)" "mf_dest m1 = mf_dest m"
    "one_failure fs1" "\<And>k. k \<noteq> n \<Longrightarrow> mf_backup m1 k = mf_backup m k" "fs = [] \<Longrightarrow> e1 = [] \<and> fs1 = []"
proof -
  let ?f = "\<lambda>m. case mf_backup m n of
     Some c \<Rightarrow> (Ok (), m\<lparr>mf_backup := (mf_backup m)(n := None)\<rparr>) | None \<Rightarrow> (Err MirrorIo, m)"
  obtain c where c: "mf_backup m n = Some c" using assms(2) by blast
  show ?thesis
  proof (rule one_failure_action[OF assms(1), of MirrorIo ?f m])
    assume "paction MirrorIo ?f (m, fs) = (Returned (fst (?f m)), snd (?f m), tl fs)" and tl: "one_failure (tl fs)"
    then have "collect n (drop_backup n) (m, fs) = (Returned (Ok []), m\<lparr>mf_backup := (mf_backup m)(n := None)\<rparr>, tl fs)"
      using c by (simp add: collect_def drop_backup_def pcatch_run pbind_run pdone_def)
    then show ?thesis using that tl by force
  next
    assume "paction MirrorIo ?f (m, fs) = (Returned (Err MirrorIo), m, [])" and fs: "fs \<noteq> []"
    then have "collect n (drop_backup n) (m, fs) = (Returned (Ok [n]), m, [])"
      by (simp add: collect_def drop_backup_def pcatch_run pbind_run)
    then show ?thesis using that fs by simp
  qed
qed

lemma cleanup_keeps_dest:
  assumes "one_failure fs" and "distinct (map fst files)" and "\<forall>(n, b, p) \<in> set files. b \<longrightarrow> mf_backup m n \<noteq> None"
  shows "\<exists>errs m' fs'. cleanup_backups files (m, fs) = (Returned (Ok errs), m', fs') \<and> mf_dest m' = mf_dest m
    \<and> (fs = [] \<longrightarrow> errs = [] \<and> fs' = [])"
  using assms
proof (induction files arbitrary: m fs)
  case (Cons x files)
  obtain n b p where x: "x = (n, b, p)" by (cases x)
  obtain e1 m1 fs1 where a: "(if b then collect n (drop_backup n) else pdone []) (m, fs) = (Returned (Ok e1), m1, fs1)"
    "mf_dest m1 = mf_dest m" "one_failure fs1" "\<And>k. k \<noteq> n \<Longrightarrow> mf_backup m1 k = mf_backup m k" "fs = [] \<Longrightarrow> e1 = [] \<and> fs1 = []"
  proof (cases b)
    case True
    then have "mf_backup m n \<noteq> None" using Cons.prems(3) x by simp
    then obtain e1 m1 fs1 where "collect n (drop_backup n) (m, fs) = (Returned (Ok e1), m1, fs1)" "mf_dest m1 = mf_dest m"
      "one_failure fs1" "\<And>k. k \<noteq> n \<Longrightarrow> mf_backup m1 k = mf_backup m k" "fs = [] \<Longrightarrow> e1 = [] \<and> fs1 = []"
      using drop_backup_run[OF Cons.prems(1)] by blast
    then show ?thesis using that[of e1 m1 fs1] True by simp
  next
    case False
    then show ?thesis using that[of "[]" m fs] Cons.prems(1) by (simp add: pdone_def)
  qed
  have bk: "\<forall>(k, b, p) \<in> set files. b \<longrightarrow> mf_backup m1 k \<noteq> None"
  proof (rule ballI)
    fix y assume y: "y \<in> set files"
    then have "fst y \<noteq> n" using Cons.prems(2) x by force
    then show "case y of (k, b, p) \<Rightarrow> b \<longrightarrow> mf_backup m1 k \<noteq> None"
      using Cons.prems(3) y a(4) by (cases y) auto
  qed
  obtain e2 m2 fs2 where c: "cleanup_backups files (m1, fs1) = (Returned (Ok e2), m2, fs2)" "mf_dest m2 = mf_dest m1"
    "fs1 = [] \<longrightarrow> e2 = [] \<and> fs2 = []"
  proof -
    have "distinct (map fst files)" using Cons.prems(2) by simp
    from Cons.IH[OF a(3) this bk] show ?thesis using that by blast
  qed
  have "cleanup_backups (x # files) (m, fs) = (Returned (Ok (e1 @ e2)), m2, fs2)"
    using a(1) c(1) by (simp add: x pbind_run pdone_def)
  then show ?case using a(2,5) c(2,3) by auto
qed (simp add: pdone_def)

lemma publish_error_run:
  assumes "distinct (map fst files)" and "undoable old files m"
  shows "\<exists>m' fs'. publish_error files (m, []) = (Returned (Err (PublishFailed [])), m', fs') \<and> mf_dest m' = old"
  using rollback_restores[OF assms] by (auto simp: publish_error_def pbind_run)

lemma undoable_publish:
  assumes u: "undoable old (files @ [(n, b, False)]) m" and n: "n \<notin> fst ` set files"
    and d: "mf_dest m' = (mf_dest m)(n := Some (RegularFile c))" and bk: "mf_backup m' = mf_backup m"
  shows "undoable old (files @ [(n, b, True)]) m'"
  unfolding undoable_def
proof (intro conjI ballI allI impI)
  fix y assume y: "y \<in> set (files @ [(n, b, True)])"
  obtain k e q where k: "y = (k, e, q)" by (cases y)
  show "case y of (n, b, p) \<Rightarrow>
       (if p then (\<exists>c. mf_dest m' n = Some (RegularFile c)) else mf_dest m' n = None)
       \<and> (if b then (\<exists>c. old n = Some (RegularFile c) \<and> mf_backup m' n = Some c) else old n = None)"
  proof (cases "y \<in> set files")
    case True
    then have "k \<noteq> n" using n k by force
    moreover have "y \<in> set (files @ [(n, b, False)])" using True by simp
    ultimately show ?thesis using u k d bk unfolding undoable_def by fastforce
  next
    case False
    then have "y = (n, b, True)" using y by simp
    then show ?thesis using u d bk by (simp add: undoable_def)
  qed
next
  fix k assume "k \<notin> fst ` set (files @ [(n, b, True)])"
  then show "mf_dest m' k = old k" using u d by (simp add: undoable_def)
qed

text \<open>What the loop keeps: the published files are undoable and have their new content, the others are as
  they were, staged, and planned as they are.\<close>

definition publishing :: "(string \<Rightarrow> mirror_entry option) \<Rightarrow> (string \<Rightarrow> chars option) \<Rightarrow> published_file list \<Rightarrow> (string \<times> bool) list \<Rightarrow> mirror_fs \<Rightarrow> bool" where
  "publishing old staged files ps m =
     (distinct (map fst files @ map fst ps) \<and> undoable old files m
      \<and> mf_dest m = all_published old staged (fst ` set files)
      \<and> (\<forall>(n, b, p) \<in> set files. p)
      \<and> (\<forall>(n, b) \<in> set ps. mf_staged m n = staged n \<and> staged n \<noteq> None
           \<and> (if b then (\<exists>c. old n = Some (RegularFile c)) else old n = None)))"

lemma publish_files_all_or_nothing:
  assumes "one_failure fs" and "publishing old staged files ps m"
  shows "\<exists>r m' fs'. publish_files ps files (m, fs) = (r, m', fs')
    \<and> all_or_nothing old (all_published old staged (fst ` set files \<union> fst ` set ps)) r m'
    \<and> (fs = [] \<longrightarrow> r = Returned (Ok ()) \<and> fs' = [])"
  using assms
proof (induction ps arbitrary: files m fs)
  case Nil
  have "\<forall>(n, b, p) \<in> set files. b \<longrightarrow> mf_backup m n \<noteq> None"
  proof (rule ballI)
    fix y assume y: "y \<in> set files"
    have "undoable old files m" using Nil.prems(2) by (simp add: publishing_def)
    then have "case y of (n, b, p) \<Rightarrow> if b then (\<exists>c. old n = Some (RegularFile c) \<and> mf_backup m n = Some c) else old n = None"
      using y unfolding undoable_def by (cases y) blast
    then show "case y of (n, b, p) \<Rightarrow> b \<longrightarrow> mf_backup m n \<noteq> None" by (cases y) auto
  qed
  moreover have "distinct (map fst files)" using Nil.prems(2) by (simp add: publishing_def)
  ultimately obtain errs m' fs' where c: "cleanup_backups files (m, fs) = (Returned (Ok errs), m', fs')" "mf_dest m' = mf_dest m"
    "fs = [] \<longrightarrow> errs = [] \<and> fs' = []"
    using cleanup_keeps_dest[OF Nil.prems(1)] by blast
  then show ?case
    using Nil.prems(2) by (cases "errs = []")
      (auto simp: cleanup_published_def pbind_run pdone_def pfail_def all_or_nothing_def publishing_def)
next
  case (Cons x ps)
  obtain n b where x: "x = (n, b)" by (cases x)
  have dist: "distinct (map fst files)" "n \<notin> fst ` set files" "n \<notin> fst ` set ps"
    and und: "undoable old files m" and here: "mf_dest m n = old n"
    and st: "mf_staged m n = staged n" "staged n \<noteq> None"
    and oldn: "if b then (\<exists>c. old n = Some (RegularFile c)) else old n = None"
    using Cons.prems(2) by (auto simp: publishing_def x all_published_def)
  let ?new = "all_published old staged (fst ` set files \<union> fst ` set (x # ps))"
  let ?first = "if b then pcatch (backup_one n) (\<lambda>e. publish_error files) else pdone ()"
  let ?rest = "pthen (pcatch (publish_one n) (\<lambda>e. publish_error (files @ [(n, b, False)]))) (publish_files ps (files @ [(n, b, True)]))"
  have run: "publish_files (x # ps) files = pthen ?first ?rest" by (simp add: x)
  define m1 where "m1 = (if b then m\<lparr>mf_dest := (mf_dest m)(n := None),
      mf_backup := (mf_backup m)(n := (case old n of Some (RegularFile c) \<Rightarrow> Some c | _ \<Rightarrow> None))\<rparr> else m)"
  have m1: "mf_dest m1 = (mf_dest m)(n := None)" "mf_staged m1 = mf_staged m"
    "\<And>k. k \<noteq> n \<Longrightarrow> mf_backup m1 k = mf_backup m k"
    using oldn here by (auto simp: m1_def fun_eq_iff)
  have und1: "undoable old (files @ [(n, b, False)]) m1"
    unfolding undoable_def
  proof (intro conjI ballI allI impI)
    fix y assume y: "y \<in> set (files @ [(n, b, False)])"
    obtain k c q where k: "y = (k, c, q)" by (cases y)
    show "case y of (n, b, p) \<Rightarrow>
         (if p then (\<exists>c. mf_dest m1 n = Some (RegularFile c)) else mf_dest m1 n = None)
         \<and> (if b then (\<exists>c. old n = Some (RegularFile c) \<and> mf_backup m1 n = Some c) else old n = None)"
    proof (cases "y \<in> set files")
      case True
      then have "k \<noteq> n" using dist(2) k by force
      then show ?thesis using True und k m1 by (auto simp: undoable_def)
    next
      case False
      then have "y = (n, b, False)" using y by simp
      then show ?thesis using oldn by (auto simp: m1_def here)
    qed
  next
    fix k assume "k \<notin> fst ` set (files @ [(n, b, False)])"
    then show "mf_dest m1 k = old k" using und m1(1) by (simp add: undoable_def)
  qed
  have d1: "distinct (map fst (files @ [(n, b, False)]))" using dist by simp
  have second: "\<exists>r m' fs'. ?rest (m1, fs1) = (r, m', fs') \<and> all_or_nothing old ?new r m'
      \<and> (fs1 = [] \<longrightarrow> r = Returned (Ok ()) \<and> fs' = [])" if fs1: "one_failure fs1" for fs1
  proof -
    let ?g = "\<lambda>m. case mf_staged m n of
       Some c \<Rightarrow> (Ok (), m\<lparr>mf_dest := (mf_dest m)(n := Some (RegularFile c)), mf_staged := (mf_staged m)(n := None)\<rparr>)
     | None \<Rightarrow> (Err MirrorIo, m)"
    obtain c where c: "staged n = Some c" using st(2) by blast
    let ?m2 = "m1\<lparr>mf_dest := (mf_dest m1)(n := Some (RegularFile c)), mf_staged := (mf_staged m1)(n := None)\<rparr>"
    show ?thesis
    proof (rule one_failure_action[OF fs1, of MirrorIo ?g m1])
      assume g: "paction MirrorIo ?g (m1, fs1) = (Returned (fst (?g m1)), snd (?g m1), tl fs1)" and tl: "one_failure (tl fs1)"
      have "publishing old staged (files @ [(n, b, True)]) ps ?m2"
        unfolding publishing_def
      proof (intro conjI)
        show "distinct (map fst (files @ [(n, b, True)]) @ map fst ps)" using Cons.prems(2) by (simp add: publishing_def x)
        show "undoable old (files @ [(n, b, True)]) ?m2"
          by (rule undoable_publish[OF und1 dist(2)]) simp_all
        show "mf_dest ?m2 = all_published old staged (fst ` set (files @ [(n, b, True)]))"
          using Cons.prems(2) m1(1) c by (auto simp: publishing_def all_published_def fun_eq_iff)
        show "\<forall>(n, b, p) \<in> set (files @ [(n, b, True)]). p" using Cons.prems(2) by (simp add: publishing_def)
        show "\<forall>(k, d) \<in> set ps. mf_staged ?m2 k = staged k \<and> staged k \<noteq> None
           \<and> (if d then (\<exists>c. old k = Some (RegularFile c)) else old k = None)"
        proof (rule ballI)
          fix y assume y: "y \<in> set ps"
          obtain k d where k: "y = (k, d)" by (cases y)
          have "k \<noteq> n" using y k dist(3) by force
          moreover have "case y of (n, b) \<Rightarrow> mf_staged m n = staged n \<and> staged n \<noteq> None
             \<and> (if b then (\<exists>c. old n = Some (RegularFile c)) else old n = None)"
            using Cons.prems(2) y unfolding publishing_def by simp
          ultimately show "case y of (k, d) \<Rightarrow> mf_staged ?m2 k = staged k \<and> staged k \<noteq> None
             \<and> (if d then (\<exists>c. old k = Some (RegularFile c)) else old k = None)"
            using k m1(2) by simp
        qed
      qed
      then obtain r m' fs' where ih: "publish_files ps (files @ [(n, b, True)]) (?m2, tl fs1) = (r, m', fs')"
        "all_or_nothing old (all_published old staged (fst ` set (files @ [(n, b, True)]) \<union> fst ` set ps)) r m'"
        "tl fs1 = [] \<longrightarrow> r = Returned (Ok ()) \<and> fs' = []"
        using Cons.IH[OF tl] by blast
      have "publish_one n (m1, fs1) = (Returned (Ok ()), ?m2, tl fs1)"
        using g st(1) c m1(2) by (simp add: publish_one_def)
      then have "?rest (m1, fs1) = (r, m', fs')" using ih(1) by (simp add: pbind_run pcatch_run)
      then show ?thesis using ih(2,3) by (simp add: x insert_commute)
    next
      assume g: "paction MirrorIo ?g (m1, fs1) = (Returned (Err MirrorIo), m1, [])" and ne: "fs1 \<noteq> []"
      obtain m' fs' where e: "publish_error (files @ [(n, b, False)]) (m1, []) = (Returned (Err (PublishFailed [])), m', fs')" "mf_dest m' = old"
        using publish_error_run[OF d1 und1] by blast
      then have "?rest (m1, fs1) = (Returned (Err (PublishFailed [])), m', fs')"
        using g by (simp add: publish_one_def pbind_run pcatch_run)
      then show ?thesis using e(2) ne by (simp add: all_or_nothing_def)
    qed
  qed
  show ?case
  proof (cases b)
    case False
    then have "m1 = m" by (simp add: m1_def)
    then have "publish_files (x # ps) files (m, fs) = ?rest (m1, fs)"
      using False unfolding run by (simp add: pbind_run pdone_def)
    then show ?thesis using second[OF Cons.prems(1)] by simp
  next
    case True
    let ?f = "\<lambda>m. case mf_dest m n of
       Some (RegularFile c) \<Rightarrow> (Ok (), m\<lparr>mf_dest := (mf_dest m)(n := None), mf_backup := (mf_backup m)(n := Some c)\<rparr>)
     | _ \<Rightarrow> (Err MirrorIo, m)"
    obtain c where c: "old n = Some (RegularFile c)" using oldn True by auto
    show ?thesis
    proof (rule one_failure_action[OF Cons.prems(1), of MirrorIo ?f m])
      assume f: "paction MirrorIo ?f (m, fs) = (Returned (fst (?f m)), snd (?f m), tl fs)" and tl: "one_failure (tl fs)"
      have "backup_one n (m, fs) = (Returned (Ok ()), m1, tl fs)"
        using f here c True by (simp add: backup_one_def m1_def)
      then have "publish_files (x # ps) files (m, fs) = ?rest (m1, tl fs)"
        using True unfolding run by (simp add: pbind_run pcatch_run)
      then show ?thesis using second[OF tl] by (cases fs) auto
    next
      assume f: "paction MirrorIo ?f (m, fs) = (Returned (Err MirrorIo), m, [])" and ne: "fs \<noteq> []"
      obtain m' fs' where e: "publish_error files (m, []) = (Returned (Err (PublishFailed [])), m', fs')" "mf_dest m' = old"
        using publish_error_run[OF dist(1) und] by blast
      then have "publish_files (x # ps) files (m, fs) = (Returned (Err (PublishFailed [])), m', fs')"
        using f True unfolding run by (simp add: backup_one_def pbind_run pcatch_run)
      then show ?thesis using e(2) ne by (simp add: all_or_nothing_def)
    qed
  qed
qed


definition planned_as :: "mirror_fs \<Rightarrow> (string \<times> bool) list \<Rightarrow> bool" where
  "planned_as m ps =
     (\<forall>(n, b) \<in> set ps. if b then (\<exists>c. mf_dest m n = Some (RegularFile c)) else mf_dest m n = None)"

lemma plan_files_run:
  assumes "one_failure fs" and "\<forall>n \<in> set ns. mf_dest m n \<noteq> Some OtherEntry"
  shows "plan_files ns (m, fs) = (Returned (Err MirrorIo), m, []) \<and> fs \<noteq> []
    \<or> (\<exists>ps fs'. plan_files ns (m, fs) = (Returned (Ok ps), m, fs') \<and> one_failure fs' \<and> map fst ps = ns \<and> (fs = [] \<longrightarrow> fs' = [])
        \<and> planned_as m ps)"
  using assms
proof (induction ns arbitrary: fs)
  case (Cons n ns)
  let ?f = "\<lambda>m. (case mf_dest m n of
       None \<Rightarrow> Ok False | Some (RegularFile c) \<Rightarrow> Ok True | Some OtherEntry \<Rightarrow> Err (NotRegular n), m)"
  show ?case
  proof (rule one_failure_action[OF Cons.prems(1), of MirrorIo ?f m])
    assume f: "paction MirrorIo ?f (m, fs) = (Returned (fst (?f m)), snd (?f m), tl fs)" and tl: "one_failure (tl fs)"
    define b where "b = (mf_dest m n \<noteq> None)"
    have "fst (?f m) = Ok b \<and> (if b then (\<exists>c. mf_dest m n = Some (RegularFile c)) else mf_dest m n = None)"
    proof (cases "mf_dest m n")
      case (Some e)
      then show ?thesis using Cons.prems(2) by (cases e) (simp_all add: b_def)
    qed (simp add: b_def)
    then have fm: "fst (?f m) = Ok b" and b2: "if b then (\<exists>c. mf_dest m n = Some (RegularFile c)) else mf_dest m n = None"
      by blast+
    have "stat_one n (m, fs) = (Returned (Ok b), m, tl fs)"
      unfolding stat_one_def f fm snd_conv ..
    note b = this b2
    show ?thesis
    proof (cases "plan_files ns (m, tl fs) = (Returned (Err MirrorIo), m, []) \<and> tl fs \<noteq> []")
      case True
      then show ?thesis using b(1) by (cases fs) (simp_all add: pbind_run)
    next
      case False
      then obtain ps fs' where ps: "plan_files ns (m, tl fs) = (Returned (Ok ps), m, fs')" "one_failure fs'" "map fst ps = ns"
        "planned_as m ps" "tl fs = [] \<longrightarrow> fs' = []"
      proof -
        have "\<forall>n \<in> set ns. mf_dest m n \<noteq> Some OtherEntry" using Cons.prems(2) by simp
        from Cons.IH[OF tl this] False show ?thesis using that by blast
      qed
      have run: "plan_files (n # ns) (m, fs) = (Returned (Ok ((n, b) # ps)), m, fs')"
        using b(1) ps(1) by (simp add: pbind_run pdone_def)
      have "planned_as m ((n, b) # ps)" using ps(4) b(2) by (simp add: planned_as_def)
      moreover have "fs = [] \<longrightarrow> fs' = []" using ps(5) by (cases fs) simp_all
      moreover have "map fst ((n, b) # ps) = n # ns" using ps(3) by simp
      ultimately show ?thesis using run ps(2)
        by (intro disjI2 exI[of _ "(n, b) # ps"] exI[of _ fs']) simp
    qed
  next
    assume "paction MirrorIo ?f (m, fs) = (Returned (Err MirrorIo), m, [])" "fs \<noteq> []"
    then show ?thesis by (simp add: stat_one_def pbind_run)
  qed
qed (simp add: pdone_def planned_as_def)

lemma publish_staged_run:
  assumes "one_failure fs"
    and "\<forall>n \<in> set IDENTITY_FILES. mf_dest m n \<noteq> Some OtherEntry \<and> mf_staged m n \<noteq> None"
  shows "\<exists>r m' fs'. publish_staged_identity_mirror (m, fs) = (r, m', fs')
    \<and> all_or_nothing (mf_dest m) (all_published (mf_dest m) (mf_staged m) (set IDENTITY_FILES)) r m'
    \<and> (fs = [] \<longrightarrow> r = Returned (Ok ()) \<and> fs' = [])"
proof (cases "plan_files IDENTITY_FILES (m, fs) = (Returned (Err MirrorIo), m, []) \<and> fs \<noteq> []")
  case True
  then show ?thesis by (simp add: publish_staged_identity_mirror_def pbind_run all_or_nothing_def)
next
  case False
  then obtain ps fs' where ps: "plan_files IDENTITY_FILES (m, fs) = (Returned (Ok ps), m, fs')" "one_failure fs'"
    "map fst ps = IDENTITY_FILES"
    "planned_as m ps" "fs = [] \<longrightarrow> fs' = []"
  proof -
    have "\<forall>n \<in> set IDENTITY_FILES. mf_dest m n \<noteq> Some OtherEntry" using assms(2) by blast
    from plan_files_run[OF assms(1) this] False show ?thesis using that by blast
  qed
  have fstps: "fst ` set ps = set IDENTITY_FILES" using ps(3) by (metis list.set_map)
  have pub: "publishing (mf_dest m) (mf_staged m) [] ps m"
    unfolding publishing_def
  proof (intro conjI)
    show "distinct (map fst [] @ map fst ps)" by (simp add: ps(3) IDENTITY_FILES_def)
    show "\<forall>(n, b) \<in> set ps. mf_staged m n = mf_staged m n \<and> mf_staged m n \<noteq> None
       \<and> (if b then (\<exists>c. mf_dest m n = Some (RegularFile c)) else mf_dest m n = None)"
    proof (rule ballI)
      fix y assume y: "y \<in> set ps"
      then have "fst y \<in> set IDENTITY_FILES" using fstps by blast
      then show "case y of (n, b) \<Rightarrow> mf_staged m n = mf_staged m n \<and> mf_staged m n \<noteq> None
        \<and> (if b then (\<exists>c. mf_dest m n = Some (RegularFile c)) else mf_dest m n = None)"
        using ps(4) y assms(2) unfolding planned_as_def by (cases y) auto
    qed
  qed (simp_all add: undoable_def all_published_def)
  have none: "fst ` set ([] :: published_file list) \<union> fst ` set ps = set IDENTITY_FILES" by (simp add: fstps)
  obtain r m' fs'' where r: "publish_files ps [] (m, fs') = (r, m', fs'')"
    "all_or_nothing (mf_dest m) (all_published (mf_dest m) (mf_staged m) (set IDENTITY_FILES)) r m'"
    "fs' = [] \<longrightarrow> r = Returned (Ok ()) \<and> fs'' = []"
    using publish_files_all_or_nothing[OF ps(2) pub] unfolding none by blast
  have "publish_staged_identity_mirror (m, fs) = (r, m', fs'')"
    using ps(1) r(1) by (simp add: publish_staged_identity_mirror_def pbind_run)
  then show ?thesis using r(2,3) ps(5) by auto
qed

text \<open>C38: the mirror is published as a whole or not at all.  When the three files are staged, no destination
  is something else than a file, and at most one step of the publication fails, whichever it is, then the
  host holds all three new files if the publication succeeded or only its cleanup failed, and exactly the
  files it held before otherwise.  No other file is touched.\<close>

theorem mirror_is_all_or_nothing:
  assumes "one_failure fs"
    and "\<forall>n \<in> set IDENTITY_FILES. mf_dest m n \<noteq> Some OtherEntry \<and> mf_staged m n \<noteq> None"
  shows "case publish_staged_identity_mirror (m, fs) of (r, m', fs') \<Rightarrow>
     let new = (\<lambda>n. if n \<in> set IDENTITY_FILES then map_option RegularFile (mf_staged m n) else mf_dest m n) in
     (case r of
        Returned (Inr _) \<Rightarrow> mf_dest m' = new
      | Returned (Inl (CleanupFailed _)) \<Rightarrow> mf_dest m' = new
      | Returned (Inl _) \<Rightarrow> mf_dest m' = mf_dest m
      | Died \<Rightarrow> False)"
  using publish_staged_run[OF assms] by (auto simp: all_or_nothing_def all_published_def Let_def)

text \<open>The second rename of the second file fails.\<close>

definition mirror_example :: mirror_fs where
  "mirror_example = \<lparr>mf_dest = (\<lambda>n. if n = ''SOUL.md'' then Some (RegularFile [83]) else None),
     mf_staged = (\<lambda>n. if n \<in> set IDENTITY_FILES then Some [78] else None), mf_backup = (\<lambda>_. None)\<rparr>"

lemma mirror_is_all_or_nothing_witness:
  "fst (publish_staged_identity_mirror (mirror_example, replicate 5 FaultNone @ [FailBefore])) = Returned (Err (PublishFailed []))
   \<and> mf_dest (fst (snd (publish_staged_identity_mirror (mirror_example, replicate 5 FaultNone @ [FailBefore])))) = mf_dest mirror_example"
proof -
  let ?r = "publish_staged_identity_mirror (mirror_example, replicate 5 FaultNone @ [FailBefore])"
  have o: "one_failure (replicate 5 FaultNone @ [FailBefore])" by (auto simp: one_failure_def)
  have s: "\<forall>n \<in> set IDENTITY_FILES. mf_dest mirror_example n \<noteq> Some OtherEntry \<and> mf_staged mirror_example n \<noteq> None"
    by (simp add: mirror_example_def IDENTITY_FILES_def)
  have f: "fst ?r = Returned (Err (PublishFailed []))" by code_simp
  then show ?thesis using mirror_is_all_or_nothing[OF o s] by (cases ?r) (simp add: Let_def)
qed

end
