(* ===== verification/Sessions.thy ===== *)
theory Sessions
  imports Text
begin

text \<open>
  The sessions of the conversations: the table \<^verbatim>\<open>sessions\<close> (\<^verbatim>\<open>right-db/src/sql/v4_sessions.sql\<close>) and
  the requests of the owner that read and write it (\<^verbatim>\<open>right/src/db_owner_ops.rs\<close>), and the two
  callers that combine them: the preparation of a turn (\<^verbatim>\<open>worker.rs\<close>) and the commands \<^verbatim>\<open>/new\<close> and
  \<^verbatim>\<open>/switch\<close> (\<^verbatim>\<open>handler.rs\<close>).
\<close>

record session_row =
  ss_id :: int
  ss_chat :: int
  ss_thread :: int
  ss_root :: chars
  ss_label :: "chars option"
  ss_active :: bool
  ss_created :: millis
  ss_used :: millis

text \<open>\<^verbatim>\<open>AUTOINCREMENT\<close> never reuses an id: the counter stays when rows go.\<close>

record sessions_db =
  sd_rows :: "session_row list"
  sd_seq :: int

datatype session_error = SessionNotFound | SessionUnique

definition in_scope :: "int \<Rightarrow> int \<Rightarrow> session_row \<Rightarrow> bool" where
  "in_scope c t r = (ss_chat r = c \<and> ss_thread r = t)"

definition active_in :: "int \<Rightarrow> int \<Rightarrow> session_row \<Rightarrow> bool" where
  "active_in c t r = (in_scope c t r \<and> ss_active r)"

definition get_active_session :: "int \<Rightarrow> int \<Rightarrow> sessions_db \<Rightarrow> session_row option" where
  "get_active_session c t db = find (active_in c t) (sd_rows db)"

definition create_session ::
    "millis \<Rightarrow> int \<Rightarrow> int \<Rightarrow> chars \<Rightarrow> chars option \<Rightarrow> sessions_db \<Rightarrow> (session_error, int) result \<times> sessions_db" where
  "create_session now c t root label db =
     (if list_ex (active_in c t) (sd_rows db) then (Err SessionUnique, db)
      else (let i = sd_seq db + 1 in
        (Ok i, \<lparr>sd_rows = sd_rows db @
           [\<lparr>ss_id = i, ss_chat = c, ss_thread = t, ss_root = root, ss_label = label, ss_active = True,
             ss_created = now, ss_used = now\<rparr>], sd_seq = i\<rparr>)))"

definition deactivate_current_session :: "int \<Rightarrow> int \<Rightarrow> sessions_db \<Rightarrow> chars option \<times> sessions_db" where
  "deactivate_current_session c t db =
     (map_option ss_root (find (active_in c t) (sd_rows db)),
      db\<lparr>sd_rows := update_where (active_in c t) (\<lambda>r. r\<lparr>ss_active := False\<rparr>) (sd_rows db)\<rparr>)"

text \<open>The transaction of \<^verbatim>\<open>ActivateSession\<close>: the conversation of the target loses its active session
  first, so that the unique index allows the second statement.\<close>

definition activate_session :: "millis \<Rightarrow> int \<Rightarrow> sessions_db \<Rightarrow> (session_error, unit) result \<times> sessions_db" where
  "activate_session now i db =
     (case find (\<lambda>r. ss_id r = i) (sd_rows db) of
        None \<Rightarrow> (Err SessionNotFound, db)
      | Some r \<Rightarrow>
          (Ok (), db\<lparr>sd_rows :=
             update_where (\<lambda>r. ss_id r = i) (\<lambda>r. r\<lparr>ss_active := True, ss_used := now\<rparr>)
               (update_where (active_in (ss_chat r) (ss_thread r)) (\<lambda>r. r\<lparr>ss_active := False\<rparr>) (sd_rows db))\<rparr>))"

definition touch_session :: "millis \<Rightarrow> int \<Rightarrow> sessions_db \<Rightarrow> (session_error, unit) result \<times> sessions_db" where
  "touch_session now i db =
     (if count_where (\<lambda>r. ss_id r = i) (sd_rows db) = 0 then (Err SessionNotFound, db)
      else (Ok (), db\<lparr>sd_rows := update_where (\<lambda>r. ss_id r = i) (\<lambda>r. r\<lparr>ss_used := now\<rparr>) (sd_rows db)\<rparr>))"

definition find_session_by_root :: "int \<Rightarrow> int \<Rightarrow> chars \<Rightarrow> sessions_db \<Rightarrow> session_row option" where
  "find_session_by_root c t root db =
     pop_row (sort_key ss_id (filter (\<lambda>r. in_scope c t r \<and> ss_root r = root) (sd_rows db)))"

text \<open>Rebootstrap deactivates every session of the agent (\<^verbatim>\<open>rebootstrap.rs\<close>).\<close>

definition deactivate_active_sessions :: "sessions_db \<Rightarrow> nat \<times> sessions_db" where
  "deactivate_active_sessions db =
     (count_where ss_active (sd_rows db),
      db\<lparr>sd_rows := update_where ss_active (\<lambda>r. r\<lparr>ss_active := False\<rparr>) (sd_rows db)\<rparr>)"

section \<open>The callers\<close>

text \<open>The owner serves one request at a time; a caller makes several, and between two of them the owner may
  serve any others.\<close>

datatype session_request =
    CreateReq millis int int chars "chars option"
  | DeactivateReq int int
  | ActivateReq millis int
  | TouchReq millis int
  | DeactivateAllReq

primrec run_session_request :: "session_request \<Rightarrow> sessions_db \<Rightarrow> sessions_db" where
  "run_session_request (CreateReq now c t uuid label) db = snd (create_session now c t uuid label db)"
| "run_session_request (DeactivateReq c t) db = snd (deactivate_current_session c t db)"
| "run_session_request (ActivateReq now i) db = snd (activate_session now i db)"
| "run_session_request (TouchReq now i) db = snd (touch_session now i db)"
| "run_session_request DeactivateAllReq db = snd (deactivate_active_sessions db)"

abbreviation served :: "session_request list \<Rightarrow> sessions_db \<Rightarrow> sessions_db" where
  "served rs \<equiv> fold run_session_request rs"

text \<open>The session a turn runs in: the active one, or a new one under a fresh UUID; the flag says whether
  this is the first call of the session.  \<open>mid\<close> are the requests served between the two of the caller.\<close>

definition prepare_session ::
    "session_request list \<Rightarrow> millis \<Rightarrow> int \<Rightarrow> int \<Rightarrow> chars \<Rightarrow> chars option \<Rightarrow> sessions_db
      \<Rightarrow> (session_error, chars \<times> bool) result \<times> sessions_db" where
  "prepare_session mid now c t uuid label db =
     (case get_active_session c t db of
        Some r \<Rightarrow> (Ok (ss_root r, False), db)
      | None \<Rightarrow> (case create_session now c t uuid label (served mid db) of
            (Err e, db') \<Rightarrow> (Err e, db')
          | (Ok i, db') \<Rightarrow> (Ok (uuid, True), db')))"

text \<open>\<^verbatim>\<open>/new\<close>: the current session is deactivated; a name makes a new one.  What is answered names the
  session that was left.  The commands are for private chats; elsewhere they are ignored.  The worker of the
  conversation lives until the first request is answered, so it may create a session before the second.\<close>

datatype new_reply = NewIgnored | NewCleared "chars option" | NewNamed chars "chars option"

definition handle_new ::
    "bool \<Rightarrow> session_request list \<Rightarrow> millis \<Rightarrow> int \<Rightarrow> int \<Rightarrow> chars \<Rightarrow> chars \<Rightarrow> (chars \<Rightarrow> chars) \<Rightarrow> sessions_db
      \<Rightarrow> (session_error, new_reply) result \<times> sessions_db" where
  "handle_new dm mid now c t uuid name truncate_label db =
     (if \<not> dm then (Ok NewIgnored, db)
      else let (prev, db1) = deactivate_current_session c t db; n = trim_chars name in
        if n = [] then (Ok (NewCleared prev), db1)
        else (case create_session now c t uuid (Some (truncate_label n)) (served mid db1) of
            (Err e, db2) \<Rightarrow> (Err e, db2)
          | (Ok i, db2) \<Rightarrow> (Ok (NewNamed n prev), db2)))"

datatype switch_reply = SwitchIgnored | SwitchUsage | SwitchNone | SwitchAlready | SwitchTo session_row | SwitchMany "session_row list"

text \<open>\<^verbatim>\<open>/switch\<close>: the text is matched with \<^verbatim>\<open>LIKE\<close> against the ids and labels of the conversation's
  sessions; \<open>like\<close> is that operator of the database.\<close>

definition find_sessions_by_uuid :: "(chars \<Rightarrow> chars \<Rightarrow> bool) \<Rightarrow> int \<Rightarrow> int \<Rightarrow> chars \<Rightarrow> sessions_db \<Rightarrow> session_row list" where
  "find_sessions_by_uuid like c t uuid db =
     (let p = text_chars ''%'' @ uuid @ text_chars ''%'' in
      filter (\<lambda>r. in_scope c t r \<and> (like p (ss_root r) \<or> (case ss_label r of None \<Rightarrow> False | Some l \<Rightarrow> like p l))) (sd_rows db))"

definition handle_switch ::
    "bool \<Rightarrow> (chars \<Rightarrow> chars \<Rightarrow> bool) \<Rightarrow> session_request list \<Rightarrow> millis \<Rightarrow> int \<Rightarrow> int \<Rightarrow> chars \<Rightarrow> sessions_db
      \<Rightarrow> (session_error, switch_reply) result \<times> sessions_db" where
  "handle_switch dm like mid now c t arg db =
     (if \<not> dm then (Ok SwitchIgnored, db) else let uuid = trim_chars arg in
      if uuid = [] then (Ok SwitchUsage, db)
      else (case find_sessions_by_uuid like c t uuid db of
          [] \<Rightarrow> (Ok SwitchNone, db)
        | [r] \<Rightarrow>
            if ss_active r then (Ok SwitchAlready, db)
            else (case activate_session now (ss_id r) (served mid db) of
                (Err e, db') \<Rightarrow> (Err e, db')
              | (Ok _, db') \<Rightarrow> (Ok (SwitchTo r), db'))
        | rs \<Rightarrow> (Ok (SwitchMany rs), db)))"

section \<open>The invariant\<close>

text \<open>Ids are distinct and not above the counter; a conversation has at most one active session.\<close>

definition sessions_ok :: "sessions_db \<Rightarrow> bool" where
  "sessions_ok db =
     (distinct (map ss_id (sd_rows db)) \<and> (\<forall>r \<in> set (sd_rows db). ss_id r \<le> sd_seq db)
      \<and> (\<forall>c t. count_where (active_in c t) (sd_rows db) \<le> 1))"

lemma count_update_where_le:
  assumes "\<And>r. P (f r) \<Longrightarrow> P r"
  shows "count_where P (update_where c f t) \<le> count_where P t"
proof -
  define g where "g = (\<lambda>r. if c r then f r else r)"
  have g: "P r" if "P (g r)" for r using that assms by (cases "c r") (simp_all add: g_def)
  have "length (filter P (map g t)) \<le> length (filter P t)"
  proof (induction t)
    case (Cons r t)
    then show ?case using g[of r] by (cases "P (g r)"; cases "P r") simp_all
  qed simp
  then show ?thesis unfolding count_where_def update_where_def g_def .
qed

lemma count_where_Nil_update:
  assumes "\<And>r. \<not> P (f r)" and "\<And>r. P r \<Longrightarrow> c r"
  shows "count_where P (update_where c f t) = 0"
proof -
  have "\<not> P (if c r then f r else r)" for r using assms by (cases "c r") auto
  then have "\<not> P x" if "x \<in> set (update_where c f t)" for x
    using set_update_where[THEN iffD1, OF that] by blast
  then show ?thesis unfolding count_where_0 by blast
qed

lemma sessions_ok_create: "sessions_ok db \<Longrightarrow> sessions_ok (snd (create_session now c t root label db))"
proof -
  assume ok: "sessions_ok db"
  show ?thesis
  proof (cases "list_ex (active_in c t) (sd_rows db)")
    case False
    then have none: "filter (active_in c t) (sd_rows db) = []" by (simp add: list_ex_iff filter_empty_conv)
    have below: "\<forall>r \<in> set (sd_rows db). ss_id r \<le> sd_seq db" using ok by (simp add: sessions_ok_def)
    have fresh: "sd_seq db + 1 \<notin> ss_id ` set (sd_rows db)"
    proof
      assume "sd_seq db + 1 \<in> ss_id ` set (sd_rows db)"
      then obtain r where "r \<in> set (sd_rows db)" "ss_id r = sd_seq db + 1" by auto
      then show False using below by (metis add_le_same_cancel1 not_one_le_zero)
    qed
    define new where "new = \<lparr>ss_id = sd_seq db + 1, ss_chat = c, ss_thread = t, ss_root = root, ss_label = label,
      ss_active = True, ss_created = now, ss_used = now\<rparr>"
    have one: "count_where (active_in c' t') (sd_rows db @ [new]) \<le> 1" for c' t'
      using ok none by (cases "c' = c \<and> t' = t") (auto simp: sessions_ok_def count_where_def new_def active_in_def in_scope_def)
    have "snd (create_session now c t root label db) = \<lparr>sd_rows = sd_rows db @ [new], sd_seq = sd_seq db + 1\<rparr>"
      using False by (simp add: create_session_def Let_def new_def)
    moreover have "distinct (map ss_id (sd_rows db @ [new]))" using ok fresh by (simp add: sessions_ok_def new_def)
    moreover have "\<forall>r \<in> set (sd_rows db @ [new]). ss_id r \<le> sd_seq db + 1" using below by (auto simp: new_def)
    ultimately show ?thesis using one by (simp add: sessions_ok_def)
  qed (use ok in \<open>simp add: create_session_def\<close>)
qed

lemma sessions_ok_update:
  assumes "sessions_ok db" and "\<And>r. ss_id (f r) = ss_id r"
    and "\<And>c t r. active_in c t (f r) \<Longrightarrow> active_in c t r"
  shows "sessions_ok (db\<lparr>sd_rows := update_where p f (sd_rows db)\<rparr>)"
proof -
  have "count_where (active_in c t) (update_where p f (sd_rows db)) \<le> 1" for c t
    using count_update_where_le[of "active_in c t" f p "sd_rows db"] assms(1,3)
    by (meson order_trans sessions_ok_def)
  then show ?thesis
    using assms(1,2) by (auto simp: sessions_ok_def update_where_key set_update_where)
qed

lemma sessions_ok_deactivate: "sessions_ok db \<Longrightarrow> sessions_ok (snd (deactivate_current_session c t db))"
  unfolding deactivate_current_session_def snd_conv by (rule sessions_ok_update) (simp_all add: active_in_def)

lemma sessions_ok_deactivate_all: "sessions_ok db \<Longrightarrow> sessions_ok (snd (deactivate_active_sessions db))"
  unfolding deactivate_active_sessions_def snd_conv by (rule sessions_ok_update) (simp_all add: active_in_def)

lemma sessions_ok_touch: "sessions_ok db \<Longrightarrow> sessions_ok (snd (touch_session now i db))"
  unfolding touch_session_def
  by (cases "count_where (\<lambda>r. ss_id r = i) (sd_rows db) = 0")
     (simp, simp only: if_False snd_conv, rule sessions_ok_update, simp_all add: active_in_def in_scope_def)

text \<open>At most one row of a table with distinct ids carries an id, so that switching it on after the
  conversation was switched off leaves one.\<close>

lemma count_activate:
  assumes d: "distinct (map ss_id rs)"
  shows "count_where (active_in c t)
           (update_where (\<lambda>r. ss_id r = i) (\<lambda>r. r\<lparr>ss_active := True, ss_used := now\<rparr>) rs)
         \<le> count_where (active_in c t) rs + count_where (\<lambda>r. ss_id r = i \<and> in_scope c t r) rs"
  by (induction rs) (auto simp: count_where_def update_where_def active_in_def in_scope_def)

lemma sessions_ok_activate: "sessions_ok db \<Longrightarrow> sessions_ok (snd (activate_session now i db))"
proof -
  assume ok: "sessions_ok db"
  show ?thesis
  proof (cases "find (\<lambda>r. ss_id r = i) (sd_rows db)")
    case (Some r)
    have r: "r \<in> set (sd_rows db)" "ss_id r = i" using Some by (auto simp: find_Some_iff)
    let ?off = "update_where (active_in (ss_chat r) (ss_thread r)) (\<lambda>r. r\<lparr>ss_active := False\<rparr>) (sd_rows db)"
    let ?on = "update_where (\<lambda>r. ss_id r = i) (\<lambda>r. r\<lparr>ss_active := True, ss_used := now\<rparr>) ?off"
    have off: "sessions_ok (db\<lparr>sd_rows := ?off\<rparr>)"
      using ok by (rule sessions_ok_update) (simp_all add: active_in_def)
    then have d: "distinct (map ss_id ?off)" by (simp add: sessions_ok_def)
    have one: "count_where (active_in c t) ?on \<le> 1" for c t
    proof (cases "c = ss_chat r \<and> t = ss_thread r")
      case True
      then have "count_where (active_in c t) ?off = 0"
        by (intro count_where_Nil_update) (auto simp: active_in_def)
      moreover have "count_where (\<lambda>r. ss_id r = i \<and> in_scope c t r) ?off \<le> 1"
        by (rule count_where_key_le1[OF d])
      ultimately show ?thesis using count_activate[OF d, of c t i now] by linarith
    next
      case False
      have "count_where (\<lambda>r. ss_id r = i \<and> in_scope c t r) ?off = 0"
      proof -
        have "\<not> (ss_id x = i \<and> in_scope c t x)" if x: "x \<in> set ?off" for x
        proof
          assume a: "ss_id x = i \<and> in_scope c t x"
          from x obtain x0 where x0: "x0 \<in> set (sd_rows db)"
            "ss_id x = ss_id x0" "ss_chat x = ss_chat x0" "ss_thread x = ss_thread x0"
            by (auto simp: set_update_where split: if_splits)
          then have "x0 = r"
            using distinct_key_unique[of ss_id "sd_rows db" x0 r] ok r a by (simp add: sessions_ok_def)
          then show False using False a x0 by (simp add: in_scope_def)
        qed
        then show ?thesis by (simp add: count_where_0)
      qed
      moreover have "count_where (active_in c t) ?off \<le> 1" using off by (simp add: sessions_ok_def)
      ultimately show ?thesis using count_activate[OF d, of c t i now] by linarith
    qed
    have "distinct (map ss_id ?on)" using d by (simp add: update_where_key)
    moreover have "\<forall>r \<in> set ?on. ss_id r \<le> sd_seq db"
      using off by (auto simp: sessions_ok_def set_update_where split: if_splits)
    ultimately show ?thesis using Some one by (simp add: activate_session_def sessions_ok_def)
  qed (use ok in \<open>simp add: activate_session_def\<close>)
qed


section \<open>Histories\<close>

text \<open>Every command is a sequence of requests, so whatever commands and turns interleave, the table is the
  result of some sequence of requests.\<close>

lemma sessions_ok_request: "sessions_ok db \<Longrightarrow> sessions_ok (run_session_request op db)"
  by (cases op)
    (simp_all add: sessions_ok_create sessions_ok_deactivate sessions_ok_activate sessions_ok_touch sessions_ok_deactivate_all)

lemma sessions_ok_run: "sessions_ok db \<Longrightarrow> sessions_ok (served ops db)"
  by (induction ops arbitrary: db) (simp_all add: sessions_ok_request)

lemma prepare_is_requests: "\<exists>rs. snd (prepare_session mid now c t uuid label db) = served rs db"
proof (cases "get_active_session c t db")
  case None
  then have "snd (prepare_session mid now c t uuid label db) = served (mid @ [CreateReq now c t uuid label]) db"
    by (auto simp: prepare_session_def split: prod.splits sum.splits)
  then show ?thesis by blast
qed (auto simp: prepare_session_def intro: exI[of _ "[]"])

lemma new_is_requests: "\<exists>rs. snd (handle_new dm mid now c t uuid name trunc db) = served rs db"
proof (cases "dm")
  case True
  have "snd (handle_new dm mid now c t uuid name trunc db) =
      served (DeactivateReq c t # (if trim_chars name = [] then [] else mid @ [CreateReq now c t uuid (Some (trunc (trim_chars name)))])) db"
    using True by (auto simp: handle_new_def Let_def split: prod.splits sum.splits)
  then show ?thesis by blast
qed (auto simp: handle_new_def intro: exI[of _ "[]"])

lemma switch_is_requests: "\<exists>rs. snd (handle_switch dm like mid now c t arg db) = served rs db"
proof -
  have "snd (handle_switch dm like mid now c t arg db) = db \<or>
      (\<exists>i. snd (handle_switch dm like mid now c t arg db) = served (mid @ [ActivateReq now i]) db)"
    by (auto simp: handle_switch_def Let_def case_prod_beta split: list.split sum.split)
  then show ?thesis by (metis fold_simps(1))
qed

text \<open>A request drops no session and moves none to another conversation.\<close>

lemma request_keeps_row:
  assumes "s \<in> set (sd_rows db)"
  shows "\<exists>s' \<in> set (sd_rows (run_session_request op db)). ss_id s' = ss_id s \<and> ss_chat s' = ss_chat s \<and> ss_thread s' = ss_thread s"
proof -
  have u: "\<exists>s' \<in> set (update_where p f rows). ss_id s' = ss_id s0 \<and> ss_chat s' = ss_chat s0 \<and> ss_thread s' = ss_thread s0"
    if "s0 \<in> set rows" "\<And>r. ss_id (f r) = ss_id r \<and> ss_chat (f r) = ss_chat r \<and> ss_thread (f r) = ss_thread r"
    for p f rows and s0 :: session_row
    using that by (cases "p s0") (force simp: set_update_where)+
  show ?thesis
  proof (cases op)
    case (ActivateReq now i)
    show ?thesis
    proof (cases "find (\<lambda>r. ss_id r = i) (sd_rows db)")
      case (Some r)
      obtain s1 where s1: "s1 \<in> set (update_where (active_in (ss_chat r) (ss_thread r)) (\<lambda>r. r\<lparr>ss_active := False\<rparr>) (sd_rows db))"
        "ss_id s1 = ss_id s" "ss_chat s1 = ss_chat s" "ss_thread s1 = ss_thread s"
        using u[OF assms, of "\<lambda>r. r\<lparr>ss_active := False\<rparr>"] by auto
      from u[OF s1(1), of "\<lambda>r. r\<lparr>ss_active := True, ss_used := now\<rparr>" "\<lambda>r. ss_id r = i"] s1(2-4)
      show ?thesis using ActivateReq Some by (simp add: activate_session_def)
    qed (use assms ActivateReq in \<open>auto simp: activate_session_def\<close>)
  next
    case (CreateReq now c t uuid label)
    then show ?thesis using assms by (auto simp: create_session_def Let_def intro!: bexI[of _ s])
  next
    case (TouchReq now i)
    then show ?thesis using assms u[OF assms, of "\<lambda>r. r\<lparr>ss_used := now\<rparr>" "\<lambda>r. ss_id r = i"]
      by (auto simp: touch_session_def intro!: bexI[of _ s])
  next
    case (DeactivateReq c t)
    then show ?thesis using u[OF assms, of "\<lambda>r. r\<lparr>ss_active := False\<rparr>"] by (simp add: deactivate_current_session_def)
  next
    case DeactivateAllReq
    then show ?thesis using u[OF assms, of "\<lambda>r. r\<lparr>ss_active := False\<rparr>"] by (simp add: deactivate_active_sessions_def)
  qed
qed

lemma served_keeps_row:
  "s \<in> set (sd_rows db) \<Longrightarrow>
   \<exists>s' \<in> set (sd_rows (served ops db)). ss_id s' = ss_id s \<and> ss_chat s' = ss_chat s \<and> ss_thread s' = ss_thread s"
proof (induction ops arbitrary: db s)
  case (Cons op ops)
  obtain s1 where "s1 \<in> set (sd_rows (run_session_request op db))" "ss_id s1 = ss_id s" "ss_chat s1 = ss_chat s" "ss_thread s1 = ss_thread s"
    using request_keeps_row[OF Cons.prems] by blast
  with Cons.IH[of s1 "run_session_request op db"] show ?case by auto
qed auto

definition no_sessions :: sessions_db where "no_sessions = \<lparr>sd_rows = [], sd_seq = 0\<rparr>"

lemma sessions_ok_empty: "sessions_ok no_sessions"
  by (simp add: sessions_ok_def no_sessions_def count_where_def)

lemma get_active_none: "get_active_session c t db = None \<longleftrightarrow> \<not> list_ex (active_in c t) (sd_rows db)"
  by (auto simp: get_active_session_def find_None_iff list_ex_iff)

lemma deactivate_none: "get_active_session c t (snd (deactivate_current_session c t db)) = None"
  by (auto simp: get_active_session_def deactivate_current_session_def find_None_iff set_update_where active_in_def)

lemma get_active_unique:
  assumes "sessions_ok db" and "r \<in> set (sd_rows db)" and "active_in c t r"
  shows "get_active_session c t db = Some r"
proof (cases "get_active_session c t db")
  case None
  then show ?thesis using assms by (auto simp: get_active_none list_ex_iff)
next
  case (Some s)
  then have s: "s \<in> set (sd_rows db)" "active_in c t s" by (auto simp: get_active_session_def find_Some_iff)
  have "length (filter (active_in c t) (sd_rows db)) \<le> 1" using assms(1) by (simp add: sessions_ok_def count_where_def)
  moreover have "r \<in> set (filter (active_in c t) (sd_rows db))" "s \<in> set (filter (active_in c t) (sd_rows db))"
    using assms s by simp_all
  ultimately have "r = s" by (cases "filter (active_in c t) (sd_rows db)") auto
  then show ?thesis using Some by simp
qed

lemma find_append_one: "find P (xs @ [x]) = (case find P xs of None \<Rightarrow> if P x then Some x else None | Some y \<Rightarrow> Some y)"
  by (induction xs) auto

lemma filter_update_other:
  "(\<And>r. r \<in> set xs \<Longrightarrow> p r \<Longrightarrow> \<not> q r \<and> \<not> q (f r)) \<Longrightarrow> filter q (update_where p f xs) = filter q xs"
proof (induction xs)
  case (Cons x xs)
  then have "filter q (update_where p f xs) = filter q xs" by simp
  then show ?case using Cons.prems[of x] by (cases "p x") (simp_all add: update_where_def)
qed (simp add: update_where_def)

lemma activate_effect:
  assumes ok: "sessions_ok db" and s: "s \<in> set (sd_rows db)" "in_scope c t s"
  shows "\<exists>db'. activate_session now (ss_id s) db = (Ok (), db') \<and> map_option ss_id (get_active_session c t db') = Some (ss_id s)
     \<and> (\<forall>c' t'. (c', t') \<noteq> (c, t) \<longrightarrow> filter (in_scope c' t') (sd_rows db') = filter (in_scope c' t') (sd_rows db))"
proof -
  have sc: "ss_chat s = c" "ss_thread s = t" using s(2) by (simp_all add: in_scope_def)
  have d: "distinct (map ss_id (sd_rows db))" using ok by (simp add: sessions_ok_def)
  have f: "find (\<lambda>r. ss_id r = ss_id s) (sd_rows db) = Some s"
  proof (cases "find (\<lambda>r. ss_id r = ss_id s) (sd_rows db)")
    case None
    then show ?thesis using s(1) by (auto simp: find_None_iff)
  next
    case (Some r)
    then have "r \<in> set (sd_rows db)" "ss_id r = ss_id s" by (auto simp: find_Some_iff)
    then show ?thesis using Some distinct_key_unique[OF d] s(1) by simp
  qed
  let ?off = "update_where (active_in c t) (\<lambda>r. r\<lparr>ss_active := False\<rparr>) (sd_rows db)"
  let ?on = "update_where (\<lambda>r. ss_id r = ss_id s) (\<lambda>r. r\<lparr>ss_active := True, ss_used := now\<rparr>) ?off"
  let ?db' = "db\<lparr>sd_rows := ?on\<rparr>"
  have act: "activate_session now (ss_id s) db = (Ok (), ?db')" using f sc by (simp add: activate_session_def)
  have ok': "sessions_ok ?db'" using sessions_ok_activate[OF ok, of now "ss_id s"] act by simp
  obtain s1 where s1: "s1 \<in> set ?off" "ss_id s1 = ss_id s" "in_scope c t s1"
  proof
    show "(if active_in c t s then s\<lparr>ss_active := False\<rparr> else s) \<in> set ?off"
      using s(1) unfolding set_update_where by blast
  qed (use s(2) in \<open>auto simp: in_scope_def\<close>)
  then have "s1\<lparr>ss_active := True, ss_used := now\<rparr> \<in> set ?on"
    unfolding set_update_where[of _ _ _ ?off] by (intro bexI[of _ s1]) simp_all
  moreover have "active_in c t (s1\<lparr>ss_active := True, ss_used := now\<rparr>)" using s1 by (simp add: active_in_def in_scope_def)
  ultimately have "get_active_session c t ?db' = Some (s1\<lparr>ss_active := True, ss_used := now\<rparr>)"
    using get_active_unique[OF ok'] by simp
  then have a: "map_option ss_id (get_active_session c t ?db') = Some (ss_id s)" using s1 by simp
  have "filter (in_scope c' t') ?on = filter (in_scope c' t') (sd_rows db)" if ne: "(c', t') \<noteq> (c, t)" for c' t'
  proof -
    have "filter (in_scope c' t') ?on = filter (in_scope c' t') ?off"
    proof (rule filter_update_other)
      fix r assume r: "r \<in> set ?off" "ss_id r = ss_id s"
      have "distinct (map ss_id ?off)" using d by (simp add: update_where_key)
      then have "r = s1" using r s1 distinct_key_unique by metis
      then show "\<not> in_scope c' t' r \<and> \<not> in_scope c' t' (r\<lparr>ss_active := True, ss_used := now\<rparr>)"
        using s1(3) ne by (auto simp: in_scope_def)
    qed
    also have "\<dots> = filter (in_scope c' t') (sd_rows db)"
      by (rule filter_update_other) (use ne in \<open>auto simp: active_in_def in_scope_def\<close>)
    finally show ?thesis .
  qed
  then show ?thesis using act a by (intro exI[of _ ?db']) simp
qed

lemma create_in_free:
  assumes "get_active_session c t db = None"
  shows "\<exists>i db'. create_session now c t uuid label db = (Ok i, db')
      \<and> map_option ss_root (get_active_session c t db') = Some uuid"
proof -
  have "find (active_in c t) (sd_rows db) = None" using assms by (simp add: get_active_session_def)
  moreover have "\<not> list_ex (active_in c t) (sd_rows db)" using assms get_active_none by blast
  ultimately show ?thesis
    by (simp add: create_session_def get_active_session_def Let_def find_append_one active_in_def[of _ _ "\<lparr>ss_id = _, ss_chat = _, ss_thread = _, ss_root = _, ss_label = _, ss_active = _, ss_created = _, ss_used = _\<rparr>"] in_scope_def)
qed

lemma create_in_taken: "get_active_session c t db \<noteq> None \<Longrightarrow> create_session now c t uuid label db = (Err SessionUnique, db)"
  using get_active_none by (auto simp: create_session_def)

text \<open>What the two requests of a turn or of a named \<^verbatim>\<open>/new\<close> come to, from the table they leave.\<close>

lemma prepare_effect:
  "case get_active_session c t db of
     Some r \<Rightarrow> prepare_session mid now c t uuid label db = (Ok (ss_root r, False), db)
   | None \<Rightarrow> if get_active_session c t (served mid db) = None
       then \<exists>db'. prepare_session mid now c t uuid label db = (Ok (uuid, True), db')
            \<and> map_option ss_root (get_active_session c t db') = Some uuid
       else prepare_session mid now c t uuid label db = (Err SessionUnique, served mid db)"
proof (cases "get_active_session c t db")
  case None
  then show ?thesis
    using create_in_free[of c t "served mid db" now uuid label] create_in_taken[of c t "served mid db" now uuid label]
    by (auto simp: prepare_session_def)
qed (simp add: prepare_session_def)

text \<open>The active session of a conversation, and a table in which one conversation was cleared and nothing
  else changed.\<close>

definition current_session :: "int \<Rightarrow> int \<Rightarrow> sessions_db \<Rightarrow> session_row option" where
  "current_session c t db = find (\<lambda>r. ss_chat r = c \<and> ss_thread r = t \<and> ss_active r) (sd_rows db)"

lemma current_session: "get_active_session = current_session"
  by (simp add: fun_eq_iff get_active_session_def current_session_def active_in_def[abs_def] in_scope_def conj_assoc)


definition cleared :: "int \<Rightarrow> int \<Rightarrow> sessions_db \<Rightarrow> sessions_db \<Rightarrow> bool" where
  "cleared c t db db' = (current_session c t db' = None \<and> sd_seq db' = sd_seq db
     \<and> length (sd_rows db') = length (sd_rows db)
     \<and> (\<forall>k < length (sd_rows db). sd_rows db' ! k =
          (if ss_chat (sd_rows db ! k) = c \<and> ss_thread (sd_rows db ! k) = t then (sd_rows db ! k)\<lparr>ss_active := False\<rparr>
           else sd_rows db ! k)))"

lemma deactivate_clears: "cleared c t db (snd (deactivate_current_session c t db))"
  using deactivate_none[of c t db, unfolded current_session]
  by (auto simp: cleared_def deactivate_current_session_def update_where_def active_in_def in_scope_def)

lemma new_effect:
  "\<exists>db1 prev. cleared c t db db1 \<and> prev = map_option ss_root (get_active_session c t db) \<and>
     (if trim_chars name = [] then handle_new True mid now c t uuid name trunc db = (Ok (NewCleared prev), db1)
      else if get_active_session c t (served mid db1) = None
      then \<exists>db'. handle_new True mid now c t uuid name trunc db = (Ok (NewNamed (trim_chars name) prev), db')
           \<and> map_option ss_root (get_active_session c t db') = Some uuid
      else handle_new True mid now c t uuid name trunc db = (Err SessionUnique, served mid db1))"
proof -
  obtain prev db1 where d: "deactivate_current_session c t db = (prev, db1)" by fastforce
  then have p: "prev = map_option ss_root (get_active_session c t db)"
    by (auto simp: deactivate_current_session_def get_active_session_def)
  have "cleared c t db db1" using deactivate_clears[of c t db] d by simp
  moreover have "if trim_chars name = [] then handle_new True mid now c t uuid name trunc db = (Ok (NewCleared prev), db1)
      else if get_active_session c t (served mid db1) = None
      then \<exists>db'. handle_new True mid now c t uuid name trunc db = (Ok (NewNamed (trim_chars name) prev), db')
           \<and> map_option ss_root (get_active_session c t db') = Some uuid
      else handle_new True mid now c t uuid name trunc db = (Err SessionUnique, served mid db1)"
    using create_in_free[of c t "served mid db1" now uuid "Some (trunc (trim_chars name))"]
      create_in_taken[of c t "served mid db1" now uuid "Some (trunc (trim_chars name))"]
    by (auto simp: handle_new_def d Let_def)
  ultimately show ?thesis using p by blast
qed

lemma switch_effect:
  assumes ok: "sessions_ok db" and n: "trim_chars arg \<noteq> []"
  shows "case filter (\<lambda>r. ss_chat r = c \<and> ss_thread r = t \<and>
            (\<exists>x \<in> {ss_root r} \<union> set_option (ss_label r). like (text_chars ''%'' @ trim_chars arg @ text_chars ''%'') x)) (sd_rows db) of
      [] \<Rightarrow> handle_switch True like mid now c t arg db = (Ok SwitchNone, db)
    | [s] \<Rightarrow>
        if get_active_session c t db = Some s then handle_switch True like mid now c t arg db = (Ok SwitchAlready, db)
        else \<exists>db'. handle_switch True like mid now c t arg db = (Ok (SwitchTo s), db')
             \<and> map_option ss_id (get_active_session c t db') = Some (ss_id s)
             \<and> (\<forall>c' t'. (c', t') \<noteq> (c, t) \<longrightarrow>
                   filter (in_scope c' t') (sd_rows db') = filter (in_scope c' t') (sd_rows (served mid db)))
    | found \<Rightarrow> handle_switch True like mid now c t arg db = (Ok (SwitchMany found), db)"
proof -
  have f: "filter (\<lambda>r. ss_chat r = c \<and> ss_thread r = t \<and>
      (\<exists>x \<in> {ss_root r} \<union> set_option (ss_label r). like (text_chars ''%'' @ trim_chars arg @ text_chars ''%'') x)) (sd_rows db)
    = find_sessions_by_uuid like c t (trim_chars arg) db"
    by (auto simp: find_sessions_by_uuid_def Let_def in_scope_def split: option.splits intro!: filter_cong)
  show ?thesis
  proof (cases "find_sessions_by_uuid like c t (trim_chars arg) db")
    case Nil
    then show ?thesis unfolding f using n by (simp add: handle_switch_def Let_def)
  next
    case (Cons s rest)
    then have "s \<in> set (find_sessions_by_uuid like c t (trim_chars arg) db)" by simp
    then have s: "s \<in> set (sd_rows db)" "in_scope c t s" by (auto simp: find_sessions_by_uuid_def Let_def)
    have act: "ss_active s \<longleftrightarrow> get_active_session c t db = Some s"
      using get_active_unique[OF ok s(1)] s(2) by (auto simp: active_in_def get_active_session_def find_Some_iff)
    obtain s' where s': "s' \<in> set (sd_rows (served mid db))" "ss_id s' = ss_id s" "in_scope c t s'"
      using served_keeps_row[OF s(1), of mid] s(2) by (auto simp: in_scope_def)
    show ?thesis
    proof (cases rest)
      case Nil
      show ?thesis unfolding f Cons Nil
        using n Cons Nil act activate_effect[OF sessions_ok_run[OF ok] s'(1,3), of now] s'(2)
        by (auto simp: handle_switch_def Let_def)
    next
      case (Cons a as')
      then show ?thesis unfolding f using \<open>find_sessions_by_uuid like c t (trim_chars arg) db = s # rest\<close> n
        by (simp add: handle_switch_def Let_def)
    qed
  qed
qed

text \<open>C33: a conversation has one session at a time.  After any sequence of requests, however turns and
  commands interleave, no conversation has two active sessions.  A turn gets the active session, or makes one
  that is active afterwards.  A bare \<^verbatim>\<open>/new\<close> clears the conversation and nothing else, and names the session
  that was left; with a name, the new session is active afterwards.  \<^verbatim>\<open>/switch\<close> answers by the sessions of
  the conversation that match: none, several, the active one already, or one that is active afterwards, other
  conversations keeping theirs.  Only when another request made a session of the conversation active between
  the two of a turn or a \<^verbatim>\<open>/new\<close> do these fail, with the error of the unique index and nothing more changed.\<close>

theorem one_session_per_conversation:
  fixes ops mid c t
  defines "db \<equiv> served ops no_sessions"
  shows "length (filter (\<lambda>r. ss_chat r = c \<and> ss_thread r = t \<and> ss_active r) (sd_rows db)) \<le> 1
    \<and> (case current_session c t db of
         Some r \<Rightarrow> prepare_session mid now c t uuid label db = (Ok (ss_root r, False), db)
       | None \<Rightarrow> if current_session c t (served mid db) = None
           then \<exists>db'. prepare_session mid now c t uuid label db = (Ok (uuid, True), db')
                \<and> map_option ss_root (current_session c t db') = Some uuid
           else prepare_session mid now c t uuid label db = (Err SessionUnique, served mid db))
    \<and> (\<exists>db1 prev. cleared c t db db1 \<and> prev = map_option ss_root (current_session c t db) \<and>
         (if trim_chars name = [] then handle_new True mid now c t uuid name trunc db = (Ok (NewCleared prev), db1)
          else if current_session c t (served mid db1) = None
          then \<exists>db'. handle_new True mid now c t uuid name trunc db = (Ok (NewNamed (trim_chars name) prev), db')
               \<and> map_option ss_root (current_session c t db') = Some uuid
          else handle_new True mid now c t uuid name trunc db = (Err SessionUnique, served mid db1)))
    \<and> (trim_chars arg \<noteq> [] \<longrightarrow>
        (case filter (\<lambda>r. ss_chat r = c \<and> ss_thread r = t \<and>
            (\<exists>x \<in> {ss_root r} \<union> set_option (ss_label r). like (text_chars ''%'' @ trim_chars arg @ text_chars ''%'') x)) (sd_rows db) of
          [] \<Rightarrow> handle_switch True like mid now c t arg db = (Ok SwitchNone, db)
        | [s] \<Rightarrow>
            if current_session c t db = Some s then handle_switch True like mid now c t arg db = (Ok SwitchAlready, db)
            else \<exists>db'. handle_switch True like mid now c t arg db = (Ok (SwitchTo s), db')
                 \<and> map_option ss_id (current_session c t db') = Some (ss_id s)
                 \<and> (\<forall>c' t'. (c', t') \<noteq> (c, t) \<longrightarrow>
                       filter (\<lambda>r. ss_chat r = c' \<and> ss_thread r = t') (sd_rows db') = filter (\<lambda>r. ss_chat r = c' \<and> ss_thread r = t') (sd_rows (served mid db)))
        | found \<Rightarrow> handle_switch True like mid now c t arg db = (Ok (SwitchMany found), db)))"
proof (intro conjI impI)
  have ok: "sessions_ok db" unfolding db_def by (rule sessions_ok_run[OF sessions_ok_empty])
  then show "length (filter (\<lambda>r. ss_chat r = c \<and> ss_thread r = t \<and> ss_active r) (sd_rows db)) \<le> 1" by (simp add: sessions_ok_def count_where_def active_in_def[abs_def] in_scope_def conj_assoc)
  assume "trim_chars arg \<noteq> []"
  from switch_effect[OF ok this, unfolded current_session in_scope_def[abs_def]] show "case filter (\<lambda>r. ss_chat r = c \<and> ss_thread r = t \<and>
            (\<exists>x \<in> {ss_root r} \<union> set_option (ss_label r). like (text_chars ''%'' @ trim_chars arg @ text_chars ''%'') x)) (sd_rows db) of
          [] \<Rightarrow> handle_switch True like mid now c t arg db = (Ok SwitchNone, db)
        | [s] \<Rightarrow>
            if current_session c t db = Some s then handle_switch True like mid now c t arg db = (Ok SwitchAlready, db)
            else \<exists>db'. handle_switch True like mid now c t arg db = (Ok (SwitchTo s), db')
                 \<and> map_option ss_id (current_session c t db') = Some (ss_id s)
                 \<and> (\<forall>c' t'. (c', t') \<noteq> (c, t) \<longrightarrow>
                       filter (\<lambda>r. ss_chat r = c' \<and> ss_thread r = t') (sd_rows db') = filter (\<lambda>r. ss_chat r = c' \<and> ss_thread r = t') (sd_rows (served mid db)))
        | found \<Rightarrow> handle_switch True like mid now c t arg db = (Ok (SwitchMany found), db)" .
qed (rule prepare_effect[unfolded current_session], rule new_effect[unfolded current_session])

lemma one_session_per_conversation_witness:
  "let db = served [CreateReq 1 5 0 [65] None, DeactivateReq 5 0, CreateReq 2 5 0 [66] (Some (text_chars ''work'')), CreateReq 3 6 0 [67] None] no_sessions in
     fst (handle_switch True (\<lambda>p x. p = text_chars ''%A%'' \<and> x = [65]) [] 4 5 0 (text_chars ''A'') db)
       = Ok (SwitchTo \<lparr>ss_id = 1, ss_chat = 5, ss_thread = 0, ss_root = [65], ss_label = None, ss_active = False, ss_created = 1, ss_used = 1\<rparr>)
     \<and> map_option ss_id (get_active_session 5 0 (snd (handle_switch True (\<lambda>p x. p = text_chars ''%A%'' \<and> x = [65]) [] 4 5 0 (text_chars ''A'') db))) = Some 1"
proof -
  let ?ops = "[CreateReq 1 5 0 [65] None, DeactivateReq 5 0, CreateReq 2 5 0 [66] (Some (text_chars ''work'')), CreateReq 3 6 0 [67] None]"
  let ?db = "served ?ops no_sessions"
  let ?like = "\<lambda>p x. p = text_chars ''%A%'' \<and> x = [65 :: nat]"
  let ?s = "\<lparr>ss_id = 1, ss_chat = 5, ss_thread = 0, ss_root = [65], ss_label = None, ss_active = False, ss_created = 1, ss_used = 1\<rparr>"
  have f: "filter (\<lambda>r. ss_chat r = 5 \<and> ss_thread r = 0 \<and>
      (\<exists>x \<in> {ss_root r} \<union> set_option (ss_label r). ?like (text_chars ''%'' @ trim_chars (text_chars ''A'') @ text_chars ''%'') x)) (sd_rows ?db) = [?s]"
    by code_simp
  have g: "current_session 5 0 ?db \<noteq> Some ?s" by code_simp
  have n: "trim_chars (text_chars ''A'') \<noteq> []" by code_simp
  obtain db' where "handle_switch True ?like [] 4 5 0 (text_chars ''A'') ?db = (Ok (SwitchTo ?s), db')"
    "map_option ss_id (current_session 5 0 db') = Some 1"
    using one_session_per_conversation[where ops = ?ops and mid = "[]" and c = 5 and t = 0 and like = ?like and now = 4
      and arg = "text_chars ''A''" and name = "[]" and uuid = "[]" and label = None and trunc = id,
      THEN conjunct2, THEN conjunct2, THEN conjunct2, rule_format, OF n] g
    unfolding f by auto
  then show ?thesis by (simp add: Let_def current_session)
qed

text \<open>A message that arrives while \<^verbatim>\<open>/new\<close> waits for its first answer: the turn of the old worker makes a
  session, and the command fails after it deactivated the one before.\<close>

lemma new_loses_to_a_turn:
  "handle_new True [CreateReq 2 5 0 [66] None] 3 5 0 [67] (text_chars ''work'') id (served [CreateReq 1 5 0 [65] None] no_sessions)
   = (Err SessionUnique, served [CreateReq 1 5 0 [65] None, DeactivateReq 5 0, CreateReq 2 5 0 [66] None] no_sessions)"
  by code_simp

end
