(* ===== verification/Interview.thy ===== *)
theory Interview
  imports Rich_Content
begin

text \<open>
  The interview of a new agent.  Tables and transactions are
  \<^verbatim>\<open>right-db/src/bootstrap_answers.rs\<close>; a turn of the interview is
  \<^verbatim>\<open>run_bootstrap_interview_turn_ipc\<close> of \<^verbatim>\<open>bot/src/telegram/worker.rs\<close>, which sends requests to the
  owner of the tables.  The same file keeps the turn as it was on a connection of its own, compiled
  for its tests: it is the reference the tests check.
\<close>

section \<open>Tables\<close>

definition STAGES :: "chars list" where
  "STAGES = map text_chars [''user_name'', ''agent_name'', ''nature'', ''vibe'', ''emoji'']"

record boot_owner =
  bo_chat :: int
  bo_thread :: int

record answer_row =
  ba_chat :: int
  ba_thread :: int
  ba_stage :: chars
  ba_answer :: chars
  ba_source :: int
  ba_at :: millis

record question_row =
  bq_chat :: int
  bq_thread :: int
  bq_stage :: chars
  bq_message :: int
  bq_at :: millis

text \<open>\<^verbatim>\<open>bootstrap_interview\<close> holds at most the row with id 1.\<close>

record interview =
  iv_owner :: "boot_owner option"
  iv_answers :: "answer_row list"
  iv_questions :: "question_row list"

datatype boot_db_error = EmptyAnswer | UnknownStage chars | BootConstraint

datatype claim_outcome = Claimed | AlreadyOwned boot_owner

datatype answer_outcome =
    AnswerRecorded chars "chars option"
  | AnswerNotOwner "boot_owner option"
  | QuestionNotIssued chars
  | SourceNotAfterQuestion chars

datatype record_outcome =
    StageRecorded
  | StageOutOfOrder "chars option"
  | StageNotOwner "boot_owner option"
  | StageNotIssued
  | SourceAlreadyUsed

datatype question_outcome =
    QuestionRecorded
  | QuestionOutOfOrder "chars option"
  | QuestionNotOwner "boot_owner option"

section \<open>Transactions\<close>

definition answer_in :: "int \<Rightarrow> int \<Rightarrow> answer_row \<Rightarrow> bool" where
  "answer_in c t r = (ba_chat r = c \<and> ba_thread r = t)"

definition question_in :: "int \<Rightarrow> int \<Rightarrow> question_row \<Rightarrow> bool" where
  "question_in c t r = (bq_chat r = c \<and> bq_thread r = t)"

definition claim_owner :: "int \<Rightarrow> int \<Rightarrow> interview \<Rightarrow> claim_outcome \<times> interview" where
  "claim_owner c t iv =
     (case iv_owner iv of
        None \<Rightarrow> (Claimed, iv\<lparr>iv_owner := Some \<lparr>bo_chat = c, bo_thread = t\<rparr>\<rparr>)
      | Some ow \<Rightarrow> (AlreadyOwned ow, iv))"

definition canonical_stage :: "chars \<Rightarrow> (boot_db_error, chars) result" where
  "canonical_stage s = (case find (\<lambda>c. c = s) STAGES of None \<Rightarrow> Err (UnknownStage s) | Some c \<Rightarrow> Ok c)"

definition validated_stage :: "chars \<Rightarrow> (boot_db_error, chars) result" where
  "validated_stage s = canonical_stage (trim_chars s)"

definition recorded_stages :: "int \<Rightarrow> int \<Rightarrow> interview \<Rightarrow> chars list" where
  "recorded_stages c t iv = map ba_stage (filter (answer_in c t) (iv_answers iv))"

definition first_missing_from_recorded :: "chars list \<Rightarrow> chars option" where
  "first_missing_from_recorded recorded = find (\<lambda>s. s \<notin> set recorded) STAGES"

definition first_missing_stage :: "int \<Rightarrow> int \<Rightarrow> interview \<Rightarrow> chars option" where
  "first_missing_stage c t iv = first_missing_from_recorded (recorded_stages c t iv)"

definition missing_stages :: "int \<Rightarrow> int \<Rightarrow> interview \<Rightarrow> chars list" where
  "missing_stages c t iv = filter (\<lambda>s. s \<notin> set (recorded_stages c t iv)) STAGES"

definition issued_question_stage :: "int \<Rightarrow> int \<Rightarrow> interview \<Rightarrow> (boot_db_error, chars option) result" where
  "issued_question_stage c t iv =
     (case find (question_in c t) (iv_questions iv) of
        None \<Rightarrow> Ok None
      | Some q \<Rightarrow> bind_result (canonical_stage (bq_stage q)) (\<lambda>s. Ok (Some s)))"

definition upsert_question :: "question_row \<Rightarrow> question_row list \<Rightarrow> question_row list" where
  "upsert_question q t =
     (let key = (\<lambda>r. question_in (bq_chat q) (bq_thread q) r \<and> bq_stage r = bq_stage q) in
      if list_ex key t then update_where key (\<lambda>r. r\<lparr>bq_message := bq_message q, bq_at := bq_at q\<rparr>) t
      else t @ [q])"

definition record_question_issue ::
    "millis \<Rightarrow> chars \<Rightarrow> int \<Rightarrow> int \<Rightarrow> int \<Rightarrow> interview \<Rightarrow> (boot_db_error, question_outcome) result \<times> interview" where
  "record_question_issue now stage0 c t message iv =
     (case validated_stage stage0 of
        Err e \<Rightarrow> (Err e, iv)
      | Ok stage \<Rightarrow>
          if iv_owner iv \<noteq> Some \<lparr>bo_chat = c, bo_thread = t\<rparr> then (Ok (QuestionNotOwner (iv_owner iv)), iv)
          else (let expected = first_missing_from_recorded (recorded_stages c t iv) in
            if expected \<noteq> Some stage then (Ok (QuestionOutOfOrder expected), iv)
            else (Ok QuestionRecorded,
              iv\<lparr>iv_questions := upsert_question
                   \<lparr>bq_chat = c, bq_thread = t, bq_stage = stage, bq_message = message, bq_at = now\<rparr> (iv_questions iv)\<rparr>)))"

text \<open>The table refuses a row with the key of another, and a second answer taken from one message.\<close>

definition insert_answer :: "answer_row \<Rightarrow> answer_row list \<Rightarrow> (boot_db_error, answer_row list) result" where
  "insert_answer a t =
     (if list_ex (\<lambda>r. answer_in (ba_chat a) (ba_thread a) r \<and> (ba_stage r = ba_stage a \<or> ba_source r = ba_source a)) t
      then Err BootConstraint else Ok (t @ [a]))"

definition record_current_answer ::
    "millis \<Rightarrow> chars \<Rightarrow> int \<Rightarrow> int \<Rightarrow> int \<Rightarrow> interview \<Rightarrow> (boot_db_error, answer_outcome) result \<times> interview" where
  "record_current_answer now answer0 c t source iv =
     (let answer = trim_chars answer0 in
      if answer = [] then (Err EmptyAnswer, iv)
      else if iv_owner iv \<noteq> Some \<lparr>bo_chat = c, bo_thread = t\<rparr> then (Ok (AnswerNotOwner (iv_owner iv)), iv)
      else (let recorded = recorded_stages c t iv in
        case first_missing_from_recorded recorded of
          None \<Rightarrow> (Ok (QuestionNotIssued (text_chars ''emoji'')), iv)
        | Some stage \<Rightarrow>
            (case find (\<lambda>q. question_in c t q \<and> bq_stage q = stage) (iv_questions iv) of
               None \<Rightarrow> (Ok (QuestionNotIssued stage), iv)
             | Some q \<Rightarrow>
                 if source \<le> bq_message q then (Ok (SourceNotAfterQuestion stage), iv)
                 else (case insert_answer \<lparr>ba_chat = c, ba_thread = t, ba_stage = stage, ba_answer = answer,
                                           ba_source = source, ba_at = now\<rparr> (iv_answers iv) of
                     Err e \<Rightarrow> (Err e, iv)
                   | Ok answers \<Rightarrow>
                       (Ok (AnswerRecorded stage (first_missing_from_recorded (recorded @ [stage]))),
                        iv\<lparr>iv_answers := answers,
                           iv_questions := delete_where (\<lambda>q. question_in c t q \<and> bq_stage q = stage) (iv_questions iv)\<rparr>)))))"

definition record_answer ::
    "millis \<Rightarrow> chars \<Rightarrow> chars \<Rightarrow> int \<Rightarrow> int \<Rightarrow> int \<Rightarrow> interview \<Rightarrow> (boot_db_error, record_outcome) result \<times> interview" where
  "record_answer now stage0 answer c t source iv =
     (case validated_stage stage0 of
        Err e \<Rightarrow> (Err e, iv)
      | Ok stage \<Rightarrow>
          (let expected = first_missing_stage c t iv in
           if expected \<noteq> Some stage then (Ok (StageOutOfOrder expected), iv)
           else (case record_current_answer now answer c t source iv of
               (Ok (AnswerRecorded s n), iv') \<Rightarrow> (Ok StageRecorded, iv')
             | (Ok (AnswerNotOwner ow), iv') \<Rightarrow> (Ok (StageNotOwner ow), iv')
             | (Ok (QuestionNotIssued s), iv') \<Rightarrow> (Ok StageNotIssued, iv')
             | (Ok (SourceNotAfterQuestion s), iv') \<Rightarrow> (Ok StageNotIssued, iv')
             | (Err BootConstraint, iv') \<Rightarrow> (Ok SourceAlreadyUsed, iv')
             | (Err e, iv') \<Rightarrow> (Err e, iv'))))"

text \<open>\<^verbatim>\<open>ORDER BY CASE\<close>: an unknown stage would be NULL, which sorts first.\<close>

fun stage_rank_from :: "nat \<Rightarrow> chars list \<Rightarrow> chars \<Rightarrow> nat" where
  "stage_rank_from n [] s = 0"
| "stage_rank_from n (x # xs) s = (if x = s then n else stage_rank_from (Suc n) xs s)"

definition stage_rank :: "chars \<Rightarrow> nat" where
  "stage_rank s = stage_rank_from 1 STAGES s"

definition recorded_answers :: "int \<Rightarrow> int \<Rightarrow> interview \<Rightarrow> (boot_db_error, (chars \<times> chars) list) result" where
  "recorded_answers c t iv =
     foldr (\<lambda>r acc. bind_result (canonical_stage (ba_stage r)) (\<lambda>s. bind_result acc (\<lambda>xs. Ok ((s, ba_answer r) # xs))))
       (sort_key (\<lambda>r. stage_rank (ba_stage r)) (filter (answer_in c t) (iv_answers iv))) (Ok [])"

definition clear_interview :: "interview \<Rightarrow> nat \<times> interview" where
  "clear_interview iv = (length (iv_answers iv), \<lparr>iv_owner = None, iv_answers = [], iv_questions = []\<rparr>)"

section \<open>A turn\<close>

text \<open>What happens to a request of the bot to the owner: it is carried out and answered, it never
  arrives, or it is carried out and the answer is lost.\<close>

datatype fate = FateAnswered | FateRefused | FateUnheard

record turn_fates =
  tf_claim :: fate
  tf_stage :: fate
  tf_issued :: fate
  tf_answer :: fate
  tf_state :: fate
  tf_issue :: fate

record prompt_state =
  pp_stage :: chars
  pp_user_name :: "chars option"
  pp_agent_name :: "chars option"
  pp_nature :: "chars option"
  pp_vibe :: "chars option"
  pp_emoji :: "chars option"

record boot_output =
  bt_content :: "rich_content option"
  bt_stage :: "chars option"
  bt_complete :: "bool option"

datatype shape_error = WrongStage "chars option" | WrongCompletion "bool option" | EmptyContent

datatype interview_error =
    OwnerFailed
  | OwnerRefused boot_db_error
  | OwnerStage chars
  | ModelFailed string
  | ModelShape shape_error
  | SendFailed string
  | IssueRejected question_outcome
  | AnswerRejected answer_outcome

datatype interview_outcome = InterviewHandled | InterviewFinal prompt_state

definition request :: "fate \<Rightarrow> interview \<Rightarrow> (boot_db_error, 'a) result \<times> interview \<Rightarrow> (interview_error, 'a) result \<times> interview" where
  "request f old rn =
     (case f of
        FateRefused \<Rightarrow> (Err OwnerFailed, old)
      | FateUnheard \<Rightarrow> (Err OwnerFailed, snd rn)
      | FateAnswered \<Rightarrow> ((case fst rn of Err e \<Rightarrow> Err (OwnerRefused e) | Ok v \<Rightarrow> Ok v), snd rn))"

text \<open>The map collected from the rows keeps the last entry of a stage.\<close>

definition prompt_of_answers :: "chars \<Rightarrow> (chars \<times> chars) list \<Rightarrow> prompt_state" where
  "prompt_of_answers stage as =
     (let m = map_of (rev as) in
      \<lparr>pp_stage = stage, pp_user_name = m (text_chars ''user_name''), pp_agent_name = m (text_chars ''agent_name''),
       pp_nature = m (text_chars ''nature''), pp_vibe = m (text_chars ''vibe''), pp_emoji = m (text_chars ''emoji'')\<rparr>)"

definition recorded_state :: "fate \<Rightarrow> chars \<Rightarrow> int \<Rightarrow> int \<Rightarrow> interview \<Rightarrow> (interview_error, prompt_state) result" where
  "recorded_state f stage c t iv =
     bind_result (fst (request f iv (recorded_answers c t iv, iv))) (\<lambda>as. Ok (prompt_of_answers stage as))"

definition final_state :: "fate \<Rightarrow> int \<Rightarrow> int \<Rightarrow> interview \<Rightarrow> (interview_error, interview_outcome) result" where
  "final_state f c t iv = bind_result (recorded_state f (text_chars ''final'') c t iv) (\<lambda>s. Ok (InterviewFinal s))"

definition validate_bootstrap_output :: "boot_output \<Rightarrow> chars \<Rightarrow> bool \<Rightarrow> (shape_error, chars) result" where
  "validate_bootstrap_output out stage final_mode =
     (if bt_stage out \<noteq> Some stage then Err (WrongStage (bt_stage out))
      else if bt_complete out \<noteq> Some final_mode then Err (WrongCompletion (bt_complete out))
      else (case bt_content out of
          None \<Rightarrow> Err EmptyContent
        | Some rc \<Rightarrow> if normalized_text rc = [] then Err EmptyContent else Ok (normalized_text rc)))"

definition CONFLICT_MESSAGE :: chars where
  "CONFLICT_MESSAGE = text_chars ''Onboarding is already in progress in another conversation.''"

type_synonym interview_turn = "interview \<times> chars list \<times> (interview_error, interview_outcome) result"

text \<open>The second half of a turn: the model words the question of the stage, it is sent, and its issue
  is recorded under the message id Telegram gave it.  The texts handed to \<open>send\<close> are part of the result.\<close>

definition ask_stage ::
    "millis \<Rightarrow> turn_fates \<Rightarrow> (prompt_state \<Rightarrow> (string, boot_output) result) \<Rightarrow> (chars \<Rightarrow> (string, int) result) \<Rightarrow>
     int \<Rightarrow> int \<Rightarrow> chars \<Rightarrow> interview \<Rightarrow> interview_turn" where
  "ask_stage now fs model send c t stage iv =
     (case recorded_state (tf_state fs) stage c t iv of
        Err e \<Rightarrow> (iv, [], Err e)
      | Ok state \<Rightarrow>
          (case model state of
             Err e \<Rightarrow> (iv, [], Err (ModelFailed e))
           | Ok out \<Rightarrow>
               (case validate_bootstrap_output out stage False of
                  Err e \<Rightarrow> (iv, [], Err (ModelShape e))
                | Ok question \<Rightarrow>
                    (case send question of
                       Err e \<Rightarrow> (iv, [question], Err (SendFailed e))
                     | Ok message \<Rightarrow>
                         (case request (tf_issue fs) iv (record_question_issue now stage c t message iv) of
                            (Err e, iv') \<Rightarrow> (iv', [question], Err e)
                          | (Ok QuestionRecorded, iv') \<Rightarrow> (iv', [question], Ok InterviewHandled)
                          | (Ok oc, iv') \<Rightarrow> (iv', [question], Err (IssueRejected oc)))))))"

text \<open>The first half: a single message that follows the issued question of the stage is its answer.
  \<open>None\<close> continues with the question.\<close>

definition take_answer ::
    "millis \<Rightarrow> turn_fates \<Rightarrow> int \<Rightarrow> int \<Rightarrow> (int \<times> chars) list \<Rightarrow> chars \<Rightarrow> chars option \<Rightarrow> interview \<Rightarrow>
     (interview_error, interview_outcome) result option \<times> interview" where
  "take_answer now fs c t messages stage issued iv =
     (if length messages = 1 \<and> issued = Some stage
      then (case request (tf_answer fs) iv (record_current_answer now (snd (hd messages)) c t (fst (hd messages)) iv) of
          (Err e, iv') \<Rightarrow> (Some (Err e), iv')
        | (Ok (AnswerRecorded s None), iv') \<Rightarrow> (Some (final_state (tf_state fs) c t iv'), iv')
        | (Ok oc, iv') \<Rightarrow> (None, iv'))
      else (None, iv))"

definition interview_turn_ipc ::
    "millis \<Rightarrow> turn_fates \<Rightarrow> (prompt_state \<Rightarrow> (string, boot_output) result) \<Rightarrow> (chars \<Rightarrow> (string, int) result) \<Rightarrow>
     int \<Rightarrow> int \<Rightarrow> (int \<times> chars) list \<Rightarrow> interview \<Rightarrow> interview_turn" where
  "interview_turn_ipc now fs model send c t messages iv =
     (case request (tf_claim fs) iv (apfst Ok (claim_owner c t iv)) of
        (Err e, iv1) \<Rightarrow> (iv1, [], Err e)
      | (Ok claim, iv1) \<Rightarrow>
          if claim \<noteq> Claimed \<and> claim \<noteq> AlreadyOwned \<lparr>bo_chat = c, bo_thread = t\<rparr>
          then (iv1, [CONFLICT_MESSAGE],
                case send CONFLICT_MESSAGE of Err e \<Rightarrow> Err (SendFailed e) | Ok m \<Rightarrow> Ok InterviewHandled)
          else (case fst (request (tf_stage fs) iv1 (Ok (first_missing_stage c t iv1), iv1)) of
              Err e \<Rightarrow> (iv1, [], Err e)
            | Ok None \<Rightarrow> (iv1, [], final_state (tf_state fs) c t iv1)
            | Ok (Some stage_name) \<Rightarrow>
                (case find (\<lambda>s. s = stage_name) STAGES of
                   None \<Rightarrow> (iv1, [], Err (OwnerStage stage_name))
                 | Some stage \<Rightarrow>
                     (case fst (request (tf_issued fs) iv1 (issued_question_stage c t iv1, iv1)) of
                        Err e \<Rightarrow> (iv1, [], Err e)
                      | Ok issued \<Rightarrow>
                          (case take_answer now fs c t messages stage issued iv1 of
                             (Some r, iv2) \<Rightarrow> (iv2, [], r)
                           | (None, iv2) \<Rightarrow> ask_stage now fs model send c t stage iv2)))))"

section \<open>The reference turn\<close>

text \<open>The turn on a connection of its own, as the tests of \<^verbatim>\<open>worker.rs\<close> run it.  The model is asked up to
  three times for a question of the right shape; \<open>model n\<close> is its answer to the \<open>n\<close>-th attempt.\<close>

definition QUESTION_ATTEMPTS :: nat where "QUESTION_ATTEMPTS = 3"

fun question_attempts ::
    "nat \<Rightarrow> nat \<Rightarrow> (nat \<Rightarrow> prompt_state \<Rightarrow> (string, boot_output) result) \<Rightarrow> prompt_state \<Rightarrow> chars \<Rightarrow> (interview_error, chars) result" where
  "question_attempts n 0 model state stage = Err (ModelFailed ''bootstrap question produced no attempt'')"
| "question_attempts n (Suc k) model state stage =
     (let r = (case model n state of Err e \<Rightarrow> Err (ModelFailed e)
                | Ok out \<Rightarrow> (case validate_bootstrap_output out stage False of Err e \<Rightarrow> Err (ModelShape e) | Ok q \<Rightarrow> Ok q))
      in case r of Ok q \<Rightarrow> Ok q
         | Err e \<Rightarrow> if k = 0 then Err e else question_attempts (Suc n) k model state stage)"

definition deliver_bootstrap_question ::
    "millis \<Rightarrow> (nat \<Rightarrow> prompt_state \<Rightarrow> (string, boot_output) result) \<Rightarrow> (chars \<Rightarrow> (string, int) result) \<Rightarrow>
     int \<Rightarrow> int \<Rightarrow> chars \<Rightarrow> interview \<Rightarrow> interview_turn" where
  "deliver_bootstrap_question now model send c t stage iv =
     (case recorded_answers c t iv of
        Err e \<Rightarrow> (iv, [], Err (OwnerRefused e))
      | Ok as \<Rightarrow>
          (case question_attempts 0 QUESTION_ATTEMPTS model (prompt_of_answers stage as) stage of
             Err e \<Rightarrow> (iv, [], Err e)
           | Ok question \<Rightarrow>
               (case send question of
                  Err e \<Rightarrow> (iv, [question], Err (SendFailed e))
                | Ok message \<Rightarrow>
                    (case record_question_issue now stage c t message iv of
                       (Err e, iv') \<Rightarrow> (iv', [question], Err (OwnerRefused e))
                     | (Ok QuestionRecorded, iv') \<Rightarrow> (iv', [question], Ok InterviewHandled)
                     | (Ok oc, iv') \<Rightarrow> (iv', [question], Err (IssueRejected oc))))))"

definition reference_final :: "int \<Rightarrow> int \<Rightarrow> interview \<Rightarrow> (interview_error, interview_outcome) result" where
  "reference_final c t iv =
     (case recorded_answers c t iv of
        Err e \<Rightarrow> Err (OwnerRefused e)
      | Ok as \<Rightarrow> Ok (InterviewFinal (prompt_of_answers (text_chars ''final'') as)))"

definition interview_turn_reference ::
    "millis \<Rightarrow> (nat \<Rightarrow> prompt_state \<Rightarrow> (string, boot_output) result) \<Rightarrow> (chars \<Rightarrow> (string, int) result) \<Rightarrow>
     int \<Rightarrow> int \<Rightarrow> (int \<times> chars) list \<Rightarrow> interview \<Rightarrow> interview_turn" where
  "interview_turn_reference now model send c t messages iv =
     (let (claim, iv1) = claim_owner c t iv in
      if claim \<noteq> Claimed \<and> claim \<noteq> AlreadyOwned \<lparr>bo_chat = c, bo_thread = t\<rparr>
      then (iv1, [CONFLICT_MESSAGE],
            case send CONFLICT_MESSAGE of Err e \<Rightarrow> Err (SendFailed e) | Ok m \<Rightarrow> Ok InterviewHandled)
      else (case first_missing_stage c t iv1 of
          None \<Rightarrow> (iv1, [], reference_final c t iv1)
        | Some stage \<Rightarrow>
            (case issued_question_stage c t iv1 of
               Err e \<Rightarrow> (iv1, [], Err (OwnerRefused e))
             | Ok issued \<Rightarrow>
                 if length messages \<noteq> 1 \<or> issued \<noteq> Some stage
                 then deliver_bootstrap_question now model send c t stage iv1
                 else (case record_current_answer now (snd (hd messages)) c t (fst (hd messages)) iv1 of
                     (Err e, iv2) \<Rightarrow> (iv2, [], Err (OwnerRefused e))
                   | (Ok (AnswerRecorded s (Some nxt)), iv2) \<Rightarrow>
                       deliver_bootstrap_question now model send c t nxt iv2
                   | (Ok (AnswerRecorded s None), iv2) \<Rightarrow> (iv2, [], reference_final c t iv2)
                   | (Ok oc, iv2) \<Rightarrow> (iv2, [], Err (AnswerRejected oc))))))"

end
