(* ===== verification/Bootstrap_Final.thy ===== *)
theory Bootstrap_Final
  imports Identity_Mirror Sessions Interview
begin

text \<open>
  The end of the interview and its reversal.  \<^verbatim>\<open>finish_verified_bootstrap\<close>, the recovery at the start of the
  bot and the use of both in a turn are \<^verbatim>\<open>bot/src/telegram/worker.rs\<close>; the reset of an agent to its
  interview is \<^verbatim>\<open>right-agent/src/rebootstrap.rs\<close>.  Each is a chain of actions on the files of the
  agent and on the tables of the owner.
\<close>

section \<open>State\<close>

text \<open>The marker \<^verbatim>\<open>BOOTSTRAP.md\<close>: its flag says whether the instructions were written in full.\<close>

datatype boot_marker = NoMarker | MarkerFile bool | MarkerOther

record boot_intent =
  it_chat :: int
  it_thread :: int
  it_root :: chars

text \<open>The file \<^verbatim>\<open>.bootstrap-finalization.json\<close>: absent, or a text that parses to an intent or does not.\<close>

datatype intent_file = NoIntent | IntentFile "boot_intent option"

record boot_world =
  bw_marker :: boot_marker
  bw_intent :: intent_file
  bw_mirror :: mirror_fs
  bw_guest :: "string \<Rightarrow> chars option"
  bw_sessions :: sessions_db
  bw_interview :: interview
  bw_host_backup :: "string \<Rightarrow> chars option"
  bw_guest_backup :: "string \<Rightarrow> chars option"

datatype boot_failure =
    BootIo string
  | BootOwner string
  | BootStageMissing chars
  | BootSessionGone
  | BootEmptyRoot
  | BootIntentMalformed
  | BootMarkerNotFile
  | BootMirror mirror_error
  | BootRefused
  | BootSandboxDown
  | BootStillPresent string

type_synonym 'a boot_proc = "(boot_world, boot_failure, 'a) proc"

datatype verification = Verified | AnswersMissing | IdentityMissing | InfrastructureError

section \<open>Actions\<close>

definition missing_stages_request :: "int \<Rightarrow> int \<Rightarrow> chars list boot_proc" where
  "missing_stages_request c t = paction (BootOwner ''missing stages'') (\<lambda>w. (Ok (missing_stages c t (bw_interview w)), w))"

definition first_missing_request :: "int \<Rightarrow> int \<Rightarrow> chars option boot_proc" where
  "first_missing_request c t = paction (BootOwner ''first missing stage'') (\<lambda>w. (Ok (first_missing_stage c t (bw_interview w)), w))"

definition active_session_request :: "int \<Rightarrow> int \<Rightarrow> session_row option boot_proc" where
  "active_session_request c t = paction (BootOwner ''active session'') (\<lambda>w. (Ok (get_active_session c t (bw_sessions w)), w))"

definition find_session_request :: "int \<Rightarrow> int \<Rightarrow> chars \<Rightarrow> session_row option boot_proc" where
  "find_session_request c t root = paction (BootOwner ''find session'') (\<lambda>w. (Ok (find_session_by_root c t root (bw_sessions w)), w))"

definition deactivate_request :: "int \<Rightarrow> int \<Rightarrow> unit boot_proc" where
  "deactivate_request c t = paction (BootOwner ''deactivate'') (\<lambda>w.
     (Ok (), w\<lparr>bw_sessions := snd (deactivate_current_session c t (bw_sessions w))\<rparr>))"

definition activate_request :: "millis \<Rightarrow> int \<Rightarrow> unit boot_proc" where
  "activate_request now i = paction (BootOwner ''activate'') (\<lambda>w.
     case activate_session now i (bw_sessions w) of
       (Err e, db) \<Rightarrow> (Err (BootOwner ''not found''), w\<lparr>bw_sessions := db\<rparr>)
     | (Ok u, db) \<Rightarrow> (Ok (), w\<lparr>bw_sessions := db\<rparr>))"

text \<open>The intent is written to a temporary file that a rename puts in place.\<close>

definition write_intent :: "boot_intent \<Rightarrow> unit boot_proc" where
  "write_intent it = paction (BootIo ''write intent'') (\<lambda>w. (Ok (), w\<lparr>bw_intent := IntentFile (Some it)\<rparr>))"

definition clear_intent :: "unit boot_proc" where
  "clear_intent = paction (BootIo ''clear intent'') (\<lambda>w. (Ok (), w\<lparr>bw_intent := NoIntent\<rparr>))"

definition remove_marker :: "unit boot_proc" where
  "remove_marker = paction (BootIo ''remove marker'') (\<lambda>w.
     if bw_marker w = MarkerOther then (Err BootMarkerNotFile, w) else (Ok (), w\<lparr>bw_marker := NoMarker\<rparr>))"

text \<open>The marker is created and then filled; a file that is there is left as it is.\<close>

definition restore_marker :: "unit boot_proc" where
  "restore_marker =
     pbind (paction (BootIo ''inspect marker'') (\<lambda>w. (Ok (bw_marker w), w))) (\<lambda>m. case m of
         MarkerFile b \<Rightarrow> pdone ()
       | MarkerOther \<Rightarrow> pfail BootMarkerNotFile
       | NoMarker \<Rightarrow>
           pthen (paction (BootIo ''create marker'') (\<lambda>w. (Ok (), w\<lparr>bw_marker := MarkerFile False\<rparr>)))
             (paction (BootIo ''write marker'') (\<lambda>w. (Ok (), w\<lparr>bw_marker := MarkerFile True\<rparr>))))"

definition new_intent :: "int \<Rightarrow> int \<Rightarrow> chars \<Rightarrow> boot_intent boot_proc" where
  "new_intent c t root =
     (if root = [] then pfail BootEmptyRoot else pdone \<lparr>it_chat = c, it_thread = t, it_root = root\<rparr>)"

definition read_intent :: "boot_intent option boot_proc" where
  "read_intent =
     pbind (paction (BootIo ''read intent'') (\<lambda>w. (Ok (bw_intent w), w))) (\<lambda>f. case f of
         NoIntent \<Rightarrow> pdone None
       | IntentFile None \<Rightarrow> pthen restore_marker (pfail BootIntentMalformed)
       | IntentFile (Some it) \<Rightarrow>
           if it_root it = [] then pthen restore_marker (pfail BootEmptyRoot) else pdone (Some it))"

section \<open>Verification\<close>

definition guest_complete :: "boot_world \<Rightarrow> bool" where
  "guest_complete w = list_all (\<lambda>n. bw_guest w n \<noteq> None) IDENTITY_FILES"

definition sync_mirror :: "unit boot_proc" where
  "sync_mirror = pbind (plook bw_guest) (\<lambda>guest. (\<lambda>s.
     case pzoom bw_mirror (\<lambda>m w. w\<lparr>bw_mirror := m\<rparr>) (sync_identity_mirror_from_sandbox guest) s of
       (Returned (Inl e), s') \<Rightarrow> (Returned (Err (BootMirror e)), s')
     | (Returned (Inr u), s') \<Rightarrow> (Returned (Ok u), s')
     | (Died, s') \<Rightarrow> (Died, s')))"

definition verify_with_probe :: "bool \<Rightarrow> verification boot_proc" where
  "verify_with_probe up =
     (if \<not> up then pdone InfrastructureError
      else pcatch
        (pbind (paction (BootIo ''probe'') (\<lambda>w. (Ok (guest_complete w), w))) (\<lambda>present.
           if \<not> present then pdone IdentityMissing
           else pthen sync_mirror (pbind (plook (\<lambda>w. host_identity_mirror_complete (bw_mirror w))) (\<lambda>complete.
             pdone (if complete then Verified else IdentityMissing)))))
        (\<lambda>e. pdone InfrastructureError))"

definition verify_bootstrap :: "bool \<Rightarrow> int \<Rightarrow> int \<Rightarrow> verification boot_proc" where
  "verify_bootstrap up c t =
     pcatch (pbind (missing_stages_request c t) (\<lambda>stages. if stages \<noteq> [] then pdone AnswersMissing else verify_with_probe up))
       (\<lambda>e. pdone InfrastructureError)"

section \<open>Finishing and recovering\<close>

definition finish_verified_bootstrap :: "millis \<Rightarrow> int \<Rightarrow> int \<Rightarrow> chars \<Rightarrow> unit boot_proc" where
  "finish_verified_bootstrap now c t root =
     pbind (first_missing_request c t) (\<lambda>missing. case missing of
       Some stage \<Rightarrow> pfail (BootStageMissing stage)
     | None \<Rightarrow>
       pbind (active_session_request c t) (\<lambda>session.
         case (case session of None \<Rightarrow> None | Some s \<Rightarrow> if ss_root s = root then Some s else None) of
           None \<Rightarrow> pfail BootSessionGone
         | Some s \<Rightarrow>
           pbind (new_intent c t root) (\<lambda>it.
           pthen (write_intent it)
           (pthen (deactivate_request c t)
           (pbind (pcatch (pthen remove_marker (pdone None)) (\<lambda>e. pdone (Some e))) (\<lambda>removal. case removal of
               Some e \<Rightarrow> pthen restore_marker (pthen (activate_request now (ss_id s)) (pthen clear_intent (pfail e)))
             | None \<Rightarrow> clear_intent))))))"

definition recover_bootstrap_finalization :: "millis \<Rightarrow> bool \<Rightarrow> unit boot_proc" where
  "recover_bootstrap_finalization now up =
     pbind read_intent (\<lambda>r. case r of
       None \<Rightarrow> pdone ()
     | Some it \<Rightarrow>
       pbind (verify_bootstrap up (it_chat it) (it_thread it)) (\<lambda>v.
       pbind (find_session_request (it_chat it) (it_thread it) (it_root it)) (\<lambda>session.
         case v of
           Verified \<Rightarrow>
             (case session of
                None \<Rightarrow> pfail BootSessionGone
              | Some s \<Rightarrow> pthen (deactivate_request (it_chat it) (it_thread it)) (pthen remove_marker clear_intent))
         | _ \<Rightarrow>
             pthen restore_marker
               (pthen (case session of None \<Rightarrow> pdone () | Some s \<Rightarrow> activate_request now (ss_id s)) (pfail BootRefused)))))"

text \<open>The end of a turn in bootstrap mode: what the user is told.\<close>

datatype turn_report = BootstrapComplete | BootstrapPending | BootstrapRestartNeeded

definition bootstrap_turn_end :: "millis \<Rightarrow> bool \<Rightarrow> int \<Rightarrow> int \<Rightarrow> chars \<Rightarrow> bool \<Rightarrow> turn_report boot_proc" where
  "bootstrap_turn_end now up c t root signaled =
     pbind
       (if \<not> signaled then pdone False
        else pbind (verify_bootstrap up c t) (\<lambda>v.
          if v = Verified
          then pcatch (pthen (finish_verified_bootstrap now c t root) (pdone True)) (\<lambda>e. pdone False)
          else pdone False))
     (\<lambda>completed.
       if completed then pdone BootstrapComplete
       else pcatch (pthen restore_marker (pdone BootstrapPending)) (\<lambda>e. pdone BootstrapRestartNeeded))"

section \<open>Back to the interview\<close>

fun each_file :: "(string \<Rightarrow> unit boot_proc) \<Rightarrow> string list \<Rightarrow> unit boot_proc" where
  "each_file f [] = pdone ()"
| "each_file f (n # ns) = pthen (f n) (each_file f ns)"

definition backup_host_file :: "string \<Rightarrow> unit boot_proc" where
  "backup_host_file n = paction (BootIo ''back up host file'') (\<lambda>w.
     case mf_dest (bw_mirror w) n of
       None \<Rightarrow> (Ok (), w)
     | Some (RegularFile c) \<Rightarrow> (Ok (), w\<lparr>bw_host_backup := (bw_host_backup w)(n := Some c)\<rparr>)
     | Some OtherEntry \<Rightarrow> (Err (BootIo ''not a file''), w))"

definition backup_guest_file :: "string \<Rightarrow> unit boot_proc" where
  "backup_guest_file n =
     pbind (paction (BootIo ''stat'') (\<lambda>w. (Ok (bw_guest w n \<noteq> None), w))) (\<lambda>present.
       if present
       then paction (BootIo ''back up guest file'') (\<lambda>w. (Ok (), w\<lparr>bw_guest_backup := (bw_guest_backup w)(n := bw_guest w n)\<rparr>))
       else pdone ())"

text \<open>A removal in the guest may report success and leave the file: \<open>takes\<close> says which removals take effect.
  That is why the file is looked for again.\<close>

definition delete_guest_file :: "(string \<Rightarrow> bool) \<Rightarrow> string \<Rightarrow> unit boot_proc" where
  "delete_guest_file takes n =
     pbind (paction (BootIo ''stat'') (\<lambda>w. (Ok (bw_guest w n \<noteq> None), w))) (\<lambda>present.
     pthen (if present
       then paction (BootIo ''remove'') (\<lambda>w. (Ok (), if takes n then w\<lparr>bw_guest := (bw_guest w)(n := None)\<rparr> else w))
       else pdone ())
     (pbind (paction (BootIo ''stat again'') (\<lambda>w. (Ok (bw_guest w n \<noteq> None), w))) (\<lambda>still.
       if still then pfail (BootStillPresent n) else pdone ())))"

definition delete_host_file :: "string \<Rightarrow> unit boot_proc" where
  "delete_host_file n = paction (BootIo ''remove'') (\<lambda>w.
     case mf_dest (bw_mirror w) n of
       Some OtherEntry \<Rightarrow> (Err (BootIo ''not a file''), w)
     | _ \<Rightarrow> (Ok (), w\<lparr>bw_mirror := (bw_mirror w)\<lparr>mf_dest := (mf_dest (bw_mirror w))(n := None)\<rparr>\<rparr>))"

text \<open>\<^verbatim>\<open>fs::write\<close> truncates the file and then fills it.\<close>

definition write_bootstrap_md :: "unit boot_proc" where
  "write_bootstrap_md =
     pthen (paction (BootIo ''create marker'') (\<lambda>w.
        if bw_marker w = MarkerOther then (Err BootMarkerNotFile, w) else (Ok (), w\<lparr>bw_marker := MarkerFile False\<rparr>)))
     (paction (BootIo ''write marker'') (\<lambda>w. (Ok (), w\<lparr>bw_marker := MarkerFile True\<rparr>)))"

definition deactivate_all_sessions :: "bool \<Rightarrow> nat boot_proc" where
  "deactivate_all_sessions has_db =
     (if \<not> has_db then pdone 0
      else paction (BootOwner ''deactivate sessions'') (\<lambda>w.
        (Ok (fst (deactivate_active_sessions (bw_sessions w))), w\<lparr>bw_sessions := snd (deactivate_active_sessions (bw_sessions w))\<rparr>)))"

definition clear_bootstrap_answers :: "bool \<Rightarrow> nat boot_proc" where
  "clear_bootstrap_answers has_db =
     (if \<not> has_db then pdone 0
      else paction (BootOwner ''clear answers'') (\<lambda>w.
        (Ok (fst (clear_interview (bw_interview w))), w\<lparr>bw_interview := snd (clear_interview (bw_interview w))\<rparr>)))"

text \<open>\<open>has_db\<close>: whether the agent has a database; \<open>up\<close>: whether its sandbox can be reached; \<open>takes\<close>: which
  removals in the guest take effect.\<close>

definition rebootstrap :: "bool \<Rightarrow> bool \<Rightarrow> (string \<Rightarrow> bool) \<Rightarrow> nat boot_proc" where
  "rebootstrap has_db up takes =
     pthen (paction (BootIo ''runtime not quiesced'') (\<lambda>w. (Ok (), w)))
     (pthen (paction (BootIo ''create backup dir'') (\<lambda>w. (Ok (), w)))
     (pthen (each_file backup_host_file IDENTITY_FILES)
     (pthen (paction BootSandboxDown (\<lambda>w. if up then (Ok (), w) else (Err BootSandboxDown, w)))
     (pthen (each_file backup_guest_file IDENTITY_FILES)
     (pthen (each_file (delete_guest_file takes) IDENTITY_FILES)
     (pthen (each_file delete_host_file IDENTITY_FILES)
     (pthen write_bootstrap_md
     (pbind (deactivate_all_sessions has_db) (\<lambda>n.
      pthen (clear_bootstrap_answers has_db)
     (pthen clear_intent (pdone n)))))))))))"

end
