(* ===== verification/Interview_Props.thy ===== *)
theory Interview_Props
  imports Interview
begin

text \<open>
  The interview stays in order whatever is requested of its owner; an answer is taken only for the question
  before it; the turn against the reference turn, where they agree and where they do not; how many turns an
  interview takes.
\<close>

section \<open>Stages\<close>

lemma length_STAGES [simp]: "length STAGES = 5"
  by (simp add: STAGES_def)

lemma distinct_STAGES [simp]: "distinct STAGES"
  by (simp add: STAGES_def text_chars_def)

lemma validated_STAGES: "s \<in> set STAGES \<Longrightarrow> validated_stage s = Ok s"
proof -
  have "\<forall>s \<in> set STAGES. validated_stage s = Ok s" by code_simp
  then show "s \<in> set STAGES \<Longrightarrow> validated_stage s = Ok s" by blast
qed

lemma canonical_STAGES: "s \<in> set STAGES \<Longrightarrow> canonical_stage s = Ok s"
proof -
  have "\<forall>s \<in> set STAGES. canonical_stage s = Ok s" by code_simp
  then show "s \<in> set STAGES \<Longrightarrow> canonical_stage s = Ok s" by blast
qed

lemma validated_in: "validated_stage s = Ok s' \<Longrightarrow> s' \<in> set STAGES"
  using nth_mem[of _ STAGES]
  by (auto simp: validated_stage_def canonical_stage_def find_Some_iff split: option.splits) (metis length_STAGES nth_mem)

lemma find_not_taken:
  "distinct xs \<Longrightarrow> find (\<lambda>s. s \<notin> set (take n xs)) xs = (if n < length xs then Some (xs ! n) else None)"
  by (auto simp: find_None_iff find_Some_iff in_set_conv_nth nth_eq_iff_index_eq)

lemma first_missing_take [simp]:
  "first_missing_from_recorded (take n STAGES) = (if n < 5 then Some (STAGES ! n) else None)"
  unfolding first_missing_from_recorded_def by (subst find_not_taken) simp_all

section \<open>The invariant\<close>

definition empty_interview :: interview where
  "empty_interview = \<lparr>iv_owner = None, iv_answers = [], iv_questions = []\<rparr>"

definition answers_up_to :: "boot_owner \<Rightarrow> nat \<Rightarrow> interview \<Rightarrow> bool" where
  "answers_up_to ow n iv =
     (n \<le> 5 \<and> map ba_stage (iv_answers iv) = take n STAGES
      \<and> (\<forall>a \<in> set (iv_answers iv). answer_in (bo_chat ow) (bo_thread ow) a \<and> ba_answer a \<noteq> [])
      \<and> distinct (map ba_source (iv_answers iv)))"

definition question_for :: "boot_owner \<Rightarrow> nat \<Rightarrow> question_row \<Rightarrow> bool" where
  "question_for ow n q = (n < 5 \<and> bq_stage q = STAGES ! n \<and> question_in (bo_chat ow) (bo_thread ow) q)"

definition interview_at :: "boot_owner \<Rightarrow> nat \<Rightarrow> interview \<Rightarrow> bool" where
  "interview_at ow n iv =
     (iv_owner iv = Some ow \<and> answers_up_to ow n iv
      \<and> (iv_questions iv = [] \<or> (\<exists>q. iv_questions iv = [q] \<and> question_for ow n q)))"

definition interview_ok :: "interview \<Rightarrow> bool" where
  "interview_ok iv = (iv = empty_interview \<or> (\<exists>ow n. interview_at ow n iv))"

lemma recorded_stages_at:
  "answers_up_to \<lparr>bo_chat = c, bo_thread = t\<rparr> n iv \<Longrightarrow> recorded_stages c t iv = take n STAGES"
  unfolding recorded_stages_def answers_up_to_def by (subst filter_True) auto

lemma first_missing_at:
  "answers_up_to \<lparr>bo_chat = c, bo_thread = t\<rparr> n iv \<Longrightarrow>
   first_missing_stage c t iv = (if n < 5 then Some (STAGES ! n) else None)"
  by (simp add: first_missing_stage_def recorded_stages_at)

lemma owner_eta: "\<lparr>bo_chat = bo_chat ow, bo_thread = bo_thread ow\<rparr> = (ow :: boot_owner)"
  by simp

lemma interview_ok_claim: "interview_ok iv \<Longrightarrow> interview_ok (snd (claim_owner c t iv))"
proof (cases "iv_owner iv")
  case None
  assume "interview_ok iv"
  then have "iv = empty_interview" using None by (auto simp: interview_ok_def interview_at_def)
  then have "interview_at \<lparr>bo_chat = c, bo_thread = t\<rparr> 0 (snd (claim_owner c t iv))"
    by (simp add: claim_owner_def empty_interview_def interview_at_def answers_up_to_def)
  then show ?thesis unfolding interview_ok_def by blast
qed (simp add: claim_owner_def)

lemma upsert_single:
  "question_for ow n q \<Longrightarrow> iv_questions iv = [] \<or> (\<exists>q. iv_questions iv = [q] \<and> question_for ow n q) \<Longrightarrow>
   \<exists>q'. upsert_question q (iv_questions iv) = [q'] \<and> question_for ow n q' \<and> bq_message q' = bq_message q"
  by (auto simp: upsert_question_def question_for_def question_in_def update_where_def)

lemma record_question_issue_cases:
  assumes "interview_ok iv"
  obtains "snd (record_question_issue now stage c t m iv) = iv" "fst (record_question_issue now stage c t m iv) \<noteq> Ok QuestionRecorded"
  | n q where "fst (record_question_issue now stage c t m iv) = Ok QuestionRecorded" "n < 5"
      "interview_at \<lparr>bo_chat = c, bo_thread = t\<rparr> n iv" "validated_stage stage = Ok (STAGES ! n)"
      "snd (record_question_issue now stage c t m iv) = iv\<lparr>iv_questions := [q]\<rparr>"
      "question_for \<lparr>bo_chat = c, bo_thread = t\<rparr> n q" "bq_message q = m"
proof (cases "validated_stage stage")
  case (Inl e)
  then show ?thesis by (intro that(1)) (simp_all add: record_question_issue_def)
next
  case (Inr s)
  let ?ow = "\<lparr>bo_chat = c, bo_thread = t\<rparr>"
  show ?thesis
  proof (cases "iv_owner iv = Some ?ow \<and> first_missing_from_recorded (recorded_stages c t iv) = Some s")
    case False
    then show ?thesis using Inr by (intro that(1)) (auto simp: record_question_issue_def Let_def)
  next
    case True
    then obtain n where n: "interview_at ?ow n iv"
      using assms by (auto simp: interview_ok_def empty_interview_def interview_at_def)
    then have up: "answers_up_to ?ow n iv" by (simp add: interview_at_def)
    have lt: "n < 5" and s: "s = STAGES ! n"
      using True recorded_stages_at[OF up] by (auto split: if_splits)
    let ?q = "\<lparr>bq_chat = c, bq_thread = t, bq_stage = s, bq_message = m, bq_at = now\<rparr>"
    have q: "question_for ?ow n ?q" using lt s by (simp add: question_for_def question_in_def)
    obtain q' where q': "upsert_question ?q (iv_questions iv) = [q']" "question_for ?ow n q'" "bq_message q' = m"
      using upsert_single[OF q, of iv] n by (auto simp: interview_at_def)
    have "record_question_issue now stage c t m iv = (Ok QuestionRecorded, iv\<lparr>iv_questions := [q']\<rparr>)"
      using Inr True q'(1) by (simp add: record_question_issue_def Let_def)
    then show ?thesis using that(2)[of n q'] n lt s Inr q' by simp
  qed
qed

lemma interview_ok_question:
  assumes "interview_ok iv" shows "interview_ok (snd (record_question_issue now stage c t m iv))"
  using assms
proof (rule record_question_issue_cases[of iv now stage c t m])
  fix n q
  assume "interview_at \<lparr>bo_chat = c, bo_thread = t\<rparr> n iv" "question_for \<lparr>bo_chat = c, bo_thread = t\<rparr> n q"
    and e: "snd (record_question_issue now stage c t m iv) = iv\<lparr>iv_questions := [q]\<rparr>"
  then have "interview_at \<lparr>bo_chat = c, bo_thread = t\<rparr> n (iv\<lparr>iv_questions := [q]\<rparr>)"
    by (simp add: interview_at_def answers_up_to_def)
  then show ?thesis unfolding e interview_ok_def by blast
qed (use assms in simp)

text \<open>An answer is recorded, with everything the transaction checked, or nothing changes.\<close>

lemma record_current_answer_cases:
  assumes "interview_ok iv"
  obtains (kept) "snd (record_current_answer now a c t src iv) = iv"
      "\<forall>s nxt. fst (record_current_answer now a c t src iv) \<noteq> Ok (AnswerRecorded s nxt)"
  | (recorded) n q where "n < 5" "interview_at \<lparr>bo_chat = c, bo_thread = t\<rparr> n iv" "trim_chars a \<noteq> []"
      "iv_questions iv = [q]" "question_for \<lparr>bo_chat = c, bo_thread = t\<rparr> n q" "bq_message q < src"
      "src \<notin> ba_source ` set (iv_answers iv)"
      "record_current_answer now a c t src iv =
         (Ok (AnswerRecorded (STAGES ! n) (if n < 4 then Some (STAGES ! Suc n) else None)),
          iv\<lparr>iv_answers := iv_answers iv @ [\<lparr>ba_chat = c, ba_thread = t, ba_stage = STAGES ! n, ba_answer = trim_chars a,
                                            ba_source = src, ba_at = now\<rparr>], iv_questions := []\<rparr>)"
proof (cases "trim_chars a = [] \<or> iv_owner iv \<noteq> Some \<lparr>bo_chat = c, bo_thread = t\<rparr>")
  case True
  then show ?thesis by (intro kept) (auto simp: record_current_answer_def Let_def)
next
  case False
  let ?ow = "\<lparr>bo_chat = c, bo_thread = t\<rparr>"
  obtain n where n: "interview_at ?ow n iv"
    using False assms by (auto simp: interview_ok_def empty_interview_def interview_at_def)
  then have up: "answers_up_to ?ow n iv" by (simp add: interview_at_def)
  note stages = recorded_stages_at[OF up]
  show ?thesis
  proof (cases "n < 5 \<and> (\<exists>q. iv_questions iv = [q] \<and> bq_message q < src) \<and> src \<notin> ba_source ` set (iv_answers iv)")
    case True
    then obtain q where q: "iv_questions iv = [q]" "bq_message q < src" by blast
    then have qf: "question_for ?ow n q" using n by (auto simp: interview_at_def)
    then have key: "question_in c t q" "bq_stage q = STAGES ! n" by (simp_all add: question_for_def)
    have fresh: "STAGES ! n \<notin> ba_stage ` set (iv_answers iv)"
    proof -
      have "ba_stage ` set (iv_answers iv) = set (take n STAGES)"
        using up by (metis answers_up_to_def list.set_map)
      then show ?thesis using True by (auto simp: in_set_conv_nth nth_eq_iff_index_eq)
    qed
    have ins: "insert_answer \<lparr>ba_chat = c, ba_thread = t, ba_stage = STAGES ! n, ba_answer = trim_chars a, ba_source = src, ba_at = now\<rparr>
        (iv_answers iv) = Ok (iv_answers iv @ [\<lparr>ba_chat = c, ba_thread = t, ba_stage = STAGES ! n, ba_answer = trim_chars a, ba_source = src, ba_at = now\<rparr>])"
      using fresh True by (auto simp: insert_answer_def list_ex_iff image_iff)
    have tk: "take n STAGES @ [STAGES ! n] = take (Suc n) STAGES"
      using True by (simp add: take_Suc_conv_app_nth)
    have "record_current_answer now a c t src iv =
         (Ok (AnswerRecorded (STAGES ! n) (if n < 4 then Some (STAGES ! Suc n) else None)),
          iv\<lparr>iv_answers := iv_answers iv @ [\<lparr>ba_chat = c, ba_thread = t, ba_stage = STAGES ! n, ba_answer = trim_chars a,
                                            ba_source = src, ba_at = now\<rparr>], iv_questions := []\<rparr>)"
      using False True q key ins tk
      by (simp add: record_current_answer_def Let_def stages delete_where_def)
    then show ?thesis using recorded[of n q] True n False q qf by simp
  next
    case no: False
    have "fst (record_current_answer now a c t src iv) \<noteq> Ok (AnswerRecorded s nxt)
        \<and> snd (record_current_answer now a c t src iv) = iv" for s nxt
    proof (cases "find (\<lambda>q. question_in c t q \<and> bq_stage q = STAGES ! n) (iv_questions iv)")
      case None
      then show ?thesis using False by (simp add: record_current_answer_def Let_def stages)
    next
      case (Some q)
      then have q: "iv_questions iv = [q]" using n by (auto simp: interview_at_def split: if_splits)
      show ?thesis
      proof (cases "n < 5 \<and> bq_message q < src")
        case True
        then obtain a0 where a0: "a0 \<in> set (iv_answers iv)" "ba_source a0 = src" using no q by auto
        then have "answer_in c t a0" using up by (auto simp: answers_up_to_def)
        then have "insert_answer \<lparr>ba_chat = c, ba_thread = t, ba_stage = STAGES ! n, ba_answer = trim_chars a, ba_source = src, ba_at = now\<rparr>
            (iv_answers iv) = Err BootConstraint"
          using a0 by (auto simp: insert_answer_def list_ex_iff)
        then show ?thesis using False Some True by (simp add: record_current_answer_def Let_def stages)
      next
        case nlt: False
        then show ?thesis using False Some by (auto simp: record_current_answer_def Let_def stages)
      qed
    qed
    then show ?thesis by (intro kept) auto
  qed
qed


lemma interview_ok_record:
  assumes "interview_ok iv" shows "interview_ok (snd (record_current_answer now a c t src iv))"
  using assms
proof (rule record_current_answer_cases[of iv now a c t src])
  fix n q
  assume n: "n < 5" and at: "interview_at \<lparr>bo_chat = c, bo_thread = t\<rparr> n iv" and "trim_chars a \<noteq> []"
    and "src \<notin> ba_source ` set (iv_answers iv)"
    and e: "record_current_answer now a c t src iv =
         (Ok (AnswerRecorded (STAGES ! n) (if n < 4 then Some (STAGES ! Suc n) else None)),
          iv\<lparr>iv_answers := iv_answers iv @ [\<lparr>ba_chat = c, ba_thread = t, ba_stage = STAGES ! n, ba_answer = trim_chars a,
                                            ba_source = src, ba_at = now\<rparr>], iv_questions := []\<rparr>)"
  then have "interview_at \<lparr>bo_chat = c, bo_thread = t\<rparr> (Suc n) (snd (record_current_answer now a c t src iv))"
    by (auto simp: interview_at_def answers_up_to_def answer_in_def take_Suc_conv_app_nth)
  then show ?thesis unfolding interview_ok_def by blast
qed (use assms in simp)

lemma record_answer_tables:
  "snd (record_answer now s a c t src iv) = iv \<or>
   snd (record_answer now s a c t src iv) = snd (record_current_answer now a c t src iv)"
  by (auto simp: record_answer_def Let_def split: sum.splits prod.splits answer_outcome.splits boot_db_error.splits)

section \<open>Histories of requests\<close>

datatype interview_op =
    ClaimOp int int
  | QuestionOp millis chars int int int
  | AnswerOp millis chars int int int
  | StageAnswerOp millis chars chars int int int
  | ClearOp

primrec run_interview_op :: "interview_op \<Rightarrow> interview \<Rightarrow> interview" where
  "run_interview_op (ClaimOp c t) iv = snd (claim_owner c t iv)"
| "run_interview_op (QuestionOp now s c t m) iv = snd (record_question_issue now s c t m iv)"
| "run_interview_op (AnswerOp now a c t src) iv = snd (record_current_answer now a c t src iv)"
| "run_interview_op (StageAnswerOp now s a c t src) iv = snd (record_answer now s a c t src iv)"
| "run_interview_op ClearOp iv = snd (clear_interview iv)"

lemma interview_ok_step: "interview_ok iv \<Longrightarrow> interview_ok (run_interview_op op iv)"
proof (cases op)
  case (StageAnswerOp now s a c t src)
  assume "interview_ok iv"
  then show ?thesis
    using StageAnswerOp record_answer_tables[of now s a c t src iv] interview_ok_record[of iv now a c t src] by auto
qed (simp_all add: interview_ok_claim interview_ok_question interview_ok_record,
     simp add: clear_interview_def interview_ok_def empty_interview_def)

lemma interview_ok_run: "interview_ok iv \<Longrightarrow> interview_ok (fold run_interview_op ops iv)"
  by (induction ops arbitrary: iv) (simp_all add: interview_ok_step)

lemma interview_ok_empty: "interview_ok empty_interview"
  by (simp add: interview_ok_def)

text \<open>C34: the interview stays in order.  Whatever requests reach the owner of the tables, in any order and
  from any conversation, the answers on record are those of the first stages in the order of the stages,
  each from a message of its own, none of them empty, all from the conversation that owns the interview; at
  most one question waits for an answer, and it is that of the first stage that has none.\<close>

theorem interview_in_order:
  "\<exists>n \<le> 5. let iv = fold run_interview_op ops empty_interview in
     map ba_stage (iv_answers iv) = take n STAGES \<and> distinct (map ba_source (iv_answers iv))
     \<and> (\<forall>a \<in> set (iv_answers iv). ba_answer a \<noteq> [] \<and> iv_owner iv = Some \<lparr>bo_chat = ba_chat a, bo_thread = ba_thread a\<rparr>)
     \<and> length (iv_questions iv) \<le> 1
     \<and> (\<forall>q \<in> set (iv_questions iv). n < 5 \<and> bq_stage q = STAGES ! n
          \<and> iv_owner iv = Some \<lparr>bo_chat = bq_chat q, bo_thread = bq_thread q\<rparr>)"
proof -
  define iv where "iv = fold run_interview_op ops empty_interview"
  have "interview_ok iv" unfolding iv_def by (rule interview_ok_run[OF interview_ok_empty])
  then consider "iv = empty_interview" | ow n where "interview_at ow n iv" by (auto simp: interview_ok_def)
  then show ?thesis
  proof cases
    case 1
    then show ?thesis unfolding iv_def[symmetric] by (intro exI[of _ 0]) (simp add: empty_interview_def)
  next
    case (2 ow n)
    then show ?thesis unfolding iv_def[symmetric]
      by (intro exI[of _ n]) (auto simp: interview_at_def answers_up_to_def answer_in_def question_for_def question_in_def)
  qed
qed

lemma interview_in_order_witness:
  "\<exists>n \<le> 5. let iv = fold run_interview_op
       [ClaimOp 1 0, QuestionOp 5 (text_chars ''user_name'') 1 0 10, AnswerOp 6 (text_chars ''Ada'') 1 0 11,
        AnswerOp 6 (text_chars ''Bob'') 2 0 12, QuestionOp 7 (text_chars ''vibe'') 1 0 13] empty_interview in
     map ba_stage (iv_answers iv) = take n STAGES \<and> length (iv_answers iv) = 1"
proof -
  let ?ops = "[ClaimOp 1 0, QuestionOp 5 (text_chars ''user_name'') 1 0 10, AnswerOp 6 (text_chars ''Ada'') 1 0 11,
        AnswerOp 6 (text_chars ''Bob'') 2 0 12, QuestionOp 7 (text_chars ''vibe'') 1 0 13]"
  have "length (iv_answers (fold run_interview_op ?ops empty_interview)) = 1" by code_simp
  then show ?thesis using interview_in_order[of ?ops] unfolding Let_def by blast
qed

text \<open>An answer is taken only for the question before it.  When an answer is recorded, it comes from
  the conversation that owns the interview; the stage it is recorded for is the first that has none; the
  question of that stage was sent in an earlier message; the message was not used for another answer, and is
  not blank.  The question is gone, and the stage reported as the next is the first that has no answer now.
  Any other outcome leaves the tables as they were.\<close>

theorem answers_follow_their_question:
  assumes "interview_ok iv"
  shows "case record_current_answer now a c t src iv of (r, iv') \<Rightarrow>
     (case r of
        Ok (AnswerRecorded s nxt) \<Rightarrow>
          iv_owner iv = Some \<lparr>bo_chat = c, bo_thread = t\<rparr> \<and> first_missing_stage c t iv = Some s
          \<and> (\<exists>q \<in> set (iv_questions iv). bq_stage q = s \<and> bq_message q < src)
          \<and> src \<notin> ba_source ` set (iv_answers iv) \<and> trim_chars a \<noteq> []
          \<and> recorded_stages c t iv' = recorded_stages c t iv @ [s]
          \<and> iv_questions iv' = [] \<and> first_missing_stage c t iv' = nxt
      | _ \<Rightarrow> iv' = iv)"
  using assms
proof (rule record_current_answer_cases[of iv now a c t src])
  assume k: "snd (record_current_answer now a c t src iv) = iv"
    "\<forall>s nxt. fst (record_current_answer now a c t src iv) \<noteq> Ok (AnswerRecorded s nxt)"
  show ?thesis
    using k by (cases "record_current_answer now a c t src iv") (auto split: sum.splits answer_outcome.splits)
next
  fix n q
  assume n: "n < 5" and at: "interview_at \<lparr>bo_chat = c, bo_thread = t\<rparr> n iv" and a: "trim_chars a \<noteq> []"
    and q: "iv_questions iv = [q]" "question_for \<lparr>bo_chat = c, bo_thread = t\<rparr> n q" "bq_message q < src"
    and src: "src \<notin> ba_source ` set (iv_answers iv)"
    and e: "record_current_answer now a c t src iv =
         (Ok (AnswerRecorded (STAGES ! n) (if n < 4 then Some (STAGES ! Suc n) else None)),
          iv\<lparr>iv_answers := iv_answers iv @ [\<lparr>ba_chat = c, ba_thread = t, ba_stage = STAGES ! n, ba_answer = trim_chars a,
                                            ba_source = src, ba_at = now\<rparr>], iv_questions := []\<rparr>)"
  define iv' where "iv' = snd (record_current_answer now a c t src iv)"
  have up: "answers_up_to \<lparr>bo_chat = c, bo_thread = t\<rparr> n iv" using at by (simp add: interview_at_def)
  have up': "answers_up_to \<lparr>bo_chat = c, bo_thread = t\<rparr> (Suc n) iv'"
    unfolding iv'_def e using up n a src by (auto simp: answers_up_to_def answer_in_def take_Suc_conv_app_nth)
  have "recorded_stages c t iv' = recorded_stages c t iv @ [STAGES ! n]"
    using recorded_stages_at[OF up] recorded_stages_at[OF up'] n by (simp add: take_Suc_conv_app_nth)
  moreover have "first_missing_stage c t iv = Some (STAGES ! n)" using first_missing_at[OF up] n by simp
  moreover have "first_missing_stage c t iv' = (if n < 4 then Some (STAGES ! Suc n) else None)"
    using first_missing_at[OF up'] by simp
  moreover have "record_current_answer now a c t src iv = (Ok (AnswerRecorded (STAGES ! n) (if n < 4 then Some (STAGES ! Suc n) else None)), iv')"
    and "iv_questions iv' = []"
    unfolding iv'_def e by simp_all
  ultimately show ?thesis using at q src a by (simp add: interview_at_def question_for_def)
qed

lemma answers_follow_their_question_witness:
  "let iv = \<lparr>iv_owner = Some \<lparr>bo_chat = 1, bo_thread = 0\<rparr>, iv_answers = [],
       iv_questions = [\<lparr>bq_chat = 1, bq_thread = 0, bq_stage = text_chars ''user_name'', bq_message = 10, bq_at = 5\<rparr>]\<rparr> in
     fst (record_current_answer 6 (text_chars '' Ada'') 1 0 11 iv)
       = Ok (AnswerRecorded (text_chars ''user_name'') (Some (text_chars ''agent_name'')))
     \<and> first_missing_stage 1 0 (snd (record_current_answer 6 (text_chars '' Ada'') 1 0 11 iv)) = Some (text_chars ''agent_name'')"
proof -
  let ?iv = "\<lparr>iv_owner = Some \<lparr>bo_chat = 1, bo_thread = 0\<rparr>, iv_answers = [],
       iv_questions = [\<lparr>bq_chat = 1, bq_thread = 0, bq_stage = text_chars ''user_name'', bq_message = 10, bq_at = 5\<rparr>]\<rparr>"
  have "interview_at \<lparr>bo_chat = 1, bo_thread = 0\<rparr> 0 ?iv"
    by (simp add: interview_at_def answers_up_to_def question_for_def question_in_def STAGES_def)
  then have ok: "interview_ok ?iv" unfolding interview_ok_def by blast
  have r: "fst (record_current_answer 6 (text_chars '' Ada'') 1 0 11 ?iv)
       = Ok (AnswerRecorded (text_chars ''user_name'') (Some (text_chars ''agent_name'')))"
    by code_simp
  show ?thesis
    using answers_follow_their_question[OF ok, where now = 6 and a = "text_chars '' Ada''" and c = 1 and t = 0 and src = 11] r
    by (cases "record_current_answer 6 (text_chars '' Ada'') 1 0 11 ?iv") (simp add: Let_def)
qed


section \<open>The turn and its reference\<close>

definition all_answered :: turn_fates where
  "all_answered = \<lparr>tf_claim = FateAnswered, tf_stage = FateAnswered, tf_issued = FateAnswered, tf_answer = FateAnswered,
     tf_state = FateAnswered, tf_issue = FateAnswered\<rparr>"

lemma all_answered_simps [simp]:
  "tf_claim all_answered = FateAnswered" "tf_stage all_answered = FateAnswered" "tf_issued all_answered = FateAnswered"
  "tf_answer all_answered = FateAnswered" "tf_state all_answered = FateAnswered" "tf_issue all_answered = FateAnswered"
  by (simp_all add: all_answered_def)

lemma request_answered [simp]:
  "request FateAnswered old (Ok v, new) = (Ok v, new)" "request FateAnswered old (Err e, new) = (Err (OwnerRefused e), new)"
  by (simp_all add: request_def)

lemma request_answered_Pair:
  "request FateAnswered old rn = ((case fst rn of Err e \<Rightarrow> Err (OwnerRefused e) | Ok v \<Rightarrow> Ok v), snd rn)"
  by (simp add: request_def)

text \<open>The model words a question of the shape that is asked of it.\<close>

definition words_questions :: "(prompt_state \<Rightarrow> (string, boot_output) result) \<Rightarrow> (prompt_state \<Rightarrow> chars) \<Rightarrow> bool" where
  "words_questions model q =
     (\<forall>st. \<exists>out. model st = Ok out \<and> validate_bootstrap_output out (pp_stage st) False = Ok (q st))"

lemma prompt_stage [simp]: "pp_stage (prompt_of_answers s as) = s"
  by (simp add: prompt_of_answers_def Let_def)

lemma ask_stage_reference:
  assumes "words_questions (model 0) q"
  shows "ask_stage now all_answered (model 0) send c t stage iv = deliver_bootstrap_question now model send c t stage iv"
proof (cases "recorded_answers c t iv")
  case (Inr as)
  obtain out where out: "model 0 (prompt_of_answers stage as) = Ok out"
    "validate_bootstrap_output out stage False = Ok (q (prompt_of_answers stage as))"
    using assms unfolding words_questions_def by (metis prompt_stage)
  show ?thesis
  proof (cases "send (q (prompt_of_answers stage as))")
    case sent: (Inr m)
    obtain r iv' where r: "record_question_issue now stage c t m iv = (r, iv')" by fastforce
    then show ?thesis
      using Inr out sent
      by (cases r) (auto simp: ask_stage_def deliver_bootstrap_question_def recorded_state_def QUESTION_ATTEMPTS_def
          numeral_3_eq_3 Let_def split: question_outcome.splits)
  qed (use Inr out in \<open>simp add: ask_stage_def deliver_bootstrap_question_def recorded_state_def QUESTION_ATTEMPTS_def
          numeral_3_eq_3 Let_def\<close>)
qed (simp add: ask_stage_def deliver_bootstrap_question_def recorded_state_def)

lemma final_state_reference: "final_state FateAnswered c t iv = reference_final c t iv"
  by (cases "recorded_answers c t iv") (simp_all add: final_state_def reference_final_def recorded_state_def)

lemma find_first_missing:
  "first_missing_stage c t iv = Some s \<Longrightarrow> find (\<lambda>x. x = s) STAGES = Some s"
  unfolding first_missing_stage_def first_missing_from_recorded_def
  using nth_eq_iff_index_eq[OF distinct_STAGES] by (fastforce simp: find_Some_iff)

text \<open>C35: the turn in use agrees with the turn the tests check under three hypotheses: every request of the
  owner is answered; the model words a question of the right shape at its first attempt; and the batch is not
  taken as an answer, or it is the answer to the last stage and is recorded.  Then both write the same
  tables, send the same text and have the same outcome.  Outside them they differ: the turn in use does not
  try the question again (\<open>turn_in_use_words_once\<close>), asks an answered stage again
  (\<open>answered_question_is_asked_again\<close>), and goes on after a refused answer, where the reference fails.\<close>

theorem turn_agrees_with_reference:
  assumes model: "words_questions (model 0) q"
    and batch: "\<And>stage. length messages = 1 \<Longrightarrow> first_missing_stage c t (snd (claim_owner c t iv)) = Some stage \<Longrightarrow>
      issued_question_stage c t (snd (claim_owner c t iv)) = Ok (Some stage) \<Longrightarrow>
      \<exists>s. fst (record_current_answer now (snd (hd messages)) c t (fst (hd messages)) (snd (claim_owner c t iv)))
          = Ok (AnswerRecorded s None)"
  shows "interview_turn_ipc now all_answered (model 0) send c t messages iv
       = interview_turn_reference now model send c t messages iv"
proof -
  obtain claim iv1 where cl: "claim_owner c t iv = (claim, iv1)" by fastforce
  show ?thesis
  proof (cases "claim \<noteq> Claimed \<and> claim \<noteq> AlreadyOwned \<lparr>bo_chat = c, bo_thread = t\<rparr>")
    case True
    then show ?thesis by (simp add: interview_turn_ipc_def interview_turn_reference_def cl)
  next
    case mine: False
    note head = interview_turn_ipc_def interview_turn_reference_def cl Let_def
    show ?thesis
    proof (cases "first_missing_stage c t iv1")
      case None
      then show ?thesis using mine by (auto simp: head final_state_reference)
    next
      case (Some s)
      note st = find_first_missing[OF Some]
      show ?thesis
      proof (cases "issued_question_stage c t iv1")
        case (Inl e)
        then show ?thesis using mine Some st by (auto simp: head)
      next
        case (Inr issued)
        show ?thesis
        proof (cases "length messages = 1 \<and> issued = Some s")
          case False
          then show ?thesis
            using mine Some st Inr by (auto simp: head take_answer_def ask_stage_reference[where model = model, OF model])
        next
          case True
          then obtain s' iv2 where "record_current_answer now (snd (hd messages)) c t (fst (hd messages)) iv1
              = (Ok (AnswerRecorded s' None), iv2)"
            using batch[of s] Some Inr cl
            by (cases "record_current_answer now (snd (hd messages)) c t (fst (hd messages)) iv1") auto
          then show ?thesis
            using mine Some st Inr True by (auto simp: head take_answer_def final_state_reference)
        qed
      qed
    qed
  qed
qed


text \<open>The batch of the witness comes before any question was issued.\<close>

definition words :: "prompt_state \<Rightarrow> (string, boot_output) result" where
  "words st = Ok \<lparr>bt_content = Some (TextContent (text_chars ''What?'')), bt_stage = Some (pp_stage st), bt_complete = Some False\<rparr>"

lemma words_words: "words_questions words (\<lambda>st. text_chars ''What?'')"
proof -
  have "normalized_text (TextContent (text_chars ''What?'')) = text_chars ''What?''" by code_simp
  moreover have "text_chars ''What?'' \<noteq> []" by (simp add: text_chars_def)
  ultimately show ?thesis by (simp add: words_questions_def words_def validate_bootstrap_output_def)
qed

lemma turn_agrees_with_reference_witness:
  "interview_turn_ipc 5 all_answered words (\<lambda>q. Ok 10) 1 0 [(9, text_chars ''hi'')] empty_interview
     = interview_turn_reference 5 (\<lambda>n. words) (\<lambda>q. Ok 10) 1 0 [(9, text_chars ''hi'')] empty_interview"
proof -
  have "issued_question_stage 1 0 (snd (claim_owner 1 0 empty_interview)) = Ok None" by code_simp
  then show ?thesis
    using turn_agrees_with_reference[of "\<lambda>n. words" "\<lambda>st. text_chars ''What?''" "[(9, text_chars ''hi'')]" 1 0 empty_interview 5
        "\<lambda>q. Ok 10"] words_words by simp
qed

text \<open>The reference gives the model more than one attempt at a question, the turn in use one.\<close>

lemma turn_in_use_words_once:
  "fst (interview_turn_ipc 5 all_answered (\<lambda>q. Err ''x'') (\<lambda>q. Ok 10) 1 0 [(9, text_chars ''hi'')] empty_interview)
     \<noteq> fst (interview_turn_reference 5 (\<lambda>n. if n = 0 then (\<lambda>q. Err ''x'') else words) (\<lambda>q. Ok 10) 1 0 [(9, text_chars ''hi'')] empty_interview)"
  by code_simp

section \<open>Asking and answering\<close>

lemma STAGES_nth_valid: "n < 5 \<Longrightarrow> validated_stage (STAGES ! n) = Ok (STAGES ! n)"
  by (simp add: validated_STAGES)

lemma recorded_answers_ok:
  assumes "\<forall>a \<in> set (iv_answers iv). ba_stage a \<in> set STAGES"
  shows "\<exists>as. recorded_answers c t iv = Ok as"
proof -
  have read: "\<exists>xs. foldr (\<lambda>r acc. bind_result (canonical_stage (ba_stage r)) (\<lambda>s. bind_result acc (\<lambda>xs. Ok ((s, ba_answer r) # xs)))) rows (Ok [])
      = (Ok xs :: (boot_db_error, (chars \<times> chars) list) result)"
    if "\<forall>a \<in> set rows. ba_stage a \<in> set STAGES" for rows
    using that by (induction rows) (auto simp: canonical_STAGES)
  show ?thesis unfolding recorded_answers_def by (rule read) (use assms in simp)
qed

lemma answers_up_to_stages: "answers_up_to ow n iv \<Longrightarrow> \<forall>a \<in> set (iv_answers iv). ba_stage a \<in> set STAGES"
  unfolding answers_up_to_def by (metis image_eqI in_set_takeD list.set_map)

lemma record_question_ok:
  assumes at: "interview_at \<lparr>bo_chat = c, bo_thread = t\<rparr> n iv" and n: "n < 5"
  obtains q where "record_question_issue now (STAGES ! n) c t m iv = (Ok QuestionRecorded, iv\<lparr>iv_questions := [q]\<rparr>)"
    "question_for \<lparr>bo_chat = c, bo_thread = t\<rparr> n q" "bq_message q = m"
proof -
  let ?ow = "\<lparr>bo_chat = c, bo_thread = t\<rparr>"
  have up: "answers_up_to ?ow n iv" using at by (simp add: interview_at_def)
  let ?q = "\<lparr>bq_chat = c, bq_thread = t, bq_stage = STAGES ! n, bq_message = m, bq_at = now\<rparr>"
  have q: "question_for ?ow n ?q" using n by (simp add: question_for_def question_in_def)
  obtain q' where q': "upsert_question ?q (iv_questions iv) = [q']" "question_for ?ow n q'" "bq_message q' = m"
    using upsert_single[OF q, of iv] at by (auto simp: interview_at_def)
  have "record_question_issue now (STAGES ! n) c t m iv = (Ok QuestionRecorded, iv\<lparr>iv_questions := [q']\<rparr>)"
    using n at q'(1) recorded_stages_at[OF up]
    by (simp add: record_question_issue_def Let_def STAGES_nth_valid interview_at_def)
  then show ?thesis using that q' by blast
qed

lemma record_question_late:
  assumes at: "interview_at \<lparr>bo_chat = c, bo_thread = t\<rparr> (Suc n) iv" and n: "n < 4"
  shows "record_question_issue now (STAGES ! n) c t m iv = (Ok (QuestionOutOfOrder (Some (STAGES ! Suc n))), iv)"
proof -
  have up: "answers_up_to \<lparr>bo_chat = c, bo_thread = t\<rparr> (Suc n) iv" using at by (simp add: interview_at_def)
  have "STAGES ! Suc n \<noteq> STAGES ! n" using n by (simp add: nth_eq_iff_index_eq)
  then show ?thesis
    using n at recorded_stages_at[OF up]
    by (simp add: record_question_issue_def Let_def STAGES_nth_valid interview_at_def)
qed

lemma ask_stage_words:
  assumes "words_questions model q" and "\<forall>a \<in> set (iv_answers iv). ba_stage a \<in> set STAGES" and "\<forall>x. send x = Ok m"
  obtains asked where "ask_stage now all_answered model send c t stage iv =
     (let (r, iv') = record_question_issue now stage c t m iv in
      (iv', [asked], case r of Err e \<Rightarrow> Err (OwnerRefused e) | Ok QuestionRecorded \<Rightarrow> Ok InterviewHandled
                     | Ok oc \<Rightarrow> Err (IssueRejected oc)))"
    "\<exists>st. pp_stage st = stage \<and> asked = q st"
proof -
  obtain rs where rs: "recorded_answers c t iv = Ok rs" using recorded_answers_ok[OF assms(2)] by blast
  let ?st = "prompt_of_answers stage rs"
  obtain out where out: "model ?st = Ok out" "validate_bootstrap_output out stage False = Ok (q ?st)"
    using assms(1) unfolding words_questions_def by (metis prompt_stage)
  obtain r iv' where r: "record_question_issue now stage c t m iv = (r, iv')" by fastforce
  show ?thesis
  proof (rule that)
    show "ask_stage now all_answered model send c t stage iv =
     (let (r, iv') = record_question_issue now stage c t m iv in
      (iv', [q ?st], case r of Err e \<Rightarrow> Err (OwnerRefused e) | Ok QuestionRecorded \<Rightarrow> Ok InterviewHandled
                     | Ok oc \<Rightarrow> Err (IssueRejected oc)))"
      using rs out assms(3) r
      by (cases r) (auto simp: ask_stage_def recorded_state_def split: question_outcome.splits)
    show "\<exists>st. pp_stage st = stage \<and> q ?st = q st" by (intro exI[of _ ?st]) simp
  qed
qed


lemma claim_own: "iv_owner iv = Some \<lparr>bo_chat = c, bo_thread = t\<rparr> \<Longrightarrow> claim_owner c t iv = (AlreadyOwned \<lparr>bo_chat = c, bo_thread = t\<rparr>, iv)"
  by (simp add: claim_owner_def)

text \<open>A turn with nothing to answer asks for the first missing stage.\<close>

lemma asking_turn:
  assumes w: "words_questions model q" and snd: "\<forall>x. send x = Ok m"
    and at: "interview_at \<lparr>bo_chat = c, bo_thread = t\<rparr> n (snd (claim_owner c t iv))"
    and cl: "fst (claim_owner c t iv) \<in> {Claimed, AlreadyOwned \<lparr>bo_chat = c, bo_thread = t\<rparr>}"
    and qs: "iv_questions (snd (claim_owner c t iv)) = []" and n: "n < 5"
  obtains qu asked where
    "interview_turn_ipc now all_answered model send c t messages iv
       = ((snd (claim_owner c t iv))\<lparr>iv_questions := [qu]\<rparr>, [asked], Ok InterviewHandled)"
    "question_for \<lparr>bo_chat = c, bo_thread = t\<rparr> n qu" "bq_message qu = m"
proof -
  obtain claim iv1 where c1: "claim_owner c t iv = (claim, iv1)" by fastforce
  have at1: "interview_at \<lparr>bo_chat = c, bo_thread = t\<rparr> n iv1" using at c1 by simp
  then have up: "answers_up_to \<lparr>bo_chat = c, bo_thread = t\<rparr> n iv1" by (simp add: interview_at_def)
  have first: "first_missing_stage c t iv1 = Some (STAGES ! n)" using first_missing_at[OF up] n by simp
  have issued: "issued_question_stage c t iv1 = Ok None" using qs c1 by (simp add: issued_question_stage_def)
  obtain qu where qu: "record_question_issue now (STAGES ! n) c t m iv1 = (Ok QuestionRecorded, iv1\<lparr>iv_questions := [qu]\<rparr>)"
    "question_for \<lparr>bo_chat = c, bo_thread = t\<rparr> n qu" "bq_message qu = m"
    by (rule record_question_ok[OF at1 n])
  obtain asked where "ask_stage now all_answered model send c t (STAGES ! n) iv1
      = (iv1\<lparr>iv_questions := [qu]\<rparr>, [asked], Ok InterviewHandled)"
    using ask_stage_words[where send = send and now = now and c = c and t = t and stage = "STAGES ! n",
        OF w answers_up_to_stages[OF up] snd] qu(1)
    by auto
  then have "interview_turn_ipc now all_answered model send c t messages iv
       = (iv1\<lparr>iv_questions := [qu]\<rparr>, [asked], Ok InterviewHandled)"
    using c1 cl first issued find_first_missing[OF first]
    by (auto simp: interview_turn_ipc_def take_answer_def)
  then show ?thesis using that qu c1 by simp
qed

text \<open>What recording the answer to the waiting question leaves.\<close>

definition answer_row_of :: "millis \<Rightarrow> int \<Rightarrow> int \<Rightarrow> nat \<Rightarrow> chars \<Rightarrow> int \<Rightarrow> answer_row" where
  "answer_row_of now c t n a src =
     \<lparr>ba_chat = c, ba_thread = t, ba_stage = STAGES ! n, ba_answer = trim_chars a, ba_source = src, ba_at = now\<rparr>"

definition answered_interview :: "millis \<Rightarrow> int \<Rightarrow> int \<Rightarrow> nat \<Rightarrow> chars \<Rightarrow> int \<Rightarrow> interview \<Rightarrow> interview" where
  "answered_interview now c t n a src iv =
     iv\<lparr>iv_answers := iv_answers iv @ [answer_row_of now c t n a src], iv_questions := []\<rparr>"

lemma record_waiting:
  assumes at: "interview_at \<lparr>bo_chat = c, bo_thread = t\<rparr> n iv" and q: "iv_questions iv = [qu]" and src: "bq_message qu < src"
    and fresh: "src \<notin> ba_source ` set (iv_answers iv)" and a: "trim_chars a \<noteq> []"
  shows "record_current_answer now a c t src iv =
         (Ok (AnswerRecorded (STAGES ! n) (if n < 4 then Some (STAGES ! Suc n) else None)), answered_interview now c t n a src iv)"
    and "interview_at \<lparr>bo_chat = c, bo_thread = t\<rparr> (Suc n) (answered_interview now c t n a src iv)" and "n < 5"
    and "issued_question_stage c t iv = Ok (Some (STAGES ! n))"
proof -
  have ok: "interview_ok iv" using at by (auto simp: interview_ok_def)
  have qf: "question_for \<lparr>bo_chat = c, bo_thread = t\<rparr> n qu" using at q by (auto simp: interview_at_def)
  then show n: "n < 5" by (simp add: question_for_def)
  have in_stages: "STAGES ! n \<in> set STAGES" using n by simp
  show "issued_question_stage c t iv = Ok (Some (STAGES ! n))"
    using q qf canonical_STAGES[OF in_stages] by (simp add: issued_question_stage_def question_for_def)
  have up: "answers_up_to \<lparr>bo_chat = c, bo_thread = t\<rparr> n iv" using at by (simp add: interview_at_def)
  show "interview_at \<lparr>bo_chat = c, bo_thread = t\<rparr> (Suc n) (answered_interview now c t n a src iv)"
    using at n a fresh
    by (auto simp: interview_at_def answers_up_to_def answer_in_def take_Suc_conv_app_nth answered_interview_def answer_row_of_def)
  have new: "STAGES ! n \<notin> ba_stage ` set (iv_answers iv)"
  proof -
    have "ba_stage ` set (iv_answers iv) = set (take n STAGES)" using up by (metis answers_up_to_def list.set_map)
    then show ?thesis using n by (auto simp: in_set_conv_nth nth_eq_iff_index_eq)
  qed
  have ins: "insert_answer (answer_row_of now c t n a src) (iv_answers iv) = Ok (iv_answers iv @ [answer_row_of now c t n a src])"
    using new fresh by (auto simp: insert_answer_def list_ex_iff image_iff answer_row_of_def)
  have tk: "take n STAGES @ [STAGES ! n] = take (Suc n) STAGES" using n by (simp add: take_Suc_conv_app_nth)
  show "record_current_answer now a c t src iv =
         (Ok (AnswerRecorded (STAGES ! n) (if n < 4 then Some (STAGES ! Suc n) else None)), answered_interview now c t n a src iv)"
    using at q qf src a ins tk n recorded_stages_at[OF up]
    by (simp add: record_current_answer_def Let_def delete_where_def question_for_def interview_at_def
        answered_interview_def answer_row_of_def)
qed

lemma answered_question_turns:
  assumes w: "words_questions model q" and snd: "\<forall>x. send x = Ok m"
    and at: "interview_at \<lparr>bo_chat = c, bo_thread = t\<rparr> n iv" and n: "n < 4"
    and qu: "iv_questions iv = [qu]" "bq_message qu < src"
    and fresh: "src \<notin> ba_source ` set (iv_answers iv)" and a: "trim_chars a \<noteq> []"
  shows "\<exists>st. pp_stage st = STAGES ! n \<and>
      interview_turn_ipc now all_answered model send c t [(src, a)] iv
        = (answered_interview now c t n a src iv, [q st], Err (IssueRejected (QuestionOutOfOrder (Some (STAGES ! Suc n)))))"
    and "\<exists>st qu'. pp_stage st = STAGES ! Suc n \<and> bq_message qu' = m \<and> bq_stage qu' = STAGES ! Suc n \<and>
      interview_turn_reference now (\<lambda>k. model) send c t [(src, a)] iv
        = ((answered_interview now c t n a src iv)\<lparr>iv_questions := [qu']\<rparr>, [q st], Ok InterviewHandled)"
proof -
  note rec = record_waiting(1,2)[OF at qu fresh a, where now = now] record_waiting(3,4)[OF at qu fresh a]
  have ow: "claim_owner c t iv = (AlreadyOwned \<lparr>bo_chat = c, bo_thread = t\<rparr>, iv)"
    using at by (simp add: interview_at_def claim_own)
  have up: "answers_up_to \<lparr>bo_chat = c, bo_thread = t\<rparr> n iv" using at by (simp add: interview_at_def)
  have first: "first_missing_stage c t iv = Some (STAGES ! n)" using first_missing_at[OF up] n by simp
  let ?iv = "answered_interview now c t n a src iv"
  have up': "answers_up_to \<lparr>bo_chat = c, bo_thread = t\<rparr> (Suc n) ?iv" using rec(2) by (simp add: interview_at_def)
  obtain asked where asked: "ask_stage now all_answered model send c t (STAGES ! n) ?iv
      = (?iv, [asked], Err (IssueRejected (QuestionOutOfOrder (Some (STAGES ! Suc n)))))"
    "\<exists>st. pp_stage st = STAGES ! n \<and> asked = q st"
    using ask_stage_words[where send = send and now = now and c = c and t = t and stage = "STAGES ! n",
        OF w answers_up_to_stages[OF up'] snd]
      record_question_late[OF rec(2) n] by auto
  show "\<exists>st. pp_stage st = STAGES ! n \<and>
      interview_turn_ipc now all_answered model send c t [(src, a)] iv
        = (?iv, [q st], Err (IssueRejected (QuestionOutOfOrder (Some (STAGES ! Suc n)))))"
    using asked ow first find_first_missing[OF first] rec n
    by (auto simp: interview_turn_ipc_def take_answer_def)
  have n5: "Suc n < 5" using n by simp
  obtain qu' where qu': "record_question_issue now (STAGES ! Suc n) c t m ?iv = (Ok QuestionRecorded, ?iv\<lparr>iv_questions := [qu']\<rparr>)"
    "question_for \<lparr>bo_chat = c, bo_thread = t\<rparr> (Suc n) qu'" "bq_message qu' = m"
    by (rule record_question_ok[OF rec(2) n5])
  obtain asked' where asked': "ask_stage now all_answered model send c t (STAGES ! Suc n) ?iv
      = (?iv\<lparr>iv_questions := [qu']\<rparr>, [asked'], Ok InterviewHandled)" "\<exists>st. pp_stage st = STAGES ! Suc n \<and> asked' = q st"
    using ask_stage_words[where send = send and now = now and c = c and t = t and stage = "STAGES ! Suc n",
        OF w answers_up_to_stages[OF up'] snd]
      qu'(1) by auto
  obtain st where st: "pp_stage st = STAGES ! Suc n" "asked' = q st" using asked'(2) by blast
  have turn: "interview_turn_reference now (\<lambda>k. model) send c t [(src, a)] iv
        = (?iv\<lparr>iv_questions := [qu']\<rparr>, [asked'], Ok InterviewHandled)"
    using ow first rec n asked'(1) ask_stage_reference[where model = "\<lambda>k. model", OF w]
    by (simp add: interview_turn_reference_def Let_def)
  show "\<exists>st qu'. pp_stage st = STAGES ! Suc n \<and> bq_message qu' = m \<and> bq_stage qu' = STAGES ! Suc n \<and>
      interview_turn_reference now (\<lambda>k. model) send c t [(src, a)] iv
        = (?iv\<lparr>iv_questions := [qu']\<rparr>, [q st], Ok InterviewHandled)"
    using turn st qu'(2,3) by (intro exI[of _ st] exI[of _ qu']) (simp add: question_for_def)
qed

text \<open>C36: an answered question is asked again.  In the turn that answers the question of a stage before the
  last, the answer is recorded; the turn then words, and sends, a question of the same stage once more, and
  ends with an error, since the owner refuses the issue of a question whose stage is answered.  The reference
  turn sends the question of the next stage, whose issue is recorded.\<close>

theorem answered_question_is_asked_again:
  assumes "words_questions model q" and "\<forall>x. send x = Ok m"
    and "interview_at \<lparr>bo_chat = c, bo_thread = t\<rparr> n iv" and "n < 4"
    and "iv_questions iv = [qu]" and "bq_message qu < src"
    and "src \<notin> ba_source ` set (iv_answers iv)" and "trim_chars a \<noteq> []"
  shows "(\<exists>st. pp_stage st = STAGES ! n \<and>
      interview_turn_ipc now all_answered model send c t [(src, a)] iv
        = (answered_interview now c t n a src iv, [q st], Err (IssueRejected (QuestionOutOfOrder (Some (STAGES ! Suc n))))))
    \<and> (\<exists>st qu'. pp_stage st = STAGES ! Suc n \<and> bq_message qu' = m \<and> bq_stage qu' = STAGES ! Suc n \<and>
      interview_turn_reference now (\<lambda>k. model) send c t [(src, a)] iv
        = ((answered_interview now c t n a src iv)\<lparr>iv_questions := [qu']\<rparr>, [q st], Ok InterviewHandled))"
  using answered_question_turns[OF assms] by blast

lemma answered_question_is_asked_again_witness:
  "let iv = \<lparr>iv_owner = Some \<lparr>bo_chat = 1, bo_thread = 0\<rparr>, iv_answers = [],
       iv_questions = [\<lparr>bq_chat = 1, bq_thread = 0, bq_stage = text_chars ''user_name'', bq_message = 10, bq_at = 5\<rparr>]\<rparr> in
     \<exists>st :: prompt_state. pp_stage st = text_chars ''user_name'' \<and>
      interview_turn_ipc 6 all_answered words (\<lambda>x. Ok 12) 1 0 [(11, text_chars ''Ada'')] iv
        = (answered_interview 6 1 0 0 (text_chars ''Ada'') 11 iv, [text_chars ''What?''],
           Err (IssueRejected (QuestionOutOfOrder (Some (text_chars ''agent_name'')))))"
proof -
  let ?iv = "\<lparr>iv_owner = Some \<lparr>bo_chat = 1, bo_thread = 0\<rparr>, iv_answers = [],
       iv_questions = [\<lparr>bq_chat = 1, bq_thread = 0, bq_stage = text_chars ''user_name'', bq_message = 10, bq_at = 5\<rparr>]\<rparr>"
  have at: "interview_at \<lparr>bo_chat = 1, bo_thread = 0\<rparr> 0 ?iv"
    by (simp add: interview_at_def answers_up_to_def question_for_def question_in_def STAGES_def)
  have a: "trim_chars (text_chars ''Ada'') \<noteq> []" by code_simp
  have st: "STAGES ! 0 = text_chars ''user_name''" "STAGES ! Suc 0 = text_chars ''agent_name''" by (simp_all add: STAGES_def)
  have "\<exists>st :: prompt_state. pp_stage st = STAGES ! 0 \<and>
      interview_turn_ipc 6 all_answered words (\<lambda>x. Ok 12) 1 0 [(11, text_chars ''Ada'')] ?iv
        = (answered_interview 6 1 0 0 (text_chars ''Ada'') 11 ?iv, [text_chars ''What?''],
           Err (IssueRejected (QuestionOutOfOrder (Some (STAGES ! Suc 0)))))"
    by (rule answered_question_is_asked_again[OF words_words, where send = "\<lambda>x. Ok 12" and m = 12 and c = 1 and t = 0 and n = 0
      and iv = ?iv and src = 11 and a = "text_chars ''Ada''" and now = 6
      and qu = "\<lparr>bq_chat = 1, bq_thread = 0, bq_stage = text_chars ''user_name'', bq_message = 10, bq_at = 5\<rparr>", THEN conjunct1])
      (use at a in simp_all)
  then show ?thesis unfolding st Let_def .
qed

section \<open>How long an interview takes\<close>

record user_turn =
  ut_at :: millis
  ut_message :: int
  ut_text :: chars
  ut_reply :: int

text \<open>One message per turn; \<open>ut_reply\<close> is the id of the message the bot sends in the turn.\<close>

primrec run_turns ::
    "(prompt_state \<Rightarrow> (string, boot_output) result) \<Rightarrow> int \<Rightarrow> int \<Rightarrow> user_turn list \<Rightarrow> interview \<Rightarrow>
     interview \<times> (interview_error, interview_outcome) result list" where
  "run_turns model c t [] iv = (iv, [])"
| "run_turns model c t (u # us) iv =
     (let (iv1, sent, r) = interview_turn_ipc (ut_at u) all_answered model (\<lambda>x. Ok (ut_reply u)) c t
            [(ut_message u, ut_text u)] iv;
          (iv2, rs) = run_turns model c t us iv1
      in (iv2, r # rs))"

definition is_final :: "(interview_error, interview_outcome) result \<Rightarrow> bool" where
  "is_final r = (case r of Ok (InterviewFinal st) \<Rightarrow> True | _ \<Rightarrow> False)"

text \<open>Messages of a chat are numbered in the order they appear.\<close>

fun in_chat_order :: "int \<Rightarrow> user_turn list \<Rightarrow> bool" where
  "in_chat_order low [] = True"
| "in_chat_order low (u # us) = (low < ut_message u \<and> ut_message u < ut_reply u \<and> in_chat_order (ut_reply u) us)"

fun answering_texts :: "user_turn list \<Rightarrow> chars list" where
  "answering_texts (u # v # us) = trim_chars (ut_text v) # answering_texts us"
| "answering_texts us = []"

lemma final_turn:
  assumes at: "interview_at \<lparr>bo_chat = c, bo_thread = t\<rparr> 5 iv"
  shows "is_final (final_state FateAnswered c t iv)"
proof -
  have "answers_up_to \<lparr>bo_chat = c, bo_thread = t\<rparr> 5 iv" using at by (simp add: interview_at_def)
  then obtain rs where "recorded_answers c t iv = Ok rs" using recorded_answers_ok[OF answers_up_to_stages] by blast
  then show ?thesis by (simp add: is_final_def final_state_def recorded_state_def)
qed

lemma answering_turn:
  assumes w: "words_questions model q" and snd: "\<forall>x. send x = Ok m"
    and at: "interview_at \<lparr>bo_chat = c, bo_thread = t\<rparr> n iv"
    and qu: "iv_questions iv = [qu]" "bq_message qu < src"
    and fresh: "src \<notin> ba_source ` set (iv_answers iv)" and a: "trim_chars a \<noteq> []"
  shows "\<exists>sent r. interview_turn_ipc now all_answered model send c t [(src, a)] iv = (answered_interview now c t n a src iv, sent, r)
           \<and> is_final r = (n = 4)"
proof (cases "n < 4")
  case True
  then show ?thesis using answered_question_turns(1)[OF w snd at True qu fresh a, where now = now] by (auto simp: is_final_def)
next
  case False
  note rec = record_waiting(1,2)[OF at qu fresh a, where now = now] record_waiting(3,4)[OF at qu fresh a]
  then have n: "n = 4" using False by simp
  have up: "answers_up_to \<lparr>bo_chat = c, bo_thread = t\<rparr> n iv" using at by (simp add: interview_at_def)
  have first: "first_missing_stage c t iv = Some (STAGES ! n)" using first_missing_at[OF up] n by simp
  have "claim_owner c t iv = (AlreadyOwned \<lparr>bo_chat = c, bo_thread = t\<rparr>, iv)" using at by (simp add: interview_at_def claim_own)
  then have "interview_turn_ipc now all_answered model send c t [(src, a)] iv
      = (answered_interview now c t n a src iv, [], final_state FateAnswered c t (answered_interview now c t n a src iv))"
    using first find_first_missing[OF first] rec False by (simp add: interview_turn_ipc_def take_answer_def)
  moreover have "is_final (final_state FateAnswered c t (answered_interview now c t n a src iv))"
    using rec(2) n by (intro final_turn) (simp add: numeral_eq_Suc)
  ultimately show ?thesis using n by auto
qed

lemma interview_rounds:
  assumes w: "words_questions model q"
  shows "length us = 2 * k \<Longrightarrow> n + k = 5 \<Longrightarrow> interview_at \<lparr>bo_chat = c, bo_thread = t\<rparr> n (snd (claim_owner c t iv)) \<Longrightarrow>
    fst (claim_owner c t iv) \<in> {Claimed, AlreadyOwned \<lparr>bo_chat = c, bo_thread = t\<rparr>} \<Longrightarrow>
    iv_questions (snd (claim_owner c t iv)) = [] \<Longrightarrow> \<forall>a \<in> set (iv_answers (snd (claim_owner c t iv))). ba_source a \<le> low \<Longrightarrow>
    in_chat_order low us \<Longrightarrow> \<forall>u \<in> set us. trim_chars (ut_text u) \<noteq> [] \<Longrightarrow>
    map ba_answer (iv_answers (fst (run_turns model c t us iv)))
      = map ba_answer (iv_answers (snd (claim_owner c t iv))) @ answering_texts us
    \<and> map is_final (snd (run_turns model c t us iv)) = (if k = 0 then [] else replicate (2 * k - 1) False @ [True])
    \<and> (k \<noteq> 0 \<longrightarrow> interview_at \<lparr>bo_chat = c, bo_thread = t\<rparr> 5 (fst (run_turns model c t us iv)))"
proof (induction k arbitrary: us n iv low)
  case (Suc k)
  then obtain u v us' where us: "us = u # v # us'" "length us' = 2 * k"
    by (cases us rule: answering_texts.cases) auto
  let ?iv1 = "snd (claim_owner c t iv)"
  have n: "n < 5" using Suc.prems(2) by simp
  obtain qu asked where ask: "interview_turn_ipc (ut_at u) all_answered model (\<lambda>x. Ok (ut_reply u)) c t [(ut_message u, ut_text u)] iv
       = (?iv1\<lparr>iv_questions := [qu]\<rparr>, [asked], Ok InterviewHandled)"
    and quf: "question_for \<lparr>bo_chat = c, bo_thread = t\<rparr> n qu" and qum: "bq_message qu = ut_reply u"
    by (rule asking_turn[OF w _ Suc.prems(3,4,5) n, where send = "\<lambda>x. Ok (ut_reply u)" and m = "ut_reply u" and now = "ut_at u"
          and messages = "[(ut_message u, ut_text u)]"]) simp_all
  let ?iv2 = "?iv1\<lparr>iv_questions := [qu]\<rparr>"
  have at2: "interview_at \<lparr>bo_chat = c, bo_thread = t\<rparr> n ?iv2"
    using Suc.prems(3) quf by (simp add: interview_at_def answers_up_to_def)
  have order: "low < ut_message u" "ut_message u < ut_reply u" "ut_reply u < ut_message v" "ut_message v < ut_reply v"
    "in_chat_order (ut_reply v) us'" using Suc.prems(7) us by simp_all
  have fresh: "ut_message v \<notin> ba_source ` set (iv_answers ?iv2)" using Suc.prems(6) order by force
  let ?iv3 = "answered_interview (ut_at v) c t n (ut_text v) (ut_message v) ?iv2"
  have tv: "trim_chars (ut_text v) \<noteq> []" using Suc.prems(8) us by simp
  obtain sent r where ans: "interview_turn_ipc (ut_at v) all_answered model (\<lambda>x. Ok (ut_reply v)) c t [(ut_message v, ut_text v)] ?iv2
       = (?iv3, sent, r)" "is_final r = (n = 4)"
    using answering_turn[OF w _ at2 _ _ fresh tv, where send = "\<lambda>x. Ok (ut_reply v)" and m = "ut_reply v" and now = "ut_at v" and qu = qu]
      order qum by auto
  have at3: "interview_at \<lparr>bo_chat = c, bo_thread = t\<rparr> (Suc n) ?iv3"
    by (rule record_waiting(2)[OF at2 _ _ fresh tv, where qu = qu]) (use order qum in simp_all)
  then have own3: "claim_owner c t ?iv3 = (AlreadyOwned \<lparr>bo_chat = c, bo_thread = t\<rparr>, ?iv3)" by (simp add: interview_at_def claim_own)
  have rest: "map ba_answer (iv_answers (fst (run_turns model c t us' ?iv3))) = map ba_answer (iv_answers ?iv3) @ answering_texts us'
    \<and> map is_final (snd (run_turns model c t us' ?iv3)) = (if k = 0 then [] else replicate (2 * k - 1) False @ [True])
    \<and> (k \<noteq> 0 \<longrightarrow> interview_at \<lparr>bo_chat = c, bo_thread = t\<rparr> 5 (fst (run_turns model c t us' ?iv3)))"
    using Suc.IH[of us' "Suc n" ?iv3 "ut_reply v"] own3 at3 us Suc.prems order
    by (fastforce simp: answered_interview_def answer_row_of_def)
  have run: "run_turns model c t us iv = (fst (run_turns model c t us' ?iv3), Ok InterviewHandled # r # snd (run_turns model c t us' ?iv3))"
    using us ask ans by (simp add: case_prod_beta)
  have k0: "k = 0 \<longleftrightarrow> n = 4" using Suc.prems(2) by auto
  have answers3: "map ba_answer (iv_answers ?iv3) = map ba_answer (iv_answers ?iv1) @ [trim_chars (ut_text v)]"
    by (simp add: answered_interview_def answer_row_of_def)
  have "is_final (Ok InterviewHandled) = False" by (simp add: is_final_def)
  then show ?case
    using rest run k0 ans(2) us answers3 at3
    by (cases k) (auto simp: numeral_eq_Suc)
qed (auto simp: claim_owner_def split: option.splits)

text \<open>C37: an interview takes two turns a stage.  A conversation that starts the interview, whose requests are all
  answered, with a model that words its questions and one message of the user a turn, numbered as they appear
  in the chat, ends at the tenth turn and no earlier: the texts of the second message of each pair are the
  answers on record, in order, and the tenth turn is the one that hands over to the final state.\<close>

theorem interview_takes_ten_turns:
  assumes "words_questions model q" and "length us = 10" and "in_chat_order 0 us"
    and "\<forall>u \<in> set us. trim_chars (ut_text u) \<noteq> []"
  shows "map is_final (snd (run_turns model c t us empty_interview)) = replicate 9 False @ [True]
    \<and> map ba_answer (iv_answers (fst (run_turns model c t us empty_interview))) = answering_texts us
    \<and> missing_stages c t (fst (run_turns model c t us empty_interview)) = []"
proof -
  have cl: "claim_owner c t empty_interview = (Claimed, empty_interview\<lparr>iv_owner := Some \<lparr>bo_chat = c, bo_thread = t\<rparr>\<rparr>)"
    by (simp add: claim_owner_def empty_interview_def)
  let ?iv = "fst (run_turns model c t us empty_interview)"
  have r: "map ba_answer (iv_answers ?iv) = answering_texts us
    \<and> map is_final (snd (run_turns model c t us empty_interview)) = replicate 9 False @ [True]
    \<and> interview_at \<lparr>bo_chat = c, bo_thread = t\<rparr> 5 ?iv"
    using interview_rounds[OF assms(1), of us 5 0 c t empty_interview 0] assms(2-4) cl
    by (simp add: empty_interview_def interview_at_def answers_up_to_def)
  then have "recorded_stages c t ?iv = STAGES"
    using recorded_stages_at[of c t 5 ?iv] by (simp add: interview_at_def)
  then have "missing_stages c t ?iv = []" by (simp add: missing_stages_def filter_empty_conv)
  then show ?thesis using r by blast
qed


lemma interview_takes_ten_turns_witness:
  "let us = map (\<lambda>i. \<lparr>ut_at = 5, ut_message = 2 * i + 1, ut_text = [65], ut_reply = 2 * i + 2\<rparr>) [0, 1, 2, 3, 4, 5, 6, 7, 8, 9] in
     map is_final (snd (run_turns words 1 0 us empty_interview)) = replicate 9 False @ [True]
     \<and> map ba_answer (iv_answers (fst (run_turns words 1 0 us empty_interview))) = [[65], [65], [65], [65], [65]]"
proof -
  let ?us = "map (\<lambda>i. \<lparr>ut_at = 5, ut_message = 2 * i + 1, ut_text = [65], ut_reply = 2 * i + 2\<rparr>) [0, 1, 2, 3, 4, 5, 6, 7, 8, 9]"
  have t: "trim_chars [65] = [65]" by code_simp
  have "length ?us = 10" "in_chat_order 0 ?us" "\<forall>u \<in> set ?us. trim_chars (ut_text u) \<noteq> []"
    "answering_texts ?us = [[65], [65], [65], [65], [65]]"
    by (simp_all add: t)
  then show ?thesis using interview_takes_ten_turns[OF words_words, of ?us 1 0] by (simp only: Let_def)
qed

end
