(* ===== verification/Bootstrap_Props.thy ===== *)
theory Bootstrap_Props
  imports Bootstrap_Final Interview_Props
begin

text \<open>
  The end of the interview survives crashes: whatever happens to a turn that ends it and to the starts of
  the bot after it, one start without faults leaves the agent either through with its interview or in it.
  The reset of an agent touches nothing of the host before the identity left the sandbox, and running it
  again completes it.
\<close>

section \<open>The mirror\<close>

definition mirror_regular :: "mirror_fs \<Rightarrow> bool" where
  "mirror_regular m = (\<forall>n \<in> set IDENTITY_FILES. mf_dest m n \<noteq> Some OtherEntry)"

lemma keeps_regular_steps:
  "keeps mirror_regular (copy_one guest n)" "keeps mirror_regular (stat_one n)" "keeps mirror_regular (backup_one n)"
  "keeps mirror_regular (publish_one n)" "keeps mirror_regular (remove_one n)" "keeps mirror_regular (restore_one n)"
  "keeps mirror_regular (drop_backup n)"
  unfolding copy_one_def stat_one_def backup_one_def publish_one_def remove_one_def restore_one_def drop_backup_def
  by (intro keeps_paction; auto simp: mirror_regular_def split: option.splits mirror_entry.splits)+

lemma keeps_collect: "keeps P m \<Longrightarrow> keeps P (collect n m)"
  unfolding collect_def by (intro keeps_pcatch keeps_pbind) simp_all

lemma keeps_regular_lists:
  "keeps mirror_regular (plan_files ns)" "keeps mirror_regular (rollback_files files)"
  "keeps mirror_regular (cleanup_backups files)" "keeps mirror_regular (copy_staged guest ns)"
proof -
  show "keeps mirror_regular (plan_files ns)" by (induction ns) (simp_all add: keeps_pbind keeps_regular_steps)
  show "keeps mirror_regular (rollback_files files)"
    by (induction files rule: rollback_files.induct) (auto intro!: keeps_pbind keeps_collect keeps_regular_steps)
  show "keeps mirror_regular (cleanup_backups files)"
    by (induction files rule: cleanup_backups.induct) (auto intro!: keeps_pbind keeps_collect keeps_regular_steps)
  show "keeps mirror_regular (copy_staged guest ns)"
    by (induction ns) (auto intro!: keeps_pbind keeps_collect keeps_regular_steps)
qed

lemma keeps_regular_publish_error: "keeps mirror_regular (publish_error files)"
  unfolding publish_error_def by (intro keeps_pbind keeps_regular_lists) simp

lemma keeps_regular_publish: "keeps mirror_regular (publish_files ps files)"
  by (induction ps files rule: publish_files.induct)
     (auto simp: cleanup_published_def intro!: keeps_pbind keeps_pcatch keeps_regular_steps keeps_regular_lists keeps_regular_publish_error)

lemma keeps_regular_sync: "keeps mirror_regular (sync_identity_mirror_from_sandbox guest)"
  unfolding sync_identity_mirror_from_sandbox_def publish_staged_identity_mirror_def
  by (intro keeps_pbind keeps_paction) (auto simp: mirror_regular_def intro!: keeps_pbind keeps_regular_publish keeps_regular_lists)

lemma copy_staged_run:
  assumes "\<forall>n \<in> set ns. guest n \<noteq> None"
  shows "\<exists>m'. copy_staged guest ns (m, []) = (Returned (Ok []), m', []) \<and> mf_dest m' = mf_dest m
    \<and> (\<forall>n. mf_staged m' n = (if n \<in> set ns then guest n else mf_staged m n))"
  using assms
proof (induction ns arbitrary: m)
  case (Cons n ns)
  obtain c where c: "guest n = Some c" using Cons.prems by auto
  let ?m1 = "m\<lparr>mf_staged := (mf_staged m)(n := Some c)\<rparr>"
  obtain m' where m': "copy_staged guest ns (?m1, []) = (Returned (Ok []), m', [])" "mf_dest m' = mf_dest m"
    "\<forall>k. mf_staged m' k = (if k \<in> set ns then guest k else mf_staged ?m1 k)"
    using Cons.IH[of ?m1] Cons.prems by auto
  have "collect n (copy_one guest n) (m, []) = (Returned (Ok []), ?m1, [])"
    using c by (simp add: collect_def copy_one_def pcatch_run pbind_run)
  then have "copy_staged guest (n # ns) (m, []) = (Returned (Ok []), m', [])" using m'(1) by (simp add: pbind_run)
  then show ?case using m'(2,3) c by auto
qed simp

lemma sync_run:
  assumes "\<forall>n \<in> set IDENTITY_FILES. guest n \<noteq> None" and "mirror_regular m"
  shows "\<exists>m'. sync_identity_mirror_from_sandbox guest (m, []) = (Returned (Ok ()), m', [])
    \<and> (\<forall>n \<in> set IDENTITY_FILES. mf_dest m' n = map_option RegularFile (guest n))"
proof -
  let ?m0 = "m\<lparr>mf_staged := \<lambda>_. None, mf_backup := \<lambda>_. None\<rparr>"
  obtain m1 where m1: "copy_staged guest IDENTITY_FILES (?m0, []) = (Returned (Ok []), m1, [])" "mf_dest m1 = mf_dest m"
    "\<forall>n. mf_staged m1 n = (if n \<in> set IDENTITY_FILES then guest n else None)"
    using copy_staged_run[OF assms(1), of ?m0] by auto
  have "\<forall>n \<in> set IDENTITY_FILES. mf_dest m1 n \<noteq> Some OtherEntry \<and> mf_staged m1 n \<noteq> None"
    using m1(2,3) assms by (simp add: mirror_regular_def)
  then obtain r m' fs' where p: "publish_staged_identity_mirror (m1, []) = (r, m', fs')"
    "all_or_nothing (mf_dest m1) (all_published (mf_dest m1) (mf_staged m1) (set IDENTITY_FILES)) r m'"
    "r = Returned (Ok ())" "fs' = []"
    using publish_staged_run[OF one_failure_Nil] by blast
  have "sync_identity_mirror_from_sandbox guest (m, []) = (Returned (Ok ()), m', [])"
    using m1(1) p(1,3,4) by (simp add: sync_identity_mirror_from_sandbox_def pbind_run)
  moreover have "\<forall>n \<in> set IDENTITY_FILES. mf_dest m' n = map_option RegularFile (guest n)"
    using p(2,3) m1(3) by (simp add: all_or_nothing_def all_published_def)
  ultimately show ?thesis by blast
qed

section \<open>Verification\<close>

text \<open>Verifying touches nothing but the mirror, and never ends in an error.\<close>

definition only_mirror :: "boot_world \<Rightarrow> boot_world \<Rightarrow> bool" where
  "only_mirror w w' = (\<exists>m. w' = w\<lparr>bw_mirror := m\<rparr> \<and> (mirror_regular (bw_mirror w) \<longrightarrow> mirror_regular m))"

lemma only_mirror_refl [simp]: "only_mirror w w"
  unfolding only_mirror_def by (intro exI[of _ "bw_mirror w"]) simp

lemma only_mirror_fields:
  "only_mirror w w' \<Longrightarrow> bw_marker w' = bw_marker w \<and> bw_intent w' = bw_intent w \<and> bw_sessions w' = bw_sessions w
     \<and> bw_interview w' = bw_interview w \<and> bw_guest w' = bw_guest w \<and> (mirror_regular (bw_mirror w) \<longrightarrow> mirror_regular (bw_mirror w'))"
  by (auto simp: only_mirror_def)

lemma ends_sync_mirror: "ends sync_mirror w (\<lambda>r w'. only_mirror w w')"
  unfolding sync_mirror_def
proof (rule ends_pbind, simp)
  let ?z = "pzoom bw_mirror (\<lambda>m w. w\<lparr>bw_mirror := m\<rparr>) (sync_identity_mirror_from_sandbox (bw_guest w))"
  have "ends (sync_identity_mirror_from_sandbox (bw_guest w)) (bw_mirror w) (\<lambda>r m. mirror_regular (bw_mirror w) \<longrightarrow> mirror_regular m)"
    using keepsD[OF keeps_regular_sync] by (cases "mirror_regular (bw_mirror w)") (auto simp: ends_def)
  then have "ends ?z w (\<lambda>r w'. only_mirror w w')"
    by (intro ends_pzoom) (auto simp: only_mirror_def elim!: ends_mono)
  then show "ends (\<lambda>s. case ?z s of (Returned (Inl e), s') \<Rightarrow> (Returned (Err (BootMirror e)), s')
       | (Returned (Inr u), s') \<Rightarrow> (Returned (Ok u), s') | (Died, s') \<Rightarrow> (Died, s')) w (\<lambda>r w'. only_mirror w w')"
    unfolding ends_def by (auto split: ending.splits sum.splits prod.splits) (metis fst_conv snd_conv)+
qed

lemma ends_verify_probe: "ends (verify_with_probe up) w (\<lambda>r w'. only_mirror w w' \<and> (\<forall>e. r \<noteq> Returned (Inl e)))"
proof (cases up)
  case True
  have "ends (pthen sync_mirror (pbind (plook (\<lambda>w. host_identity_mirror_complete (bw_mirror w))) (\<lambda>complete.
             pdone (if complete then Verified else IdentityMissing)))) w (\<lambda>r w'. only_mirror w w')"
    by (rule ends_pbind, rule ends_mono[OF ends_sync_mirror], auto split: ending.splits sum.splits intro!: ends_pbind)
  then have "ends (pbind (paction (BootIo ''probe'') (\<lambda>w. (Ok (guest_complete w), w))) (\<lambda>present.
           if \<not> present then pdone IdentityMissing
           else pthen sync_mirror (pbind (plook (\<lambda>w. host_identity_mirror_complete (bw_mirror w))) (\<lambda>complete.
             pdone (if complete then Verified else IdentityMissing))))) w (\<lambda>r w'. only_mirror w w')"
    by (intro ends_pbind) simp
  then show ?thesis
    using True unfolding verify_with_probe_def
    by (simp, intro ends_pcatch) (auto elim!: ends_mono split: ending.splits sum.splits)
qed (simp add: verify_with_probe_def)

lemma ends_verify: "ends (verify_bootstrap up c t) w (\<lambda>r w'. only_mirror w w' \<and> (\<forall>e. r \<noteq> Returned (Inl e)))"
proof -
  have "ends (verify_with_probe up) w (\<lambda>r w'. only_mirror w w')" by (rule ends_mono[OF ends_verify_probe]) simp
  then have "ends (pbind (missing_stages_request c t) (\<lambda>stages. if stages \<noteq> [] then pdone AnswersMissing else verify_with_probe up)) w
      (\<lambda>r w'. only_mirror w w')"
    unfolding missing_stages_request_def by (intro ends_pbind) simp
  then show ?thesis
    unfolding verify_bootstrap_def
    by (intro ends_pcatch) (auto elim!: ends_mono split: ending.splits sum.splits)
qed

lemma verify_run:
  assumes "missing_stages c t (bw_interview w) = []" and "guest_complete w" and "mirror_regular (bw_mirror w)"
  shows "\<exists>m. verify_bootstrap True c t (w, []) = (Returned (Ok Verified), w\<lparr>bw_mirror := m\<rparr>, [])"
proof -
  have g: "\<forall>n \<in> set IDENTITY_FILES. bw_guest w n \<noteq> None" using assms(2) by (simp add: guest_complete_def list_all_iff)
  obtain m where m: "sync_identity_mirror_from_sandbox (bw_guest w) (bw_mirror w, []) = (Returned (Ok ()), m, [])"
    "\<forall>n \<in> set IDENTITY_FILES. mf_dest m n = map_option RegularFile (bw_guest w n)"
    using sync_run[OF g assms(3)] by blast
  have s: "sync_mirror (w, []) = (Returned (Ok ()), w\<lparr>bw_mirror := m\<rparr>, [])"
    unfolding sync_mirror_def
    by (subst pbind_run(1)[of "plook bw_guest" "(w, [])" "bw_guest w" "(w, [])"])
       (simp_all add: pzoom_run[of "sync_identity_mirror_from_sandbox (bw_guest w)" bw_mirror w "[]", OF m(1)])
  have "host_identity_mirror_complete m" using m(2) g by (simp add: host_identity_mirror_complete_def list_all_iff)
  then have "verify_with_probe True (w, []) = (Returned (Ok Verified), w\<lparr>bw_mirror := m\<rparr>, [])"
    using s assms(2) by (simp add: verify_with_probe_def pcatch_run pbind_run)
  then have "verify_bootstrap True c t (w, []) = (Returned (Ok Verified), w\<lparr>bw_mirror := m\<rparr>, [])"
    using assms(1) by (simp add: verify_bootstrap_def missing_stages_request_def pcatch_run pbind_run)
  then show ?thesis by blast
qed


section \<open>States between turns\<close>

definition row_known :: "int \<Rightarrow> int \<Rightarrow> chars \<Rightarrow> boot_world \<Rightarrow> bool" where
  "row_known c t root w = (\<exists>r \<in> set (sd_rows (bw_sessions w)). in_scope c t r \<and> ss_root r = root)"

text \<open>The interview of the conversation is answered in full, and the identity is in the sandbox.\<close>

definition answered_world :: "int \<Rightarrow> int \<Rightarrow> boot_world \<Rightarrow> bool" where
  "answered_world c t w =
     (missing_stages c t (bw_interview w) = [] \<and> guest_complete w \<and> mirror_regular (bw_mirror w)
      \<and> bw_marker w \<noteq> MarkerOther)"

definition finish_pending :: "int \<Rightarrow> int \<Rightarrow> chars \<Rightarrow> boot_world \<Rightarrow> bool" where
  "finish_pending c t root w =
     (bw_intent w = IntentFile (Some \<lparr>it_chat = c, it_thread = t, it_root = root\<rparr>) \<and> root \<noteq> [] \<and> row_known c t root w)"

definition boot_completed :: "int \<Rightarrow> int \<Rightarrow> boot_world \<Rightarrow> bool" where
  "boot_completed c t w = (bw_intent w = NoIntent \<and> bw_marker w = NoMarker \<and> get_active_session c t (bw_sessions w) = None)"

definition in_bootstrap :: "boot_world \<Rightarrow> bool" where
  "in_bootstrap w = (bw_intent w = NoIntent \<and> (\<exists>b. bw_marker w = MarkerFile b))"

definition boot_consistent :: "int \<Rightarrow> int \<Rightarrow> chars \<Rightarrow> boot_world \<Rightarrow> bool" where
  "boot_consistent c t root w =
     (answered_world c t w \<and> (finish_pending c t root w \<or> boot_completed c t w \<or> in_bootstrap w))"

lemmas boot_state_defs = boot_consistent_def answered_world_def finish_pending_def boot_completed_def in_bootstrap_def guest_complete_def

lemma row_known_update:
  "row_known c t root w \<Longrightarrow> (\<And>r. in_scope c t (f r) = in_scope c t r \<and> ss_root (f r) = ss_root r) \<Longrightarrow>
   \<exists>r \<in> set (update_where p f (sd_rows (bw_sessions w))). in_scope c t r \<and> ss_root r = root"
  unfolding row_known_def by (metis set_update_where)

lemma row_known_deactivate: "row_known c t root w \<Longrightarrow>
    row_known c t root (w\<lparr>bw_sessions := snd (deactivate_current_session c' t' (bw_sessions w))\<rparr>)"
  using row_known_update[of c t root w "\<lambda>r. r\<lparr>ss_active := False\<rparr>" "active_in c' t'"]
  by (simp add: deactivate_current_session_def row_known_def in_scope_def)

lemma row_known_activate: "row_known c t root w \<Longrightarrow>
    row_known c t root (w\<lparr>bw_sessions := snd (activate_session now i (bw_sessions w))\<rparr>)"
proof (cases "find (\<lambda>r. ss_id r = i) (sd_rows (bw_sessions w))")
  case (Some r)
  assume k: "row_known c t root w"
  let ?off = "update_where (active_in (ss_chat r) (ss_thread r)) (\<lambda>r. r\<lparr>ss_active := False\<rparr>) (sd_rows (bw_sessions w))"
  have "\<exists>r \<in> set ?off. in_scope c t r \<and> ss_root r = root"
    by (rule row_known_update[OF k]) (simp add: in_scope_def)
  then have "row_known c t root (w\<lparr>bw_sessions := (bw_sessions w)\<lparr>sd_rows := ?off\<rparr>\<rparr>)" by (simp add: row_known_def)
  from row_known_update[OF this, of "\<lambda>r. r\<lparr>ss_active := True, ss_used := now\<rparr>" "\<lambda>r. ss_id r = i"]
  show ?thesis using Some by (simp add: activate_session_def row_known_def in_scope_def)
qed (simp add: activate_session_def)

lemma find_session_known: "row_known c t root w \<Longrightarrow> \<exists>s. find_session_by_root c t root (bw_sessions w) = Some s"
  unfolding find_session_by_root_def row_known_def pop_row_def
  by (auto dest!: arg_cong[where f = set])

lemma active_row_known: "get_active_session c t (bw_sessions w) = Some s \<Longrightarrow> row_known c t (ss_root s) w"
  by (auto simp: get_active_session_def find_Some_iff row_known_def active_in_def)


section \<open>Finishing\<close>

lemma ends_activate:
  "(\<And>r. Q r w) \<Longrightarrow> (\<And>r. Q r (w\<lparr>bw_sessions := snd (activate_session now i (bw_sessions w))\<rparr>)) \<Longrightarrow>
   ends (activate_request now i) w Q"
  unfolding activate_request_def by (auto split: prod.splits sum.splits)

lemma row_known_sessions:
  "row_known c t root w \<Longrightarrow> bw_sessions w' = bw_sessions w \<Longrightarrow> row_known c t root w'"
  by (simp add: row_known_def)

text \<open>What a step of the finishing has to leave: a consistent state, and when it reports success the
  completed one.\<close>

definition finish_post :: "int \<Rightarrow> int \<Rightarrow> chars \<Rightarrow> (boot_failure, unit) ending \<Rightarrow> boot_world \<Rightarrow> bool" where
  "finish_post c t root r w =
     (boot_consistent c t root w \<and> (r = Returned (Ok ()) \<longrightarrow> boot_completed c t w))"

lemma finish_post_other:
  "boot_consistent c t root w \<Longrightarrow> finish_post c t root (Returned (Err e)) w"
  "boot_consistent c t root w \<Longrightarrow> finish_post c t root Died w"
  by (simp_all add: finish_post_def)

lemma ends_put_back:
  assumes a: "answered_world c t w" and p: "finish_pending c t root w"
  shows "ends (pthen restore_marker (pthen (activate_request now i) (pthen clear_intent (pfail e)))) w (finish_post c t root)"
proof -
  let ?P = "\<lambda>w'. answered_world c t w' \<and> finish_pending c t root w' \<and> (\<exists>b. bw_marker w' = MarkerFile b)"
  have c: "boot_consistent c t root w'" if "?P w'" for w' using that by (auto simp: boot_consistent_def)
  have restore: "ends restore_marker w (\<lambda>r w'. boot_consistent c t root w' \<and> (\<forall>x. r = Returned (Inr x) \<longrightarrow> ?P w'))"
    using a p unfolding restore_marker_def
    by (intro ends_pbind) (auto simp: boot_state_defs row_known_def split: boot_marker.splits intro!: ends_pbind)
  have clear: "ends (pthen clear_intent (pfail e)) w' (finish_post c t root)" if "?P w'" for w'
    using that unfolding clear_intent_def
    by (intro ends_pbind) (auto simp: finish_post_def boot_state_defs)
  have act: "ends (pthen (activate_request now i) (pthen clear_intent (pfail e))) w' (finish_post c t root)" if w': "?P w'" for w'
  proof -
    have "?P (w'\<lparr>bw_sessions := snd (activate_session now i (bw_sessions w'))\<rparr>)"
      using w' row_known_activate[of c t root w' now i] by (auto simp: boot_state_defs)
    then show ?thesis
      using w' clear c by (intro ends_pbind ends_activate) (auto simp: finish_post_other split: ending.splits sum.splits)
  qed
  show ?thesis
    by (rule ends_pbind, rule ends_mono[OF restore]) (use act in \<open>auto simp: finish_post_other split: ending.splits sum.splits\<close>)
qed

lemma ends_finish:
  assumes a: "answered_world c t w" and i: "bw_intent w = NoIntent" and mk: "bw_marker w = MarkerFile b"
  shows "ends (finish_verified_bootstrap now c t root) w (finish_post c t root)"
proof -
  have cons: "boot_consistent c t root w" using a i mk by (simp add: boot_consistent_def in_bootstrap_def)
  have rest: "ends (pbind (new_intent c t root) (\<lambda>it. pthen (write_intent it) (pthen (deactivate_request c t)
           (pbind (pcatch (pthen remove_marker (pdone None)) (\<lambda>e. pdone (Some e))) (\<lambda>removal. case removal of
               Some e \<Rightarrow> pthen restore_marker (pthen (activate_request now (ss_id s)) (pthen clear_intent (pfail e)))
             | None \<Rightarrow> clear_intent))))) w (finish_post c t root)"
    if s: "get_active_session c t (bw_sessions w) = Some s" "ss_root s = root" for s
  proof (cases "root = []")
    case True
    then show ?thesis using cons by (intro ends_pbind) (simp add: new_intent_def finish_post_other)
  next
    case False
    have known: "row_known c t root w" using active_row_known[OF s(1)] s(2) by simp
    let ?w1 = "w\<lparr>bw_intent := IntentFile (Some \<lparr>it_chat = c, it_thread = t, it_root = root\<rparr>)\<rparr>"
    let ?w2 = "?w1\<lparr>bw_sessions := snd (deactivate_current_session c t (bw_sessions w))\<rparr>"
    let ?w3 = "?w2\<lparr>bw_marker := NoMarker\<rparr>"
    have k2: "row_known c t root ?w2" using row_known_deactivate[OF known, of c t] by (simp add: row_known_def)
    have p1: "answered_world c t ?w1 \<and> finish_pending c t root ?w1" using a known False by (simp add: boot_state_defs row_known_def)
    have p2: "answered_world c t ?w2 \<and> finish_pending c t root ?w2" using a k2 False by (simp add: boot_state_defs)
    have p3: "answered_world c t ?w3 \<and> finish_pending c t root ?w3" using a k2 False by (simp add: boot_state_defs row_known_def)
    have p4: "answered_world c t (?w3\<lparr>bw_intent := NoIntent\<rparr>) \<and> boot_completed c t (?w3\<lparr>bw_intent := NoIntent\<rparr>)"
      using a by (simp add: boot_state_defs deactivate_none)
    have cs: "boot_consistent c t root ?w1" "boot_consistent c t root ?w2" "boot_consistent c t root ?w3"
      "boot_consistent c t root (?w3\<lparr>bw_intent := NoIntent\<rparr>)"
      using p1 p2 p3 p4 by (auto simp: boot_consistent_def)
    have clear: "ends clear_intent ?w3 (finish_post c t root)"
      unfolding clear_intent_def using cs p4 by (simp add: finish_post_def)
    have removal: "ends (pbind (pcatch (pthen remove_marker (pdone None)) (\<lambda>e. pdone (Some e))) (\<lambda>removal. case removal of
               Some e \<Rightarrow> pthen restore_marker (pthen (activate_request now (ss_id s)) (pthen clear_intent (pfail e)))
             | None \<Rightarrow> clear_intent)) ?w2 (finish_post c t root)"
      using mk cs clear ends_put_back[OF p2[THEN conjunct1] p2[THEN conjunct2]] ends_put_back[OF p3[THEN conjunct1] p3[THEN conjunct2]]
      unfolding remove_marker_def
      by (intro ends_pbind ends_pcatch) (simp add: finish_post_other)
    have deact: "ends (pthen (deactivate_request c t) (pbind (pcatch (pthen remove_marker (pdone None)) (\<lambda>e. pdone (Some e))) (\<lambda>removal. case removal of
               Some e \<Rightarrow> pthen restore_marker (pthen (activate_request now (ss_id s)) (pthen clear_intent (pfail e)))
             | None \<Rightarrow> clear_intent))) ?w1 (finish_post c t root)"
      unfolding deactivate_request_def using removal cs by (intro ends_pbind) (simp add: finish_post_other)
    show ?thesis
      unfolding new_intent_def write_intent_def using False deact cs cons
      by (intro ends_pbind) (simp add: finish_post_other, intro ends_pbind, simp add: finish_post_other)
  qed
  show ?thesis
    unfolding finish_verified_bootstrap_def first_missing_request_def active_session_request_def
    using cons rest
    by (intro ends_pbind) (auto simp: finish_post_other split: option.splits intro!: ends_pbind)
qed


section \<open>Recovering\<close>

lemma answered_mirror: "only_mirror w w' \<Longrightarrow> answered_world c t w \<Longrightarrow> answered_world c t w'"
  using only_mirror_fields[of w w'] by (simp add: answered_world_def guest_complete_def)

lemma pending_mirror: "only_mirror w w' \<Longrightarrow> finish_pending c t root w \<Longrightarrow> finish_pending c t root w'"
  using only_mirror_fields[of w w'] by (simp add: finish_pending_def row_known_def)

lemma consistent_mirror: "only_mirror w w' \<Longrightarrow> boot_consistent c t root w \<Longrightarrow> boot_consistent c t root w'"
  using only_mirror_fields[of w w'] answered_mirror[of w w' c t] pending_mirror[of w w' c t root]
  by (auto simp: boot_consistent_def boot_completed_def in_bootstrap_def)

lemma ends_complete:
  assumes a: "answered_world c t w" and p: "finish_pending c t root w"
  shows "ends (pthen (deactivate_request c t) (pthen remove_marker clear_intent)) w (finish_post c t root)"
proof -
  let ?w2 = "w\<lparr>bw_sessions := snd (deactivate_current_session c t (bw_sessions w))\<rparr>"
  let ?w3 = "?w2\<lparr>bw_marker := NoMarker\<rparr>"
  let ?w4 = "?w3\<lparr>bw_intent := NoIntent\<rparr>"
  have k2: "row_known c t root ?w2" using row_known_deactivate[of c t root w c t] p by (simp add: finish_pending_def)
  have cs: "boot_consistent c t root w" "boot_consistent c t root ?w2" "boot_consistent c t root ?w3" "boot_consistent c t root ?w4"
    and d: "boot_completed c t ?w4"
    using a p k2 by (simp_all add: boot_state_defs row_known_def deactivate_none)
  have clear: "ends clear_intent ?w3 (finish_post c t root)"
    unfolding clear_intent_def using cs d by (simp add: finish_post_def)
  have rem: "ends (pthen remove_marker clear_intent) ?w2 (finish_post c t root)"
    unfolding remove_marker_def using a cs clear by (intro ends_pbind) (simp add: finish_post_other answered_world_def)
  show ?thesis
    unfolding deactivate_request_def using cs rem by (intro ends_pbind) (simp add: finish_post_other)
qed

lemma ends_refuse:
  assumes a: "answered_world c t w" and p: "finish_pending c t root w"
  shows "ends (pthen restore_marker (pthen (case session of None \<Rightarrow> pdone () | Some s \<Rightarrow> activate_request now (ss_id s)) (pfail BootRefused))) w
     (finish_post c t root)"
proof -
  let ?P = "\<lambda>w'. answered_world c t w' \<and> finish_pending c t root w'"
  have c: "boot_consistent c t root w'" if "?P w'" for w' using that by (simp add: boot_consistent_def)
  have restore: "ends restore_marker w (\<lambda>r w'. ?P w')"
    using a p unfolding restore_marker_def
    by (intro ends_pbind) (auto simp: boot_state_defs row_known_def split: boot_marker.splits intro!: ends_pbind)
  have act: "ends (pthen (case session of None \<Rightarrow> pdone () | Some s \<Rightarrow> activate_request now (ss_id s)) (pfail BootRefused)) w' (finish_post c t root)"
    if w': "?P w'" for w'
  proof (cases session)
    case (Some s)
    have "?P (w'\<lparr>bw_sessions := snd (activate_session now (ss_id s) (bw_sessions w'))\<rparr>)"
      using w' row_known_activate[of c t root w' now "ss_id s"] by (auto simp: boot_state_defs)
    then show ?thesis
      using w' c Some by (simp, intro ends_pbind ends_activate) (auto simp: finish_post_other split: ending.splits sum.splits)
  qed (use w' c in \<open>auto simp: finish_post_other intro!: ends_pbind\<close>)
  show ?thesis
    by (rule ends_pbind, rule ends_mono[OF restore]) (use act c in \<open>auto simp: finish_post_other split: ending.splits sum.splits\<close>)
qed

lemma ends_recover:
  assumes "boot_consistent c t root w"
  shows "ends (recover_bootstrap_finalization now up) w (\<lambda>r w'. boot_consistent c t root w')"
proof (cases "finish_pending c t root w")
  case False
  then have "bw_intent w = NoIntent" using assms by (auto simp: boot_state_defs)
  then show ?thesis
    using assms unfolding recover_bootstrap_finalization_def read_intent_def
    by (auto intro!: ends_pbind)
next
  case True
  have a: "answered_world c t w" using assms by (simp add: boot_consistent_def)
  let ?it = "\<lparr>it_chat = c, it_thread = t, it_root = root\<rparr>"
  have weak: "ends m w' (finish_post c t root) \<Longrightarrow> ends m w' (\<lambda>r w'. boot_consistent c t root w')" for m w'
    by (erule ends_mono) (simp add: finish_post_def)
  let ?k = "\<lambda>v session. case v of
           Verified \<Rightarrow>
             (case session of
                None \<Rightarrow> pfail BootSessionGone
              | Some s \<Rightarrow> pthen (deactivate_request (it_chat ?it) (it_thread ?it)) (pthen remove_marker clear_intent))
         | _ \<Rightarrow>
             pthen restore_marker
               (pthen (case session of None \<Rightarrow> pdone () | Some s \<Rightarrow> activate_request now (ss_id s)) (pfail BootRefused))"
  have k: "ends (?k v session) w' (\<lambda>r w'. boot_consistent c t root w')"
    if "answered_world c t w'" "finish_pending c t root w'" for v session w'
  proof -
    have "boot_consistent c t root w'" using that by (simp add: boot_consistent_def)
    then show ?thesis
      using weak[OF ends_complete[OF that]] weak[OF ends_refuse[OF that, where session = session and now = now]]
      by (cases v; cases session) simp_all
  qed
  have after: "ends (pbind (find_session_request c t root) (?k v)) w' (\<lambda>r w'. boot_consistent c t root w')"
    if w': "answered_world c t w'" "finish_pending c t root w'" for v w'
  proof -
    have "boot_consistent c t root w'" using w' by (simp add: boot_consistent_def)
    then show ?thesis unfolding find_session_request_def using k[OF w'] by (intro ends_pbind) simp
  qed
  have ver: "ends (pbind (verify_bootstrap up c t) (\<lambda>v. pbind (find_session_request c t root) (?k v))) w
      (\<lambda>r w'. boot_consistent c t root w')"
  proof (rule ends_pbind, rule ends_mono[OF ends_verify])
    fix r :: "(boot_failure, verification) ending" and w'
    assume m: "only_mirror w w' \<and> (\<forall>e. r \<noteq> Returned (Inl e))"
    then show "case r of Returned (Inl e) \<Rightarrow> boot_consistent c t root w'
      | Returned (Inr v) \<Rightarrow> ends (pbind (find_session_request c t root) (?k v)) w' (\<lambda>r w'. boot_consistent c t root w')
      | Died \<Rightarrow> boot_consistent c t root w'"
      using after[of w'] answered_mirror[of w w'] pending_mirror[of w w'] consistent_mirror[of w w'] a True assms
      by (auto split: ending.splits sum.splits)
  qed
  have "root \<noteq> []" "bw_intent w = IntentFile (Some ?it)" using True by (simp_all add: finish_pending_def)
  then show ?thesis
    using ver assms unfolding recover_bootstrap_finalization_def read_intent_def
    by (intro ends_pbind) simp
qed

lemma recover_run:
  assumes "boot_consistent c t root w"
  shows "\<exists>w'. recover_bootstrap_finalization now True (w, []) = (Returned (Ok ()), w', []) \<and>
    (boot_completed c t w' \<or> in_bootstrap w') \<and> (finish_pending c t root w \<longrightarrow> boot_completed c t w') \<and> (\<not> finish_pending c t root w \<longrightarrow> w' = w)"
proof (cases "finish_pending c t root w")
  case False
  then have "boot_completed c t w \<or> in_bootstrap w" "bw_intent w = NoIntent" using assms by (auto simp: boot_state_defs)
  then show ?thesis using False by (simp add: recover_bootstrap_finalization_def read_intent_def pbind_run)
next
  case True
  have a: "missing_stages c t (bw_interview w) = []" "guest_complete w" "mirror_regular (bw_mirror w)" "bw_marker w \<noteq> MarkerOther"
    using assms by (simp_all add: boot_consistent_def answered_world_def)
  let ?it = "\<lparr>it_chat = c, it_thread = t, it_root = root\<rparr>"
  have it: "root \<noteq> []" "bw_intent w = IntentFile (Some ?it)" "row_known c t root w" using True by (simp_all add: finish_pending_def)
  obtain m where v: "verify_bootstrap True c t (w, []) = (Returned (Ok Verified), w\<lparr>bw_mirror := m\<rparr>, [])"
    using verify_run[OF a(1-3)] by blast
  obtain s where s: "find_session_by_root c t root (bw_sessions w) = Some s" using find_session_known[OF it(3)] by blast
  let ?w' = "w\<lparr>bw_mirror := m, bw_sessions := snd (deactivate_current_session c t (bw_sessions w)), bw_marker := NoMarker, bw_intent := NoIntent\<rparr>"
  have ri: "read_intent (w, []) = (Returned (Ok (Some ?it)), w, [])" using it by (simp add: read_intent_def pbind_run)
  have "recover_bootstrap_finalization now True (w, []) = (Returned (Ok ()), ?w', [])"
    unfolding recover_bootstrap_finalization_def pbind_run(1)[of read_intent "(w, [])" "Some ?it" "(w, [])", OF ri] using v s a(4)
    by (simp add: find_session_request_def deactivate_request_def remove_marker_def clear_intent_def pbind_run)
  moreover have "boot_completed c t ?w'" by (simp add: boot_completed_def deactivate_none)
  ultimately show ?thesis using True by blast
qed


section \<open>Crashes\<close>

text \<open>The state a procedure leaves under a script.\<close>

definition after_proc :: "('w, 'e, 'a) proc \<Rightarrow> 'w \<Rightarrow> fault list \<Rightarrow> 'w" where
  "after_proc m w fs = fst (snd (m (w, fs)))"

lemma ends_after: "ends m w (\<lambda>r w'. P w') \<Longrightarrow> P (after_proc m w fs)"
  by (simp add: ends_def after_proc_def)

lemma ends_restore_consistent:
  assumes "boot_consistent c t root w" and "finish_pending c t root w \<or> bw_intent w = NoIntent"
  shows "ends restore_marker w (\<lambda>r w'. boot_consistent c t root w' \<and> (\<forall>x. r = Returned (Inr x) \<longrightarrow> (\<exists>b. bw_marker w' = MarkerFile b)))"
  using assms unfolding restore_marker_def
  by (intro ends_pbind) (auto simp: boot_state_defs row_known_def split: boot_marker.splits intro!: ends_pbind)

lemma ends_turn_end:
  assumes a: "answered_world c t w" and i: "bw_intent w = NoIntent" and mk: "bw_marker w = MarkerFile b"
  shows "ends (bootstrap_turn_end now up c t root signaled) w (\<lambda>r w'. boot_consistent c t root w'
     \<and> (r = Returned (Ok BootstrapComplete) \<longrightarrow> boot_completed c t w')
     \<and> (r = Returned (Ok BootstrapPending) \<longrightarrow> (\<exists>b. bw_marker w' = MarkerFile b)))"
proof -
  let ?Q = "\<lambda>r w'. boot_consistent c t root w'
     \<and> (r = Returned (Ok BootstrapComplete) \<longrightarrow> boot_completed c t w')
     \<and> (r = Returned (Ok BootstrapPending) \<longrightarrow> (\<exists>b. bw_marker w' = MarkerFile b))"
  let ?k = "\<lambda>completed. if completed then pdone BootstrapComplete
       else pcatch (pthen restore_marker (pdone BootstrapPending)) (\<lambda>e. pdone BootstrapRestartNeeded)"
  let ?mid = "\<lambda>r w'. boot_consistent c t root w' \<and> (r = Returned (Ok True) \<longrightarrow> boot_completed c t w')"
  have cons: "boot_consistent c t root w" using a i mk by (simp add: boot_consistent_def in_bootstrap_def)
  have fin: "ends (pcatch (pthen (finish_verified_bootstrap now c t root) (pdone True)) (\<lambda>e. pdone False)) w' ?mid"
    if m: "only_mirror w w'" for w'
  proof (rule ends_pcatch, rule ends_pbind, rule ends_mono[OF ends_finish])
    show "answered_world c t w'" "bw_intent w' = NoIntent" "bw_marker w' = MarkerFile b"
      using answered_mirror[OF m a] only_mirror_fields[OF m] i mk by simp_all
  qed (auto simp: finish_post_def split: ending.splits sum.splits)
  have verified: "ends (pbind (verify_bootstrap up c t) (\<lambda>v. if v = Verified
          then pcatch (pthen (finish_verified_bootstrap now c t root) (pdone True)) (\<lambda>e. pdone False)
          else pdone False)) w ?mid"
    by (rule ends_pbind, rule ends_mono[OF ends_verify])
       (use fin consistent_mirror[OF _ cons] in \<open>auto split: ending.splits sum.splits\<close>)
  have first: "ends (if \<not> signaled then pdone False
        else pbind (verify_bootstrap up c t) (\<lambda>v. if v = Verified
          then pcatch (pthen (finish_verified_bootstrap now c t root) (pdone True)) (\<lambda>e. pdone False)
          else pdone False)) w ?mid"
    using verified cons by simp
  have kk: "ends (?k done1) w' ?Q" if "boot_consistent c t root w'" "done1 \<longrightarrow> boot_completed c t w'" for done1 w'
  proof (cases done1)
    case False
    have "finish_pending c t root w' \<or> bw_intent w' = NoIntent" using that(1) by (auto simp: boot_state_defs)
    then show ?thesis
      using False by (simp, intro ends_pcatch ends_pbind, intro ends_mono[OF ends_restore_consistent[OF that(1)]])
        (auto split: ending.splits sum.splits)
  qed (use that in simp)
  have k: "ends (?k done1) w' ?Q" if "?mid (Returned (Ok done1)) w'" for done1 w'
    by (rule kk) (use that in simp_all)
  show ?thesis
    unfolding bootstrap_turn_end_def
  proof (rule ends_pbind, rule ends_mono[OF first])
    fix r w' assume m: "?mid r w'"
    show "case r of Returned (Inl e) \<Rightarrow> ?Q (Returned (Inl e)) w' | Returned (Inr x) \<Rightarrow> ends (?k x) w' ?Q | Died \<Rightarrow> ?Q Died w'"
    proof (cases r)
      case (Returned x)
      then show ?thesis using m k by (cases x) simp_all
    qed (use m in simp)
  qed
qed

text \<open>Starts of the bot: each with its own faults and with the sandbox up or not.\<close>

primrec boot_starts :: "millis \<Rightarrow> (bool \<times> fault list) list \<Rightarrow> boot_world \<Rightarrow> boot_world" where
  "boot_starts now [] w = w"
| "boot_starts now (x # xs) w = boot_starts now xs (after_proc (recover_bootstrap_finalization now (fst x)) w (snd x))"

lemma starts_consistent: "boot_consistent c t root w \<Longrightarrow> boot_consistent c t root (boot_starts now xs w)"
  by (induction xs arbitrary: w) (simp_all add: ends_after[OF ends_recover])

text \<open>C39: the end of the interview survives crashes.  A turn in bootstrap mode that ends while the answers are
  complete and the identity is in the sandbox may fail or die at any action, and so may any number of starts
  of the bot after it, with the sandbox up or down.  A start without faults then succeeds, and leaves the
  agent with no intent on disk and either through: no marker and no active session in the conversation, or
  still in its interview, with the marker in place.  The agent is never left out of the interview with the
  session of the interview active.\<close>

theorem bootstrap_end_survives_crashes:
  assumes "missing_stages c t (bw_interview w) = []" and "guest_complete w" and "mirror_regular (bw_mirror w)"
    and "bw_intent w = NoIntent" and "bw_marker w = MarkerFile b"
  shows "\<exists>w'. recover_bootstrap_finalization now True
        (boot_starts now starts (after_proc (bootstrap_turn_end now up c t root signaled) w fs), []) = (Returned (Ok ()), w', [])
     \<and> bw_intent w' = NoIntent
     \<and> ((bw_marker w' = NoMarker \<and> get_active_session c t (bw_sessions w') = None) \<or> (\<exists>b'. bw_marker w' = MarkerFile b'))"
proof -
  have a: "answered_world c t w" using assms by (simp add: answered_world_def)
  have "ends (bootstrap_turn_end now up c t root signaled) w (\<lambda>r w'. boot_consistent c t root w')"
    by (rule ends_mono[OF ends_turn_end[OF a assms(4,5)]]) simp
  from ends_after[OF this, of fs] have "boot_consistent c t root (after_proc (bootstrap_turn_end now up c t root signaled) w fs)" .
  from starts_consistent[OF this, of now starts]
  have "boot_consistent c t root (boot_starts now starts (after_proc (bootstrap_turn_end now up c t root signaled) w fs))" .
  from recover_run[OF this, of now] show ?thesis by (auto simp: boot_completed_def in_bootstrap_def)
qed

text \<open>An agent at the end of its interview.\<close>

definition boot_example :: boot_world where
  "boot_example = \<lparr>bw_marker = MarkerFile True, bw_intent = NoIntent,
     bw_mirror = \<lparr>mf_dest = (\<lambda>_. None), mf_staged = (\<lambda>_. None), mf_backup = (\<lambda>_. None)\<rparr>,
     bw_guest = (\<lambda>n. if n \<in> set IDENTITY_FILES then Some [78] else None),
     bw_sessions = \<lparr>sd_rows = [\<lparr>ss_id = 1, ss_chat = 1, ss_thread = 0, ss_root = [7], ss_label = None, ss_active = True,
        ss_created = 0, ss_used = 0\<rparr>], sd_seq = 1\<rparr>,
     bw_interview = \<lparr>iv_owner = Some \<lparr>bo_chat = 1, bo_thread = 0\<rparr>,
        iv_answers = map (\<lambda>(s, i). \<lparr>ba_chat = 1, ba_thread = 0, ba_stage = s, ba_answer = [65], ba_source = i, ba_at = 0\<rparr>)
          (zip STAGES [11, 13, 15, 17, 19]), iv_questions = []\<rparr>,
     bw_host_backup = (\<lambda>_. None), bw_guest_backup = (\<lambda>_. None)\<rparr>"

lemma boot_example_ready:
  "missing_stages 1 0 (bw_interview boot_example) = []" "guest_complete boot_example" "mirror_regular (bw_mirror boot_example)"
  "bw_intent boot_example = NoIntent" "bw_marker boot_example = MarkerFile True"
proof -
  show "missing_stages 1 0 (bw_interview boot_example) = []" by code_simp
  show "guest_complete boot_example" by code_simp
qed (simp_all add: boot_example_def mirror_regular_def)

text \<open>The process dies after the session was deactivated, and dies again in the first start.\<close>

lemma bootstrap_end_survives_crashes_witness:
  "\<exists>w'. recover_bootstrap_finalization 5 True
        (boot_starts 5 [(True, [CrashBefore])] (after_proc (bootstrap_turn_end 5 True 1 0 [7] True) boot_example
           (replicate 18 FaultNone @ [CrashAfter])), []) = (Returned (Ok ()), w', [])
     \<and> bw_intent w' = NoIntent"
  using bootstrap_end_survives_crashes[OF boot_example_ready, where now = 5 and starts = "[(True, [CrashBefore])]" and up = True
    and root = "[7]" and signaled = True and fs = "replicate 18 FaultNone @ [CrashAfter]"] by blast

text \<open>What the user is told of the end of the interview is true.  Under every script, a turn that reports
  the interview complete leaves no marker, no intent and no active session; one that reports it pending
  leaves the marker in place, so that the next message continues the interview.\<close>

theorem bootstrap_report_is_true:
  assumes "missing_stages c t (bw_interview w) = []" and "guest_complete w" and "mirror_regular (bw_mirror w)"
    and "bw_intent w = NoIntent" and "bw_marker w = MarkerFile b"
    and "bootstrap_turn_end now up c t root signaled (w, fs) = (Returned (Ok report), w', fs')"
  shows "(report = BootstrapComplete \<longrightarrow> bw_marker w' = NoMarker \<and> bw_intent w' = NoIntent
            \<and> get_active_session c t (bw_sessions w') = None)
       \<and> (report = BootstrapPending \<longrightarrow> (\<exists>b'. bw_marker w' = MarkerFile b'))"
proof -
  have a: "answered_world c t w" using assms by (simp add: answered_world_def)
  show ?thesis using endsD[OF ends_turn_end[OF a assms(4,5)] assms(6)] by (simp add: boot_completed_def)
qed


lemma bootstrap_report_is_true_witness:
  "\<exists>w' fs'. bootstrap_turn_end 5 True 1 0 [7] True (boot_example, []) = (Returned (Ok BootstrapComplete), w', fs')
     \<and> bw_marker w' = NoMarker \<and> get_active_session 1 0 (bw_sessions w') = None"
proof -
  obtain r w' fs' where r: "bootstrap_turn_end 5 True 1 0 [7] True (boot_example, []) = (r, w', fs')" by (metis prod.collapse)
  have "fst (bootstrap_turn_end 5 True 1 0 [7] True (boot_example, [])) = Returned (Ok BootstrapComplete)" by code_simp
  then have c: "bootstrap_turn_end 5 True 1 0 [7] True (boot_example, []) = (Returned (Ok BootstrapComplete), w', fs')"
    using r by simp
  from bootstrap_report_is_true[OF boot_example_ready c] c show ?thesis by blast
qed

section \<open>Back to the interview\<close>

definition host_same :: "boot_world \<Rightarrow> boot_world \<Rightarrow> bool" where
  "host_same w w' = (bw_mirror w' = bw_mirror w \<and> bw_marker w' = bw_marker w \<and> bw_intent w' = bw_intent w
     \<and> bw_sessions w' = bw_sessions w \<and> bw_interview w' = bw_interview w)"

definition guest_empty :: "boot_world \<Rightarrow> bool" where
  "guest_empty w = (\<forall>n \<in> set IDENTITY_FILES. bw_guest w n = None)"

definition boot_reset :: "bool \<Rightarrow> boot_world \<Rightarrow> bool" where
  "boot_reset has_db w =
     (guest_empty w \<and> (\<forall>n \<in> set IDENTITY_FILES. mf_dest (bw_mirror w) n = None) \<and> bw_marker w = MarkerFile True
      \<and> bw_intent w = NoIntent
      \<and> (has_db \<longrightarrow> (\<forall>r \<in> set (sd_rows (bw_sessions w)). \<not> ss_active r) \<and> bw_interview w = empty_interview))"

lemma keeps_each_file: "(\<And>n. keeps P (f n)) \<Longrightarrow> keeps P (each_file f ns)"
  by (induction ns) (simp_all add: keeps_pbind)

lemma keeps_backup_phases:
  "keeps (\<lambda>w'. host_same w w') (each_file backup_host_file ns)"
  "keeps (\<lambda>w'. host_same w w') (each_file backup_guest_file ns)"
  "keeps (\<lambda>w'. host_same w w') (each_file (delete_guest_file takes) ns)"
  unfolding backup_host_file_def backup_guest_file_def delete_guest_file_def
  by (intro keeps_each_file; auto simp: host_same_def intro!: keeps_pbind keeps_paction split: option.splits mirror_entry.splits)+

lemma keeps_guest_empty_phases:
  "keeps guest_empty (each_file delete_host_file ns)" "keeps guest_empty write_bootstrap_md"
  "keeps guest_empty (deactivate_all_sessions has_db)" "keeps guest_empty (clear_bootstrap_answers has_db)" "keeps guest_empty clear_intent"
proof -
  show "keeps guest_empty (each_file delete_host_file ns)"
    unfolding delete_host_file_def
    by (intro keeps_each_file keeps_paction) (auto simp: guest_empty_def split: option.splits mirror_entry.splits)
qed (auto simp: write_bootstrap_md_def deactivate_all_sessions_def clear_bootstrap_answers_def clear_intent_def guest_empty_def
      intro!: keeps_pbind keeps_paction)

text \<open>A file that was found absent stays so while others are removed.\<close>

lemma keeps_absent_guest: "keeps (\<lambda>w. bw_guest w n = None) (delete_guest_file takes k)"
  unfolding delete_guest_file_def by (auto intro!: keeps_pbind keeps_paction)

lemma ends_delete_guest:
  "ends (delete_guest_file takes n) w (\<lambda>r w'. (\<forall>x. r = Returned (Inr x) \<longrightarrow> bw_guest w' n = None))"
  unfolding delete_guest_file_def by (intro ends_pbind) (auto intro!: ends_pbind)

lemma ends_delete_guests:
  "ends (each_file (delete_guest_file takes) ns) w (\<lambda>r w'. (\<forall>x. r = Returned (Inr x) \<longrightarrow> (\<forall>n \<in> set ns. bw_guest w' n = None)))"
proof (induction ns arbitrary: w)
  case (Cons n ns)
  have rest: "ends (each_file (delete_guest_file takes) ns) w' (\<lambda>r w''. (\<forall>x. r = Returned (Inr x) \<longrightarrow> (\<forall>k \<in> set (n # ns). bw_guest w'' k = None)))"
    if n: "bw_guest w' n = None" for w'
  proof -
    have kk: "keeps (\<lambda>w. bw_guest w n = None) (each_file (delete_guest_file takes) ns)" by (rule keeps_each_file[OF keeps_absent_guest])
    show ?thesis by (rule ends_mono[OF ends_conj[OF keepsD[of "\<lambda>w. bw_guest w n = None", OF kk n] Cons.IH[of w']]]) auto
  qed
  show ?case
    by (simp, rule ends_pbind, rule ends_mono[OF ends_delete_guest[of takes n w]])
       (use rest in \<open>auto split: ending.splits sum.splits\<close>)
qed simp

lemma ends_chain:
  assumes "keeps P m" and "P w" and "\<And>x w'. P w' \<Longrightarrow> ends (k x) w' Q" and "\<And>w' e. P w' \<Longrightarrow> Q (Returned (Err e)) w' \<and> Q Died w'"
  shows "ends (pbind m k) w Q"
  by (rule ends_pbind, rule ends_mono[OF keepsD[OF assms(1,2)]]) (use assms(3,4) in \<open>auto split: ending.splits sum.splits\<close>)

lemma ends_rebootstrap:
  "ends (rebootstrap has_db up takes) w (\<lambda>r w'. host_same w w' \<or> guest_empty w')"
proof -
  let ?S = "\<lambda>w'. host_same w w'"
  let ?Q = "\<lambda>(r :: (boot_failure, nat) ending) w'. host_same w w' \<or> guest_empty w'"
  let ?tail = "pthen (each_file delete_host_file IDENTITY_FILES) (pthen write_bootstrap_md (pbind (deactivate_all_sessions has_db) (\<lambda>n.
      pthen (clear_bootstrap_answers has_db) (pthen clear_intent (pdone n)))))"
  have kt: "keeps guest_empty ?tail"
    by (intro keeps_pbind keeps_guest_empty_phases) simp
  have tail: "ends ?tail w' ?Q" if "guest_empty w'" for w'
    by (rule ends_mono[OF keepsD[of guest_empty, OF kt that]]) simp
  have delete: "ends (pthen (each_file (delete_guest_file takes) IDENTITY_FILES) ?tail) w' ?Q" if s: "?S w'" for w'
  proof (rule ends_pbind, rule ends_mono[OF ends_conj[OF ends_delete_guests keepsD[OF keeps_backup_phases(3) s]]])
    fix r :: "(boot_failure, unit) ending" and w''
    assume a: "(\<forall>x. r = Returned (Inr x) \<longrightarrow> (\<forall>n \<in> set IDENTITY_FILES. bw_guest w'' n = None)) \<and> host_same w w''"
    then show "case r of Returned (Inl e) \<Rightarrow> ?Q (Returned (Err e)) w'' | Returned (Inr x) \<Rightarrow> ends ?tail w'' ?Q | Died \<Rightarrow> ?Q Died w''"
      using tail[of w''] by (auto simp: guest_empty_def split: ending.splits sum.splits)
  qed
  have k1: "keeps ?S (paction e (\<lambda>w. (Ok (), w)))" for e by (rule keeps_paction) simp
  have k2: "keeps ?S (paction BootSandboxDown (\<lambda>w. if up then (Ok (), w) else (Err BootSandboxDown, w)))"
    by (rule keeps_paction) simp
  have s0: "?S w" by (simp add: host_same_def)
  show ?thesis
    unfolding rebootstrap_def
    by (rule ends_chain[OF k1 s0], rule ends_chain[OF k1], assumption, rule ends_chain[OF keeps_backup_phases(1)], assumption,
        rule ends_chain[OF k2], assumption, rule ends_chain[OF keeps_backup_phases(2)], assumption, rule delete, simp_all)
qed


text \<open>What success means.\<close>

lemma keeps_absent_host: "keeps (\<lambda>w. mf_dest (bw_mirror w) n = None) (delete_host_file k)"
  unfolding delete_host_file_def by (auto intro!: keeps_paction split: option.splits mirror_entry.splits)

lemma ends_delete_hosts:
  "ends (each_file delete_host_file ns) w (\<lambda>r w'. (\<forall>x. r = Returned (Inr x) \<longrightarrow> (\<forall>n \<in> set ns. mf_dest (bw_mirror w') n = None)))"
proof (induction ns arbitrary: w)
  case (Cons n ns)
  have one: "ends (delete_host_file n) w (\<lambda>r w'. \<forall>x. r = Returned (Inr x) \<longrightarrow> mf_dest (bw_mirror w') n = None)"
    unfolding delete_host_file_def by (auto split: option.splits mirror_entry.splits)
  have rest: "ends (each_file delete_host_file ns) w' (\<lambda>r w''. (\<forall>x. r = Returned (Inr x) \<longrightarrow> (\<forall>k \<in> set (n # ns). mf_dest (bw_mirror w'') k = None)))"
    if n: "mf_dest (bw_mirror w') n = None" for w'
  proof -
    have kk: "keeps (\<lambda>w. mf_dest (bw_mirror w) n = None) (each_file delete_host_file ns)" by (rule keeps_each_file[OF keeps_absent_host])
    show ?thesis by (rule ends_mono[OF ends_conj[OF keepsD[of "\<lambda>w. mf_dest (bw_mirror w) n = None", OF kk n] Cons.IH[of w']]]) auto
  qed
  show ?case
    by (simp, rule ends_pbind, rule ends_mono[OF one]) (use rest in \<open>auto split: ending.splits sum.splits\<close>)
qed simp

lemma ends_reset_tail:
  assumes "guest_empty w" and "\<forall>n \<in> set IDENTITY_FILES. mf_dest (bw_mirror w) n = None"
  shows "ends (pthen write_bootstrap_md (pbind (deactivate_all_sessions has_db) (\<lambda>n.
      pthen (clear_bootstrap_answers has_db) (pthen clear_intent (pdone n))))) w (\<lambda>r w'. \<forall>n. r = Returned (Inr n) \<longrightarrow> boot_reset has_db w')"
proof -
  have off: "\<forall>r \<in> set (sd_rows (snd (deactivate_active_sessions db))). \<not> ss_active r" for db
    using count_where_Nil_update[of ss_active "\<lambda>r. r\<lparr>ss_active := False\<rparr>" ss_active "sd_rows db"]
    by (simp add: deactivate_active_sessions_def count_where_0)
  show ?thesis
    using assms off
    unfolding write_bootstrap_md_def deactivate_all_sessions_def clear_bootstrap_answers_def clear_intent_def
    by (intro ends_pbind) (auto simp: boot_reset_def guest_empty_def clear_interview_def empty_interview_def intro!: ends_pbind)
qed

lemma ends_ok_chain:
  assumes "ends m w (\<lambda>r w'. \<forall>x. r = Returned (Inr x) \<longrightarrow> P w')" and "\<And>x w'. P w' \<Longrightarrow> ends (k x) w' (\<lambda>r w'. \<forall>n. r = Returned (Inr n) \<longrightarrow> Q w')"
  shows "ends (pbind m k) w (\<lambda>r w'. \<forall>n. r = Returned (Inr n) \<longrightarrow> Q w')"
  by (rule ends_pbind, rule ends_mono[OF assms(1)]) (use assms(2) in \<open>auto split: ending.splits sum.splits\<close>)

lemma ends_True: "ends m w (\<lambda>r w'. \<forall>x. r = Returned (Inr x) \<longrightarrow> True)"
  by (simp add: ends_def)

lemma ends_rebootstrap_ok: "ends (rebootstrap has_db up takes) w (\<lambda>r w'. \<forall>n. r = Returned (Inr n) \<longrightarrow> boot_reset has_db w')"
proof -
  let ?R = "\<lambda>w'. \<forall>n \<in> set IDENTITY_FILES. mf_dest (bw_mirror w') n = None"
  have hosts: "ends (pthen (each_file delete_host_file IDENTITY_FILES) (pthen write_bootstrap_md (pbind (deactivate_all_sessions has_db) (\<lambda>n.
      pthen (clear_bootstrap_answers has_db) (pthen clear_intent (pdone n)))))) w' (\<lambda>r w'. \<forall>n. r = Returned (Inr n) \<longrightarrow> boot_reset has_db w')"
    if g: "guest_empty w'" for w'
  proof (rule ends_ok_chain[where P = "\<lambda>w. guest_empty w \<and> ?R w"])
    show "ends (each_file delete_host_file IDENTITY_FILES) w' (\<lambda>r w'. \<forall>x. r = Returned (Inr x) \<longrightarrow> guest_empty w' \<and> ?R w')"
      by (rule ends_mono[OF ends_conj[OF keepsD[of guest_empty, OF keeps_guest_empty_phases(1) g] ends_delete_hosts]]) simp
  qed (use ends_reset_tail in blast)
  have guests: "ends (pthen (each_file (delete_guest_file takes) IDENTITY_FILES) (pthen (each_file delete_host_file IDENTITY_FILES) (pthen write_bootstrap_md (pbind (deactivate_all_sessions has_db) (\<lambda>n.
      pthen (clear_bootstrap_answers has_db) (pthen clear_intent (pdone n))))))) w' (\<lambda>r w'. \<forall>n. r = Returned (Inr n) \<longrightarrow> boot_reset has_db w')" for w'
    by (rule ends_ok_chain[where P = guest_empty], rule ends_mono[OF ends_delete_guests], simp add: guest_empty_def, rule hosts)
  show ?thesis
    unfolding rebootstrap_def
    by (rule ends_ok_chain[OF ends_True], rule ends_ok_chain[OF ends_True], rule ends_ok_chain[OF ends_True],
        rule ends_ok_chain[OF ends_True], rule ends_ok_chain[OF ends_True], rule guests)
qed

text \<open>C40: a reset touches nothing of the host before the identity has left the sandbox.  Whatever happens to
  the reset, a removal that reports success without taking effect included, as long as one identity file is
  still in the sandbox at its end, the identity files of the host, the marker, the intent, the sessions and
  the interview are as they were.  A reset that reports success has done everything: no identity in the
  sandbox or on the host, the instructions in place in full, no intent, and, with a database, no active
  session and an empty interview.\<close>

theorem reset_is_ordered:
  assumes "rebootstrap has_db up takes (w, fs) = (r, w', fs')"
  shows "((\<exists>n \<in> set IDENTITY_FILES. bw_guest w' n \<noteq> None) \<longrightarrow>
       bw_mirror w' = bw_mirror w \<and> bw_marker w' = bw_marker w \<and> bw_intent w' = bw_intent w
       \<and> bw_sessions w' = bw_sessions w \<and> bw_interview w' = bw_interview w)
    \<and> (\<forall>n. r = Returned (Ok n) \<longrightarrow>
       (\<forall>f \<in> set IDENTITY_FILES. bw_guest w' f = None \<and> mf_dest (bw_mirror w') f = None)
       \<and> bw_marker w' = MarkerFile True \<and> bw_intent w' = NoIntent
       \<and> (has_db \<longrightarrow> (\<forall>s \<in> set (sd_rows (bw_sessions w')). \<not> ss_active s) \<and> bw_interview w' = empty_interview))"
  using endsD[OF ends_rebootstrap assms] endsD[OF ends_rebootstrap_ok assms]
  by (auto simp: host_same_def guest_empty_def boot_reset_def)

text \<open>The removal of the second file in the sandbox does nothing and says that it worked.\<close>

lemma reset_is_ordered_witness:
  "\<exists>w' fs'. rebootstrap True True (\<lambda>n. n \<noteq> ''SOUL.md'') (boot_example, []) = (Returned (Err (BootStillPresent ''SOUL.md'')), w', fs')
     \<and> bw_marker w' = MarkerFile True \<and> bw_interview w' = bw_interview boot_example"
proof -
  let ?run = "rebootstrap True True (\<lambda>n. n \<noteq> ''SOUL.md'') (boot_example, [])"
  obtain r w' fs' where r: "?run = (r, w', fs')" by (metis prod.collapse)
  have "fst ?run = Returned (Err (BootStillPresent ''SOUL.md''))" "bw_guest (fst (snd ?run)) ''SOUL.md'' = Some [78]" by code_simp+
  then have c: "?run = (Returned (Err (BootStillPresent ''SOUL.md'')), w', fs')" and left: "bw_guest w' ''SOUL.md'' \<noteq> None"
    using r by simp_all
  have "\<exists>n \<in> set IDENTITY_FILES. bw_guest w' n \<noteq> None" using left by (auto simp: IDENTITY_FILES_def)
  then show ?thesis
    using reset_is_ordered[OF c] c boot_example_ready(5) by (intro exI[of _ w'] exI[of _ fs']) simp
qed

section \<open>Resets repeated\<close>

definition world_regular :: "boot_world \<Rightarrow> bool" where
  "world_regular w = (mirror_regular (bw_mirror w) \<and> bw_marker w \<noteq> MarkerOther)"

lemma keeps_world_regular: "keeps world_regular (rebootstrap has_db up takes)"
  unfolding rebootstrap_def backup_host_file_def[abs_def] backup_guest_file_def[abs_def] delete_guest_file_def[abs_def]
    delete_host_file_def[abs_def] write_bootstrap_md_def deactivate_all_sessions_def clear_bootstrap_answers_def clear_intent_def
  by (intro keeps_pbind keeps_each_file)
     (auto intro!: keeps_paction keeps_pbind simp: world_regular_def mirror_regular_def split: option.splits mirror_entry.splits)

lemma each_file_fine:
  assumes "\<And>n w. n \<in> set ns \<Longrightarrow> P w \<Longrightarrow> \<exists>w'. f n (w, []) = (Returned (Ok ()), w', []) \<and> P w'" and "P w"
  shows "\<exists>w'. each_file f ns (w, []) = (Returned (Ok ()), w', []) \<and> P w'"
  using assms
proof (induction ns arbitrary: w)
  case (Cons n ns)
  obtain w1 where w1: "f n (w, []) = (Returned (Ok ()), w1, [])" "P w1" using Cons.prems(1)[of n w] Cons.prems(2) by auto
  obtain w2 where w2: "each_file f ns (w1, []) = (Returned (Ok ()), w2, [])" "P w2"
    using Cons.IH[OF _ w1(2)] Cons.prems(1) by auto
  have "each_file f (n # ns) (w, []) = (Returned (Ok ()), w2, [])" using w1(1) w2(1) by (simp add: pbind_run)
  then show ?case using w2(2) by blast
qed auto

lemma rebootstrap_fine:
  assumes "world_regular w"
  shows "\<exists>n w'. rebootstrap has_db True (\<lambda>_. True) (w, []) = (Returned (Ok n), w', [])"
proof -
  have "\<exists>w'. backup_host_file n (w, []) = (Returned (Ok ()), w', []) \<and> world_regular w'" if "n \<in> set IDENTITY_FILES" "world_regular w" for n w
    using that by (auto simp: backup_host_file_def world_regular_def mirror_regular_def split: option.splits mirror_entry.splits)
  from each_file_fine[of IDENTITY_FILES world_regular backup_host_file, OF this assms] obtain w1 where
    w1: "each_file backup_host_file IDENTITY_FILES (w, []) = (Returned (Ok ()), w1, [])" "world_regular w1" by blast
  have "\<exists>w'. backup_guest_file n (w, []) = (Returned (Ok ()), w', []) \<and> world_regular w'" if "world_regular w" for n w
    using that by (auto simp: backup_guest_file_def world_regular_def pbind_run)
  from each_file_fine[of IDENTITY_FILES world_regular backup_guest_file, OF this w1(2)] obtain w2 where
    w2: "each_file backup_guest_file IDENTITY_FILES (w1, []) = (Returned (Ok ()), w2, [])" "world_regular w2" by blast
  have "\<exists>w'. delete_guest_file (\<lambda>_. True) n (w, []) = (Returned (Ok ()), w', []) \<and> world_regular w'" if "world_regular w" for n w
    using that by (cases "bw_guest w n") (auto simp: delete_guest_file_def world_regular_def pbind_run)
  from each_file_fine[of IDENTITY_FILES world_regular "delete_guest_file (\<lambda>_. True)", OF this w2(2)] obtain w3 where
    w3: "each_file (delete_guest_file (\<lambda>_. True)) IDENTITY_FILES (w2, []) = (Returned (Ok ()), w3, [])" "world_regular w3" by blast
  have "\<exists>w'. delete_host_file n (w, []) = (Returned (Ok ()), w', []) \<and> world_regular w'" if "n \<in> set IDENTITY_FILES" "world_regular w" for n w
    using that by (auto simp: delete_host_file_def world_regular_def mirror_regular_def split: option.splits mirror_entry.splits)
  from each_file_fine[of IDENTITY_FILES world_regular delete_host_file, OF this w3(2)] obtain w4 where
    w4: "each_file delete_host_file IDENTITY_FILES (w3, []) = (Returned (Ok ()), w4, [])" "world_regular w4" by blast
  have m: "bw_marker w4 \<noteq> MarkerOther" using w4(2) by (simp add: world_regular_def)
  show ?thesis
    using w1(1) w2(1) w3(1) w4(1) m
    by (cases has_db) (simp_all add: rebootstrap_def write_bootstrap_md_def deactivate_all_sessions_def clear_bootstrap_answers_def
        clear_intent_def pbind_run)
qed

primrec reset_runs :: "bool \<Rightarrow> (bool \<times> (string \<Rightarrow> bool) \<times> fault list) list \<Rightarrow> boot_world \<Rightarrow> boot_world" where
  "reset_runs has_db [] w = w"
| "reset_runs has_db (x # xs) w = reset_runs has_db xs (after_proc (rebootstrap has_db (fst x) (fst (snd x))) w (snd (snd x)))"

lemma reset_runs_regular: "world_regular w \<Longrightarrow> world_regular (reset_runs has_db xs w)"
proof (induction xs arbitrary: w)
  case (Cons x xs)
  have "world_regular (after_proc (rebootstrap has_db (fst x) (fst (snd x))) w (snd (snd x)))"
    by (rule ends_after[OF keepsD[OF keeps_world_regular Cons.prems]])
  then show ?case using Cons.IH by simp
qed simp

text \<open>A reset that was interrupted is completed by running it again.  After any number of resets, each
  failing or dying at any action, with the sandbox up or down and removals that take effect or do not, a reset
  without faults whose removals take effect succeeds and leaves the agent reset in full.\<close>

theorem interrupted_reset_is_completed:
  assumes "mirror_regular (bw_mirror w)" and "bw_marker w \<noteq> MarkerOther"
  shows "\<exists>n w'. rebootstrap has_db True (\<lambda>_. True) (reset_runs has_db runs w, []) = (Returned (Ok n), w', [])
     \<and> (\<forall>f \<in> set IDENTITY_FILES. bw_guest w' f = None \<and> mf_dest (bw_mirror w') f = None)
     \<and> bw_marker w' = MarkerFile True \<and> bw_intent w' = NoIntent
     \<and> (has_db \<longrightarrow> (\<forall>s \<in> set (sd_rows (bw_sessions w')). \<not> ss_active s) \<and> bw_interview w' = empty_interview)"
proof -
  have "world_regular (reset_runs has_db runs w)" using assms by (intro reset_runs_regular) (simp add: world_regular_def)
  then obtain n w' where r: "rebootstrap has_db True (\<lambda>_. True) (reset_runs has_db runs w, []) = (Returned (Ok n), w', [])"
    using rebootstrap_fine by blast
  then show ?thesis
    using endsD[OF ends_rebootstrap_ok r] by (intro exI[of _ n] exI[of _ w']) (simp add: boot_reset_def guest_empty_def)
qed

lemma interrupted_reset_is_completed_witness:
  "\<exists>n w'. rebootstrap True True (\<lambda>_. True) (reset_runs True [(True, \<lambda>n. n = ''IDENTITY.md'', []), (True, \<lambda>_. True, replicate 20 FaultNone @ [CrashAfter]), (False, \<lambda>_. True, [])] boot_example, [])
       = (Returned (Ok n), w', [])
     \<and> bw_marker w' = MarkerFile True \<and> bw_interview w' = empty_interview"
proof -
  have "bw_marker boot_example \<noteq> MarkerOther" by (simp add: boot_example_def)
  from interrupted_reset_is_completed[OF boot_example_ready(3) this, of True "[(True, \<lambda>n. n = ''IDENTITY.md'', []), (True, \<lambda>_. True, replicate 20 FaultNone @ [CrashAfter]), (False, \<lambda>_. True, [])]"]
  show ?thesis by blast
qed

end
