(* ===== verification/Spec2Isabelle.thy ===== *)
theory Spec2Isabelle
  imports Mem_Circuit Retain_Lease Mem_Resilient Provider_Props Refresh_Props Mcp_OAuth_Props Mcp_Registry_Props Allowlist_Props Delivery_Props Cron_Run_Props Rich_Content_Props Tg_Send_Props Outbox_Props Progress_Props Curator_Props Bootstrap_Props
begin

text \<open>
  Right Agent runs Claude Code agents in sandboxes and connects them to Telegram,
  to MCP servers, to a long-term memory and to credential providers.  The program
  is a workspace of Rust crates: \<^verbatim>\<open>right\<close> is the process that owns the databases of the
  agents and serves their tools, \<^verbatim>\<open>bot\<close> is one process per agent that talks to
  Telegram, fires the cron jobs and relays results, and the \<^verbatim>\<open>right-*\<close> crates hold the
  logic the two share.  A bot never writes the database itself: it sends requests to
  the owner, and a request may be lost before or after it was carried out.

  \<^bold>\<open>Parts, theories and code\<close>

  \<^item> \<open>Prelude\<close>, \<open>Text\<close>: results of fallible code as a sum (\<open>Err e\<close>, \<open>Ok x\<close>), panics (\<open>run\<close>),
    instants in milliseconds, the list operations that stand for the rows of a SQL
    table, texts as lists of Unicode scalar values with the operations of Rust's
    standard library on them.

  \<^item> Memory (\<^verbatim>\<open>right-memory/src\<close>).  \<open>Mem_Circuit\<close> is \<^verbatim>\<open>circuit.rs\<close>, \<^verbatim>\<open>classify.rs\<close>, \<^verbatim>\<open>error.rs\<close>:
    the state is the record \<open>breaker\<close>.  \<open>Mem_Resilient\<close> is \<^verbatim>\<open>resilient.rs\<close> and \<^verbatim>\<open>status.rs\<close>: a call
    with its attempts and back-offs, and what a failed write does to the queue.
    \<open>Retain_Queue\<close> is \<^verbatim>\<open>retain_queue.rs\<close> and \<^verbatim>\<open>retain_sink.rs\<close>: the table \<^verbatim>\<open>pending_retains\<close> with
    enqueue, claim, acknowledge and drain.  \<open>Retain_Lease\<close> states what the drain asks of
    a queue as a locale and interprets it on the SQL queue and on the one in memory.

  \<^item> Provider credentials (\<^verbatim>\<open>right-providers/src\<close>).  \<open>Provider_Model\<close> holds the catalog, the
    records, the validators and the pure plans; \<open>Provider_Store\<close> the two tables and every
    operation of \<^verbatim>\<open>store.rs\<close>, each a transaction; \<open>Provider_Props\<close> their invariant and
    effects.

  \<^item> MCP servers (\<^verbatim>\<open>right-mcp/src\<close>).  \<open>Mcp_Net\<close> is the network policy of \<^verbatim>\<open>ssrf.rs\<close> on words of
    32 and 128 bits; \<open>Mcp_OAuth\<close> the discovery, registration and detection of \<^verbatim>\<open>oauth.rs\<close> and
    \<^verbatim>\<open>detect.rs\<close> against a web given as a function; \<open>Mcp_Registry\<close> the tables and operations
    of \<^verbatim>\<open>credentials.rs\<close>; \<open>Refresh\<close> the scheduler of \<^verbatim>\<open>refresh.rs\<close> as a step relation over its
    select loop and the manager of \<^verbatim>\<open>reconnect.rs\<close>.

  \<^item> Who may talk to the agent.  \<open>Allowlist\<close> is \<^verbatim>\<open>right-agent/src/agent/allowlist.rs\<close>,
    \<open>Tg_Message\<close> the message accessors and mention rules of \<^verbatim>\<open>bot/src/telegram/mention.rs\<close> and
    \<^verbatim>\<open>msg_ext.rs\<close>, \<open>Allowlist_Cmds\<close> the routing of \<^verbatim>\<open>filter.rs\<close>, the commands, the mode buttons
    and the file watcher as steps that interleave.

  \<^item> Runs and their results.  \<open>Run_Ledger\<close> is the table \<^verbatim>\<open>async_runs\<close> with every request of the
    owner that writes it (\<^verbatim>\<open>right-agent/src/async_runs.rs\<close>, \<^verbatim>\<open>right/src/db_owner_ops.rs\<close>);
    \<open>Delivery\<close> is \<^verbatim>\<open>bot/src/async_delivery.rs\<close>, the poll that relays a result, its loops and
    its sends.

  \<^item> Cron jobs.  \<open>Cron_Spec\<close> is the table \<^verbatim>\<open>cron_specs\<close> with \<^verbatim>\<open>right-agent/src/cron_spec.rs\<close>,
    \<^verbatim>\<open>cron_skill_link.rs\<close> and the tools of \<^verbatim>\<open>right_backend.rs\<close> that write it; \<open>Cron_Stream\<close> the
    output of a run, \<open>Cron_Engine\<close> the reconciler, the locks and one execution, all of
    \<^verbatim>\<open>bot/src/cron.rs\<close>.

  \<^item> What a chat gets to see (\<^verbatim>\<open>bot/src/telegram\<close>).  \<open>Rich_Content\<close> cuts and repairs rich
    messages (\<^verbatim>\<open>rich_content.rs\<close>); \<open>Tg_Send\<close> sends them, with the pause between two sends
    to a chat, the fall back to plain text and the pieces that went out (\<^verbatim>\<open>tg_bot.rs\<close>,
    \<^verbatim>\<open>rich_content.rs\<close>); \<open>Outbox\<close> validates the files an agent wants to send, groups them
    into albums and sends those (\<^verbatim>\<open>attachments.rs\<close>); \<open>Progress\<close> holds the registry of the
    turns that run, the tools a turn may call while it runs and what the bot shows of
    them (\<^verbatim>\<open>right/src/progress.rs\<close>, \<^verbatim>\<open>right_backend.rs\<close>, \<^verbatim>\<open>progress.rs\<close> of the bot).

  \<^item> Learned skills.  \<open>Skill_Learning\<close> holds the rows of the learned skills and of the
    lessons, their lifecycle by age and the requests of the owner that write them
    (\<^verbatim>\<open>right-lifecycle\<close>, \<^verbatim>\<open>learned_skills.rs\<close>, \<^verbatim>\<open>learning.rs\<close>, \<^verbatim>\<open>db_owner_ops.rs\<close>); \<open>Curator\<close>
    is the task that consolidates them, with its gate, its circuit and its report
    (\<^verbatim>\<open>learning_curator.rs\<close>).

  \<^item> The first conversation.  \<open>Sessions\<close> is the table of sessions with its requests, \<^verbatim>\<open>/new\<close> and
    \<^verbatim>\<open>/switch\<close> (\<^verbatim>\<open>db_owner_ops.rs\<close>, \<^verbatim>\<open>handler.rs\<close>); \<open>Interview\<close> the interview of a new agent
    (\<^verbatim>\<open>right-db/src/bootstrap_answers.rs\<close>, the turn in \<^verbatim>\<open>bot/src/telegram/worker.rs\<close> and the turn its
    tests check).  \<open>Faults\<close> gives procedures whose every action can fail or be the last before
    the process dies; on it stand \<open>Identity_Mirror\<close> (\<^verbatim>\<open>identity_mirror.rs\<close>) and \<open>Bootstrap_Final\<close>:
    the end of the interview, its recovery at a start and the reset to it (\<^verbatim>\<open>worker.rs\<close>,
    \<^verbatim>\<open>rebootstrap.rs\<close>).

  \<^bold>\<open>How the code is rendered\<close>

  A struct is a record, an enum a datatype with the constructors of the source, a SQL
  table a list of rows with the constraints its statements enforce, a transaction a
  function that returns the old tables with its error.  Every early return is a branch.
  A panic is a value (\<open>Panicked\<close>) where the code can reach one.  Code that is not in the
  repository is an argument: parsers (JSON, YAML, URLs, RFC 3339, cron expressions),
  the network, the clock, the answers of Telegram and of the guest; what is asked of
  them stands as a hypothesis, and each hypothesis is met by a concrete function in a
  witness.  Concurrency is a sequence of steps in any order: the select loop of the
  scheduler, the handlers of the allowlist, the requests to the owner with every way
  they can fail.  A command that makes two requests takes as an argument what the owner serves
  between them.  A send to Telegram carries, beside the answer the program sees, how many
  messages were really shown.  Crashes are scripts: a list that says of each action in turn whether it
  works, fails before or after its effect, or ends the process; theorems quantify over all
  scripts.  What the machine loses of data it reported as synced is not part of it.  Integers are kept at their width where it matters (addresses, the
  \<^verbatim>\<open>i64\<close> of SQLite and of chrono, \<^verbatim>\<open>u64\<close> counters of a JSON value).

  \<^bold>\<open>What the lemmas show\<close>

  Memory: when the breaker opens, probes and closes; that a call ends within the
  time its attempts and back-offs allow; that every row that leaves the queue was
  acknowledged, dropped by the client or too old; that a lease that lapsed can never be
  used again.  Providers: no borrow without its owner, no two credentials for one
  variable of an agent, borrowers survive the owner, and the plan that destroys an agent
  removes nothing others hold.  MCP: no request leaves to an address the policy forbids,
  at most one refresh per server is alive, a tracked server is waited for unless a refresh of
  its registration failed for good or panicked, a switch of the authentication leaves no older
  secret.  Allowlist: trust has a grantor however
  handlers interleave.  Ledger and delivery: a retried request writes nothing, the
  relay of a result is concluded at most once and tried at most three times (where a failed request
  has shown nothing, the result is shown at most once; a lemma shows a half-sent batch go out twice).
  Cron: what the tools accept can be loaded, is well formed and is what was asked for, the loops are
  those of the table, and a run that opened a row closes it, but for a forced silent run whose notice is too long.  Messages: the cuts of a rich
  message lose no word and every piece is within the platform's limits, albums keep every
  attachment, files with names of their own are all sent when success is reported, only files of the outbox leave, what a send reports is what was shown,
  and the caps of a turn hold for every interleaving of its calls.  Learned skills: a
  state changes by age alone, an archived skill leaves no link of a cron job, a lesson
  is recorded column by column as reported, and after a pass whose outcome was stored the curator
  keeps its cooldown and its circuit.  Sessions: one per conversation however requests interleave, and
  every answer of the commands says what happened.
  Interview: its answers are in order and each follows its question; where the turn agrees
  with the one the tests check (its text names the hypotheses) and where it asks an answered question again; that its end
  survives crashes at every action, and that a reset touches nothing of the host before the
  identity has left the sandbox, even when a removal there does nothing and reports success.
  Lemmas that refute an expectation (a job without a target never runs, a refused result
  is marked delivered) stand beside the theorem whose hypothesis they make necessary.

  \<^bold>\<open>Bounds and fuel\<close>

  Retry loops recurse on the number of attempts left (four for memory calls, three for a
  refresh), drains and batches on the batch, polls on the list of polls; nothing is cut
  short.  The step relations have no bound: their theorems hold for every reachable
  state.

  \<^bold>\<open>Not modelled\<close>

  The command line with its wizards and pages (\<^verbatim>\<open>right/src/main.rs\<close>, \<^verbatim>\<open>wizard.rs\<close>,
  \<^verbatim>\<open>right-ui\<close>), which ask questions and call the operations above; the dashboard and the
  HTTP layer around the owner (\<^verbatim>\<open>internal_api*.rs\<close>, \<^verbatim>\<open>right-dashboard\<close>), which decode requests
  and print answers; code generation from templates (\<^verbatim>\<open>right-codegen\<close>); the SQL driver,
  migrations and repair (\<^verbatim>\<open>right-db\<close>); the transport of the MCP proxies, of Telegram and
  of the memory service, which are third-party clients; processes, sandboxes, speech
  recognition and the vendored virtual machine; prompts and the probes that write lessons, whose
  result is what a language model answers (the tables it writes are modelled).  In the relay of a
  channel post a transport error between the owner and the bot after the bot acted is left out, and the
  commands \<^verbatim>\<open>/new\<close> and \<^verbatim>\<open>/switch\<close> are modelled with requests that are answered.  Of the
  conversation worker only the pieces named above are modelled: the rest composes
  prompts, runs the child process and edits messages.
\<close>

end
